(* ===== verification/Prelude.thy ===== *)
theory Prelude
  imports Main "HOL-Library.Word"
begin

text \<open>
  Shared vocabulary of the development: the outcome type \<open>run\<close> of code that can panic or
  recurse without bound, the hash-map and index-map operations the code uses over association
  lists, the decimal display of numbers, and the list facts the components share.

  Strings are Rust \<open>str\<close> values read as their UTF-8 bytes: a \<open>string\<close> is a list of
  \<open>char\<close>, one per byte, and \<open>length\<close> is Rust's \<open>str::len\<close>.
\<close>

named_theorems run_simps \<open>equations of the outcome type\<close>
named_theorems alist_simps \<open>lookups in association lists after an update\<close>

subsection \<open>Outcomes\<close>

text \<open>
  A function of the code returns (\<open>Done\<close>), panics (an index out of range, an
  \<open>unwrap\<close> of nothing, an explicit \<open>panic!\<close>), or recurses deeper than the fuel of the model
  (\<open>OutOfFuel\<close>: on the real machine, a stack overflow).
\<close>

datatype 'a run = Done 'a | Panicked | OutOfFuel

fun run_bind :: "'a run \<Rightarrow> ('a \<Rightarrow> 'b run) \<Rightarrow> 'b run" where
  "run_bind (Done x) f = f x"
| "run_bind Panicked f = Panicked"
| "run_bind OutOfFuel f = OutOfFuel"

definition run_map :: "('a \<Rightarrow> 'b) \<Rightarrow> 'a run \<Rightarrow> 'b run" where
  "run_map f r = run_bind r (\<lambda>x. Done (f x))"

definition returns :: "'a run \<Rightarrow> bool" where
  "returns r \<longleftrightarrow> (case r of Done _ \<Rightarrow> True | _ \<Rightarrow> False)"

lemma run_map_simps [simp, run_simps]:
  "run_map f (Done x) = Done (f x)"
  "run_map f Panicked = Panicked"
  "run_map f OutOfFuel = OutOfFuel"
  by (simp_all add: run_map_def)

lemma returns_simps [simp, run_simps]:
  "returns (Done x)" "\<not> returns Panicked" "\<not> returns OutOfFuel"
  by (simp_all add: returns_def)

lemma returns_iff: "returns r \<longleftrightarrow> (\<exists>x. r = Done x)"
  by (cases r) simp_all

lemma run_bind_cong [fundef_cong]:
  "r = r' \<Longrightarrow> (\<And>x. r' = Done x \<Longrightarrow> f x = g x) \<Longrightarrow> run_bind r f = run_bind r' g"
  by (cases r') simp_all

lemma run_bind_Done_iff: "run_bind r f = Done y \<longleftrightarrow> (\<exists>x. r = Done x \<and> f x = Done y)"
  by (cases r) simp_all

lemma run_bind_assoc [run_simps]:
  "run_bind (run_bind r f) g = run_bind r (\<lambda>x. run_bind (f x) g)"
  by (cases r) simp_all

lemma run_bind_Done_right [simp]: "run_bind r Done = r"
  by (cases r) simp_all

lemma run_map_map: "run_map f (run_map g r) = run_map (\<lambda>x. f (g x)) r"
  by (cases r) simp_all

lemma run_map_id [simp]: "run_map (\<lambda>x. x) r = r"
  by (cases r) simp_all

lemma run_bind_run_map [run_simps]: "run_bind (run_map f r) g = run_bind r (\<lambda>x. g (f x))"
  by (cases r) simp_all

lemma run_map_run_bind [run_simps]: "run_map f (run_bind r g) = run_bind r (\<lambda>x. run_map f (g x))"
  by (cases r) simp_all

lemma run_bind_OutOfFuel_iff:
  "run_bind r f = OutOfFuel \<longleftrightarrow> r = OutOfFuel \<or> (\<exists>x. r = Done x \<and> f x = OutOfFuel)"
  by (cases r) simp_all

lemma run_map_OutOfFuel_iff [simp]: "run_map f r = OutOfFuel \<longleftrightarrow> r = OutOfFuel"
  by (cases r) simp_all

lemma run_map_Done: "run_map f r = Done y \<longleftrightarrow> (\<exists>x. r = Done x \<and> y = f x)"
  by (cases r) auto

text \<open>A state transformer that may fail, and two of them in sequence.\<close>

type_synonym 'st step = "'st \<Rightarrow> 'st run"

definition seq :: "'st step \<Rightarrow> 'st step \<Rightarrow> 'st step" where
  "seq f g = (\<lambda>st. run_bind (f st) g)"

lemma seq_Done [simp]: "seq Done g = g" "seq f Done = f"
  by (simp_all add: seq_def)

lemma seq_assoc: "seq (seq f g) h = seq f (seq g h)"
  by (simp add: seq_def run_bind_assoc)

text \<open>A \<open>for\<close> loop over a list, its body a step.\<close>

fun for_each :: "('a \<Rightarrow> 'st step) \<Rightarrow> 'a list \<Rightarrow> 'st step" where
  "for_each f [] = Done"
| "for_each f (x # xs) = seq (f x) (for_each f xs)"

lemma for_each_cong [fundef_cong]:
  "xs = ys \<Longrightarrow> (\<And>x. x \<in> set ys \<Longrightarrow> f x = g x) \<Longrightarrow> for_each f xs = for_each g ys"
  by (induction ys arbitrary: xs) simp_all

lemma for_each_append: "for_each f (xs @ ys) = seq (for_each f xs) (for_each f ys)"
  by (induction xs) (simp_all add: seq_assoc)

lemma for_each_concat: "for_each f (concat (map g xs)) = for_each (\<lambda>x. for_each f (g x)) xs"
  by (induction xs) (simp_all add: for_each_append)

lemma for_each_map: "for_each f (map g xs) = for_each (\<lambda>x. f (g x)) xs"
  by (induction xs) simp_all

subsection \<open>Results\<close>

text \<open>Rust's \<open>Result\<close> is a sum, the error on the left; \<open>result_bind\<close> is the \<open>?\<close> operator.\<close>

fun result_bind :: "'e + 'a \<Rightarrow> ('a \<Rightarrow> 'e + 'b) \<Rightarrow> 'e + 'b" where
  "result_bind (Inl e) f = Inl e"
| "result_bind (Inr x) f = f x"

lemma result_bind_cong [fundef_cong]:
  "r = r' \<Longrightarrow> (\<And>x. r' = Inr x \<Longrightarrow> f x = g x) \<Longrightarrow> result_bind r f = result_bind r' g"
  by (cases r') simp_all

lemma result_bind_Inr_iff: "result_bind r f = Inr y \<longleftrightarrow> (\<exists>x. r = Inr x \<and> f x = Inr y)"
  by (cases r) simp_all

subsection \<open>Maps of the code as association lists\<close>

text \<open>
  \<open>BTreeMap\<close>, \<open>HashMap\<close> and \<open>IndexMap\<close> are association lists with distinct keys, read with
  \<open>map_of\<close>. \<open>alist_insert\<close> is \<open>insert\<close>: it replaces the value of a known key in place and
  appends a new key at the end, as \<open>IndexMap\<close> does. \<open>alist_update_with d f k\<close> is the idiom
  \<open>entry(k).or_default()\<close> followed by a mutation.
\<close>

type_synonym ('k, 'v) alist = "('k \<times> 'v) list"

fun alist_insert :: "'k \<Rightarrow> 'v \<Rightarrow> ('k, 'v) alist \<Rightarrow> ('k, 'v) alist" where
  "alist_insert k v [] = [(k, v)]"
| "alist_insert k v ((k', v') # m) = (if k' = k then (k, v) # m else (k', v') # alist_insert k v m)"

fun alist_update_with :: "'v \<Rightarrow> ('v \<Rightarrow> 'v) \<Rightarrow> 'k \<Rightarrow> ('k, 'v) alist \<Rightarrow> ('k, 'v) alist" where
  "alist_update_with d f k [] = [(k, f d)]"
| "alist_update_with d f k ((k', v) # m) =
     (if k' = k then (k, f v) # m else (k', v) # alist_update_with d f k m)"

definition alist_remove :: "'k \<Rightarrow> ('k, 'v) alist \<Rightarrow> ('k, 'v) alist" where
  "alist_remove k m = filter (\<lambda>(k', _). k' \<noteq> k) m"

definition contains_key :: "('k, 'v) alist \<Rightarrow> 'k \<Rightarrow> bool" where
  "contains_key m k \<longleftrightarrow> map_of m k \<noteq> None"

definition get_list :: "('k, 'v list) alist \<Rightarrow> 'k \<Rightarrow> 'v list" where
  "get_list m k = (case map_of m k of None \<Rightarrow> [] | Some vs \<Rightarrow> vs)"

lemma contains_key_iff: "contains_key m k \<longleftrightarrow> k \<in> fst ` set m"
  by (simp add: contains_key_def map_of_eq_None_iff)

lemma set_alist_insert: "set (alist_insert k v m) \<subseteq> insert (k, v) (set m)"
  by (induction k v m rule: alist_insert.induct) auto

lemma map_of_alist_insert [simp, alist_simps]:
  "map_of (alist_insert k v m) = (map_of m)(k \<mapsto> v)"
  by (induction m) auto

lemma fst_alist_insert: "fst ` set (alist_insert k v m) = insert k (fst ` set m)"
  by (induction k v m rule: alist_insert.induct) (simp_all add: insert_commute)

lemma distinct_alist_insert:
  "distinct (map fst m) \<Longrightarrow> distinct (map fst (alist_insert k v m))"
  by (induction k v m rule: alist_insert.induct) (auto simp: fst_alist_insert)

lemma map_of_alist_update_with [simp, alist_simps]:
  "map_of (alist_update_with d f k m) =
     (map_of m)(k \<mapsto> f (case map_of m k of None \<Rightarrow> d | Some v \<Rightarrow> v))"
  by (induction m) auto

lemma fst_alist_update_with: "fst ` set (alist_update_with d f k m) = insert k (fst ` set m)"
  by (induction d f k m rule: alist_update_with.induct) (simp_all add: insert_commute)

lemma distinct_alist_update_with:
  "distinct (map fst m) \<Longrightarrow> distinct (map fst (alist_update_with d f k m))"
  by (induction d f k m rule: alist_update_with.induct) (auto simp: fst_alist_update_with)

lemma map_of_alist_remove [simp, alist_simps]:
  "map_of (alist_remove k m) = (map_of m)(k := None)"
  by (induction m) (auto simp: alist_remove_def)

lemma get_list_update_with [simp, alist_simps]:
  "get_list (alist_update_with [] f k m) k' = (if k' = k then f (get_list m k) else get_list m k')"
  by (auto simp: get_list_def split: option.splits)

lemma get_list_Nil [simp]: "get_list [] k = []"
  by (simp add: get_list_def)

lemma get_list_no_key: "k \<notin> fst ` set m \<Longrightarrow> get_list m k = []"
  by (simp add: get_list_def map_of_eq_None_iff [symmetric])

subsection \<open>Text\<close>

text \<open>\<open>str::strip_prefix\<close> and \<open>str::strip_suffix\<close> of one byte, and the decimal display.\<close>

fun strip_prefix :: "char \<Rightarrow> string \<Rightarrow> string option" where
  "strip_prefix c [] = None"
| "strip_prefix c (x # xs) = (if x = c then Some xs else None)"

definition strip_suffix :: "char \<Rightarrow> string \<Rightarrow> string option" where
  "strip_suffix c s = (if s \<noteq> [] \<and> last s = c then Some (butlast s) else None)"

lemma strip_suffix_snoc [simp]: "strip_suffix c (s @ [c']) = (if c' = c then Some s else None)"
  by (simp add: strip_suffix_def)

lemma strip_suffix_Nil [simp]: "strip_suffix c [] = None"
  by (simp add: strip_suffix_def)

lemma strip_suffix_length: "strip_suffix c s = Some t \<Longrightarrow> length t < length s"
  by (auto simp: strip_suffix_def split: if_splits)

lemma strip_prefix_length: "strip_prefix c s = Some t \<Longrightarrow> length t < length s"
  by (cases s) (auto split: if_splits)

text \<open>A UTF-8 continuation byte (\<open>10xxxxxx\<close>): a position before one is no character boundary.\<close>

definition is_continuation :: "char \<Rightarrow> bool" where
  "is_continuation c \<longleftrightarrow> 128 \<le> (of_char c :: nat) \<and> (of_char c :: nat) < 192"

definition digit_char :: "nat \<Rightarrow> char" where
  "digit_char d = char_of (48 + d)"

fun show_nat :: "nat \<Rightarrow> string" where
  "show_nat n = (if n < 10 then [digit_char n] else show_nat (n div 10) @ [digit_char (n mod 10)])"

declare show_nat.simps [simp del]

text \<open>A text between double quotes, as the messages of the code print names.\<close>

definition quoted :: "string \<Rightarrow> string" where
  "quoted s = [CHR 0x22] @ s @ [CHR 0x22]"

text \<open>\<open>slice::join\<close> for strings.\<close>

fun join :: "string \<Rightarrow> string list \<Rightarrow> string" where
  "join sep [] = []"
| "join sep [s] = s"
| "join sep (s # t # ss) = s @ sep @ join sep (t # ss)"

subsection \<open>Machine integers\<close>

type_synonym usize = "64 word"

text \<open>\<open>usize::saturating_add\<close>.\<close>

definition saturating_add :: "usize \<Rightarrow> usize \<Rightarrow> usize" where
  "saturating_add a b = (if unat a + unat b < 2 ^ 64 then a + b else - 1)"

lemma unat_usize_less: "unat (a :: usize) < 2 ^ 64"
  using unsigned_less [of a, where ?'a = nat] by simp

lemma unat_saturating_add: "unat (saturating_add a b) = min (unat a + unat b) (2 ^ 64 - 1)"
  by (simp add: saturating_add_def unat_word_ariths unsigned_minus_1_eq_mask mask_eq_exp_minus_1)

lemma saturating_add_mono: "a \<le> saturating_add a b"
  using unat_usize_less [of a] by (simp add: word_le_nat_alt unat_saturating_add)

end
