(* ===== verification/Values.thy ===== *)
theory Values
  imports Prelude "HOL-Library.List_Lexorder" "HOL-Library.Char_ord"
begin

text \<open>
  The value crate (\<open>value/src/lib.rs\<close>, \<open>value/src/variables.rs\<close>): resolved values
  (\<open>ConstValue\<close>), values with variables (\<open>Value\<close>), the conversions between them, their
  equality and their display, and the variables of a request.

  \<open>number\<close> is \<open>serde_json::Number\<close>, which is not part of the repository: an opaque type whose
  HOL equality is its \<open>PartialEq\<close>. Its elements are told apart by a code that no definition of the
  model looks into; what the code asks of a number is a parameter (\<open>show_num\<close> of the functions that
  print, \<open>number_ops\<close> of the scalars).
\<close>

datatype number = Number (number_code: nat)

type_synonym name = string
type_synonym bytes = "8 word list"

datatype const_value =
    CNull
  | CNumber number
  | CString string
  | CBoolean bool
  | CBinary bytes
  | CEnum name
  | CList "const_value list"
  | CObject "(name \<times> const_value) list"

datatype gvalue =
    VVariable name
  | VNull
  | VNumber number
  | VString string
  | VBoolean bool
  | VBinary bytes
  | VEnum name
  | VList "gvalue list"
  | VObject "(name \<times> gvalue) list"

lemma map_of_size_const:
  "map_of m k = Some v \<Longrightarrow> size v < Suc (size_list (size_prod (\<lambda>_. 0) size) m)"
  by (induction m) (auto split: if_splits)

lemma map_of_size_value:
  "map_of m k = Some v \<Longrightarrow> size (v :: gvalue) < Suc (size_list (size_prod (\<lambda>_. 0) size) m)"
  by (induction m) (auto split: if_splits)

subsection \<open>Equality\<close>

text \<open>
  \<open>impl PartialEq for ConstValue\<close>: enums and strings with the same text are equal, objects are
  compared as maps.
\<close>

function const_value_eq :: "const_value \<Rightarrow> const_value \<Rightarrow> bool"
  and const_zip_eq :: "const_value list \<Rightarrow> const_value list \<Rightarrow> bool"
  and const_fields_eq :: "(name \<times> const_value) list \<Rightarrow> (name \<times> const_value) list \<Rightarrow> bool"
where
  "const_value_eq CNull w = (case w of CNull \<Rightarrow> True | _ \<Rightarrow> False)"
| "const_value_eq (CNumber a) w = (case w of CNumber b \<Rightarrow> a = b | _ \<Rightarrow> False)"
| "const_value_eq (CBoolean a) w = (case w of CBoolean b \<Rightarrow> a = b | _ \<Rightarrow> False)"
| "const_value_eq (CString a) w = (case w of CString b \<Rightarrow> a = b | CEnum b \<Rightarrow> a = b | _ \<Rightarrow> False)"
| "const_value_eq (CEnum a) w = (case w of CString b \<Rightarrow> a = b | CEnum b \<Rightarrow> a = b | _ \<Rightarrow> False)"
| "const_value_eq (CBinary a) w = (case w of CBinary b \<Rightarrow> a = b | _ \<Rightarrow> False)"
| "const_value_eq (CList a) w =
     (case w of CList b \<Rightarrow> length a = length b \<and> const_zip_eq a b | _ \<Rightarrow> False)"
| "const_value_eq (CObject a) w =
     (case w of CObject b \<Rightarrow> length a = length b \<and> const_fields_eq a b | _ \<Rightarrow> False)"
| "const_zip_eq [] bs = True"
| "const_zip_eq (a # as) bs =
     (case bs of [] \<Rightarrow> True | b # bs' \<Rightarrow> const_value_eq a b \<and> const_zip_eq as bs')"
| "const_fields_eq [] m = True"
| "const_fields_eq ((a_key, a_value) # as) m =
     ((case map_of m a_key of
         Some b_value \<Rightarrow> const_value_eq b_value a_value
       | None \<Rightarrow> False) \<and> const_fields_eq as m)"
  by pat_completeness auto
termination
  by (relation "measure (\<lambda>x. case x of
        Inl (a, b) \<Rightarrow> size a + size b
      | Inr (Inl (as, bs)) \<Rightarrow> size_list size as + size_list size bs
      | Inr (Inr (as, m)) \<Rightarrow>
          size_list (size_prod (\<lambda>_. 0) size) as + size_list (size_prod (\<lambda>_. 0) size) m)")
    (auto dest: map_of_size_const)

text \<open>\<open>#[derive(PartialEq)]\<close> on \<open>Value\<close>, with the map equality of \<open>IndexMap\<close>.\<close>

function value_eq :: "gvalue \<Rightarrow> gvalue \<Rightarrow> bool"
  and value_zip_eq :: "gvalue list \<Rightarrow> gvalue list \<Rightarrow> bool"
  and value_fields_eq :: "(name \<times> gvalue) list \<Rightarrow> (name \<times> gvalue) list \<Rightarrow> bool"
where
  "value_eq (VVariable a) w = (case w of VVariable b \<Rightarrow> a = b | _ \<Rightarrow> False)"
| "value_eq VNull w = (case w of VNull \<Rightarrow> True | _ \<Rightarrow> False)"
| "value_eq (VNumber a) w = (case w of VNumber b \<Rightarrow> a = b | _ \<Rightarrow> False)"
| "value_eq (VString a) w = (case w of VString b \<Rightarrow> a = b | _ \<Rightarrow> False)"
| "value_eq (VBoolean a) w = (case w of VBoolean b \<Rightarrow> a = b | _ \<Rightarrow> False)"
| "value_eq (VBinary a) w = (case w of VBinary b \<Rightarrow> a = b | _ \<Rightarrow> False)"
| "value_eq (VEnum a) w = (case w of VEnum b \<Rightarrow> a = b | _ \<Rightarrow> False)"
| "value_eq (VList a) w =
     (case w of VList b \<Rightarrow> length a = length b \<and> value_zip_eq a b | _ \<Rightarrow> False)"
| "value_eq (VObject a) w =
     (case w of VObject b \<Rightarrow> length a = length b \<and> value_fields_eq a b | _ \<Rightarrow> False)"
| "value_zip_eq [] bs = True"
| "value_zip_eq (a # as) bs =
     (case bs of [] \<Rightarrow> True | b # bs' \<Rightarrow> value_eq a b \<and> value_zip_eq as bs')"
| "value_fields_eq [] m = True"
| "value_fields_eq ((k, v) # as) m =
     ((case map_of m k of Some v' \<Rightarrow> value_eq v v' | None \<Rightarrow> False) \<and> value_fields_eq as m)"
  by pat_completeness auto
termination
  by (relation "measure (\<lambda>x. case x of
        Inl (a, b) \<Rightarrow> size a + size b
      | Inr (Inl (as, bs)) \<Rightarrow> size_list size as + size_list size bs
      | Inr (Inr (as, m)) \<Rightarrow>
          size_list (size_prod (\<lambda>_. 0) size) as + size_list (size_prod (\<lambda>_. 0) size) m)")
    (auto dest: map_of_size_value)

subsection \<open>Conversions\<close>

fun into_value :: "const_value \<Rightarrow> gvalue" where
  "into_value CNull = VNull"
| "into_value (CNumber num) = VNumber num"
| "into_value (CString s) = VString s"
| "into_value (CBoolean b) = VBoolean b"
| "into_value (CBinary bs) = VBinary bs"
| "into_value (CEnum v) = VEnum v"
| "into_value (CList xs) = VList (map into_value xs)"
| "into_value (CObject m) = VObject (map (\<lambda>(key, v). (key, into_value v)) m)"

text \<open>\<open>Value::into_const_with\<close>: stops at the first variable the function refuses.\<close>

fun into_const_with :: "(name \<Rightarrow> 'e + const_value) \<Rightarrow> gvalue \<Rightarrow> 'e + const_value"
  and into_const_list :: "(name \<Rightarrow> 'e + const_value) \<Rightarrow> gvalue list \<Rightarrow> 'e + const_value list"
  and into_const_fields ::
    "(name \<Rightarrow> 'e + const_value) \<Rightarrow> (name \<times> gvalue) list \<Rightarrow> 'e + (name \<times> const_value) list"
where
  "into_const_with f (VVariable n) = f n"
| "into_const_with f VNull = Inr CNull"
| "into_const_with f (VNumber num) = Inr (CNumber num)"
| "into_const_with f (VString s) = Inr (CString s)"
| "into_const_with f (VBoolean b) = Inr (CBoolean b)"
| "into_const_with f (VBinary v) = Inr (CBinary v)"
| "into_const_with f (VEnum v) = Inr (CEnum v)"
| "into_const_with f (VList xs) = result_bind (into_const_list f xs) (\<lambda>ys. Inr (CList ys))"
| "into_const_with f (VObject m) = result_bind (into_const_fields f m) (\<lambda>ys. Inr (CObject ys))"
| "into_const_list f [] = Inr []"
| "into_const_list f (x # xs) =
     result_bind (into_const_with f x) (\<lambda>y.
     result_bind (into_const_list f xs) (\<lambda>ys. Inr (y # ys)))"
| "into_const_fields f [] = Inr []"
| "into_const_fields f ((key, x) # xs) =
     result_bind (into_const_with f x) (\<lambda>y.
     result_bind (into_const_fields f xs) (\<lambda>ys. Inr ((key, y) # ys)))"

definition into_const :: "gvalue \<Rightarrow> const_value option" where
  "into_const v = (case into_const_with (\<lambda>_. Inl ()) v of Inr c \<Rightarrow> Some c | Inl _ \<Rightarrow> None)"

text \<open>\<open>referenced_variables\<close> of \<open>src/validation/utils.rs\<close>: the variables in textual order.\<close>

fun referenced_variables :: "gvalue \<Rightarrow> name list"
  and referenced_in_list :: "gvalue list \<Rightarrow> name list"
  and referenced_in_fields :: "(name \<times> gvalue) list \<Rightarrow> name list"
where
  "referenced_variables (VVariable n) = [n]"
| "referenced_variables (VList xs) = referenced_in_list xs"
| "referenced_variables (VObject m) = referenced_in_fields m"
| "referenced_variables _ = []"
| "referenced_in_list [] = []"
| "referenced_in_list (x # xs) = referenced_variables x @ referenced_in_list xs"
| "referenced_in_fields [] = []"
| "referenced_in_fields ((_, x) # xs) = referenced_variables x @ referenced_in_fields xs"

subsection \<open>Variables of a request\<close>

type_synonym variables = "(name \<times> const_value) list"

text \<open>
  \<open>Variables\<close> is a \<open>BTreeMap\<close>: an association list sorted by name. Collecting an object into
  it sorts the entries.
\<close>

definition variables_from_value :: "const_value \<Rightarrow> variables" where
  "variables_from_value v = (case v of CObject obj \<Rightarrow> sort_key fst obj | _ \<Rightarrow> [])"

definition variables_into_value :: "variables \<Rightarrow> const_value" where
  "variables_into_value vs = CObject vs"

subsection \<open>Display\<close>

text \<open>
  \<open>write_quoted\<close> on the bytes of a string. The special characters are ASCII, but for the C1
  controls U+0080 to U+009F, whose encoding is the byte \<open>C2\<close> and a second byte from \<open>80\<close> to
  \<open>9F\<close>. The format \<open>\\u{:04}\<close> prints the code point in decimal, padded with zeros to four
  digits.
\<close>

definition pad4 :: "string \<Rightarrow> string" where
  "pad4 s = replicate (4 - length s) (CHR ''0'') @ s"

definition unicode_escape :: "nat \<Rightarrow> string" where
  "unicode_escape code = [CHR 0x5C, CHR ''u''] @ pad4 (show_nat code)"

definition is_ascii_control :: "char \<Rightarrow> bool" where
  "is_ascii_control c \<longleftrightarrow> (of_char c :: nat) < 32 \<or> (of_char c :: nat) = 127"

definition is_c1_pair :: "char \<Rightarrow> char \<Rightarrow> bool" where
  "is_c1_pair c d \<longleftrightarrow>
     c = CHR 0xC2 \<and> 128 \<le> (of_char d :: nat) \<and> (of_char d :: nat) \<le> 159"

definition write_quoted_char :: "char \<Rightarrow> string" where
  "write_quoted_char c =
     (if c = CHR 0x0D then [CHR 0x5C, CHR ''r'']
      else if c = CHR 0x0A then [CHR 0x5C, CHR ''n'']
      else if c = CHR 0x09 then [CHR 0x5C, CHR ''t'']
      else if c = CHR 0x22 then [CHR 0x5C, CHR 0x22]
      else if c = CHR 0x5C then [CHR 0x5C, CHR 0x5C]
      else if is_ascii_control c then unicode_escape (of_char c)
      else [c])"

fun write_quoted_chars :: "string \<Rightarrow> string" where
  "write_quoted_chars [] = []"
| "write_quoted_chars [c] = write_quoted_char c"
| "write_quoted_chars (c # d # s) =
     (if is_c1_pair c d then unicode_escape (of_char d) @ write_quoted_chars s
      else write_quoted_char c @ write_quoted_chars (d # s))"

definition write_quoted :: "string \<Rightarrow> string" where
  "write_quoted s = [CHR 0x22] @ write_quoted_chars s @ [CHR 0x22]"

definition write_binary :: "bytes \<Rightarrow> string" where
  "write_binary bs = ''['' @ join '', '' (map (\<lambda>b. show_nat (unat b)) bs) @ '']''"

definition write_list :: "string list \<Rightarrow> string" where
  "write_list xs = ''['' @ join '', '' xs @ '']''"

definition write_object :: "(name \<times> string) list \<Rightarrow> string" where
  "write_object m = ''{'' @ join '', '' (map (\<lambda>(n, v). n @ '': '' @ v) m) @ ''}''"

fun show_const_value :: "(number \<Rightarrow> string) \<Rightarrow> const_value \<Rightarrow> string" where
  "show_const_value show_num (CNumber num) = show_num num"
| "show_const_value show_num (CString val) = write_quoted val"
| "show_const_value show_num (CBoolean True) = ''true''"
| "show_const_value show_num (CBoolean False) = ''false''"
| "show_const_value show_num (CBinary bs) = write_binary bs"
| "show_const_value show_num CNull = ''null''"
| "show_const_value show_num (CEnum n) = n"
| "show_const_value show_num (CList xs) = write_list (map (show_const_value show_num) xs)"
| "show_const_value show_num (CObject m) =
     write_object (map (\<lambda>(n, v). (n, show_const_value show_num v)) m)"

fun show_value :: "(number \<Rightarrow> string) \<Rightarrow> gvalue \<Rightarrow> string" where
  "show_value show_num (VVariable n) = ''$'' @ n"
| "show_value show_num (VNumber num) = show_num num"
| "show_value show_num (VString val) = write_quoted val"
| "show_value show_num (VBoolean True) = ''true''"
| "show_value show_num (VBoolean False) = ''false''"
| "show_value show_num (VBinary bs) = write_binary bs"
| "show_value show_num VNull = ''null''"
| "show_value show_num (VEnum n) = n"
| "show_value show_num (VList xs) = write_list (map (show_value show_num) xs)"
| "show_value show_num (VObject m) =
     write_object (map (\<lambda>(n, v). (n, show_value show_num v)) m)"

text \<open>\<open>impl Display for Variables\<close>.\<close>

definition show_variables :: "(number \<Rightarrow> string) \<Rightarrow> variables \<Rightarrow> string" where
  "show_variables show_num vs =
     ''{'' @ join '', '' (map (\<lambda>(n, v). n @ '': '' @ show_const_value show_num v) vs) @ ''}''"

end
