(* ===== verification/Ast.thy ===== *)
theory Ast
  imports Values
begin

text \<open>
  The parsed documents (\<open>parser/src/pos.rs\<close>, \<open>parser/src/types\<close>): positions, types of the type
  system as the query language writes them, directives, and executable documents. The structs
  that contain themselves (fields, selection sets, inline fragments) are datatypes with the
  struct's fields as selectors; the others are records. Hash maps of a document are association
  lists whose order stands for the unspecified iteration order.
\<close>

subsection \<open>Positions\<close>

datatype src_pos = Pos (line: nat) (column: nat)

datatype 'a positioned = Positioned (pos: src_pos) (node: 'a)

definition default_pos :: src_pos where
  "default_pos = Pos 0 0"

text \<open>\<open>#[derive(PartialOrd, Ord)]\<close> on \<open>Pos\<close>: line first, then column.\<close>

definition pos_le :: "src_pos \<Rightarrow> src_pos \<Rightarrow> bool" where
  "pos_le p q \<longleftrightarrow> line p < line q \<or> (line p = line q \<and> column p \<le> column q)"

definition pos_less :: "src_pos \<Rightarrow> src_pos \<Rightarrow> bool" where
  "pos_less p q \<longleftrightarrow> line p < line q \<or> (line p = line q \<and> column p < column q)"

instantiation src_pos :: linorder
begin

definition less_eq_src_pos :: "src_pos \<Rightarrow> src_pos \<Rightarrow> bool" where
  "less_eq_src_pos = pos_le"

definition less_src_pos :: "src_pos \<Rightarrow> src_pos \<Rightarrow> bool" where
  "less_src_pos = pos_less"

instance
  by standard (auto simp: less_eq_src_pos_def less_src_pos_def pos_le_def pos_less_def intro: src_pos.expand)

end

definition show_pos :: "src_pos \<Rightarrow> string" where
  "show_pos p = show_nat (line p) @ '':'' @ show_nat (column p)"

definition position_node :: "'a positioned \<Rightarrow> 'b \<Rightarrow> 'b positioned" where
  "position_node p other = Positioned (pos p) other"

definition positioned_map :: "('a \<Rightarrow> 'b) \<Rightarrow> 'a positioned \<Rightarrow> 'b positioned" where
  "positioned_map f p = Positioned (pos p) (f (node p))"

subsection \<open>Types\<close>

datatype operation_type = Query | Mutation | Subscription

fun show_operation_type :: "operation_type \<Rightarrow> string" where
  "show_operation_type Query = ''query''"
| "show_operation_type Mutation = ''mutation''"
| "show_operation_type Subscription = ''subscription''"

datatype gtype = GType (base: base_type) (nullable: bool)
  and base_type = BNamed name | BList gtype

fun show_type :: "gtype \<Rightarrow> string"
  and show_base_type :: "base_type \<Rightarrow> string"
where
  "show_type (GType b n) = show_base_type b @ (if n then '''' else ''!'')"
| "show_base_type (BNamed n) = n"
| "show_base_type (BList ty) = ''['' @ show_type ty @ '']''"

text \<open>\<open>Type::new\<close>: parses what \<open>Display\<close> prints.\<close>

function type_new :: "string \<Rightarrow> gtype option" where
  "type_new ty =
     (let (nullable, rest) =
        (case strip_suffix (CHR ''!'') ty of Some rest \<Rightarrow> (False, rest) | None \<Rightarrow> (True, ty))
      in case strip_prefix (CHR ''['') rest of
           Some inner \<Rightarrow>
             (case strip_suffix (CHR '']'') inner of
                None \<Rightarrow> None
              | Some elem \<Rightarrow>
                  (case type_new elem of
                     None \<Rightarrow> None
                   | Some t \<Rightarrow> Some (GType (BList t) nullable)))
         | None \<Rightarrow> Some (GType (BNamed rest) nullable))"
  by pat_completeness auto
termination
  by (relation "measure length")
    (auto dest!: strip_suffix_length strip_prefix_length split: option.splits)

declare type_new.simps [simp del]

subsection \<open>Directives\<close>

type_synonym arguments = "(name positioned \<times> gvalue positioned) list"
type_synonym const_arguments = "(name positioned \<times> const_value positioned) list"

record directive =
  dir_name :: "name positioned"
  dir_arguments :: arguments

record const_directive =
  cdir_name :: "name positioned"
  cdir_arguments :: const_arguments

definition find_argument ::
  "name \<Rightarrow> (name positioned \<times> 'v positioned) list \<Rightarrow> 'v positioned option" where
  "find_argument n args = map_option snd (List.find (\<lambda>item. node (fst item) = n) args)"

text \<open>\<open>ConstDirective::into_directive\<close> and \<open>Directive::into_const\<close>.\<close>

definition into_directive :: "const_directive \<Rightarrow> directive" where
  "into_directive d =
     \<lparr>dir_name = cdir_name d,
      dir_arguments = map (\<lambda>(n, v). (n, positioned_map into_value v)) (cdir_arguments d)\<rparr>"

fun const_arguments_of :: "arguments \<Rightarrow> const_arguments option" where
  "const_arguments_of [] = Some []"
| "const_arguments_of ((n, v) # args) =
     (case into_const (node v) of
        None \<Rightarrow> None
      | Some c \<Rightarrow> map_option (\<lambda>rest. (n, Positioned (pos v) c) # rest) (const_arguments_of args))"

definition directive_into_const :: "directive \<Rightarrow> const_directive option" where
  "directive_into_const d =
     map_option (\<lambda>args. \<lparr>cdir_name = dir_name d, cdir_arguments = args\<rparr>)
       (const_arguments_of (dir_arguments d))"

subsection \<open>Executable documents\<close>

record type_condition =
  tc_on :: "name positioned"

record fragment_spread =
  fs_fragment_name :: "name positioned"
  fs_directives :: "directive positioned list"

datatype field =
    Fld (f_alias: "name positioned option") (f_name: "name positioned") (f_arguments: arguments)
      (f_directives: "directive positioned list")
      (f_selection_set: "selection_set positioned")
  and selection_set = SelSet (items: "selection positioned list")
  and selection =
    SelField "field positioned"
  | SelSpread "fragment_spread positioned"
  | SelInline "inline_fragment positioned"
  and inline_fragment =
    InlineFrag (if_type_condition: "type_condition positioned option")
      (if_directives: "directive positioned list")
      (if_selection_set: "selection_set positioned")

record fragment_definition =
  fd_type_condition :: "type_condition positioned"
  fd_directives :: "directive positioned list"
  fd_selection_set :: "selection_set positioned"

record variable_definition =
  vd_name :: "name positioned"
  vd_type :: "gtype positioned"
  vd_directives :: "directive positioned list"
  vd_default_value :: "const_value positioned option"

record operation_definition =
  od_ty :: operation_type
  od_variable_definitions :: "variable_definition positioned list"
  od_directives :: "directive positioned list"
  od_selection_set :: "selection_set positioned"

datatype document_operations =
    Single "operation_definition positioned"
  | Multiple "(name \<times> operation_definition positioned) list"

record executable_document =
  doc_operations :: document_operations
  doc_fragments :: "(name \<times> fragment_definition positioned) list"

text \<open>\<open>VariableDefinition::default_value\<close>: a nullable variable defaults to null.\<close>

definition variable_default_value :: "variable_definition \<Rightarrow> const_value option" where
  "variable_default_value d =
     (case vd_default_value d of
        Some v \<Rightarrow> Some (node v)
      | None \<Rightarrow> if nullable (node (vd_type d)) then Some CNull else None)"

definition response_key :: "field \<Rightarrow> name positioned" where
  "response_key f = (case f_alias f of Some a \<Rightarrow> a | None \<Rightarrow> f_name f)"

definition get_argument :: "field \<Rightarrow> name \<Rightarrow> gvalue positioned option" where
  "get_argument f n = find_argument n (f_arguments f)"

fun selection_directives :: "selection \<Rightarrow> directive positioned list" where
  "selection_directives (SelField f) = f_directives (node f)"
| "selection_directives (SelSpread s) = fs_directives (node s)"
| "selection_directives (SelInline i) = if_directives (node i)"

text \<open>\<open>Selection::directives_mut\<close>: replacing the directives in place.\<close>

fun set_selection_directives :: "directive positioned list \<Rightarrow> selection \<Rightarrow> selection" where
  "set_selection_directives ds (SelField f) =
     SelField (positioned_map
       (\<lambda>g. Fld (f_alias g) (f_name g) (f_arguments g) ds (f_selection_set g)) f)"
| "set_selection_directives ds (SelSpread s) =
     SelSpread (positioned_map (\<lambda>g. g\<lparr>fs_directives := ds\<rparr>) s)"
| "set_selection_directives ds (SelInline i) =
     SelInline (positioned_map (\<lambda>g. InlineFrag (if_type_condition g) ds (if_selection_set g)) i)"

text \<open>\<open>DocumentOperations::iter\<close> and its length.\<close>

fun operations_iter :: "document_operations \<Rightarrow> (name option \<times> operation_definition positioned) list"
where
  "operations_iter (Single op) = [(None, op)]"
| "operations_iter (Multiple ops) = map (\<lambda>(n, op). (Some n, op)) ops"

subsection \<open>Sizes\<close>

text \<open>The nested occurrences count as one would expect, which the termination proofs need.\<close>

lemma size_positioned_node [simp]: "size_positioned f p = f (node p) + Suc 0"
  by (cases p) simp

lemma size_field_selection_set [termination_simp]:
  "size (node (f_selection_set f)) < size f"
  by (cases f) simp

lemma size_inline_selection_set [termination_simp]:
  "size (node (if_selection_set i)) < size i"
  by (cases i) simp

lemma size_of_list_member: "x \<in> set xs \<Longrightarrow> f x < Suc (size_list f xs)"
  by (induction xs) auto

lemma size_item [termination_simp]:
  "p \<in> set (items ss) \<Longrightarrow> size (node p) < size ss"
  by (cases ss) (auto dest!: size_of_list_member [where f = "\<lambda>p. Suc (size (node p))"])

lemma size_selection_field: "s = SelField f \<Longrightarrow> size (node f) < size s"
  by simp

lemma size_selection_inline: "s = SelInline i \<Longrightarrow> size (node i) < size s"
  by simp

end
