(* ===== verification/Registry.thy ===== *)
theory Registry
  imports Ast
begin

text \<open>
  The type registry (\<open>src/registry/mod.rs\<close>, \<open>src/registry/cache_control.rs\<close>): type names
  as strings with \<open>!\<close> and brackets, the metadata of types, fields, arguments and directives,
  and the lookups validation uses.

  Function pointers of the code (visibility and complexity functions) are opaque code pointers;
  what they compute is an argument of the definitions that call them.
\<close>

subsection \<open>Cache control\<close>

record cache_control =
  cc_public :: bool
  cc_max_age :: int

definition default_cache_control :: cache_control where
  "default_cache_control = \<lparr>cc_public = True, cc_max_age = 0\<rparr>"

definition show_int :: "int \<Rightarrow> string" where
  "show_int i = (if i < 0 then ''-'' @ show_nat (nat (- i)) else show_nat (nat i))"

definition cache_control_value :: "cache_control \<Rightarrow> string option" where
  "cache_control_value c =
     (let v = (if cc_max_age c > 0 then ''max-age='' @ show_int (cc_max_age c)
               else if cc_max_age c = -1 then ''no-cache''
               else '''');
          v = (if \<not> cc_public c then (if v \<noteq> [] then v @ '', '' else v) @ ''private'' else v)
      in if v \<noteq> [] then Some v else None)"

definition merge_max_age :: "int \<Rightarrow> int \<Rightarrow> int" where
  "merge_max_age a b =
     (if a = -1 then -1
      else if b = -1 then -1
      else if b = 0 then a
      else if a = 0 then b
      else min a b)"

definition cache_merge :: "cache_control \<Rightarrow> cache_control \<Rightarrow> cache_control" where
  "cache_merge c other =
     \<lparr>cc_public = (cc_public c \<and> cc_public other),
      cc_max_age = merge_max_age (cc_max_age c) (cc_max_age other)\<rparr>"

subsection \<open>Type names\<close>

datatype meta_type_name = MList string | MNonNull string | MNamed string

fun show_meta_type_name :: "meta_type_name \<Rightarrow> string" where
  "show_meta_type_name (MNamed n) = n"
| "show_meta_type_name (MNonNull n) = n @ ''!''"
| "show_meta_type_name (MList n) = ''['' @ n @ '']''"

text \<open>
  \<open>strip_brackets\<close> removes the opening bracket and, unchecked, the last byte: the slice panics
  when nothing is left or when the cut is not at a character boundary.
\<close>

definition strip_brackets :: "string \<Rightarrow> string option run" where
  "strip_brackets type_name =
     (case strip_prefix (CHR ''['') type_name of
        None \<Rightarrow> Done None
      | Some rest \<Rightarrow>
          if rest = [] \<or> is_continuation (last rest) then Panicked
          else Done (Some (butlast rest)))"

definition mtn_create :: "string \<Rightarrow> meta_type_name run" where
  "mtn_create type_name =
     (case strip_suffix (CHR ''!'') type_name of
        Some t \<Rightarrow> Done (MNonNull t)
      | None \<Rightarrow>
          run_bind (strip_brackets type_name)
            (\<lambda>r. case r of Some t \<Rightarrow> Done (MList t) | None \<Rightarrow> Done (MNamed type_name)))"

text \<open>The length of the text a type name stands for decreases from a name to its parts.\<close>

fun mtn_length :: "meta_type_name \<Rightarrow> nat" where
  "mtn_length (MNamed s) = length s"
| "mtn_length (MNonNull s) = length s + 1"
| "mtn_length (MList s) = length s + 2"

lemma mtn_create_length: "mtn_create s = Done t \<Longrightarrow> mtn_length t \<le> length s"
proof -
  assume t: "mtn_create s = Done t"
  have 1: "strip_suffix (CHR ''!'') s = Some u \<Longrightarrow> length u + 1 = length s" for u
    by (auto simp: strip_suffix_def split: if_splits)
  have 2: "strip_brackets s = Done (Some u) \<Longrightarrow> length u + 2 = length s" for u
    by (cases s) (auto simp: strip_brackets_def split: if_splits)
  show ?thesis
    using t 1 2
    by (auto simp: mtn_create_def run_bind_Done_iff split: option.splits)
qed

lemma mtn_create_part_length:
  "mtn_create s = Done (MList t) \<Longrightarrow> length t < length s"
  "mtn_create s = Done (MNonNull t) \<Longrightarrow> length t < length s"
  by (auto dest!: mtn_create_length)

function concrete_typename :: "string \<Rightarrow> string run" where
  "concrete_typename type_name =
     run_bind (mtn_create type_name) (\<lambda>t. case t of
         MList s \<Rightarrow> concrete_typename s
       | MNonNull s \<Rightarrow> concrete_typename s
       | MNamed s \<Rightarrow> Done s)"
  by pat_completeness auto
termination
  by (relation "measure length") (auto dest: mtn_create_part_length)

declare concrete_typename.simps [simp del]

fun is_non_null :: "meta_type_name \<Rightarrow> bool" where
  "is_non_null (MNonNull _) = True"
| "is_non_null _ = False"

fun unwrap_non_null :: "meta_type_name \<Rightarrow> meta_type_name run" where
  "unwrap_non_null (MNonNull ty) = mtn_create ty"
| "unwrap_non_null t = Done t"

function (sequential) is_subtype :: "meta_type_name \<Rightarrow> meta_type_name \<Rightarrow> bool run" where
  "is_subtype (MNonNull super_type) (MNonNull sub_type) =
     run_bind (mtn_create super_type) (\<lambda>a. run_bind (mtn_create sub_type) (\<lambda>b. is_subtype a b))"
| "is_subtype (MNamed super_type) (MNonNull sub_type) =
     run_bind (mtn_create super_type) (\<lambda>a. run_bind (mtn_create sub_type) (\<lambda>b. is_subtype a b))"
| "is_subtype (MNamed super_type) (MNamed sub_type) = Done (super_type = sub_type)"
| "is_subtype (MList super_type) (MList sub_type) =
     run_bind (mtn_create super_type) (\<lambda>a. run_bind (mtn_create sub_type) (\<lambda>b. is_subtype a b))"
| "is_subtype _ _ = Done False"
  by pat_completeness auto
termination
  by (relation "measure (\<lambda>(a, b). mtn_length a + mtn_length b)")
    (auto dest!: mtn_create_length)

function mtn_is_list :: "meta_type_name \<Rightarrow> bool run" where
  "mtn_is_list (MList _) = Done True"
| "mtn_is_list (MNonNull ty) = run_bind (mtn_create ty) (\<lambda>t. mtn_is_list t)"
| "mtn_is_list (MNamed n) = Done (n \<noteq> [] \<and> last n = CHR '']'')"
  by pat_completeness auto
termination
  by (relation "measure mtn_length") (auto dest!: mtn_create_length)

subsection \<open>Metadata\<close>

type_synonym fn_ptr = nat

record directive_invocation =
  di_name :: string
  di_args :: "(string \<times> const_value) list"

definition directive_invocation_sdl :: "(number \<Rightarrow> string) \<Rightarrow> directive_invocation \<Rightarrow> string" where
  "directive_invocation_sdl show_num d =
     (let formatted_args =
        (if di_args d = [] then ''''
         else ''('' @ join '', ''
                (map (\<lambda>(n, v). n @ '': '' @ show_const_value show_num v) (di_args d)) @ '')'')
      in ''@'' @ di_name d @ formatted_args)"

datatype deprecation = NoDeprecated | Deprecated "string option"

fun is_deprecated :: "deprecation \<Rightarrow> bool" where
  "is_deprecated (Deprecated _) = True"
| "is_deprecated NoDeprecated = False"

fun deprecation_reason :: "deprecation \<Rightarrow> string option" where
  "deprecation_reason NoDeprecated = None"
| "deprecation_reason (Deprecated r) = r"

datatype semantic_nullability = SNNone | OutNonNull | InNonNull | BothNonNull

record meta_input_value =
  mi_name :: string
  mi_description :: "string option"
  mi_ty :: string
  mi_deprecation :: deprecation
  mi_default_value :: "string option"
  mi_visible :: "fn_ptr option"
  mi_inaccessible :: bool
  mi_tags :: "string list"
  mi_is_secret :: bool
  mi_directive_invocations :: "directive_invocation list"

definition meta_input_value_new :: "string \<Rightarrow> string \<Rightarrow> meta_input_value" where
  "meta_input_value_new n ty =
     \<lparr>mi_name = n, mi_description = None, mi_ty = ty, mi_deprecation = NoDeprecated,
      mi_default_value = None, mi_visible = None, mi_inaccessible = False, mi_tags = [],
      mi_is_secret = False, mi_directive_invocations = []\<rparr>"

record meta_field =
  mf_name :: string
  mf_description :: "string option"
  mf_args :: "(string \<times> meta_input_value) list"
  mf_ty :: string
  mf_deprecation :: deprecation
  mf_cache_control :: cache_control
  mf_external :: bool
  mf_requires :: "string option"
  mf_provides :: "string option"
  mf_visible :: "fn_ptr option"
  mf_shareable :: bool
  mf_inaccessible :: bool
  mf_tags :: "string list"
  mf_override_from :: "string option"
  mf_compute_complexity :: "fn_ptr option"
  mf_directive_invocations :: "directive_invocation list"
  mf_requires_scopes :: "string list"
  mf_semantic_nullability :: semantic_nullability
  mf_depth_cost :: usize

definition meta_field_new :: "string \<Rightarrow> string \<Rightarrow> meta_field" where
  "meta_field_new n ty =
     \<lparr>mf_name = n, mf_description = None, mf_args = [], mf_ty = ty,
      mf_deprecation = NoDeprecated, mf_cache_control = default_cache_control,
      mf_external = False, mf_requires = None, mf_provides = None, mf_visible = None,
      mf_shareable = False, mf_inaccessible = False, mf_tags = [], mf_override_from = None,
      mf_compute_complexity = None, mf_directive_invocations = [], mf_requires_scopes = [],
      mf_semantic_nullability = SNNone, mf_depth_cost = 1\<rparr>"

record meta_enum_value =
  me_name :: string
  me_description :: "string option"
  me_deprecation :: deprecation
  me_visible :: "fn_ptr option"
  me_inaccessible :: bool
  me_tags :: "string list"
  me_directive_invocations :: "directive_invocation list"

definition meta_enum_value_new :: "string \<Rightarrow> meta_enum_value" where
  "meta_enum_value_new n =
     \<lparr>me_name = n, me_description = None, me_deprecation = NoDeprecated, me_visible = None,
      me_inaccessible = False, me_tags = [], me_directive_invocations = []\<rparr>"

text \<open>The fields the variants of \<open>MetaType\<close> share, and the variants.\<close>

record scalar_info =
  sc_name :: string
  sc_description :: "string option"
  sc_is_valid :: "(const_value \<Rightarrow> bool) option"
  sc_visible :: "fn_ptr option"
  sc_inaccessible :: bool
  sc_tags :: "string list"
  sc_specified_by_url :: "string option"
  sc_directive_invocations :: "directive_invocation list"
  sc_requires_scopes :: "string list"

record object_info =
  ob_name :: string
  ob_description :: "string option"
  ob_fields :: "(string \<times> meta_field) list"
  ob_cache_control :: cache_control
  ob_extends :: bool
  ob_shareable :: bool
  ob_resolvable :: bool
  ob_keys :: "string list option"
  ob_visible :: "fn_ptr option"
  ob_inaccessible :: bool
  ob_interface_object :: bool
  ob_tags :: "string list"
  ob_is_subscription :: bool
  ob_rust_typename :: "string option"
  ob_directive_invocations :: "directive_invocation list"
  ob_requires_scopes :: "string list"

record interface_info =
  in_name :: string
  in_description :: "string option"
  in_fields :: "(string \<times> meta_field) list"
  in_possible_types :: "string list"
  in_extends :: bool
  in_keys :: "string list option"
  in_visible :: "fn_ptr option"
  in_inaccessible :: bool
  in_tags :: "string list"
  in_rust_typename :: "string option"
  in_directive_invocations :: "directive_invocation list"
  in_requires_scopes :: "string list"

record union_info =
  un_name :: string
  un_description :: "string option"
  un_possible_types :: "string list"
  un_visible :: "fn_ptr option"
  un_inaccessible :: bool
  un_tags :: "string list"
  un_rust_typename :: "string option"
  un_directive_invocations :: "directive_invocation list"

record enum_info =
  en_name :: string
  en_description :: "string option"
  en_enum_values :: "(string \<times> meta_enum_value) list"
  en_visible :: "fn_ptr option"
  en_inaccessible :: bool
  en_tags :: "string list"
  en_rust_typename :: "string option"
  en_directive_invocations :: "directive_invocation list"
  en_requires_scopes :: "string list"

record input_object_info =
  io_name :: string
  io_description :: "string option"
  io_input_fields :: "(string \<times> meta_input_value) list"
  io_visible :: "fn_ptr option"
  io_inaccessible :: bool
  io_tags :: "string list"
  io_rust_typename :: "string option"
  io_oneof :: bool
  io_directive_invocations :: "directive_invocation list"

datatype meta_type =
    MTScalar scalar_info
  | MTObject object_info
  | MTInterface interface_info
  | MTUnion union_info
  | MTEnum enum_info
  | MTInputObject input_object_info

datatype meta_type_id = IdScalar | IdObject | IdInterface | IdUnion | IdEnum | IdInputObject

fun type_id :: "meta_type \<Rightarrow> meta_type_id" where
  "type_id (MTScalar _) = IdScalar"
| "type_id (MTObject _) = IdObject"
| "type_id (MTInterface _) = IdInterface"
| "type_id (MTUnion _) = IdUnion"
| "type_id (MTEnum _) = IdEnum"
| "type_id (MTInputObject _) = IdInputObject"

fun mt_fields :: "meta_type \<Rightarrow> (string \<times> meta_field) list option" where
  "mt_fields (MTObject ob) = Some (ob_fields ob)"
| "mt_fields (MTInterface i) = Some (in_fields i)"
| "mt_fields _ = None"

definition field_by_name :: "meta_type \<Rightarrow> string \<Rightarrow> meta_field option" where
  "field_by_name ty n = Option.bind (mt_fields ty) (\<lambda>fields. map_of fields n)"

fun mt_name :: "meta_type \<Rightarrow> string" where
  "mt_name (MTScalar i) = sc_name i"
| "mt_name (MTObject i) = ob_name i"
| "mt_name (MTInterface i) = in_name i"
| "mt_name (MTUnion i) = un_name i"
| "mt_name (MTEnum i) = en_name i"
| "mt_name (MTInputObject i) = io_name i"

fun set_name :: "string \<Rightarrow> meta_type \<Rightarrow> meta_type" where
  "set_name n (MTScalar i) = MTScalar (i\<lparr>sc_name := n\<rparr>)"
| "set_name n (MTObject i) = MTObject (i\<lparr>ob_name := n\<rparr>)"
| "set_name n (MTInterface i) = MTInterface (i\<lparr>in_name := n\<rparr>)"
| "set_name n (MTUnion i) = MTUnion (i\<lparr>un_name := n\<rparr>)"
| "set_name n (MTEnum i) = MTEnum (i\<lparr>en_name := n\<rparr>)"
| "set_name n (MTInputObject i) = MTInputObject (i\<lparr>io_name := n\<rparr>)"

fun mt_visible :: "meta_type \<Rightarrow> fn_ptr option" where
  "mt_visible (MTScalar i) = sc_visible i"
| "mt_visible (MTObject i) = ob_visible i"
| "mt_visible (MTInterface i) = in_visible i"
| "mt_visible (MTUnion i) = un_visible i"
| "mt_visible (MTEnum i) = en_visible i"
| "mt_visible (MTInputObject i) = io_visible i"

fun is_composite :: "meta_type \<Rightarrow> bool" where
  "is_composite (MTObject _) = True"
| "is_composite (MTInterface _) = True"
| "is_composite (MTUnion _) = True"
| "is_composite _ = False"

fun is_abstract :: "meta_type \<Rightarrow> bool" where
  "is_abstract (MTInterface _) = True"
| "is_abstract (MTUnion _) = True"
| "is_abstract _ = False"

fun is_leaf :: "meta_type \<Rightarrow> bool" where
  "is_leaf (MTEnum _) = True"
| "is_leaf (MTScalar _) = True"
| "is_leaf _ = False"

fun is_input :: "meta_type \<Rightarrow> bool" where
  "is_input (MTEnum _) = True"
| "is_input (MTScalar _) = True"
| "is_input (MTInputObject _) = True"
| "is_input _ = False"

fun is_possible_type :: "meta_type \<Rightarrow> string \<Rightarrow> bool" where
  "is_possible_type (MTInterface i) type_name = (type_name \<in> set (in_possible_types i))"
| "is_possible_type (MTUnion i) type_name = (type_name \<in> set (un_possible_types i))"
| "is_possible_type (MTObject i) type_name = (ob_name i = type_name)"
| "is_possible_type _ _ = False"

fun possible_types :: "meta_type \<Rightarrow> string list option" where
  "possible_types (MTInterface i) = Some (in_possible_types i)"
| "possible_types (MTUnion i) = Some (un_possible_types i)"
| "possible_types _ = None"

text \<open>
  \<open>MetaType::type_overlap\<close>. The code first compares the two references: both point into the
  registry's \<open>types\<close>, whose entries are stored under their own name, so they are the same
  reference exactly when the names are equal.
\<close>

definition type_overlap :: "meta_type \<Rightarrow> meta_type \<Rightarrow> bool" where
  "type_overlap self ty =
     (if mt_name self = mt_name ty then True
      else if is_abstract self \<and> is_abstract ty then
        list_ex (is_possible_type ty) (case possible_types self of None \<Rightarrow> [] | Some ts \<Rightarrow> ts)
      else if is_abstract self then is_possible_type self (mt_name ty)
      else if is_abstract ty then is_possible_type ty (mt_name self)
      else False)"

fun mt_rust_typename :: "meta_type \<Rightarrow> string option" where
  "mt_rust_typename (MTScalar _) = None"
| "mt_rust_typename (MTObject i) = ob_rust_typename i"
| "mt_rust_typename (MTInterface i) = in_rust_typename i"
| "mt_rust_typename (MTUnion i) = un_rust_typename i"
| "mt_rust_typename (MTEnum i) = en_rust_typename i"
| "mt_rust_typename (MTInputObject i) = io_rust_typename i"

subsection \<open>Directives and the registry\<close>

datatype directive_location =
    LOC_QUERY | LOC_MUTATION | LOC_SUBSCRIPTION | LOC_FIELD | LOC_FRAGMENT_DEFINITION
  | LOC_FRAGMENT_SPREAD | LOC_INLINE_FRAGMENT | LOC_VARIABLE_DEFINITION | LOC_SCHEMA
  | LOC_SCALAR | LOC_OBJECT | LOC_FIELD_DEFINITION | LOC_ARGUMENT_DEFINITION | LOC_INTERFACE
  | LOC_UNION | LOC_ENUM | LOC_ENUM_VALUE | LOC_INPUT_OBJECT | LOC_INPUT_FIELD_DEFINITION

text \<open>\<open>#[derive(Debug)]\<close>: the variant's name.\<close>

fun show_location :: "directive_location \<Rightarrow> string" where
  "show_location LOC_QUERY = ''QUERY''"
| "show_location LOC_MUTATION = ''MUTATION''"
| "show_location LOC_SUBSCRIPTION = ''SUBSCRIPTION''"
| "show_location LOC_FIELD = ''FIELD''"
| "show_location LOC_FRAGMENT_DEFINITION = ''FRAGMENT_DEFINITION''"
| "show_location LOC_FRAGMENT_SPREAD = ''FRAGMENT_SPREAD''"
| "show_location LOC_INLINE_FRAGMENT = ''INLINE_FRAGMENT''"
| "show_location LOC_VARIABLE_DEFINITION = ''VARIABLE_DEFINITION''"
| "show_location LOC_SCHEMA = ''SCHEMA''"
| "show_location LOC_SCALAR = ''SCALAR''"
| "show_location LOC_OBJECT = ''OBJECT''"
| "show_location LOC_FIELD_DEFINITION = ''FIELD_DEFINITION''"
| "show_location LOC_ARGUMENT_DEFINITION = ''ARGUMENT_DEFINITION''"
| "show_location LOC_INTERFACE = ''INTERFACE''"
| "show_location LOC_UNION = ''UNION''"
| "show_location LOC_ENUM = ''ENUM''"
| "show_location LOC_ENUM_VALUE = ''ENUM_VALUE''"
| "show_location LOC_INPUT_OBJECT = ''INPUT_OBJECT''"
| "show_location LOC_INPUT_FIELD_DEFINITION = ''INPUT_FIELD_DEFINITION''"

record meta_directive =
  md_name :: string
  md_description :: "string option"
  md_locations :: "directive_location list"
  md_args :: "(string \<times> meta_input_value) list"
  md_is_repeatable :: bool
  md_visible :: "fn_ptr option"
  md_composable :: "string option"

definition argument_sdl :: "meta_input_value \<Rightarrow> string" where
  "argument_sdl argument =
     (let argument_default =
        (case mi_default_value argument of Some d \<Rightarrow> '' = '' @ d | None \<Rightarrow> '''')
      in mi_name argument @ '': '' @ mi_ty argument @ argument_default)"

datatype introspection_mode = IntrospectionOnly | IntrospectionEnabled | IntrospectionDisabled

record registry =
  reg_types :: "(string \<times> meta_type) list"
  reg_directives :: "(string \<times> meta_directive) list"
  reg_implements :: "(string \<times> string list) list"
  reg_query_type :: string
  reg_mutation_type :: "string option"
  reg_subscription_type :: "string option"
  reg_introspection_mode :: introspection_mode
  reg_enable_federation :: bool
  reg_federation_subscription :: bool
  reg_ignore_name_conflicts :: "string set"
  reg_enable_suggestions :: bool

definition add_directive :: "meta_directive \<Rightarrow> registry \<Rightarrow> registry" where
  "add_directive d r = r\<lparr>reg_directives := alist_insert (md_name d) d (reg_directives r)\<rparr>"

text \<open>\<open>IndexSet::insert\<close>: a new element goes to the end, a known one stays where it is.\<close>

definition index_set_insert :: "'a \<Rightarrow> 'a list \<Rightarrow> 'a list" where
  "index_set_insert x xs = (if x \<in> set xs then xs else xs @ [x])"

definition add_implements :: "string \<Rightarrow> string \<Rightarrow> registry \<Rightarrow> registry" where
  "add_implements ty interface r =
     r\<lparr>reg_implements :=
         alist_update_with [] (index_set_insert interface) ty (reg_implements r)\<rparr>"

definition add_key :: "string \<Rightarrow> string list option \<Rightarrow> string list option" where
  "add_key k all_keys = (case all_keys of Some ks \<Rightarrow> Some (ks @ [k]) | None \<Rightarrow> Some [k])"

definition add_keys :: "string \<Rightarrow> string \<Rightarrow> registry \<Rightarrow> registry" where
  "add_keys ty k r =
     (case map_of (reg_types r) ty of
        Some (MTObject ob) \<Rightarrow>
          r\<lparr>reg_types := alist_insert ty (MTObject (ob\<lparr>ob_keys := add_key k (ob_keys ob)\<rparr>))
                          (reg_types r)\<rparr>
      | Some (MTInterface i) \<Rightarrow>
          r\<lparr>reg_types := alist_insert ty (MTInterface (i\<lparr>in_keys := add_key k (in_keys i)\<rparr>))
                          (reg_types r)\<rparr>
      | _ \<Rightarrow> r)"

definition concrete_type_by_name :: "registry \<Rightarrow> string \<Rightarrow> meta_type option run" where
  "concrete_type_by_name r type_name =
     run_map (\<lambda>n. map_of (reg_types r) n) (concrete_typename type_name)"

fun concrete_type_by_parsed_type :: "registry \<Rightarrow> gtype \<Rightarrow> meta_type option"
  and concrete_type_by_base :: "registry \<Rightarrow> base_type \<Rightarrow> meta_type option"
where
  "concrete_type_by_parsed_type r (GType b _) = concrete_type_by_base r b"
| "concrete_type_by_base r (BNamed n) = map_of (reg_types r) n"
| "concrete_type_by_base r (BList ty) = concrete_type_by_parsed_type r ty"

end
