(* ===== verification/Visitor.thy ===== *)
theory Visitor
  imports Registry
begin

text \<open>
  The validation visitor (\<open>src/validation/visitor.rs\<close>): the context, the trait \<open>Visitor\<close> as a
  record of hooks, the composition \<open>VisitorCons\<close>, and the traversal \<open>visit\<close>.

  A hook gets the context and the visitor's own state and returns both, or panics. In the mode
  \<open>Inline\<close> the traversal enters the fragments it meets, so its recursion is bounded by the
  first argument \<open>n\<close> (fuel), which only a fragment spread spends.
\<close>

subsection \<open>Errors\<close>

record rule_error =
  re_locations :: "src_pos list"
  re_message :: string

definition rule_error_new :: "src_pos list \<Rightarrow> string \<Rightarrow> rule_error" where
  "rule_error_new locations msg = \<lparr>re_locations = locations, re_message = msg\<rparr>"

text \<open>\<open>impl Display for RuleError\<close>.\<close>

definition show_rule_error :: "rule_error \<Rightarrow> string" where
  "show_rule_error e =
     (if re_locations e = [] then ''''
      else ''['' @ join '', '' (map show_pos (re_locations e)) @ ''] '') @ re_message e"

typedecl error_source

datatype path_segment = PathField string | PathIndex nat

record server_error =
  se_message :: string
  se_source :: "error_source option"
  se_locations :: "src_pos list"
  se_path :: "path_segment list"
  se_extensions :: "(string \<times> const_value) list option"

definition server_error_new :: "string \<Rightarrow> src_pos option \<Rightarrow> server_error" where
  "server_error_new message p =
     \<lparr>se_message = message, se_source = None,
      se_locations = (case p of Some q \<Rightarrow> [q] | None \<Rightarrow> []),
      se_path = [], se_extensions = None\<rparr>"

definition server_error_of_rule_error :: "rule_error \<Rightarrow> server_error" where
  "server_error_of_rule_error e =
     \<lparr>se_message = re_message e, se_source = None, se_locations = re_locations e,
      se_path = [], se_extensions = None\<rparr>"

subsection \<open>The context\<close>

text \<open>
  The two stacks have their top at the head of the list; Rust pushes at the end of the vector.
\<close>

record visitor_context =
  vc_registry :: registry
  vc_variables :: "variables option"
  vc_operation_name :: "string option"
  vc_errors :: "rule_error list"
  vc_type_stack :: "meta_type option list"
  vc_input_type :: "meta_type_name option list"
  vc_fragments :: "(name \<times> fragment_definition positioned) list"
  vc_limit_complexity :: "usize option"
  vc_limit_depth :: "usize option"
  vc_exceeded_limit :: bool

definition visitor_context_new ::
  "registry \<Rightarrow> executable_document \<Rightarrow> variables option \<Rightarrow> string option \<Rightarrow> visitor_context" where
  "visitor_context_new r doc vars opname =
     \<lparr>vc_registry = r, vc_variables = vars, vc_operation_name = opname, vc_errors = [],
      vc_type_stack = [], vc_input_type = [], vc_fragments = doc_fragments doc,
      vc_limit_complexity = None, vc_limit_depth = None, vc_exceeded_limit = False\<rparr>"

definition report_error :: "src_pos list \<Rightarrow> string \<Rightarrow> visitor_context \<Rightarrow> visitor_context" where
  "report_error locations msg ctx =
     ctx\<lparr>vc_errors := vc_errors ctx @ [rule_error_new locations msg]\<rparr>"

definition append_errors :: "rule_error list \<Rightarrow> visitor_context \<Rightarrow> visitor_context" where
  "append_errors es ctx = ctx\<lparr>vc_errors := vc_errors ctx @ es\<rparr>"

definition set_limits ::
  "usize option \<Rightarrow> usize option \<Rightarrow> visitor_context \<Rightarrow> visitor_context" where
  "set_limits limit_complexity limit_depth ctx =
     ctx\<lparr>vc_limit_complexity := limit_complexity, vc_limit_depth := limit_depth\<rparr>"

definition check_complexity_limit :: "usize \<Rightarrow> visitor_context \<Rightarrow> visitor_context" where
  "check_complexity_limit complexity ctx =
     (case vc_limit_complexity ctx of
        Some limit \<Rightarrow> if complexity > limit then ctx\<lparr>vc_exceeded_limit := True\<rparr> else ctx
      | None \<Rightarrow> ctx)"

definition check_depth_limit :: "usize \<Rightarrow> visitor_context \<Rightarrow> visitor_context" where
  "check_depth_limit depth ctx =
     (case vc_limit_depth ctx of
        Some limit \<Rightarrow> if depth > limit then ctx\<lparr>vc_exceeded_limit := True\<rparr> else ctx
      | None \<Rightarrow> ctx)"

definition parent_type :: "visitor_context \<Rightarrow> meta_type option" where
  "parent_type ctx = (case vc_type_stack ctx of _ # t # _ \<Rightarrow> t | _ \<Rightarrow> None)"

definition current_type :: "visitor_context \<Rightarrow> meta_type option" where
  "current_type ctx = (case vc_type_stack ctx of t # _ \<Rightarrow> t | _ \<Rightarrow> None)"

definition is_known_fragment :: "visitor_context \<Rightarrow> name \<Rightarrow> bool" where
  "is_known_fragment ctx n \<longleftrightarrow> contains_key (vc_fragments ctx) n"

definition ctx_fragment :: "visitor_context \<Rightarrow> name \<Rightarrow> fragment_definition positioned option" where
  "ctx_fragment ctx n = map_of (vc_fragments ctx) n"

text \<open>\<open>with_type\<close> and \<open>with_input_type\<close>: push, run, pop.\<close>

definition push_type :: "meta_type option \<Rightarrow> visitor_context \<Rightarrow> visitor_context" where
  "push_type ty ctx = ctx\<lparr>vc_type_stack := ty # vc_type_stack ctx\<rparr>"

definition pop_type :: "visitor_context \<Rightarrow> visitor_context" where
  "pop_type ctx = ctx\<lparr>vc_type_stack := tl (vc_type_stack ctx)\<rparr>"

definition push_input_type :: "meta_type_name option \<Rightarrow> visitor_context \<Rightarrow> visitor_context" where
  "push_input_type ty ctx = ctx\<lparr>vc_input_type := ty # vc_input_type ctx\<rparr>"

definition pop_input_type :: "visitor_context \<Rightarrow> visitor_context" where
  "pop_input_type ctx = ctx\<lparr>vc_input_type := tl (vc_input_type ctx)\<rparr>"

text \<open>Steps over the context and a visitor's state.\<close>

type_synonym 's vstep = "(visitor_context \<times> 's) step"

definition on_ctx :: "(visitor_context \<Rightarrow> visitor_context) \<Rightarrow> 's vstep" where
  "on_ctx f = (\<lambda>(ctx, s). Done (f ctx, s))"

definition try_ctx :: "(visitor_context \<Rightarrow> visitor_context run) \<Rightarrow> 's vstep" where
  "try_ctx f = (\<lambda>(ctx, s). run_map (\<lambda>ctx'. (ctx', s)) (f ctx))"

definition on_state :: "('s \<Rightarrow> 's) \<Rightarrow> 's vstep" where
  "on_state f = (\<lambda>(ctx, s). Done (ctx, f s))"

definition with_type :: "meta_type option \<Rightarrow> 's vstep \<Rightarrow> 's vstep" where
  "with_type ty f = seq (on_ctx (push_type ty)) (seq f (on_ctx pop_type))"

definition with_input_type :: "meta_type_name option \<Rightarrow> 's vstep \<Rightarrow> 's vstep" where
  "with_input_type ty f = seq (on_ctx (push_input_type ty)) (seq f (on_ctx pop_input_type))"

subsection \<open>The trait\<close>

datatype visit_mode = Normal | Inline

record 's visitor =
  v_mode :: visit_mode
  v_enter_document :: "executable_document \<Rightarrow> 's vstep"
  v_exit_document :: "executable_document \<Rightarrow> 's vstep"
  v_enter_operation_definition ::
    "name option \<Rightarrow> operation_definition positioned \<Rightarrow> 's vstep"
  v_exit_operation_definition ::
    "name option \<Rightarrow> operation_definition positioned \<Rightarrow> 's vstep"
  v_enter_fragment_definition :: "name \<Rightarrow> fragment_definition positioned \<Rightarrow> 's vstep"
  v_exit_fragment_definition :: "name \<Rightarrow> fragment_definition positioned \<Rightarrow> 's vstep"
  v_enter_variable_definition :: "variable_definition positioned \<Rightarrow> 's vstep"
  v_exit_variable_definition :: "variable_definition positioned \<Rightarrow> 's vstep"
  v_enter_directive :: "directive positioned \<Rightarrow> 's vstep"
  v_exit_directive :: "directive positioned \<Rightarrow> 's vstep"
  v_enter_argument :: "name positioned \<Rightarrow> gvalue positioned \<Rightarrow> 's vstep"
  v_exit_argument :: "name positioned \<Rightarrow> gvalue positioned \<Rightarrow> 's vstep"
  v_enter_selection_set :: "selection_set positioned \<Rightarrow> 's vstep"
  v_exit_selection_set :: "selection_set positioned \<Rightarrow> 's vstep"
  v_enter_selection :: "selection positioned \<Rightarrow> 's vstep"
  v_exit_selection :: "selection positioned \<Rightarrow> 's vstep"
  v_enter_field :: "field positioned \<Rightarrow> 's vstep"
  v_exit_field :: "field positioned \<Rightarrow> 's vstep"
  v_enter_fragment_spread :: "fragment_spread positioned \<Rightarrow> 's vstep"
  v_exit_fragment_spread :: "fragment_spread positioned \<Rightarrow> 's vstep"
  v_enter_inline_fragment :: "inline_fragment positioned \<Rightarrow> 's vstep"
  v_exit_inline_fragment :: "inline_fragment positioned \<Rightarrow> 's vstep"
  v_enter_input_value :: "src_pos \<Rightarrow> meta_type_name option \<Rightarrow> gvalue \<Rightarrow> 's vstep"
  v_exit_input_value :: "src_pos \<Rightarrow> meta_type_name option \<Rightarrow> gvalue \<Rightarrow> 's vstep"

text \<open>\<open>VisitorNil\<close>, and the default of every method of the trait: do nothing.\<close>

definition visitor_nil :: "'s visitor" where
  "visitor_nil =
     \<lparr>v_mode = Normal,
      v_enter_document = (\<lambda>_. Done), v_exit_document = (\<lambda>_. Done),
      v_enter_operation_definition = (\<lambda>_ _. Done), v_exit_operation_definition = (\<lambda>_ _. Done),
      v_enter_fragment_definition = (\<lambda>_ _. Done), v_exit_fragment_definition = (\<lambda>_ _. Done),
      v_enter_variable_definition = (\<lambda>_. Done), v_exit_variable_definition = (\<lambda>_. Done),
      v_enter_directive = (\<lambda>_. Done), v_exit_directive = (\<lambda>_. Done),
      v_enter_argument = (\<lambda>_ _. Done), v_exit_argument = (\<lambda>_ _. Done),
      v_enter_selection_set = (\<lambda>_. Done), v_exit_selection_set = (\<lambda>_. Done),
      v_enter_selection = (\<lambda>_. Done), v_exit_selection = (\<lambda>_. Done),
      v_enter_field = (\<lambda>_. Done), v_exit_field = (\<lambda>_. Done),
      v_enter_fragment_spread = (\<lambda>_. Done), v_exit_fragment_spread = (\<lambda>_. Done),
      v_enter_inline_fragment = (\<lambda>_. Done), v_exit_inline_fragment = (\<lambda>_. Done),
      v_enter_input_value = (\<lambda>_ _ _. Done), v_exit_input_value = (\<lambda>_ _ _. Done)\<rparr>"

text \<open>
  \<open>VisitorCons(A, B)\<close>: each hook runs the first visitor's hook, then the second's, on the same
  context; the mode is the first's. \<open>with\<close> puts the new visitor first.
\<close>

definition on_fst :: "'a vstep \<Rightarrow> ('a \<times> 'b) vstep" where
  "on_fst f = (\<lambda>(ctx, (a, b)). run_map (\<lambda>(ctx', a'). (ctx', (a', b))) (f (ctx, a)))"

definition on_snd :: "'b vstep \<Rightarrow> ('a \<times> 'b) vstep" where
  "on_snd f = (\<lambda>(ctx, (a, b)). run_map (\<lambda>(ctx', b'). (ctx', (a, b'))) (f (ctx, b)))"

definition both :: "'a vstep \<Rightarrow> 'b vstep \<Rightarrow> ('a \<times> 'b) vstep" where
  "both f g = seq (on_fst f) (on_snd g)"

definition visitor_cons :: "'a visitor \<Rightarrow> 'b visitor \<Rightarrow> ('a \<times> 'b) visitor" where
  "visitor_cons v w =
     \<lparr>v_mode = v_mode v,
      v_enter_document = (\<lambda>d. both (v_enter_document v d) (v_enter_document w d)),
      v_exit_document = (\<lambda>d. both (v_exit_document v d) (v_exit_document w d)),
      v_enter_operation_definition =
        (\<lambda>n d. both (v_enter_operation_definition v n d) (v_enter_operation_definition w n d)),
      v_exit_operation_definition =
        (\<lambda>n d. both (v_exit_operation_definition v n d) (v_exit_operation_definition w n d)),
      v_enter_fragment_definition =
        (\<lambda>n d. both (v_enter_fragment_definition v n d) (v_enter_fragment_definition w n d)),
      v_exit_fragment_definition =
        (\<lambda>n d. both (v_exit_fragment_definition v n d) (v_exit_fragment_definition w n d)),
      v_enter_variable_definition =
        (\<lambda>d. both (v_enter_variable_definition v d) (v_enter_variable_definition w d)),
      v_exit_variable_definition =
        (\<lambda>d. both (v_exit_variable_definition v d) (v_exit_variable_definition w d)),
      v_enter_directive = (\<lambda>d. both (v_enter_directive v d) (v_enter_directive w d)),
      v_exit_directive = (\<lambda>d. both (v_exit_directive v d) (v_exit_directive w d)),
      v_enter_argument = (\<lambda>n x. both (v_enter_argument v n x) (v_enter_argument w n x)),
      v_exit_argument = (\<lambda>n x. both (v_exit_argument v n x) (v_exit_argument w n x)),
      v_enter_selection_set =
        (\<lambda>d. both (v_enter_selection_set v d) (v_enter_selection_set w d)),
      v_exit_selection_set = (\<lambda>d. both (v_exit_selection_set v d) (v_exit_selection_set w d)),
      v_enter_selection = (\<lambda>d. both (v_enter_selection v d) (v_enter_selection w d)),
      v_exit_selection = (\<lambda>d. both (v_exit_selection v d) (v_exit_selection w d)),
      v_enter_field = (\<lambda>d. both (v_enter_field v d) (v_enter_field w d)),
      v_exit_field = (\<lambda>d. both (v_exit_field v d) (v_exit_field w d)),
      v_enter_fragment_spread =
        (\<lambda>d. both (v_enter_fragment_spread v d) (v_enter_fragment_spread w d)),
      v_exit_fragment_spread =
        (\<lambda>d. both (v_exit_fragment_spread v d) (v_exit_fragment_spread w d)),
      v_enter_inline_fragment =
        (\<lambda>d. both (v_enter_inline_fragment v d) (v_enter_inline_fragment w d)),
      v_exit_inline_fragment =
        (\<lambda>d. both (v_exit_inline_fragment v d) (v_exit_inline_fragment w d)),
      v_enter_input_value = v_enter_input_value visitor_nil,
      v_exit_input_value = v_exit_input_value visitor_nil\<rparr>"

subsection \<open>The traversal\<close>

text \<open>A loop that stops once a limit is exceeded (\<open>if ctx.has_exceeded_limit() { break; }\<close>).\<close>

fun for_unless_exceeded :: "('a \<Rightarrow> 's vstep) \<Rightarrow> 'a list \<Rightarrow> 's vstep" where
  "for_unless_exceeded f [] = Done"
| "for_unless_exceeded f (x # xs) =
     (\<lambda>st. if vc_exceeded_limit (fst st) then Done st
           else seq (f x) (for_unless_exceeded f xs) st)"

lemma for_unless_exceeded_cong [fundef_cong]:
  "xs = ys \<Longrightarrow> (\<And>x. x \<in> set ys \<Longrightarrow> f x = g x) \<Longrightarrow>
     for_unless_exceeded f xs = for_unless_exceeded g ys"
  by (induction ys arbitrary: xs) (simp_all cong: if_cong)

text \<open>A step whose argument is computed from the context, by code that may panic.\<close>

definition bind_ctx :: "(visitor_context \<Rightarrow> 'a run) \<Rightarrow> ('a \<Rightarrow> 's vstep) \<Rightarrow> 's vstep" where
  "bind_ctx g f = (\<lambda>st. run_bind (g (fst st)) (\<lambda>x. f x st))"

lemma bind_ctx_cong [fundef_cong]:
  "g = g' \<Longrightarrow> (\<And>c x. g' c = Done x \<Longrightarrow> f x = f' x) \<Longrightarrow> bind_ctx g f = bind_ctx g' f'"
  unfolding bind_ctx_def by (rule ext, rule run_bind_cong) auto

text \<open>The type of the registry an object value is read against, by the expected type.\<close>

definition object_type :: "registry \<Rightarrow> meta_type_name \<Rightarrow> meta_type option run" where
  "object_type reg ty =
     run_bind (unwrap_non_null ty) (\<lambda>ty'. case ty' of
         MNamed n \<Rightarrow> run_map (\<lambda>cn. map_of (reg_types reg) cn) (concrete_typename n)
       | _ \<Rightarrow> Done None)"

text \<open>\<open>visit_input_value\<close>: lists and input objects are entered along the expected type.\<close>

fun visit_input_value ::
    "'s visitor \<Rightarrow> src_pos \<Rightarrow> meta_type_name option \<Rightarrow> gvalue \<Rightarrow> 's vstep"
  and visit_input_list :: "'s visitor \<Rightarrow> src_pos \<Rightarrow> string \<Rightarrow> gvalue list \<Rightarrow> 's vstep"
  and visit_input_fields ::
    "'s visitor \<Rightarrow> src_pos \<Rightarrow> (string \<times> meta_input_value) list \<Rightarrow> (name \<times> gvalue) list \<Rightarrow> 's vstep"
where
  "visit_input_value v p expected_ty value =
     seq (v_enter_input_value v p expected_ty value) (seq
       (case value of
          VList xs \<Rightarrow>
            (case expected_ty of
               Some ty \<Rightarrow>
                 bind_ctx (\<lambda>_. unwrap_non_null ty) (\<lambda>elem_ty. case elem_ty of
                     MList e \<Rightarrow> visit_input_list v p e xs
                   | _ \<Rightarrow> Done)
             | None \<Rightarrow> Done)
        | VObject m \<Rightarrow>
            (case expected_ty of
               Some ty \<Rightarrow>
                 bind_ctx (\<lambda>ctx. object_type (vc_registry ctx) ty) (\<lambda>found. case found of
                     Some (MTInputObject io) \<Rightarrow> visit_input_fields v p (io_input_fields io) m
                   | _ \<Rightarrow> Done)
             | None \<Rightarrow> Done)
        | _ \<Rightarrow> Done)
       (v_exit_input_value v p expected_ty value))"
| "visit_input_list v p e [] = Done"
| "visit_input_list v p e (x # xs) =
     seq (bind_ctx (\<lambda>_. mtn_create e) (\<lambda>t. visit_input_value v p (Some t) x))
         (visit_input_list v p e xs)"
| "visit_input_fields v p fs [] = Done"
| "visit_input_fields v p fs ((key, x) # m) =
     seq (case map_of fs key of
            Some input_value \<Rightarrow>
              bind_ctx (\<lambda>_. mtn_create (mi_ty input_value)) (\<lambda>t. visit_input_value v p (Some t) x)
          | None \<Rightarrow> Done)
         (visit_input_fields v p fs m)"

declare visit_input_value.simps(1) [simp del]

text \<open>The type an argument is expected to have, if the argument is known.\<close>

definition expected_type :: "meta_input_value option \<Rightarrow> meta_type_name option run" where
  "expected_type arg =
     (case arg of None \<Rightarrow> Done None | Some input_ty \<Rightarrow> run_map Some (mtn_create (mi_ty input_ty)))"

text \<open>The loop over the arguments of a field or of a directive at position \<open>p\<close>.\<close>

definition visit_arguments ::
  "'s visitor \<Rightarrow> src_pos \<Rightarrow> (visitor_context \<Rightarrow> name \<Rightarrow> meta_input_value option) \<Rightarrow>
     arguments \<Rightarrow> 's vstep" where
  "visit_arguments v p schema_arg args =
     for_each (\<lambda>(n, value).
       seq (v_enter_argument v n value) (seq
         (bind_ctx (\<lambda>ctx. expected_type (schema_arg ctx (node n)))
           (\<lambda>expected_ty. with_input_type expected_ty
             (visit_input_value v p expected_ty (node value))))
         (v_exit_argument v n value))) args"

definition field_argument :: "name \<Rightarrow> visitor_context \<Rightarrow> name \<Rightarrow> meta_input_value option" where
  "field_argument fname ctx n =
     Option.bind (parent_type ctx) (\<lambda>ty.
     Option.bind (field_by_name ty fname) (\<lambda>schema_field. map_of (mf_args schema_field) n))"

definition directive_argument :: "name \<Rightarrow> visitor_context \<Rightarrow> name \<Rightarrow> meta_input_value option" where
  "directive_argument dname ctx n =
     Option.bind (map_of (reg_directives (vc_registry ctx)) dname)
       (\<lambda>schema_directive. map_of (md_args schema_directive) n)"

definition visit_variable_definitions ::
  "'s visitor \<Rightarrow> variable_definition positioned list \<Rightarrow> 's vstep" where
  "visit_variable_definitions v =
     for_each (\<lambda>d. seq (v_enter_variable_definition v d) (v_exit_variable_definition v d))"

definition visit_directives :: "'s visitor \<Rightarrow> directive positioned list \<Rightarrow> 's vstep" where
  "visit_directives v =
     for_each (\<lambda>d.
       seq (v_enter_directive v d) (seq
         (visit_arguments v (pos d) (directive_argument (node (dir_name (node d))))
           (dir_arguments (node d)))
         (v_exit_directive v d)))"

text \<open>The type a field of the current type has, by the schema.\<close>

definition field_type :: "name \<Rightarrow> visitor_context \<Rightarrow> meta_type option run" where
  "field_type n ctx =
     (case Option.bind (current_type ctx) (\<lambda>ty. field_by_name ty n) of
        None \<Rightarrow> Done None
      | Some schema_field \<Rightarrow> concrete_type_by_name (vc_registry ctx) (mf_ty schema_field))"

definition is_subscription_type :: "meta_type option \<Rightarrow> bool" where
  "is_subscription_type ty =
     (case ty of Some (MTObject ob) \<Rightarrow> ob_is_subscription ob | _ \<Rightarrow> False)"

function (sequential) visit_selection_set ::
    "nat \<Rightarrow> 's visitor \<Rightarrow> selection_set positioned \<Rightarrow> 's vstep"
  and visit_selection :: "nat \<Rightarrow> 's visitor \<Rightarrow> selection positioned \<Rightarrow> 's vstep"
  and visit_field :: "nat \<Rightarrow> 's visitor \<Rightarrow> field positioned \<Rightarrow> 's vstep"
  and visit_fragment_spread :: "nat \<Rightarrow> 's visitor \<Rightarrow> fragment_spread positioned \<Rightarrow> 's vstep"
  and visit_inline_fragment :: "nat \<Rightarrow> 's visitor \<Rightarrow> inline_fragment positioned \<Rightarrow> 's vstep"
where
  "visit_selection_set n v ss =
     (if items (node ss) \<noteq> [] then
        seq (v_enter_selection_set v ss) (seq
          (for_unless_exceeded (visit_selection n v) (items (node ss)))
          (v_exit_selection_set v ss))
      else Done)"
| "visit_selection n v sel =
     seq (v_enter_selection v sel) (seq
       (case node sel of
          SelField fld \<Rightarrow>
            if node (f_name (node fld)) \<noteq> ''__typename'' then
              bind_ctx (field_type (node (f_name (node fld))))
                (\<lambda>ty. with_type ty (visit_field n v fld))
            else on_ctx (\<lambda>ctx.
              if is_subscription_type (current_type ctx) then
                report_error [pos fld]
                  (''Unknown field '' @ quoted ''__typename'' @ '' on type '' @
                     quoted ''Subscription'' @ ''.'') ctx
              else ctx)
        | SelSpread spread \<Rightarrow> visit_fragment_spread n v spread
        | SelInline inl \<Rightarrow>
            (case if_type_condition (node inl) of
               Some c \<Rightarrow>
                 bind_ctx (\<lambda>ctx. Done (map_of (reg_types (vc_registry ctx)) (node (tc_on (node c)))))
                   (\<lambda>ty. with_type ty (visit_inline_fragment n v inl))
             | None \<Rightarrow> visit_inline_fragment n v inl))
       (v_exit_selection v sel))"
| "visit_field n v fld =
     seq (v_enter_field v fld) (seq
       (visit_arguments v (pos fld) (field_argument (node (f_name (node fld))))
         (f_arguments (node fld))) (seq
       (visit_directives v (f_directives (node fld))) (seq
       (visit_selection_set n v (f_selection_set (node fld)))
       (v_exit_field v fld))))"
| "visit_fragment_spread n v spread =
     seq (v_enter_fragment_spread v spread) (seq
       (visit_directives v (fs_directives (node spread))) (seq
       (if v_mode v = Inline then
          bind_ctx (\<lambda>ctx. Done (ctx_fragment ctx (node (fs_fragment_name (node spread)))))
            (\<lambda>found. case found of
               None \<Rightarrow> Done
             | Some fragment \<Rightarrow>
                 (case n of
                    0 \<Rightarrow> (\<lambda>_. OutOfFuel)
                  | Suc m \<Rightarrow>
                      bind_ctx (\<lambda>ctx. Done (map_of (reg_types (vc_registry ctx))
                          (node (tc_on (node (fd_type_condition (node fragment)))))))
                        (\<lambda>ty. with_type ty
                          (visit_selection_set m v (fd_selection_set (node fragment))))))
        else Done)
       (v_exit_fragment_spread v spread)))"
| "visit_inline_fragment n v inl =
     seq (v_enter_inline_fragment v inl) (seq
       (visit_directives v (if_directives (node inl))) (seq
       (visit_selection_set n v (if_selection_set (node inl)))
       (v_exit_inline_fragment v inl)))"
  by pat_completeness auto
termination
proof (relation "measures
    [\<lambda>x. case x of
        Inl (Inl (n, _, _)) \<Rightarrow> n | Inl (Inr (n, _, _)) \<Rightarrow> n
      | Inr (Inl (n, _, _)) \<Rightarrow> n | Inr (Inr (Inl (n, _, _))) \<Rightarrow> n | Inr (Inr (Inr (n, _, _))) \<Rightarrow> n,
     \<lambda>x. case x of
        Inl (Inl (_, _, ss)) \<Rightarrow> 2 * size (node ss)
      | Inl (Inr (_, _, s)) \<Rightarrow> Suc (2 * size (node s))
      | Inr (Inl (_, _, f)) \<Rightarrow> 2 * size (node f) | Inr (Inr (Inl (_, _, s))) \<Rightarrow> 0
      | Inr (Inr (Inr (_, _, i))) \<Rightarrow> 2 * size (node i)]", goal_cases)
qed (auto dest: size_item simp: size_selection_field size_selection_inline
    size_field_selection_set size_inline_selection_set)

lemmas visit_selection_simps [simp del] =
  visit_selection_set.simps visit_selection.simps visit_field.simps
  visit_fragment_spread.simps visit_inline_fragment.simps

definition visit_fragment_definition ::
  "nat \<Rightarrow> 's visitor \<Rightarrow> name \<Rightarrow> fragment_definition positioned \<Rightarrow> 's vstep" where
  "visit_fragment_definition n v fname fragment =
     (if v_mode v = Normal then
        seq (v_enter_fragment_definition v fname fragment) (seq
          (visit_directives v (fd_directives (node fragment))) (seq
          (visit_selection_set n v (fd_selection_set (node fragment)))
          (v_exit_fragment_definition v fname fragment)))
      else Done)"

fun root_name :: "registry \<Rightarrow> operation_type \<Rightarrow> string option" where
  "root_name r Query = Some (reg_query_type r)"
| "root_name r Mutation = reg_mutation_type r"
| "root_name r Subscription = reg_subscription_type r"

definition visit_operation_definition ::
  "nat \<Rightarrow> 's visitor \<Rightarrow> name option \<Rightarrow> operation_definition positioned \<Rightarrow> 's vstep" where
  "visit_operation_definition n v opname op =
     seq (v_enter_operation_definition v opname op) (seq
       (bind_ctx (\<lambda>ctx. Done (root_name (vc_registry ctx) (od_ty (node op)))) (\<lambda>root. case root of
          Some rn \<Rightarrow>
            bind_ctx (\<lambda>ctx. case map_of (reg_types (vc_registry ctx)) rn of
                              Some ty \<Rightarrow> Done ty | None \<Rightarrow> Panicked)
              (\<lambda>ty. with_type (Some ty) (seq
                 (visit_variable_definitions v (od_variable_definitions (node op))) (seq
                 (visit_directives v (od_directives (node op)))
                 (visit_selection_set n v (od_selection_set (node op))))))
        | None \<Rightarrow>
            on_ctx (report_error [pos op]
              (''Schema is not configured for '' @ show_operation_type (od_ty (node op)) @ ''s.''))))
       (v_exit_operation_definition v opname op))"

definition visit :: "nat \<Rightarrow> 's visitor \<Rightarrow> executable_document \<Rightarrow> 's vstep" where
  "visit n v doc =
     seq (v_enter_document v doc) (seq
       (for_unless_exceeded (\<lambda>(fname, fragment).
          bind_ctx (\<lambda>ctx. Done (map_of (reg_types (vc_registry ctx))
              (node (tc_on (node (fd_type_condition (node fragment)))))))
            (\<lambda>ty. with_type ty (visit_fragment_definition n v fname fragment)))
        (doc_fragments doc)) (seq
       (for_unless_exceeded (\<lambda>(opname, op). visit_operation_definition n v opname op)
         (operations_iter (doc_operations doc)))
       (v_exit_document v doc)))"

end
