(* ===== verification/Input_Check.thy ===== *)
theory Input_Check
  imports Visitor
begin

text \<open>
  \<open>src/validation/utils.rs\<close>: the scopes the variable and fragment rules collect under, the path
  of a value inside an argument (\<open>QueryPathNode\<close> of \<open>src/context.rs\<close>), and
  \<open>is_valid_input_value\<close>, the check of a value against a type of the registry.
\<close>

datatype scope = ScopeOperation "string option" | ScopeFragment string

datatype query_path_segment = SegIndex nat | SegName string

datatype query_path_node =
  PathNode (qp_parent: "query_path_node option") (qp_segment: query_path_segment)

fun path_segments :: "query_path_node \<Rightarrow> query_path_segment list" where
  "path_segments (PathNode None seg) = [seg]"
| "path_segments (PathNode (Some p) seg) = path_segments p @ [seg]"

fun show_segment :: "query_path_segment \<Rightarrow> string" where
  "show_segment (SegIndex idx) = show_nat idx"
| "show_segment (SegName n) = n"

definition show_path :: "query_path_node \<Rightarrow> string" where
  "show_path p = join ''.'' (map show_segment (path_segments p))"

definition valid_error :: "query_path_node \<Rightarrow> string \<Rightarrow> string" where
  "valid_error path_node msg = quoted (show_path path_node) @ '', '' @ msg"

text \<open>
  The result is \<open>None\<close> for a valid value and the reason otherwise. \<open>valid_elements\<close> is the
  \<open>find_map\<close> over the elements of a list from index \<open>idx\<close>; \<open>valid_fields\<close> is the loop over the
  fields of the input object, up to its early returns. The code reports some unknown field of a
  hash set; the model takes the first in the order of the value.
\<close>

definition expected_type_error :: "query_path_node \<Rightarrow> string \<Rightarrow> string option" where
  "expected_type_error path_node type_name =
     Some (valid_error path_node (''expected type '' @ quoted type_name))"

definition enum_error :: "query_path_node \<Rightarrow> enum_info \<Rightarrow> string \<Rightarrow> string option" where
  "enum_error path_node en n =
     (if \<not> contains_key (en_enum_values en) n then
        Some (valid_error path_node
          (''enumeration type '' @ quoted (en_name en) @ '' does not contain the value '' @ quoted n))
      else None)"

text \<open>The two checks of a \<open>oneof\<close> input object, before its fields.\<close>

definition oneof_error ::
  "query_path_node \<Rightarrow> input_object_info \<Rightarrow> (name \<times> const_value) list \<Rightarrow> string option" where
  "oneof_error path_node io values =
     (if io_oneof io then
        (if length values \<noteq> 1 then
           Some (valid_error path_node ''Oneof input objects requires have exactly one field'')
         else if snd (hd values) = CNull then
           Some (valid_error path_node
             (''Oneof Input Objects require that exactly one field must be supplied '' @
              ''and that field must not be null''))
         else None)
      else None)"

definition unknown_field_error ::
  "query_path_node \<Rightarrow> input_object_info \<Rightarrow> (name \<times> const_value) list \<Rightarrow> string option" where
  "unknown_field_error path_node io values =
     (case filter (\<lambda>k. k \<notin> (mi_name \<circ> snd) ` set (io_input_fields io)) (map fst values) of
        [] \<Rightarrow> None
      | n # _ \<Rightarrow>
          Some (valid_error path_node
            (''unknown field '' @ quoted n @ '' of type '' @ quoted (io_name io))))"

definition required_field_error :: "query_path_node \<Rightarrow> meta_input_value \<Rightarrow> string option run" where
  "required_field_error path_node fld =
     run_map (\<lambda>ty.
       if is_non_null ty \<and> mi_default_value fld = None then
         Some (valid_error path_node
           (''field '' @ quoted (mi_name fld) @ '' of type '' @ quoted (mi_ty fld) @
            '' is required but not provided''))
       else None) (mtn_create (mi_ty fld))"

function is_valid_input_value ::
    "registry \<Rightarrow> string \<Rightarrow> const_value \<Rightarrow> query_path_node \<Rightarrow> string option run"
  and valid_elements ::
    "registry \<Rightarrow> string \<Rightarrow> nat \<Rightarrow> const_value list \<Rightarrow> query_path_node \<Rightarrow> string option run"
  and valid_fields ::
    "registry \<Rightarrow> (string \<times> meta_input_value) list \<Rightarrow> (name \<times> const_value) list \<Rightarrow>
       query_path_node \<Rightarrow> string option run"
where
  "is_valid_input_value reg type_name val path_node =
     run_bind (mtn_create type_name) (\<lambda>ty. case ty of
       MNonNull type_name' \<Rightarrow>
         (case val of
            CNull \<Rightarrow> Done (expected_type_error path_node type_name')
          | _ \<Rightarrow> is_valid_input_value reg type_name' val path_node)
     | MList type_name' \<Rightarrow>
         (case val of
            CList elems \<Rightarrow> valid_elements reg type_name' 0 elems path_node
          | CNull \<Rightarrow> Done None
          | _ \<Rightarrow> is_valid_input_value reg type_name' val path_node)
     | MNamed type_name' \<Rightarrow>
         if val = CNull then Done None
         else (case map_of (reg_types reg) type_name' of
            None \<Rightarrow> Panicked
          | Some (MTScalar sc) \<Rightarrow>
              (case sc_is_valid sc of
                 Some is_valid_fn \<Rightarrow>
                   Done (if is_valid_fn val then None else expected_type_error path_node type_name')
               | None \<Rightarrow> Done None)
          | Some (MTEnum en) \<Rightarrow>
              (case val of
                 CEnum n \<Rightarrow> Done (enum_error path_node en n)
               | CString n \<Rightarrow> Done (enum_error path_node en n)
               | _ \<Rightarrow> Done (expected_type_error path_node type_name'))
          | Some (MTInputObject io) \<Rightarrow>
              (case val of
                 CObject values \<Rightarrow>
                   (case oneof_error path_node io values of
                      Some reason \<Rightarrow> Done (Some reason)
                    | None \<Rightarrow>
                        run_bind (valid_fields reg (io_input_fields io) values path_node)
                          (\<lambda>r. case r of
                             Some reason \<Rightarrow> Done (Some reason)
                           | None \<Rightarrow> Done (unknown_field_error path_node io values)))
               | _ \<Rightarrow> Done (expected_type_error path_node (io_name io)))
          | Some _ \<Rightarrow> Done None))"
| "valid_elements reg type_name idx [] path_node = Done None"
| "valid_elements reg type_name idx (elem # elems) path_node =
     run_bind (is_valid_input_value reg type_name elem (PathNode (Some path_node) (SegIndex idx)))
       (\<lambda>r. case r of
          Some reason \<Rightarrow> Done (Some reason)
        | None \<Rightarrow> valid_elements reg type_name (Suc idx) elems path_node)"
| "valid_fields reg [] values path_node = Done None"
| "valid_fields reg ((key, fld) # flds) values path_node =
     run_bind
       (case map_of values (mi_name fld) of
          Some val \<Rightarrow>
            is_valid_input_value reg (mi_ty fld) val
              (PathNode (Some path_node) (SegName (mi_name fld)))
        | None \<Rightarrow> required_field_error path_node fld)
       (\<lambda>r. case r of
          Some reason \<Rightarrow> Done (Some reason)
        | None \<Rightarrow> valid_fields reg flds values path_node)"
  by pat_completeness auto
termination
proof (relation "measures
    [\<lambda>x. case x of
        Inl (_, _, v, _) \<Rightarrow> 2 * size v
      | Inr (Inl (_, _, _, vs, _)) \<Rightarrow> Suc (2 * size_list size vs)
      | Inr (Inr (_, _, m, _)) \<Rightarrow> Suc (2 * size_list (size_prod (\<lambda>_. 0) size) m),
     \<lambda>x. case x of
        Inl (_, ty, _, _) \<Rightarrow> length ty
      | Inr (Inl _) \<Rightarrow> 0
      | Inr (Inr (_, fs, _, _)) \<Rightarrow> length fs]", goal_cases)
qed (auto dest: mtn_create_part_length map_of_size_const)

declare is_valid_input_value.simps(1) [simp del]

end
