(* ===== verification/Rules_Scoped.thy ===== *)
theory Rules_Scoped
  imports Input_Check
begin

text \<open>
  The validation rules that collect facts per operation and fragment while the document is
  visited, and search the fragment spreads when it is left (\<open>src/validation/rules\<close>):
  fragment cycles, unused fragments, undefined and unused variables, variable positions.

  The searches recurse from scope to scope and mark what they visit, so the number of scopes with
  spreads bounds the depth of their recursion; the first argument is that bound (fuel). Hash maps
  are association lists in insertion order; the code iterates over them in an unspecified order,
  which only affects the order of the errors.
\<close>

subsection \<open>Cycles: \<open>no_fragment_cycles.rs\<close>\<close>

record cycle_detector =
  cd_visited :: "name set"
  cd_path_indices :: "(name \<times> nat) list"
  cd_errors :: "rule_error list"

type_synonym spread_map = "(name \<times> (name \<times> src_pos) list) list"

text \<open>
  \<open>CycleDetector::detect_from\<close>. The path is a parameter: the code pushes before the recursive
  call and pops after it.
\<close>

fun detect_from ::
  "nat \<Rightarrow> spread_map \<Rightarrow> name \<Rightarrow> (name \<times> src_pos) list \<Rightarrow> cycle_detector step" where
  "detect_from 0 spreads from path det = OutOfFuel"
| "detect_from (Suc n) spreads from path det =
     (let det = det\<lparr>cd_visited := insert from (cd_visited det)\<rparr> in
      if \<not> contains_key spreads from then Done det
      else
        let det = det\<lparr>cd_path_indices := alist_insert from (length path) (cd_path_indices det)\<rparr> in
        run_map (\<lambda>det. det\<lparr>cd_path_indices := alist_remove from (cd_path_indices det)\<rparr>)
          (for_each (\<lambda>(spread_name, p) det.
             case map_of (cd_path_indices det) spread_name of
               Some index \<Rightarrow>
                 let err_pos = (if index < length path then snd (path ! index) else p) in
                 Done (det\<lparr>cd_errors := cd_errors det @
                   [rule_error_new [err_pos] (''Cannot spread fragment '' @ quoted spread_name)]\<rparr>)
             | None \<Rightarrow>
                 if spread_name \<notin> cd_visited det then
                   detect_from n spreads spread_name (path @ [(spread_name, p)]) det
                 else Done det)
           (get_list spreads from) det))"

record no_fragment_cycles_state =
  nfc_current_fragment :: "name option"
  nfc_spreads :: spread_map
  nfc_fragment_order :: "name list"

definition nfc_init :: no_fragment_cycles_state where
  "nfc_init = \<lparr>nfc_current_fragment = None, nfc_spreads = [], nfc_fragment_order = []\<rparr>"

definition detect_all :: "spread_map \<Rightarrow> name list \<Rightarrow> cycle_detector run" where
  "detect_all spreads fragment_order =
     for_each (\<lambda>frag det.
         if frag \<notin> cd_visited det then detect_from (Suc (length spreads)) spreads frag [] det
         else Done det)
       fragment_order \<lparr>cd_visited = {}, cd_path_indices = [], cd_errors = []\<rparr>"

definition no_fragment_cycles :: "no_fragment_cycles_state visitor" where
  "no_fragment_cycles = visitor_nil
     \<lparr>v_exit_document := (\<lambda>_ (ctx, s).
        run_map (\<lambda>det. (append_errors (cd_errors det) ctx, s))
          (detect_all (nfc_spreads s) (nfc_fragment_order s))),
      v_enter_fragment_definition := (\<lambda>n _. on_state (\<lambda>s.
        s\<lparr>nfc_current_fragment := Some n, nfc_fragment_order := nfc_fragment_order s @ [n]\<rparr>)),
      v_exit_fragment_definition := (\<lambda>_ _. on_state (\<lambda>s. s\<lparr>nfc_current_fragment := None\<rparr>)),
      v_enter_fragment_spread := (\<lambda>spread. on_state (\<lambda>s.
        case nfc_current_fragment s of
          Some current_fragment \<Rightarrow>
            s\<lparr>nfc_spreads := alist_update_with []
                (\<lambda>xs. xs @ [(node (fs_fragment_name (node spread)), pos spread)])
                current_fragment (nfc_spreads s)\<rparr>
        | None \<Rightarrow> s))\<rparr>"

subsection \<open>Unused fragments: \<open>no_unused_fragments.rs\<close>\<close>

type_synonym scope_spreads = "(scope \<times> name list) list"

record no_unused_fragments_state =
  nuf_spreads :: scope_spreads
  nuf_defined_fragments :: "(name \<times> src_pos) list"
  nuf_current_scope :: "scope option"

definition nuf_init :: no_unused_fragments_state where
  "nuf_init = \<lparr>nuf_spreads = [], nuf_defined_fragments = [], nuf_current_scope = None\<rparr>"

fun find_reachable_fragments :: "nat \<Rightarrow> scope_spreads \<Rightarrow> scope \<Rightarrow> name set step" where
  "find_reachable_fragments 0 spreads from result = OutOfFuel"
| "find_reachable_fragments (Suc n) spreads from result =
     (case from of
        ScopeFragment fname \<Rightarrow>
          if fname \<in> result then Done result
          else for_each (\<lambda>spread. find_reachable_fragments n spreads (ScopeFragment spread))
                 (get_list spreads from) (insert fname result)
      | ScopeOperation _ \<Rightarrow>
          for_each (\<lambda>spread. find_reachable_fragments n spreads (ScopeFragment spread))
            (get_list spreads from) result)"

definition record_spread :: "scope option \<Rightarrow> name \<Rightarrow> scope_spreads \<Rightarrow> scope_spreads" where
  "record_spread current_scope fname spreads =
     (case current_scope of
        Some sc \<Rightarrow> alist_update_with [] (\<lambda>xs. xs @ [fname]) sc spreads
      | None \<Rightarrow> spreads)"

definition report_unused_fragments ::
  "(name \<times> src_pos) list \<Rightarrow> name set \<Rightarrow> visitor_context \<Rightarrow> visitor_context" where
  "report_unused_fragments defined reachable =
     fold (\<lambda>(fragment_name, p) ctx.
       if fragment_name \<notin> reachable then
         report_error [p] (''Fragment '' @ quoted fragment_name @ '' is never used'') ctx
       else ctx) defined"

definition no_unused_fragments :: "no_unused_fragments_state visitor" where
  "no_unused_fragments = visitor_nil
     \<lparr>v_exit_document := (\<lambda>doc (ctx, s).
        run_map (\<lambda>reachable.
            (report_unused_fragments (nuf_defined_fragments s) reachable ctx, s))
          (for_each (\<lambda>(opname, _).
               find_reachable_fragments (length (nuf_spreads s) + 2) (nuf_spreads s)
                 (ScopeOperation opname))
             (operations_iter (doc_operations doc)) {})),
      v_enter_operation_definition := (\<lambda>opname _. on_state (\<lambda>s.
        s\<lparr>nuf_current_scope := Some (ScopeOperation opname)\<rparr>)),
      v_enter_fragment_definition := (\<lambda>n fragment. on_state (\<lambda>s.
        s\<lparr>nuf_current_scope := Some (ScopeFragment n),
          nuf_defined_fragments := index_set_insert (n, pos fragment) (nuf_defined_fragments s)\<rparr>)),
      v_enter_fragment_spread := (\<lambda>spread. on_state (\<lambda>s.
        s\<lparr>nuf_spreads := record_spread (nuf_current_scope s)
            (node (fs_fragment_name (node spread))) (nuf_spreads s)\<rparr>))\<rparr>"

subsection \<open>Undefined variables: \<open>no_undefined_variables.rs\<close>\<close>

record no_undefined_variables_state =
  nud_defined_variables :: "(name option \<times> (src_pos \<times> name set)) list"
  nud_used_variables :: "(scope \<times> (name \<times> src_pos) list) list"
  nud_current_scope :: "scope option"
  nud_spreads :: scope_spreads

definition nud_init :: no_undefined_variables_state where
  "nud_init = \<lparr>nud_defined_variables = [], nud_used_variables = [], nud_current_scope = None,
               nud_spreads = []\<rparr>"

fun find_undef_vars ::
  "nat \<Rightarrow> no_undefined_variables_state \<Rightarrow> name set \<Rightarrow> scope \<Rightarrow>
     ((name \<times> src_pos) list \<times> scope set) step" where
  "find_undef_vars 0 self defined sc st = OutOfFuel"
| "find_undef_vars (Suc n) self defined sc (undef, visited) =
     (if sc \<in> visited then Done (undef, visited)
      else for_each (\<lambda>spread. find_undef_vars n self defined (ScopeFragment spread))
             (get_list (nud_spreads self) sc)
             (undef @ filter (\<lambda>(var, p). var \<notin> defined) (get_list (nud_used_variables self) sc),
              insert sc visited))"

definition undefined_message :: "name option \<Rightarrow> name \<Rightarrow> string" where
  "undefined_message opname var =
     (case opname of
        Some n \<Rightarrow> ''Variable '' @ quoted (''$'' @ var) @ '' is not defined by operation '' @ quoted n
      | None \<Rightarrow> ''Variable '' @ quoted (''$'' @ var) @ '' is not defined'')"

definition report_undefined ::
  "name option \<Rightarrow> src_pos \<Rightarrow> (name \<times> src_pos) list \<Rightarrow> visitor_context \<Rightarrow> visitor_context" where
  "report_undefined opname def_pos undef =
     fold (\<lambda>(var, p).
       report_error (case opname of Some _ \<Rightarrow> [def_pos, p] | None \<Rightarrow> [p])
         (undefined_message opname var)) undef"

definition no_undefined_variables :: "no_undefined_variables_state visitor" where
  "no_undefined_variables = visitor_nil
     \<lparr>v_exit_document := (\<lambda>_ (ctx, s).
        run_map (\<lambda>ctx'. (ctx', s))
          (for_each (\<lambda>(opname, (def_pos, def_vars)) ctx.
             run_map (\<lambda>(undef, _). report_undefined opname def_pos undef ctx)
               (find_undef_vars (length (nud_spreads s) + 2) s def_vars (ScopeOperation opname)
                 ([], {})))
           (nud_defined_variables s) ctx)),
      v_enter_operation_definition := (\<lambda>opname op. on_state (\<lambda>s.
        s\<lparr>nud_current_scope := Some (ScopeOperation opname),
          nud_defined_variables := alist_insert opname (pos op, {}) (nud_defined_variables s)\<rparr>)),
      v_enter_fragment_definition := (\<lambda>n _. on_state (\<lambda>s.
        s\<lparr>nud_current_scope := Some (ScopeFragment n)\<rparr>)),
      v_enter_variable_definition := (\<lambda>vdef. on_state (\<lambda>s.
        case nud_current_scope s of
          Some (ScopeOperation n) \<Rightarrow>
            (case map_of (nud_defined_variables s) n of
               Some (p, vars) \<Rightarrow>
                 s\<lparr>nud_defined_variables :=
                     alist_insert n (p, insert (node (vd_name (node vdef))) vars)
                       (nud_defined_variables s)\<rparr>
             | None \<Rightarrow> s)
        | _ \<Rightarrow> s)),
      v_enter_argument := (\<lambda>n val. on_state (\<lambda>s.
        case nud_current_scope s of
          Some sc \<Rightarrow>
            s\<lparr>nud_used_variables := alist_update_with []
                (fold (\<lambda>var. alist_insert var (pos n)) (referenced_variables (node val)))
                sc (nud_used_variables s)\<rparr>
        | None \<Rightarrow> s)),
      v_enter_fragment_spread := (\<lambda>spread. on_state (\<lambda>s.
        s\<lparr>nud_spreads := record_spread (nud_current_scope s)
            (node (fs_fragment_name (node spread))) (nud_spreads s)\<rparr>))\<rparr>"

subsection \<open>Unused variables: \<open>no_unused_variables.rs\<close>\<close>

record no_unused_variables_state =
  nuv_defined_variables :: "(name option \<times> (name \<times> src_pos) list) list"
  nuv_used_variables :: "(scope \<times> name list) list"
  nuv_current_scope :: "scope option"
  nuv_spreads :: scope_spreads

definition nuv_init :: no_unused_variables_state where
  "nuv_init = \<lparr>nuv_defined_variables = [], nuv_used_variables = [], nuv_current_scope = None,
               nuv_spreads = []\<rparr>"

fun find_used_vars ::
  "nat \<Rightarrow> no_unused_variables_state \<Rightarrow> name set \<Rightarrow> scope \<Rightarrow> (name set \<times> scope set) step" where
  "find_used_vars 0 self defined from st = OutOfFuel"
| "find_used_vars (Suc n) self defined from (used, visited) =
     (if from \<in> visited then Done (used, visited)
      else for_each (\<lambda>spread. find_used_vars n self defined (ScopeFragment spread))
             (get_list (nuv_spreads self) from)
             (used \<union> {var \<in> set (get_list (nuv_used_variables self) from). var \<in> defined},
              insert from visited))"

definition unused_message :: "name option \<Rightarrow> name \<Rightarrow> string" where
  "unused_message opname var =
     (case opname of
        Some n \<Rightarrow> ''Variable '' @ quoted (''$'' @ var) @ '' is not used by operation '' @ quoted n
      | None \<Rightarrow> ''Variable '' @ quoted (''$'' @ var) @ '' is not used'')"

definition report_unused ::
  "name option \<Rightarrow> (name \<times> src_pos) list \<Rightarrow> name set \<Rightarrow> visitor_context \<Rightarrow> visitor_context" where
  "report_unused opname def_vars used =
     fold (\<lambda>(var, p). report_error [p] (unused_message opname var))
       (filter (\<lambda>(var, _). var \<notin> used) def_vars)"

definition no_unused_variables :: "no_unused_variables_state visitor" where
  "no_unused_variables = visitor_nil
     \<lparr>v_exit_document := (\<lambda>_ (ctx, s).
        run_map (\<lambda>ctx'. (ctx', s))
          (for_each (\<lambda>(opname, def_vars) ctx.
             run_map (\<lambda>(used, _). report_unused opname def_vars used ctx)
               (find_used_vars (length (nuv_spreads s) + 2) s (fst ` set def_vars)
                 (ScopeOperation opname) ({}, {})))
           (nuv_defined_variables s) ctx)),
      v_enter_operation_definition := (\<lambda>opname _. on_state (\<lambda>s.
        s\<lparr>nuv_current_scope := Some (ScopeOperation opname),
          nuv_defined_variables := alist_insert opname [] (nuv_defined_variables s)\<rparr>)),
      v_enter_fragment_definition := (\<lambda>n _. on_state (\<lambda>s.
        s\<lparr>nuv_current_scope := Some (ScopeFragment n)\<rparr>)),
      v_enter_variable_definition := (\<lambda>vdef. on_state (\<lambda>s.
        case nuv_current_scope s of
          Some (ScopeOperation n) \<Rightarrow>
            (case map_of (nuv_defined_variables s) n of
               Some vars \<Rightarrow>
                 s\<lparr>nuv_defined_variables :=
                     alist_insert n (index_set_insert (node (vd_name (node vdef)), pos vdef) vars)
                       (nuv_defined_variables s)\<rparr>
             | None \<Rightarrow> s)
        | _ \<Rightarrow> s)),
      v_enter_argument := (\<lambda>_ val. on_state (\<lambda>s.
        case nuv_current_scope s of
          Some sc \<Rightarrow>
            s\<lparr>nuv_used_variables := alist_update_with []
                (\<lambda>xs. xs @ referenced_variables (node val)) sc (nuv_used_variables s)\<rparr>
        | None \<Rightarrow> s)),
      v_enter_fragment_spread := (\<lambda>spread. on_state (\<lambda>s.
        s\<lparr>nuv_spreads := record_spread (nuv_current_scope s)
            (node (fs_fragment_name (node spread))) (nuv_spreads s)\<rparr>))\<rparr>"

subsection \<open>Variable positions: \<open>variables_in_allowed_position.rs\<close>\<close>

type_synonym variable_usage = "name \<times> src_pos \<times> meta_type_name"

record variable_in_allowed_position_state =
  vap_spreads :: scope_spreads
  vap_variable_usages :: "(scope \<times> variable_usage list) list"
  vap_variable_defs :: "(scope \<times> variable_definition positioned list) list"
  vap_current_scope :: "scope option"

definition vap_init :: variable_in_allowed_position_state where
  "vap_init = \<lparr>vap_spreads = [], vap_variable_usages = [], vap_variable_defs = [],
               vap_current_scope = None\<rparr>"

text \<open>A nullable type with a default value functions as a non-nullable one.\<close>

definition effective_type :: "variable_definition \<Rightarrow> string" where
  "effective_type d =
     (if nullable (node (vd_type d)) \<and> vd_default_value d \<noteq> None
      then show_type (node (vd_type d)) @ ''!''
      else show_type (node (vd_type d)))"

definition check_usage ::
  "variable_definition positioned list \<Rightarrow> variable_usage \<Rightarrow> visitor_context step" where
  "check_usage var_defs usage ctx =
     (case usage of (var_name, usage_pos, var_type) \<Rightarrow>
      (case List.find (\<lambda>d. node (vd_name (node d)) = var_name) var_defs of
         None \<Rightarrow> Done ctx
       | Some d \<Rightarrow>
           run_bind (mtn_create (effective_type (node d))) (\<lambda>expected.
           run_map (\<lambda>ok.
               if ok then ctx
               else report_error [pos d, usage_pos]
                 (''Variable '' @ quoted var_name @ '' of type '' @
                  quoted (show_meta_type_name var_type) @
                  '' used in position expecting type '' @ quoted (effective_type (node d))) ctx)
             (is_subtype var_type expected))))"

fun collect_incorrect_usages ::
  "nat \<Rightarrow> variable_in_allowed_position_state \<Rightarrow> variable_definition positioned list \<Rightarrow> scope \<Rightarrow>
     (visitor_context \<times> scope set) step" where
  "collect_incorrect_usages 0 self var_defs from st = OutOfFuel"
| "collect_incorrect_usages (Suc n) self var_defs from (ctx, visited) =
     (if from \<in> visited then Done (ctx, visited)
      else run_bind (for_each (check_usage var_defs) (get_list (vap_variable_usages self) from) ctx)
        (\<lambda>ctx'.
          for_each (\<lambda>spread. collect_incorrect_usages n self var_defs (ScopeFragment spread))
            (get_list (vap_spreads self) from) (ctx', insert from visited)))"

definition variable_in_allowed_position :: "variable_in_allowed_position_state visitor" where
  "variable_in_allowed_position = visitor_nil
     \<lparr>v_exit_document := (\<lambda>_ (ctx, s).
        run_map (\<lambda>ctx'. (ctx', s))
          (for_each (\<lambda>(op_scope, var_defs) ctx.
             run_map fst
               (collect_incorrect_usages (length (vap_spreads s) + 2) s var_defs op_scope (ctx, {})))
           (vap_variable_defs s) ctx)),
      v_enter_operation_definition := (\<lambda>opname _. on_state (\<lambda>s.
        s\<lparr>vap_current_scope := Some (ScopeOperation opname)\<rparr>)),
      v_enter_fragment_definition := (\<lambda>n _. on_state (\<lambda>s.
        s\<lparr>vap_current_scope := Some (ScopeFragment n)\<rparr>)),
      v_enter_variable_definition := (\<lambda>vdef. on_state (\<lambda>s.
        case vap_current_scope s of
          Some sc \<Rightarrow>
            s\<lparr>vap_variable_defs :=
                alist_update_with [] (\<lambda>xs. xs @ [vdef]) sc (vap_variable_defs s)\<rparr>
        | None \<Rightarrow> s)),
      v_enter_fragment_spread := (\<lambda>spread. on_state (\<lambda>s.
        case vap_current_scope s of
          Some sc \<Rightarrow>
            s\<lparr>vap_spreads := alist_update_with []
                (index_set_insert (node (fs_fragment_name (node spread)))) sc (vap_spreads s)\<rparr>
        | None \<Rightarrow> s)),
      v_enter_input_value := (\<lambda>p expected_ty val. on_state (\<lambda>s.
        case val of
          VVariable n \<Rightarrow>
            (case (expected_ty, vap_current_scope s) of
               (Some ty, Some sc) \<Rightarrow>
                 s\<lparr>vap_variable_usages := alist_update_with []
                     (\<lambda>xs. xs @ [(n, p, ty)]) sc (vap_variable_usages s)\<rparr>
             | _ \<Rightarrow> s)
        | _ \<Rightarrow> s))\<rparr>"

text \<open>The searches unfold by their second equation, on demand.\<close>

lemmas search_unfold =
  detect_from.simps(2) find_reachable_fragments.simps(2) find_undef_vars.simps(2)
  find_used_vars.simps(2) collect_incorrect_usages.simps(2)

declare search_unfold [simp del]

end
