(* ===== verification/Traversal.thy ===== *)
theory Traversal
  imports Visitor
begin

text \<open>
  What a visitor may do and what the traversal makes of it. \<open>fire\<close> names the hook an event calls;
  a visitor is framed when its hooks change nothing of the context but the errors, to which they
  append, and the limit flag, which they may raise. For a framed visitor the traversal is the
  sequence of its hooks on a trace of the document that does not depend on the visitor
  (\<open>visit_trace\<close>).
\<close>

subsection \<open>Events\<close>

datatype hook_event =
    EnterDocument executable_document
  | ExitDocument executable_document
  | EnterOperation "name option" "operation_definition positioned"
  | ExitOperation "name option" "operation_definition positioned"
  | EnterFragment name "fragment_definition positioned"
  | ExitFragment name "fragment_definition positioned"
  | EnterVariable "variable_definition positioned"
  | ExitVariable "variable_definition positioned"
  | EnterDirective "directive positioned"
  | ExitDirective "directive positioned"
  | EnterArgument "name positioned" "gvalue positioned"
  | ExitArgument "name positioned" "gvalue positioned"
  | EnterSelectionSet "selection_set positioned"
  | ExitSelectionSet "selection_set positioned"
  | EnterSelection "selection positioned"
  | ExitSelection "selection positioned"
  | EnterField "field positioned"
  | ExitField "field positioned"
  | EnterSpread "fragment_spread positioned"
  | ExitSpread "fragment_spread positioned"
  | EnterInline "inline_fragment positioned"
  | ExitInline "inline_fragment positioned"
  | EnterInput src_pos "meta_type_name option" gvalue
  | ExitInput src_pos "meta_type_name option" gvalue

text \<open>The events besides the hooks: the two stacks of the context, and the traversal's own errors.\<close>

datatype event =
    Hook hook_event
  | PushType "meta_type option"
  | PopType
  | PushInput "meta_type_name option"
  | PopInput
  | OwnError src_pos string

fun fire :: "'s visitor \<Rightarrow> hook_event \<Rightarrow> 's vstep" where
  "fire v (EnterDocument d) = v_enter_document v d"
| "fire v (ExitDocument d) = v_exit_document v d"
| "fire v (EnterOperation n d) = v_enter_operation_definition v n d"
| "fire v (ExitOperation n d) = v_exit_operation_definition v n d"
| "fire v (EnterFragment n d) = v_enter_fragment_definition v n d"
| "fire v (ExitFragment n d) = v_exit_fragment_definition v n d"
| "fire v (EnterVariable d) = v_enter_variable_definition v d"
| "fire v (ExitVariable d) = v_exit_variable_definition v d"
| "fire v (EnterDirective d) = v_enter_directive v d"
| "fire v (ExitDirective d) = v_exit_directive v d"
| "fire v (EnterArgument n x) = v_enter_argument v n x"
| "fire v (ExitArgument n x) = v_exit_argument v n x"
| "fire v (EnterSelectionSet d) = v_enter_selection_set v d"
| "fire v (ExitSelectionSet d) = v_exit_selection_set v d"
| "fire v (EnterSelection d) = v_enter_selection v d"
| "fire v (ExitSelection d) = v_exit_selection v d"
| "fire v (EnterField d) = v_enter_field v d"
| "fire v (ExitField d) = v_exit_field v d"
| "fire v (EnterSpread d) = v_enter_fragment_spread v d"
| "fire v (ExitSpread d) = v_exit_fragment_spread v d"
| "fire v (EnterInline d) = v_enter_inline_fragment v d"
| "fire v (ExitInline d) = v_exit_inline_fragment v d"
| "fire v (EnterInput p t x) = v_enter_input_value v p t x"
| "fire v (ExitInput p t x) = v_exit_input_value v p t x"

fun perform :: "'s visitor \<Rightarrow> event \<Rightarrow> 's vstep" where
  "perform v (Hook e) = fire v e"
| "perform v (PushType ty) = on_ctx (push_type ty)"
| "perform v PopType = on_ctx pop_type"
| "perform v (PushInput ty) = on_ctx (push_input_type ty)"
| "perform v PopInput = on_ctx pop_input_type"
| "perform v (OwnError p msg) = on_ctx (report_error [p] msg)"

fun is_input_event :: "hook_event \<Rightarrow> bool" where
  "is_input_event (EnterInput _ _ _) = True"
| "is_input_event (ExitInput _ _ _) = True"
| "is_input_event _ = False"

lemma fire_nil [simp]: "fire visitor_nil e = Done"
  by (cases e) (simp_all add: visitor_nil_def)

lemma fire_cons:
  "fire (visitor_cons v w) e = (if is_input_event e then Done else both (fire v e) (fire w e))"
  by (cases e) (simp_all add: visitor_cons_def visitor_nil_def)

lemma v_mode_cons [simp]: "v_mode (visitor_cons v w) = v_mode v"
  by (simp add: visitor_cons_def)

lemma v_mode_nil [simp]: "v_mode visitor_nil = Normal"
  by (simp add: visitor_nil_def)

subsection \<open>Framed steps\<close>

text \<open>The part of the context the traversal decides by.\<close>

definition env :: "visitor_context \<Rightarrow> visitor_context" where
  "env ctx = ctx\<lparr>vc_errors := [], vc_exceeded_limit := False\<rparr>"

definition ctx_step :: "visitor_context \<Rightarrow> visitor_context \<Rightarrow> bool" where
  "ctx_step ctx ctx' \<longleftrightarrow>
     env ctx' = env ctx \<and> (\<exists>es. vc_errors ctx' = vc_errors ctx @ es) \<and>
     (vc_exceeded_limit ctx \<longrightarrow> vc_exceeded_limit ctx')"

definition framed :: "'s vstep \<Rightarrow> bool" where
  "framed f \<longleftrightarrow> (\<forall>ctx s ctx' s'. f (ctx, s) = Done (ctx', s') \<longrightarrow> ctx_step ctx ctx')"

definition fuel_free :: "'st step \<Rightarrow> bool" where
  "fuel_free f \<longleftrightarrow> (\<forall>st. f st \<noteq> OutOfFuel)"

lemma ctx_step_refl [simp]: "ctx_step ctx ctx"
  by (simp add: ctx_step_def)

lemma ctx_step_trans [trans]: "ctx_step a b \<Longrightarrow> ctx_step b c \<Longrightarrow> ctx_step a c"
  unfolding ctx_step_def by auto

lemma ctx_step_report [simp]: "ctx_step ctx (report_error ps msg ctx)"
  by (simp add: ctx_step_def report_error_def env_def)

lemma ctx_step_append [simp]: "ctx_step ctx (append_errors es ctx)"
  by (simp add: ctx_step_def append_errors_def env_def)

lemma ctx_step_limits [simp]:
  "ctx_step ctx (check_depth_limit d ctx)" "ctx_step ctx (check_complexity_limit d ctx)"
  by (simp_all add: ctx_step_def check_depth_limit_def check_complexity_limit_def env_def
      split: option.splits)

lemma ctx_step_if [simp]:
  "ctx_step ctx (if b then x else y) \<longleftrightarrow> (if b then ctx_step ctx x else ctx_step ctx y)"
  by simp

lemma ctx_step_fold:
  "(\<And>x c. ctx_step c (f x c)) \<Longrightarrow> ctx_step ctx (fold f xs ctx)"
  by (induction xs arbitrary: ctx) (auto intro: ctx_step_trans)

lemma env_fields [simp]:
  "vc_registry (env ctx) = vc_registry ctx" "vc_variables (env ctx) = vc_variables ctx"
  "vc_operation_name (env ctx) = vc_operation_name ctx"
  "vc_type_stack (env ctx) = vc_type_stack ctx" "vc_input_type (env ctx) = vc_input_type ctx"
  "vc_fragments (env ctx) = vc_fragments ctx"
  "vc_limit_complexity (env ctx) = vc_limit_complexity ctx"
  "vc_limit_depth (env ctx) = vc_limit_depth ctx"
  by (simp_all add: env_def)

lemma env_stacks [simp]:
  "env (push_type ty ctx) = push_type ty (env ctx)"
  "env (pop_type ctx) = pop_type (env ctx)"
  "env (push_input_type ity ctx) = push_input_type ity (env ctx)"
  "env (pop_input_type ctx) = pop_input_type (env ctx)"
  by (simp_all add: env_def push_type_def pop_type_def push_input_type_def pop_input_type_def)

lemma env_report [simp]: "env (report_error ps msg ctx) = env ctx"
  by (simp add: env_def report_error_def)

lemma env_eq_fields:
  assumes "env ctx' = env ctx"
  shows "vc_registry ctx' = vc_registry ctx" "vc_fragments ctx' = vc_fragments ctx"
    "vc_type_stack ctx' = vc_type_stack ctx" "vc_input_type ctx' = vc_input_type ctx"
    "vc_variables ctx' = vc_variables ctx" "vc_operation_name ctx' = vc_operation_name ctx"
    "vc_limit_complexity ctx' = vc_limit_complexity ctx" "vc_limit_depth ctx' = vc_limit_depth ctx"
  using assms by (metis env_fields)+

lemmas framed_intro = framed_def [THEN iffD2, rule_format]
lemmas framed_dest = framed_def [THEN iffD1, rule_format]

lemma framed_Done [simp]: "framed Done"
  by (simp add: framed_def)

lemma framed_OutOfFuel [simp]: "framed (\<lambda>_. OutOfFuel)"
  by (simp add: framed_def)

lemma framed_on_state [simp]: "framed (on_state f)"
  by (simp add: framed_def on_state_def)

lemma framed_on_ctx: "(\<And>ctx. ctx_step ctx (f ctx)) \<Longrightarrow> framed (on_ctx f)"
  by (auto simp: framed_def on_ctx_def)

lemma framed_try_ctx:
  "(\<And>ctx ctx'. f ctx = Done ctx' \<Longrightarrow> ctx_step ctx ctx') \<Longrightarrow> framed (try_ctx f)"
  by (auto simp: framed_def try_ctx_def run_map_def run_bind_Done_iff)

lemma framed_seq: "framed f \<Longrightarrow> framed g \<Longrightarrow> framed (seq f g)"
  by (rule framed_intro)
    (auto simp: seq_def run_bind_Done_iff intro: ctx_step_trans dest: framed_dest)

lemma framed_both: "framed f \<Longrightarrow> framed g \<Longrightarrow> framed (both f g)"
  unfolding both_def
  by (rule framed_seq; rule framed_intro)
    (auto simp: on_fst_def on_snd_def run_map_def run_bind_Done_iff dest: framed_dest
      split: prod.splits)

lemma framed_bind_ctx:
  "(\<And>c x. g c = Done x \<Longrightarrow> framed (f x)) \<Longrightarrow> framed (bind_ctx g f)"
  by (rule framed_intro) (auto simp: bind_ctx_def run_bind_Done_iff dest: framed_dest)

lemma framed_bracket:
  assumes f: "framed f"
    and up: "\<And>c. env (up c) = up (env c)" "\<And>c. vc_errors (up c) = vc_errors c"
      "\<And>c. vc_exceeded_limit (up c) = vc_exceeded_limit c"
    and down: "\<And>c. env (down c) = down (env c)" "\<And>c. vc_errors (down c) = vc_errors c"
      "\<And>c. vc_exceeded_limit (down c) = vc_exceeded_limit c"
    and undo: "\<And>c. down (up c) = c"
  shows "framed (seq (on_ctx up) (seq f (on_ctx down)))"
proof (rule framed_intro)
  fix ctx s ctx' s'
  assume "seq (on_ctx up) (seq f (on_ctx down)) (ctx, s) = Done (ctx', s')"
  then obtain c where c: "f (up ctx, s) = Done (c, s')" "ctx' = down c"
    by (auto simp: seq_def on_ctx_def run_bind_Done_iff)
  have "ctx_step (up ctx) c"
    using framed_dest [OF f c(1)] .
  then show "ctx_step ctx ctx'"
    using up down undo c(2) unfolding ctx_step_def by (metis (no_types))
qed

lemma stack_errors [simp]:
  "vc_errors (push_type ty c) = vc_errors c" "vc_errors (pop_type c) = vc_errors c"
  "vc_errors (push_input_type ity c) = vc_errors c" "vc_errors (pop_input_type c) = vc_errors c"
  "vc_exceeded_limit (push_type ty c) = vc_exceeded_limit c"
  "vc_exceeded_limit (pop_type c) = vc_exceeded_limit c"
  "vc_exceeded_limit (push_input_type ity c) = vc_exceeded_limit c"
  "vc_exceeded_limit (pop_input_type c) = vc_exceeded_limit c"
  by (simp_all add: push_type_def pop_type_def push_input_type_def pop_input_type_def)

lemma pop_push [simp]:
  "pop_type (push_type ty c) = c" "pop_input_type (push_input_type ity c) = c"
  by (simp_all add: push_type_def pop_type_def push_input_type_def pop_input_type_def)

lemma framed_with_type: "framed f \<Longrightarrow> framed (with_type ty f)"
  unfolding with_type_def by (rule framed_bracket) simp_all

lemma framed_with_input_type: "framed f \<Longrightarrow> framed (with_input_type ty f)"
  unfolding with_input_type_def by (rule framed_bracket) simp_all

lemma framed_for_each: "(\<And>x. x \<in> set xs \<Longrightarrow> framed (f x)) \<Longrightarrow> framed (for_each f xs)"
  by (induction xs) (simp_all add: framed_seq)

lemma framed_for_unless_exceeded:
  "(\<And>x. x \<in> set xs \<Longrightarrow> framed (f x)) \<Longrightarrow> framed (for_unless_exceeded f xs)"
proof (induction xs)
  case (Cons x xs)
  then have "framed (seq (f x) (for_unless_exceeded f xs))"
    by (simp add: framed_seq)
  then show ?case by (simp add: framed_def)
qed simp

lemmas framed_rules =
  framed_seq framed_bind_ctx framed_with_type framed_with_input_type
  framed_for_each framed_for_unless_exceeded

text \<open>The same closure properties for steps that never run out of fuel.\<close>

lemma fuel_free_Done [simp]: "fuel_free Done"
  by (simp add: fuel_free_def)

lemma fuel_free_on [simp]: "fuel_free (on_ctx f)" "fuel_free (on_state g)"
  by (auto simp: fuel_free_def on_ctx_def on_state_def)

lemma fuel_free_seq: "fuel_free f \<Longrightarrow> fuel_free g \<Longrightarrow> fuel_free (seq f g)"
  by (simp add: fuel_free_def seq_def run_bind_OutOfFuel_iff)

lemma fuel_free_try_ctx: "(\<And>c. f c \<noteq> OutOfFuel) \<Longrightarrow> fuel_free (try_ctx f)"
  by (auto simp: fuel_free_def try_ctx_def)

lemma fuel_free_both: "fuel_free f \<Longrightarrow> fuel_free g \<Longrightarrow> fuel_free (both f g)"
  unfolding both_def
  by (rule fuel_free_seq) (auto simp: fuel_free_def on_fst_def on_snd_def)

lemma fuel_free_for_each: "(\<And>x. x \<in> set xs \<Longrightarrow> fuel_free (f x)) \<Longrightarrow> fuel_free (for_each f xs)"
  by (induction xs) (simp_all add: fuel_free_seq)

subsection \<open>Code that does not recurse without bound\<close>

named_theorems no_fuel \<open>calls that never run out of fuel\<close>

lemma mtn_create_no_fuel [no_fuel]: "mtn_create s \<noteq> OutOfFuel"
  by (auto simp: mtn_create_def strip_brackets_def run_bind_OutOfFuel_iff split: option.splits)

lemma unwrap_non_null_no_fuel [no_fuel]: "unwrap_non_null t \<noteq> OutOfFuel"
  by (cases t) (simp_all add: no_fuel)

lemma concrete_typename_no_fuel [no_fuel]: "concrete_typename s \<noteq> OutOfFuel"
  by (induction s rule: concrete_typename.induct, subst concrete_typename.simps)
    (auto simp: run_bind_OutOfFuel_iff no_fuel split: meta_type_name.splits)

lemma object_type_no_fuel [no_fuel]: "object_type reg ty \<noteq> OutOfFuel"
  by (auto simp: object_type_def run_bind_OutOfFuel_iff no_fuel split: meta_type_name.splits)

lemma expected_type_no_fuel [no_fuel]: "expected_type arg \<noteq> OutOfFuel"
  by (auto simp: expected_type_def no_fuel split: option.splits)

lemma concrete_type_by_name_no_fuel [no_fuel]: "concrete_type_by_name reg s \<noteq> OutOfFuel"
  by (simp add: concrete_type_by_name_def no_fuel)

lemma field_type_no_fuel [no_fuel]: "field_type n ctx \<noteq> OutOfFuel"
  by (auto simp: field_type_def no_fuel split: option.splits)

subsection \<open>What the traversal keeps\<close>

text \<open>
  A property of steps that is closed under the operations the traversal is made of, and that every
  hook of a visitor has, holds for the traversal with that visitor.
\<close>

locale hooks_keep =
  fixes Q :: "'s vstep \<Rightarrow> bool" and v :: "'s visitor"
  assumes keep_Done: "Q Done"
    and keep_seq: "Q f \<Longrightarrow> Q g \<Longrightarrow> Q (seq f g)"
    and keep_pointwise: "(\<And>st. F st = Panicked \<or> (\<exists>f. Q f \<and> F st = f st)) \<Longrightarrow> Q F"
    and keep_with_type: "Q f \<Longrightarrow> Q (with_type ty f)"
    and keep_with_input_type: "Q f \<Longrightarrow> Q (with_input_type ity f)"
    and keep_report: "Q (on_ctx (report_error ps msg))"
    and keep_fire: "Q (fire v e)"
begin

lemma keep_bind:
  assumes "\<And>c. g c \<noteq> OutOfFuel" "\<And>c x. g c = Done x \<Longrightarrow> Q (h x)"
  shows "Q (bind_ctx g h)"
proof (rule keep_pointwise)
  fix st
  show "bind_ctx g h st = Panicked \<or> (\<exists>f. Q f \<and> bind_ctx g h st = f st)"
    using assms by (cases "g (fst st)") (auto simp: bind_ctx_def)
qed

lemma keep_unless:
  assumes "Q f"
  shows "Q (\<lambda>st. if vc_exceeded_limit (fst st) then Done st else f st)"
proof (rule keep_pointwise)
  fix st
  show "(if vc_exceeded_limit (fst st) then Done st else f st) = Panicked \<or>
    (\<exists>f'. Q f' \<and> (if vc_exceeded_limit (fst st) then Done st else f st) = f' st)"
    using assms keep_Done by (cases "vc_exceeded_limit (fst st)") auto
qed

lemma keep_report_if: "Q (on_ctx (\<lambda>ctx. if b ctx then report_error ps msg ctx else ctx))"
proof (rule keep_pointwise)
  fix st :: "visitor_context \<times> 's"
  let ?F = "on_ctx (\<lambda>ctx. if b ctx then report_error ps msg ctx else ctx)"
  have "?F st = (if b (fst st) then on_ctx (report_error ps msg) st else Done st)"
    by (cases st) (simp add: on_ctx_def)
  then show "?F st = Panicked \<or> (\<exists>f. Q f \<and> ?F st = f st)"
    using keep_Done keep_report [of ps msg] by (cases "b (fst st)") auto
qed

lemma keep_for_each: "(\<And>x. x \<in> set xs \<Longrightarrow> Q (f x)) \<Longrightarrow> Q (for_each f xs)"
  by (induction xs) (simp_all add: keep_seq keep_Done)

lemma keep_for_unless_exceeded:
  "(\<And>x. x \<in> set xs \<Longrightarrow> Q (f x)) \<Longrightarrow> Q (for_unless_exceeded f xs)"
  by (induction xs) (simp_all add: keep_Done keep_unless keep_seq)

lemmas keep_rules =
  keep_seq keep_bind keep_with_type keep_with_input_type keep_for_each keep_for_unless_exceeded

lemma keep_hooks:
  "Q (v_enter_document v d)" "Q (v_exit_document v d)"
  "Q (v_enter_operation_definition v n od)" "Q (v_exit_operation_definition v n od)"
  "Q (v_enter_fragment_definition v fn fd)" "Q (v_exit_fragment_definition v fn fd)"
  "Q (v_enter_variable_definition v vd)" "Q (v_exit_variable_definition v vd)"
  "Q (v_enter_directive v dir)" "Q (v_exit_directive v dir)"
  "Q (v_enter_argument v an av)" "Q (v_exit_argument v an av)"
  "Q (v_enter_selection_set v ss)" "Q (v_exit_selection_set v ss)"
  "Q (v_enter_selection v sel)" "Q (v_exit_selection v sel)"
  "Q (v_enter_field v fld)" "Q (v_exit_field v fld)"
  "Q (v_enter_fragment_spread v sp)" "Q (v_exit_fragment_spread v sp)"
  "Q (v_enter_inline_fragment v inl)" "Q (v_exit_inline_fragment v inl)"
  "Q (v_enter_input_value v p ty val)" "Q (v_exit_input_value v p ty val)"
  by (rule keep_fire [of "EnterDocument _", simplified]
      keep_fire [of "ExitDocument _", simplified]
      keep_fire [of "EnterOperation _ _", simplified]
      keep_fire [of "ExitOperation _ _", simplified]
      keep_fire [of "EnterFragment _ _", simplified]
      keep_fire [of "ExitFragment _ _", simplified]
      keep_fire [of "EnterVariable _", simplified]
      keep_fire [of "ExitVariable _", simplified]
      keep_fire [of "EnterDirective _", simplified]
      keep_fire [of "ExitDirective _", simplified]
      keep_fire [of "EnterArgument _ _", simplified]
      keep_fire [of "ExitArgument _ _", simplified]
      keep_fire [of "EnterSelectionSet _", simplified]
      keep_fire [of "ExitSelectionSet _", simplified]
      keep_fire [of "EnterSelection _", simplified]
      keep_fire [of "ExitSelection _", simplified]
      keep_fire [of "EnterField _", simplified]
      keep_fire [of "ExitField _", simplified]
      keep_fire [of "EnterSpread _", simplified]
      keep_fire [of "ExitSpread _", simplified]
      keep_fire [of "EnterInline _", simplified]
      keep_fire [of "ExitInline _", simplified]
      keep_fire [of "EnterInput _ _ _", simplified]
      keep_fire [of "ExitInput _ _ _", simplified])+

lemma keep_visit_input:
  "u = v \<Longrightarrow> Q (visit_input_value u p ty val)"
  "u = v \<Longrightarrow> Q (visit_input_list u p e vals)"
  "u = v \<Longrightarrow> Q (visit_input_fields u p fs m)"
proof (induction u p ty val and u p e vals and u p fs m
    rule: visit_input_value_visit_input_list_visit_input_fields.induct)
  case (1 u p ty val)
  then show ?case
    by (subst visit_input_value.simps)
      (intro keep_rules, auto simp: keep_hooks keep_Done no_fuel split: gvalue.splits option.splits
        meta_type_name.splits meta_type.splits intro!: keep_bind)
qed (auto simp: keep_hooks keep_Done no_fuel intro!: keep_rules split: option.splits)

lemmas keep_input = keep_visit_input [OF refl]

lemma keep_visit_arguments: "Q (visit_arguments v p schema_arg args)"
  unfolding visit_arguments_def
  by (auto intro!: keep_rules simp: keep_hooks keep_input no_fuel split: prod.splits)

lemma keep_visit_directives: "Q (visit_directives v ds)"
  unfolding visit_directives_def
  by (auto intro!: keep_rules simp: keep_hooks keep_visit_arguments)

lemma keep_visit_variable_definitions: "Q (visit_variable_definitions v ds)"
  unfolding visit_variable_definitions_def
  by (auto intro!: keep_rules simp: keep_hooks)

end

text \<open>A fragment entered without fuel is the one step that need not have the property.\<close>

locale traversal_keeps = hooks_keep +
  assumes keep_spread: "v_mode v = Inline \<Longrightarrow> Q (\<lambda>_. OutOfFuel)"
begin

lemma keep_visit_selections':
  "u = v \<Longrightarrow> Q (visit_selection_set n u ss)"
  "u = v \<Longrightarrow> Q (visit_selection n u sel)"
  "u = v \<Longrightarrow> Q (visit_field n u fld)"
  "u = v \<Longrightarrow> Q (visit_fragment_spread n u spread)"
  "u = v \<Longrightarrow> Q (visit_inline_fragment n u inl)"
proof (induction n u ss and n u sel and n u fld and n u spread and n u inl
    rule: visit_selection_set_visit_selection_visit_field_visit_fragment_spread_visit_inline_fragment.induct)
  case (1 n u ss)
  then show ?case
    by (auto simp: visit_selection_set.simps keep_hooks keep_Done intro!: keep_rules)
next
  case (2 n u sel)
  then show ?case
    by (subst visit_selection.simps)
      (auto simp: keep_hooks keep_Done no_fuel intro!: keep_rules keep_report_if
        split: selection.splits option.splits)
next
  case (3 n u fld)
  then show ?case
    by (auto simp: visit_field.simps keep_hooks keep_visit_arguments keep_visit_directives
        intro!: keep_rules)
next
  case (4 n u spread)
  then show ?case
    by (subst visit_fragment_spread.simps)
      (auto simp: keep_hooks keep_Done keep_visit_directives intro!: keep_rules
        intro: keep_spread split: option.splits nat.splits)
next
  case (5 n u inl)
  then show ?case
    by (auto simp: visit_inline_fragment.simps keep_hooks keep_visit_directives
        intro!: keep_rules)
qed

lemmas keep_visit_selections = keep_visit_selections' [OF refl]

lemma keep_visit_fragment_definition: "Q (visit_fragment_definition n v fn fd)"
  unfolding visit_fragment_definition_def
  by (auto simp: keep_hooks keep_Done no_fuel keep_visit_directives keep_visit_selections intro!: keep_rules)

lemma keep_visit_operation_definition: "Q (visit_operation_definition n v on op)"
  unfolding visit_operation_definition_def
  by (auto simp: keep_hooks keep_Done no_fuel keep_visit_directives keep_visit_selections
      keep_visit_variable_definitions intro!: keep_rules keep_report split: option.splits)

lemma keep_visit: "Q (visit n v doc)"
  unfolding visit_def
  by (auto simp: keep_hooks keep_Done no_fuel keep_visit_fragment_definition keep_visit_operation_definition
      intro!: keep_rules split: prod.splits)

end

subsection \<open>Rules\<close>

text \<open>The contract every visitor of the code keeps.\<close>

locale rule =
  fixes v :: "'s visitor"
  assumes framed_fire: "framed (fire v e)"
    and fuel_free_fire: "fuel_free (fire v e)"

sublocale rule \<subseteq> frame: traversal_keeps framed v
proof
  fix F :: "visitor_context \<times> 'a \<Rightarrow> (visitor_context \<times> 'a) run"
  assume "\<And>st. F st = Panicked \<or> (\<exists>f. framed f \<and> F st = f st)"
  then show "framed F"
    unfolding framed_def by (metis run.distinct(1))
qed (auto simp: framed_fire framed_on_ctx intro: framed_seq framed_with_type framed_with_input_type)

sublocale rule \<subseteq> fuel: hooks_keep fuel_free v
proof
  fix F :: "visitor_context \<times> 'a \<Rightarrow> (visitor_context \<times> 'a) run"
  assume *: "\<And>st. F st = Panicked \<or> (\<exists>f. fuel_free f \<and> F st = f st)"
  show "fuel_free F"
    unfolding fuel_free_def
  proof
    fix st
    show "F st \<noteq> OutOfFuel"
      using * [of st] unfolding fuel_free_def by (metis run.distinct(5))
  qed
qed (auto simp: fuel_free_fire with_type_def with_input_type_def intro!: fuel_free_seq)

locale normal_rule = rule +
  assumes normal: "v_mode v = Normal"

sublocale normal_rule \<subseteq> normal_fuel: traversal_keeps fuel_free v
  by unfold_locales (simp add: normal)

lemma rule_nil: "rule visitor_nil"
  by standard simp_all

lemma rule_cons: "rule v \<Longrightarrow> rule w \<Longrightarrow> rule (visitor_cons v w)"
  by (simp add: rule_def fire_cons framed_both fuel_free_both)

end
