(* ===== verification/Graph_Search.thy ===== *)
theory Graph_Search
  imports Rules_Scoped Traversal
begin

text \<open>
  The depth-first searches of the scoped rules. Three of them (undefined variables, unused
  variables, variable positions) have the same shape: skip a scope that was visited, act on it,
  mark it, search the fragments it spreads. The locale states that shape once; each search of the
  code interprets it.
\<close>

subsection \<open>Steps that run out of fuel\<close>

lemma for_each_fuel:
  assumes "\<And>x st. x \<in> set xs \<Longrightarrow> P st \<Longrightarrow> f x st \<noteq> OutOfFuel"
    and "\<And>x st st'. x \<in> set xs \<Longrightarrow> P st \<Longrightarrow> f x st = Done st' \<Longrightarrow> P st'"
    and "P st"
  shows "for_each f xs st \<noteq> OutOfFuel"
  using assms
proof (induction xs arbitrary: st)
  case (Cons x xs)
  show ?case
  proof (cases "f x st")
    case (Done st')
    then have "P st'"
      using Cons.prems(2) [of x st st'] Cons.prems(3) by simp
    moreover have "\<And>y s. y \<in> set xs \<Longrightarrow> P s \<Longrightarrow> f y s \<noteq> OutOfFuel"
      using Cons.prems(1) by simp
    moreover have "\<And>y s s'. y \<in> set xs \<Longrightarrow> P s \<Longrightarrow> f y s = Done s' \<Longrightarrow> P s'"
      using Cons.prems(2) by (meson list.set_intros(2))
    ultimately have "for_each f xs st' \<noteq> OutOfFuel"
      using Cons.IH [of st'] by blast
    then show ?thesis
      using Done by (simp add: seq_def)
  qed (use Cons.prems in \<open>auto simp: seq_def\<close>)
qed simp

lemma run_bind_Panicked_iff:
  "run_bind r f = Panicked \<longleftrightarrow> r = Panicked \<or> (\<exists>x. r = Done x \<and> f x = Panicked)"
  by (cases r) simp_all

lemma for_each_invariant:
  assumes "\<And>x st st'. x \<in> set xs \<Longrightarrow> P st \<Longrightarrow> f x st = Done st' \<Longrightarrow> P st'"
    and "P st" "for_each f xs st = Done st'"
  shows "P st'"
  using assms
proof (induction xs arbitrary: st)
  case (Cons x xs)
  then obtain m where "f x st = Done m" "for_each f xs m = Done st'"
    by (auto simp: seq_def run_bind_Done_iff)
  then show ?case
    using Cons.IH [of m] Cons.prems by auto
qed simp

subsection \<open>The search\<close>

locale graph_search =
  fixes search :: "nat \<Rightarrow> 'n \<Rightarrow> ('st \<times> 'n set) step"
    and succs :: "'n \<Rightarrow> 'n list"
    and act :: "'n \<Rightarrow> 'st \<Rightarrow> 'st run"
  assumes search_0: "search 0 x s = OutOfFuel"
    and search_Suc: "search (Suc n) x (st, vis) =
       (if x \<in> vis then Done (st, vis)
        else run_bind (act x st) (\<lambda>st'. for_each (search n) (succs x) (st', insert x vis)))"
    and finite_sources: "finite {x. succs x \<noteq> []}"
    and act_no_fuel: "act x st \<noteq> OutOfFuel"
begin

lemma search_marks:
  "search n x (st, vis) = Done (st', vis') \<Longrightarrow> insert x vis \<subseteq> vis'"
proof (induction n arbitrary: x st vis st' vis')
  case (Suc n)
  show ?case
  proof (cases "x \<in> vis")
    case False
    then obtain s1 where s1: "for_each (search n) (succs x) (s1, insert x vis) = Done (st', vis')"
      using Suc.prems by (auto simp: search_Suc run_bind_Done_iff)
    have "insert x vis \<subseteq> snd (st', vis')"
      by (rule for_each_invariant [OF _ _ s1]) (use Suc.IH in force)+
    then show ?thesis by simp
  qed (use Suc.prems in \<open>auto simp: search_Suc\<close>)
qed (simp add: search_0)

text \<open>One unit of fuel per node with successors, and one more, is enough.\<close>

lemma search_fuel:
  "card ({x. succs x \<noteq> []} - vis) < n \<Longrightarrow> search n x (st, vis) \<noteq> OutOfFuel"
proof (induction n arbitrary: x st vis)
  case (Suc n)
  let ?K = "{x. succs x \<noteq> []}"
  have "for_each (search n) (succs x) (s1, insert x vis) \<noteq> OutOfFuel" if "x \<notin> vis" for s1
  proof (cases "succs x = []")
    case False
    then have "card (?K - insert x vis) < card (?K - vis)"
      using that finite_sources by (intro psubset_card_mono) auto
    then have less: "card (?K - insert x vis) < n"
      using Suc.prems by simp
    show ?thesis
    proof (rule for_each_fuel [where P = "\<lambda>s. insert x vis \<subseteq> snd s"])
      fix y and s :: "'st \<times> 'n set"
      assume "insert x vis \<subseteq> snd s"
      then have "card (?K - snd s) \<le> card (?K - insert x vis)"
        using finite_sources by (intro card_mono) auto
      then show "search n y s \<noteq> OutOfFuel"
        using Suc.IH [of "snd s" y "fst s"] less by simp
    next
      fix y and s s' :: "'st \<times> 'n set"
      assume "insert x vis \<subseteq> snd s" "search n y s = Done s'"
      then show "insert x vis \<subseteq> snd s'"
        using search_marks [of n y "fst s" "snd s" "fst s'" "snd s'"] by auto
    qed simp
  qed simp
  then show ?case
    by (auto simp: search_Suc run_bind_OutOfFuel_iff act_no_fuel)
qed simp

text \<open>The nodes a search visits, in order: their actions make its result.\<close>

definition reaches :: "'n \<Rightarrow> 'n \<Rightarrow> bool" where
  "reaches = (\<lambda>x y. y \<in> set (succs x))\<^sup>*\<^sup>*"

lemma reaches_refl [simp]: "reaches x x"
  by (simp add: reaches_def)

lemma reaches_step: "y \<in> set (succs x) \<Longrightarrow> reaches y z \<Longrightarrow> reaches x z"
  unfolding reaches_def by (rule converse_rtranclp_into_rtranclp)

lemma reaches_trans: "reaches x y \<Longrightarrow> reaches y z \<Longrightarrow> reaches x z"
  unfolding reaches_def by (rule rtranclp_trans)

definition visits :: "('n \<Rightarrow> bool) \<Rightarrow> 'st \<times> 'n set \<Rightarrow> 'n list \<Rightarrow> 'st \<times> 'n set \<Rightarrow> bool" where
  "visits P s order s' \<longleftrightarrow>
     distinct order \<and> set order \<inter> snd s = {} \<and> snd s' = snd s \<union> set order \<and>
     for_each act order (fst s) = Done (fst s') \<and>
     (\<forall>y\<in>set order. P y \<and> set (succs y) \<subseteq> snd s')"

lemma visits_Nil: "visits P s [] s"
  by (simp add: visits_def)

lemma visits_append:
  "visits P s xs m \<Longrightarrow> visits P m ys s' \<Longrightarrow> visits P s (xs @ ys) s'"
  unfolding visits_def by (auto simp: for_each_append seq_def)+

lemma visits_mono: "visits P s xs s' \<Longrightarrow> (\<And>x. P x \<Longrightarrow> Q x) \<Longrightarrow> visits Q s xs s'"
  unfolding visits_def by blast

lemma search_list_visits:
  assumes "\<And>y m m'. y \<in> set ys \<Longrightarrow> search n y m = Done m' \<Longrightarrow>
      \<exists>order. visits (reaches y) m order m' \<and> y \<in> snd m'"
    and "for_each (search n) ys m = Done m'"
  shows "\<exists>order. visits (\<lambda>z. \<exists>y\<in>set ys. reaches y z) m order m' \<and> set ys \<subseteq> snd m'"
  using assms
proof (induction ys arbitrary: m)
  case Nil
  then show ?case
    using visits_Nil [of "\<lambda>z. False" m'] by (auto intro: exI [of _ "[]"])
next
  case (Cons y ys)
  then obtain m1 where m1: "search n y m = Done m1" "for_each (search n) ys m1 = Done m'"
    by (auto simp: seq_def run_bind_Done_iff)
  obtain xs where xs: "visits (reaches y) m xs m1" "y \<in> snd m1"
    using Cons.prems(1) [OF _ m1(1)] by auto
  obtain zs where zs: "visits (\<lambda>z. \<exists>y\<in>set ys. reaches y z) m1 zs m'" "set ys \<subseteq> snd m'"
    using Cons.IH [OF _ m1(2)] Cons.prems(1) by (meson list.set_intros(2))
  have "visits (\<lambda>z. \<exists>y\<in>set (y # ys). reaches y z) m (xs @ zs) m'"
    by (rule visits_append [OF visits_mono [OF xs(1)] visits_mono [OF zs(1)]]) auto
  moreover have "y \<in> snd m'"
    using xs(2) zs(1) by (auto simp: visits_def)
  ultimately show ?case
    using zs(2) by auto
qed

lemma search_visits:
  "search n x s = Done s' \<Longrightarrow> \<exists>order. visits (reaches x) s order s' \<and> x \<in> snd s'"
proof (induction n arbitrary: x s s')
  case (Suc n)
  obtain st vis where s: "s = (st, vis)" by (cases s)
  show ?case
  proof (cases "x \<in> vis")
    case True
    then show ?thesis
      using Suc.prems visits_Nil by (auto simp: s search_Suc)
  next
    case False
    then obtain s1 where s1: "act x st = Done s1"
      "for_each (search n) (succs x) (s1, insert x vis) = Done s'"
      using Suc.prems by (auto simp: s search_Suc run_bind_Done_iff)
    obtain order where order:
      "visits (\<lambda>z. \<exists>y\<in>set (succs x). reaches y z) (s1, insert x vis) order s'"
      "set (succs x) \<subseteq> snd s'"
      using search_list_visits [OF Suc.IH s1(2)] by blast
    then have "\<forall>y\<in>set order. reaches x y \<and> set (succs y) \<subseteq> snd s'"
      unfolding visits_def by (meson reaches_step)
    then have "\<forall>y\<in>set (x # order). reaches x y \<and> set (succs y) \<subseteq> snd s'"
      using order(2) by simp
    then have "visits (reaches x) s (x # order) s'"
      using s1(1) False order(1) by (simp add: s visits_def seq_def)
    moreover from this have "x \<in> snd s'"
      by (auto simp: visits_def)
    ultimately show ?thesis by blast
  qed
qed (simp add: search_0)

lemma closed_reaches:
  assumes "reaches x y" "x \<in> V" "\<And>z. z \<in> V \<Longrightarrow> set (succs z) \<subseteq> V"
  shows "y \<in> V"
  using assms(1) unfolding reaches_def
  by (induction rule: rtranclp_induct) (use assms(2,3) in auto)

text \<open>A search from nothing visited acts once on every reachable node, and on nothing else.\<close>

theorem search_from_start:
  assumes "search n x (st, {}) = Done (st', vis)"
  shows "vis = {y. reaches x y} \<and>
    (\<exists>order. distinct order \<and> set order = {y. reaches x y} \<and> for_each act order st = Done st')"
proof -
  obtain order where order: "visits (reaches x) (st, {}) order (st', vis)" "x \<in> vis"
    using search_visits [OF assms] by auto
  then have "vis = set order" "\<forall>y\<in>set order. reaches x y \<and> set (succs y) \<subseteq> vis"
    by (auto simp: visits_def)
  then have "vis = {y. reaches x y}"
    using closed_reaches [of x _ vis] order(2) by blast
  then show ?thesis
    using order(1) by (auto simp: visits_def)
qed

theorem search_from_start_returns:
  assumes "card {x. succs x \<noteq> []} < n" and "\<And>x st. returns (act x st)"
  shows "returns (search n x (st, vis))"
proof -
  have "search n x s \<noteq> Panicked" for n x s
  proof (induction n arbitrary: x s)
    case (Suc n)
    have panic: "for_each (search n) ys m \<noteq> Panicked" for ys m
      by (induction ys arbitrary: m) (auto simp: seq_def run_bind_Panicked_iff Suc.IH)
    obtain st vis where s: "s = (st, vis)" by (cases s)
    obtain st' where "act x st = Done st'"
      using assms(2) [of x st] by (auto simp: returns_iff)
    then show ?case
      using panic by (simp add: s search_Suc)
  qed (simp add: search_0)
  moreover have "card ({x. succs x \<noteq> []} - vis) < n"
    using assms(1) card_mono [OF finite_sources, of "{x. succs x \<noteq> []} - vis"] by auto
  then have "search n x (st, vis) \<noteq> OutOfFuel"
    by (rule search_fuel)
  ultimately show ?thesis
    by (cases "search n x (st, vis)") simp_all
qed

end

subsection \<open>The searches of the rules\<close>

definition spread_scopes :: "scope_spreads \<Rightarrow> scope \<Rightarrow> scope list" where
  "spread_scopes spreads sc = map ScopeFragment (get_list spreads sc)"

lemma sources_keys: "{k. get_list m k \<noteq> []} \<subseteq> fst ` set m"
  using get_list_no_key by fastforce

lemma finite_get_list: "finite {k. get_list m k \<noteq> []}"
  by (rule finite_subset [OF sources_keys]) simp

lemma card_get_list: "card {k. get_list m k \<noteq> []} \<le> length m"
  using card_mono [OF _ sources_keys [of m]] card_length [of "map fst m"] by simp

lemma finite_spread_scopes: "finite {sc. spread_scopes spreads sc \<noteq> []}"
  using finite_get_list [of spreads] by (simp add: spread_scopes_def)

lemma card_spread_scopes: "card {sc. spread_scopes spreads sc \<noteq> []} < length spreads + 2"
  using card_get_list [of spreads] by (simp add: spread_scopes_def)

lemma is_subtype_no_fuel [no_fuel]: "is_subtype a b \<noteq> OutOfFuel"
  by (induction a b rule: is_subtype.induct) (auto simp: run_bind_OutOfFuel_iff no_fuel)

lemma check_usage_no_fuel: "check_usage defs u ctx \<noteq> OutOfFuel"
  by (auto simp: check_usage_def run_bind_OutOfFuel_iff no_fuel split: prod.splits option.splits)

definition undef_act ::
  "no_undefined_variables_state \<Rightarrow> name set \<Rightarrow> scope \<Rightarrow> (name \<times> src_pos) list step" where
  "undef_act self defined sc undef =
     Done (undef @ filter (\<lambda>(var, p). var \<notin> defined) (get_list (nud_used_variables self) sc))"

definition used_act :: "no_unused_variables_state \<Rightarrow> name set \<Rightarrow> scope \<Rightarrow> name set step" where
  "used_act self defined sc used =
     Done (used \<union> {var \<in> set (get_list (nuv_used_variables self) sc). var \<in> defined})"

definition usage_act ::
  "variable_in_allowed_position_state \<Rightarrow> variable_definition positioned list \<Rightarrow> scope \<Rightarrow>
     visitor_context step" where
  "usage_act self defs sc = for_each (check_usage defs) (get_list (vap_variable_usages self) sc)"

interpretation undef: graph_search
  "\<lambda>n. find_undef_vars n self defined" "spread_scopes (nud_spreads self)" "undef_act self defined"
  for self defined
  by unfold_locales (auto simp: spread_scopes_def for_each_map finite_get_list undef_act_def search_unfold)

interpretation used: graph_search
  "\<lambda>n. find_used_vars n self defined" "spread_scopes (nuv_spreads self)" "used_act self defined"
  for self defined
  by unfold_locales (auto simp: spread_scopes_def for_each_map finite_get_list used_act_def search_unfold)

interpretation usages: graph_search
  "\<lambda>n. collect_incorrect_usages n self defs" "spread_scopes (vap_spreads self)" "usage_act self defs"
  for self defs
proof unfold_locales
  show "usage_act self defs x st \<noteq> OutOfFuel" for x st
    unfolding usage_act_def by (rule for_each_fuel [where P = "\<lambda>_. True"]) (auto simp: check_usage_no_fuel)
qed (auto simp: spread_scopes_def for_each_map finite_get_list usage_act_def search_unfold)

text \<open>The fragments reachable from an operation, as a search over fragment names.\<close>

definition reach_search :: "scope_spreads \<Rightarrow> nat \<Rightarrow> name \<Rightarrow> (unit \<times> name set) step" where
  "reach_search spreads n fname = (\<lambda>(_, result).
     run_map (Pair ()) (find_reachable_fragments n spreads (ScopeFragment fname) result))"

lemma for_each_reach:
  "for_each (reach_search spreads n) xs ((), r) =
     run_map (Pair ()) (for_each (\<lambda>f. find_reachable_fragments n spreads (ScopeFragment f)) xs r)"
proof (induction xs arbitrary: r)
  case (Cons x xs)
  then show ?case
    by (cases "find_reachable_fragments n spreads (ScopeFragment x) r")
      (simp_all add: seq_def reach_search_def)
qed simp

interpretation reach: graph_search
  "reach_search spreads" "\<lambda>f. get_list spreads (ScopeFragment f)" "\<lambda>_ u. Done u"
  for spreads
proof unfold_locales
  have "ScopeFragment ` {f. get_list spreads (ScopeFragment f) \<noteq> []} \<subseteq> {k. get_list spreads k \<noteq> []}"
    by auto
  then show "finite {x. get_list spreads (ScopeFragment x) \<noteq> []}"
    using finite_get_list [of spreads] by (meson finite_imageD finite_subset inj_onI scope.inject(2))
next
  fix n x st vis
  show "reach_search spreads (Suc n) x (st, vis) =
     (if x \<in> vis then Done (st, vis)
      else run_bind (Done st)
        (\<lambda>st'. for_each (reach_search spreads n) (get_list spreads (ScopeFragment x)) (st', insert x vis)))"
    by (simp add: reach_search_def [of spreads "Suc n"] for_each_reach search_unfold)
qed (simp_all add: reach_search_def)

end
