(* ===== verification/Cycle_Search.thy ===== *)
theory Cycle_Search
  imports Graph_Search
begin

text \<open>
  \<open>CycleDetector\<close> of \<open>no_fragment_cycles.rs\<close>: the search of \<open>detect_from\<close> is a depth-first
  search with the fragments on the current path grey. It reports an error exactly when the spreads
  of the document contain a cycle.
\<close>

subsection \<open>A loop with what it has processed\<close>

lemma for_each_prefix:
  assumes "P [] st"
    and "\<And>ys x s s'. x \<in> set xs \<Longrightarrow> P ys s \<Longrightarrow> f x s = Done s' \<Longrightarrow> P (ys @ [x]) s'"
    and "for_each f xs st = Done st'"
  shows "P xs st'"
proof -
  have "P (ys @ xs) st'" if "P ys st" "for_each f xs st = Done st'"
    "\<And>ys x s s'. x \<in> set xs \<Longrightarrow> P ys s \<Longrightarrow> f x s = Done s' \<Longrightarrow> P (ys @ [x]) s'" for ys
    using that
  proof (induction xs arbitrary: ys st)
    case (Cons x xs)
    then obtain m where m: "f x st = Done m" "for_each f xs m = Done st'"
      by (auto simp: seq_def run_bind_Done_iff)
    have "P (ys @ [x]) m"
      using Cons.prems(3) [of x ys st m] Cons.prems(1) m(1) by simp
    then show ?case
      using Cons.IH [of "ys @ [x]" m] m(2) Cons.prems(3) by simp
  qed simp
  from this [of "[]"] show ?thesis
    using assms by simp
qed

subsection \<open>The graph of spreads\<close>

definition spread_edges :: "spread_map \<Rightarrow> (name \<times> name) set" where
  "spread_edges spreads = {(f, g). g \<in> fst ` set (get_list spreads f)}"

lemma spread_edges_key: "(f, g) \<in> spread_edges spreads \<Longrightarrow> contains_key spreads f"
  using get_list_no_key [of f spreads]
  by (cases "contains_key spreads f") (auto simp: spread_edges_def contains_key_iff)

definition cyclic :: "spread_map \<Rightarrow> bool" where
  "cyclic spreads \<longleftrightarrow> (\<exists>f. (f, f) \<in> (spread_edges spreads)\<^sup>+)"

definition grey :: "cycle_detector \<Rightarrow> name set" where
  "grey det = fst ` set (cd_path_indices det)"

definition black :: "cycle_detector \<Rightarrow> name set" where
  "black det = cd_visited det - grey det"

text \<open>What the search knows when it has reported nothing: the finished part is closed and acyclic.\<close>

definition finished :: "spread_map \<Rightarrow> name set \<Rightarrow> bool" where
  "finished spreads F \<longleftrightarrow>
     spread_edges spreads `` F \<subseteq> F \<and> (\<forall>x\<in>F. (x, x) \<notin> (spread_edges spreads)\<^sup>+)"

lemma closed_trancl: "(x, y) \<in> E\<^sup>+ \<Longrightarrow> E `` F \<subseteq> F \<Longrightarrow> E `` {x} \<subseteq> F \<Longrightarrow> y \<in> F"
  by (induction rule: trancl_induct) auto

lemma finished_insert:
  assumes "finished spreads F" "spread_edges spreads `` {x} \<subseteq> F" "x \<notin> F"
  shows "finished spreads (insert x F)"
  using assms closed_trancl [of x x "spread_edges spreads" F]
  by (auto simp: finished_def)

text \<open>What one call of \<open>detect_from\<close> does.\<close>

definition detect_post :: "spread_map \<Rightarrow> name set \<Rightarrow> cycle_detector \<Rightarrow> cycle_detector \<Rightarrow> bool" where
  "detect_post spreads new det det' \<longleftrightarrow>
     cd_path_indices det' = cd_path_indices det \<and>
     cd_visited det \<union> new \<subseteq> cd_visited det' \<and>
     (\<exists>es. cd_errors det' = cd_errors det @ es \<and> (es \<noteq> [] \<longrightarrow> cyclic spreads)) \<and>
     (cd_errors det' = [] \<longrightarrow> finished spreads (black det) \<longrightarrow>
        finished spreads (black det') \<and> new \<subseteq> black det')"

lemma detect_post_refl: "new \<subseteq> black det \<Longrightarrow> detect_post spreads new det det"
  by (auto simp: detect_post_def black_def)

lemma detect_post_trans:
  assumes a: "detect_post spreads xs a b" and b: "detect_post spreads ys b c"
  shows "detect_post spreads (xs \<union> ys) a c"
proof -
  have "black b \<subseteq> black c"
    using b by (auto simp: detect_post_def black_def grey_def)
  then show ?thesis
    using a b unfolding detect_post_def by auto
qed

lemma detect_post_error:
  assumes "cyclic spreads" "g \<in> cd_visited det" "es \<noteq> []"
  shows "detect_post spreads {g} det (det\<lparr>cd_errors := cd_errors det @ es\<rparr>)"
  using assms by (simp add: detect_post_def)

lemma alist_remove_insert: "k \<notin> fst ` set m \<Longrightarrow> alist_remove k (alist_insert k v m) = m"
  by (induction m) (auto simp: alist_remove_def filter_id_conv)

text \<open>The loop body of \<open>detect_from\<close>.\<close>

definition detect_edge ::
  "nat \<Rightarrow> spread_map \<Rightarrow> (name \<times> src_pos) list \<Rightarrow> name \<times> src_pos \<Rightarrow> cycle_detector step" where
  "detect_edge n spreads path = (\<lambda>(spread_name, p) det.
     case map_of (cd_path_indices det) spread_name of
       Some index \<Rightarrow>
         let err_pos = (if index < length path then snd (path ! index) else p) in
         Done (det\<lparr>cd_errors := cd_errors det @
           [rule_error_new [err_pos] (''Cannot spread fragment '' @ quoted spread_name)]\<rparr>)
     | None \<Rightarrow>
         if spread_name \<notin> cd_visited det then
           detect_from n spreads spread_name (path @ [(spread_name, p)]) det
         else Done det)"

lemma detect_from_Suc:
  "detect_from (Suc n) spreads fr path det =
     (let det1 = det\<lparr>cd_visited := insert fr (cd_visited det)\<rparr> in
      if \<not> contains_key spreads fr then Done det1
      else run_map (\<lambda>det. det\<lparr>cd_path_indices := alist_remove fr (cd_path_indices det)\<rparr>)
        (for_each (detect_edge n spreads path) (get_list spreads fr)
          (det1\<lparr>cd_path_indices := alist_insert fr (length path) (cd_path_indices det1)\<rparr>)))"
  by (simp add: Let_def detect_edge_def search_unfold)

definition on_path :: "spread_map \<Rightarrow> name \<Rightarrow> cycle_detector \<Rightarrow> bool" where
  "on_path spreads fr det \<longleftrightarrow>
     grey det \<subseteq> cd_visited det \<and> (\<forall>x\<in>grey det. (x, fr) \<in> (spread_edges spreads)\<^sup>*)"

lemma detect_edge_post:
  assumes IH: "\<And>fr path det det'. detect_from n spreads fr path det = Done det' \<Longrightarrow>
      fr \<notin> cd_visited det \<Longrightarrow> on_path spreads fr det \<Longrightarrow> detect_post spreads {fr} det det'"
    and edge: "(fr, fst e) \<in> spread_edges spreads"
    and step: "detect_edge n spreads path e det = Done det'"
    and path: "on_path spreads fr det"
  shows "detect_post spreads {fst e} det det'"
proof (cases "map_of (cd_path_indices det) (fst e)")
  case (Some index)
  then have g: "fst e \<in> grey det"
    by (auto simp: grey_def dest: map_of_SomeD intro: rev_image_eqI)
  then have "(fst e, fst e) \<in> (spread_edges spreads)\<^sup>+"
    using path edge by (auto simp: on_path_def intro: rtrancl_into_trancl1)
  then have "cyclic spreads"
    by (auto simp: cyclic_def)
  then show ?thesis
    using step Some g path
    by (auto simp: detect_edge_def Let_def on_path_def split: prod.splits intro!: detect_post_error)
next
  case None
  then have g: "fst e \<notin> grey det"
    by (simp add: grey_def map_of_eq_None_iff)
  show ?thesis
  proof (cases "fst e \<in> cd_visited det")
    case True
    then show ?thesis
      using step None g by (auto simp: detect_edge_def black_def split: prod.splits intro!: detect_post_refl)
  next
    case False
    have "on_path spreads (fst e) det"
      using path edge by (auto simp: on_path_def intro: rtrancl_into_rtrancl)
    then show ?thesis
      using step None False IH [of "fst e" "path @ [(fst e, snd e)]" det det']
      by (auto simp: detect_edge_def split: prod.splits)
  qed
qed

lemma detect_post_on_path:
  "detect_post spreads new d d' \<Longrightarrow> on_path spreads fr d \<Longrightarrow> on_path spreads fr d'"
  unfolding detect_post_def on_path_def grey_def by auto

lemma detect_from_post:
  "detect_from n spreads fr path det = Done det' \<Longrightarrow> fr \<notin> cd_visited det \<Longrightarrow>
     on_path spreads fr det \<Longrightarrow> detect_post spreads {fr} det det'"
proof (induction n arbitrary: fr path det det')
  case (Suc n)
  let ?V = "insert fr (cd_visited det)"
  have new: "fr \<notin> grey det"
    using Suc.prems by (auto simp: on_path_def)
  show ?case
  proof (cases "contains_key spreads fr")
    case False
    then have "spread_edges spreads `` {fr} = {}"
      using spread_edges_key [of fr _ spreads] by auto
    then show ?thesis
      using Suc.prems False new finished_insert [of spreads "black det" fr]
      by (auto simp: detect_from_Suc Let_def detect_post_def black_def grey_def insert_Diff_if)
  next
    case True
    define det1 where "det1 = det\<lparr>cd_visited := ?V,
      cd_path_indices := alist_insert fr (length path) (cd_path_indices det)\<rparr>"
    obtain det2 where det2: "for_each (detect_edge n spreads path) (get_list spreads fr) det1 = Done det2"
      "det' = det2\<lparr>cd_path_indices := alist_remove fr (cd_path_indices det2)\<rparr>"
      using Suc.prems(1) True
      by (auto simp: detect_from_Suc Let_def det1_def run_map_def run_bind_Done_iff)
    have grey1: "grey det1 = insert fr (grey det)"
      by (simp add: det1_def grey_def fst_alist_insert)
    have path1: "on_path spreads fr det1"
      using Suc.prems(3) by (auto simp: on_path_def grey1) (auto simp: det1_def)
    have "detect_post spreads (fst ` set (get_list spreads fr)) det1 det2 \<and> on_path spreads fr det2"
    proof (rule for_each_prefix [OF _ _ det2(1), where
          P = "\<lambda>(ys :: (name \<times> src_pos) list) d. detect_post spreads (fst ` set ys) det1 d \<and> on_path spreads fr d"])
      show "detect_post spreads (fst ` set []) det1 det1 \<and> on_path spreads fr det1"
        using path1 by (simp add: detect_post_refl)
    next
      fix ys :: "(name \<times> src_pos) list" and e :: "name \<times> src_pos" and d d' :: cycle_detector
      assume e: "e \<in> set (get_list spreads fr)"
        and pre: "detect_post spreads (fst ` set ys) det1 d \<and> on_path spreads fr d"
        and step: "detect_edge n spreads path e d = Done d'"
      have "(fr, fst e) \<in> spread_edges spreads"
        using e by (simp add: spread_edges_def)
      then have "detect_post spreads {fst e} d d'"
        using detect_edge_post [where n = n and spreads = spreads, OF Suc.IH _ step, where fr = fr] pre
        by fast
      then show "detect_post spreads (fst ` set (ys @ [e])) det1 d' \<and> on_path spreads fr d'"
        using detect_post_trans [of spreads "fst ` set ys" det1 d "{fst e}" d'] pre
          detect_post_on_path [of spreads "{fst e}" d d' fr]
        by simp
    qed
    then have post: "detect_post spreads (fst ` set (get_list spreads fr)) det1 det2" ..
    have indices: "cd_path_indices det' = cd_path_indices det"
      using post new det2(2) by (simp add: detect_post_def det1_def grey_def alist_remove_insert)
    have black1: "black det1 = black det"
      using Suc.prems(2) by (auto simp: black_def grey1) (auto simp: det1_def)
    have grey2: "grey det2 = insert fr (grey det)"
      using post grey1 by (simp add: detect_post_def grey_def)
    have "fr \<in> cd_visited det2"
      using post by (auto simp: detect_post_def det1_def)
    then have black': "black det' = insert fr (black det2)"
      using grey2 new indices by (auto simp: black_def grey_def det2(2))
    have "fr \<notin> black det2"
      using grey2 by (simp add: black_def)
    then have "finished spreads (black det') \<and> fr \<in> black det'" if "finished spreads (black det2)"
        "fst ` set (get_list spreads fr) \<subseteq> black det2"
      using finished_insert [OF that(1), of fr] that(2)
      by (auto simp: black' spread_edges_def)
    moreover have "cd_visited det' = cd_visited det2" "cd_errors det' = cd_errors det2"
      "cd_visited det1 = ?V" "cd_errors det1 = cd_errors det"
      by (simp_all add: det2(2) det1_def)
    ultimately show ?thesis
      using post indices black1 black' unfolding detect_post_def by auto
  qed
qed simp

subsection \<open>Termination and the result\<close>

lemma detect_edge_visited:
  assumes "\<And>fr path det det'. detect_from n spreads fr path det = Done det' \<Longrightarrow>
      insert fr (cd_visited det) \<subseteq> cd_visited det'"
    and "detect_edge n spreads path e det = Done det'"
  shows "cd_visited det \<subseteq> cd_visited det'"
  using assms(2) assms(1) [of "fst e" "path @ [e]" det det']
  by (auto simp: detect_edge_def Let_def split: prod.splits option.splits if_splits)

lemma detect_from_visited:
  "detect_from n spreads fr path det = Done det' \<Longrightarrow> insert fr (cd_visited det) \<subseteq> cd_visited det'"
proof (induction n arbitrary: fr path det det')
  case (Suc n)
  show ?case
  proof (cases "contains_key spreads fr")
    case True
    then obtain det1 det2 where det2: "for_each (detect_edge n spreads path) (get_list spreads fr) det1 = Done det2"
      "cd_visited det1 = insert fr (cd_visited det)" "cd_visited det' = cd_visited det2"
      using Suc.prems by (force simp: detect_from_Suc Let_def run_map_def run_bind_Done_iff)
    have "insert fr (cd_visited det) \<subseteq> cd_visited det2"
    proof (rule for_each_invariant [OF _ _ det2(1),
          where P = "\<lambda>d. insert fr (cd_visited det) \<subseteq> cd_visited d"])
      fix e and d d' :: cycle_detector
      assume "insert fr (cd_visited det) \<subseteq> cd_visited d" "detect_edge n spreads path e d = Done d'"
      then show "insert fr (cd_visited det) \<subseteq> cd_visited d'"
        using detect_edge_visited [where n = n and spreads = spreads, OF Suc.IH, where path = path and e = e and det = d]
        by fast
    qed (simp add: det2(2))
    then show ?thesis
      using det2(3) by simp
  qed (use Suc.prems in \<open>auto simp: detect_from_Suc Let_def\<close>)
qed simp

lemma detect_from_fuel:
  "card (fst ` set spreads - cd_visited det) < n \<Longrightarrow> fr \<notin> cd_visited det \<Longrightarrow>
     detect_from n spreads fr path det \<noteq> OutOfFuel"
proof (induction n arbitrary: fr path det)
  case (Suc n)
  show ?case
  proof (cases "contains_key spreads fr")
    case True
    let ?det1 = "det\<lparr>cd_visited := insert fr (cd_visited det),
      cd_path_indices := alist_insert fr (length path) (cd_path_indices det)\<rparr>"
    have "card (fst ` set spreads - insert fr (cd_visited det)) < card (fst ` set spreads - cd_visited det)"
      by (rule psubset_card_mono) (use True Suc.prems(2) in \<open>auto simp: contains_key_iff\<close>)
    then have less: "card (fst ` set spreads - insert fr (cd_visited det)) < n"
      using Suc.prems(1) by simp
    have "for_each (detect_edge n spreads path) (get_list spreads fr) ?det1 \<noteq> OutOfFuel"
    proof (rule for_each_fuel [where P = "\<lambda>d. insert fr (cd_visited det) \<subseteq> cd_visited d"])
      fix e and d :: cycle_detector
      assume d: "insert fr (cd_visited det) \<subseteq> cd_visited d"
      have "card (fst ` set spreads - cd_visited d) \<le> card (fst ` set spreads - insert fr (cd_visited det))"
        by (intro card_mono) (use d in auto)
      then have "card (fst ` set spreads - cd_visited d) < n"
        using less by simp
      then show "detect_edge n spreads path e d \<noteq> OutOfFuel"
        using Suc.IH [of d "fst e" "path @ [e]"]
        by (cases e) (auto simp: detect_edge_def Let_def split: option.splits)
    next
      fix e and d d' :: cycle_detector
      assume "insert fr (cd_visited det) \<subseteq> cd_visited d" "detect_edge n spreads path e d = Done d'"
      then show "insert fr (cd_visited det) \<subseteq> cd_visited d'"
        using detect_edge_visited [where n = n and spreads = spreads, OF detect_from_visited,
            where path = path and e = e and det = d] by fast
    qed simp
    then show ?thesis
      using True by (simp add: detect_from_Suc Let_def)
  qed (simp add: detect_from_Suc Let_def)
qed simp

lemma detect_from_no_panic: "detect_from n spreads fr path det \<noteq> Panicked"
proof (induction n arbitrary: fr path det)
  case (Suc n)
  have "detect_edge n spreads path e d \<noteq> Panicked" for e d
    using Suc.IH by (auto simp: detect_edge_def Let_def split: prod.splits option.splits)
  then have "for_each (detect_edge n spreads path) es d \<noteq> Panicked" for es d
    by (induction es arbitrary: d) (auto simp: seq_def run_bind_Panicked_iff)
  then show ?case
    by (auto simp: detect_from_Suc Let_def run_map_def run_bind_Panicked_iff)
qed simp

definition detect_root :: "spread_map \<Rightarrow> name \<Rightarrow> cycle_detector step" where
  "detect_root spreads frag det =
     (if frag \<notin> cd_visited det then detect_from (Suc (length spreads)) spreads frag [] det
      else Done det)"

lemma detect_all_root:
  "detect_all spreads fragment_order =
     for_each (detect_root spreads) fragment_order
       \<lparr>cd_visited = {}, cd_path_indices = [], cd_errors = []\<rparr>"
  by (simp add: detect_all_def detect_root_def [abs_def])

lemma detect_all_returns: "returns (detect_all spreads fragment_order)"
proof -
  have card: "card (fst ` set spreads - V) < Suc (length spreads)" for V
    using card_length [of "map fst spreads"] card_mono [of "fst ` set spreads" "fst ` set spreads - V"]
    by auto
  have "detect_root spreads f d \<noteq> OutOfFuel" "detect_root spreads f d \<noteq> Panicked" for f d
    using detect_from_fuel [OF card] detect_from_no_panic by (auto simp: detect_root_def)
  then have "for_each (detect_root spreads) fs d \<noteq> OutOfFuel \<and>
      for_each (detect_root spreads) fs d \<noteq> Panicked" for fs d
    by (induction fs arbitrary: d)
      (auto simp: seq_def run_bind_OutOfFuel_iff run_bind_Panicked_iff)
  then show ?thesis
    unfolding detect_all_root returns_iff by (metis run.exhaust)
qed

lemma detect_all_exact:
  assumes run: "detect_all spreads fragment_order = Done det"
    and keys: "fst ` set spreads \<subseteq> set fragment_order"
  shows "cd_errors det \<noteq> [] \<longleftrightarrow> cyclic spreads"
proof -
  let ?start = "\<lparr>cd_visited = {}, cd_path_indices = [], cd_errors = []\<rparr>"
  have "detect_post spreads (set fragment_order) ?start det \<and> cd_path_indices det = []"
  proof (rule for_each_prefix [OF _ _ run [unfolded detect_all_root], where
        P = "\<lambda>fs d. detect_post spreads (set fs) ?start d \<and> cd_path_indices d = []"])
    fix fs f d d'
    assume pre: "detect_post spreads (set fs) ?start d \<and> cd_path_indices d = []"
      and step: "detect_root spreads f d = Done d'"
    have "detect_post spreads {f} d d'"
    proof (cases "f \<in> cd_visited d")
      case True
      then show ?thesis
        using step pre by (auto simp: detect_root_def black_def grey_def intro: detect_post_refl)
    next
      case False
      then show ?thesis
        using step pre
        by (intro detect_from_post) (auto simp: detect_root_def on_path_def grey_def)
    qed
    then show "detect_post spreads (set (fs @ [f])) ?start d' \<and> cd_path_indices d' = []"
      using detect_post_trans [of spreads "set fs" ?start d "{f}" d'] pre
      by (auto simp: detect_post_def)
  qed (simp add: detect_post_def black_def)
  then have post: "detect_post spreads (set fragment_order) ?start det" ..
  show ?thesis
  proof
    assume "cyclic spreads"
    then obtain f where f: "(f, f) \<in> (spread_edges spreads)\<^sup>+"
      by (auto simp: cyclic_def)
    then obtain g where "(f, g) \<in> spread_edges spreads"
      by (meson tranclD)
    then have "f \<in> set fragment_order"
      using spread_edges_key keys by (auto simp: contains_key_iff)
    then show "cd_errors det \<noteq> []"
      using post f by (auto simp: detect_post_def finished_def black_def)
  qed (use post in \<open>auto simp: detect_post_def\<close>)
qed

end
