(* ===== verification/Suggestion.thy ===== *)
theory Suggestion
  imports Prelude
begin

text \<open>
  \<open>src/validation/suggestion.rs\<close>: the edit distance, computed with a single column of the
  distance matrix, and the suggestions made from it.
\<close>

text \<open>
  The inner loop over the bytes of \<open>s1\<close>: \<open>col\<close> is the part of the old column from index \<open>y + 1\<close>
  on, \<open>prev\<close> the new entry at index \<open>y\<close>, \<open>lastdiag\<close> the variable of the code; the result is the
  new column from index \<open>y + 1\<close> on.
\<close>

fun levenshtein_inner :: "char \<Rightarrow> nat \<Rightarrow> nat \<Rightarrow> string \<Rightarrow> nat list \<Rightarrow> nat list" where
  "levenshtein_inner rx prev lastdiag (ry # s1) (olddiag # col) =
     (let lastdiag' = (if rx \<noteq> ry then lastdiag + 1 else lastdiag);
          entry = min (olddiag + 1) (min (prev + 1) lastdiag')
      in entry # levenshtein_inner rx entry olddiag s1 col)"
| "levenshtein_inner rx prev lastdiag _ _ = []"

text \<open>The outer loop over the bytes of \<open>s2\<close>, with their index \<open>x\<close>.\<close>

fun levenshtein_outer :: "nat \<Rightarrow> string \<Rightarrow> string \<Rightarrow> nat list \<Rightarrow> nat list" where
  "levenshtein_outer x s1 [] col = col"
| "levenshtein_outer x s1 (rx # s2) col =
     levenshtein_outer (x + 1) s1 s2
       ((x + 1) # levenshtein_inner rx (x + 1) x s1 (tl col))"

definition levenshtein_distance :: "string \<Rightarrow> string \<Rightarrow> nat" where
  "levenshtein_distance s1 s2 = levenshtein_outer 0 s1 s2 [0..<length s1 + 1] ! length s1"

text \<open>
  The options close enough to the input, with their distances: \<open>selected\<close> and \<open>distances\<close> of
  the code. The sort by distance is stable.
\<close>

definition suggestion_threshold :: "string \<Rightarrow> string \<Rightarrow> nat" where
  "suggestion_threshold input opt = max (length input div 2) (max (length opt div 2) 1)"

definition selected_options :: "string list \<Rightarrow> string \<Rightarrow> string list" where
  "selected_options options input =
     filter (\<lambda>opt. levenshtein_distance input opt < suggestion_threshold input opt) options"

definition make_suggestion :: "string \<Rightarrow> string list \<Rightarrow> string \<Rightarrow> string option" where
  "make_suggestion prefix options input =
     (let selected = selected_options options input
      in if selected = [] then None
         else Some (prefix @ '' '' @
           join '', '' (map quoted (sort_key (levenshtein_distance input) selected)) @ ''?''))"

definition unwrap_or_default :: "string option \<Rightarrow> string" where
  "unwrap_or_default s = (case s of Some t \<Rightarrow> t | None \<Rightarrow> '''')"

end
