(* ===== verification/Rules_Stateless.thy ===== *)
theory Rules_Stateless
  imports Input_Check Suggestion
begin

text \<open>
  The validation rules that keep no state between hooks (\<open>src/validation/rules\<close>): each is the
  empty visitor with the hooks the rule implements. Their state type is \<open>unit\<close>.
\<close>

subsection \<open>Values and types\<close>

text \<open>\<open>default_values_of_correct_type.rs\<close>.\<close>

definition unknown_default_type :: "registry \<Rightarrow> variable_definition \<Rightarrow> name option" where
  "unknown_default_type reg d =
     (case base (node (vd_type d)) of
        BNamed vtype_name \<Rightarrow>
          if \<not> contains_key (reg_types reg) vtype_name then Some vtype_name else None
      | BList _ \<Rightarrow> None)"

definition check_default_value ::
  "variable_definition positioned \<Rightarrow> visitor_context \<Rightarrow> visitor_context run" where
  "check_default_value vdef ctx =
     (case unknown_default_type (vc_registry ctx) (node vdef) of
        Some vtype_name \<Rightarrow>
          Done (report_error [pos vdef] (''Unknown type '' @ quoted vtype_name) ctx)
      | None \<Rightarrow>
          (case vd_default_value (node vdef) of
             None \<Rightarrow> Done ctx
           | Some val \<Rightarrow>
               run_map (\<lambda>r. case r of
                   Some reason \<Rightarrow>
                     report_error [pos vdef]
                       (''Invalid default value for argument: '' @ reason) ctx
                 | None \<Rightarrow> ctx)
                 (is_valid_input_value (vc_registry ctx) (show_type (node (vd_type (node vdef))))
                   (node val) (PathNode None (SegName (node (vd_name (node vdef))))))))"

definition default_values_of_correct_type :: "unit visitor" where
  "default_values_of_correct_type = visitor_nil
     \<lparr>v_enter_variable_definition := (\<lambda>vdef. try_ctx (check_default_value vdef))\<rparr>"

text \<open>\<open>known_type_names.rs\<close>.\<close>

definition validate_type :: "name \<Rightarrow> src_pos \<Rightarrow> visitor_context \<Rightarrow> visitor_context" where
  "validate_type type_name p ctx =
     (if \<not> contains_key (reg_types (vc_registry ctx)) type_name then
        report_error [p] (''Unknown type '' @ quoted type_name) ctx
      else ctx)"

definition known_type_names :: "unit visitor" where
  "known_type_names = visitor_nil
     \<lparr>v_enter_fragment_definition := (\<lambda>_ fragment. on_ctx
        (validate_type (node (tc_on (node (fd_type_condition (node fragment))))) (pos fragment))),
      v_enter_variable_definition := (\<lambda>vdef. try_ctx (\<lambda>ctx.
        run_map (\<lambda>n. validate_type n (pos vdef) ctx)
          (concrete_typename (show_type (node (vd_type (node vdef))))))),
      v_enter_inline_fragment := (\<lambda>inl. on_ctx (\<lambda>ctx.
        case if_type_condition (node inl) of
          Some c \<Rightarrow> validate_type (node (tc_on (node c))) (pos inl) ctx
        | None \<Rightarrow> ctx))\<rparr>"

text \<open>\<open>variables_are_input_types.rs\<close>.\<close>

definition variables_are_input_types :: "unit visitor" where
  "variables_are_input_types = visitor_nil
     \<lparr>v_enter_variable_definition := (\<lambda>vdef. on_ctx (\<lambda>ctx.
        case concrete_type_by_parsed_type (vc_registry ctx) (node (vd_type (node vdef))) of
          Some ty \<Rightarrow>
            if \<not> is_input ty then
              report_error [pos vdef]
                (''Variable '' @ quoted (node (vd_name (node vdef))) @
                 '' cannot be of non-input type '' @ quoted (mt_name ty)) ctx
            else ctx
        | None \<Rightarrow> ctx))\<rparr>"

text \<open>\<open>upload_file.rs\<close>.\<close>

definition check_upload_variable ::
  "operation_definition positioned \<Rightarrow> variable_definition positioned \<Rightarrow>
     visitor_context \<Rightarrow> visitor_context" where
  "check_upload_variable op var ctx =
     (case concrete_type_by_parsed_type (vc_registry ctx) (node (vd_type (node var))) of
        Some ty \<Rightarrow>
          if od_ty (node op) \<noteq> Mutation \<and> mt_name ty = ''Upload'' then
            report_error [pos var]
              ''The Upload type is only allowed to be defined on a mutation'' ctx
          else ctx
      | None \<Rightarrow> ctx)"

definition upload_file :: "unit visitor" where
  "upload_file = visitor_nil
     \<lparr>v_enter_operation_definition := (\<lambda>_ op. on_ctx
        (fold (check_upload_variable op) (od_variable_definitions (node op))))\<rparr>"

subsection \<open>Fields\<close>

text \<open>\<open>fields_on_correct_type.rs\<close>.\<close>

definition field_suggestion :: "registry \<Rightarrow> meta_type \<Rightarrow> name \<Rightarrow> string" where
  "field_suggestion reg parent fname =
     (if reg_enable_suggestions reg then
        unwrap_or_default (make_suggestion '' Did you mean''
          (case mt_fields parent of Some flds \<Rightarrow> map fst flds | None \<Rightarrow> []) fname)
      else '''')"

definition check_field_known :: "field positioned \<Rightarrow> visitor_context \<Rightarrow> visitor_context" where
  "check_field_known fld ctx =
     (let fname = node (f_name (node fld)) in
      case parent_type ctx of
        Some parent \<Rightarrow>
          if is_abstract parent \<and> fname = ''__typename'' then ctx
          else if Option.bind (mt_fields parent) (\<lambda>flds. map_of flds fname) = None
                  \<and> \<not> list_ex (\<lambda>d. node (dir_name (node d)) = ''ifdef'') (f_directives (node fld))
          then report_error [pos fld]
                 (''Unknown field '' @ quoted fname @ '' on type '' @ quoted (mt_name parent) @
                  ''.'' @ field_suggestion (vc_registry ctx) parent fname) ctx
          else ctx
      | None \<Rightarrow> ctx)"

definition fields_on_correct_type :: "unit visitor" where
  "fields_on_correct_type = visitor_nil\<lparr>v_enter_field := (\<lambda>fld. on_ctx (check_field_known fld))\<rparr>"

text \<open>\<open>scalar_leafs.rs\<close>.\<close>

definition check_scalar_leaf :: "field positioned \<Rightarrow> visitor_context \<Rightarrow> visitor_context run" where
  "check_scalar_leaf fld ctx =
     (let fname = node (f_name (node fld));
          no_selection = (items (node (f_selection_set (node fld))) = []) in
      case Option.bind (parent_type ctx) (\<lambda>ty. field_by_name ty fname) of
        None \<Rightarrow> Done ctx
      | Some schema_field \<Rightarrow>
          run_map (\<lambda>found. case found of
              None \<Rightarrow> ctx
            | Some ty \<Rightarrow>
                if is_leaf ty \<and> \<not> no_selection then
                  report_error [pos fld]
                    (''Field '' @ quoted fname @ '' must not have a selection since type '' @
                     quoted (mt_name ty) @ '' has no subfields'') ctx
                else if \<not> is_leaf ty \<and> no_selection then
                  report_error [pos fld]
                    (''Field '' @ quoted fname @ '' of type '' @ quoted (mt_name ty) @
                     '' must have a selection of subfields'') ctx
                else ctx)
            (concrete_type_by_name (vc_registry ctx) (mf_ty schema_field)))"

definition scalar_leafs :: "unit visitor" where
  "scalar_leafs = visitor_nil\<lparr>v_enter_field := (\<lambda>fld. try_ctx (check_scalar_leaf fld))\<rparr>"

text \<open>
  \<open>provided_non_null_arguments.rs\<close>: the loop over the declared arguments; \<open>msg\<close> is the message of
  a missing one.
\<close>

definition missing_argument :: "arguments \<Rightarrow> meta_input_value \<Rightarrow> bool run" where
  "missing_argument args arg =
     run_map (\<lambda>ty. is_non_null ty \<and> mi_default_value arg = None
                \<and> \<not> list_ex (\<lambda>(n, _). node n = mi_name arg) args)
       (mtn_create (mi_ty arg))"

definition check_provided ::
  "src_pos \<Rightarrow> (meta_input_value \<Rightarrow> string) \<Rightarrow> arguments \<Rightarrow>
     (string \<times> meta_input_value) list \<Rightarrow> visitor_context \<Rightarrow> visitor_context run" where
  "check_provided p msg args =
     for_each (\<lambda>(_, arg) ctx.
       run_map (\<lambda>missing. if missing then report_error [p] (msg arg) ctx else ctx)
         (missing_argument args arg))"

definition directive_arg_message :: "name \<Rightarrow> meta_input_value \<Rightarrow> string" where
  "directive_arg_message dname arg =
     ''Directive '' @ quoted (''@'' @ dname) @ '' argument '' @ quoted (mi_name arg) @
     '' of type '' @ quoted (mi_ty arg) @ '' is required but not provided''"

definition field_arg_message :: "name \<Rightarrow> meta_type \<Rightarrow> meta_input_value \<Rightarrow> string" where
  "field_arg_message fname parent arg =
     ''Field '' @ quoted fname @ '' argument '' @ quoted (mi_name arg) @
     '' of type '' @ quoted (mt_name parent) @ '' is required but not provided''"

definition provided_non_null_arguments :: "unit visitor" where
  "provided_non_null_arguments = visitor_nil
     \<lparr>v_enter_directive := (\<lambda>d. try_ctx (\<lambda>ctx.
        let dname = node (dir_name (node d)) in
        case map_of (reg_directives (vc_registry ctx)) dname of
          Some schema_directive \<Rightarrow>
            check_provided (pos d) (directive_arg_message dname) (dir_arguments (node d))
              (md_args schema_directive) ctx
        | None \<Rightarrow> Done ctx)),
      v_enter_field := (\<lambda>fld. try_ctx (\<lambda>ctx.
        let fname = node (f_name (node fld)) in
        case parent_type ctx of
          Some parent \<Rightarrow>
            (case field_by_name parent fname of
               Some schema_field \<Rightarrow>
                 check_provided (pos fld) (field_arg_message fname parent)
                   (f_arguments (node fld)) (mf_args schema_field) ctx
             | None \<Rightarrow> Done ctx)
        | None \<Rightarrow> Done ctx))\<rparr>"

subsection \<open>Fragments\<close>

text \<open>\<open>fragments_on_composite_types.rs\<close>.\<close>

definition fragments_on_composite_types :: "unit visitor" where
  "fragments_on_composite_types = visitor_nil
     \<lparr>v_enter_fragment_definition := (\<lambda>fname fragment. on_ctx (\<lambda>ctx.
        case current_type ctx of
          Some ty \<Rightarrow>
            if \<not> is_composite ty then
              report_error [pos fragment]
                (''Fragment '' @ quoted fname @ '' cannot condition non composite type '' @
                 quoted (node (tc_on (node (fd_type_condition (node fragment)))))) ctx
            else ctx
        | None \<Rightarrow> ctx)),
      v_enter_inline_fragment := (\<lambda>inl. on_ctx (\<lambda>ctx.
        case current_type ctx of
          Some ty \<Rightarrow>
            if \<not> is_composite ty then
              report_error [pos inl]
                (''Fragment cannot condition non composite type '' @ quoted (mt_name ty)) ctx
            else ctx
        | None \<Rightarrow> ctx))\<rparr>"

text \<open>\<open>known_fragment_names.rs\<close>.\<close>

definition known_fragment_names :: "unit visitor" where
  "known_fragment_names = visitor_nil
     \<lparr>v_enter_fragment_spread := (\<lambda>spread. on_ctx (\<lambda>ctx.
        let fname = node (fs_fragment_name (node spread)) in
        if \<not> is_known_fragment ctx fname then
          report_error [pos spread] (''Unknown fragment: '' @ quoted fname) ctx
        else ctx))\<rparr>"

subsection \<open>Directives\<close>

text \<open>\<open>directives_unique.rs\<close>: \<open>seen\<close> is the set \<open>exists\<close> of the code.\<close>

fun check_duplicate_from ::
  "name set \<Rightarrow> directive positioned list \<Rightarrow> visitor_context \<Rightarrow> visitor_context" where
  "check_duplicate_from seen [] ctx = ctx"
| "check_duplicate_from seen (d # ds) ctx =
     (let n = node (dir_name (node d)) in
      case map_of (reg_directives (vc_registry ctx)) n of
        Some meta_directive \<Rightarrow>
          if \<not> md_is_repeatable meta_directive then
            if n \<in> seen then
              check_duplicate_from seen ds
                (report_error [pos d] (''Duplicate directive '' @ quoted n) ctx)
            else check_duplicate_from (insert n seen) ds ctx
          else check_duplicate_from seen ds ctx
      | None \<Rightarrow> check_duplicate_from seen ds ctx)"

definition check_duplicate_directive ::
  "directive positioned list \<Rightarrow> visitor_context \<Rightarrow> visitor_context" where
  "check_duplicate_directive ds = check_duplicate_from {} ds"

definition directives_unique :: "unit visitor" where
  "directives_unique = visitor_nil
     \<lparr>v_enter_operation_definition :=
        (\<lambda>_ op. on_ctx (check_duplicate_directive (od_directives (node op)))),
      v_enter_fragment_definition :=
        (\<lambda>_ fragment. on_ctx (check_duplicate_directive (fd_directives (node fragment)))),
      v_enter_variable_definition :=
        (\<lambda>vdef. on_ctx (check_duplicate_directive (vd_directives (node vdef)))),
      v_enter_field := (\<lambda>fld. on_ctx (check_duplicate_directive (f_directives (node fld)))),
      v_enter_fragment_spread :=
        (\<lambda>spread. on_ctx (check_duplicate_directive (fs_directives (node spread)))),
      v_enter_inline_fragment :=
        (\<lambda>inl. on_ctx (check_duplicate_directive (if_directives (node inl))))\<rparr>"

end
