(* ===== verification/Rules_Stateful.thy ===== *)
theory Rules_Stateful
  imports Input_Check Suggestion
begin

text \<open>
  The validation rules whose state is local to the traversal (\<open>src/validation/rules\<close>): the
  arguments of the enclosing field or directive, the names seen so far, the stack of directive
  locations, and the type conditions of the fragments.
\<close>

subsection \<open>Argument values: \<open>arguments_of_correct_type.rs\<close>\<close>

record arguments_of_correct_type_state =
  act_current_args :: "(string \<times> meta_input_value) list option"
  act_in_unselected_operation :: bool

definition act_init :: arguments_of_correct_type_state where
  "act_init = \<lparr>act_current_args = None, act_in_unselected_operation = False\<rparr>"

text \<open>The closure that resolves a variable of an argument's value.\<close>

definition act_lookup :: "bool \<Rightarrow> visitor_context \<Rightarrow> name \<Rightarrow> unit + const_value" where
  "act_lookup unselected ctx var_name =
     (case Option.bind (if \<not> unselected then vc_variables ctx else None)
             (\<lambda>vars. map_of vars var_name) of
        Some v \<Rightarrow> Inr v
      | None \<Rightarrow> Inl ())"

definition check_argument_value ::
  "bool \<Rightarrow> meta_input_value \<Rightarrow> name positioned \<Rightarrow> gvalue positioned \<Rightarrow>
     visitor_context \<Rightarrow> visitor_context run" where
  "check_argument_value unselected arg n val ctx =
     (case into_const_with (act_lookup unselected ctx) (node val) of
        Inl _ \<Rightarrow> Done ctx
      | Inr c \<Rightarrow>
          run_map (\<lambda>r. case r of
              Some reason \<Rightarrow>
                report_error [pos n] (''Invalid value for argument '' @ reason) ctx
            | None \<Rightarrow> ctx)
            (is_valid_input_value (vc_registry ctx) (mi_ty arg) c
              (PathNode None (SegName (mi_name arg)))))"

definition unselected_operation :: "visitor_context \<Rightarrow> name option \<Rightarrow> bool" where
  "unselected_operation ctx opname =
     (case (vc_operation_name ctx, opname) of
        (Some selected_operation, Some current_operation) \<Rightarrow>
          selected_operation \<noteq> current_operation
      | _ \<Rightarrow> False)"

definition arguments_of_correct_type :: "arguments_of_correct_type_state visitor" where
  "arguments_of_correct_type = visitor_nil
     \<lparr>v_enter_operation_definition := (\<lambda>opname _ (ctx, s).
        Done (ctx, s\<lparr>act_in_unselected_operation := unselected_operation ctx opname\<rparr>)),
      v_enter_directive := (\<lambda>d (ctx, s).
        Done (ctx, s\<lparr>act_current_args := map_option md_args
          (map_of (reg_directives (vc_registry ctx)) (node (dir_name (node d))))\<rparr>)),
      v_exit_directive := (\<lambda>_. on_state (\<lambda>s. s\<lparr>act_current_args := None\<rparr>)),
      v_enter_argument := (\<lambda>n val (ctx, s).
        case Option.bind (act_current_args s) (\<lambda>args. map_of args (node n)) of
          Some arg \<Rightarrow>
            run_map (\<lambda>ctx'. (ctx', s))
              (check_argument_value (act_in_unselected_operation s) arg n val ctx)
        | None \<Rightarrow> Done (ctx, s)),
      v_enter_field := (\<lambda>fld (ctx, s).
        Done (ctx, s\<lparr>act_current_args := map_option mf_args
          (Option.bind (parent_type ctx) (\<lambda>p. field_by_name p (node (f_name (node fld)))))\<rparr>)),
      v_exit_field := (\<lambda>_. on_state (\<lambda>s. s\<lparr>act_current_args := None\<rparr>))\<rparr>"

subsection \<open>Argument names: \<open>known_argument_names.rs\<close>\<close>

datatype args_type =
    ArgsDirective name
  | ArgsField name name \<comment> \<open>the field's name, the type's name\<close>

type_synonym known_argument_names_state =
  "((string \<times> meta_input_value) list \<times> args_type) option"

definition kan_suggestion :: "known_argument_names_state \<Rightarrow> name \<Rightarrow> string" where
  "kan_suggestion current_args n =
     unwrap_or_default (make_suggestion '' Did you mean''
       (case current_args of Some (args, _) \<Rightarrow> map fst args | None \<Rightarrow> []) n)"

definition check_argument_known ::
  "name positioned \<Rightarrow> known_argument_names_state \<Rightarrow> visitor_context \<Rightarrow> visitor_context" where
  "check_argument_known n current_args ctx =
     (case current_args of
        Some (args, arg_type) \<Rightarrow>
          if \<not> contains_key args (node n) then
            (case arg_type of
               ArgsField field_name type_name \<Rightarrow>
                 report_error [pos n]
                   (''Unknown argument '' @ quoted (node n) @ '' on field '' @ quoted field_name @
                    '' of type '' @ quoted type_name @ ''.'' @
                    (if reg_enable_suggestions (vc_registry ctx)
                     then kan_suggestion current_args (node n) else '''')) ctx
             | ArgsDirective directive_name \<Rightarrow>
                 report_error [pos n]
                   (''Unknown argument '' @ quoted (node n) @ '' on directive '' @
                    quoted directive_name @ ''.'' @ kan_suggestion current_args (node n)) ctx)
          else ctx
      | None \<Rightarrow> ctx)"

definition known_argument_names :: "known_argument_names_state visitor" where
  "known_argument_names = visitor_nil
     \<lparr>v_enter_directive := (\<lambda>d (ctx, s).
        Done (ctx, map_option (\<lambda>md. (md_args md, ArgsDirective (node (dir_name (node d)))))
          (map_of (reg_directives (vc_registry ctx)) (node (dir_name (node d)))))),
      v_exit_directive := (\<lambda>_. on_state (\<lambda>_. None)),
      v_enter_argument := (\<lambda>n _ (ctx, s). Done (check_argument_known n s ctx, s)),
      v_enter_field := (\<lambda>fld (ctx, s).
        let fname = node (f_name (node fld)) in
        Done (ctx,
          (case parent_type ctx of
             Some parent \<Rightarrow>
               (case field_by_name parent fname of
                  Some schema_field \<Rightarrow>
                    Some (mf_args schema_field, ArgsField fname (mt_name parent))
                | None \<Rightarrow> s)
           | None \<Rightarrow> s))),
      v_exit_field := (\<lambda>_. on_state (\<lambda>_. None))\<rparr>"

subsection \<open>Unique names: \<open>unique_argument_names.rs\<close>, \<open>unique_variable_names.rs\<close>\<close>

definition unique_argument_names :: "name set visitor" where
  "unique_argument_names = visitor_nil
     \<lparr>v_enter_directive := (\<lambda>_. on_state (\<lambda>_. {})),
      v_enter_argument := (\<lambda>n _ (ctx, names).
        if node n \<in> names then
          Done (report_error [pos n]
            (''There can only be one argument named '' @ quoted (node n)) ctx, names)
        else Done (ctx, insert (node n) names)),
      v_enter_field := (\<lambda>_. on_state (\<lambda>_. {}))\<rparr>"

definition unique_variable_names :: "name set visitor" where
  "unique_variable_names = visitor_nil
     \<lparr>v_enter_operation_definition := (\<lambda>_ _. on_state (\<lambda>_. {})),
      v_enter_variable_definition := (\<lambda>vdef (ctx, names).
        let n = node (vd_name (node vdef)) in
        if n \<in> names then
          Done (report_error [pos vdef]
            (''There can only be one variable named '' @ quoted (''$'' @ n)) ctx, names)
        else Done (ctx, insert n names))\<rparr>"

subsection \<open>Directive locations: \<open>known_directives.rs\<close>\<close>

text \<open>The stack of locations has its top at the head.\<close>

fun operation_location :: "operation_type \<Rightarrow> directive_location" where
  "operation_location Query = LOC_QUERY"
| "operation_location Mutation = LOC_MUTATION"
| "operation_location Subscription = LOC_SUBSCRIPTION"

definition push_location :: "directive_location \<Rightarrow> directive_location list vstep" where
  "push_location l = on_state (\<lambda>stack. l # stack)"

definition pop_location :: "directive_location list vstep" where
  "pop_location = on_state tl"

definition check_directive ::
  "directive positioned \<Rightarrow> directive_location list \<Rightarrow> visitor_context \<Rightarrow> visitor_context" where
  "check_directive d stack ctx =
     (let n = node (dir_name (node d)) in
      case map_of (reg_directives (vc_registry ctx)) n of
        Some schema_directive \<Rightarrow>
          (case stack of
             current_location # _ \<Rightarrow>
               if current_location \<notin> set (md_locations schema_directive) then
                 report_error [pos d]
                   (''Directive '' @ quoted n @ '' may not be used on '' @
                    quoted (show_location current_location)) ctx
               else ctx
           | [] \<Rightarrow> ctx)
      | None \<Rightarrow> report_error [pos d] (''Unknown directive '' @ quoted n) ctx)"

definition known_directives :: "directive_location list visitor" where
  "known_directives = visitor_nil
     \<lparr>v_enter_operation_definition := (\<lambda>_ op. push_location (operation_location (od_ty (node op)))),
      v_exit_operation_definition := (\<lambda>_ _. pop_location),
      v_enter_fragment_definition := (\<lambda>_ _. push_location LOC_FRAGMENT_DEFINITION),
      v_exit_fragment_definition := (\<lambda>_ _. pop_location),
      v_enter_directive := (\<lambda>d (ctx, stack). Done (check_directive d stack ctx, stack)),
      v_enter_field := (\<lambda>_. push_location LOC_FIELD),
      v_exit_field := (\<lambda>_. pop_location),
      v_enter_fragment_spread := (\<lambda>_. push_location LOC_FRAGMENT_SPREAD),
      v_exit_fragment_spread := (\<lambda>_. pop_location),
      v_enter_inline_fragment := (\<lambda>_. push_location LOC_INLINE_FRAGMENT),
      v_exit_inline_fragment := (\<lambda>_. pop_location)\<rparr>"

subsection \<open>Fragment spreads: \<open>possible_fragment_spreads.rs\<close>\<close>

definition fragment_types_of :: "executable_document \<Rightarrow> (name \<times> name) list \<Rightarrow> (name \<times> name) list"
where
  "fragment_types_of doc m =
     fold (\<lambda>(n, fragment).
       alist_insert n (node (tc_on (node (fd_type_condition (node fragment))))))
       (doc_fragments doc) m"

definition check_spread ::
  "fragment_spread positioned \<Rightarrow> (name \<times> name) list \<Rightarrow> visitor_context \<Rightarrow> visitor_context" where
  "check_spread spread fragment_types ctx =
     (let fname = node (fs_fragment_name (node spread)) in
      case map_of fragment_types fname of
        None \<Rightarrow> ctx
      | Some fragment_type \<Rightarrow>
          (case (current_type ctx, map_of (reg_types (vc_registry ctx)) fragment_type) of
             (Some current_ty, Some on_type) \<Rightarrow>
               if \<not> type_overlap current_ty on_type then
                 report_error [pos spread]
                   (''Fragment '' @ quoted fname @ '' cannot be spread here as objects of type '' @
                    quoted (mt_name current_ty) @ '' can never be of type '' @
                    quoted fragment_type) ctx
               else ctx
           | _ \<Rightarrow> ctx))"

definition check_inline_spread ::
  "inline_fragment positioned \<Rightarrow> visitor_context \<Rightarrow> visitor_context" where
  "check_inline_spread inl ctx =
     (case (parent_type ctx, if_type_condition (node inl)) of
        (Some parent, Some c) \<Rightarrow>
          (case map_of (reg_types (vc_registry ctx)) (node (tc_on (node c))) of
             Some on_type \<Rightarrow>
               if \<not> type_overlap parent on_type then
                 report_error [pos inl]
                   (''Fragment cannot be spread here as objects of type '' @
                    quoted (mt_name parent) @ '' can never be of type '' @
                    quoted (node (tc_on (node c)))) ctx
               else ctx
           | None \<Rightarrow> ctx)
      | _ \<Rightarrow> ctx)"

definition possible_fragment_spreads :: "(name \<times> name) list visitor" where
  "possible_fragment_spreads = visitor_nil
     \<lparr>v_enter_document := (\<lambda>doc. on_state (fragment_types_of doc)),
      v_enter_fragment_spread :=
        (\<lambda>spread (ctx, fragment_types). Done (check_spread spread fragment_types ctx, fragment_types)),
      v_enter_inline_fragment := (\<lambda>inl. on_ctx (check_inline_spread inl))\<rparr>"

subsection \<open>Overlapping fields: \<open>overlapping_fields_can_be_merged.rs\<close>\<close>

text \<open>
  \<open>FindConflicts\<close>: the fields met so far by type condition and response key, the fragments
  entered, and the context. Entering a fragment spends fuel; a fragment is entered once, so the
  number of fragments of the document is enough.
\<close>

record find_conflicts_state =
  fc_outputs :: "((name option \<times> name) \<times> field positioned) list"
  fc_visited :: "name set"
  fc_ctx :: visitor_context

definition fc_report :: "src_pos list \<Rightarrow> string \<Rightarrow> find_conflicts_state \<Rightarrow> find_conflicts_state" where
  "fc_report locations msg s = s\<lparr>fc_ctx := report_error locations msg (fc_ctx s)\<rparr>"

definition differing_arguments_message :: "name \<Rightarrow> string" where
  "differing_arguments_message n =
     ''Fields '' @ quoted n @ '' conflict because they have differing arguments. '' @
     ''Use different aliases on the fields to fetch both if this was intentional.''"

definition different_fields_message :: "name \<Rightarrow> name \<Rightarrow> name \<Rightarrow> string" where
  "different_fields_message n a b =
     ''Fields '' @ quoted n @ '' conflict because '' @ quoted a @ '' and '' @ quoted b @
     '' are different fields. '' @
     ''Use different aliases on the fields to fetch both if this was intentional.''"

definition same_argument :: "field \<Rightarrow> name \<Rightarrow> gvalue positioned \<Rightarrow> bool" where
  "same_argument f n val =
     (case get_argument f n of
        Some other_value \<Rightarrow> value_eq (node val) (node other_value)
      | None \<Rightarrow> False)"

definition compare_fields ::
  "name \<Rightarrow> field positioned \<Rightarrow> field positioned \<Rightarrow> find_conflicts_state \<Rightarrow> find_conflicts_state"
where
  "compare_fields n prev_field fld s =
     (let locations = [pos prev_field, pos fld];
          s = (if node (f_name (node prev_field)) \<noteq> node (f_name (node fld)) then
                 fc_report locations
                   (different_fields_message n (node (f_name (node prev_field)))
                     (node (f_name (node fld)))) s
               else s);
          s = (if length (f_arguments (node prev_field)) \<noteq> length (f_arguments (node fld)) then
                 fc_report locations (differing_arguments_message n) s
               else s)
      in fold (\<lambda>(arg_name, val) s.
           if same_argument (node fld) (node arg_name) val then s
           else fc_report locations (differing_arguments_message (node arg_name)) s)
         (f_arguments (node prev_field)) s)"

definition add_output ::
  "name option \<Rightarrow> name \<Rightarrow> field positioned \<Rightarrow> find_conflicts_state \<Rightarrow> find_conflicts_state" where
  "add_output on_type n fld s =
     (case map_of (fc_outputs s) (on_type, n) of
        Some prev_field \<Rightarrow> compare_fields n prev_field fld s
      | None \<Rightarrow> s\<lparr>fc_outputs := alist_insert (on_type, n) fld (fc_outputs s)\<rparr>)"

function find_conflicts ::
  "nat \<Rightarrow> name option \<Rightarrow> selection_set \<Rightarrow> find_conflicts_state step" where
  "find_conflicts n on_type ss =
     for_each (\<lambda>sel. case node sel of
         SelField fld \<Rightarrow> (\<lambda>s. Done (add_output on_type (node (response_key (node fld))) fld s))
       | SelInline inl \<Rightarrow>
           find_conflicts n (map_option (\<lambda>c. node (tc_on (node c))) (if_type_condition (node inl)))
             (node (if_selection_set (node inl)))
       | SelSpread spread \<Rightarrow>
           (\<lambda>s. let fname = node (fs_fragment_name (node spread)) in
             case ctx_fragment (fc_ctx s) fname of
               None \<Rightarrow> Done s
             | Some fragment \<Rightarrow>
                 if fname \<in> fc_visited s then Done s
                 else (case n of
                   0 \<Rightarrow> OutOfFuel
                 | Suc m \<Rightarrow>
                     find_conflicts m (Some (node (tc_on (node (fd_type_condition (node fragment))))))
                       (node (fd_selection_set (node fragment)))
                       (s\<lparr>fc_visited := insert fname (fc_visited s)\<rparr>))))
       (items ss)"
  by pat_completeness auto
termination
proof (relation "measures [\<lambda>(n, _, ss). n, \<lambda>(n, _, ss). size ss]", goal_cases)
qed (auto dest!: size_item intro: less_trans [OF size_inline_selection_set less_trans [OF size_selection_inline]])

declare find_conflicts.simps [simp del]

definition overlapping_fields_can_be_merged :: "unit visitor" where
  "overlapping_fields_can_be_merged = visitor_nil
     \<lparr>v_enter_selection_set := (\<lambda>ss (ctx, s).
        run_map (\<lambda>fc. (fc_ctx fc, s))
          (find_conflicts (length (vc_fragments ctx)) None (node ss)
            \<lparr>fc_outputs = [], fc_visited = {}, fc_ctx = ctx\<rparr>))\<rparr>"

end
