(* ===== verification/Calculators.thy ===== *)
theory Calculators
  imports Input_Check
begin

text \<open>
  The inline visitors (\<open>src/validation/visitors\<close>): cache control, complexity and depth of a
  query, over the document with its fragments expanded. \<open>usize\<close> arithmetic is on 64-bit words:
  \<open>+=\<close> wraps (a release build), \<open>saturating_add\<close> saturates.
\<close>

subsection \<open>Cache control\<close>

definition cache_control_calculate :: "cache_control visitor" where
  "cache_control_calculate = visitor_nil
     \<lparr>v_mode := Inline,
      v_enter_selection_set := (\<lambda>_ (ctx, cc).
        Done (ctx, (case current_type ctx of
                      Some (MTObject ob) \<Rightarrow> cache_merge cc (ob_cache_control ob)
                    | _ \<Rightarrow> cc))),
      v_enter_field := (\<lambda>fld (ctx, cc).
        Done (ctx,
          (case Option.bind (parent_type ctx) (\<lambda>p. field_by_name p (node (f_name (node fld)))) of
             Some registry_field \<Rightarrow> cache_merge cc (mf_cache_control registry_field)
           | None \<Rightarrow> cc)))\<rparr>"

subsection \<open>Depth\<close>

record depth_calculate =
  dc_max_depth :: usize
  dc_current_depth :: usize

definition depth_init :: depth_calculate where
  "depth_init = \<lparr>dc_max_depth = 0, dc_current_depth = 0\<rparr>"

definition field_depth_cost :: "visitor_context \<Rightarrow> field positioned \<Rightarrow> usize run" where
  "field_depth_cost ctx fld =
     (case parent_type ctx of
        None \<Rightarrow> Done 1
      | Some ty \<Rightarrow>
          run_map (\<lambda>n. case field_by_name ty n of
              Some meta_field \<Rightarrow> mf_depth_cost meta_field
            | None \<Rightarrow> 1)
            (concrete_typename (node (f_name (node fld)))))"

definition depth_calculate :: "depth_calculate visitor" where
  "depth_calculate = visitor_nil
     \<lparr>v_mode := Inline,
      v_enter_field := (\<lambda>fld (ctx, s).
        run_map (\<lambda>cost.
            let current = dc_current_depth s + cost in
            (check_depth_limit current ctx,
             s\<lparr>dc_current_depth := current, dc_max_depth := max (dc_max_depth s) current\<rparr>))
          (field_depth_cost ctx fld)),
      v_exit_field := (\<lambda>fld (ctx, s).
        run_map (\<lambda>cost. (ctx, s\<lparr>dc_current_depth := dc_current_depth s - cost\<rparr>))
          (field_depth_cost ctx fld))\<rparr>"

subsection \<open>Complexity\<close>

text \<open>
  The stacks have their top at the head. \<open>call\<close> is what the complexity function behind a function
  pointer computes.
\<close>

record complexity_calculate =
  cx_complexity :: usize
  cx_complexity_stack :: "usize list"
  cx_limit_check_stack :: "bool list"
  cx_variable_definition :: "variable_definition positioned list option"

definition complexity_init :: complexity_calculate where
  "complexity_init = \<lparr>cx_complexity = 0, cx_complexity_stack = [], cx_limit_check_stack = [],
                      cx_variable_definition = None\<rparr>"

type_synonym complexity_call =
  "fn_ptr \<Rightarrow> visitor_context \<Rightarrow> variable_definition positioned list \<Rightarrow> field \<Rightarrow> usize \<Rightarrow>
     server_error + usize"

text \<open>The complexity function of a field, looked up on an object parent only.\<close>

definition custom_complexity :: "visitor_context \<Rightarrow> field positioned \<Rightarrow> fn_ptr option run" where
  "custom_complexity ctx fld =
     (case parent_type ctx of
        Some (MTObject ob) \<Rightarrow>
          run_map (\<lambda>n. Option.bind (map_of (ob_fields ob) n) mf_compute_complexity)
            (concrete_typename (node (f_name (node fld))))
      | _ \<Rightarrow> Done None)"

definition can_check :: "complexity_calculate \<Rightarrow> bool" where
  "can_check s = (case cx_limit_check_stack s of b # _ \<Rightarrow> b | [] \<Rightarrow> False)"

definition add_complexity :: "usize \<Rightarrow> complexity_calculate vstep" where
  "add_complexity complexity = (\<lambda>(ctx, s).
     case cx_complexity_stack s of
       [] \<Rightarrow> Panicked
     | current # rest \<Rightarrow>
         let total = saturating_add current complexity in
         Done ((if can_check s then check_complexity_limit total ctx else ctx),
               s\<lparr>cx_complexity_stack := total # rest\<rparr>))"

definition pop_complexity :: "complexity_calculate \<Rightarrow> (usize \<times> complexity_calculate) run" where
  "pop_complexity s =
     (case (cx_complexity_stack s, cx_limit_check_stack s) of
        (c # cs, _ # bs) \<Rightarrow>
          Done (c, s\<lparr>cx_complexity_stack := cs, cx_limit_check_stack := bs\<rparr>)
      | _ \<Rightarrow> Panicked)"

definition exit_field_complexity ::
  "complexity_call \<Rightarrow> field positioned \<Rightarrow> complexity_calculate vstep" where
  "exit_field_complexity call fld = (\<lambda>(ctx, s).
     run_bind (pop_complexity s) (\<lambda>(children_complex, s).
     run_bind (custom_complexity ctx fld) (\<lambda>custom.
       case custom of
         Some f \<Rightarrow>
           (case call f ctx (case cx_variable_definition s of Some ds \<Rightarrow> ds | None \<Rightarrow> [])
                   (node fld) children_complex of
              Inr n \<Rightarrow> add_complexity n (ctx, s)
            | Inl err \<Rightarrow> Done (report_error [pos fld] (se_message err) ctx, s))
       | None \<Rightarrow> add_complexity (1 + children_complex) (ctx, s))))"

definition complexity_calculate :: "complexity_call \<Rightarrow> complexity_calculate visitor" where
  "complexity_calculate call = visitor_nil
     \<lparr>v_mode := Inline,
      v_enter_document := (\<lambda>_. on_state (\<lambda>s.
        s\<lparr>cx_complexity_stack := 0 # cx_complexity_stack s,
          cx_limit_check_stack := True # cx_limit_check_stack s\<rparr>)),
      v_exit_document := (\<lambda>_ (ctx, s).
        run_map (\<lambda>(c, s). (ctx, s\<lparr>cx_complexity := c\<rparr>)) (pop_complexity s)),
      v_enter_operation_definition := (\<lambda>_ op. on_state (\<lambda>s.
        s\<lparr>cx_variable_definition := Some (od_variable_definitions (node op))\<rparr>)),
      v_enter_field := (\<lambda>fld (ctx, s).
        run_bind (if can_check s then run_map (\<lambda>c. c = None) (custom_complexity ctx fld)
                  else Done False)
          (\<lambda>can_check_limit.
             Done (ctx, s\<lparr>cx_complexity_stack := 0 # cx_complexity_stack s,
                          cx_limit_check_stack := can_check_limit # cx_limit_check_stack s\<rparr>))),
      v_exit_field := exit_field_complexity call\<rparr>"

end
