(* ===== verification/Validation.thy ===== *)
theory Validation
  imports Rules_Stateless Rules_Stateful Rules_Scoped Calculators
begin

text \<open>
  \<open>check_rules\<close> of \<open>src/validation/mod.rs\<close>: the composed visitors of the two validation modes,
  the limits, and the result.
\<close>

record validation_result =
  vr_cache_control :: cache_control
  vr_complexity :: usize
  vr_depth :: usize

datatype validation_mode = Strict | Fast

text \<open>\<open>VisitorNil.with(A).with(B)\<close> is \<open>VisitorCons(B, VisitorCons(A, VisitorNil))\<close>.\<close>

definition strict_rules where
  "strict_rules =
     visitor_cons upload_file (
     visitor_cons overlapping_fields_can_be_merged (
     visitor_cons directives_unique (
     visitor_cons known_directives (
     visitor_cons provided_non_null_arguments (
     visitor_cons possible_fragment_spreads (
     visitor_cons scalar_leafs (
     visitor_cons variable_in_allowed_position (
     visitor_cons variables_are_input_types (
     visitor_cons unique_variable_names (
     visitor_cons unique_argument_names (
     visitor_cons no_unused_variables (
     visitor_cons no_unused_fragments (
     visitor_cons no_undefined_variables (
     visitor_cons known_type_names (
     visitor_cons known_fragment_names (
     visitor_cons no_fragment_cycles (
     visitor_cons known_argument_names (
     visitor_cons fragments_on_composite_types (
     visitor_cons fields_on_correct_type (
     visitor_cons default_values_of_correct_type (
     visitor_cons arguments_of_correct_type (visitor_nil :: unit visitor))))))))))))))))))))))"

definition strict_init where
  "strict_init =
     ((), (), (), [] :: directive_location list, (), [] :: (name \<times> name) list, (), vap_init, (),
      {} :: name set, {} :: name set, nuv_init, nuf_init, nud_init, (), (), nfc_init,
      None :: known_argument_names_state, (), (), (), act_init, ())"

definition calculators where
  "calculators call =
     visitor_cons depth_calculate (
     visitor_cons (complexity_calculate call) (
     visitor_cons cache_control_calculate (visitor_nil :: unit visitor)))"

definition calculators_init where
  "calculators_init = (depth_init, complexity_init, default_cache_control, ())"

definition fast_visitor where
  "fast_visitor call =
     visitor_cons depth_calculate (
     visitor_cons (complexity_calculate call) (
     visitor_cons cache_control_calculate (
     visitor_cons upload_file (
     visitor_cons no_fragment_cycles (visitor_nil :: unit visitor)))))"

definition fast_init where
  "fast_init = (depth_init, complexity_init, default_cache_control, (), nfc_init, ())"

text \<open>What one mode computes: the errors and the three calculated values.\<close>

definition run_mode ::
  "nat \<Rightarrow> complexity_call \<Rightarrow> validation_mode \<Rightarrow> executable_document \<Rightarrow> visitor_context \<Rightarrow>
     (rule_error list \<times> validation_result) run" where
  "run_mode n call mode doc ctx =
     (case mode of
        Strict \<Rightarrow>
          run_bind (visit n strict_rules doc (ctx, strict_init)) (\<lambda>(ctx, _).
          run_map (\<lambda>(ctx, dc, cx, cc, _).
              (vc_errors ctx, \<lparr>vr_cache_control = cc, vr_complexity = cx_complexity cx,
                               vr_depth = dc_max_depth dc\<rparr>))
            (visit n (calculators call) doc (ctx, calculators_init)))
      | Fast \<Rightarrow>
          run_map (\<lambda>(ctx, dc, cx, cc, _).
              (vc_errors ctx, \<lparr>vr_cache_control = cc, vr_complexity = cx_complexity cx,
                               vr_depth = dc_max_depth dc\<rparr>))
            (visit n (fast_visitor call) doc (ctx, fast_init)))"

definition above_limit :: "usize \<Rightarrow> usize option \<Rightarrow> bool" where
  "above_limit x limit = (case limit of Some l \<Rightarrow> x > l | None \<Rightarrow> False)"

definition check_rules ::
  "nat \<Rightarrow> complexity_call \<Rightarrow> registry \<Rightarrow> executable_document \<Rightarrow> variables option \<Rightarrow>
     string option \<Rightarrow> validation_mode \<Rightarrow> usize option \<Rightarrow> usize option \<Rightarrow>
     (server_error list + validation_result) run" where
  "check_rules n call reg doc vars opname mode limit_complexity limit_depth =
     run_map (\<lambda>(errors, result).
         if above_limit (vr_complexity result) limit_complexity then
           Inl [server_error_new ''Query is too complex.'' None]
         else if above_limit (vr_depth result) limit_depth then
           Inl [server_error_new ''Query is nested too deep.'' None]
         else if errors \<noteq> [] then Inl (map server_error_of_rule_error errors)
         else Inr result)
       (run_mode n call mode doc
         (set_limits limit_complexity limit_depth (visitor_context_new reg doc vars opname)))"

end
