(* ===== verification/Schema_Prepare.thy ===== *)
theory Schema_Prepare
  imports Validation
begin

text \<open>
  The preparation of a request (\<open>src/schema.rs\<close>): the limits on the document as it was
  parsed, the validation, the choice of the operation, the defaults of the variables and the
  removal of skipped selections.

  The depth and alias counters are \<open>nat\<close>: they count stack frames and visited fields, so they
  cannot reach the end of a \<open>usize\<close>. The two checks that follow fragment spreads without
  counting take fuel, one unit per spread.
\<close>

subsection \<open>The recursion limit\<close>

text \<open>A loop whose body may return an error.\<close>

fun try_all :: "('a \<Rightarrow> 'e + unit) \<Rightarrow> 'a list \<Rightarrow> 'e + unit" where
  "try_all f [] = Inr ()"
| "try_all f (x # xs) = result_bind (f x) (\<lambda>_. try_all f xs)"

lemma try_all_cong [fundef_cong]:
  "xs = ys \<Longrightarrow> (\<And>x. x \<in> set ys \<Longrightarrow> f x = g x) \<Longrightarrow> try_all f xs = try_all g ys"
proof (induction ys arbitrary: xs)
  case (Cons y ys)
  then show ?case by (cases "g y") simp_all
qed simp

lemma try_all_ok: "try_all f xs = Inr () \<longleftrightarrow> (\<forall>x\<in>set xs. f x = Inr ())"
proof (induction xs)
  case (Cons x xs)
  then show ?case by (cases "f x") auto
qed simp

definition recursion_error :: "nat \<Rightarrow> src_pos \<Rightarrow> server_error" where
  "recursion_error max_depth p =
     server_error_new (''The recursion depth of the query cannot be greater than `'' @
       show_nat max_depth @ ''`'') (Some p)"

function check_depth_selection_set ::
  "executable_document \<Rightarrow> nat \<Rightarrow> nat \<Rightarrow> selection_set positioned \<Rightarrow> server_error + unit" where
  "check_depth_selection_set doc max_depth current_depth ss =
     (if max_depth < current_depth then Inl (recursion_error max_depth (pos ss))
      else try_all (\<lambda>selection.
        case node selection of
          SelField fld \<Rightarrow>
            if items (node (f_selection_set (node fld))) \<noteq> [] then
              check_depth_selection_set doc max_depth (current_depth + 1)
                (f_selection_set (node fld))
            else Inr ()
        | SelSpread spread \<Rightarrow>
            (case map_of (doc_fragments doc) (node (fs_fragment_name (node spread))) of
               Some fragment \<Rightarrow>
                 check_depth_selection_set doc max_depth (current_depth + 1)
                   (fd_selection_set (node fragment))
             | None \<Rightarrow> Inr ())
        | SelInline inl \<Rightarrow>
            check_depth_selection_set doc max_depth (current_depth + 1)
              (if_selection_set (node inl)))
       (items (node ss)))"
  by pat_completeness auto
termination
  by (relation "measure (\<lambda>(doc, max_depth, current_depth, ss). max_depth + 1 - current_depth)") auto

declare check_depth_selection_set.simps [simp del]

definition check_recursive_depth :: "executable_document \<Rightarrow> nat \<Rightarrow> server_error + unit" where
  "check_recursive_depth doc max_depth =
     try_all (\<lambda>(_, op). check_depth_selection_set doc max_depth 0 (od_selection_set (node op)))
       (operations_iter (doc_operations doc))"

subsection \<open>The limits on directives and aliases\<close>

text \<open>Steps that may also return an error, and their loops.\<close>

type_synonym 'st try_step = "'st \<Rightarrow> (server_error + 'st) run"

definition try_seq :: "'st try_step \<Rightarrow> 'st try_step \<Rightarrow> 'st try_step" where
  "try_seq f g = (\<lambda>st. run_bind (f st) (\<lambda>r. case r of Inl e \<Rightarrow> Done (Inl e) | Inr st' \<Rightarrow> g st'))"

definition try_ok :: "'st try_step" where
  "try_ok = (\<lambda>st. Done (Inr st))"

fun try_each :: "('a \<Rightarrow> 'st try_step) \<Rightarrow> 'a list \<Rightarrow> 'st try_step" where
  "try_each f [] = try_ok"
| "try_each f (x # xs) = try_seq (f x) (try_each f xs)"

lemma try_each_cong [fundef_cong]:
  "xs = ys \<Longrightarrow> (\<And>x. x \<in> set ys \<Longrightarrow> f x = g x) \<Longrightarrow> try_each f xs = try_each g ys"
  by (induction ys arbitrary: xs) simp_all

definition directives_error :: "nat \<Rightarrow> field positioned \<Rightarrow> server_error" where
  "directives_error limit_directives fld =
     server_error_new (''The number of directives on the field `'' @ node (f_name (node fld)) @
       ''` cannot be greater than `'' @ show_nat limit_directives @ ''`'') (Some (pos fld))"

function (sequential) check_directives_selection_set ::
  "nat \<Rightarrow> executable_document \<Rightarrow> nat \<Rightarrow> selection_set positioned \<Rightarrow> unit try_step" where
  "check_directives_selection_set n doc limit ss =
     try_each (\<lambda>selection.
       case node selection of
         SelField fld \<Rightarrow>
           if limit < length (f_directives (node fld)) then
             (\<lambda>_. Done (Inl (directives_error limit fld)))
           else check_directives_selection_set n doc limit (f_selection_set (node fld))
       | SelSpread spread \<Rightarrow>
           (case map_of (doc_fragments doc) (node (fs_fragment_name (node spread))) of
              Some fragment \<Rightarrow>
                (case n of
                   0 \<Rightarrow> (\<lambda>_. OutOfFuel)
                 | Suc m \<Rightarrow>
                     check_directives_selection_set m doc limit (fd_selection_set (node fragment)))
            | None \<Rightarrow> try_ok)
       | SelInline inl \<Rightarrow>
           check_directives_selection_set n doc limit (if_selection_set (node inl)))
      (items (node ss))"
  by pat_completeness auto
termination
proof (relation "measures [\<lambda>(n, doc, limit, ss). n, \<lambda>(n, doc, limit, ss). size (node ss)]",
    goal_cases)
qed (auto dest!: size_item simp: size_selection_field size_selection_inline
    intro: order.strict_trans [OF size_field_selection_set]
      order.strict_trans [OF size_inline_selection_set])

declare check_directives_selection_set.simps [simp del]

definition check_max_directives :: "nat \<Rightarrow> executable_document \<Rightarrow> nat \<Rightarrow> (server_error + unit) run"
where
  "check_max_directives n doc max_directives =
     try_each (\<lambda>(_, op).
         check_directives_selection_set n doc max_directives (od_selection_set (node op)))
       (operations_iter (doc_operations doc)) ()"

definition aliases_error :: "nat \<Rightarrow> src_pos \<Rightarrow> server_error" where
  "aliases_error max_aliases p =
     server_error_new (''The amount of aliases of the query cannot be greater than `'' @
       show_nat max_aliases @ ''`'') (Some p)"

function (sequential) check_alias_selection_set ::
  "nat \<Rightarrow> executable_document \<Rightarrow> nat \<Rightarrow> selection_set positioned \<Rightarrow> nat try_step" where
  "check_alias_selection_set n doc max_aliases ss =
     try_each (\<lambda>selection. try_seq
       (case node selection of
          SelField fld \<Rightarrow> try_seq
            (\<lambda>current_aliases. Done (Inr
               (if f_alias (node fld) \<noteq> None then current_aliases + 1 else current_aliases)))
            (if items (node (f_selection_set (node fld))) \<noteq> [] then
               check_alias_selection_set n doc max_aliases (f_selection_set (node fld))
             else try_ok)
        | SelSpread spread \<Rightarrow>
            (case map_of (doc_fragments doc) (node (fs_fragment_name (node spread))) of
               Some fragment \<Rightarrow>
                 (case n of
                    0 \<Rightarrow> (\<lambda>_. OutOfFuel)
                  | Suc m \<Rightarrow>
                      check_alias_selection_set m doc max_aliases
                        (fd_selection_set (node fragment)))
             | None \<Rightarrow> try_ok)
        | SelInline inl \<Rightarrow>
            check_alias_selection_set n doc max_aliases (if_selection_set (node inl)))
       (\<lambda>current_aliases. Done
          (if max_aliases < current_aliases then Inl (aliases_error max_aliases (pos ss))
           else Inr current_aliases)))
      (items (node ss))"
  by pat_completeness auto
termination
proof (relation "measures [\<lambda>(n, doc, max_aliases, ss). n, \<lambda>(n, doc, max_aliases, ss). size (node ss)]",
    goal_cases)
qed (auto dest!: size_item simp: size_selection_field size_selection_inline
    intro: order.strict_trans [OF size_field_selection_set]
      order.strict_trans [OF size_inline_selection_set])

declare check_alias_selection_set.simps [simp del]

definition check_alias_count :: "nat \<Rightarrow> executable_document \<Rightarrow> nat \<Rightarrow> (server_error + unit) run" where
  "check_alias_count n doc max_aliases =
     run_map (map_sum id (\<lambda>_. ()))
       (try_each (\<lambda>(_, op).
           check_alias_selection_set n doc max_aliases (od_selection_set (node op)))
         (operations_iter (doc_operations doc)) 0)"

subsection \<open>Skipped selections\<close>

text \<open>
  \<open>is_skipped\<close>: a condition that does not resolve is null, and what is no boolean is \<open>false\<close>.
\<close>

definition condition_value :: "variables \<Rightarrow> gvalue \<Rightarrow> const_value" where
  "condition_value vars input =
     (case into_const_with (\<lambda>n. case map_of vars n of Some v \<Rightarrow> Inr v | None \<Rightarrow> Inl ()) input of
        Inr v \<Rightarrow> v | Inl _ \<Rightarrow> CNull)"

definition parse_bool_or_default :: "const_value \<Rightarrow> bool" where
  "parse_bool_or_default v = (case v of CBoolean b \<Rightarrow> b | _ \<Rightarrow> False)"

fun is_skipped :: "directive positioned list \<Rightarrow> variables \<Rightarrow> bool" where
  "is_skipped [] vars = False"
| "is_skipped (d # ds) vars =
     (let dname = node (dir_name (node d)) in
      if dname \<noteq> ''skip'' \<and> dname \<noteq> ''include'' then is_skipped ds vars
      else
        let incl = (dname = ''include'') in
        case find_argument ''if'' (dir_arguments (node d)) of
          Some condition_input \<Rightarrow>
            if incl \<noteq> parse_bool_or_default (condition_value vars (node condition_input)) then True
            else is_skipped ds vars
        | None \<Rightarrow> is_skipped ds vars)"

definition is_skip_include :: "directive positioned \<Rightarrow> bool" where
  "is_skip_include d \<longleftrightarrow> node (dir_name (node d)) \<in> {''skip'', ''include''}"

definition strip_skip_include :: "selection \<Rightarrow> selection" where
  "strip_skip_include s =
     set_selection_directives (filter (\<lambda>d. \<not> is_skip_include d) (selection_directives s)) s"

lemma strip_field_selection_set:
  "SelField f = strip_skip_include s \<Longrightarrow>
     \<exists>g. s = SelField g \<and> node (f_selection_set (node f)) = node (f_selection_set (node g))"
  by (cases s) (auto simp: strip_skip_include_def positioned_map_def)

lemma strip_inline_selection_set:
  "SelInline f = strip_skip_include s \<Longrightarrow>
     \<exists>g. s = SelInline g \<and> node (if_selection_set (node f)) = node (if_selection_set (node g))"
  by (cases s) (auto simp: strip_skip_include_def positioned_map_def)

text \<open>The three loops of \<open>remove_skipped_selection\<close>: retain, strip the directives, descend.\<close>

function remove_skipped_selection :: "variables \<Rightarrow> selection_set \<Rightarrow> selection_set" where
  "remove_skipped_selection vars ss =
     SelSet (map (\<lambda>selection. Positioned (pos selection)
         (case node selection of
            SelField fld \<Rightarrow>
              SelField (positioned_map (\<lambda>f.
                Fld (f_alias f) (f_name f) (f_arguments f) (f_directives f)
                  (Positioned (pos (f_selection_set (node fld)))
                     (remove_skipped_selection vars (node (f_selection_set (node fld)))))) fld)
          | SelSpread spread \<Rightarrow> SelSpread spread
          | SelInline inl \<Rightarrow>
              SelInline (positioned_map (\<lambda>i.
                InlineFrag (if_type_condition i) (if_directives i)
                  (Positioned (pos (if_selection_set (node inl)))
                     (remove_skipped_selection vars (node (if_selection_set (node inl)))))) inl)))
       (map (positioned_map strip_skip_include)
         (filter (\<lambda>selection. \<not> is_skipped (selection_directives (node selection)) vars)
           (items ss))))"
  by pat_completeness auto
termination
proof (relation "measure (\<lambda>(vars, ss). size ss)", goal_cases)
  case (2 vars ss x f)
  then obtain s where s: "s \<in> set (items ss)" "SelField f = strip_skip_include (node s)"
    by (auto simp: positioned_map_def)
  then obtain g where "node s = SelField g"
    "node (f_selection_set (node f)) = node (f_selection_set (node g))"
    using strip_field_selection_set by blast
  then show ?case
    using size_item [OF s(1)] size_field_selection_set [of "node g"] by simp
next
  case (3 vars ss x f)
  then obtain s where s: "s \<in> set (items ss)" "SelInline f = strip_skip_include (node s)"
    by (auto simp: positioned_map_def)
  then obtain g where "node s = SelInline g"
    "node (if_selection_set (node f)) = node (if_selection_set (node g))"
    using strip_inline_selection_set by blast
  then show ?case
    using size_item [OF s(1)] size_inline_selection_set [of "node g"] by simp
qed simp

declare remove_skipped_selection.simps [simp del]

subsection \<open>Preparing a request\<close>

definition select_operation ::
  "string option \<Rightarrow> document_operations \<Rightarrow>
     server_error + (string option \<times> operation_definition positioned)" where
  "select_operation opname ops =
     (case opname of
        Some n \<Rightarrow>
          (case (case ops of
                   Single _ \<Rightarrow> None
                 | Multiple m \<Rightarrow> map_option (\<lambda>op. (Some n, op)) (map_of m n)) of
             Some r \<Rightarrow> Inr r
           | None \<Rightarrow> Inl (server_error_new (''Unknown operation named '' @ quoted n) None))
      | None \<Rightarrow>
          (case ops of
             Single op \<Rightarrow> Inr (None, op)
           | Multiple m \<Rightarrow>
               (case m of
                  [(n, op)] \<Rightarrow> Inr (Some n, op)
                | _ \<Rightarrow> Inl (server_error_new ''Operation name required in request.'' None))))"

definition variables_with_defaults ::
  "variable_definition positioned list \<Rightarrow> variables \<Rightarrow> variables" where
  "variables_with_defaults var_defs vars =
     fold (\<lambda>var_def m.
       let n = node (vd_name (node var_def)) in
       if contains_key m n then m
       else case vd_default_value (node var_def) of
              Some default_value \<Rightarrow> alist_insert n (node default_value) m
            | None \<Rightarrow> m) var_defs vars"

definition remove_skipped_operation ::
  "variables \<Rightarrow> operation_definition positioned \<Rightarrow> operation_definition positioned" where
  "remove_skipped_operation vars = positioned_map (\<lambda>op.
     op\<lparr>od_selection_set := positioned_map (remove_skipped_selection vars) (od_selection_set op)\<rparr>)"

definition remove_skipped_fragments ::
  "variables \<Rightarrow> (name \<times> fragment_definition positioned) list \<Rightarrow>
     (name \<times> fragment_definition positioned) list" where
  "remove_skipped_fragments vars = map (\<lambda>(n, fragment). (n, positioned_map (\<lambda>fd.
     fd\<lparr>fd_selection_set := positioned_map (remove_skipped_selection vars) (fd_selection_set fd)\<rparr>)
     fragment))"

text \<open>
  The limits checked once the document is parsed; an absent limit is not checked. The fuel of the
  two later checks is one more than the recursion limit, which the first check enforces.
\<close>

definition check_limits ::
  "executable_document \<Rightarrow> nat \<Rightarrow> nat option \<Rightarrow> nat option \<Rightarrow> (server_error + unit) run" where
  "check_limits doc recursive_depth max_directives max_aliases =
     try_seq (\<lambda>_. Done (check_recursive_depth doc recursive_depth)) (try_seq
       (\<lambda>_. case max_directives of
          Some limit \<Rightarrow> check_max_directives (Suc recursive_depth) doc limit | None \<Rightarrow> Done (Inr ()))
       (\<lambda>_. case max_aliases of
          Some limit \<Rightarrow> check_alias_count (Suc recursive_depth) doc limit | None \<Rightarrow> Done (Inr ()))) ()"

record query_env =
  qe_variables :: variables
  qe_operation_name :: "string option"
  qe_operation :: "operation_definition positioned"
  qe_fragments :: "(name \<times> fragment_definition positioned) list"
  qe_introspection_mode :: introspection_mode

text \<open>
  \<open>prepare_request\<close> from the parsed document on, with no extension registered (an extension may
  replace any of the three phases).
\<close>

definition prepare_request ::
  "registry \<Rightarrow> complexity_call \<Rightarrow> validation_mode \<Rightarrow> nat \<Rightarrow> nat option \<Rightarrow> nat option \<Rightarrow>
     usize option \<Rightarrow> usize option \<Rightarrow> executable_document \<Rightarrow> variables \<Rightarrow> string option \<Rightarrow>
     introspection_mode \<Rightarrow> (server_error list + query_env \<times> cache_control) run" where
  "prepare_request reg call mode recursive_depth max_directives max_aliases complexity depth
     doc vars opname intro =
     run_bind (check_limits doc recursive_depth max_directives max_aliases) (\<lambda>limits.
     case limits of
       Inl e \<Rightarrow> Done (Inl [e])
     | Inr _ \<Rightarrow>
         run_map (\<lambda>checked.
           result_bind checked (\<lambda>result.
           result_bind (map_sum (\<lambda>e. [e]) id (select_operation opname (doc_operations doc)))
             (\<lambda>(operation_name, op).
               let vars' = variables_with_defaults (od_variable_definitions (node op)) vars in
               Inr (\<lparr>qe_variables = vars, qe_operation_name = operation_name,
                     qe_operation = remove_skipped_operation vars' op,
                     qe_fragments = remove_skipped_fragments vars' (doc_fragments doc),
                     qe_introspection_mode = intro\<rparr>,
                    vr_cache_control result))))
         (check_rules (Suc recursive_depth) call reg doc (Some vars) opname mode complexity depth))"

end
