(* ===== verification/Depth_Bound.thy ===== *)
theory Depth_Bound
  imports Traversal Schema_Prepare
begin

text \<open>
  The recursion limit bounds the traversal. A document that passes \<open>check_recursive_depth\<close> with
  limit \<open>d\<close> expands its fragments at most \<open>d + 1\<close> deep, so no visitor, and neither of the two
  other checks on the document, recurses without bound on it.
\<close>

subsection \<open>The traversal\<close>

definition fuel_in ::
  "(name \<times> fragment_definition positioned) list \<Rightarrow> 's vstep \<Rightarrow> bool" where
  "fuel_in frags f \<longleftrightarrow> (\<forall>st. vc_fragments (fst st) = frags \<longrightarrow> f st \<noteq> OutOfFuel)"

definition bounded ::
  "(name \<times> fragment_definition positioned) list \<Rightarrow> 's vstep \<Rightarrow> bool" where
  "bounded frags f \<longleftrightarrow> framed f \<and> fuel_in frags f"

lemma framed_fragments: "framed f \<Longrightarrow> f st = Done st' \<Longrightarrow> vc_fragments (fst st') = vc_fragments (fst st)"
  unfolding framed_def ctx_step_def by (metis env_eq_fields(2) prod.collapse)

lemma bounded_seq:
  assumes "bounded frags f" "bounded frags g"
  shows "bounded frags (seq f g)"
proof -
  have "fuel_in frags (seq f g)"
    using assms framed_fragments [of f]
    by (auto simp: bounded_def fuel_in_def seq_def run_bind_OutOfFuel_iff)
  then show ?thesis
    using assms by (simp add: bounded_def framed_seq)
qed

lemma fuel_in_bracket:
  assumes "fuel_in frags f" "\<And>c. vc_fragments (up c) = vc_fragments c"
  shows "fuel_in frags (seq (on_ctx up) (seq f (on_ctx down)))"
  using assms by (auto simp: fuel_in_def seq_def on_ctx_def run_bind_OutOfFuel_iff)

lemma bounded_with_type: "bounded frags f \<Longrightarrow> bounded frags (with_type ty f)"
  using framed_with_type [of f ty] fuel_in_bracket [of frags f "push_type ty" pop_type]
  by (simp add: bounded_def with_type_def push_type_def)

lemma bounded_with_input_type: "bounded frags f \<Longrightarrow> bounded frags (with_input_type ty f)"
  using framed_with_input_type [of f ty]
    fuel_in_bracket [of frags f "push_input_type ty" pop_input_type]
  by (simp add: bounded_def with_input_type_def push_input_type_def)

lemma fuel_in_fuel_free: "fuel_free f \<Longrightarrow> fuel_in frags f"
  by (simp add: fuel_free_def fuel_in_def)

lemma bounded_bind_fragment:
  assumes "\<And>fragment. map_of frags n = Some fragment \<Longrightarrow> bounded frags (h fragment)"
    and "\<And>fragment. framed (h fragment)"
  shows "bounded frags (bind_ctx (\<lambda>ctx. Done (ctx_fragment ctx n))
    (\<lambda>found. case found of None \<Rightarrow> Done | Some fragment \<Rightarrow> h fragment))"
proof -
  have "framed (bind_ctx (\<lambda>ctx. Done (ctx_fragment ctx n))
    (\<lambda>found. case found of None \<Rightarrow> Done | Some fragment \<Rightarrow> h fragment))"
    using assms(2) by (auto intro!: framed_bind_ctx split: option.splits)
  then show ?thesis
    using assms(1)
    by (auto simp: bounded_def fuel_in_def bind_ctx_def ctx_fragment_def split: option.splits)
qed

text \<open>The part of the depth check that is about one selection.\<close>

definition depth_item :: "executable_document \<Rightarrow> nat \<Rightarrow> nat \<Rightarrow> selection \<Rightarrow> server_error + unit" where
  "depth_item doc max_depth current_depth sel =
     (case sel of
          SelField fld \<Rightarrow>
            if items (node (f_selection_set (node fld))) \<noteq> [] then
              check_depth_selection_set doc max_depth (current_depth + 1)
                (f_selection_set (node fld))
            else Inr ()
        | SelSpread spread \<Rightarrow>
            (case map_of (doc_fragments doc) (node (fs_fragment_name (node spread))) of
               Some fragment \<Rightarrow>
                 check_depth_selection_set doc max_depth (current_depth + 1)
                   (fd_selection_set (node fragment))
             | None \<Rightarrow> Inr ())
        | SelInline inl \<Rightarrow>
            check_depth_selection_set doc max_depth (current_depth + 1)
              (if_selection_set (node inl)))"

lemma check_depth_iff:
  "check_depth_selection_set doc max_depth d ss = Inr () \<longleftrightarrow>
     d \<le> max_depth \<and> (\<forall>sel\<in>set (items (node ss)). depth_item doc max_depth d (node sel) = Inr ())"
  by (subst check_depth_selection_set.simps) (auto simp: try_all_ok depth_item_def)

locale document_rule = rule v for v :: "'s visitor" +
  fixes doc :: executable_document and max_depth :: nat
  assumes depth_ok: "check_recursive_depth doc max_depth = Inr ()"

sublocale document_rule \<subseteq> bounded: hooks_keep "bounded (doc_fragments doc)" v
proof
  fix F :: "visitor_context \<times> 'a \<Rightarrow> (visitor_context \<times> 'a) run"
  assume *: "\<And>st. F st = Panicked \<or> (\<exists>f. bounded (doc_fragments doc) f \<and> F st = f st)"
  have "framed F"
    using * unfolding framed_def bounded_def by (metis run.distinct(1))
  moreover have "fuel_in (doc_fragments doc) F"
    unfolding fuel_in_def using * by (metis bounded_def fuel_in_def run.distinct(5))
  ultimately show "bounded (doc_fragments doc) F"
    by (simp add: bounded_def)
qed (auto simp: bounded_with_type bounded_with_input_type framed_fire fuel_free_fire
    fuel_in_fuel_free bounded_seq framed_on_ctx intro: bounded_def [THEN iffD2])

context document_rule
begin

lemma bounded_selections':
  "u = v \<Longrightarrow> check_depth_selection_set doc max_depth d ss = Inr () \<Longrightarrow> max_depth < n + d \<Longrightarrow>
     bounded (doc_fragments doc) (visit_selection_set n u ss)"
  "u = v \<Longrightarrow> depth_item doc max_depth d (node sel) = Inr () \<Longrightarrow> max_depth < n + d \<Longrightarrow> d \<le> max_depth \<Longrightarrow>
     bounded (doc_fragments doc) (visit_selection n u sel)"
  "u = v \<Longrightarrow> depth_item doc max_depth d (SelField fld) = Inr () \<Longrightarrow> max_depth < n + d \<Longrightarrow>
     bounded (doc_fragments doc) (visit_field n u fld)"
  "u = v \<Longrightarrow> depth_item doc max_depth d (SelSpread spread) = Inr () \<Longrightarrow> max_depth < n + d \<Longrightarrow> d \<le> max_depth \<Longrightarrow>
     bounded (doc_fragments doc) (visit_fragment_spread n u spread)"
  "u = v \<Longrightarrow> depth_item doc max_depth d (SelInline inl) = Inr () \<Longrightarrow> max_depth < n + d \<Longrightarrow>
     bounded (doc_fragments doc) (visit_inline_fragment n u inl)"
proof (induction n u ss and n u sel and n u fld and n u spread and n u inl arbitrary: d and d and d and d and d
    rule: visit_selection_set_visit_selection_visit_field_visit_fragment_spread_visit_inline_fragment.induct)
  case (1 n u ss)
  show ?case
  proof (cases "items (node ss) = []")
    case False
    have "bounded (doc_fragments doc) (visit_selection n v sel)"
      if "sel \<in> set (items (node ss))" for sel
      using 1(1) [OF False that] 1(2-) that by (auto simp: check_depth_iff)
    then show ?thesis
      using False by (auto simp: visit_selection_set.simps \<open>u = v\<close> intro!: bounded.keep_rules
          bounded.keep_hooks)
  qed (simp add: visit_selection_set.simps bounded.keep_Done)
next
  case (2 n u sel)
  show ?case
    unfolding visit_selection.simps \<open>u = v\<close>
  proof (intro bounded.keep_seq bounded.keep_hooks, goal_cases)
    case 1
    show ?case
    proof (cases "node sel")
      case (SelField fld)
      then show ?thesis
        using "2.IH"(1) [OF SelField _ _ \<open>u = v\<close>, where d = d] "2.prems"
        by (auto intro!: bounded.keep_bind bounded.keep_with_type bounded.keep_report_if
            simp: no_fuel)
    next
      case (SelSpread spread)
      then show ?thesis
        using "2.IH"(2) [OF SelSpread \<open>u = v\<close>, where d = d] "2.prems" by simp
    next
      case (SelInline inl)
      then show ?thesis
        using "2.IH"(3) [OF SelInline _ \<open>u = v\<close>, where d = d] "2.IH"(4) [OF SelInline _ _ \<open>u = v\<close>, where d = d]
          "2.prems"
        by (auto intro!: bounded.keep_bind bounded.keep_with_type split: option.splits)
    qed
  qed
next
  case (3 n u fld)
  have "bounded (doc_fragments doc) (visit_selection_set n v (f_selection_set (node fld)))"
  proof (cases "items (node (f_selection_set (node fld))) = []")
    case False
    then show ?thesis
      using "3.IH" [of "d + 1"] "3.prems" by (simp add: depth_item_def)
  qed (simp add: visit_selection_set.simps bounded.keep_Done)
  then show ?case
    unfolding visit_field.simps \<open>u = v\<close>
    by (intro bounded.keep_seq bounded.keep_hooks bounded.keep_visit_arguments
        bounded.keep_visit_directives)
next
  case (4 n u spread)
  have fragment: "bounded (doc_fragments doc)
      (case n of 0 \<Rightarrow> (\<lambda>_. OutOfFuel)
       | Suc m \<Rightarrow> bind_ctx (\<lambda>ctx. Done (map_of (reg_types (vc_registry ctx))
             (node (tc_on (node (fd_type_condition (node fragment)))))))
           (\<lambda>ty. with_type ty (visit_selection_set m v (fd_selection_set (node fragment)))))"
    if inl: "v_mode v = Inline"
      and found: "map_of (doc_fragments doc) (node (fs_fragment_name (node spread))) = Some fragment"
    for fragment
  proof -
    obtain m where n: "n = Suc m"
      using "4.prems" by (cases n) auto
    have check: "check_depth_selection_set doc max_depth (d + 1) (fd_selection_set (node fragment)) = Inr ()"
      using "4.prems"(2) found by (simp add: depth_item_def)
    have found': "Done (ctx_fragment (visitor_context_new r doc None None)
        (node (fs_fragment_name (node spread)))) = Done (Some fragment)" for r
      using found by (simp add: ctx_fragment_def visitor_context_new_def)
    show ?thesis
      using "4.IH" [unfolded \<open>u = v\<close>, OF inl found' refl n refl refl check] "4.prems" n
      by (auto intro!: bounded.keep_bind bounded.keep_with_type)
  qed
  show ?case
    unfolding visit_fragment_spread.simps \<open>u = v\<close>
    by (auto intro!: bounded.keep_seq bounded.keep_hooks bounded.keep_visit_directives
        bounded_bind_fragment fragment bounded.keep_Done framed_rules
        split: nat.splits simp: frame.keep_visit_selections)
next
  case (5 n u inl)
  have "bounded (doc_fragments doc) (visit_selection_set n v (if_selection_set (node inl)))"
    using "5.IH" [of "d + 1"] "5.prems" by (simp add: depth_item_def)
  then show ?case
    unfolding visit_inline_fragment.simps \<open>u = v\<close>
    by (intro bounded.keep_seq bounded.keep_hooks bounded.keep_visit_directives)
qed

lemmas bounded_selections = bounded_selections' [OF refl]

lemma bounded_fragment_definition:
  "bounded (doc_fragments doc) (visit_fragment_definition n v fn fd)"
proof (cases "v_mode v = Normal")
  case True
  then have "traversal_keeps fuel_free v"
    by (intro traversal_keeps.intro fuel.hooks_keep_axioms traversal_keeps_axioms.intro) simp
  then show ?thesis
    using frame.keep_visit_fragment_definition
    by (simp add: bounded_def fuel_in_fuel_free traversal_keeps.keep_visit_fragment_definition)
qed (simp add: visit_fragment_definition_def bounded.keep_Done)

lemma bounded_operation_definition:
  assumes "(opname, op) \<in> set (operations_iter (doc_operations doc))"
  shows "bounded (doc_fragments doc) (visit_operation_definition (Suc max_depth) v opname op)"
proof -
  have "check_depth_selection_set doc max_depth 0 (od_selection_set (node op)) = Inr ()"
    using depth_ok assms by (auto simp: check_recursive_depth_def try_all_ok)
  then show ?thesis
    unfolding visit_operation_definition_def
    by (auto intro!: bounded.keep_rules bounded.keep_hooks bounded.keep_report
        bounded.keep_visit_directives bounded.keep_visit_variable_definitions bounded_selections
        split: option.splits)
qed

lemma bounded_visit: "bounded (doc_fragments doc) (visit (Suc max_depth) v doc)"
  unfolding visit_def
  by (auto intro!: bounded.keep_rules bounded.keep_hooks bounded_fragment_definition
      bounded_operation_definition)

lemma visit_no_fuel:
  "vc_fragments (fst st) = doc_fragments doc \<Longrightarrow> visit (Suc max_depth) v doc st \<noteq> OutOfFuel"
  using bounded_visit unfolding bounded_def fuel_in_def by blast

end

subsection \<open>The limits on directives and aliases\<close>

definition try_fuel_free :: "'st try_step \<Rightarrow> bool" where
  "try_fuel_free f \<longleftrightarrow> (\<forall>st. f st \<noteq> OutOfFuel)"

lemma try_fuel_free_basic [simp]: "try_fuel_free try_ok" "try_fuel_free (\<lambda>st. Done (g st))"
  by (simp_all add: try_fuel_free_def try_ok_def)

lemma try_fuel_free_seq: "try_fuel_free f \<Longrightarrow> try_fuel_free g \<Longrightarrow> try_fuel_free (try_seq f g)"
  by (auto simp: try_fuel_free_def try_seq_def run_bind_OutOfFuel_iff split: sum.splits)

lemma try_fuel_free_each:
  "(\<And>x. x \<in> set xs \<Longrightarrow> try_fuel_free (f x)) \<Longrightarrow> try_fuel_free (try_each f xs)"
  by (induction xs) (simp_all add: try_fuel_free_seq)

lemma check_directives_empty:
  "items (node ss) = [] \<Longrightarrow> check_directives_selection_set n doc limit ss = try_ok"
  by (subst check_directives_selection_set.simps) simp

lemma check_directives_fuel_free:
  "check_depth_selection_set doc max_depth d ss = Inr () \<Longrightarrow> max_depth < n + d \<Longrightarrow>
     try_fuel_free (check_directives_selection_set n doc limit ss)"
proof (induction n doc limit ss arbitrary: d rule: check_directives_selection_set.induct)
  case (1 n doc limit ss)
  show ?case
  proof (subst check_directives_selection_set.simps, rule try_fuel_free_each)
    fix sel
    assume sel: "sel \<in> set (items (node ss))"
    then have depth: "depth_item doc max_depth d (node sel) = Inr ()" and "d \<le> max_depth"
      using 1(4) by (simp_all add: check_depth_iff)
    show "try_fuel_free (case node sel of
         SelField fld \<Rightarrow>
           if limit < length (f_directives (node fld)) then
             (\<lambda>_. Done (Inl (directives_error limit fld)))
           else check_directives_selection_set n doc limit (f_selection_set (node fld))
       | SelSpread spread \<Rightarrow>
           (case map_of (doc_fragments doc) (node (fs_fragment_name (node spread))) of
              Some fragment \<Rightarrow>
                (case n of
                   0 \<Rightarrow> (\<lambda>_. OutOfFuel)
                 | Suc m \<Rightarrow>
                     check_directives_selection_set m doc limit (fd_selection_set (node fragment)))
            | None \<Rightarrow> try_ok)
       | SelInline inl \<Rightarrow>
           check_directives_selection_set n doc limit (if_selection_set (node inl)))"
    proof (cases "node sel")
      case (SelField fld)
      then show ?thesis
        using 1(1) [OF sel SelField, of "d + 1"] depth 1(5)
        by (cases "items (node (f_selection_set (node fld))) = []")
          (simp_all add: depth_item_def check_directives_empty)
    next
      case (SelSpread spread)
      then show ?thesis
        using 1(2) [OF sel SelSpread, where d = "d + 1"] depth 1(5) \<open>d \<le> max_depth\<close>
        by (auto simp: depth_item_def split: option.splits nat.splits)
    next
      case (SelInline inl)
      then show ?thesis
        using 1(3) [OF sel SelInline, of "d + 1"] depth 1(5) by (simp add: depth_item_def)
    qed
  qed
qed

lemma check_alias_fuel_free:
  "check_depth_selection_set doc max_depth d ss = Inr () \<Longrightarrow> max_depth < n + d \<Longrightarrow>
     try_fuel_free (check_alias_selection_set n doc limit ss)"
proof (induction n doc limit ss arbitrary: d rule: check_alias_selection_set.induct)
  case (1 n doc limit ss)
  show ?case
  proof (subst check_alias_selection_set.simps, intro try_fuel_free_each try_fuel_free_seq)
    fix sel
    assume sel: "sel \<in> set (items (node ss))"
    then have depth: "depth_item doc max_depth d (node sel) = Inr ()" and "d \<le> max_depth"
      using 1(4) by (simp_all add: check_depth_iff)
    show "try_fuel_free (case node sel of
          SelField fld \<Rightarrow> try_seq
            (\<lambda>current_aliases. Done (Inr
               (if f_alias (node fld) \<noteq> None then current_aliases + 1 else current_aliases)))
            (if items (node (f_selection_set (node fld))) \<noteq> [] then
               check_alias_selection_set n doc limit (f_selection_set (node fld))
             else try_ok)
        | SelSpread spread \<Rightarrow>
            (case map_of (doc_fragments doc) (node (fs_fragment_name (node spread))) of
               Some fragment \<Rightarrow>
                 (case n of
                    0 \<Rightarrow> (\<lambda>_. OutOfFuel)
                  | Suc m \<Rightarrow>
                      check_alias_selection_set m doc limit (fd_selection_set (node fragment)))
             | None \<Rightarrow> try_ok)
        | SelInline inl \<Rightarrow>
            check_alias_selection_set n doc limit (if_selection_set (node inl)))"
    proof (cases "node sel")
      case (SelField fld)
      then show ?thesis
        using 1(1) [OF sel SelField, of "d + 1"] depth 1(5)
        by (auto simp: depth_item_def intro!: try_fuel_free_seq)
    next
      case (SelSpread spread)
      then show ?thesis
        using 1(2) [OF sel SelSpread, where d = "d + 1"] depth 1(5) \<open>d \<le> max_depth\<close>
        by (auto simp: depth_item_def split: option.splits nat.splits)
    next
      case (SelInline inl)
      then show ?thesis
        using 1(3) [OF sel SelInline, of "d + 1"] depth 1(5) by (simp add: depth_item_def)
    qed
  qed simp
qed

lemma check_limits_no_fuel: "check_limits doc max_depth max_directives max_aliases \<noteq> OutOfFuel"
proof -
  have "check_max_directives (Suc max_depth) doc limit \<noteq> OutOfFuel \<and>
    check_alias_count (Suc max_depth) doc limit \<noteq> OutOfFuel"
    if "check_recursive_depth doc max_depth = Inr ()" for limit
  proof -
    have depth: "check_depth_selection_set doc max_depth 0 (od_selection_set (node op)) = Inr ()"
      if "(opname, op) \<in> set (operations_iter (doc_operations doc))" for opname op
      using \<open>check_recursive_depth doc max_depth = Inr ()\<close> that
      by (auto simp: check_recursive_depth_def try_all_ok)
    have "try_fuel_free (try_each (\<lambda>(_, op).
         check_directives_selection_set (Suc max_depth) doc limit (od_selection_set (node op)))
       (operations_iter (doc_operations doc)))"
      "try_fuel_free (try_each (\<lambda>(_, op).
           check_alias_selection_set (Suc max_depth) doc limit (od_selection_set (node op)))
         (operations_iter (doc_operations doc)))"
      by (auto intro!: try_fuel_free_each check_directives_fuel_free check_alias_fuel_free
          intro: depth)
    then show ?thesis
      by (simp add: check_max_directives_def check_alias_count_def try_fuel_free_def)
  qed
  then show ?thesis
    by (auto simp: check_limits_def try_seq_def run_bind_OutOfFuel_iff split: option.splits sum.splits)
qed

end
