(* ===== verification/Trace.thy ===== *)
theory Trace
  imports Traversal
begin

text \<open>
  The trace of a document: the events of a traversal, computed from the document, the registry and
  the fragments alone. The traversal with any framed visitor that does not raise the limit flag
  performs exactly its trace (\<open>visit_performs\<close>), so the effect of a rule on a document is a fold
  over a list, and a composition of rules is the rules side by side on the same list.
\<close>

subsection \<open>The trace of a document\<close>

type_synonym trace = "event list run"

definition cat :: "trace \<Rightarrow> trace \<Rightarrow> trace" where
  "cat a b = run_bind a (\<lambda>xs. run_map (\<lambda>ys. xs @ ys) b)"

fun cat_each :: "('a \<Rightarrow> trace) \<Rightarrow> 'a list \<Rightarrow> trace" where
  "cat_each f [] = Done []"
| "cat_each f (x # xs) = cat (f x) (cat_each f xs)"

lemma cat_each_cong [fundef_cong]:
  "xs = ys \<Longrightarrow> (\<And>x. x \<in> set ys \<Longrightarrow> f x = g x) \<Longrightarrow> cat_each f xs = cat_each g ys"
  by (induction ys arbitrary: xs) simp_all

definition hook :: "hook_event \<Rightarrow> trace" where
  "hook e = Done [Hook e]"

definition bracket :: "event \<Rightarrow> event \<Rightarrow> trace \<Rightarrow> trace" where
  "bracket a b t = run_map (\<lambda>es. [a] @ es @ [b]) t"

definition typed :: "meta_type option \<Rightarrow> (visitor_context \<Rightarrow> trace) \<Rightarrow> visitor_context \<Rightarrow> trace" where
  "typed ty t c = bracket (PushType ty) PopType (t (push_type ty c))"

definition input_typed ::
  "meta_type_name option \<Rightarrow> (visitor_context \<Rightarrow> trace) \<Rightarrow> visitor_context \<Rightarrow> trace" where
  "input_typed ty t c = bracket (PushInput ty) PopInput (t (push_input_type ty c))"

lemma typed_cong [fundef_cong]:
  "ty = ty' \<Longrightarrow> c = c' \<Longrightarrow> (t (push_type ty' c') = t' (push_type ty' c')) \<Longrightarrow>
     typed ty t c = typed ty' t' c'"
  by (simp add: typed_def)

fun trace_input_value ::
    "src_pos \<Rightarrow> meta_type_name option \<Rightarrow> gvalue \<Rightarrow> visitor_context \<Rightarrow> trace"
  and trace_input_list :: "src_pos \<Rightarrow> string \<Rightarrow> gvalue list \<Rightarrow> visitor_context \<Rightarrow> trace"
  and trace_input_fields ::
    "src_pos \<Rightarrow> (string \<times> meta_input_value) list \<Rightarrow> (name \<times> gvalue) list \<Rightarrow>
       visitor_context \<Rightarrow> trace"
where
  "trace_input_value p expected_ty value c =
     cat (hook (EnterInput p expected_ty value)) (cat
       (case value of
          VList xs \<Rightarrow>
            (case expected_ty of
               Some ty \<Rightarrow>
                 run_bind (unwrap_non_null ty) (\<lambda>elem_ty. case elem_ty of
                     MList e \<Rightarrow> trace_input_list p e xs c
                   | _ \<Rightarrow> Done [])
             | None \<Rightarrow> Done [])
        | VObject m \<Rightarrow>
            (case expected_ty of
               Some ty \<Rightarrow>
                 run_bind (object_type (vc_registry c) ty) (\<lambda>found. case found of
                     Some (MTInputObject io) \<Rightarrow> trace_input_fields p (io_input_fields io) m c
                   | _ \<Rightarrow> Done [])
             | None \<Rightarrow> Done [])
        | _ \<Rightarrow> Done [])
       (hook (ExitInput p expected_ty value)))"
| "trace_input_list p e [] c = Done []"
| "trace_input_list p e (x # xs) c =
     cat (run_bind (mtn_create e) (\<lambda>t. trace_input_value p (Some t) x c))
         (trace_input_list p e xs c)"
| "trace_input_fields p fs [] c = Done []"
| "trace_input_fields p fs ((key, x) # m) c =
     cat (case map_of fs key of
            Some input_value \<Rightarrow>
              run_bind (mtn_create (mi_ty input_value)) (\<lambda>t. trace_input_value p (Some t) x c)
          | None \<Rightarrow> Done [])
         (trace_input_fields p fs m c)"

declare trace_input_value.simps(1) [simp del]

definition trace_arguments ::
  "src_pos \<Rightarrow> (visitor_context \<Rightarrow> name \<Rightarrow> meta_input_value option) \<Rightarrow> arguments \<Rightarrow>
     visitor_context \<Rightarrow> trace" where
  "trace_arguments p schema_arg args c =
     cat_each (\<lambda>(n, value).
       cat (hook (EnterArgument n value)) (cat
         (run_bind (expected_type (schema_arg c (node n)))
           (\<lambda>ty. input_typed ty (trace_input_value p ty (node value)) c))
         (hook (ExitArgument n value)))) args"

definition trace_directives :: "directive positioned list \<Rightarrow> visitor_context \<Rightarrow> trace" where
  "trace_directives ds c =
     cat_each (\<lambda>d.
       cat (hook (EnterDirective d)) (cat
         (trace_arguments (pos d) (directive_argument (node (dir_name (node d))))
           (dir_arguments (node d)) c)
         (hook (ExitDirective d)))) ds"

definition trace_variable_definitions :: "variable_definition positioned list \<Rightarrow> trace" where
  "trace_variable_definitions =
     cat_each (\<lambda>d. cat (hook (EnterVariable d)) (hook (ExitVariable d)))"

definition type_named :: "name \<Rightarrow> visitor_context \<Rightarrow> meta_type option" where
  "type_named n c = map_of (reg_types (vc_registry c)) n"

function (sequential) trace_selection_set ::
    "nat \<Rightarrow> visit_mode \<Rightarrow> selection_set positioned \<Rightarrow> visitor_context \<Rightarrow> trace"
  and trace_selection ::
    "nat \<Rightarrow> visit_mode \<Rightarrow> selection positioned \<Rightarrow> visitor_context \<Rightarrow> trace"
  and trace_field :: "nat \<Rightarrow> visit_mode \<Rightarrow> field positioned \<Rightarrow> visitor_context \<Rightarrow> trace"
  and trace_fragment_spread ::
    "nat \<Rightarrow> visit_mode \<Rightarrow> fragment_spread positioned \<Rightarrow> visitor_context \<Rightarrow> trace"
  and trace_inline_fragment ::
    "nat \<Rightarrow> visit_mode \<Rightarrow> inline_fragment positioned \<Rightarrow> visitor_context \<Rightarrow> trace"
where
  "trace_selection_set n mode ss c =
     (if items (node ss) \<noteq> [] then
        cat (hook (EnterSelectionSet ss)) (cat
          (cat_each (\<lambda>sel. trace_selection n mode sel c) (items (node ss)))
          (hook (ExitSelectionSet ss)))
      else Done [])"
| "trace_selection n mode sel c =
     cat (hook (EnterSelection sel)) (cat
       (case node sel of
          SelField fld \<Rightarrow>
            if node (f_name (node fld)) \<noteq> ''__typename'' then
              run_bind (field_type (node (f_name (node fld))) c)
                (\<lambda>ty. typed ty (trace_field n mode fld) c)
            else if is_subscription_type (current_type c) then
              Done [OwnError (pos fld)
                (''Unknown field '' @ quoted ''__typename'' @ '' on type '' @
                   quoted ''Subscription'' @ ''.'')]
            else Done []
        | SelSpread spread \<Rightarrow> trace_fragment_spread n mode spread c
        | SelInline inl \<Rightarrow>
            (case if_type_condition (node inl) of
               Some cond \<Rightarrow>
                 typed (type_named (node (tc_on (node cond))) c) (trace_inline_fragment n mode inl) c
             | None \<Rightarrow> trace_inline_fragment n mode inl c))
       (hook (ExitSelection sel)))"
| "trace_field n mode fld c =
     cat (hook (EnterField fld)) (cat
       (trace_arguments (pos fld) (field_argument (node (f_name (node fld))))
         (f_arguments (node fld)) c) (cat
       (trace_directives (f_directives (node fld)) c) (cat
       (trace_selection_set n mode (f_selection_set (node fld)) c)
       (hook (ExitField fld)))))"
| "trace_fragment_spread n mode spread c =
     cat (hook (EnterSpread spread)) (cat
       (trace_directives (fs_directives (node spread)) c) (cat
       (if mode = Inline then
          (case ctx_fragment c (node (fs_fragment_name (node spread))) of
             None \<Rightarrow> Done []
           | Some fragment \<Rightarrow>
               (case n of
                  0 \<Rightarrow> OutOfFuel
                | Suc m \<Rightarrow>
                    typed (type_named (node (tc_on (node (fd_type_condition (node fragment))))) c)
                      (trace_selection_set m mode (fd_selection_set (node fragment))) c))
        else Done [])
       (hook (ExitSpread spread))))"
| "trace_inline_fragment n mode inl c =
     cat (hook (EnterInline inl)) (cat
       (trace_directives (if_directives (node inl)) c) (cat
       (trace_selection_set n mode (if_selection_set (node inl)) c)
       (hook (ExitInline inl))))"
  by pat_completeness auto
termination
proof (relation "measures
    [\<lambda>x. case x of
        Inl (Inl (n, _, _, _)) \<Rightarrow> n | Inl (Inr (n, _, _, _)) \<Rightarrow> n
      | Inr (Inl (n, _, _, _)) \<Rightarrow> n | Inr (Inr (Inl (n, _, _, _))) \<Rightarrow> n
      | Inr (Inr (Inr (n, _, _, _))) \<Rightarrow> n,
     \<lambda>x. case x of
        Inl (Inl (_, _, ss, _)) \<Rightarrow> 2 * size (node ss)
      | Inl (Inr (_, _, s, _)) \<Rightarrow> Suc (2 * size (node s))
      | Inr (Inl (_, _, f, _)) \<Rightarrow> 2 * size (node f) | Inr (Inr (Inl (_, _, s, _))) \<Rightarrow> 0
      | Inr (Inr (Inr (_, _, i, _))) \<Rightarrow> 2 * size (node i)]", goal_cases)
qed (auto dest: size_item simp: size_selection_field size_selection_inline
    size_field_selection_set size_inline_selection_set)

lemmas trace_selection_simps [simp del] =
  trace_selection_set.simps trace_selection.simps trace_field.simps
  trace_fragment_spread.simps trace_inline_fragment.simps

definition trace_fragment_definition ::
  "nat \<Rightarrow> visit_mode \<Rightarrow> name \<Rightarrow> fragment_definition positioned \<Rightarrow> visitor_context \<Rightarrow> trace" where
  "trace_fragment_definition n mode fname fragment c =
     (if mode = Normal then
        cat (hook (EnterFragment fname fragment)) (cat
          (trace_directives (fd_directives (node fragment)) c) (cat
          (trace_selection_set n mode (fd_selection_set (node fragment)) c)
          (hook (ExitFragment fname fragment))))
      else Done [])"

definition trace_operation_definition ::
  "nat \<Rightarrow> visit_mode \<Rightarrow> name option \<Rightarrow> operation_definition positioned \<Rightarrow>
     visitor_context \<Rightarrow> trace" where
  "trace_operation_definition n mode opname op c =
     cat (hook (EnterOperation opname op)) (cat
       (case root_name (vc_registry c) (od_ty (node op)) of
          Some rn \<Rightarrow>
            (case type_named rn c of
               Some ty \<Rightarrow>
                 typed (Some ty) (\<lambda>c.
                   cat (trace_variable_definitions (od_variable_definitions (node op))) (cat
                     (trace_directives (od_directives (node op)) c)
                     (trace_selection_set n mode (od_selection_set (node op)) c))) c
             | None \<Rightarrow> Panicked)
        | None \<Rightarrow>
            Done [OwnError (pos op)
              (''Schema is not configured for '' @ show_operation_type (od_ty (node op)) @ ''s.'')])
       (hook (ExitOperation opname op)))"

definition trace_document ::
  "nat \<Rightarrow> visit_mode \<Rightarrow> executable_document \<Rightarrow> visitor_context \<Rightarrow> trace" where
  "trace_document n mode doc c =
     cat (hook (EnterDocument doc)) (cat
       (cat_each (\<lambda>(fname, fragment).
            typed (type_named (node (tc_on (node (fd_type_condition (node fragment))))) c)
              (trace_fragment_definition n mode fname fragment) c)
          (doc_fragments doc)) (cat
       (cat_each (\<lambda>(opname, op). trace_operation_definition n mode opname op c)
          (operations_iter (doc_operations doc)))
       (hook (ExitDocument doc))))"

subsection \<open>The traversal performs the trace\<close>

definition performs :: "'s visitor \<Rightarrow> 's vstep \<Rightarrow> (visitor_context \<Rightarrow> trace) \<Rightarrow> bool" where
  "performs v F t \<longleftrightarrow>
     (\<forall>st st'. \<not> vc_exceeded_limit (fst st') \<longrightarrow>
        (F st = Done st' \<longleftrightarrow>
           (\<exists>es. t (env (fst st)) = Done es \<and> for_each (perform v) es st = Done st')))"

lemma performs_iff:
  "performs v F t \<Longrightarrow> \<not> vc_exceeded_limit (fst st') \<Longrightarrow>
     F st = Done st' \<longleftrightarrow> (\<exists>es. t (env (fst st)) = Done es \<and> for_each (perform v) es st = Done st')"
  unfolding performs_def by blast

lemma performs_Done [simp]: "performs v Done (\<lambda>_. Done [])"
  by (simp add: performs_def)

lemma performs_OutOfFuel [simp]: "performs v (\<lambda>_. OutOfFuel) (\<lambda>_. OutOfFuel)"
  by (simp add: performs_def)

lemma performs_event: "performs v (perform v e) (\<lambda>_. Done [e])"
  by (simp add: performs_def)

lemma performs_hook: "performs v (fire v e) (\<lambda>_. hook e)"
  using performs_event [of v "Hook e"] by (simp add: hook_def)

lemma performs_report: "performs v (on_ctx (report_error [p] msg)) (\<lambda>_. Done [OwnError p msg])"
  using performs_event [of v "OwnError p msg"] by simp

lemma performs_bind:
  fixes v :: "'s visitor"
  assumes "\<And>c. g c = g (env c)" and "\<And>c x. g c = Done x \<Longrightarrow> performs v (f x) (t x)"
  shows "performs v (bind_ctx g f) (\<lambda>c. run_bind (g c) (\<lambda>x. t x c))"
  unfolding performs_def
proof (intro allI impI)
  fix st st' :: "visitor_context \<times> 's"
  assume ok: "\<not> vc_exceeded_limit (fst st')"
  show "bind_ctx g f st = Done st' \<longleftrightarrow>
      (\<exists>es. run_bind (g (env (fst st))) (\<lambda>x. t x (env (fst st))) = Done es \<and>
            for_each (perform v) es st = Done st')"
  proof (cases "g (fst st)")
    case (Done x)
    then show ?thesis
      using performs_iff [OF assms(2) [OF Done] ok, of st] assms(1) [of "fst st", symmetric]
      by (simp add: bind_ctx_def)
  qed (use assms(1) [of "fst st", symmetric] in \<open>simp_all add: bind_ctx_def\<close>)
qed

context rule
begin

lemma perform_raises:
  assumes "perform v e (ctx, s) = Done (ctx', s')" "vc_exceeded_limit ctx"
  shows "vc_exceeded_limit ctx'"
proof (cases e)
  case (Hook h)
  then show ?thesis
    using assms framed_fire [of h] by (auto simp: framed_def ctx_step_def)
qed (use assms in \<open>auto simp: on_ctx_def report_error_def\<close>)

lemma performs_raises:
  "for_each (perform v) es st = Done st' \<Longrightarrow> vc_exceeded_limit (fst st) \<Longrightarrow>
     vc_exceeded_limit (fst st')"
proof (induction es arbitrary: st)
  case (Cons e es)
  then obtain m where m: "perform v e st = Done m" "for_each (perform v) es m = Done st'"
    by (auto simp: seq_def run_bind_Done_iff)
  then show ?case
    using Cons.IH [OF m(2)] perform_raises [of e "fst st" "snd st" "fst m" "snd m"] Cons.prems(2)
    by simp
qed simp

lemma performs_seq:
  assumes F: "performs v F t" "framed F" and G: "performs v G u" "framed G"
  shows "performs v (seq F G) (\<lambda>c. cat (t c) (u c))"
  unfolding performs_def
proof (intro allI impI iffI)
  fix st st' :: "visitor_context \<times> 's"
  assume ok: "\<not> vc_exceeded_limit (fst st')"
  {
    assume "seq F G st = Done st'"
    then obtain m where m: "F st = Done m" "G m = Done st'"
      by (auto simp: seq_def run_bind_Done_iff)
    have "ctx_step (fst st) (fst m)" "ctx_step (fst m) (fst st')"
      using m F(2) G(2) by (metis framed_def prod.collapse)+
    then have "\<not> vc_exceeded_limit (fst m)" "env (fst m) = env (fst st)"
      using ok by (auto simp: ctx_step_def)
    then obtain xs ys where "t (env (fst st)) = Done xs" "for_each (perform v) xs st = Done m"
      "u (env (fst st)) = Done ys" "for_each (perform v) ys m = Done st'"
      using m ok performs_iff [OF F(1)] performs_iff [OF G(1)] by metis
    then show "\<exists>es. cat (t (env (fst st))) (u (env (fst st))) = Done es \<and>
        for_each (perform v) es st = Done st'"
      by (simp add: cat_def for_each_append seq_def)
  next
    assume "\<exists>es. cat (t (env (fst st))) (u (env (fst st))) = Done es \<and>
        for_each (perform v) es st = Done st'"
    then obtain xs ys m where es: "t (env (fst st)) = Done xs" "u (env (fst st)) = Done ys"
      "for_each (perform v) xs st = Done m" "for_each (perform v) ys m = Done st'"
      by (auto simp: cat_def run_map_def run_bind_Done_iff for_each_append seq_def)
    have m: "\<not> vc_exceeded_limit (fst m)"
      using performs_raises [OF es(4)] ok by blast
    then have "F st = Done m"
      using es performs_iff [OF F(1)] by blast
    moreover from this have "env (fst m) = env (fst st)"
      using F(2) unfolding framed_def ctx_step_def by (metis prod.collapse)
    ultimately show "seq F G st = Done st'"
      using es ok performs_iff [OF G(1), of st' m] by (auto simp: seq_def)
  }
qed

lemma performs_for_each:
  assumes "\<And>x. x \<in> set xs \<Longrightarrow> performs v (f x) (t x)" "\<And>x. framed (f x)"
  shows "performs v (for_each f xs) (\<lambda>c. cat_each (\<lambda>x. t x c) xs)"
  using assms by (induction xs) (simp_all add: performs_seq framed_for_each)

lemma performs_for_unless_exceeded:
  assumes "\<And>x. x \<in> set xs \<Longrightarrow> performs v (f x) (t x)" "\<And>x. framed (f x)"
  shows "performs v (for_unless_exceeded f xs) (\<lambda>c. cat_each (\<lambda>x. t x c) xs)"
  using assms
proof (induction xs)
  case (Cons x xs)
  let ?seq = "seq (f x) (for_unless_exceeded f xs)"
  have *: "performs v ?seq (\<lambda>c. cat_each (\<lambda>x. t x c) (x # xs))"
    using Cons by (simp add: performs_seq framed_for_unless_exceeded)
  show ?case
    unfolding performs_def
  proof (intro allI impI)
    fix st st' :: "visitor_context \<times> 's"
    assume ok: "\<not> vc_exceeded_limit (fst st')"
    show "for_unless_exceeded f (x # xs) st = Done st' \<longleftrightarrow>
      (\<exists>es. cat_each (\<lambda>x. t x (env (fst st))) (x # xs) = Done es \<and>
            for_each (perform v) es st = Done st')"
      using performs_iff [OF * ok, of st] performs_raises [of _ st st'] ok by auto
  qed
qed simp

lemma performs_bracket:
  assumes F: "performs v F t" "framed F"
    and up: "\<And>c. env (up c) = up (env c)" "\<And>c. vc_exceeded_limit (up c) = vc_exceeded_limit c"
      "perform v up_event = on_ctx up"
    and down: "\<And>c. vc_exceeded_limit (down c) = vc_exceeded_limit c"
      "perform v down_event = on_ctx down"
  shows "performs v (seq (on_ctx up) (seq F (on_ctx down)))
    (\<lambda>c. bracket up_event down_event (t (up c)))"
  unfolding performs_def
proof (intro allI impI)
  fix st st' :: "visitor_context \<times> 's"
  assume ok: "\<not> vc_exceeded_limit (fst st')"
  obtain ctx s where st: "st = (ctx, s)" by (cases st)
  have "seq (on_ctx up) (seq F (on_ctx down)) st = Done st' \<longleftrightarrow>
      (\<exists>m. F (up ctx, s) = Done m \<and> st' = (down (fst m), snd m))"
    by (auto simp: st seq_def on_ctx_def run_bind_Done_iff split: prod.splits)
  also have "\<dots> \<longleftrightarrow> (\<exists>m. (\<exists>es. t (env (up ctx)) = Done es \<and>
      for_each (perform v) es (up ctx, s) = Done m) \<and> st' = (down (fst m), snd m))"
    using ok performs_iff [OF F(1), of _ "(up ctx, s)"] down(1) by (metis fst_conv)
  also have "\<dots> \<longleftrightarrow> (\<exists>es. bracket up_event down_event (t (up (env (fst st)))) = Done es \<and>
      for_each (perform v) es st = Done st')"
    by (auto simp: st up down bracket_def run_map_def run_bind_Done_iff for_each_append seq_def
        on_ctx_def split: prod.splits)
  finally show "seq (on_ctx up) (seq F (on_ctx down)) st = Done st' \<longleftrightarrow>
      (\<exists>es. bracket up_event down_event (t (up (env (fst st)))) = Done es \<and>
      for_each (perform v) es st = Done st')" .
qed

lemma performs_with_type:
  "performs v F t \<Longrightarrow> framed F \<Longrightarrow> performs v (with_type ty F) (typed ty t)"
  using performs_bracket [of F t "push_type ty" "PushType ty" pop_type PopType]
  by (simp add: with_type_def typed_def [abs_def])

lemma performs_with_input_type:
  "performs v F t \<Longrightarrow> framed F \<Longrightarrow> performs v (with_input_type ty F) (input_typed ty t)"
  using performs_bracket [of F t "push_input_type ty" "PushInput ty" pop_input_type PopInput]
  by (simp add: with_input_type_def input_typed_def [abs_def])

lemma performs_input:
  "u = v \<Longrightarrow> performs v (visit_input_value u p ty val) (trace_input_value p ty val)"
  "u = v \<Longrightarrow> performs v (visit_input_list u p e vals) (trace_input_list p e vals)"
  "u = v \<Longrightarrow> performs v (visit_input_fields u p fs m) (trace_input_fields p fs m)"
proof (induction u p ty val and u p e vals and u p fs m
    rule: visit_input_value_visit_input_list_visit_input_fields.induct)
  case (1 u p ty val)
  have enter: "performs v (v_enter_input_value v p ty val) (\<lambda>_. hook (EnterInput p ty val))"
    and exit: "performs v (v_exit_input_value v p ty val) (\<lambda>_. hook (ExitInput p ty val))"
    using performs_hook [of v "EnterInput p ty val"] performs_hook [of v "ExitInput p ty val"]
    by simp_all
  show ?case
    unfolding visit_input_value.simps trace_input_value.simps [abs_def] \<open>u = v\<close>
  proof (intro performs_seq enter exit framed_seq frame.keep_hooks, goal_cases)
    case 1
    show ?case
      by (cases val; cases ty) (use "1.IH" \<open>u = v\<close> in \<open>auto intro!: performs_bind
          split: meta_type_name.splits option.splits meta_type.splits\<close>)
  qed (auto intro!: framed_bind_ctx simp: frame.keep_input
      split: gvalue.splits option.splits meta_type_name.splits meta_type.splits)
next
  case (3 u p e x xs)
  show ?case
    unfolding visit_input_list.simps trace_input_list.simps [abs_def] \<open>u = v\<close>
    by (intro performs_seq performs_bind framed_bind_ctx frame.keep_input
        3(1) [unfolded \<open>u = v\<close>] 3(2) [unfolded \<open>u = v\<close>] refl)
next
  case (5 u p fs key x m)
  show ?case
    unfolding visit_input_fields.simps trace_input_fields.simps [abs_def] \<open>u = v\<close>
  proof (intro performs_seq frame.keep_input, goal_cases)
    case 1
    show ?case
      by (cases "map_of fs key") (use "5.IH"(1) \<open>u = v\<close> in \<open>auto intro!: performs_bind\<close>)
  next
    case 2
    show ?case
      by (auto intro!: framed_bind_ctx simp: frame.keep_input split: option.splits)
  next
    case 3
    show ?case
      using "5.IH"(2) \<open>u = v\<close> by simp
  qed
qed (simp_all add: trace_input_list.simps [abs_def] trace_input_fields.simps [abs_def])

lemma performs_fire:
  "performs v (v_enter_document v d) (\<lambda>_. hook (EnterDocument d))"
  "performs v (v_exit_document v d) (\<lambda>_. hook (ExitDocument d))"
  "performs v (v_enter_operation_definition v n od) (\<lambda>_. hook (EnterOperation n od))"
  "performs v (v_exit_operation_definition v n od) (\<lambda>_. hook (ExitOperation n od))"
  "performs v (v_enter_fragment_definition v fn fd) (\<lambda>_. hook (EnterFragment fn fd))"
  "performs v (v_exit_fragment_definition v fn fd) (\<lambda>_. hook (ExitFragment fn fd))"
  "performs v (v_enter_variable_definition v vd) (\<lambda>_. hook (EnterVariable vd))"
  "performs v (v_exit_variable_definition v vd) (\<lambda>_. hook (ExitVariable vd))"
  "performs v (v_enter_directive v dir) (\<lambda>_. hook (EnterDirective dir))"
  "performs v (v_exit_directive v dir) (\<lambda>_. hook (ExitDirective dir))"
  "performs v (v_enter_argument v an av) (\<lambda>_. hook (EnterArgument an av))"
  "performs v (v_exit_argument v an av) (\<lambda>_. hook (ExitArgument an av))"
  "performs v (v_enter_selection_set v ss) (\<lambda>_. hook (EnterSelectionSet ss))"
  "performs v (v_exit_selection_set v ss) (\<lambda>_. hook (ExitSelectionSet ss))"
  "performs v (v_enter_selection v sel) (\<lambda>_. hook (EnterSelection sel))"
  "performs v (v_exit_selection v sel) (\<lambda>_. hook (ExitSelection sel))"
  "performs v (v_enter_field v fld) (\<lambda>_. hook (EnterField fld))"
  "performs v (v_exit_field v fld) (\<lambda>_. hook (ExitField fld))"
  "performs v (v_enter_fragment_spread v sp) (\<lambda>_. hook (EnterSpread sp))"
  "performs v (v_exit_fragment_spread v sp) (\<lambda>_. hook (ExitSpread sp))"
  "performs v (v_enter_inline_fragment v inl) (\<lambda>_. hook (EnterInline inl))"
  "performs v (v_exit_inline_fragment v inl) (\<lambda>_. hook (ExitInline inl))"
  using performs_hook [of v "EnterDocument d"] performs_hook [of v "ExitDocument d"]
    performs_hook [of v "EnterOperation n od"] performs_hook [of v "ExitOperation n od"]
    performs_hook [of v "EnterFragment fn fd"] performs_hook [of v "ExitFragment fn fd"]
    performs_hook [of v "EnterVariable vd"] performs_hook [of v "ExitVariable vd"]
    performs_hook [of v "EnterDirective dir"] performs_hook [of v "ExitDirective dir"]
    performs_hook [of v "EnterArgument an av"] performs_hook [of v "ExitArgument an av"]
    performs_hook [of v "EnterSelectionSet ss"] performs_hook [of v "ExitSelectionSet ss"]
    performs_hook [of v "EnterSelection sel"] performs_hook [of v "ExitSelection sel"]
    performs_hook [of v "EnterField fld"] performs_hook [of v "ExitField fld"]
    performs_hook [of v "EnterSpread sp"] performs_hook [of v "ExitSpread sp"]
    performs_hook [of v "EnterInline inl"] performs_hook [of v "ExitInline inl"]
  by simp_all

lemma performs_arguments:
  assumes "\<And>c n. schema_arg (env c) n = schema_arg c n"
  shows "performs v (visit_arguments v p schema_arg args) (trace_arguments p schema_arg args)"
  unfolding visit_arguments_def trace_arguments_def [abs_def]
proof (rule performs_for_each, goal_cases)
  case (1 x)
  obtain n val where x: "x = (n, val)" by (cases x)
  show ?case
    unfolding x prod.case
    by (intro performs_seq performs_fire performs_bind performs_with_input_type performs_input
        frame.keep_hooks framed_seq framed_bind_ctx framed_with_input_type frame.keep_input refl)
      (simp_all add: assms)
qed (auto intro!: framed_seq framed_bind_ctx framed_with_input_type simp: frame.keep_hooks
    frame.keep_input split: prod.splits)

lemma env_arguments:
  "field_argument fname (env c) n = field_argument fname c n"
  "directive_argument dname (env c) n = directive_argument dname c n"
  by (simp_all add: field_argument_def directive_argument_def parent_type_def)

lemma performs_directives: "performs v (visit_directives v ds) (trace_directives ds)"
  unfolding visit_directives_def trace_directives_def [abs_def]
  by (intro performs_for_each performs_seq performs_fire performs_arguments frame.keep_hooks
      framed_seq frame.keep_visit_arguments env_arguments)

lemma performs_variable_definitions:
  "performs v (visit_variable_definitions v ds) (\<lambda>_. trace_variable_definitions ds)"
  unfolding visit_variable_definitions_def trace_variable_definitions_def
  by (intro performs_for_each performs_seq performs_fire frame.keep_hooks framed_seq)

lemma env_types:
  "field_type n (env c) = field_type n c" "type_named n (env c) = type_named n c"
  "ctx_fragment (env c) n = ctx_fragment c n"
  "is_subscription_type (current_type (env c)) = is_subscription_type (current_type c)"
  by (simp_all add: field_type_def type_named_def ctx_fragment_def current_type_def split: option.split)

lemma performs_typed:
  assumes "performs v F t" "framed F"
  shows "performs v (bind_ctx (\<lambda>c. Done (map_of (reg_types (vc_registry c)) n)) (\<lambda>ty. with_type ty F))
    (\<lambda>c. typed (map_of (reg_types (vc_registry c)) n) t c)"
proof -
  have "performs v (bind_ctx (\<lambda>c. Done (type_named n c)) (\<lambda>ty. with_type ty F))
    (\<lambda>c. run_bind (Done (type_named n c)) (\<lambda>ty. typed ty t c))"
    using assms by (intro performs_bind performs_with_type) (simp_all add: env_types)
  then show ?thesis
    by (simp add: type_named_def)
qed

lemma performs_report_if:
  assumes "\<And>c. b (env c) = b c"
  shows "performs v (on_ctx (\<lambda>ctx. if b ctx then report_error [p] msg ctx else ctx))
    (\<lambda>c. if b c then Done [OwnError p msg] else Done [])"
  unfolding performs_def
  by (auto simp: on_ctx_def assms split: prod.splits)

lemmas performs_rules =
  performs_seq performs_fire performs_arguments performs_directives env_arguments
  frame.keep_rules frame.keep_hooks frame.keep_visit_directives frame.keep_visit_arguments
  frame.keep_visit_selections frame.keep_Done

lemma performs_selections':
  "u = v \<Longrightarrow> performs v (visit_selection_set n u ss) (trace_selection_set n (v_mode v) ss)"
  "u = v \<Longrightarrow> performs v (visit_selection n u sel) (trace_selection n (v_mode v) sel)"
  "u = v \<Longrightarrow> performs v (visit_field n u fld) (trace_field n (v_mode v) fld)"
  "u = v \<Longrightarrow> performs v (visit_fragment_spread n u spread) (trace_fragment_spread n (v_mode v) spread)"
  "u = v \<Longrightarrow> performs v (visit_inline_fragment n u inl) (trace_inline_fragment n (v_mode v) inl)"
proof (induction n u ss and n u sel and n u fld and n u spread and n u inl
    rule: visit_selection_set_visit_selection_visit_field_visit_fragment_spread_visit_inline_fragment.induct)
  case (1 n u ss)
  show ?case
  proof (cases "items (node ss) = []")
    case False
    show ?thesis
      unfolding visit_selection_set.simps trace_selection_set.simps [abs_def] \<open>u = v\<close>
        if_P [OF False]
      by (intro performs_rules performs_for_unless_exceeded
          1(1) [OF False, unfolded \<open>u = v\<close>] refl)
  qed (simp add: visit_selection_set.simps trace_selection_set.simps [abs_def])
next
  case (2 n u sel)
  show ?case
    unfolding visit_selection.simps trace_selection.simps [abs_def] \<open>u = v\<close>
  proof (intro performs_seq performs_fire frame.keep_hooks framed_seq, goal_cases)
    case 1
    show ?case
    proof (cases "node sel")
      case (SelField fld)
      show ?thesis
        unfolding SelField selection.case
        using "2.IH"(1) [OF SelField] \<open>u = v\<close>
        by (cases "node (f_name (node fld)) = ''__typename''")
          (auto intro!: performs_report_if performs_bind performs_with_type
            simp: env_types frame.keep_visit_selections)
    next
      case (SelSpread spread)
      then show ?thesis
        using "2.IH"(2) [OF SelSpread] \<open>u = v\<close> by simp
    next
      case (SelInline inl)
      show ?thesis
      proof (cases "if_type_condition (node inl)")
        case None
        then show ?thesis
          using "2.IH"(3) [OF SelInline None] \<open>u = v\<close> SelInline by simp
      next
        case (Some cond)
        then show ?thesis
          using "2.IH"(4) [OF SelInline Some] \<open>u = v\<close> SelInline
          by (auto intro!: performs_typed frame.keep_visit_selections simp: type_named_def)
      qed
    qed
  qed (auto intro!: frame.keep_rules frame.keep_report_if no_fuel
      simp: frame.keep_visit_selections frame.keep_Done
      split: selection.splits option.splits)
next
  case (3 n u fld)
  show ?case
    unfolding visit_field.simps trace_field.simps [abs_def] \<open>u = v\<close>
    by (intro performs_rules 3 [unfolded \<open>u = v\<close>] refl)
next
  case (4 n u spread)
  show ?case
    unfolding visit_fragment_spread.simps trace_fragment_spread.simps [abs_def] \<open>u = v\<close>
  proof (intro performs_rules, goal_cases)
    case 1
    have body: "performs v
        (bind_ctx (\<lambda>ctx. Done (ctx_fragment ctx (node (fs_fragment_name (node spread)))))
          (\<lambda>found. case found of
             None \<Rightarrow> Done
           | Some fragment \<Rightarrow>
               (case n of
                  0 \<Rightarrow> (\<lambda>_. OutOfFuel)
                | Suc m \<Rightarrow>
                    bind_ctx (\<lambda>ctx. Done (map_of (reg_types (vc_registry ctx))
                        (node (tc_on (node (fd_type_condition (node fragment)))))))
                      (\<lambda>ty. with_type ty
                        (visit_selection_set m v (fd_selection_set (node fragment)))))))
        (\<lambda>c. run_bind (Done (ctx_fragment c (node (fs_fragment_name (node spread)))))
          (\<lambda>found. case found of
             None \<Rightarrow> Done []
           | Some fragment \<Rightarrow>
               (case n of
                  0 \<Rightarrow> OutOfFuel
                | Suc m \<Rightarrow>
                    typed (type_named (node (tc_on (node (fd_type_condition (node fragment))))) c)
                      (trace_selection_set m (v_mode v) (fd_selection_set (node fragment))) c)))"
      if inl: "v_mode v = Inline"
      using "4.IH" [unfolded \<open>u = v\<close>, OF inl _ _ _ _ refl] inl
      by (intro performs_bind)
        (auto simp: env_types type_named_def frame.keep_visit_selections
          intro!: performs_typed split: option.splits nat.splits)
    then show ?case
      by (auto simp: if_distrib)
  qed (auto intro!: frame.keep_rules frame.keep_spread
      simp: frame.keep_visit_selections frame.keep_Done split: option.splits nat.splits)
next
  case (5 n u inl)
  show ?case
    unfolding visit_inline_fragment.simps trace_inline_fragment.simps [abs_def] \<open>u = v\<close>
    by (intro performs_rules 5 [unfolded \<open>u = v\<close>] refl)
qed

lemmas performs_selections = performs_selections' [OF refl]

lemma performs_fragment_definition:
  "performs v (visit_fragment_definition n v fn fd) (trace_fragment_definition n (v_mode v) fn fd)"
proof (cases "v_mode v = Normal")
  case True
  show ?thesis
    unfolding visit_fragment_definition_def trace_fragment_definition_def [abs_def] if_P [OF True]
    by (intro performs_rules performs_selections)
qed (simp add: visit_fragment_definition_def trace_fragment_definition_def [abs_def])

lemma performs_rooted:
  assumes "performs v F t" "framed F"
  shows "performs v
    (bind_ctx (\<lambda>ctx. case map_of (reg_types (vc_registry ctx)) rn of
                        Some ty \<Rightarrow> Done ty | None \<Rightarrow> Panicked)
      (\<lambda>ty. with_type (Some ty) F))
    (\<lambda>c. case type_named rn c of Some ty \<Rightarrow> typed (Some ty) t c | None \<Rightarrow> Panicked)"
proof -
  have "performs v
    (bind_ctx (\<lambda>ctx. case map_of (reg_types (vc_registry ctx)) rn of
                        Some ty \<Rightarrow> Done ty | None \<Rightarrow> Panicked)
      (\<lambda>ty. with_type (Some ty) F))
    (\<lambda>c. run_bind (case map_of (reg_types (vc_registry c)) rn of
                      Some ty \<Rightarrow> Done ty | None \<Rightarrow> Panicked)
      (\<lambda>ty. typed (Some ty) t c))"
    by (intro performs_bind performs_with_type assms) simp
  also have "(\<lambda>c. run_bind (case map_of (reg_types (vc_registry c)) rn of
                      Some ty \<Rightarrow> Done ty | None \<Rightarrow> Panicked)
      (\<lambda>ty. typed (Some ty) t c)) =
    (\<lambda>c. case type_named rn c of Some ty \<Rightarrow> typed (Some ty) t c | None \<Rightarrow> Panicked)"
    by (rule ext) (simp add: type_named_def split: option.split)
  finally show ?thesis .
qed

lemma performs_root_choice:
  assumes "\<And>rn. performs v (F rn) (t rn)"
  shows "performs v
    (bind_ctx (\<lambda>ctx. Done (root_name (vc_registry ctx) ty)) (\<lambda>root. case root of
        Some rn \<Rightarrow> F rn | None \<Rightarrow> on_ctx (report_error [p] msg)))
    (\<lambda>c. case root_name (vc_registry c) ty of Some rn \<Rightarrow> t rn c | None \<Rightarrow> Done [OwnError p msg])"
  using performs_bind [of "\<lambda>ctx. Done (root_name (vc_registry ctx) ty)" v
      "\<lambda>root. case root of Some rn \<Rightarrow> F rn | None \<Rightarrow> on_ctx (report_error [p] msg)"
      "\<lambda>root c. case root of Some rn \<Rightarrow> t rn c | None \<Rightarrow> Done [OwnError p msg]"]
  by (auto simp: assms performs_report split: option.splits)

lemma performs_operation_definition:
  "performs v (visit_operation_definition n v on op) (trace_operation_definition n (v_mode v) on op)"
  unfolding visit_operation_definition_def trace_operation_definition_def [abs_def]
  by (intro performs_seq performs_fire performs_root_choice performs_rooted performs_rules
      performs_selections performs_variable_definitions frame.keep_visit_variable_definitions)
    (auto intro!: frame.keep_rules frame.keep_report performs_rules
      frame.keep_visit_variable_definitions split: option.splits)

lemma performs_for_pairs:
  assumes "\<And>a b. performs v (f a b) (t a b)" "\<And>a b. framed (f a b)"
  shows "performs v (for_unless_exceeded (\<lambda>(a, b). f a b) xs) (\<lambda>c. cat_each (\<lambda>(a, b). t a b c) xs)"
proof -
  have "performs v (for_unless_exceeded (\<lambda>(a, b). f a b) xs)
    (\<lambda>c. cat_each (\<lambda>x. (\<lambda>(a, b). t a b) x c) xs)"
    by (intro performs_for_unless_exceeded) (auto simp: assms split: prod.splits)
  also have "(\<lambda>c. cat_each (\<lambda>x. (\<lambda>(a, b). t a b) x c) xs) = (\<lambda>c. cat_each (\<lambda>(a, b). t a b c) xs)"
    by (simp add: case_prod_unfold)
  finally show ?thesis .
qed

lemma performs_visit: "performs v (visit n v doc) (trace_document n (v_mode v) doc)"
  unfolding visit_def trace_document_def [abs_def] type_named_def
  by (intro performs_seq performs_fire performs_for_pairs performs_typed
      performs_fragment_definition performs_operation_definition frame.keep_visit_fragment_definition
      frame.keep_visit_operation_definition frame.keep_rules frame.keep_hooks)
    (auto intro!: frame.keep_rules frame.keep_visit_fragment_definition
      frame.keep_visit_operation_definition split: prod.splits)

lemma visit_step: "visit n v doc (ctx, s) = Done (ctx', s') \<Longrightarrow> ctx_step ctx ctx'"
  using framed_dest [OF frame.keep_visit] .

text \<open>The traversal is the fold of the visitor over the trace of the document.\<close>

lemma visit_performs:
  assumes "\<not> vc_exceeded_limit (fst st')"
  shows "visit n v doc st = Done st' \<longleftrightarrow>
    (\<exists>es. trace_document n (v_mode v) doc (env (fst st)) = Done es \<and>
          for_each (perform v) es st = Done st')"
  using performs_iff [OF performs_visit assms] .

end

end
