(* ===== verification/Reporting.thy ===== *)
theory Reporting
  imports Trace
begin

text \<open>
  Visitors that only report: their hooks change nothing of the context but append to its errors. It
  is the contract of every validation rule; the calculators, which raise the limit flag, keep the
  weaker contract \<open>rule\<close>.
\<close>

definition reports :: "visitor_context \<Rightarrow> visitor_context \<Rightarrow> bool" where
  "reports ctx ctx' \<longleftrightarrow> (\<exists>es. ctx' = append_errors es ctx)"

definition reporting :: "'s vstep \<Rightarrow> bool" where
  "reporting f \<longleftrightarrow> (\<forall>ctx s ctx' s'. f (ctx, s) = Done (ctx', s') \<longrightarrow> reports ctx ctx')"

lemma append_errors_Nil: "append_errors [] ctx = ctx"
  by (simp add: append_errors_def)

lemma append_errors_twice [simp]: "append_errors es (append_errors es' ctx) = append_errors (es' @ es) ctx"
  by (simp add: append_errors_def)

lemma report_append: "report_error ps msg ctx = append_errors [rule_error_new ps msg] ctx"
  by (simp add: append_errors_def report_error_def)

lemma reports_refl [simp]: "reports ctx ctx"
  unfolding reports_def by (metis append_errors_Nil)

lemma reports_trans [trans]: "reports a b \<Longrightarrow> reports b c \<Longrightarrow> reports a c"
  unfolding reports_def by auto

lemma reports_append [simp]: "reports ctx (append_errors es ctx)"
  unfolding reports_def by blast

lemma reports_report [simp]: "reports ctx (report_error ps msg ctx)"
  by (simp add: report_append)

lemma reports_if [simp]:
  "reports ctx (if b then x else y) \<longleftrightarrow> (if b then reports ctx x else reports ctx y)"
  by simp

lemma reports_fold: "(\<And>x c. reports c (f x c)) \<Longrightarrow> reports ctx (fold f xs ctx)"
  by (induction xs arbitrary: ctx) (auto intro: reports_trans)

lemma reports_step: "reports ctx ctx' \<Longrightarrow> ctx_step ctx ctx'"
  by (auto simp: reports_def)

lemma reports_flag: "reports ctx ctx' \<Longrightarrow> vc_exceeded_limit ctx' = vc_exceeded_limit ctx"
  by (auto simp: reports_def append_errors_def)

lemma reports_fragments: "reports ctx ctx' \<Longrightarrow> vc_fragments ctx' = vc_fragments ctx"
  by (auto simp: reports_def append_errors_def)

lemmas reporting_dest = reporting_def [THEN iffD1, rule_format]

lemma reporting_framed: "reporting f \<Longrightarrow> framed f"
  by (auto simp: reporting_def framed_def dest: reports_step)

lemma reporting_Done [simp]: "reporting Done"
  by (simp add: reporting_def)

lemma reporting_OutOfFuel [simp]: "reporting (\<lambda>_. OutOfFuel)"
  by (simp add: reporting_def)

lemma reporting_on_state [simp]: "reporting (on_state f)"
  by (simp add: reporting_def on_state_def)

lemma reporting_on_ctx: "(\<And>ctx. reports ctx (f ctx)) \<Longrightarrow> reporting (on_ctx f)"
  by (auto simp: reporting_def on_ctx_def)

lemma reporting_try_ctx:
  "(\<And>ctx ctx'. f ctx = Done ctx' \<Longrightarrow> reports ctx ctx') \<Longrightarrow> reporting (try_ctx f)"
  by (auto simp: reporting_def try_ctx_def run_map_def run_bind_Done_iff)

lemma reporting_seq: "reporting f \<Longrightarrow> reporting g \<Longrightarrow> reporting (seq f g)"
  unfolding reporting_def seq_def run_bind_Done_iff by (metis reports_trans surj_pair)

lemma reporting_both: "reporting f \<Longrightarrow> reporting g \<Longrightarrow> reporting (both f g)"
  unfolding both_def
  by (rule reporting_seq)
    (auto simp: reporting_def on_fst_def on_snd_def run_map_def run_bind_Done_iff split: prod.splits)

lemma reporting_bracket:
  assumes f: "reporting f"
    and undo: "\<And>c es. down (append_errors es (up c)) = append_errors es c"
  shows "reporting (seq (on_ctx up) (seq f (on_ctx down)))"
  unfolding reporting_def
proof (intro allI impI)
  fix ctx s ctx' s'
  assume "seq (on_ctx up) (seq f (on_ctx down)) (ctx, s) = Done (ctx', s')"
  then obtain c where c: "f (up ctx, s) = Done (c, s')" "ctx' = down c"
    by (auto simp: seq_def on_ctx_def run_bind_Done_iff)
  then obtain es where "c = append_errors es (up ctx)"
    using reporting_dest [OF f c(1)] by (auto simp: reports_def)
  then show "reports ctx ctx'"
    using c(2) undo by simp
qed

lemma reporting_with_type: "reporting f \<Longrightarrow> reporting (with_type ty f)"
  unfolding with_type_def
  by (rule reporting_bracket) (simp_all add: append_errors_def push_type_def pop_type_def)

lemma reporting_with_input_type: "reporting f \<Longrightarrow> reporting (with_input_type ty f)"
  unfolding with_input_type_def
  by (rule reporting_bracket) (simp_all add: append_errors_def push_input_type_def pop_input_type_def)

lemma reporting_pure:
  "(\<And>ctx s. reports ctx (f ctx s)) \<Longrightarrow> reporting (\<lambda>(ctx, s). Done (f ctx s, g ctx s))"
  by (auto simp: reporting_def)

lemma reporting_run:
  "(\<And>ctx s x. h ctx s = Done x \<Longrightarrow> reports ctx (f x ctx s)) \<Longrightarrow>
     reporting (\<lambda>(ctx, s). run_map (\<lambda>x. (f x ctx s, g x ctx s)) (h ctx s))"
  by (auto simp: reporting_def run_map_def run_bind_Done_iff)

subsection \<open>Rules that only report\<close>

locale reporting_rule =
  fixes v :: "'s visitor"
  assumes reporting_fire: "reporting (fire v e)"
    and fires: "fuel_free (fire v e)"

sublocale reporting_rule \<subseteq> rule v
  by standard (simp_all add: reporting_framed reporting_fire fires)

sublocale reporting_rule \<subseteq> reports: traversal_keeps reporting v
proof
  fix F :: "visitor_context \<times> 'a \<Rightarrow> (visitor_context \<times> 'a) run"
  assume "\<And>st. F st = Panicked \<or> (\<exists>f. reporting f \<and> F st = f st)"
  then show "reporting F"
    unfolding reporting_def by (metis run.distinct(1))
qed (auto simp: reporting_fire reporting_on_ctx
    intro: reporting_seq reporting_with_type reporting_with_input_type)

lemma reporting_is_rule: "reporting_rule v \<Longrightarrow> rule v"
  by (simp add: reporting_rule_def rule_def reporting_framed)

context reporting_rule
begin

text \<open>The traversal with such a visitor changes nothing but the errors either.\<close>

lemma visit_reports: "visit n v doc (ctx, s) = Done (ctx', s') \<Longrightarrow> reports ctx ctx'"
  using reporting_dest [OF reports.keep_visit] .

end

lemma reporting_rule_nil: "reporting_rule visitor_nil"
  by standard simp_all

lemma reporting_rule_cons: "reporting_rule v \<Longrightarrow> reporting_rule w \<Longrightarrow> reporting_rule (visitor_cons v w)"
  by (simp add: reporting_rule_def fire_cons reporting_both fuel_free_both)

end
