(* ===== verification/Rule_Frames.thy ===== *)
theory Rule_Frames
  imports Cycle_Search Validation Depth_Bound Reporting
begin

text \<open>
  Every rule keeps the contract \<open>reporting_rule\<close>: its hooks change nothing of the context but
  append to the errors, and no search of theirs recurses without bound. The calculators, which may
  raise the limit flag, keep the contract \<open>rule\<close>.
\<close>

named_theorems ctx_steps \<open>helpers of the rules that only report\<close>

subsection \<open>Loops and lookups\<close>

lemma reports_for_each:
  assumes "\<And>x c c'. x \<in> set xs \<Longrightarrow> f x c = Done c' \<Longrightarrow> reports c c'"
    and "for_each f xs c = Done c'"
  shows "reports c c'"
  by (rule for_each_invariant [OF _ _ assms(2), where P = "reports c"])
    (use assms(1) reports_trans in auto)

lemma is_valid_no_fuel [no_fuel]:
  "is_valid_input_value reg ty val p \<noteq> OutOfFuel"
  "valid_elements reg ty i vals p \<noteq> OutOfFuel"
  "valid_fields reg flds m p \<noteq> OutOfFuel"
proof (induction reg ty val p and reg ty i vals p and reg flds m p
    rule: is_valid_input_value_valid_elements_valid_fields.induct)
  case (1 reg ty val p)
  then show ?case
    by (subst is_valid_input_value.simps)
      (auto simp: run_bind_OutOfFuel_iff no_fuel split: meta_type_name.splits const_value.splits
        option.splits meta_type.splits)
qed (auto simp: run_bind_OutOfFuel_iff no_fuel required_field_error_def split: option.splits)

subsection \<open>Rules without state\<close>

lemma check_default_value_step [ctx_steps]:
  "check_default_value vdef ctx = Done ctx' \<Longrightarrow> reports ctx ctx'"
  by (auto simp: check_default_value_def run_map_def run_bind_Done_iff split: option.splits)

lemma check_default_value_no_fuel [no_fuel]: "check_default_value vdef ctx \<noteq> OutOfFuel"
  by (auto simp: check_default_value_def no_fuel split: option.splits)

lemma reporting_default_values_of_correct_type: "reporting_rule default_values_of_correct_type"
proof
  show "reporting (fire default_values_of_correct_type e)" for e
    by (cases e) (auto simp: default_values_of_correct_type_def visitor_nil_def
        intro!: reporting_try_ctx ctx_steps)
  show "fuel_free (fire default_values_of_correct_type e)" for e
    by (cases e) (auto simp: default_values_of_correct_type_def visitor_nil_def no_fuel
        intro!: fuel_free_try_ctx)
qed

lemma validate_type_step [simp]: "reports ctx (validate_type n p ctx)"
  by (simp add: validate_type_def)

lemma reporting_known_type_names: "reporting_rule known_type_names"
proof
  show "reporting (fire known_type_names e)" for e
    by (cases e) (auto simp: known_type_names_def visitor_nil_def run_map_def run_bind_Done_iff
        intro!: reporting_try_ctx reporting_on_ctx split: option.splits)
  show "fuel_free (fire known_type_names e)" for e
    by (cases e) (auto simp: known_type_names_def visitor_nil_def no_fuel
        intro!: fuel_free_try_ctx)
qed

lemma reporting_variables_are_input_types: "reporting_rule variables_are_input_types"
proof
  show "reporting (fire variables_are_input_types e)" for e
    by (cases e) (auto simp: variables_are_input_types_def visitor_nil_def
        intro!: reporting_on_ctx split: option.splits)
  show "fuel_free (fire variables_are_input_types e)" for e
    by (cases e) (auto simp: variables_are_input_types_def visitor_nil_def)
qed

lemma check_upload_variable_step [simp]: "reports ctx (check_upload_variable op var ctx)"
  by (simp add: check_upload_variable_def split: option.split)

lemma reporting_upload_file: "reporting_rule upload_file"
proof
  show "reporting (fire upload_file e)" for e
    by (cases e) (auto simp: upload_file_def visitor_nil_def intro!: reporting_on_ctx reports_fold)
  show "fuel_free (fire upload_file e)" for e
    by (cases e) (auto simp: upload_file_def visitor_nil_def)
qed

lemma check_field_known_step [simp]: "reports ctx (check_field_known fld ctx)"
  by (simp add: check_field_known_def Let_def split: option.split)

lemma reporting_fields_on_correct_type: "reporting_rule fields_on_correct_type"
proof
  show "reporting (fire fields_on_correct_type e)" for e
    by (cases e) (auto simp: fields_on_correct_type_def visitor_nil_def intro!: reporting_on_ctx)
  show "fuel_free (fire fields_on_correct_type e)" for e
    by (cases e) (auto simp: fields_on_correct_type_def visitor_nil_def)
qed

lemma check_scalar_leaf_step: "check_scalar_leaf fld ctx = Done ctx' \<Longrightarrow> reports ctx ctx'"
  by (auto simp: check_scalar_leaf_def Let_def run_map_def run_bind_Done_iff split: option.splits)

lemma check_scalar_leaf_no_fuel [no_fuel]: "check_scalar_leaf fld ctx \<noteq> OutOfFuel"
  by (auto simp: check_scalar_leaf_def Let_def no_fuel split: option.splits)

lemma reporting_scalar_leafs: "reporting_rule scalar_leafs"
proof
  show "reporting (fire scalar_leafs e)" for e
    by (cases e) (auto simp: scalar_leafs_def visitor_nil_def
        intro!: reporting_try_ctx check_scalar_leaf_step)
  show "fuel_free (fire scalar_leafs e)" for e
    by (cases e) (auto simp: scalar_leafs_def visitor_nil_def no_fuel intro!: fuel_free_try_ctx)
qed

lemma check_provided_step: "check_provided p msg args defs ctx = Done ctx' \<Longrightarrow> reports ctx ctx'"
  unfolding check_provided_def
  by (erule reports_for_each [rotated]) (auto simp: run_map_def run_bind_Done_iff)

lemma check_provided_no_fuel [no_fuel]: "check_provided p msg args defs ctx \<noteq> OutOfFuel"
  unfolding check_provided_def
  by (rule for_each_fuel [where P = "\<lambda>_. True"]) (auto simp: missing_argument_def no_fuel)

lemma reporting_provided_non_null_arguments: "reporting_rule provided_non_null_arguments"
proof
  show "reporting (fire provided_non_null_arguments e)" for e
    by (cases e) (auto simp: provided_non_null_arguments_def visitor_nil_def Let_def
        intro!: reporting_try_ctx dest: check_provided_step split: option.splits)
  show "fuel_free (fire provided_non_null_arguments e)" for e
    by (cases e) (auto simp: provided_non_null_arguments_def visitor_nil_def Let_def no_fuel
        intro!: fuel_free_try_ctx split: option.splits)
qed

lemma reporting_fragments_on_composite_types: "reporting_rule fragments_on_composite_types"
proof
  show "reporting (fire fragments_on_composite_types e)" for e
    by (cases e) (auto simp: fragments_on_composite_types_def visitor_nil_def
        intro!: reporting_on_ctx split: option.splits)
  show "fuel_free (fire fragments_on_composite_types e)" for e
    by (cases e) (auto simp: fragments_on_composite_types_def visitor_nil_def)
qed

lemma reporting_known_fragment_names: "reporting_rule known_fragment_names"
proof
  show "reporting (fire known_fragment_names e)" for e
    by (cases e) (auto simp: known_fragment_names_def visitor_nil_def Let_def
        intro!: reporting_on_ctx)
  show "fuel_free (fire known_fragment_names e)" for e
    by (cases e) (auto simp: known_fragment_names_def visitor_nil_def)
qed

lemma check_duplicate_from_step: "reports ctx (check_duplicate_from seen ds ctx)"
proof (induction ds arbitrary: seen ctx)
  case (Cons d ds)
  have "reports ctx (check_duplicate_from seen' ds (report_error ps msg ctx))" for seen' ps msg
    by (rule reports_trans [OF reports_report Cons.IH])
  then show ?case
    by (simp add: Let_def Cons.IH split: option.split)
qed simp

lemma reporting_directives_unique: "reporting_rule directives_unique"
proof
  show "reporting (fire directives_unique e)" for e
    by (cases e) (auto simp: directives_unique_def visitor_nil_def check_duplicate_directive_def
        intro!: reporting_on_ctx check_duplicate_from_step)
  show "fuel_free (fire directives_unique e)" for e
    by (cases e) (auto simp: directives_unique_def visitor_nil_def)
qed

subsection \<open>Rules with local state\<close>

lemma check_argument_value_step: "check_argument_value u arg n val ctx = Done ctx' \<Longrightarrow> reports ctx ctx'"
  by (auto simp: check_argument_value_def run_map_def run_bind_Done_iff split: sum.splits option.splits)

lemma check_argument_value_no_fuel [no_fuel]: "check_argument_value u arg n val ctx \<noteq> OutOfFuel"
  by (auto simp: check_argument_value_def no_fuel split: sum.splits)

lemma reporting_arguments_of_correct_type: "reporting_rule arguments_of_correct_type"
proof
  show "reporting (fire arguments_of_correct_type e)" for e
    by (cases e) (auto simp: arguments_of_correct_type_def visitor_nil_def reporting_def run_map_def
        run_bind_Done_iff on_state_def dest: check_argument_value_step split: option.splits)
  show "fuel_free (fire arguments_of_correct_type e)" for e
    by (cases e) (auto simp: arguments_of_correct_type_def visitor_nil_def fuel_free_def no_fuel
        on_state_def split: option.splits)
qed

lemma check_argument_known_step [simp]: "reports ctx (check_argument_known n s ctx)"
  by (simp add: check_argument_known_def split: option.split prod.split args_type.split)

lemma reporting_known_argument_names: "reporting_rule known_argument_names"
proof
  show "reporting (fire known_argument_names e)" for e
    by (cases e) (auto simp: known_argument_names_def visitor_nil_def reporting_def Let_def on_state_def)
  show "fuel_free (fire known_argument_names e)" for e
    by (cases e) (auto simp: known_argument_names_def visitor_nil_def fuel_free_def Let_def on_state_def)
qed

lemma reporting_unique_argument_names: "reporting_rule unique_argument_names"
proof
  show "reporting (fire unique_argument_names e)" for e
    by (cases e) (auto simp: unique_argument_names_def visitor_nil_def reporting_def on_state_def
        split: if_splits)
  show "fuel_free (fire unique_argument_names e)" for e
    by (cases e) (auto simp: unique_argument_names_def visitor_nil_def fuel_free_def on_state_def)
qed

lemma reporting_unique_variable_names: "reporting_rule unique_variable_names"
proof
  show "reporting (fire unique_variable_names e)" for e
    by (cases e) (auto simp: unique_variable_names_def visitor_nil_def reporting_def on_state_def
        Let_def split: if_splits)
  show "fuel_free (fire unique_variable_names e)" for e
    by (cases e) (auto simp: unique_variable_names_def visitor_nil_def fuel_free_def on_state_def
        Let_def)
qed

lemma check_directive_step [simp]: "reports ctx (check_directive d stack ctx)"
  by (simp add: check_directive_def Let_def split: option.split list.split)

lemma reporting_known_directives: "reporting_rule known_directives"
proof
  show "reporting (fire known_directives e)" for e
    by (cases e) (auto simp: known_directives_def visitor_nil_def reporting_def on_state_def
        push_location_def pop_location_def)
  show "fuel_free (fire known_directives e)" for e
    by (cases e) (auto simp: known_directives_def visitor_nil_def fuel_free_def on_state_def
        push_location_def pop_location_def)
qed

lemma check_spread_steps [simp]:
  "reports ctx (check_spread spread types ctx)" "reports ctx (check_inline_spread inl ctx)"
  by (simp_all add: check_spread_def check_inline_spread_def Let_def split: option.split)

lemma reporting_possible_fragment_spreads: "reporting_rule possible_fragment_spreads"
proof
  show "reporting (fire possible_fragment_spreads e)" for e
    by (cases e) (auto simp: possible_fragment_spreads_def visitor_nil_def reporting_def on_state_def
        on_ctx_def)
  show "fuel_free (fire possible_fragment_spreads e)" for e
    by (cases e) (auto simp: possible_fragment_spreads_def visitor_nil_def fuel_free_def
        on_state_def on_ctx_def)
qed

subsection \<open>Overlapping fields\<close>

text \<open>Comparing fields reports, and enters no fragment.\<close>

definition fc_step :: "find_conflicts_state \<Rightarrow> find_conflicts_state \<Rightarrow> bool" where
  "fc_step s s' \<longleftrightarrow> reports (fc_ctx s) (fc_ctx s') \<and> fc_visited s \<subseteq> fc_visited s'"

lemma fc_step_refl [simp]: "fc_step s s"
  by (simp add: fc_step_def)

lemma fc_step_trans: "fc_step a b \<Longrightarrow> fc_step b c \<Longrightarrow> fc_step a c"
  by (auto simp: fc_step_def intro: reports_trans)

lemma fc_step_report [simp]: "fc_step s (fc_report ps msg s)"
  by (simp add: fc_step_def fc_report_def)

lemma fc_step_fold: "(\<And>x s. fc_step s (f x s)) \<Longrightarrow> fc_step s (fold f xs s)"
  by (induction xs arbitrary: s) (auto intro: fc_step_trans)

lemma fc_step_compare [simp]: "fc_step s (compare_fields n f g s)"
proof -
  have args: "fc_step s' (fold (\<lambda>(arg_name, val) s.
           if same_argument (node g) (node arg_name) val then s
           else fc_report [pos f, pos g] (differing_arguments_message (node arg_name)) s)
         (f_arguments (node f)) s')" for s'
    by (rule fc_step_fold) (simp split: prod.split)
  have "fc_step s s1 \<Longrightarrow> fc_step s (if b then fc_report ps msg s1 else s1)" for s1 b ps msg
    using fc_step_trans [OF _ fc_step_report] by simp
  then show ?thesis
    unfolding compare_fields_def Let_def by (intro fc_step_trans [OF _ args]) simp
qed

lemma fc_step_add_output [simp]: "fc_step s (add_output t n f s)"
  by (simp add: add_output_def fc_step_def [of s "s\<lparr>fc_outputs := _\<rparr>"] split: option.split)

text \<open>The body of the loop of \<open>find\<close>.\<close>

definition conflicts_of ::
  "nat \<Rightarrow> name option \<Rightarrow> selection positioned \<Rightarrow> find_conflicts_state step" where
  "conflicts_of n t sel =
     (case node sel of
        SelField fld \<Rightarrow> (\<lambda>s. Done (add_output t (node (response_key (node fld))) fld s))
      | SelInline inl \<Rightarrow>
          find_conflicts n (map_option (\<lambda>c. node (tc_on (node c))) (if_type_condition (node inl)))
            (node (if_selection_set (node inl)))
      | SelSpread spread \<Rightarrow>
          (\<lambda>s. let fname = node (fs_fragment_name (node spread)) in
            case ctx_fragment (fc_ctx s) fname of
              None \<Rightarrow> Done s
            | Some fragment \<Rightarrow>
                if fname \<in> fc_visited s then Done s
                else (case n of
                  0 \<Rightarrow> OutOfFuel
                | Suc m \<Rightarrow>
                    find_conflicts m (Some (node (tc_on (node (fd_type_condition (node fragment))))))
                      (node (fd_selection_set (node fragment)))
                      (s\<lparr>fc_visited := insert fname (fc_visited s)\<rparr>))))"

lemma find_conflicts_items: "find_conflicts n t ss = for_each (conflicts_of n t) (items ss)"
  by (subst find_conflicts.simps) (simp add: conflicts_of_def [abs_def])

lemma find_conflicts_step: "find_conflicts n t ss s = Done s' \<Longrightarrow> fc_step s s'"
proof (induction n t ss arbitrary: s s' rule: find_conflicts.induct)
  case (1 n t ss)
  show ?case
  proof (rule for_each_invariant [OF _ _ 1(3) [unfolded find_conflicts_items],
        where P = "fc_step s"])
    fix sel m m'
    assume sel: "sel \<in> set (items ss)" and m: "fc_step s m" and step: "conflicts_of n t sel m = Done m'"
    have "fc_step m m'"
    proof (cases "node sel")
      case (SelField fld)
      then show ?thesis
        using step by (auto simp: conflicts_of_def)
    next
      case (SelInline inl)
      then show ?thesis
        using step 1(2) [OF sel SelInline] by (simp add: conflicts_of_def)
    next
      case (SelSpread spread)
      let ?f = "node (fs_fragment_name (node spread))"
      consider "m' = m"
        | fragment k where "ctx_fragment (fc_ctx m) ?f = Some fragment" "?f \<notin> fc_visited m" "n = Suc k"
            "find_conflicts k (Some (node (tc_on (node (fd_type_condition (node fragment))))))
               (node (fd_selection_set (node fragment)))
               (m\<lparr>fc_visited := insert ?f (fc_visited m)\<rparr>) = Done m'"
        using step SelSpread
        by (auto simp: conflicts_of_def Let_def split: option.splits if_splits nat.splits)
      then show ?thesis
      proof cases
        case 2
        then have "fc_step (m\<lparr>fc_visited := insert ?f (fc_visited m)\<rparr>) m'"
          using 1(1) [OF sel SelSpread refl 2(1,2,3)] by blast
        then show ?thesis
          by (simp add: fc_step_def)
      qed simp
    qed
    then show "fc_step s m'"
      using m fc_step_trans by blast
  qed simp
qed

definition fc_open :: "find_conflicts_state \<Rightarrow> name set" where
  "fc_open s = fst ` set (vc_fragments (fc_ctx s)) - fc_visited s"

lemma fc_step_open: "fc_step s s' \<Longrightarrow> card (fc_open s') \<le> card (fc_open s)"
proof (rule card_mono)
  assume step: "fc_step s s'"
  then have "vc_fragments (fc_ctx s') = vc_fragments (fc_ctx s)"
    by (simp add: fc_step_def reports_fragments)
  then show "fc_open s' \<subseteq> fc_open s"
    using step by (auto simp: fc_open_def fc_step_def)
qed (simp add: fc_open_def)

text \<open>One unit of fuel per fragment of the document is enough: each is entered once.\<close>

lemma find_conflicts_fuel: "card (fc_open s) \<le> n \<Longrightarrow> find_conflicts n t ss s \<noteq> OutOfFuel"
proof (induction n t ss arbitrary: s rule: find_conflicts.induct)
  case (1 n t ss)
  show ?case
    unfolding find_conflicts_items
  proof (rule for_each_fuel [where P = "\<lambda>m. card (fc_open m) \<le> n"])
    fix sel m
    assume sel: "sel \<in> set (items ss)" and m: "card (fc_open m) \<le> n"
    show "conflicts_of n t sel m \<noteq> OutOfFuel"
    proof (cases "node sel")
      case (SelInline inl)
      then show ?thesis
        using 1(2) [OF sel SelInline m] by (simp add: conflicts_of_def)
    next
      case (SelSpread spread)
      let ?f = "node (fs_fragment_name (node spread))"
      let ?m = "m\<lparr>fc_visited := insert ?f (fc_visited m)\<rparr>"
      have less: "card (fc_open ?m) < card (fc_open m)"
        if "ctx_fragment (fc_ctx m) ?f = Some fragment" "?f \<notin> fc_visited m" for fragment
      proof (rule psubset_card_mono)
        have "?f \<in> fc_open m"
          using that by (force simp: fc_open_def ctx_fragment_def dest: map_of_SomeD)
        then show "fc_open ?m \<subset> fc_open m"
          by (auto simp: fc_open_def)
      qed (simp add: fc_open_def)
      show ?thesis
      proof (cases "ctx_fragment (fc_ctx m) ?f")
        case (Some fragment)
        show ?thesis
        proof (cases "?f \<in> fc_visited m")
          case False
          obtain k where k: "n = Suc k"
            using less [OF Some False] m by (cases n) auto
          then have "card (fc_open ?m) \<le> k"
            using less [OF Some False] m by simp
          then show ?thesis
            using 1(1) [OF sel SelSpread refl Some False k] Some False SelSpread k
            by (simp add: conflicts_of_def)
        qed (simp add: conflicts_of_def SelSpread Some)
      qed (simp add: conflicts_of_def SelSpread)
    qed (simp add: conflicts_of_def)
  next
    fix sel m m'
    assume "card (fc_open m) \<le> n" and step: "conflicts_of n t sel m = Done m'"
    have "find_conflicts n t (SelSet [sel]) m = Done m'"
      using step by (simp add: find_conflicts_items seq_def)
    then show "card (fc_open m') \<le> n"
      using find_conflicts_step fc_step_open \<open>card (fc_open m) \<le> n\<close> by (meson le_trans)
  qed (use 1(3) in simp)
qed

lemma reporting_overlapping_fields_can_be_merged: "reporting_rule overlapping_fields_can_be_merged"
proof
  have "card (fc_open \<lparr>fc_outputs = [], fc_visited = {}, fc_ctx = ctx\<rparr>) \<le> length (vc_fragments ctx)"
    for ctx
    using card_length [of "map fst (vc_fragments ctx)"] by (simp add: fc_open_def)
  then show "fuel_free (fire overlapping_fields_can_be_merged e)" for e
    by (cases e) (auto simp: overlapping_fields_can_be_merged_def visitor_nil_def fuel_free_def
        find_conflicts_fuel)
  show "reporting (fire overlapping_fields_can_be_merged e)" for e
    by (cases e) (auto simp: overlapping_fields_can_be_merged_def visitor_nil_def reporting_def
        run_map_def run_bind_Done_iff fc_step_def dest!: find_conflicts_step)
qed

subsection \<open>Rules that search the spreads\<close>

lemma reporting_no_fragment_cycles: "reporting_rule no_fragment_cycles"
proof
  have "detect_all spreads order \<noteq> OutOfFuel" for spreads order
    using detect_all_returns [of spreads order] by auto
  then show "fuel_free (fire no_fragment_cycles e)" for e
    by (cases e) (auto simp: no_fragment_cycles_def visitor_nil_def fuel_free_def on_state_def)
  show "reporting (fire no_fragment_cycles e)" for e
    by (cases e) (auto simp: no_fragment_cycles_def visitor_nil_def reporting_def on_state_def
        run_map_def run_bind_Done_iff)
qed

lemma report_unused_fragments_step [simp]: "reports ctx (report_unused_fragments defs r ctx)"
  unfolding report_unused_fragments_def by (rule reports_fold) (simp split: prod.split)

lemma card_reach_sources:
  "card {f. get_list spreads (ScopeFragment f) \<noteq> []} \<le> length (spreads :: scope_spreads)"
proof -
  have "ScopeFragment ` {f. get_list spreads (ScopeFragment f) \<noteq> []} \<subseteq> {k. get_list spreads k \<noteq> []}"
    by auto
  then have "card (ScopeFragment ` {f. get_list spreads (ScopeFragment f) \<noteq> []}) \<le> length spreads"
    using card_mono [OF finite_get_list [of spreads]] card_get_list [of spreads] by (meson le_trans)
  then show ?thesis
    by (simp add: card_image inj_on_def)
qed

lemma find_reachable_fuel:
  assumes "length spreads < n"
  shows "find_reachable_fragments n spreads (ScopeFragment f) r \<noteq> OutOfFuel"
proof -
  have "card ({f. get_list spreads (ScopeFragment f) \<noteq> []} - r) < n"
    using assms card_reach_sources [of spreads]
      card_mono [OF reach.finite_sources, of "{f. get_list spreads (ScopeFragment f) \<noteq> []} - r" spreads]
    by auto
  from reach.search_fuel [OF this, of f "()"] show ?thesis
    by (simp add: reach_search_def)
qed

lemma find_reachable_operation_fuel:
  "find_reachable_fragments (length spreads + 2) spreads (ScopeOperation on) r \<noteq> OutOfFuel"
proof -
  have "for_each (\<lambda>spread. find_reachable_fragments (Suc (length spreads)) spreads (ScopeFragment spread))
     xs r \<noteq> OutOfFuel" for xs r
    by (rule for_each_fuel [where P = "\<lambda>_. True"]) (simp_all add: find_reachable_fuel)
  then show ?thesis
    by (simp add: find_reachable_fragments.simps(2))
qed

lemma reporting_no_unused_fragments: "reporting_rule no_unused_fragments"
proof
  have "for_each (\<lambda>(opname, _). find_reachable_fragments (length spreads + 2) spreads
      (ScopeOperation opname)) ops r \<noteq> OutOfFuel" for spreads r and ops :: "(name option \<times> 'b) list"
    by (rule for_each_fuel [where P = "\<lambda>_. True"])
      (auto simp: find_reachable_operation_fuel [simplified] split: prod.splits)
  then show "fuel_free (fire no_unused_fragments e)" for e
    by (cases e) (auto simp: no_unused_fragments_def visitor_nil_def fuel_free_def on_state_def
       )
  show "reporting (fire no_unused_fragments e)" for e
    by (cases e) (auto simp: no_unused_fragments_def visitor_nil_def reporting_def on_state_def
        run_map_def run_bind_Done_iff)
qed

lemma report_undefined_step [simp]: "reports ctx (report_undefined opname p vars ctx)"
  unfolding report_undefined_def by (rule reports_fold) (simp split: prod.split)

lemma card_sources_diff:
  "card ({sc. spread_scopes spreads sc \<noteq> []} - vis) < length spreads + 2"
  using card_spread_scopes [of spreads]
    card_mono [OF finite_spread_scopes, of "{sc. spread_scopes spreads sc \<noteq> []} - vis" spreads]
  by auto

lemma reporting_no_undefined_variables: "reporting_rule no_undefined_variables"
proof
  have fuel: "find_undef_vars (length (nud_spreads self) + 2) self defs sc (u, vis) \<noteq> OutOfFuel"
    for self defs sc u vis
    by (rule undef.search_fuel [OF card_sources_diff])
  have "for_each (\<lambda>(opname, (def_pos, def_vars)) ctx.
             run_map (\<lambda>(undef, _). report_undefined opname def_pos undef ctx)
               (find_undef_vars (length (nud_spreads self) + 2) self def_vars (ScopeOperation opname)
                 ([], {}))) defs ctx \<noteq> OutOfFuel" for self defs ctx
    by (rule for_each_fuel [where P = "\<lambda>_. True"])
      (auto split: prod.splits simp: fuel [simplified])
  then show "fuel_free (fire no_undefined_variables e)" for e
    by (cases e) (auto simp: no_undefined_variables_def visitor_nil_def fuel_free_def on_state_def
       )
  have "for_each (\<lambda>(opname, (def_pos, def_vars)) ctx.
             run_map (\<lambda>(undef, _). report_undefined opname def_pos undef ctx)
               (find_undef_vars n self def_vars (ScopeOperation opname)
                 ([], {}))) defs ctx = Done ctx' \<Longrightarrow> reports ctx ctx'" for n self defs ctx ctx'
    by (erule reports_for_each [rotated])
      (auto simp: run_map_def run_bind_Done_iff split: prod.splits)
  then show "reporting (fire no_undefined_variables e)" for e
    by (cases e) (auto simp: no_undefined_variables_def visitor_nil_def reporting_def on_state_def
        run_map_def run_bind_Done_iff)
qed

lemma report_unused_step [simp]: "reports ctx (report_unused opname vars used ctx)"
  unfolding report_unused_def by (rule reports_fold) (simp split: prod.split)

lemma reporting_no_unused_variables: "reporting_rule no_unused_variables"
proof
  have fuel: "find_used_vars (length (nuv_spreads self) + 2) self defs sc (u, vis) \<noteq> OutOfFuel"
    for self defs sc u vis
    by (rule used.search_fuel [OF card_sources_diff])
  have "for_each (\<lambda>(opname, def_vars) ctx.
             run_map (\<lambda>(used, _). report_unused opname def_vars used ctx)
               (find_used_vars (length (nuv_spreads self) + 2) self (fst ` set def_vars)
                 (ScopeOperation opname) ({}, {}))) defs ctx \<noteq> OutOfFuel" for self defs ctx
    by (rule for_each_fuel [where P = "\<lambda>_. True"])
      (auto split: prod.splits simp: fuel [simplified])
  then show "fuel_free (fire no_unused_variables e)" for e
    by (cases e) (auto simp: no_unused_variables_def visitor_nil_def fuel_free_def on_state_def
       )
  have "for_each (\<lambda>(opname, def_vars) ctx.
             run_map (\<lambda>(used, _). report_unused opname def_vars used ctx)
               (find_used_vars n self (fst ` set def_vars)
                 (ScopeOperation opname) ({}, {}))) defs ctx = Done ctx' \<Longrightarrow> reports ctx ctx'"
    for n self defs ctx ctx'
    by (erule reports_for_each [rotated])
      (auto simp: run_map_def run_bind_Done_iff split: prod.splits)
  then show "reporting (fire no_unused_variables e)" for e
    by (cases e) (auto simp: no_unused_variables_def visitor_nil_def reporting_def on_state_def
        run_map_def run_bind_Done_iff)
qed

lemma check_usage_step: "check_usage defs u ctx = Done ctx' \<Longrightarrow> reports ctx ctx'"
  by (auto simp: check_usage_def run_map_def run_bind_Done_iff split: prod.splits option.splits)

lemma collect_incorrect_usages_step:
  "collect_incorrect_usages n self defs sc (ctx, vis) = Done (ctx', vis') \<Longrightarrow> reports ctx ctx'"
proof -
  assume "collect_incorrect_usages n self defs sc (ctx, vis) = Done (ctx', vis')"
  then obtain order where "usages.visits self defs (usages.reaches self sc) (ctx, vis) order (ctx', vis')"
    using usages.search_visits by blast
  then have "for_each (usage_act self defs) order ctx = Done ctx'"
    by (simp add: usages.visits_def)
  then show ?thesis
    by (rule reports_for_each [rotated])
      (auto simp: usage_act_def elim!: reports_for_each [rotated] dest: check_usage_step)
qed

lemma reporting_variable_in_allowed_position: "reporting_rule variable_in_allowed_position"
proof
  have fuel: "collect_incorrect_usages (length (vap_spreads self) + 2) self defs sc (u, vis) \<noteq> OutOfFuel"
    for self defs sc u vis
    by (rule usages.search_fuel [OF card_sources_diff])
  have "for_each (\<lambda>(op_scope, var_defs) ctx.
             run_map fst
               (collect_incorrect_usages (length (vap_spreads self) + 2) self var_defs op_scope (ctx, {})))
           defs ctx \<noteq> OutOfFuel" for self defs ctx
    by (rule for_each_fuel [where P = "\<lambda>_. True"])
      (auto split: prod.splits simp: fuel [simplified])
  then show "fuel_free (fire variable_in_allowed_position e)" for e
    by (cases e) (auto simp: variable_in_allowed_position_def visitor_nil_def fuel_free_def on_state_def
       )
  have "for_each (\<lambda>(op_scope, var_defs) ctx.
             run_map fst (collect_incorrect_usages n self var_defs op_scope (ctx, {})))
           defs ctx = Done ctx' \<Longrightarrow> reports ctx ctx'" for n self defs ctx ctx'
    by (erule reports_for_each [rotated])
      (auto simp: run_map_def run_bind_Done_iff split: prod.splits dest: collect_incorrect_usages_step
       )
  then show "reporting (fire variable_in_allowed_position e)" for e
    by (cases e) (auto simp: variable_in_allowed_position_def visitor_nil_def reporting_def on_state_def
        run_map_def run_bind_Done_iff)
qed

subsection \<open>The calculators\<close>

lemma rule_cache_control_calculate: "rule cache_control_calculate"
proof
  show "framed (fire cache_control_calculate e)" for e
    by (cases e) (auto simp: cache_control_calculate_def visitor_nil_def framed_def)
  show "fuel_free (fire cache_control_calculate e)" for e
    by (cases e) (auto simp: cache_control_calculate_def visitor_nil_def fuel_free_def)
qed

lemma field_depth_cost_no_fuel [no_fuel]: "field_depth_cost ctx fld \<noteq> OutOfFuel"
  by (auto simp: field_depth_cost_def no_fuel split: option.split)

lemma rule_depth_calculate: "rule depth_calculate"
proof
  show "framed (fire depth_calculate e)" for e
    by (cases e) (auto simp: depth_calculate_def visitor_nil_def framed_def Let_def run_map_def
        run_bind_Done_iff)
  show "fuel_free (fire depth_calculate e)" for e
    by (cases e) (auto simp: depth_calculate_def visitor_nil_def fuel_free_def no_fuel)
qed

lemma custom_complexity_no_fuel [no_fuel]: "custom_complexity ctx fld \<noteq> OutOfFuel"
  by (auto simp: custom_complexity_def no_fuel split: option.split meta_type.split)

lemma add_complexity_framed: "framed (add_complexity n)"
  by (auto simp: add_complexity_def framed_def Let_def split: list.splits)

lemma add_complexity_no_fuel [no_fuel]: "add_complexity n st \<noteq> OutOfFuel"
  by (auto simp: add_complexity_def Let_def split: prod.split list.split)

lemma pop_complexity_no_fuel [no_fuel]: "pop_complexity s \<noteq> OutOfFuel"
  by (auto simp: pop_complexity_def split: prod.split list.split)

lemma exit_field_complexity_framed: "framed (exit_field_complexity call fld)"
proof (rule framed_intro)
  fix ctx s ctx' s'
  assume "exit_field_complexity call fld (ctx, s) = Done (ctx', s')"
  then obtain children s1 custom where
    "(case custom of
         Some f \<Rightarrow>
           (case call f ctx (case cx_variable_definition s1 of Some ds \<Rightarrow> ds | None \<Rightarrow> [])
                   (node fld) children of
              Inr n \<Rightarrow> add_complexity n (ctx, s1)
            | Inl err \<Rightarrow> Done (report_error [pos fld] (se_message err) ctx, s1))
       | None \<Rightarrow> add_complexity (1 + children) (ctx, s1)) = Done (ctx', s')"
    unfolding exit_field_complexity_def by (auto simp: run_bind_Done_iff)
  then show "ctx_step ctx ctx'"
    by (cases custom) (auto dest: framed_dest [OF add_complexity_framed] split: sum.splits)
qed

lemma exit_field_complexity_no_fuel [no_fuel]: "exit_field_complexity call fld st \<noteq> OutOfFuel"
  by (auto simp: exit_field_complexity_def run_bind_OutOfFuel_iff no_fuel
      split: prod.split option.split sum.split)

lemma rule_complexity_calculate: "rule (complexity_calculate call)"
proof
  show "framed (fire (complexity_calculate call) e)" for e
    by (cases e) (auto simp: complexity_calculate_def visitor_nil_def run_map_def
        run_bind_Done_iff exit_field_complexity_framed framed_def [of "case_prod _"])
  show "fuel_free (fire (complexity_calculate call) e)" for e
    by (cases e) (auto simp: complexity_calculate_def visitor_nil_def fuel_free_def no_fuel
        run_bind_OutOfFuel_iff on_state_def)
qed

subsection \<open>The composed visitors\<close>

lemmas reporting_rules =
  reporting_arguments_of_correct_type reporting_default_values_of_correct_type
  reporting_fields_on_correct_type reporting_fragments_on_composite_types
  reporting_known_argument_names reporting_no_fragment_cycles reporting_known_fragment_names
  reporting_known_type_names reporting_no_undefined_variables reporting_no_unused_fragments
  reporting_no_unused_variables reporting_unique_argument_names reporting_unique_variable_names
  reporting_variables_are_input_types reporting_variable_in_allowed_position
  reporting_scalar_leafs reporting_possible_fragment_spreads
  reporting_provided_non_null_arguments reporting_known_directives reporting_directives_unique
  reporting_overlapping_fields_can_be_merged reporting_upload_file

lemmas single_rules =
  reporting_rules [THEN reporting_is_rule]
  rule_cache_control_calculate rule_complexity_calculate rule_depth_calculate

interpretation strict: reporting_rule strict_rules
  unfolding strict_rules_def by (intro reporting_rule_cons reporting_rules reporting_rule_nil)

interpretation calculators: rule "calculators call" for call
  unfolding calculators_def by (intro rule_cons single_rules rule_nil)

interpretation fast: rule "fast_visitor call" for call
  unfolding fast_visitor_def by (intro rule_cons single_rules rule_nil)

text \<open>Neither mode recurses without bound on a document within the recursion limit.\<close>

lemma rule_visit_no_fuel:
  assumes "rule v" "check_recursive_depth doc max_depth = Inr ()"
    "vc_fragments (fst st) = doc_fragments doc"
  shows "visit (Suc max_depth) v doc st \<noteq> OutOfFuel"
  using document_rule.visit_no_fuel [of v doc max_depth st] assms
  by (simp add: document_rule_def document_rule_axioms_def)

lemma visit_then:
  assumes "rule v" "visit n v doc (ctx, s) = Done (ctx', s')" "vc_fragments ctx = doc_fragments doc"
  shows "vc_fragments ctx' = doc_fragments doc"
  using rule.visit_step [OF assms(1,2)] assms(3) env_eq_fields(2) [of ctx' ctx]
  by (simp add: ctx_step_def)

lemma run_mode_no_fuel:
  assumes depth: "check_recursive_depth doc max_depth = Inr ()"
    and ctx: "vc_fragments ctx = doc_fragments doc"
  shows "run_mode (Suc max_depth) call mode doc ctx \<noteq> OutOfFuel"
proof (cases mode)
  case Strict
  have "visit (Suc max_depth) strict_rules doc (ctx, strict_init) \<noteq> OutOfFuel"
    using rule_visit_no_fuel [OF strict.rule_axioms depth] ctx by simp
  moreover have "visit (Suc max_depth) (calculators call) doc (ctx', calculators_init) \<noteq> OutOfFuel"
    if "visit (Suc max_depth) strict_rules doc (ctx, strict_init) = Done (ctx', s')" for ctx' s'
    using rule_visit_no_fuel [OF calculators.rule_axioms depth]
      visit_then [OF strict.rule_axioms that ctx] by simp
  ultimately show ?thesis
    by (auto simp: run_mode_def Strict run_bind_OutOfFuel_iff)
next
  case Fast
  then show ?thesis
    using rule_visit_no_fuel [OF fast.rule_axioms depth, of "(ctx, fast_init)"] ctx
    by (simp add: run_mode_def)
qed

lemma check_rules_no_fuel:
  assumes "check_recursive_depth doc max_depth = Inr ()"
  shows "check_rules (Suc max_depth) call reg doc vars opname mode lc ld \<noteq> OutOfFuel"
  using run_mode_no_fuel [OF assms]
  by (simp add: check_rules_def set_limits_def visitor_context_new_def)

lemma check_limits_depth:
  "check_limits doc max_depth md ma = Done (Inr u) \<Longrightarrow> check_recursive_depth doc max_depth = Inr ()"
  by (auto simp: check_limits_def try_seq_def run_bind_Done_iff split: sum.splits)

lemma prepare_request_no_fuel:
  "prepare_request reg call mode max_depth md ma lc ld doc vars opname intro \<noteq> OutOfFuel"
  using check_limits_no_fuel [of doc max_depth md ma] check_rules_no_fuel check_limits_depth
  by (auto simp: prepare_request_def run_bind_OutOfFuel_iff split: sum.splits)

end
