(* ===== verification/Composition.thy ===== *)
theory Composition
  imports Rule_Frames
begin

text \<open>
  The composed visitors of \<open>check_rules\<close>. A document is accepted by a composition exactly when
  each of its parts, run alone, accepts it, with one reservation that is a property of the code:
  \<open>VisitorCons\<close> does not pass on the two input-value hooks, so each part runs as if it did not
  implement them (\<open>mute\<close>).
\<close>

subsection \<open>Visitors without their input-value hooks\<close>

definition mute :: "'s visitor \<Rightarrow> 's visitor" where
  "mute v = v\<lparr>v_enter_input_value := \<lambda>_ _ _. Done, v_exit_input_value := \<lambda>_ _ _. Done\<rparr>"

lemma fire_mute: "fire (mute v) e = (if is_input_event e then Done else fire v e)"
  by (cases e) (simp_all add: mute_def)

lemma v_mode_mute [simp]: "v_mode (mute v) = v_mode v"
  by (simp add: mute_def)

lemma mute_mute [simp]: "mute (mute v) = mute v"
  by (simp add: mute_def)

lemma mute_cons [simp]: "mute (visitor_cons v w) = visitor_cons v w"
  by (simp add: mute_def visitor_cons_def visitor_nil_def)

lemma mute_nil [simp]: "mute visitor_nil = visitor_nil"
  by (simp add: mute_def visitor_nil_def)

lemma rule_mute: "rule v \<Longrightarrow> rule (mute v)"
  by (simp add: rule_def fire_mute)

subsection \<open>Acceptance\<close>

text \<open>A visitor accepts a document when it leaves a context without errors as it was.\<close>

definition accepts ::
  "nat \<Rightarrow> 's visitor \<Rightarrow> 's \<Rightarrow> executable_document \<Rightarrow> visitor_context \<Rightarrow> bool" where
  "accepts n v init doc ctx \<longleftrightarrow> (\<exists>s. visit n v doc (ctx, init) = Done (ctx, s))"

definition clean :: "visitor_context \<Rightarrow> bool" where
  "clean ctx \<longleftrightarrow> vc_errors ctx = [] \<and> \<not> vc_exceeded_limit ctx"

lemma env_clean: "clean ctx \<Longrightarrow> env ctx = ctx"
  by (simp add: clean_def env_def)

lemma ctx_step_clean: "ctx_step c c' \<Longrightarrow> clean c' \<Longrightarrow> c' = c \<and> clean c"
  using env_clean [of c] env_clean [of c'] by (auto simp: ctx_step_def clean_def)

lemma perform_clean:
  assumes "rule v" "perform v e (c, s) = Done (c', s')" "clean c'"
  shows "clean c"
proof (cases e)
  case (Hook h)
  then have "ctx_step c c'"
    using framed_dest [OF rule.framed_fire [OF assms(1)]] assms(2) by simp
  then show ?thesis
    using ctx_step_clean assms(3) by blast
qed (use assms in \<open>auto simp: on_ctx_def clean_def report_error_def\<close>)

lemma performs_clean:
  assumes "rule v"
  shows "for_each (perform v) es (c, s) = Done (c', s') \<Longrightarrow> clean c' \<Longrightarrow> clean c"
proof (induction es arbitrary: c s)
  case (Cons e es)
  then obtain c1 s1 where "perform v e (c, s) = Done (c1, s1)"
    "for_each (perform v) es (c1, s1) = Done (c', s')"
    by (auto simp: seq_def run_bind_Done_iff)
  then show ?case
    using Cons perform_clean [OF assms] by blast
qed simp

lemma fire_clean:
  assumes "rule v" "fire v e (c, s) = Done (c', s')" "clean c'"
  shows "c' = c"
  using framed_dest [OF rule.framed_fire [OF assms(1)] assms(2)] ctx_step_clean assms(3) by blast

text \<open>One event, then a trace: the composition runs both parts on the same context.\<close>

lemma perform_cons:
  assumes "rule v" "rule w" "clean c'"
  shows "perform (visitor_cons v w) e (c, (a, b)) = Done (c', (a', b')) \<longleftrightarrow>
    perform (mute v) e (c, a) = Done (c', a') \<and> perform (mute w) e (c, b) = Done (c', b')"
proof (cases e)
  case (Hook h)
  show ?thesis
  proof
    assume "perform (visitor_cons v w) e (c, (a, b)) = Done (c', (a', b'))"
    moreover {
      assume h: "\<not> is_input_event h"
        and "both (fire v h) (fire w h) (c, (a, b)) = Done (c', (a', b'))"
      then obtain c1 where c1: "fire v h (c, a) = Done (c1, a')" "fire w h (c1, b) = Done (c', b')"
        by (auto simp: both_def on_fst_def on_snd_def seq_def run_map_def run_bind_Done_iff)
      have "c' = c1"
        using fire_clean [OF assms(2) c1(2) assms(3)] .
      moreover have "c1 = c"
        using fire_clean [OF assms(1) c1(1)] assms(3) \<open>c' = c1\<close> by simp
      ultimately have "fire v h (c, a) = Done (c', a') \<and> fire w h (c, b) = Done (c', b')"
        using c1 by simp
    }
    ultimately show "perform (mute v) e (c, a) = Done (c', a') \<and> perform (mute w) e (c, b) = Done (c', b')"
      by (auto simp: Hook fire_cons fire_mute split: if_splits)
  next
    assume "perform (mute v) e (c, a) = Done (c', a') \<and> perform (mute w) e (c, b) = Done (c', b')"
    then show "perform (visitor_cons v w) e (c, (a, b)) = Done (c', (a', b'))"
      using fire_clean [OF assms(1) _ assms(3), of h c a a']
      by (auto simp: Hook fire_cons fire_mute both_def on_fst_def on_snd_def seq_def split: if_splits)
  qed
qed (auto simp: on_ctx_def)

lemma perform_same_context:
  assumes "rule v" "rule w" "clean c1"
    and "perform v e (c, a) = Done (c1, a')" "perform w e (c, b) = Done (c2, b')" "clean c2"
  shows "c2 = c1"
  using assms by (cases e) (auto simp: on_ctx_def dest: fire_clean)

lemma performs_cons:
  assumes "rule v" "rule w" "clean c'"
  shows "for_each (perform (visitor_cons v w)) es (c, (a, b)) = Done (c', (a', b')) \<longleftrightarrow>
    for_each (perform (mute v)) es (c, a) = Done (c', a') \<and>
    for_each (perform (mute w)) es (c, b) = Done (c', b')"
proof (induction es arbitrary: c a b)
  case Nil
  then show ?case by auto
next
  case (Cons e es)
  note rules = rule_cons [OF assms(1,2)] rule_mute [OF assms(1)] rule_mute [OF assms(2)]
  show ?case
  proof
    assume "for_each (perform (visitor_cons v w)) (e # es) (c, (a, b)) = Done (c', (a', b'))"
    then obtain c1 a1 b1 where 1: "perform (visitor_cons v w) e (c, (a, b)) = Done (c1, (a1, b1))"
      "for_each (perform (visitor_cons v w)) es (c1, (a1, b1)) = Done (c', (a', b'))"
      by (auto simp: seq_def run_bind_Done_iff)
    then have "clean c1"
      using performs_clean [OF rules(1)] assms(3) by blast
    then show "for_each (perform (mute v)) (e # es) (c, a) = Done (c', a') \<and>
        for_each (perform (mute w)) (e # es) (c, b) = Done (c', b')"
      using 1 Cons.IH perform_cons [OF assms(1,2)] by (simp add: seq_def)
  next
    assume "for_each (perform (mute v)) (e # es) (c, a) = Done (c', a') \<and>
        for_each (perform (mute w)) (e # es) (c, b) = Done (c', b')"
    then obtain c1 a1 c2 b1 where 1: "perform (mute v) e (c, a) = Done (c1, a1)"
      "for_each (perform (mute v)) es (c1, a1) = Done (c', a')"
      "perform (mute w) e (c, b) = Done (c2, b1)"
      "for_each (perform (mute w)) es (c2, b1) = Done (c', b')"
      by (auto simp: seq_def run_bind_Done_iff)
    then have "clean c1" "clean c2"
      using performs_clean [OF rules(2)] performs_clean [OF rules(3)] assms(3) by blast+
    moreover from this have "c2 = c1"
      using perform_same_context [OF rules(2,3)] 1 by blast
    ultimately have "perform (visitor_cons v w) e (c, (a, b)) = Done (c1, (a1, b1))"
      "for_each (perform (visitor_cons v w)) es (c1, (a1, b1)) = Done (c', (a', b'))"
      using 1 Cons.IH perform_cons [OF assms(1,2)] by blast+
    then show "for_each (perform (visitor_cons v w)) (e # es) (c, (a, b)) = Done (c', (a', b'))"
      by (simp add: seq_def)
  qed
qed

lemma accepts_trace:
  assumes "rule v" "clean ctx"
  shows "accepts n v init doc ctx \<longleftrightarrow>
    (\<exists>es s. trace_document n (v_mode v) doc ctx = Done es \<and>
            for_each (perform v) es (ctx, init) = Done (ctx, s))"
  using rule.visit_performs [OF assms(1)] assms(2) env_clean [OF assms(2)]
  by (auto simp: accepts_def clean_def)

text \<open>A composition accepts what each of its parts accepts.\<close>

theorem accepts_cons:
  assumes "rule v" "rule w" "clean ctx" "v_mode w = v_mode v"
  shows "accepts n (visitor_cons v w) (a, b) doc ctx \<longleftrightarrow>
    accepts n (mute v) a doc ctx \<and> accepts n (mute w) b doc ctx"
  using assms
  by (auto simp: accepts_trace rule_cons rule_mute performs_cons)

end
