(* ===== verification/Scope_Events.thy ===== *)
theory Scope_Events
  imports Composition Cycle_Search
begin

text \<open>
  What the scoped rules hear of a document. They listen to a few events only (operations,
  fragments, variable definitions, arguments, spreads); on a document the traversal accepts, these
  come in an order the document alone decides (\<open>document_events\<close>), so such a rule accepts a
  document exactly when its last hook accepts the state folded from them (\<open>accepts_listener\<close>).
\<close>

subsection \<open>The events in document order\<close>

fun is_scope_event :: "hook_event \<Rightarrow> bool" where
  "is_scope_event (EnterOperation _ _) = True"
| "is_scope_event (EnterFragment _ _) = True"
| "is_scope_event (ExitFragment _ _) = True"
| "is_scope_event (EnterVariable _) = True"
| "is_scope_event (EnterArgument _ _) = True"
| "is_scope_event (EnterSpread _) = True"
| "is_scope_event (ExitDocument _) = True"
| "is_scope_event _ = False"

definition argument_events :: "arguments \<Rightarrow> hook_event list" where
  "argument_events = map (\<lambda>(n, v). EnterArgument n v)"

definition directive_events :: "directive positioned list \<Rightarrow> hook_event list" where
  "directive_events ds = concat (map (\<lambda>d. argument_events (dir_arguments (node d))) ds)"

text \<open>The traversal does not enter a \<open>__typename\<close> field, so neither its arguments nor its
  directives are seen.\<close>

function selection_events :: "selection_set \<Rightarrow> hook_event list" where
  "selection_events ss = concat (map (\<lambda>sel.
     case node sel of
       SelField fld \<Rightarrow>
         if node (f_name (node fld)) = ''__typename'' then []
         else argument_events (f_arguments (node fld)) @ directive_events (f_directives (node fld)) @
           selection_events (node (f_selection_set (node fld)))
     | SelSpread spread \<Rightarrow> EnterSpread spread # directive_events (fs_directives (node spread))
     | SelInline inl \<Rightarrow>
         directive_events (if_directives (node inl)) @
           selection_events (node (if_selection_set (node inl)))) (items ss))"
  by pat_completeness auto
termination
  by (relation "measure size")
    (auto dest!: size_item dest: size_selection_field size_selection_inline
      intro: less_trans size_field_selection_set size_inline_selection_set)

declare selection_events.simps [simp del]

lemma no_exit_directives: "ExitDocument d \<notin> set (directive_events ds)"
  by (auto simp: directive_events_def argument_events_def)

lemma no_exit_selection: "ExitDocument d \<notin> set (selection_events ss)"
proof (induction ss rule: selection_events.induct)
  case (1 ss)
  then show ?case
    using no_exit_directives [of d]
    by (subst selection_events.simps) (auto simp: argument_events_def split: selection.splits)
qed

definition fragment_events :: "fragment_definition \<Rightarrow> hook_event list" where
  "fragment_events fd = directive_events (fd_directives fd) @ selection_events (node (fd_selection_set fd))"

definition operation_events :: "operation_definition \<Rightarrow> hook_event list" where
  "operation_events od = directive_events (od_directives od) @ selection_events (node (od_selection_set od))"

definition document_events :: "executable_document \<Rightarrow> hook_event list" where
  "document_events doc =
     concat (map (\<lambda>(n, fd). EnterFragment n fd # fragment_events (node fd) @ [ExitFragment n fd])
       (doc_fragments doc)) @
     concat (map (\<lambda>(n, od). EnterOperation n od #
         map EnterVariable (od_variable_definitions (node od)) @ operation_events (node od))
       (operations_iter (doc_operations doc)))"

lemma no_exit_document: "ExitDocument d \<notin> set (document_events doc)"
  using no_exit_directives [of d] no_exit_selection [of d]
  by (auto simp: document_events_def fragment_events_def operation_events_def)

subsection \<open>The trace yields them\<close>

definition scope_hooks :: "event list \<Rightarrow> hook_event list" where
  "scope_hooks es = concat (map (\<lambda>e. case e of Hook h \<Rightarrow> if is_scope_event h then [h] else [] | _ \<Rightarrow> []) es)"

lemma scope_hooks_simps [simp]:
  "scope_hooks [] = []"
  "scope_hooks (Hook h # es) = (if is_scope_event h then h # scope_hooks es else scope_hooks es)"
  "scope_hooks (PushType ty # es) = scope_hooks es"
  "scope_hooks (PopType # es) = scope_hooks es"
  "scope_hooks (PushInput ity # es) = scope_hooks es"
  "scope_hooks (PopInput # es) = scope_hooks es"
  "scope_hooks (OwnError p msg # es) = scope_hooks es"
  "scope_hooks (es @ es') = scope_hooks es @ scope_hooks es'"
  by (simp_all add: scope_hooks_def)

lemma scope_hooks_member: "Hook h \<in> set es \<Longrightarrow> is_scope_event h \<Longrightarrow> h \<in> set (scope_hooks es)"
  by (force simp: scope_hooks_def)

definition yields :: "trace \<Rightarrow> hook_event list \<Rightarrow> bool" where
  "yields t hs \<longleftrightarrow> (\<forall>es. t = Done es \<longrightarrow> scope_hooks es = hs)"

named_theorems yield_rules \<open>what a trace yields\<close>

lemma yields_Done [yield_rules]: "yields (Done []) []"
  by (simp add: yields_def)

lemma yields_bad [yield_rules]: "yields Panicked hs" "yields OutOfFuel hs"
  by (simp_all add: yields_def)

lemma yields_error [yield_rules]: "yields (Done [OwnError p msg]) []"
  by (simp add: yields_def)

lemma yields_cat: "yields a xs \<Longrightarrow> yields b ys \<Longrightarrow> zs = xs @ ys \<Longrightarrow> yields (cat a b) zs"
  by (auto simp: yields_def cat_def run_map_def run_bind_Done_iff)

lemma yields_hook: "yields (hook h) (if is_scope_event h then [h] else [])"
  by (simp add: yields_def hook_def)

lemma yields_bind: "(\<And>x. r = Done x \<Longrightarrow> yields (f x) hs) \<Longrightarrow> yields (run_bind r f) hs"
  by (auto simp: yields_def run_bind_Done_iff)

lemma yields_typed: "yields (t (push_type ty c)) hs \<Longrightarrow> yields (typed ty t c) hs"
  by (auto simp: yields_def typed_def bracket_def run_map_def run_bind_Done_iff)

lemma yields_input_typed: "yields (t (push_input_type ty c)) hs \<Longrightarrow> yields (input_typed ty t c) hs"
  by (auto simp: yields_def input_typed_def bracket_def run_map_def run_bind_Done_iff)

lemma yields_each:
  "(\<And>x. x \<in> set xs \<Longrightarrow> yields (f x) (g x)) \<Longrightarrow> yields (cat_each f xs) (concat (map g xs))"
  by (induction xs) (auto intro: yields_cat yields_Done)

lemma yields_skip: "yields a [] \<Longrightarrow> yields b hs \<Longrightarrow> yields (cat a b) hs"
  by (erule yields_cat) simp_all

lemma yields_last: "yields a hs \<Longrightarrow> yields b [] \<Longrightarrow> yields (cat a b) hs"
  by (erule yields_cat) simp_all

lemma yields_silent: "\<not> is_scope_event h \<Longrightarrow> yields (hook h) []"
  by (simp add: yields_def hook_def)

lemma yields_event: "is_scope_event h \<Longrightarrow> yields (hook h) [h]"
  by (simp add: yields_def hook_def)

lemma yields_heard: "is_scope_event h \<Longrightarrow> yields b hs \<Longrightarrow> yields (cat (hook h) b) (h # hs)"
  using yields_cat [OF yields_event] by simp

lemma yields_before: "\<not> is_scope_event h \<Longrightarrow> yields b hs \<Longrightarrow> yields (cat (hook h) b) hs"
  by (intro yields_skip yields_silent)

lemma yields_after: "\<not> is_scope_event h \<Longrightarrow> yields a hs \<Longrightarrow> yields (cat a (hook h)) hs"
  by (intro yields_last yields_silent)

lemma yields_input:
  "yields (trace_input_value p ty x c) []"
  "yields (trace_input_list p e xs c) []"
  "yields (trace_input_fields p fs m c) []"
proof (induction p ty x c and p e xs c and p fs m c
    rule: trace_input_value_trace_input_list_trace_input_fields.induct)
  case (1 p ty x c)
  show ?case
    unfolding trace_input_value.simps
    by (intro yields_skip yields_silent)
      (auto intro!: yields_bind yields_Done 1 split: gvalue.split option.split meta_type_name.split meta_type.split)
qed (auto intro!: yields_skip yields_bind yields_Done split: option.split)

lemma yields_arguments: "yields (trace_arguments p schema_arg args c) (argument_events args)"
proof -
  have "yields (trace_arguments p schema_arg args c)
    (concat (map (\<lambda>(n, v). [EnterArgument n v]) args))"
    unfolding trace_arguments_def
    by (intro yields_each)
      (auto intro!: yields_heard yields_after yields_bind yields_input_typed yields_input)
  also have "concat (map (\<lambda>(n, v). [EnterArgument n v]) args) = argument_events args"
    by (induction args) (auto simp: argument_events_def)
  finally show ?thesis .
qed

lemma yields_directives: "yields (trace_directives ds c) (directive_events ds)"
  unfolding trace_directives_def directive_events_def
  by (intro yields_each yields_before yields_after yields_arguments) simp_all

lemma yields_variables:
  "yields (trace_variable_definitions ds) (map EnterVariable ds)"
proof -
  have "yields (trace_variable_definitions ds) (concat (map (\<lambda>d. [EnterVariable d]) ds))"
    unfolding trace_variable_definitions_def
    by (intro yields_each yields_heard yields_silent) simp_all
  then show ?thesis by (simp add: map_concat [symmetric] concat_map_singleton)
qed

text \<open>Only in the mode that does not enter the fragments from their spreads.\<close>

lemma yields_selections:
  "mode = Normal \<Longrightarrow> yields (trace_selection_set n mode ss c) (selection_events (node ss))"
  "mode = Normal \<Longrightarrow> yields (trace_selection n mode sel c)
     (selection_events (SelSet [sel]))"
  "mode = Normal \<Longrightarrow> yields (trace_field n mode fld c)
     (argument_events (f_arguments (node fld)) @ directive_events (f_directives (node fld)) @
      selection_events (node (f_selection_set (node fld))))"
  "mode = Normal \<Longrightarrow> yields (trace_fragment_spread n mode spread c)
     (EnterSpread spread # directive_events (fs_directives (node spread)))"
  "mode = Normal \<Longrightarrow> yields (trace_inline_fragment n mode inl c)
     (directive_events (if_directives (node inl)) @ selection_events (node (if_selection_set (node inl))))"
proof (induction n mode ss c and n mode sel c and n mode fld c and n mode spread c and n mode inl c
    rule: trace_selection_set_trace_selection_trace_field_trace_fragment_spread_trace_inline_fragment.induct)
  case (1 n mode ss c)
  have "selection_events (node ss) = concat (map (\<lambda>s. selection_events (SelSet [s])) (items (node ss)))"
    by (simp add: selection_events.simps [of "node ss"] selection_events.simps [of "SelSet [s]" for s])
  then show ?case
    unfolding trace_selection_set.simps using 1
    by (auto intro!: yields_before yields_after yields_each yields_Done)
next
  case (2 n mode sel c)
  then show ?case
    unfolding trace_selection.simps
    by (intro yields_before yields_after)
      (auto simp: selection_events.simps [of "SelSet [sel]"]
        intro!: yields_bind yields_typed yields_Done yields_error split: selection.split option.split)
next
  case (3 n mode fld c)
  then show ?case
    unfolding trace_field.simps
    by (intro yields_before yields_cat [OF yields_arguments yields_cat [OF yields_directives yields_after]])
      simp_all
next
  case (4 n mode spread c)
  then show ?case
    unfolding trace_fragment_spread.simps
    by (intro yields_heard yields_cat [OF yields_directives yields_after]) (auto intro: yields_Done)
next
  case (5 n mode inl c)
  then show ?case
    unfolding trace_inline_fragment.simps
    by (intro yields_before yields_cat [OF yields_directives yields_after]) simp_all
qed

subsection \<open>Rules that listen\<close>

text \<open>
  A trace without errors of the traversal is the scope events, then the last hook. An error of the
  traversal itself is one that even the empty visitor reports.
\<close>

lemma yields_fragment:
  "yields (trace_fragment_definition n Normal fname fragment c)
     (EnterFragment fname fragment # fragment_events (node fragment) @ [ExitFragment fname fragment])"
  unfolding trace_fragment_definition_def fragment_events_def if_P [OF refl]
  by (intro yields_heard yields_cat [OF yields_directives yields_cat [OF yields_selections(1) yields_event]])
    simp_all

definition own_errors :: "event list \<Rightarrow> bool" where
  "own_errors es \<longleftrightarrow> (\<exists>p msg. OwnError p msg \<in> set es)"

lemma own_errors_append [simp]: "own_errors (es @ es') \<longleftrightarrow> own_errors es \<or> own_errors es'"
  by (auto simp: own_errors_def)

definition yields_clean :: "trace \<Rightarrow> hook_event list \<Rightarrow> bool" where
  "yields_clean t hs \<longleftrightarrow> (\<forall>es. t = Done es \<and> \<not> own_errors es \<longrightarrow> scope_hooks es = hs)"

lemma yields_clean: "yields t hs \<Longrightarrow> yields_clean t hs"
  by (simp add: yields_def yields_clean_def)

lemma yields_clean_cat:
  "yields_clean a xs \<Longrightarrow> yields_clean b ys \<Longrightarrow> zs = xs @ ys \<Longrightarrow> yields_clean (cat a b) zs"
  by (auto simp: yields_clean_def cat_def run_map_def run_bind_Done_iff)

lemma yields_clean_each:
  "(\<And>x. x \<in> set xs \<Longrightarrow> yields_clean (f x) (g x)) \<Longrightarrow> yields_clean (cat_each f xs) (concat (map g xs))"
  by (induction xs) (auto intro: yields_clean_cat yields_clean [OF yields_Done])

lemma yields_operation:
  "yields_clean (trace_operation_definition n Normal opname op c)
     (EnterOperation opname op # map EnterVariable (od_variable_definitions (node op)) @
      operation_events (node op))"
proof -
  have "yields (typed (Some ty) (\<lambda>c.
        cat (trace_variable_definitions (od_variable_definitions (node op))) (cat
          (trace_directives (od_directives (node op)) c)
          (trace_selection_set n Normal (od_selection_set (node op)) c))) c)
      (map EnterVariable (od_variable_definitions (node op)) @ operation_events (node op))" for ty
    unfolding operation_events_def
    by (intro yields_typed
        yields_cat [OF yields_variables yields_cat [OF yields_directives yields_selections(1)]]) simp_all
  then have root: "yields_clean (case root_name (vc_registry c) (od_ty (node op)) of
          Some rn \<Rightarrow>
            (case type_named rn c of
               Some ty \<Rightarrow>
                 typed (Some ty) (\<lambda>c.
                   cat (trace_variable_definitions (od_variable_definitions (node op))) (cat
                     (trace_directives (od_directives (node op)) c)
                     (trace_selection_set n Normal (od_selection_set (node op)) c))) c
             | None \<Rightarrow> Panicked)
        | None \<Rightarrow>
            Done [OwnError (pos op)
              (''Schema is not configured for '' @ show_operation_type (od_ty (node op)) @ ''s.'')])
      (map EnterVariable (od_variable_definitions (node op)) @ operation_events (node op))"
    by (auto simp: yields_clean_def yields_def own_errors_def split: option.split)
  show ?thesis
    unfolding trace_operation_definition_def
    by (rule yields_clean_cat [OF yields_clean [OF yields_event]
          yields_clean_cat [OF root yields_clean [OF yields_silent]]]) simp_all
qed

lemma trace_document_events:
  assumes "trace_document n Normal doc c = Done es" "\<not> own_errors es"
  shows "\<exists>es'. es = es' @ [Hook (ExitDocument doc)] \<and> scope_hooks es' = document_events doc"
proof -
  let ?a = "cat_each (\<lambda>(fname, fragment).
      typed (type_named (node (tc_on (node (fd_type_condition (node fragment))))) c)
        (trace_fragment_definition n Normal fname fragment) c) (doc_fragments doc)"
  let ?b = "cat_each (\<lambda>(opname, op). trace_operation_definition n Normal opname op c)
      (operations_iter (doc_operations doc))"
  obtain xs ys where es: "?a = Done xs" "?b = Done ys"
    "es = Hook (EnterDocument doc) # (xs @ ys) @ [Hook (ExitDocument doc)]"
    using assms(1) by (auto simp: trace_document_def cat_def hook_def run_map_def run_bind_Done_iff)
  have "yields_clean ?a (concat (map (\<lambda>(n, fd).
      EnterFragment n fd # fragment_events (node fd) @ [ExitFragment n fd]) (doc_fragments doc)))"
    by (intro yields_clean_each) (auto intro!: yields_clean yields_typed yields_fragment)
  moreover have "yields_clean ?b (concat (map (\<lambda>(n, od).
      EnterOperation n od # map EnterVariable (od_variable_definitions (node od)) @
      operation_events (node od)) (operations_iter (doc_operations doc))))"
    by (intro yields_clean_each) (auto intro: yields_operation)
  ultimately have "scope_hooks (Hook (EnterDocument doc) # xs @ ys) = document_events doc"
    using es assms(2) by (simp add: yields_clean_def own_errors_def document_events_def)
  then show ?thesis
    using es(3) by (metis append_Cons)
qed

lemma performs_no_errors:
  assumes "rule v"
  shows "for_each (perform v) es (c, s) = Done (c', s') \<Longrightarrow> clean c' \<Longrightarrow> \<not> own_errors es"
proof (induction es arbitrary: c s)
  case (Cons e es)
  then obtain c1 s1 where c1: "perform v e (c, s) = Done (c1, s1)"
    "for_each (perform v) es (c1, s1) = Done (c', s')"
    by (auto simp: seq_def run_bind_Done_iff)
  then have "clean c1"
    using performs_clean [OF assms c1(2) Cons.prems(2)] by simp
  then show ?case
    using c1 Cons by (cases e) (auto simp: own_errors_def on_ctx_def clean_def report_error_def)
qed (simp add: own_errors_def)

text \<open>
  The document is well rooted for the traversal: no operation of an unconfigured type, no
  \<open>__typename\<close> on a subscription, no type expression the traversal panics on. It is what the
  empty visitor accepts.
\<close>

definition traversable :: "nat \<Rightarrow> executable_document \<Rightarrow> visitor_context \<Rightarrow> bool" where
  "traversable n doc ctx \<longleftrightarrow> accepts n (visitor_nil :: unit visitor) () doc ctx"

lemma traversable_iff:
  assumes "clean ctx"
  shows "traversable n doc ctx \<longleftrightarrow>
    (\<exists>es. trace_document n Normal doc ctx = Done es \<and>
          for_each (perform (visitor_nil :: unit visitor)) es (ctx, ()) = Done (ctx, ()))"
  unfolding traversable_def accepts_trace [OF rule_nil assms] by simp

lemma performs_as_nil:
  assumes "rule v"
  shows "for_each (perform v) es (c, s) = Done (c', s') \<Longrightarrow> clean c' \<Longrightarrow>
    for_each (perform (visitor_nil :: unit visitor)) es (c, ()) = Done (c', ())"
proof (induction es arbitrary: c s)
  case (Cons e es)
  then obtain c1 s1 where c1: "perform v e (c, s) = Done (c1, s1)"
    "for_each (perform v) es (c1, s1) = Done (c', s')"
    by (auto simp: seq_def run_bind_Done_iff)
  then have "clean c1"
    using performs_clean [OF assms c1(2) Cons.prems(2)] by simp
  then have "perform (visitor_nil :: unit visitor) e (c, ()) = Done (c1, ())"
    using c1(1) fire_clean [OF assms, of _ c s c1 s1] by (cases e) (auto simp: on_ctx_def)
  then show ?case
    using c1 Cons by (simp add: seq_def)
qed simp

text \<open>A document any rule accepts is one the traversal accepts.\<close>

lemma accepts_traversable:
  assumes "rule v" "v_mode v = Normal" "clean ctx" "accepts n v init doc ctx"
  shows "traversable n doc ctx"
  using assms(4) performs_as_nil [OF assms(1) _ assms(3)]
  by (auto simp: accepts_trace [OF assms(1,3)] traversable_iff [OF assms(3)] assms(2))

locale listening_rule = rule v for v :: "'s visitor" +
  fixes hear :: "hook_event \<Rightarrow> 's \<Rightarrow> 's"
  assumes listens: "v_mode v = Normal"
    and hears: "(\<forall>d. e \<noteq> ExitDocument d) \<Longrightarrow>
      fire v e = (if is_scope_event e then on_state (hear e) else Done)"
begin

lemma performs_hear:
  assumes "\<And>d. Hook (ExitDocument d) \<notin> set es"
  shows "for_each (perform v) es (c, s) = Done (c', s') \<longleftrightarrow>
    for_each (perform visitor_nil) es (c, ()) = Done (c', ()) \<and> s' = fold hear (scope_hooks es) s"
  using assms
proof (induction es arbitrary: c s)
  case (Cons e es)
  have "perform v e (c, s) = run_map (\<lambda>(c1, _).
      (c1, case e of Hook h \<Rightarrow> if is_scope_event h then hear h s else s | _ \<Rightarrow> s))
    (perform visitor_nil e (c, ()))"
  proof (cases e)
    case (Hook h)
    then have "fire v h = (if is_scope_event h then on_state (hear h) else Done)"
      using Cons.prems by (intro hears) auto
    then show ?thesis
      by (simp add: Hook on_state_def)
  qed (simp_all add: on_ctx_def)
  moreover obtain c1 where "perform visitor_nil e (c, ()) = Done (c1, ())"
    by (cases e) (auto simp: on_ctx_def)
  ultimately show ?case
    using Cons by (cases e) (auto simp: seq_def)
qed auto

text \<open>The last hook decides, on the state the events of the document leave.\<close>

theorem accepts_listener:
  assumes "clean ctx"
  shows "accepts n v init doc ctx \<longleftrightarrow>
    traversable n doc ctx \<and>
    (\<exists>s. v_exit_document v doc (ctx, fold hear (document_events doc) init) = Done (ctx, s))"
proof -
  let ?doc_state = "fold hear (document_events doc) init"
  have split: "\<exists>es'. es = es' @ [Hook (ExitDocument doc)] \<and> scope_hooks es' = document_events doc \<and>
      (\<forall>d. Hook (ExitDocument d) \<notin> set es')"
    if tr: "trace_document n Normal doc ctx = Done es" and ok: "\<not> own_errors es" for es
  proof -
    obtain es' where "es = es' @ [Hook (ExitDocument doc)]" "scope_hooks es' = document_events doc"
      using trace_document_events [OF tr ok] by blast
    moreover from this have "Hook (ExitDocument d) \<notin> set es'" for d
      using no_exit_document [of d doc] scope_hooks_member [of "ExitDocument d" es'] by auto
    ultimately show ?thesis by blast
  qed
  show ?thesis
  proof
    assume "accepts n v init doc ctx"
    then obtain es s where es: "trace_document n Normal doc ctx = Done es"
      "for_each (perform v) es (ctx, init) = Done (ctx, s)"
      using accepts_trace [OF rule_axioms assms] listens by auto
    then obtain es' where es': "es = es' @ [Hook (ExitDocument doc)]"
      "scope_hooks es' = document_events doc" "\<forall>d. Hook (ExitDocument d) \<notin> set es'"
      using split [OF es(1) performs_no_errors [OF rule_axioms es(2) assms]] by blast
    obtain c1 s1 where c1: "for_each (perform v) es' (ctx, init) = Done (c1, s1)"
      "fire v (ExitDocument doc) (c1, s1) = Done (ctx, s)"
      using es(2) es'(1) by (auto simp: for_each_append seq_def run_bind_Done_iff)
    have "c1 = ctx"
      using fire_clean [OF rule_axioms c1(2) assms] by simp
    then have "for_each (perform visitor_nil) es' (ctx, ()) = Done (ctx, ())" "s1 = ?doc_state"
      using performs_hear [of es'] c1(1) es' by auto
    then have "for_each (perform visitor_nil) es (ctx, ()) = Done (ctx, ())"
      using es'(1)
      by (simp add: for_each_append seq_def fire_nil [of "ExitDocument doc", unfolded fire.simps])
    then have "traversable n doc ctx"
      using es(1) by (auto simp: traversable_iff [OF assms])
    then show "traversable n doc ctx \<and> (\<exists>s. v_exit_document v doc (ctx, ?doc_state) = Done (ctx, s))"
      using c1(2) \<open>c1 = ctx\<close> \<open>s1 = ?doc_state\<close> by auto
  next
    assume "traversable n doc ctx \<and> (\<exists>s. v_exit_document v doc (ctx, ?doc_state) = Done (ctx, s))"
    then obtain es s where es: "trace_document n Normal doc ctx = Done es"
      "for_each (perform visitor_nil) es (ctx, ()) = Done (ctx, ())"
      "v_exit_document v doc (ctx, ?doc_state) = Done (ctx, s)"
      by (auto simp: traversable_iff [OF assms])
    then obtain es' where es': "es = es' @ [Hook (ExitDocument doc)]"
      "scope_hooks es' = document_events doc" "\<forall>d. Hook (ExitDocument d) \<notin> set es'"
      using split [OF es(1) performs_no_errors [OF rule_nil es(2) assms]] by blast
    then have "for_each (perform visitor_nil) es' (ctx, ()) = Done (ctx, ())"
      using es(2) by (simp add: for_each_append fire_nil [of "ExitDocument doc", unfolded fire.simps])
    then have "for_each (perform v) es' (ctx, init) = Done (ctx, ?doc_state)"
      using performs_hear [of es'] es' by simp
    then have "for_each (perform v) es (ctx, init) = Done (ctx, s)"
      using es'(1) es(3) by (simp add: for_each_append seq_def)
    then show "accepts n v init doc ctx"
      using accepts_trace [OF rule_axioms assms] listens es(1) by auto
  qed
qed

end

end
