(* ===== verification/Scope_Collect.thy ===== *)
theory Scope_Collect
  imports Scope_Events
begin

text \<open>
  What the scoped rules know when the document is left. The four of them build the same two tables
  in their own way (the fragments spread in each scope, the variables used in each scope); the
  locales state what such a table is and compute it from the document.
\<close>

subsection \<open>The scopes of a document\<close>

fun event_spreads :: "hook_event \<Rightarrow> name set" where
  "event_spreads (EnterSpread s) = {node (fs_fragment_name (node s))}"
| "event_spreads _ = {}"

fun event_variables :: "hook_event \<Rightarrow> name set" where
  "event_variables (EnterArgument _ x) = set (referenced_variables (node x))"
| "event_variables _ = {}"

definition scope_bodies :: "executable_document \<Rightarrow> (scope \<times> hook_event list) list" where
  "scope_bodies doc =
     map (\<lambda>(n, fd). (ScopeFragment n, fragment_events (node fd))) (doc_fragments doc) @
     map (\<lambda>(n, od). (ScopeOperation n, operation_events (node od)))
       (operations_iter (doc_operations doc))"

text \<open>What the events of a scope contain: the fragments it spreads, the variables it uses.\<close>

definition scope_contents ::
  "(hook_event \<Rightarrow> 'x set) \<Rightarrow> executable_document \<Rightarrow> scope \<Rightarrow> 'x set" where
  "scope_contents content doc sc =
     (\<Union>(sc', hs)\<in>set (scope_bodies doc). if sc' = sc then \<Union> (content ` set hs) else {})"

abbreviation "scope_spreads_of \<equiv> scope_contents event_spreads"
abbreviation "scope_variables_of \<equiv> scope_contents event_variables"

definition operation_variables :: "operation_definition \<Rightarrow> name set" where
  "operation_variables od = (\<lambda>d. node (vd_name (node d))) ` set (od_variable_definitions od)"

definition scope_reaches :: "executable_document \<Rightarrow> scope \<Rightarrow> scope \<Rightarrow> bool" where
  "scope_reaches doc = (\<lambda>a b. b \<in> ScopeFragment ` scope_spreads_of doc a)\<^sup>*\<^sup>*"

subsection \<open>The bodies of the scopes\<close>

fun is_body_event :: "hook_event \<Rightarrow> bool" where
  "is_body_event (EnterArgument _ _) = True"
| "is_body_event (EnterSpread _) = True"
| "is_body_event _ = False"

lemma body_directives: "\<forall>e\<in>set (directive_events ds). is_body_event e"
  by (auto simp: directive_events_def argument_events_def)

lemma body_selection: "\<forall>e\<in>set (selection_events ss). is_body_event e"
proof (induction ss rule: selection_events.induct)
  case (1 ss)
  then show ?case
    using body_directives
    by (subst selection_events.simps) (auto simp: argument_events_def split: selection.splits if_splits)
qed

lemma body_scope: "(sc, hs) \<in> set (scope_bodies doc) \<Longrightarrow> \<forall>e\<in>set hs. is_body_event e"
  using body_directives body_selection
  by (fastforce simp: scope_bodies_def fragment_events_def operation_events_def)

lemma scope_contents_iff:
  "x \<in> scope_contents content doc sc \<longleftrightarrow>
     (\<exists>hs. (sc, hs) \<in> set (scope_bodies doc) \<and> (\<exists>e\<in>set hs. x \<in> content e))"
  unfolding scope_contents_def by (auto simp: Bex_def split: if_splits)

lemma scope_bodies_iff:
  "(ScopeFragment f, hs) \<in> set (scope_bodies doc) \<longleftrightarrow>
     (\<exists>fd. (f, fd) \<in> set (doc_fragments doc) \<and> hs = fragment_events (node fd))"
  "(ScopeOperation opname, hs) \<in> set (scope_bodies doc) \<longleftrightarrow>
     (\<exists>od. (opname, od) \<in> set (operations_iter (doc_operations doc)) \<and> hs = operation_events (node od))"
  by (auto simp: scope_bodies_def)

text \<open>The document is one block of events per scope.\<close>

definition opens :: "scope \<Rightarrow> hook_event list \<Rightarrow> bool" where
  "opens sc hs \<longleftrightarrow>
     (case sc of
        ScopeFragment n \<Rightarrow> \<exists>fd. hs = [EnterFragment n fd]
      | ScopeOperation n \<Rightarrow> \<exists>od. hs = EnterOperation n od # map EnterVariable (od_variable_definitions (node od)))"

definition closes :: "hook_event list \<Rightarrow> bool" where
  "closes hs \<longleftrightarrow> hs = [] \<or> (\<exists>n fd. hs = [ExitFragment n fd])"

inductive blocks :: "(scope \<times> hook_event list) list \<Rightarrow> hook_event list \<Rightarrow> bool" where
  none: "blocks [] []"
| block: "opens sc xs \<Longrightarrow> \<forall>e\<in>set hs. is_body_event e \<Longrightarrow> closes ys \<Longrightarrow> blocks bs zs \<Longrightarrow>
    blocks ((sc, hs) # bs) (xs @ hs @ ys @ zs)"

lemma blocks_append: "blocks as xs \<Longrightarrow> blocks bs ys \<Longrightarrow> blocks (as @ bs) (xs @ ys)"
  by (induction rule: blocks.induct) (auto intro: blocks.intros)

lemma fragment_blocks:
  "blocks (map (\<lambda>(n, fd). (ScopeFragment n, fragment_events (node fd))) fs)
     (concat (map (\<lambda>(n, fd). EnterFragment n fd # fragment_events (node fd) @ [ExitFragment n fd]) fs))"
proof (induction fs)
  case (Cons f fs)
  obtain n fd where f: "f = (n, fd)" by (cases f)
  show ?case
    using blocks.block [OF _ _ _ Cons.IH, of "ScopeFragment n" "[EnterFragment n fd]"
        "fragment_events (node fd)" "[ExitFragment n fd]"] body_directives body_selection
    by (auto simp: f opens_def closes_def fragment_events_def)
qed (simp add: blocks.none)

lemma operation_blocks:
  "blocks (map (\<lambda>(n, od). (ScopeOperation n, operation_events (node od))) ops)
     (concat (map (\<lambda>(n, od). EnterOperation n od #
         map EnterVariable (od_variable_definitions (node od)) @ operation_events (node od)) ops))"
proof (induction ops)
  case (Cons p ops)
  obtain n od where p: "p = (n, od)" by (cases p)
  show ?case
    using blocks.block [OF _ _ _ Cons.IH, of "ScopeOperation n"
        "EnterOperation n od # map EnterVariable (od_variable_definitions (node od))"
        "operation_events (node od)" "[]"] body_directives body_selection
    by (auto simp: p opens_def closes_def operation_events_def)
qed (simp add: blocks.none)

lemma document_blocks: "blocks (scope_bodies doc) (document_events doc)"
  unfolding scope_bodies_def document_events_def
  by (intro blocks_append fragment_blocks operation_blocks)

subsection \<open>Tables by scope\<close>

locale scope_tracker = listening_rule v hear for v :: "'s visitor" and hear +
  fixes current :: "'s \<Rightarrow> scope option"
  assumes current_hear: "current (hear e s) =
      (case e of EnterOperation n _ \<Rightarrow> Some (ScopeOperation n)
       | EnterFragment n _ \<Rightarrow> Some (ScopeFragment n) | _ \<Rightarrow> current s)"
begin

lemma current_body: "\<forall>e\<in>set hs. is_body_event e \<Longrightarrow> current (fold hear hs s) = current s"
proof (induction hs arbitrary: s)
  case (Cons e hs)
  then show ?case
    by (cases e) (simp_all add: current_hear)
qed simp

lemma current_variables: "current (fold hear (map EnterVariable ds) s) = current s"
  by (induction ds arbitrary: s) (simp_all add: current_hear)

lemma current_opens: "opens sc xs \<Longrightarrow> current (fold hear xs s) = Some sc"
  by (auto simp: opens_def current_hear current_variables split: scope.splits)

end

locale scope_table = scope_tracker v hear current for v :: "'s visitor" and hear current +
  fixes tab :: "'s \<Rightarrow> scope \<Rightarrow> 'x set" and content :: "hook_event \<Rightarrow> 'x set"
  assumes tab_hear: "tab (hear e s) sc = tab s sc \<union> (if current s = Some sc then content e else {})"
    and content_body: "\<not> is_body_event e \<Longrightarrow> content e = {}"
begin

lemma tab_body:
  "\<forall>e\<in>set hs. is_body_event e \<Longrightarrow> tab (fold hear hs s) sc =
     tab s sc \<union> (if current s = Some sc then \<Union> (content ` set hs) else {})"
proof (induction hs arbitrary: s)
  case (Cons e hs)
  have "current (hear e s) = current s"
    using Cons.prems by (cases e) (simp_all add: current_hear)
  then show ?case
    using Cons by (auto simp: tab_hear)
qed simp

lemma tab_silent: "\<forall>e\<in>set hs. \<not> is_body_event e \<Longrightarrow> tab (fold hear hs s) sc = tab s sc"
  by (induction hs arbitrary: s) (simp_all add: tab_hear content_body)

lemma opens_silent: "opens sc xs \<Longrightarrow> \<forall>e\<in>set xs. \<not> is_body_event e"
  by (auto simp: opens_def split: scope.splits)

lemma closes_silent: "closes xs \<Longrightarrow> \<forall>e\<in>set xs. \<not> is_body_event e"
  by (auto simp: closes_def)

lemma tab_blocks:
  "blocks bs es \<Longrightarrow> tab (fold hear es s) sc = tab s sc \<union>
     (\<Union>(sc', hs)\<in>set bs. if sc' = sc then \<Union> (content ` set hs) else {})"
proof (induction arbitrary: s rule: blocks.induct)
  case (block sc' xs hs ys bs zs)
  then show ?case
    using tab_silent [OF opens_silent [OF block(1)]] tab_silent [OF closes_silent [OF block(3)]]
    by (simp add: tab_body current_opens Un_assoc Un_ac)
qed simp

text \<open>The table the document leaves.\<close>

lemma tab_document:
  "tab (fold hear (document_events doc) s) sc = tab s sc \<union> scope_contents content doc sc"
  using tab_blocks [OF document_blocks] by (simp add: scope_contents_def)

end

subsection \<open>The variables operations define\<close>

locale definition_collector = scope_tracker v hear current for v :: "'s visitor" and hear current +
  fixes defined :: "'s \<Rightarrow> name option \<Rightarrow> name set option"
  assumes defined_hear: "defined (hear e s) =
      (case e of
         EnterOperation n _ \<Rightarrow> (defined s)(n \<mapsto> {})
       | EnterVariable d \<Rightarrow>
           (case current s of
              Some (ScopeOperation n) \<Rightarrow>
                (case defined s n of
                   Some vars \<Rightarrow> (defined s)(n \<mapsto> insert (node (vd_name (node d))) vars)
                 | None \<Rightarrow> defined s)
            | _ \<Rightarrow> defined s)
       | _ \<Rightarrow> defined s)"
begin

lemma defined_quiet:
  "\<forall>e\<in>set hs. is_body_event e \<or> (\<exists>n fd. e = EnterFragment n fd \<or> e = ExitFragment n fd) \<Longrightarrow>
     defined (fold hear hs s) = defined s"
proof (induction hs arbitrary: s)
  case (Cons e hs)
  then show ?case
    by (cases e) (simp_all add: defined_hear)
qed simp

lemma defined_variables:
  "current s = Some (ScopeOperation n) \<Longrightarrow> defined s n = Some vars \<Longrightarrow>
     defined (fold hear (map EnterVariable ds) s) =
       (defined s)(n \<mapsto> vars \<union> (\<lambda>d. node (vd_name (node d))) ` set ds)"
proof (induction ds arbitrary: s vars)
  case (Cons d ds)
  have "current (hear (EnterVariable d) s) = Some (ScopeOperation n)"
    "defined (hear (EnterVariable d) s) n = Some (insert (node (vd_name (node d))) vars)"
    using Cons.prems by (simp_all add: current_hear defined_hear)
  from Cons.IH [OF this] show ?case
    using Cons.prems by (simp add: defined_hear fun_eq_iff)
qed (auto simp: fun_upd_idem)

lemma defined_operation:
  "defined (fold hear (EnterOperation n od # map EnterVariable (od_variable_definitions (node od)) @
      operation_events (node od)) s) = (defined s)(n \<mapsto> operation_variables (node od))"
proof -
  have "\<forall>e\<in>set (operation_events (node od)). is_body_event e"
    using body_directives body_selection by (auto simp: operation_events_def)
  then show ?thesis
    by (simp add: defined_quiet defined_variables [where n = n and vars = "{}"] current_hear
        defined_hear operation_variables_def)
qed

lemma defined_operations:
  "defined (fold hear (concat (map (\<lambda>(n, od). EnterOperation n od #
       map EnterVariable (od_variable_definitions (node od)) @ operation_events (node od)) ops)) s) =
     defined s ++ map_of (rev (map (\<lambda>(n, od). (n, operation_variables (node od))) ops))"
proof (induction ops arbitrary: s)
  case (Cons p ops)
  obtain n od where p: "p = (n, od)" by (cases p)
  have "fold hear (operation_events (node od)) (fold hear (map EnterVariable
      (od_variable_definitions (node od))) (hear (EnterOperation n od) s)) = fold hear (EnterOperation n od #
      map EnterVariable (od_variable_definitions (node od)) @ operation_events (node od)) s"
    by simp
  then show ?case
    using defined_operation [of n od s]
    by (simp add: p Cons.IH map_add_def fun_eq_iff del: fold_simps split: option.split)
qed simp

text \<open>With distinct operation names, as the keys of a map are.\<close>

lemma defined_document:
  assumes "distinct (map fst (operations_iter (doc_operations doc)))"
  shows "defined (fold hear (document_events doc) s) =
    defined s ++ map_of (map (\<lambda>(n, od). (n, operation_variables (node od)))
      (operations_iter (doc_operations doc)))"
proof -
  let ?fs = "concat (map (\<lambda>(n, fd). EnterFragment n fd # fragment_events (node fd) @ [ExitFragment n fd])
    (doc_fragments doc))"
  have "\<forall>e\<in>set (fragment_events fd). is_body_event e" for fd
    using body_directives body_selection by (auto simp: fragment_events_def)
  then have "defined (fold hear ?fs s) = defined s"
    by (intro defined_quiet) auto
  moreover have "map_of (rev (map (\<lambda>(n, od). (n, operation_variables (node od))) ops)) =
      map_of (map (\<lambda>(n, od). (n, operation_variables (node od))) ops)"
    if "distinct (map fst ops)" for ops :: "(name option \<times> operation_definition positioned) list"
    using that by (intro map_of_inject_set [THEN iffD2]) (auto simp: comp_def case_prod_unfold rev_map [symmetric])
  ultimately show ?thesis
    using assms by (simp only: document_events_def fold_append comp_apply defined_operations)
qed

end

end
