(* ===== verification/Scoped_Semantics.thy ===== *)
theory Scoped_Semantics
  imports Scope_Collect
begin

text \<open>
  What the scoped rules decide. Each of them accepts a document the traversal accepts exactly when
  the document has the property of the GraphQL specification the rule is named after, stated here
  over the document alone: no cycle of fragment spreads, no unused fragment, no undefined variable,
  no unused variable.
\<close>

subsection \<open>What a rule hears\<close>

definition heard :: "'s visitor \<Rightarrow> hook_event \<Rightarrow> 's \<Rightarrow> 's" where
  "heard v e s =
     (case e of
        ExitDocument _ \<Rightarrow> s
      | _ \<Rightarrow> (case fire v e (undefined, s) of Done (_, s') \<Rightarrow> s' | _ \<Rightarrow> s))"

lemmas heard_simps = heard_def on_state_def visitor_nil_def fun_eq_iff

lemma listening_ruleI:
  assumes "rule v" "v_mode v = Normal"
    and "\<And>e. \<forall>d. e \<noteq> ExitDocument d \<Longrightarrow>
      fire v e = (if is_scope_event e then on_state (heard v e) else Done)"
  shows "listening_rule v (heard v)"
  using assms by (simp add: listening_rule_def listening_rule_axioms_def)

lemma mode_scoped_rules [simp]:
  "v_mode no_fragment_cycles = Normal" "v_mode no_unused_fragments = Normal"
  "v_mode no_undefined_variables = Normal" "v_mode no_unused_variables = Normal"
  by (simp_all add: no_fragment_cycles_def no_unused_fragments_def no_undefined_variables_def
      no_unused_variables_def visitor_nil_def)

interpretation nfc: listening_rule no_fragment_cycles "heard no_fragment_cycles"
proof (rule listening_ruleI [OF reporting_no_fragment_cycles [THEN reporting_is_rule]])
  fix e assume "\<forall>d. e \<noteq> ExitDocument d"
  then show "fire no_fragment_cycles e =
      (if is_scope_event e then on_state (heard no_fragment_cycles e) else Done)"
    by (cases e) (auto simp: no_fragment_cycles_def heard_simps)
qed simp

interpretation nuf: listening_rule no_unused_fragments "heard no_unused_fragments"
proof (rule listening_ruleI [OF reporting_no_unused_fragments [THEN reporting_is_rule]])
  fix e assume "\<forall>d. e \<noteq> ExitDocument d"
  then show "fire no_unused_fragments e =
      (if is_scope_event e then on_state (heard no_unused_fragments e) else Done)"
    by (cases e) (auto simp: no_unused_fragments_def heard_simps)
qed simp

interpretation nud: listening_rule no_undefined_variables "heard no_undefined_variables"
proof (rule listening_ruleI [OF reporting_no_undefined_variables [THEN reporting_is_rule]])
  fix e assume "\<forall>d. e \<noteq> ExitDocument d"
  then show "fire no_undefined_variables e =
      (if is_scope_event e then on_state (heard no_undefined_variables e) else Done)"
    by (cases e) (auto simp: no_undefined_variables_def heard_simps)
qed simp

interpretation nuv: listening_rule no_unused_variables "heard no_unused_variables"
proof (rule listening_ruleI [OF reporting_no_unused_variables [THEN reporting_is_rule]])
  fix e assume "\<forall>d. e \<noteq> ExitDocument d"
  then show "fire no_unused_variables e =
      (if is_scope_event e then on_state (heard no_unused_variables e) else Done)"
    by (cases e) (auto simp: no_unused_variables_def heard_simps)
qed simp

subsection \<open>The tables of the rules\<close>

lemma get_record_spread:
  "set (get_list (record_spread cur f spreads) sc) =
     set (get_list spreads sc) \<union> (if cur = Some sc then {f} else {})"
  by (auto simp: record_spread_def split: option.split)

interpretation nuf: scope_table no_unused_fragments "heard no_unused_fragments"
  nuf_current_scope "\<lambda>s sc. set (get_list (nuf_spreads s) sc)" event_spreads
proof unfold_locales
  fix e s sc
  show "nuf_current_scope (heard no_unused_fragments e s) =
      (case e of EnterOperation n _ \<Rightarrow> Some (ScopeOperation n)
       | EnterFragment n _ \<Rightarrow> Some (ScopeFragment n) | _ \<Rightarrow> nuf_current_scope s)"
    by (cases e) (auto simp: no_unused_fragments_def heard_simps)
  show "set (get_list (nuf_spreads (heard no_unused_fragments e s)) sc) =
      set (get_list (nuf_spreads s) sc) \<union>
        (if nuf_current_scope s = Some sc then event_spreads e else {})"
    by (cases e) (auto simp: no_unused_fragments_def heard_simps get_record_spread )
qed (auto elim: is_body_event.elims(3))

interpretation nud: scope_table no_undefined_variables "heard no_undefined_variables"
  nud_current_scope "\<lambda>s sc. set (get_list (nud_spreads s) sc)" event_spreads
proof unfold_locales
  fix e s sc
  show "nud_current_scope (heard no_undefined_variables e s) =
      (case e of EnterOperation n _ \<Rightarrow> Some (ScopeOperation n)
       | EnterFragment n _ \<Rightarrow> Some (ScopeFragment n) | _ \<Rightarrow> nud_current_scope s)"
    by (cases e) (auto simp: no_undefined_variables_def heard_simps split: option.split scope.split)
  show "set (get_list (nud_spreads (heard no_undefined_variables e s)) sc) =
      set (get_list (nud_spreads s) sc) \<union>
        (if nud_current_scope s = Some sc then event_spreads e else {})"
    by (cases e) (auto simp: no_undefined_variables_def heard_simps get_record_spread split: option.split scope.split)
qed (auto elim: is_body_event.elims(3))

lemma fst_fold_alist_insert:
  "fst ` set (fold (\<lambda>x. alist_insert x p) xs m) = fst ` set m \<union> set xs"
  by (induction xs arbitrary: m) (auto simp: fst_alist_insert)

interpretation nud_used: scope_table no_undefined_variables "heard no_undefined_variables"
  nud_current_scope "\<lambda>s sc. fst ` set (get_list (nud_used_variables s) sc)" event_variables
proof unfold_locales
  fix e s sc
  show "fst ` set (get_list (nud_used_variables (heard no_undefined_variables e s)) sc) =
      fst ` set (get_list (nud_used_variables s) sc) \<union>
        (if nud_current_scope s = Some sc then event_variables e else {})"
    by (cases e) (auto simp: no_undefined_variables_def heard_simps fst_fold_alist_insert
        split: option.split scope.split)
qed (auto elim: is_body_event.elims(3) simp: nud.current_hear)

interpretation nud_defined: definition_collector no_undefined_variables "heard no_undefined_variables"
  nud_current_scope "\<lambda>s n. map_option snd (map_of (nud_defined_variables s) n)"
proof unfold_locales
  fix e s
  show "(\<lambda>n. map_option snd (map_of (nud_defined_variables (heard no_undefined_variables e s)) n)) =
      (case e of
         EnterOperation n _ \<Rightarrow> (\<lambda>n. map_option snd (map_of (nud_defined_variables s) n))(n \<mapsto> {})
       | EnterVariable d \<Rightarrow>
           (case nud_current_scope s of
              Some (ScopeOperation n) \<Rightarrow>
                (case map_option snd (map_of (nud_defined_variables s) n) of
                   Some vars \<Rightarrow> (\<lambda>n. map_option snd (map_of (nud_defined_variables s) n))
                     (n \<mapsto> insert (node (vd_name (node d))) vars)
                 | None \<Rightarrow> (\<lambda>n. map_option snd (map_of (nud_defined_variables s) n)))
            | _ \<Rightarrow> (\<lambda>n. map_option snd (map_of (nud_defined_variables s) n)))
       | _ \<Rightarrow> (\<lambda>n. map_option snd (map_of (nud_defined_variables s) n)))"
    by (cases e) (auto simp: no_undefined_variables_def heard_simps split: option.split scope.split)
qed

interpretation nuv: scope_table no_unused_variables "heard no_unused_variables"
  nuv_current_scope "\<lambda>s sc. set (get_list (nuv_spreads s) sc)" event_spreads
proof unfold_locales
  fix e s sc
  show "nuv_current_scope (heard no_unused_variables e s) =
      (case e of EnterOperation n _ \<Rightarrow> Some (ScopeOperation n)
       | EnterFragment n _ \<Rightarrow> Some (ScopeFragment n) | _ \<Rightarrow> nuv_current_scope s)"
    by (cases e) (auto simp: no_unused_variables_def heard_simps split: option.split scope.split)
  show "set (get_list (nuv_spreads (heard no_unused_variables e s)) sc) =
      set (get_list (nuv_spreads s) sc) \<union>
        (if nuv_current_scope s = Some sc then event_spreads e else {})"
    by (cases e) (auto simp: no_unused_variables_def heard_simps get_record_spread split: option.split scope.split)
qed (auto elim: is_body_event.elims(3))

interpretation nuv_used: scope_table no_unused_variables "heard no_unused_variables"
  nuv_current_scope "\<lambda>s sc. set (get_list (nuv_used_variables s) sc)" event_variables
proof unfold_locales
  fix e s sc
  show "set (get_list (nuv_used_variables (heard no_unused_variables e s)) sc) =
      set (get_list (nuv_used_variables s) sc) \<union>
        (if nuv_current_scope s = Some sc then event_variables e else {})"
    by (cases e) (auto simp: no_unused_variables_def heard_simps split: option.split scope.split)
qed (auto elim: is_body_event.elims(3) simp: nuv.current_hear)

lemma fst_index_set_insert: "fst ` set (index_set_insert x xs) = insert (fst x) (fst ` set xs)"
  by (auto simp: index_set_insert_def image_iff)

interpretation nuv_defined: definition_collector no_unused_variables "heard no_unused_variables"
  nuv_current_scope "\<lambda>s n. map_option (\<lambda>vars. fst ` set vars) (map_of (nuv_defined_variables s) n)"
proof unfold_locales
  fix e s
  let ?D = "\<lambda>s n. map_option (\<lambda>vars. fst ` set vars) (map_of (nuv_defined_variables s) n)"
  show "?D (heard no_unused_variables e s) =
      (case e of
         EnterOperation n _ \<Rightarrow> (?D s)(n \<mapsto> {})
       | EnterVariable d \<Rightarrow>
           (case nuv_current_scope s of
              Some (ScopeOperation n) \<Rightarrow>
                (case ?D s n of
                   Some vars \<Rightarrow> (?D s)(n \<mapsto> insert (node (vd_name (node d))) vars)
                 | None \<Rightarrow> ?D s)
            | _ \<Rightarrow> ?D s)
       | _ \<Rightarrow> ?D s)"
    by (cases e) (auto simp: no_unused_variables_def heard_simps fst_index_set_insert
        split: option.split scope.split)
qed

subsection \<open>Searching from every operation\<close>

lemma for_each_returns: "(\<And>x st. x \<in> set xs \<Longrightarrow> returns (f x st)) \<Longrightarrow> returns (for_each f xs st)"
proof (induction xs arbitrary: st)
  case (Cons x xs)
  obtain st' where "f x st = Done st'"
    using Cons.prems [of x st] by (auto simp: returns_iff)
  then show ?case
    using Cons by (simp add: seq_def)
qed simp

lemma rtranclp_ScopeFragment:
  "(\<lambda>a b. b \<in> ScopeFragment ` S a)\<^sup>*\<^sup>* (ScopeFragment x) (ScopeFragment y) \<longleftrightarrow>
     (\<lambda>a b. b \<in> S (ScopeFragment a))\<^sup>*\<^sup>* x y"
proof
  have "\<exists>y. sc = ScopeFragment y \<and> (\<lambda>a b. b \<in> S (ScopeFragment a))\<^sup>*\<^sup>* x y"
    if "(\<lambda>a b. b \<in> ScopeFragment ` S a)\<^sup>*\<^sup>* (ScopeFragment x) sc" for sc
    using that by (induction rule: rtranclp_induct) (auto intro: rtranclp.rtrancl_into_rtrancl)
  then show "(\<lambda>a b. b \<in> ScopeFragment ` S a)\<^sup>*\<^sup>* (ScopeFragment x) (ScopeFragment y) \<Longrightarrow>
      (\<lambda>a b. b \<in> S (ScopeFragment a))\<^sup>*\<^sup>* x y" by blast
  show "(\<lambda>a b. b \<in> S (ScopeFragment a))\<^sup>*\<^sup>* x y \<Longrightarrow>
      (\<lambda>a b. b \<in> ScopeFragment ` S a)\<^sup>*\<^sup>* (ScopeFragment x) (ScopeFragment y)"
    by (induction rule: rtranclp_induct) (auto intro: rtranclp.rtrancl_into_rtrancl)
qed

lemma reaches_fragment:
  "(\<lambda>a b. b \<in> ScopeFragment ` S a)\<^sup>*\<^sup>* (ScopeOperation n) (ScopeFragment f) \<longleftrightarrow>
     (\<exists>y\<in>S (ScopeOperation n). (\<lambda>a b. b \<in> S (ScopeFragment a))\<^sup>*\<^sup>* y f)"
  using rtranclp_ScopeFragment [of S _ f]
  by (auto elim!: converse_rtranclpE [of _ "ScopeOperation n"] intro: converse_rtranclp_into_rtranclp)

subsection \<open>Unused fragments\<close>

lemma reachable_all:
  assumes "n = length spreads + 2"
  shows "for_each (\<lambda>sc. find_reachable_fragments n spreads sc) (map ScopeOperation ops) {} =
    Done {f. \<exists>opname\<in>set ops. \<exists>y\<in>set (get_list spreads (ScopeOperation opname)). reach.reaches spreads y f}"
proof -
  let ?roots = "concat (map (\<lambda>opname. get_list spreads (ScopeOperation opname)) ops)"
  have op: "find_reachable_fragments n spreads (ScopeOperation opname) =
      for_each (\<lambda>f. find_reachable_fragments (Suc (length spreads)) spreads (ScopeFragment f))
        (get_list spreads (ScopeOperation opname))" for opname
    by (simp add: assms search_unfold fun_eq_iff)
  have all: "for_each (\<lambda>sc. find_reachable_fragments n spreads sc) (map ScopeOperation ops) r =
      for_each (\<lambda>f. find_reachable_fragments (Suc (length spreads)) spreads (ScopeFragment f)) ?roots r" for r
    by (simp add: for_each_map op for_each_concat [symmetric])
  have "card {x. get_list spreads (ScopeFragment x) \<noteq> []} < Suc (length spreads)"
    using card_reach_sources [of spreads] by simp
  then have "returns (for_each (reach_search spreads (Suc (length spreads))) ?roots ((), {}))"
    using reach.search_from_start_returns [of spreads "Suc (length spreads)"]
    by (intro for_each_returns) auto
  then obtain m where m: "for_each (reach_search spreads (Suc (length spreads))) ?roots ((), {}) = Done ((), m)"
    by (auto simp: returns_iff)
  have "\<exists>order. reach.visits spreads (\<lambda>z. \<exists>y\<in>set ?roots. reach.reaches spreads y z) ((), {}) order ((), m) \<and>
      set ?roots \<subseteq> snd ((), m)"
    by (rule reach.search_list_visits [OF reach.search_visits m])
  then obtain order where order: "m = set order" "set ?roots \<subseteq> m"
    "\<And>z. z \<in> m \<Longrightarrow> (\<exists>y\<in>set ?roots. reach.reaches spreads y z) \<and> set (get_list spreads (ScopeFragment z)) \<subseteq> m"
    by (auto simp: reach.visits_def simp del: set_concat)
  have "m = {z. \<exists>y\<in>set ?roots. reach.reaches spreads y z}"
  proof (intro equalityI subsetI CollectI)
    fix z assume "z \<in> {z. \<exists>y\<in>set ?roots. reach.reaches spreads y z}"
    then obtain y where "y \<in> m" "reach.reaches spreads y z"
      using order(2) by blast
    then show "z \<in> m"
      using reach.closed_reaches [of spreads y z m] order(3) by blast
  qed (use order(3) in blast)
  then show ?thesis
    using m by (auto simp: all for_each_reach run_map_def run_bind_Done_iff)
qed

lemma fragment_events_members:
  "EnterFragment n fd \<in> set (document_events doc) \<longleftrightarrow> (n, fd) \<in> set (doc_fragments doc)"
proof -
  have "EnterFragment n fd \<notin> set (fragment_events d)" "EnterFragment n fd \<notin> set (operation_events d')" for d d'
    using body_directives body_selection by (fastforce simp: fragment_events_def operation_events_def)+
  then show ?thesis
    by (auto simp: document_events_def)
qed

lemma nuf_defined:
  "fst ` set (nuf_defined_fragments (fold (heard no_unused_fragments) es s)) =
     fst ` set (nuf_defined_fragments s) \<union> {n. \<exists>fd. EnterFragment n fd \<in> set es}"
proof (induction es arbitrary: s)
  case (Cons e es)
  then show ?case
    by (cases e) (auto simp: no_unused_fragments_def heard_simps fst_index_set_insert)
qed simp

lemma report_unused_fragments_errors:
  "vc_errors (report_unused_fragments defined reachable ctx) =
     vc_errors ctx @ map (\<lambda>(f, p). rule_error_new [p] (''Fragment '' @ quoted f @ '' is never used''))
       (filter (\<lambda>(f, p). f \<notin> reachable) defined)"
  unfolding report_unused_fragments_def
  by (induction defined arbitrary: ctx) (auto simp: report_error_def)

lemma report_unused_fragments_none:
  "report_unused_fragments defined reachable ctx = ctx \<longleftrightarrow> fst ` set defined \<subseteq> reachable"
proof
  assume "report_unused_fragments defined reachable ctx = ctx"
  then have "filter (\<lambda>(f, p). f \<notin> reachable) defined = []"
    using report_unused_fragments_errors [of defined reachable ctx] by simp
  then show "fst ` set defined \<subseteq> reachable"
    by (auto simp: filter_empty_conv)
next
  show "fst ` set defined \<subseteq> reachable \<Longrightarrow> report_unused_fragments defined reachable ctx = ctx"
    unfolding report_unused_fragments_def by (induction defined) auto
qed

definition no_fragment_unused :: "executable_document \<Rightarrow> bool" where
  "no_fragment_unused doc \<longleftrightarrow>
     (\<forall>(f, _)\<in>set (doc_fragments doc). \<exists>(opname, _)\<in>set (operations_iter (doc_operations doc)).
        scope_reaches doc (ScopeOperation opname) (ScopeFragment f))"

theorem accepts_no_unused_fragments:
  assumes "clean ctx"
  shows "accepts n no_unused_fragments nuf_init doc ctx \<longleftrightarrow>
    traversable n doc ctx \<and> no_fragment_unused doc"
proof -
  let ?s = "fold (heard no_unused_fragments) (document_events doc) nuf_init"
  let ?ops = "map fst (operations_iter (doc_operations doc))"
  define reached where "reached = {f. \<exists>opname\<in>set ?ops. scope_reaches doc (ScopeOperation opname) (ScopeFragment f)}"
  have spreads: "set (get_list (nuf_spreads ?s) sc) = scope_spreads_of doc sc" for sc
    using nuf.tab_document [of doc nuf_init sc] by (simp add: nuf_init_def)
  have "reached = {f. \<exists>opname\<in>set ?ops.
      \<exists>y\<in>set (get_list (nuf_spreads ?s) (ScopeOperation opname)). reach.reaches (nuf_spreads ?s) y f}"
    unfolding reached_def scope_reaches_def reaches_fragment reach.reaches_def spreads ..
  then have "for_each (\<lambda>(opname, _). find_reachable_fragments (length (nuf_spreads ?s) + 2) (nuf_spreads ?s)
      (ScopeOperation opname)) (operations_iter (doc_operations doc)) {} = Done reached"
    using reachable_all [OF refl, of "nuf_spreads ?s" ?ops]
    by (simp add: for_each_map case_prod_unfold)
  then have "(\<exists>s. v_exit_document no_unused_fragments doc (ctx, ?s) = Done (ctx, s)) \<longleftrightarrow>
      fst ` set (nuf_defined_fragments ?s) \<subseteq> reached"
    by (simp add: no_unused_fragments_def report_unused_fragments_none)
  also have "fst ` set (nuf_defined_fragments ?s) = fst ` set (doc_fragments doc)"
    by (force simp: nuf_defined nuf_init_def fragment_events_members)
  also have "fst ` set (doc_fragments doc) \<subseteq> reached \<longleftrightarrow> no_fragment_unused doc"
    by (force simp: no_fragment_unused_def reached_def)
  finally show ?thesis
    using nuf.accepts_listener [OF assms] by simp
qed

subsection \<open>Undefined variables\<close>

lemma report_undefined_errors:
  "vc_errors (report_undefined opname p undef ctx) = vc_errors ctx @
     map (\<lambda>(x, q). rule_error_new (case opname of Some _ \<Rightarrow> [p, q] | None \<Rightarrow> [q]) (undefined_message opname x))
       undef"
  unfolding report_undefined_def
  by (induction undef arbitrary: ctx) (auto simp: report_error_def)

lemma report_undefined_none: "report_undefined opname p undef ctx = ctx \<longleftrightarrow> undef = []"
  using report_undefined_errors [of opname p undef ctx] by (auto simp: report_undefined_def)

text \<open>A loop that reports leaves a clean context exactly when no round reports.\<close>

lemma for_each_reports:
  assumes returns: "\<And>x c. x \<in> set xs \<Longrightarrow> \<exists>c'. f x c = Done c' \<and> ctx_step c c'"
    and clean: "clean ctx"
  shows "for_each f xs ctx = Done ctx \<longleftrightarrow> (\<forall>x\<in>set xs. f x ctx = Done ctx)"
  using returns
proof (induction xs)
  case (Cons x xs)
  obtain c where c: "f x ctx = Done c" "ctx_step ctx c"
    using Cons.prems [of x ctx] by auto
  have "ctx_step c c'" if "for_each f xs c = Done c'" for c'
    using for_each_invariant [where P = "ctx_step c", OF _ _ that] Cons.prems
    by (metis ctx_step_refl ctx_step_trans list.set_intros(2) run.inject)
  then have "c = ctx" if "for_each f xs c = Done ctx"
    using ctx_step_clean [OF _ clean, of c] that by simp
  then show ?case
    using c Cons by (auto simp: seq_def)
qed simp

lemma undef_acts:
  "for_each (undef_act self vars) order acc =
     Done (acc @ concat (map (\<lambda>sc. filter (\<lambda>(x, p). x \<notin> vars) (get_list (nud_used_variables self) sc)) order))"
  by (induction order arbitrary: acc) (simp_all add: undef_act_def seq_def)

lemma find_undef_vars_result:
  "\<exists>undef vis. find_undef_vars (length (nud_spreads self) + 2) self vars sc ([], {}) = Done (undef, vis) \<and>
     (undef = [] \<longleftrightarrow>
        (\<forall>sc'. undef.reaches self sc sc' \<longrightarrow> fst ` set (get_list (nud_used_variables self) sc') \<subseteq> vars))"
proof -
  have "returns (find_undef_vars (length (nud_spreads self) + 2) self vars sc ([], {}))"
    by (rule undef.search_from_start_returns [OF card_spread_scopes]) (simp add: undef_act_def)
  then obtain undef vis where run:
      "find_undef_vars (length (nud_spreads self) + 2) self vars sc ([], {}) = Done (undef, vis)"
    by (auto simp: returns_iff)
  then obtain order where order: "set order = {y. undef.reaches self sc y}"
      "for_each (undef_act self vars) order [] = Done undef"
    using undef.search_from_start [OF run] by auto
  have "undef = [] \<longleftrightarrow> (\<forall>sc'\<in>set order. fst ` set (get_list (nud_used_variables self) sc') \<subseteq> vars)"
    using order(2) by (fastforce simp: undef_acts filter_empty_conv)
  then show ?thesis
    using run order(1) by auto
qed

definition variables_defined :: "executable_document \<Rightarrow> bool" where
  "variables_defined doc \<longleftrightarrow>
     (\<forall>(opname, od)\<in>set (operations_iter (doc_operations doc)). \<forall>sc.
        scope_reaches doc (ScopeOperation opname) sc \<longrightarrow>
        scope_variables_of doc sc \<subseteq> operation_variables (node od))"

definition distinct_operations :: "executable_document \<Rightarrow> bool" where
  "distinct_operations doc \<longleftrightarrow> distinct (map fst (operations_iter (doc_operations doc)))"

lemma nud_distinct:
  "distinct (map fst (nud_defined_variables s)) \<Longrightarrow>
     distinct (map fst (nud_defined_variables (fold (heard no_undefined_variables) es s)))"
proof (induction es arbitrary: s)
  case (Cons e es)
  have "distinct (map fst (nud_defined_variables (heard no_undefined_variables e s)))"
    using Cons.prems
    by (cases e) (auto simp: no_undefined_variables_def heard_simps distinct_alist_insert
        split: option.split scope.split)
  then show ?case
    using Cons.IH by simp
qed simp

lemma operations_map:
  assumes "distinct_operations doc"
  shows "map_of (map (\<lambda>(n, od). (n, operation_variables (node od))) (operations_iter (doc_operations doc))) n = Some vars
    \<longleftrightarrow> (\<exists>od. (n, od) \<in> set (operations_iter (doc_operations doc)) \<and> vars = operation_variables (node od))"
proof -
  have "distinct (map fst (map (\<lambda>(n, od). (n, operation_variables (node od))) (operations_iter (doc_operations doc))))"
    using assms by (simp add: distinct_operations_def comp_def case_prod_unfold)
  from map_of_eq_Some_iff [OF this] show ?thesis
    by force
qed

theorem accepts_no_undefined_variables:
  assumes "clean ctx" "distinct_operations doc"
  shows "accepts n no_undefined_variables nud_init doc ctx \<longleftrightarrow>
    traversable n doc ctx \<and> variables_defined doc"
proof -
  let ?s = "fold (heard no_undefined_variables) (document_events doc) nud_init"
  let ?round = "\<lambda>(opname, (def_pos, def_vars)) ctx.
     run_map (\<lambda>(undef, _). report_undefined opname def_pos undef ctx)
       (find_undef_vars (length (nud_spreads ?s) + 2) ?s def_vars (ScopeOperation opname) ([], {}))"
  have spreads: "set (get_list (nud_spreads ?s) sc) = scope_spreads_of doc sc" for sc
    using nud.tab_document [of doc nud_init sc] by (simp add: nud_init_def)
  have used: "fst ` set (get_list (nud_used_variables ?s) sc) = scope_variables_of doc sc" for sc
    using nud_used.tab_document [of doc nud_init sc] by (simp add: nud_init_def)
  have reaches: "undef.reaches ?s = scope_reaches doc"
    by (simp add: undef.reaches_def scope_reaches_def spread_scopes_def spreads)
  have ok: "?round (opname, (p, vars)) ctx = Done ctx \<longleftrightarrow>
      (\<forall>sc. scope_reaches doc (ScopeOperation opname) sc \<longrightarrow> scope_variables_of doc sc \<subseteq> vars)"
    for opname p vars
    using find_undef_vars_result [of ?s vars "ScopeOperation opname"]
    by (auto simp: reaches used report_undefined_none)
  have steps: "\<exists>c'. ?round x c = Done c' \<and> ctx_step c c'" for x c
  proof -
    obtain opname p vars where x: "x = (opname, (p, vars))" by (cases x)
    have "ctx_step c (report_undefined opname p undef c)" for undef
      unfolding report_undefined_def by (rule ctx_step_fold) auto
    then show ?thesis
      using find_undef_vars_result [of ?s vars "ScopeOperation opname"] by (auto simp: x)
  qed
  have "(\<exists>s. v_exit_document no_undefined_variables doc (ctx, ?s) = Done (ctx, s)) \<longleftrightarrow>
      for_each ?round (nud_defined_variables ?s) ctx = Done ctx"
    by (auto simp: no_undefined_variables_def run_map_def run_bind_Done_iff)
  also have "\<dots> \<longleftrightarrow> (\<forall>x\<in>set (nud_defined_variables ?s). ?round x ctx = Done ctx)"
    by (rule for_each_reports [OF steps assms(1)])
  also have "\<dots> \<longleftrightarrow> (\<forall>opname vars. map_option snd (map_of (nud_defined_variables ?s) opname) = Some vars \<longrightarrow>
      (\<forall>sc. scope_reaches doc (ScopeOperation opname) sc \<longrightarrow> scope_variables_of doc sc \<subseteq> vars))"
  proof -
    have "distinct (map fst (nud_defined_variables ?s))"
      by (rule nud_distinct) (simp add: nud_init_def)
    from map_of_eq_Some_iff [OF this]
    have entry: "map_option snd (map_of (nud_defined_variables ?s) opname) = Some vars \<longleftrightarrow>
        (\<exists>p. (opname, (p, vars)) \<in> set (nud_defined_variables ?s))" for opname vars
      by auto
    have "(\<forall>x\<in>set (nud_defined_variables ?s). ?round x ctx = Done ctx) \<longleftrightarrow>
        (\<forall>opname p vars. (opname, (p, vars)) \<in> set (nud_defined_variables ?s) \<longrightarrow>
           ?round (opname, (p, vars)) ctx = Done ctx)"
      by auto
    then show ?thesis
      unfolding entry ok by blast
  qed
  also have "\<dots> \<longleftrightarrow> variables_defined doc"
  proof -
    have "map_option snd (map_of (nud_defined_variables ?s) opname) =
        map_of (map (\<lambda>(n, od). (n, operation_variables (node od))) (operations_iter (doc_operations doc))) opname"
      for opname
      using nud_defined.defined_document [of doc nud_init] assms(2)
      by (simp add: distinct_operations_def nud_init_def fun_eq_iff)
    then show ?thesis
      unfolding variables_defined_def operations_map [OF assms(2)] by (simp only: operations_map [OF assms(2)]) blast
  qed
  finally show ?thesis
    using nud.accepts_listener [OF assms(1)] by simp
qed

subsection \<open>Unused variables\<close>

lemma report_unused_errors:
  "vc_errors (report_unused opname def_vars used ctx) = vc_errors ctx @
     map (\<lambda>(x, p). rule_error_new [p] (unused_message opname x)) (filter (\<lambda>(x, _). x \<notin> used) def_vars)"
  unfolding report_unused_def
  by (induction def_vars arbitrary: ctx) (auto simp: report_error_def)

lemma report_unused_none: "report_unused opname def_vars used ctx = ctx \<longleftrightarrow> fst ` set def_vars \<subseteq> used"
proof
  assume "report_unused opname def_vars used ctx = ctx"
  then have "filter (\<lambda>(x, _). x \<notin> used) def_vars = []"
    using report_unused_errors [of opname def_vars used ctx] by simp
  then show "fst ` set def_vars \<subseteq> used"
    by (auto simp: filter_empty_conv)
next
  assume "fst ` set def_vars \<subseteq> used"
  then have "filter (\<lambda>(x, _). x \<notin> used) def_vars = []"
    by (auto simp: filter_empty_conv)
  then show "report_unused opname def_vars used ctx = ctx"
    by (simp add: report_unused_def)
qed

lemma used_acts:
  "for_each (used_act self vars) order acc =
     Done (acc \<union> (\<Union>sc\<in>set order. set (get_list (nuv_used_variables self) sc) \<inter> vars))"
  by (induction order arbitrary: acc) (auto simp: used_act_def seq_def)

lemma find_used_vars_result:
  "\<exists>vis. find_used_vars (length (nuv_spreads self) + 2) self vars sc ({}, {}) =
     Done ((\<Union>sc'\<in>{sc'. used.reaches self sc sc'}. set (get_list (nuv_used_variables self) sc') \<inter> vars), vis)"
proof -
  have "returns (find_used_vars (length (nuv_spreads self) + 2) self vars sc ({}, {}))"
    by (rule used.search_from_start_returns [OF card_spread_scopes]) (simp add: used_act_def)
  then obtain used vis where run:
      "find_used_vars (length (nuv_spreads self) + 2) self vars sc ({}, {}) = Done (used, vis)"
    by (auto simp: returns_iff)
  then obtain order where "set order = {y. used.reaches self sc y}"
      "for_each (used_act self vars) order {} = Done used"
    using used.search_from_start [OF run] by auto
  then show ?thesis
    using run by (auto simp: used_acts)
qed

definition variables_used :: "executable_document \<Rightarrow> bool" where
  "variables_used doc \<longleftrightarrow>
     (\<forall>(opname, od)\<in>set (operations_iter (doc_operations doc)). \<forall>x\<in>operation_variables (node od). \<exists>sc.
        scope_reaches doc (ScopeOperation opname) sc \<and> x \<in> scope_variables_of doc sc)"

lemma nuv_distinct:
  "distinct (map fst (nuv_defined_variables s)) \<Longrightarrow>
     distinct (map fst (nuv_defined_variables (fold (heard no_unused_variables) es s)))"
proof (induction es arbitrary: s)
  case (Cons e es)
  have "distinct (map fst (nuv_defined_variables (heard no_unused_variables e s)))"
    using Cons.prems
    by (cases e) (auto simp: no_unused_variables_def heard_simps distinct_alist_insert
        split: option.split scope.split)
  then show ?case
    using Cons.IH by simp
qed simp

theorem accepts_no_unused_variables:
  assumes "clean ctx" "distinct_operations doc"
  shows "accepts n no_unused_variables nuv_init doc ctx \<longleftrightarrow>
    traversable n doc ctx \<and> variables_used doc"
proof -
  let ?s = "fold (heard no_unused_variables) (document_events doc) nuv_init"
  let ?round = "\<lambda>(opname, def_vars) ctx.
     run_map (\<lambda>(used, _). report_unused opname def_vars used ctx)
       (find_used_vars (length (nuv_spreads ?s) + 2) ?s (fst ` set def_vars) (ScopeOperation opname) ({}, {}))"
  have spreads: "set (get_list (nuv_spreads ?s) sc) = scope_spreads_of doc sc" for sc
    using nuv.tab_document [of doc nuv_init sc] by (simp add: nuv_init_def)
  have used: "set (get_list (nuv_used_variables ?s) sc) = scope_variables_of doc sc" for sc
    using nuv_used.tab_document [of doc nuv_init sc] by (simp add: nuv_init_def)
  have reaches: "used.reaches ?s = scope_reaches doc"
    by (simp add: used.reaches_def scope_reaches_def spread_scopes_def spreads)
  have ok: "?round (opname, def_vars) ctx = Done ctx \<longleftrightarrow>
      (\<forall>x\<in>fst ` set def_vars. \<exists>sc. scope_reaches doc (ScopeOperation opname) sc \<and> x \<in> scope_variables_of doc sc)"
    for opname def_vars
  proof -
    let ?U = "\<Union>sc\<in>{sc. scope_reaches doc (ScopeOperation opname) sc}. scope_variables_of doc sc \<inter> fst ` set def_vars"
    have "?round (opname, def_vars) ctx = Done (report_unused opname def_vars ?U ctx)"
      using find_used_vars_result [of ?s "fst ` set def_vars" "ScopeOperation opname"]
      unfolding reaches used by auto
    then have "?round (opname, def_vars) ctx = Done ctx \<longleftrightarrow> fst ` set def_vars \<subseteq> ?U"
      by (simp only: run.inject report_unused_none)
    then show ?thesis by blast
  qed
  have steps: "\<exists>c'. ?round x c = Done c' \<and> ctx_step c c'" for x c
  proof -
    obtain opname def_vars where x: "x = (opname, def_vars)" by (cases x)
    have "ctx_step c (report_unused opname def_vars used c)" for used
      unfolding report_unused_def by (rule ctx_step_fold) auto
    then show ?thesis
      using find_used_vars_result [of ?s "fst ` set def_vars" "ScopeOperation opname"] by (auto simp: x)
  qed
  have "(\<exists>s. v_exit_document no_unused_variables doc (ctx, ?s) = Done (ctx, s)) \<longleftrightarrow>
      for_each ?round (nuv_defined_variables ?s) ctx = Done ctx"
    by (auto simp: no_unused_variables_def run_map_def run_bind_Done_iff)
  also have "\<dots> \<longleftrightarrow> (\<forall>x\<in>set (nuv_defined_variables ?s). ?round x ctx = Done ctx)"
    by (rule for_each_reports [OF steps assms(1)])
  also have "\<dots> \<longleftrightarrow> (\<forall>opname vars.
      map_option (\<lambda>vars. fst ` set vars) (map_of (nuv_defined_variables ?s) opname) = Some vars \<longrightarrow>
      (\<forall>x\<in>vars. \<exists>sc. scope_reaches doc (ScopeOperation opname) sc \<and> x \<in> scope_variables_of doc sc))"
  proof -
    have "distinct (map fst (nuv_defined_variables ?s))"
      by (rule nuv_distinct) (simp add: nuv_init_def)
    from map_of_eq_Some_iff [OF this]
    have entry: "map_option (\<lambda>vars. fst ` set vars) (map_of (nuv_defined_variables ?s) opname) = Some vars \<longleftrightarrow>
        (\<exists>vs. (opname, vs) \<in> set (nuv_defined_variables ?s) \<and> vars = fst ` set vs)" for opname vars
      by auto
    have "(\<forall>x\<in>set (nuv_defined_variables ?s). ?round x ctx = Done ctx) \<longleftrightarrow>
        (\<forall>opname vs. (opname, vs) \<in> set (nuv_defined_variables ?s) \<longrightarrow> ?round (opname, vs) ctx = Done ctx)"
      by auto
    then show ?thesis
      unfolding entry ok by blast
  qed
  also have "\<dots> \<longleftrightarrow> variables_used doc"
  proof -
    have "map_option (\<lambda>vars. fst ` set vars) (map_of (nuv_defined_variables ?s) opname) =
        map_of (map (\<lambda>(n, od). (n, operation_variables (node od))) (operations_iter (doc_operations doc))) opname"
      for opname
      using nuv_defined.defined_document [of doc nuv_init] assms(2)
      by (simp add: distinct_operations_def nuv_init_def fun_eq_iff)
    then show ?thesis
      unfolding variables_used_def by (simp only: operations_map [OF assms(2)]) blast
  qed
  finally show ?thesis
    using nuv.accepts_listener [OF assms(1)] by simp
qed

subsection \<open>Fragment cycles\<close>

lemma nfc_keys:
  "fst ` set (nfc_spreads s) \<union> set_option (nfc_current_fragment s) \<subseteq> set (nfc_fragment_order s) \<Longrightarrow>
     fst ` set (nfc_spreads s') \<union> set_option (nfc_current_fragment s') \<subseteq> set (nfc_fragment_order s')"
  if "s' = fold (heard no_fragment_cycles) es s"
  using that
proof (induction es arbitrary: s)
  case (Cons e es)
  have "fst ` set (nfc_spreads (heard no_fragment_cycles e s)) \<union>
      set_option (nfc_current_fragment (heard no_fragment_cycles e s)) \<subseteq>
      set (nfc_fragment_order (heard no_fragment_cycles e s))"
    using Cons.prems(1)
    by (cases e) (auto simp: no_fragment_cycles_def heard_simps fst_alist_update_with split: option.split)
  then show ?case
    using Cons.IH Cons.prems(2) by simp
qed simp

fun is_fragment_event :: "hook_event \<Rightarrow> bool" where
  "is_fragment_event (EnterFragment _ _) = True"
| "is_fragment_event (ExitFragment _ _) = True"
| "is_fragment_event _ = False"

lemma body_no_fragment: "is_body_event e \<Longrightarrow> \<not> is_fragment_event e"
  by (cases e) simp_all

definition nfc_edges :: "no_fragment_cycles_state \<Rightarrow> (name \<times> name) set" where
  "nfc_edges s = spread_edges (nfc_spreads s)"

lemma nfc_body:
  "\<forall>e\<in>set hs. \<not> is_fragment_event e \<Longrightarrow>
     nfc_current_fragment (fold (heard no_fragment_cycles) hs s) = nfc_current_fragment s \<and>
     nfc_edges (fold (heard no_fragment_cycles) hs s) =
       nfc_edges s \<union> (set_option (nfc_current_fragment s) \<times> \<Union> (event_spreads ` set hs))"
proof (induction hs arbitrary: s)
  case (Cons e hs)
  have "nfc_current_fragment (heard no_fragment_cycles e s) = nfc_current_fragment s"
    using Cons.prems
    by (cases e) (auto simp: no_fragment_cycles_def heard_simps split: option.split)
  moreover have "nfc_edges (heard no_fragment_cycles e s) =
      nfc_edges s \<union> (set_option (nfc_current_fragment s) \<times> event_spreads e)"
    using Cons.prems
    by (cases e) (auto simp: no_fragment_cycles_def heard_simps nfc_edges_def spread_edges_def
        split: option.split if_splits)
  ultimately show ?case
    using Cons by auto
qed simp

lemma nfc_enter:
  "nfc_current_fragment (heard no_fragment_cycles (EnterFragment n fd) s) = Some n"
  "nfc_current_fragment (heard no_fragment_cycles (ExitFragment n fd) s) = None"
  "nfc_edges (heard no_fragment_cycles (EnterFragment n fd) s) = nfc_edges s"
  "nfc_edges (heard no_fragment_cycles (ExitFragment n fd) s) = nfc_edges s"
  by (simp_all add: no_fragment_cycles_def heard_simps nfc_edges_def)

lemma nfc_fragments:
  "nfc_current_fragment s = None \<Longrightarrow>
     nfc_current_fragment (fold (heard no_fragment_cycles) (concat (map (\<lambda>(n, fd).
       EnterFragment n fd # fragment_events (node fd) @ [ExitFragment n fd]) fs)) s) = None \<and>
     nfc_edges (fold (heard no_fragment_cycles) (concat (map (\<lambda>(n, fd).
       EnterFragment n fd # fragment_events (node fd) @ [ExitFragment n fd]) fs)) s) =
       nfc_edges s \<union> {(n, g). \<exists>fd. (n, fd) \<in> set fs \<and> g \<in> \<Union> (event_spreads ` set (fragment_events (node fd)))}"
proof (induction fs arbitrary: s)
  case (Cons f fs)
  obtain n fd where f: "f = (n, fd)" by (cases f)
  let ?s = "heard no_fragment_cycles (ExitFragment n fd) (fold (heard no_fragment_cycles)
      (fragment_events (node fd)) (heard no_fragment_cycles (EnterFragment n fd) s))"
  have "\<forall>e\<in>set (fragment_events (node fd)). \<not> is_fragment_event e"
    using body_directives body_selection body_no_fragment by (auto simp: fragment_events_def)
  then have "nfc_edges ?s = nfc_edges s \<union> ({n} \<times> \<Union> (event_spreads ` set (fragment_events (node fd))))"
    by (simp add: nfc_enter nfc_body)
  then show ?case
    using Cons.IH [of ?s] by (auto simp: f nfc_enter)
qed simp

definition fragments_acyclic :: "executable_document \<Rightarrow> bool" where
  "fragments_acyclic doc \<longleftrightarrow> acyclic {(f, g). g \<in> scope_spreads_of doc (ScopeFragment f)}"

lemma nfc_document:
  "nfc_edges (fold (heard no_fragment_cycles) (document_events doc) nfc_init) =
     {(f, g). g \<in> scope_spreads_of doc (ScopeFragment f)}"
proof -
  let ?ops = "concat (map (\<lambda>(n, od). EnterOperation n od #
      map EnterVariable (od_variable_definitions (node od)) @ operation_events (node od))
    (operations_iter (doc_operations doc)))"
  have "\<forall>e\<in>set (operation_events od). \<not> is_fragment_event e" for od
    using body_directives body_selection body_no_fragment by (auto simp: operation_events_def)
  then have "\<forall>e\<in>set ?ops. \<not> is_fragment_event e"
    by auto
  note ops = nfc_body [OF this]
  let ?fs = "concat (map (\<lambda>(n, fd).
      EnterFragment n fd # fragment_events (node fd) @ [ExitFragment n fd]) (doc_fragments doc))"
  have init: "nfc_current_fragment nfc_init = None" "nfc_edges nfc_init = {}"
    by (simp_all add: nfc_init_def nfc_edges_def spread_edges_def)
  note frs = nfc_fragments [OF init(1), of "doc_fragments doc", unfolded init(2)]
  have "fold (heard no_fragment_cycles) (document_events doc) nfc_init =
      fold (heard no_fragment_cycles) ?ops (fold (heard no_fragment_cycles) ?fs nfc_init)"
    by (simp only: document_events_def fold_append comp_apply)
  then have "nfc_edges (fold (heard no_fragment_cycles) (document_events doc) nfc_init) =
      {(n, g). \<exists>fd. (n, fd) \<in> set (doc_fragments doc) \<and> g \<in> \<Union> (event_spreads ` set (fragment_events (node fd)))}"
    by (simp only: ops [THEN conjunct2] frs [THEN conjunct1] frs [THEN conjunct2] option.set
        Sigma_empty1 Un_empty_left Un_empty_right)
  then show ?thesis
    by (simp add: scope_contents_iff scope_bodies_iff) blast
qed

theorem accepts_no_fragment_cycles:
  assumes "clean ctx"
  shows "accepts n no_fragment_cycles nfc_init doc ctx \<longleftrightarrow>
    traversable n doc ctx \<and> fragments_acyclic doc"
proof -
  let ?s = "fold (heard no_fragment_cycles) (document_events doc) nfc_init"
  obtain det where det: "detect_all (nfc_spreads ?s) (nfc_fragment_order ?s) = Done det"
    using detect_all_returns by (auto simp: returns_iff)
  have "fst ` set (nfc_spreads ?s) \<subseteq> set (nfc_fragment_order ?s)"
    using nfc_keys [OF refl, of nfc_init "document_events doc"] by (simp add: nfc_init_def)
  then have "cd_errors det \<noteq> [] \<longleftrightarrow> cyclic (nfc_spreads ?s)"
    by (rule detect_all_exact [OF det])
  also have "\<dots> \<longleftrightarrow> \<not> fragments_acyclic doc"
    using nfc_document [of doc] by (auto simp: cyclic_def fragments_acyclic_def acyclic_def nfc_edges_def)
  finally have "append_errors (cd_errors det) ctx = ctx \<longleftrightarrow> fragments_acyclic doc"
    using assms by (cases ctx) (auto simp: append_errors_def clean_def)
  then show ?thesis
    using nfc.accepts_listener [OF assms] det by (simp add: no_fragment_cycles_def)
qed

end
