(* ===== verification/Strict_Semantics.thy ===== *)
theory Strict_Semantics
  imports Scoped_Semantics
begin

text \<open>
  The strict mode of \<open>check_rules\<close>: what a request that passes it satisfies, rule by rule.
\<close>

subsection \<open>Variable positions, in a composition\<close>

text \<open>
  \<open>VariableInAllowedPosition\<close> records the usages of variables in \<open>enter_input_value\<close>, which a
  composition never calls: composed, it accepts every document the traversal accepts.
\<close>

lemma vap_no_usages:
  "vap_variable_usages s = [] \<Longrightarrow>
     vap_variable_usages (fold (heard (mute variable_in_allowed_position)) es s) = []"
proof (induction es arbitrary: s)
  case (Cons e es)
  have "vap_variable_usages (heard (mute variable_in_allowed_position) e s) = []"
    using Cons.prems
    by (cases e) (auto simp: mute_def variable_in_allowed_position_def heard_simps split: option.split)
  then show ?case
    using Cons.IH by simp
qed simp

interpretation vap: listening_rule "mute variable_in_allowed_position" "heard (mute variable_in_allowed_position)"
proof (rule listening_ruleI [OF rule_mute [OF reporting_variable_in_allowed_position [THEN reporting_is_rule]]])
  fix e assume "\<forall>d. e \<noteq> ExitDocument d"
  then show "fire (mute variable_in_allowed_position) e =
      (if is_scope_event e then on_state (heard (mute variable_in_allowed_position) e) else Done)"
    by (cases e) (auto simp: mute_def variable_in_allowed_position_def heard_simps)
qed (simp add: variable_in_allowed_position_def visitor_nil_def)

lemma collect_no_usages:
  assumes "vap_variable_usages self = []"
  shows "\<exists>vis. collect_incorrect_usages (length (vap_spreads self) + 2) self defs sc (ctx, {}) = Done (ctx, vis)"
proof -
  have acts: "usage_act self defs sc' = Done" for sc'
    by (simp add: usage_act_def assms)
  have "returns (collect_incorrect_usages (length (vap_spreads self) + 2) self defs sc (ctx, {}))"
    by (rule usages.search_from_start_returns [OF card_spread_scopes]) (simp add: acts)
  then obtain ctx' vis where run:
      "collect_incorrect_usages (length (vap_spreads self) + 2) self defs sc (ctx, {}) = Done (ctx', vis)"
    by (auto simp: returns_iff)
  obtain order where "for_each (usage_act self defs) order ctx = Done ctx'"
    using usages.search_from_start [OF run] by auto
  moreover have "for_each (usage_act self defs) order ctx = Done ctx"
    by (induction order) (simp_all add: acts)
  ultimately show ?thesis
    using run by simp
qed

lemma for_each_idle: "(\<And>x. x \<in> set xs \<Longrightarrow> f x st = Done st) \<Longrightarrow> for_each f xs st = Done st"
  by (induction xs) (simp_all add: seq_def)

lemma no_usages_no_reports:
  assumes "vap_variable_usages self = []"
  shows "for_each (\<lambda>(op_scope, var_defs) ctx.
      run_map fst (collect_incorrect_usages (length (vap_spreads self) + 2) self var_defs op_scope (ctx, {})))
    defs ctx = Done ctx"
proof (rule for_each_idle)
  fix x :: "scope \<times> variable_definition positioned list"
  obtain sc var_defs where x: "x = (sc, var_defs)" by (cases x)
  show "(\<lambda>(op_scope, var_defs) ctx.
      run_map fst (collect_incorrect_usages (length (vap_spreads self) + 2) self var_defs op_scope (ctx, {}))) x ctx =
    Done ctx"
    using collect_no_usages [OF assms, of var_defs sc ctx] by (auto simp: x)
qed

lemma accepts_muted_positions:
  assumes "clean ctx"
  shows "accepts n (mute variable_in_allowed_position) vap_init doc ctx \<longleftrightarrow> traversable n doc ctx"
proof -
  let ?s = "fold (heard (mute variable_in_allowed_position)) (document_events doc) vap_init"
  have "vap_variable_usages ?s = []"
    by (rule vap_no_usages) (simp add: vap_init_def)
  note no_usages_no_reports [OF this, of "vap_variable_defs ?s" ctx]
  then have "v_exit_document (mute variable_in_allowed_position) doc (ctx, ?s) = Done (ctx, ?s)"
    by (simp add: mute_def variable_in_allowed_position_def)
  then show ?thesis
    using vap.accepts_listener [OF assms] by auto
qed

subsection \<open>The rules side by side\<close>

lemma mute_rules:
  "mute upload_file = upload_file"
  "mute overlapping_fields_can_be_merged = overlapping_fields_can_be_merged"
  "mute directives_unique = directives_unique"
  "mute known_directives = known_directives"
  "mute provided_non_null_arguments = provided_non_null_arguments"
  "mute possible_fragment_spreads = possible_fragment_spreads"
  "mute scalar_leafs = scalar_leafs"
  "mute variables_are_input_types = variables_are_input_types"
  "mute unique_variable_names = unique_variable_names"
  "mute unique_argument_names = unique_argument_names"
  "mute no_unused_variables = no_unused_variables"
  "mute no_unused_fragments = no_unused_fragments"
  "mute no_undefined_variables = no_undefined_variables"
  "mute known_type_names = known_type_names"
  "mute known_fragment_names = known_fragment_names"
  "mute no_fragment_cycles = no_fragment_cycles"
  "mute known_argument_names = known_argument_names"
  "mute fragments_on_composite_types = fragments_on_composite_types"
  "mute fields_on_correct_type = fields_on_correct_type"
  "mute default_values_of_correct_type = default_values_of_correct_type"
  "mute arguments_of_correct_type = arguments_of_correct_type"
  by (simp_all add: mute_def visitor_nil_def upload_file_def overlapping_fields_can_be_merged_def
      directives_unique_def known_directives_def provided_non_null_arguments_def
      possible_fragment_spreads_def scalar_leafs_def variables_are_input_types_def
      unique_variable_names_def unique_argument_names_def no_unused_variables_def
      no_unused_fragments_def no_undefined_variables_def known_type_names_def
      known_fragment_names_def no_fragment_cycles_def known_argument_names_def
      fragments_on_composite_types_def fields_on_correct_type_def
      default_values_of_correct_type_def arguments_of_correct_type_def)

lemma mode_rules:
  "v_mode upload_file = Normal" "v_mode overlapping_fields_can_be_merged = Normal"
  "v_mode directives_unique = Normal" "v_mode known_directives = Normal"
  "v_mode provided_non_null_arguments = Normal" "v_mode possible_fragment_spreads = Normal"
  "v_mode scalar_leafs = Normal" "v_mode variables_are_input_types = Normal"
  "v_mode variable_in_allowed_position = Normal"
  "v_mode unique_variable_names = Normal" "v_mode unique_argument_names = Normal"
  "v_mode known_type_names = Normal" "v_mode known_fragment_names = Normal"
  "v_mode known_argument_names = Normal" "v_mode fragments_on_composite_types = Normal"
  "v_mode fields_on_correct_type = Normal" "v_mode default_values_of_correct_type = Normal"
  "v_mode arguments_of_correct_type = Normal"
  by (simp_all add: visitor_nil_def upload_file_def overlapping_fields_can_be_merged_def
      directives_unique_def known_directives_def provided_non_null_arguments_def
      possible_fragment_spreads_def scalar_leafs_def variables_are_input_types_def
      unique_variable_names_def unique_argument_names_def variable_in_allowed_position_def
      known_type_names_def known_fragment_names_def known_argument_names_def
      fragments_on_composite_types_def fields_on_correct_type_def
      default_values_of_correct_type_def arguments_of_correct_type_def)

text \<open>The rules that check the request against the schema, one by one.\<close>

definition schema_rules_accept :: "nat \<Rightarrow> executable_document \<Rightarrow> visitor_context \<Rightarrow> bool" where
  "schema_rules_accept n doc ctx \<longleftrightarrow>
     accepts n upload_file () doc ctx \<and>
     accepts n overlapping_fields_can_be_merged () doc ctx \<and>
     accepts n directives_unique () doc ctx \<and>
     accepts n known_directives [] doc ctx \<and>
     accepts n provided_non_null_arguments () doc ctx \<and>
     accepts n possible_fragment_spreads [] doc ctx \<and>
     accepts n scalar_leafs () doc ctx \<and>
     accepts n variables_are_input_types () doc ctx \<and>
     accepts n unique_variable_names {} doc ctx \<and>
     accepts n unique_argument_names {} doc ctx \<and>
     accepts n known_type_names () doc ctx \<and>
     accepts n known_fragment_names () doc ctx \<and>
     accepts n known_argument_names None doc ctx \<and>
     accepts n fragments_on_composite_types () doc ctx \<and>
     accepts n fields_on_correct_type () doc ctx \<and>
     accepts n default_values_of_correct_type () doc ctx \<and>
     accepts n arguments_of_correct_type act_init doc ctx"

lemma accepts_strict_rules:
  assumes "clean ctx"
  shows "accepts n strict_rules strict_init doc ctx \<longleftrightarrow>
    schema_rules_accept n doc ctx \<and>
    accepts n no_fragment_cycles nfc_init doc ctx \<and>
    accepts n no_unused_fragments nuf_init doc ctx \<and>
    accepts n no_undefined_variables nud_init doc ctx \<and>
    accepts n no_unused_variables nuv_init doc ctx"
proof -
  have vap: "accepts n no_fragment_cycles nfc_init doc ctx \<Longrightarrow>
      accepts n (mute variable_in_allowed_position) vap_init doc ctx \<and>
      accepts n (visitor_nil :: unit visitor) () doc ctx"
    using accepts_muted_positions [OF assms] accepts_no_fragment_cycles [OF assms]
    by (simp add: traversable_def)
  show ?thesis
    unfolding strict_rules_def strict_init_def schema_rules_accept_def
    using vap
    by (auto simp: accepts_cons [OF _ _ assms] rule_cons single_rules rule_nil mute_rules mode_rules)
qed

subsection \<open>The strict mode\<close>

definition start_context ::
  "registry \<Rightarrow> executable_document \<Rightarrow> variables option \<Rightarrow> string option \<Rightarrow> usize option \<Rightarrow>
     usize option \<Rightarrow> visitor_context" where
  "start_context reg doc vars opname lc ld = set_limits lc ld (visitor_context_new reg doc vars opname)"

lemma clean_start [simp]: "clean (start_context reg doc vars opname lc ld)"
  by (simp add: clean_def start_context_def set_limits_def visitor_context_new_def)

text \<open>What the calculators compute on a context without errors.\<close>

definition calculated ::
  "nat \<Rightarrow> complexity_call \<Rightarrow> executable_document \<Rightarrow> visitor_context \<Rightarrow> validation_result \<Rightarrow> bool" where
  "calculated n call doc ctx r \<longleftrightarrow>
     (\<exists>ctx' dc cx cc. visit n (calculators call) doc (ctx, calculators_init) = Done (ctx', dc, cx, cc, ()) \<and>
        vc_errors ctx' = [] \<and>
        r = \<lparr>vr_cache_control = cc, vr_complexity = cx_complexity cx, vr_depth = dc_max_depth dc\<rparr>)"

lemma run_mode_strict_ok:
  assumes "clean ctx"
  shows "run_mode n call Strict doc ctx = Done ([], r) \<longleftrightarrow>
    accepts n strict_rules strict_init doc ctx \<and> calculated n call doc ctx r"
proof
  assume "run_mode n call Strict doc ctx = Done ([], r)"
  then obtain ctx1 s1 ctx2 dc cx cc where run:
      "visit n strict_rules doc (ctx, strict_init) = Done (ctx1, s1)"
      "visit n (calculators call) doc (ctx1, calculators_init) = Done (ctx2, dc, cx, cc, ())"
      "vc_errors ctx2 = []"
      "r = \<lparr>vr_cache_control = cc, vr_complexity = cx_complexity cx, vr_depth = dc_max_depth dc\<rparr>"
    by (auto simp: run_mode_def run_map_def run_bind_Done_iff)
  obtain es where es: "ctx1 = append_errors es ctx"
    using strict.visit_reports [OF run(1)] by (auto simp: reports_def)
  have "vc_errors ctx1 = []"
    using calculators.visit_step [OF run(2)] run(3) by (auto simp: ctx_step_def)
  then have "ctx1 = ctx"
    using es assms by (cases ctx) (auto simp: append_errors_def clean_def)
  then show "accepts n strict_rules strict_init doc ctx \<and> calculated n call doc ctx r"
    using run unfolding accepts_def calculated_def by metis
next
  assume "accepts n strict_rules strict_init doc ctx \<and> calculated n call doc ctx r"
  then show "run_mode n call Strict doc ctx = Done ([], r)"
    by (auto simp: accepts_def calculated_def run_mode_def)
qed

lemma check_rules_ok:
  "check_rules n call reg doc vars opname mode lc ld = Done (Inr r) \<longleftrightarrow>
     run_mode n call mode doc (start_context reg doc vars opname lc ld) = Done ([], r) \<and>
     \<not> above_limit (vr_complexity r) lc \<and> \<not> above_limit (vr_depth r) ld"
  by (auto simp: check_rules_def start_context_def run_map_def run_bind_Done_iff split: if_splits)

text \<open>The strict mode accepts what every rule accepts and the limits allow.\<close>

theorem check_rules_strict:
  assumes "distinct_operations doc"
  shows "check_rules n call reg doc vars opname Strict lc ld = Done (Inr r) \<longleftrightarrow>
    schema_rules_accept n doc (start_context reg doc vars opname lc ld) \<and>
    fragments_acyclic doc \<and> no_fragment_unused doc \<and> variables_defined doc \<and> variables_used doc \<and>
    calculated n call doc (start_context reg doc vars opname lc ld) r \<and>
    \<not> above_limit (vr_complexity r) lc \<and> \<not> above_limit (vr_depth r) ld"
proof -
  have "schema_rules_accept n doc ctx \<Longrightarrow> traversable n doc ctx" if "clean ctx" for ctx
  proof -
    assume "schema_rules_accept n doc ctx"
    then have "accepts n known_fragment_names () doc ctx"
      by (simp add: schema_rules_accept_def)
    then show "traversable n doc ctx"
      using accepts_traversable [OF reporting_known_fragment_names [THEN reporting_is_rule] _ that]
      by (simp add: mode_rules)
  qed
  then show ?thesis
    by (auto simp: check_rules_ok run_mode_strict_ok accepts_strict_rules accepts_no_fragment_cycles
        accepts_no_unused_fragments accepts_no_undefined_variables accepts_no_unused_variables assms)
qed

end
