(* ===== verification/Samples.thy ===== *)
theory Samples
  imports Strict_Semantics
begin

text \<open>
  Small concrete schemas and documents, on which the witnesses of the properties evaluate the model.
\<close>

definition at :: "'a \<Rightarrow> 'a positioned" where
  "at x = Positioned (Pos 1 1) x"

lemma at_simps [simp]: "node (at x) = x" "pos (at x) = Pos 1 1"
  by (simp_all add: at_def)

subsection \<open>A schema\<close>

definition sample_object :: "string \<Rightarrow> (string \<times> meta_field) list \<Rightarrow> meta_type" where
  "sample_object n fs = MTObject
     \<lparr>ob_name = n, ob_description = None, ob_fields = fs, ob_cache_control = default_cache_control,
      ob_extends = False, ob_shareable = False, ob_resolvable = True, ob_keys = None,
      ob_visible = None, ob_inaccessible = False, ob_interface_object = False, ob_tags = [],
      ob_is_subscription = False, ob_rust_typename = None, ob_directive_invocations = [],
      ob_requires_scopes = []\<rparr>"

definition sample_scalar :: "string \<Rightarrow> meta_type" where
  "sample_scalar n = MTScalar
     \<lparr>sc_name = n, sc_description = None, sc_is_valid = None, sc_visible = None,
      sc_inaccessible = False, sc_tags = [], sc_specified_by_url = None,
      sc_directive_invocations = [], sc_requires_scopes = []\<rparr>"

text \<open>\<open>type Query { f(a: String!): Int  me: Query }\<close>\<close>

definition sample_fields :: "(string \<times> meta_field) list" where
  "sample_fields =
     [(''f'', (meta_field_new ''f'' ''Int'')\<lparr>mf_args := [(''a'', meta_input_value_new ''a'' ''String!'')]\<rparr>),
      (''me'', meta_field_new ''me'' ''Query'')]"

definition sample_registry :: registry where
  "sample_registry =
     \<lparr>reg_types = [(''Query'', sample_object ''Query'' sample_fields),
                   (''Int'', sample_scalar ''Int''), (''String'', sample_scalar ''String'')],
      reg_directives = [], reg_implements = [], reg_query_type = ''Query'',
      reg_mutation_type = None, reg_subscription_type = None,
      reg_introspection_mode = IntrospectionEnabled, reg_enable_federation = False,
      reg_federation_subscription = False, reg_ignore_name_conflicts = {},
      reg_enable_suggestions = True\<rparr>"

subsection \<open>Documents\<close>

definition sample_field :: "string \<Rightarrow> (string \<times> gvalue) list \<Rightarrow> selection positioned list \<Rightarrow> selection positioned" where
  "sample_field n args sels =
     at (SelField (at (Fld None (at n) (map (\<lambda>(k, v). (at k, at v)) args) [] (at (SelSet sels)))))"

definition sample_spread :: "string \<Rightarrow> selection positioned" where
  "sample_spread n = at (SelSpread (at \<lparr>fs_fragment_name = at n, fs_directives = []\<rparr>))"

definition sample_fragment :: "string \<Rightarrow> selection positioned list \<Rightarrow> fragment_definition positioned" where
  "sample_fragment ty sels =
     at \<lparr>fd_type_condition = at \<lparr>tc_on = at ty\<rparr>, fd_directives = [], fd_selection_set = at (SelSet sels)\<rparr>"

definition sample_variable :: "string \<Rightarrow> gtype \<Rightarrow> variable_definition positioned" where
  "sample_variable n ty =
     at \<lparr>vd_name = at n, vd_type = at ty, vd_directives = [], vd_default_value = None\<rparr>"

definition sample_query ::
  "variable_definition positioned list \<Rightarrow> selection positioned list \<Rightarrow> operation_definition positioned" where
  "sample_query vars sels =
     at \<lparr>od_ty = Query, od_variable_definitions = vars, od_directives = [],
         od_selection_set = at (SelSet sels)\<rparr>"

lemmas sample_defs =
  sample_object_def sample_scalar_def sample_fields_def sample_registry_def sample_field_def
  sample_spread_def sample_fragment_def sample_variable_def sample_query_def

definition sample_context :: "executable_document \<Rightarrow> visitor_context" where
  "sample_context doc = visitor_context_new sample_registry doc None None"

lemma clean_sample [simp]: "clean (sample_context doc)"
  by (simp add: clean_def sample_context_def visitor_context_new_def)

text \<open>\<open>{ me { f(a: "x") } }\<close>\<close>

definition plain_document :: executable_document where
  "plain_document =
     \<lparr>doc_operations = Single (sample_query []
        [sample_field ''me'' [] [sample_field ''f'' [(''a'', VString ''x'')] []]]),
      doc_fragments = []\<rparr>"

text \<open>\<open>{ ...F }  fragment F on Query { me { ...F } }\<close>\<close>

definition cyclic_document :: executable_document where
  "cyclic_document =
     \<lparr>doc_operations = Single (sample_query [] [sample_spread ''F'']),
      doc_fragments = [(''F'', sample_fragment ''Query'' [sample_field ''me'' [] [sample_spread ''F'']])]\<rparr>"

text \<open>\<open>query($v: Int) { f(a: $v) }\<close>: an \<open>Int\<close> in the position of a \<open>String!\<close>.\<close>

definition misplaced_document :: executable_document where
  "misplaced_document =
     \<lparr>doc_operations = Single (sample_query [sample_variable ''v'' (GType (BNamed ''Int'') True)]
        [sample_field ''f'' [(''a'', VVariable ''v'')] []]),
      doc_fragments = []\<rparr>"

definition sample_call :: complexity_call where
  "sample_call _ _ _ _ children = Inr (1 + children)"

subsection \<open>What the samples contain\<close>

lemma sample_bodies:
  "scope_bodies plain_document = [(ScopeOperation None, [EnterArgument (at ''a'') (at (VString ''x''))])]"
  "scope_bodies cyclic_document =
     [(ScopeFragment ''F'', [EnterSpread (at \<lparr>fs_fragment_name = at ''F'', fs_directives = []\<rparr>)]),
      (ScopeOperation None, [EnterSpread (at \<lparr>fs_fragment_name = at ''F'', fs_directives = []\<rparr>)])]"
  "scope_bodies misplaced_document = [(ScopeOperation None, [EnterArgument (at ''a'') (at (VVariable ''v''))])]"
  by (simp_all add: plain_document_def cyclic_document_def misplaced_document_def scope_bodies_def
      operation_events_def fragment_events_def sample_defs directive_events_def argument_events_def
      selection_events.simps [of "SelSet xs" for xs])

lemma sample_distinct [simp]:
  "distinct_operations plain_document" "distinct_operations cyclic_document"
  "distinct_operations misplaced_document"
  by (simp_all add: distinct_operations_def plain_document_def cyclic_document_def misplaced_document_def)

lemma cyclic_document_cyclic: "\<not> fragments_acyclic cyclic_document"
proof -
  have "(''F'', ''F'') \<in> {(f, g). g \<in> scope_spreads_of cyclic_document (ScopeFragment f)}"
    by (simp add: scope_contents_iff sample_bodies)
  then show ?thesis
    unfolding fragments_acyclic_def acyclic_def by blast
qed

text \<open>The equations that evaluate the traversal on a document.\<close>

lemma sample_typenames [simp]:
  "concrete_typename ''Query'' = Done ''Query''" "concrete_typename ''Int'' = Done ''Int''"
  "concrete_typename ''String!'' = Done ''String''" "concrete_typename ''f'' = Done ''f''"
  "concrete_typename ''me'' = Done ''me''"
  by code_simp+

lemmas visit_sample_simps =
  sample_defs sample_context_def plain_document_def cyclic_document_def misplaced_document_def
  visit_def visit_operation_definition_def visit_fragment_definition_def
  visit_variable_definitions_def visit_directives_def visit_arguments_def
  visit_selection_simps visit_input_value.simps(1)
  seq_def bind_ctx_def on_ctx_def with_type_def with_input_type_def push_type_def pop_type_def
  push_input_type_def pop_input_type_def field_type_def field_argument_def expected_type_def
  field_by_name_def parent_type_def current_type_def concrete_type_by_name_def
  visitor_context_new_def meta_field_new_def meta_input_value_new_def
  mtn_create_def strip_suffix_def strip_brackets_def visitor_nil_def

lemma plain_document_traversable: "traversable 1 plain_document (sample_context plain_document)"
  by (simp add: traversable_def accepts_def visit_sample_simps)

lemma misplaced_document_traversable: "traversable 1 misplaced_document (sample_context misplaced_document)"
  by (simp add: traversable_def accepts_def visit_sample_simps)

lemma misplaced_document_rejected:
  "\<not> accepts 1 variable_in_allowed_position vap_init misplaced_document (sample_context misplaced_document)"
  by (simp add: accepts_def visit_sample_simps variable_in_allowed_position_def vap_init_def on_state_def
     search_unfold check_usage_def effective_type_def report_error_def get_list_def)

text \<open>In a composition, nothing rejects the misplaced variable.\<close>

lemmas schema_rule_simps =
  upload_file_def check_upload_variable_def overlapping_fields_can_be_merged_def
  find_conflicts.simps add_output_def response_key_def directives_unique_def
  check_duplicate_directive_def known_directives_def push_location_def pop_location_def
  provided_non_null_arguments_def try_ctx_def check_provided_def missing_argument_def
  possible_fragment_spreads_def scalar_leafs_def check_scalar_leaf_def
  variables_are_input_types_def unique_variable_names_def unique_argument_names_def
  known_type_names_def validate_type_def known_fragment_names_def known_argument_names_def
  check_argument_known_def fragments_on_composite_types_def fields_on_correct_type_def
  check_field_known_def default_values_of_correct_type_def check_default_value_def
  unknown_default_type_def arguments_of_correct_type_def act_init_def check_argument_value_def act_lookup_def
  on_state_def Let_def contains_key_def

lemma misplaced_schema:
  "schema_rules_accept 1 misplaced_document (sample_context misplaced_document)"
  unfolding schema_rules_accept_def accepts_def
  by (intro conjI; simp add: visit_sample_simps schema_rule_simps)

lemmas calculator_simps =
  calculators_def calculators_init_def visitor_cons_def both_def on_fst_def on_snd_def
  depth_calculate_def depth_init_def field_depth_cost_def complexity_calculate_def complexity_init_def
  exit_field_complexity_def custom_complexity_def add_complexity_def pop_complexity_def
  cache_control_calculate_def check_depth_limit_def check_complexity_limit_def can_check_def on_state_def

lemma misplaced_calculators:
  "\<exists>dc cx cc. visit 1 (calculators sample_call) misplaced_document
     (sample_context misplaced_document, calculators_init) =
     Done (sample_context misplaced_document, dc, cx, cc, ())"
  by (simp add: visit_sample_simps calculator_simps Let_def)

lemma misplaced_calculated:
  "\<exists>r. calculated 1 sample_call misplaced_document (sample_context misplaced_document) r"
proof -
  have "vc_errors (sample_context misplaced_document) = []"
    by (simp add: sample_context_def visitor_context_new_def)
  then show ?thesis
    using misplaced_calculators unfolding calculated_def by blast
qed

lemma misplaced_document_facts:
  "fragments_acyclic misplaced_document" "no_fragment_unused misplaced_document"
  "variables_defined misplaced_document" "variables_used misplaced_document"
proof -
  have reach: "scope_reaches misplaced_document a b \<longleftrightarrow> a = b" for a b
    unfolding scope_reaches_def
    by (auto elim: rtranclp_induct simp: scope_contents_iff sample_bodies split: if_splits)
  have vars: "scope_variables_of misplaced_document (ScopeOperation None) = {''v''}"
    by (auto simp: scope_contents_iff sample_bodies)
  show "fragments_acyclic misplaced_document"
    by (simp add: fragments_acyclic_def scope_contents_iff sample_bodies acyclic_def)
  show "no_fragment_unused misplaced_document"
    by (simp add: no_fragment_unused_def misplaced_document_def)
  obtain od where ops: "operations_iter (doc_operations misplaced_document) = [(None, od)]"
      and od: "operation_variables (node od) = {''v''}"
    by (simp add: misplaced_document_def operation_variables_def sample_query_def sample_variable_def)
  show "variables_defined misplaced_document"
    by (simp add: variables_defined_def reach ops od vars)
  show "variables_used misplaced_document"
    by (simp add: variables_used_def reach ops od vars)
qed

lemma misplaced_accepted:
  "accepts 1 strict_rules strict_init misplaced_document (sample_context misplaced_document)"
  using misplaced_schema misplaced_document_traversable
  by (simp add: accepts_strict_rules misplaced_document_facts accepts_no_fragment_cycles
      accepts_no_unused_fragments accepts_no_undefined_variables accepts_no_unused_variables)

end
