(* ===== verification/Edit_Distance.thy ===== *)
theory Edit_Distance
  imports Suggestion
begin

text \<open>
  The edit distance of \<open>suggestion.rs\<close> is the least number of insertions, deletions and
  replacements that turn one byte string into the other. The specification is the relation
  \<open>edits\<close>; between it and the single-column loop stands the recursive \<open>edit\<close>.
\<close>

subsection \<open>Edit scripts\<close>

inductive edits :: "nat \<Rightarrow> string \<Rightarrow> string \<Rightarrow> bool" where
  stop: "edits 0 [] []"
| keep: "edits k s t \<Longrightarrow> edits k (c # s) (c # t)"
| replace: "edits k s t \<Longrightarrow> edits (Suc k) (c # s) (d # t)"
| delete: "edits k s t \<Longrightarrow> edits (Suc k) (c # s) t"
| insert: "edits k s t \<Longrightarrow> edits (Suc k) s (d # t)"

lemma edits_snoc:
  assumes "edits k s t"
  shows "edits k (s @ [c]) (t @ [c])" "edits (Suc k) (s @ [c]) (t @ [d])"
    "edits (Suc k) (s @ [c]) t" "edits (Suc k) s (t @ [d])"
  using assms by (induction rule: edits.induct) (auto intro: edits.intros)

lemma edits_rev: "edits k s t \<Longrightarrow> edits k (rev s) (rev t)"
  by (induction rule: edits.induct) (auto intro: edits_snoc edits.intros)

subsection \<open>The recursion\<close>

fun edit :: "string \<Rightarrow> string \<Rightarrow> nat" where
  "edit [] t = length t"
| "edit (c # s) [] = length (c # s)"
| "edit (c # s) (d # t) =
     min (edit (c # s) t + 1) (min (edit s (d # t) + 1) (if d \<noteq> c then edit s t + 1 else edit s t))"

lemma edit_Nil [simp]: "edit s [] = length s"
  by (cases s) simp_all

lemma edits_insert_all: "edits (length t) [] t"
  by (induction t) (auto intro: edits.intros)

lemma edits_delete_all: "edits (length s) s []"
  by (induction s) (auto intro: edits.intros)

lemma edits_edit: "edits (edit s t) s t"
proof (induction s t rule: edit.induct)
  case (3 c s d t)
  then show ?case
    by (auto simp: min_def intro: edits.intros)
qed (auto intro: edits_insert_all edits_delete_all [of "c # s" for c s, simplified])

lemma edit_least: "edits k s t \<Longrightarrow> edit s t \<le> k"
proof (induction rule: edits.induct)
  case (keep k s t c)
  then show ?case by (simp add: min_def)
next
  case (replace k s t c d)
  then show ?case by (auto simp: min_def)
next
  case (delete k s t c)
  then show ?case by (cases t) (auto simp: min_def)
next
  case (insert k s t d)
  then show ?case by (cases s) (auto simp: min_def)
qed simp

lemma edit_rev: "edit (rev s) (rev t) = edit s t"
  using edit_least [OF edits_rev [OF edits_edit [of s t]]]
    edit_least [OF edits_rev [OF edits_edit [of "rev s" "rev t"]]] by simp

subsection \<open>The loop\<close>

text \<open>The entries of a column, for the longer and longer prefixes of \<open>s1\<close>, reversed.\<close>

fun column_of :: "string \<Rightarrow> string \<Rightarrow> string \<Rightarrow> nat list" where
  "column_of r [] p = []"
| "column_of r (c # s) p = edit (c # r) p # column_of (c # r) s p"

lemma inner_column:
  "levenshtein_inner rx (edit r (rx # p)) (edit r p) s (column_of r s p) = column_of r s (rx # p)"
proof (induction s arbitrary: r)
  case (Cons c s)
  have "edit (c # r) (rx # p) =
      min (edit (c # r) p + 1) (min (edit r (rx # p) + 1) (if rx \<noteq> c then edit r p + 1 else edit r p))"
    by simp
  then show ?case
    using Cons.IH [of "c # r"] by (simp add: Let_def del: edit.simps(3))
qed simp

lemma outer_column:
  "levenshtein_outer (length p) s1 s2 (length p # column_of [] s1 p) =
     length (rev s2 @ p) # column_of [] s1 (rev s2 @ p)"
proof (induction s2 arbitrary: p)
  case (Cons rx s2)
  then show ?case
    using inner_column [of rx "[]" p s1] Cons.IH [of "rx # p"] by simp
qed simp

lemma first_column: "column_of r s [] = [length r + 1..<length r + length s + 1]"
proof (induction s arbitrary: r)
  case (Cons c s)
  have "[length r + 1..<length r + length (c # s) + 1] =
      (length r + 1) # [length (c # r) + 1..<length (c # r) + length s + 1]"
    by (subst upt_conv_Cons) simp_all
  then show ?case
    using Cons.IH [of "c # r"] by simp
qed simp

lemma column_last: "(x # column_of r s p) ! length s = (if s = [] then x else edit (rev s @ r) p)"
proof (induction s arbitrary: r x)
  case (Cons c s)
  then show ?case
    using Cons.IH [of "edit (c # r) p" "c # r"] by simp
qed simp

lemma levenshtein_edit: "levenshtein_distance s t = edit s t"
proof -
  have "[0..<length s + 1] = 0 # column_of [] s []"
    by (simp add: first_column upt_conv_Cons del: upt_Suc)
  then have "levenshtein_distance s t = edit (rev s) (rev t)"
    using outer_column [of "[]" s t] column_last [of "length t" "[]" s "rev t"]
    by (simp add: levenshtein_distance_def)
  then show ?thesis
    by (simp add: edit_rev)
qed

text \<open>C16: \<open>levenshtein_distance\<close> is the edit distance: there is an edit script of that many
  insertions, deletions and replacements, and none that is shorter.\<close>

theorem levenshtein_is_edit_distance:
  "edits (levenshtein_distance s t) s t \<and> levenshtein_distance s t = (LEAST k. edits k s t)"
proof -
  have "edits (levenshtein_distance s t) s t"
    using edits_edit [of s t] by (simp add: levenshtein_edit)
  moreover from this have "(LEAST k. edits k s t) = levenshtein_distance s t"
    using edit_least [of _ s t] by (intro Least_equality) (simp_all add: levenshtein_edit)
  ultimately show ?thesis by simp
qed

end
