(* ===== verification/Type_Names.thy ===== *)
theory Type_Names
  imports Registry
begin

text \<open>
  Types as texts: what the parser prints and parses (\<open>Type::new\<close>, \<open>Display\<close>), and what the
  registry reads from the printed text (\<open>MetaTypeName\<close>). Names contain neither brackets nor
  exclamation marks, as the names of the language do.
\<close>

definition plain_name :: "name \<Rightarrow> bool" where
  "plain_name n \<longleftrightarrow> (\<forall>c\<in>set n. c \<noteq> CHR ''['' \<and> c \<noteq> CHR '']'' \<and> c \<noteq> CHR ''!'')"

fun base_name :: "gtype \<Rightarrow> name" where
  "base_name (GType (BNamed n) _) = n"
| "base_name (GType (BList t) _) = base_name t"

text \<open>The parts of a type name a plain name has not.\<close>

lemma plain_no_suffix [simp]: "plain_name n \<Longrightarrow> strip_suffix (CHR ''!'') n = None"
  by (auto simp: strip_suffix_def plain_name_def dest: last_in_set)

lemma plain_no_prefix [simp]: "plain_name n \<Longrightarrow> strip_prefix (CHR ''['') n = None"
  by (cases n) (auto simp: plain_name_def)

lemma strip_suffix_Some: "strip_suffix c s = Some t \<longleftrightarrow> s = t @ [c]"
  by (cases s rule: rev_cases) auto

lemma strip_prefix_Some: "strip_prefix c s = Some t \<longleftrightarrow> s = c # t"
  by (cases s) auto

lemma strip_suffix_bracketed: "strip_suffix (CHR ''!'') (c # s @ [d]) = (if d = CHR ''!'' then Some (c # s) else None)"
  by (simp add: strip_suffix_def)

lemma strip_suffix_list:
  "strip_suffix (CHR ''!'') (CHR ''['' # s @ '']!'') = Some (CHR ''['' # s @ '']'')"
  by (simp add: strip_suffix_Some)

subsection \<open>Printing and parsing\<close>

lemma type_new_show: "plain_name (base_name t) \<Longrightarrow> type_new (show_type t) = Some t"
proof (induction t rule: base_name.induct)
  case (1 n b)
  then show ?case
    by (subst type_new.simps) simp
next
  case (2 t b)
  then show ?case
    by (subst type_new.simps) (simp add: strip_suffix_bracketed strip_suffix_list)
qed

lemma show_type_new: "type_new s = Some t \<Longrightarrow> show_type t = s"
proof (induction s arbitrary: t rule: type_new.induct)
  case (1 s)
  obtain nl rest where nr: "(case strip_suffix (CHR ''!'') s of Some rest \<Rightarrow> (False, rest) | None \<Rightarrow> (True, s)) = (nl, rest)"
    by (cases "strip_suffix (CHR ''!'') s") auto
  then have s: "s = rest @ (if nl then '''' else ''!'')"
    by (auto simp: strip_suffix_Some split: option.splits)
  show ?case
  proof (cases "strip_prefix (CHR ''['') rest")
    case None
    then have "t = GType (BNamed rest) nl"
      using "1.prems" by (subst (asm) type_new.simps) (simp add: nr)
    then show ?thesis
      by (simp add: s)
  next
    case (Some inner)
    then obtain elem u where "strip_suffix (CHR '']'') inner = Some elem" "type_new elem = Some u"
      "t = GType (BList u) nl"
      using "1.prems" by (subst (asm) type_new.simps) (auto simp: nr split: option.splits)
    moreover from this have "show_type u = elem"
      using "1.IH" [OF nr [symmetric]] Some by simp
    ultimately show ?thesis
      using Some by (simp add: s strip_suffix_Some strip_prefix_Some)
  qed
qed

text \<open>\<open>Type::new\<close> parses exactly what \<open>Display\<close> prints: it returns a type with plain names
  exactly on the printed text of that type.\<close>

theorem type_new_inverse:
  assumes "plain_name (base_name t)"
  shows "type_new s = Some t \<longleftrightarrow> s = show_type t"
  using type_new_show [OF assms] show_type_new by metis

theorem type_new_inverse_witness:
  "plain_name (base_name (GType (BList (GType (BNamed ''Int'') False)) True)) \<and>
   type_new ''[Int!]'' = Some (GType (BList (GType (BNamed ''Int'') False)) True)"
  using type_new_inverse [of "GType (BList (GType (BNamed ''Int'') False)) True" "''[Int!]''"]
  by (simp add: plain_name_def)

subsection \<open>Type names of the registry\<close>

fun mtn_of :: "gtype \<Rightarrow> meta_type_name" where
  "mtn_of (GType b False) = MNonNull (show_base_type b)"
| "mtn_of (GType (BNamed n) True) = MNamed n"
| "mtn_of (GType (BList t) True) = MList (show_type t)"

lemma mtn_create_show: "plain_name (base_name t) \<Longrightarrow> mtn_create (show_type t) = Done (mtn_of t)"
  by (induction t rule: mtn_of.induct)
    (simp_all add: mtn_create_def strip_suffix_bracketed strip_brackets_def is_continuation_def)

lemma mtn_create_base:
  "plain_name (base_name (GType b n)) \<Longrightarrow> mtn_create (show_base_type b) = Done (mtn_of (GType b True))"
  using mtn_create_show [of "GType b True"] by (cases b) auto

lemma concrete_step:
  "plain_name (base_name t) \<Longrightarrow> concrete_typename (show_type t) =
     (case mtn_of t of MList s \<Rightarrow> concrete_typename s | MNonNull s \<Rightarrow> concrete_typename s | MNamed s \<Rightarrow> Done s)"
  by (simp only: concrete_typename.simps [of "show_type t"] mtn_create_show run_bind.simps)

lemma concrete_nullable:
  assumes "plain_name (base_name (GType b n))"
  shows "concrete_typename (show_type (GType b n)) = concrete_typename (show_type (GType b True))"
  using concrete_step [OF assms] by (cases n) simp_all

lemma concrete_typename_base:
  "plain_name (base_name t) \<Longrightarrow> concrete_typename (show_type t) = Done (base_name t)"
proof (induction t rule: base_name.induct)
  case (1 n b)
  then show ?case
    using concrete_nullable [of "BNamed n" b] concrete_step [of "GType (BNamed n) True"] by simp
next
  case (2 t b)
  then show ?case
    using concrete_nullable [of "BList t" b] concrete_step [of "GType (BList t) True"] by simp
qed

text \<open>\<open>concrete_typename\<close> of a printed type is the name inside all its brackets and exclamation
  marks; in particular it does not panic.\<close>

theorem concrete_typename_show:
  assumes "plain_name (base_name t)"
  shows "concrete_typename (show_type t) = Done (base_name t)"
  using concrete_typename_base [OF assms] .

theorem concrete_typename_show_witness:
  "plain_name (base_name (GType (BList (GType (BNamed ''Int'') False)) True)) \<and>
   concrete_typename ''[Int!]'' = Done ''Int''"
  using concrete_typename_show [of "GType (BList (GType (BNamed ''Int'') False)) True"]
  by (simp add: plain_name_def)

subsection \<open>Subtypes\<close>

text \<open>
  \<open>is_subtype\<close> is asked whether a variable of the second type may stand in a position of the first.
  The specification of GraphQL answers with \<open>AreTypesCompatible(variableType, locationType)\<close>.
\<close>

fun weight :: "gtype \<Rightarrow> nat" where
  "weight (GType (BNamed n) b) = (if b then 1 else 2)"
| "weight (GType (BList t) b) = weight t + (if b then 1 else 2)"

lemma weight_unwrap [simp]: "weight (GType b True) < weight (GType b False)"
  by (cases b) simp_all

function (sequential) are_compatible :: "gtype \<Rightarrow> gtype \<Rightarrow> bool" where
  "are_compatible (GType v False) (GType l False) = are_compatible (GType v True) (GType l True)"
| "are_compatible (GType v True) (GType l False) = False"
| "are_compatible (GType v False) (GType l True) = are_compatible (GType v True) (GType l True)"
| "are_compatible (GType (BList v) True) (GType (BList l) True) = are_compatible v l"
| "are_compatible (GType (BNamed v) True) (GType (BNamed l) True) = (v = l)"
| "are_compatible _ _ = False"
  by pat_completeness auto
termination
  by (relation "measure (\<lambda>(v, l). weight v)") simp_all

text \<open>What the code answers, on types: a nullable list is not entered from a non-null type.\<close>

function (sequential) code_compatible :: "gtype \<Rightarrow> gtype \<Rightarrow> bool" where
  "code_compatible (GType v False) (GType l False) = code_compatible (GType v True) (GType l True)"
| "code_compatible (GType v False) (GType (BNamed l) True) = code_compatible (GType v True) (GType (BNamed l) True)"
| "code_compatible (GType (BNamed v) True) (GType (BNamed l) True) = (v = l)"
| "code_compatible (GType (BList v) True) (GType (BList l) True) = code_compatible v l"
| "code_compatible _ _ = False"
  by pat_completeness auto
termination
  by (relation "measure (\<lambda>(v, l). weight v)") simp_all

lemma is_subtype_code:
  "plain_name (base_name v) \<Longrightarrow> plain_name (base_name l) \<Longrightarrow>
     is_subtype (mtn_of l) (mtn_of v) = Done (code_compatible v l)"
proof (induction "weight v" arbitrary: v l rule: less_induct)
  case less
  obtain w c k d where v: "v = GType w c" and l: "l = GType k d" by (cases v; cases l)
  note parts = mtn_create_base [of w c] mtn_create_base [of k d]
  show ?case
    using less.prems less.hyps [of "GType w True" "GType k True"] parts less.hyps
    by (cases w; cases k; cases c; cases d) (auto simp: v l mtn_create_show)
qed

lemma code_sound: "code_compatible v l \<Longrightarrow> are_compatible v l"
  by (induction v l rule: code_compatible.induct) auto

text \<open>No list layer of a position is nullable.\<close>

fun rigid_lists :: "gtype \<Rightarrow> bool" where
  "rigid_lists (GType (BNamed n) b) = True"
| "rigid_lists (GType (BList t) b) = (\<not> b \<and> rigid_lists t)"

lemma code_complete: "rigid_lists l \<Longrightarrow> code_compatible v l = are_compatible v l"
proof (induction l arbitrary: v rule: rigid_lists.induct)
  case (1 n b)
  obtain w c where v: "v = GType w c" by (cases v)
  show ?case
    by (cases w; cases b; cases c) (simp_all add: v)
next
  case (2 t b)
  obtain w c where v: "v = GType w c" by (cases v)
  show ?case
    using 2 by (cases w; cases c) (simp_all add: v)
qed

text \<open>C14: \<open>MetaTypeName::is_subtype\<close> never panics on printed types, accepts only what the
  specification's \<open>AreTypesCompatible\<close> accepts, and accepts all of it where the position has no
  nullable list.\<close>

theorem is_subtype_compatible:
  assumes "plain_name (base_name v)" "plain_name (base_name l)"
  shows "\<exists>b. is_subtype (mtn_of l) (mtn_of v) = Done b \<and>
    (b \<longrightarrow> are_compatible v l) \<and> (rigid_lists l \<longrightarrow> b = are_compatible v l)"
  using is_subtype_code [OF assms] code_sound code_complete by blast

theorem is_subtype_compatible_witness:
  "is_subtype (MList ''Int'') (MNonNull ''[Int]'') = Done False \<and>
   are_compatible (GType (BList (GType (BNamed ''Int'') True)) False) (GType (BList (GType (BNamed ''Int'') True)) True) \<and>
   is_subtype (MNonNull ''[Int]'') (MNonNull ''[Int!]'') = Done True"
  using is_subtype_compatible [of "GType (BList (GType (BNamed ''Int'') False)) False"
      "GType (BList (GType (BNamed ''Int'') True)) False"]
  by (auto simp: plain_name_def)

end
