(* ===== verification/Registry_Facts.thy ===== *)
theory Registry_Facts
  imports Registry "HOL-Library.Multiset"
begin

text \<open>
  Facts about the registry: the overlap of composite types and the merging of cache controls.
\<close>

subsection \<open>Overlap\<close>

lemma possible_types_iff:
  "is_abstract ty \<Longrightarrow> is_possible_type ty n \<longleftrightarrow> n \<in> set (case possible_types ty of None \<Rightarrow> [] | Some ts \<Rightarrow> ts)"
  by (cases ty) simp_all

lemma possible_object: "is_composite ty \<Longrightarrow> \<not> is_abstract ty \<Longrightarrow> is_possible_type ty n \<longleftrightarrow> n = mt_name ty"
  by (cases ty) auto

text \<open>Two composite types overlap exactly when they are the same type or some object type is
  possible for both; in particular the relation is symmetric.\<close>

theorem type_overlap_iff:
  assumes "is_composite a" "is_composite b"
  shows "type_overlap a b \<longleftrightarrow> mt_name a = mt_name b \<or> (\<exists>n. is_possible_type a n \<and> is_possible_type b n)"
  using assms
  by (cases "is_abstract a"; cases "is_abstract b")
    (auto simp: type_overlap_def list_ex_iff possible_types_iff possible_object)

definition sample_union :: "string \<Rightarrow> string list \<Rightarrow> meta_type" where
  "sample_union n ts = MTUnion
     \<lparr>un_name = n, un_description = None, un_possible_types = ts, un_visible = None,
      un_inaccessible = False, un_tags = [], un_rust_typename = None, un_directive_invocations = []\<rparr>"

theorem type_overlap_iff_witness:
  "is_composite (sample_union ''U'' [''A'', ''B'']) \<and> is_composite (sample_union ''V'' [''B'']) \<and>
   type_overlap (sample_union ''U'' [''A'', ''B'']) (sample_union ''V'' [''B''])"
  using type_overlap_iff [of "sample_union ''U'' [''A'', ''B'']" "sample_union ''V'' [''B'']"]
  by (simp add: sample_union_def)

subsection \<open>Cache control\<close>

lemma merge_max_age_cases:
  "merge_max_age a b = (if a = -1 \<or> b = -1 then -1 else if a = 0 then b else if b = 0 then a else min a b)"
  by (simp add: merge_max_age_def)

interpretation merge: semilattice_neutr cache_merge default_cache_control
  by unfold_locales
    (auto simp: cache_merge_def merge_max_age_cases default_cache_control_def min_def)

definition merge_all :: "cache_control list \<Rightarrow> cache_control" where
  "merge_all cs = foldl cache_merge default_cache_control cs"

lemma merge_all_snoc [simp]: "merge_all (cs @ [c]) = cache_merge (merge_all cs) c" "merge_all [] = default_cache_control"
  by (simp_all add: merge_all_def)

text \<open>The order in which the fields are met does not matter.\<close>

lemma merge_all_permuted: "mset cs = mset ds \<Longrightarrow> merge_all cs = merge_all ds"
proof -
  assume "mset cs = mset ds"
  moreover have "(\<lambda>acc. cache_merge acc c) \<circ> (\<lambda>acc. cache_merge acc d) =
      (\<lambda>acc. cache_merge acc d) \<circ> (\<lambda>acc. cache_merge acc c)" for c d
    by (simp add: fun_eq_iff merge.assoc merge.commute [of c d])
  ultimately have "fold (\<lambda>c acc. cache_merge acc c) cs = fold (\<lambda>c acc. cache_merge acc c) ds"
    by (intro fold_multiset_equiv)
  then show ?thesis
    by (simp add: merge_all_def foldl_conv_fold)
qed

definition ages :: "cache_control list \<Rightarrow> int set" where
  "ages cs = cc_max_age ` set cs"

lemma merged_age:
  "cc_max_age (merge_all cs) =
     (if -1 \<in> ages cs then -1 else if ages cs \<subseteq> {0} then 0 else Min (ages cs - {0}))"
proof (induction cs rule: rev_induct)
  case Nil
  then show ?case by (simp add: ages_def default_cache_control_def)
next
  case (snoc c cs)
  have fin: "finite (ages cs)" by (simp add: ages_def)
  have new: "ages (cs @ [c]) = insert (cc_max_age c) (ages cs)" by (auto simp: ages_def)
  have nonneg: "Min (ages cs - {0}) \<in> ages cs - {0}" if "\<not> ages cs \<subseteq> {0}"
    using that fin by (intro Min_in) auto
  show ?case
  proof (cases "-1 \<in> ages (cs @ [c])")
    case True
    then show ?thesis
      using snoc.IH by (auto simp: new cache_merge_def merge_max_age_cases)
  next
    case no: False
    show ?thesis
    proof (cases "ages cs \<subseteq> {0}")
      case True
      then have "ages (cs @ [c]) - {0} = {cc_max_age c} - {0}"
        by (auto simp: new)
      then show ?thesis
        using snoc.IH no True by (auto simp: new cache_merge_def merge_max_age_cases)
    next
      case False
      then have "insert (cc_max_age c) (ages cs) - {0} =
          (if cc_max_age c = 0 then ages cs - {0} else insert (cc_max_age c) (ages cs - {0}))"
        by auto
      moreover have "Min (insert (cc_max_age c) (ages cs - {0})) = min (cc_max_age c) (Min (ages cs - {0}))"
        using False fin by (intro Min_insert) auto
      moreover define M where "M = Min (ages cs - {0})"
      moreover have M: "cc_max_age (merge_all cs) = M" "M \<noteq> 0" "M \<noteq> -1"
        using snoc.IH no False nonneg [OF False] by (auto simp: new M_def)
      ultimately have "(if ages (cs @ [c]) \<subseteq> {0} then 0 else Min (ages (cs @ [c]) - {0})) =
          (if cc_max_age c = 0 then M else min (cc_max_age c) M)"
        using False by (auto simp: new)
      then show ?thesis
        using no M by (simp add: new cache_merge_def merge_max_age_cases min.commute)
    qed
  qed
qed

text \<open>Merging the cache controls of the selected fields gives a public policy exactly when all
  are public, no-cache as soon as one is, and otherwise the least of the ages that are set (zero, the
  default, when none is); the order of the fields does not matter.\<close>

theorem merge_all_policy:
  "merge_all cs =
     \<lparr>cc_public = list_all cc_public cs,
      cc_max_age = (if -1 \<in> ages cs then -1 else if ages cs - {0} = {} then 0 else Min (ages cs - {0}))\<rparr>"
proof -
  have "cc_public (merge_all cs) = list_all cc_public cs"
    by (induction cs rule: rev_induct) (auto simp: default_cache_control_def cache_merge_def)
  then show ?thesis
    using merged_age [of cs] by (cases "merge_all cs") simp
qed

end
