(* ===== verification/Value_Facts.thy ===== *)
theory Value_Facts
  imports Values
begin

text \<open>
  Facts about values: constants and values without variables are the same, and the equality of the
  code is an equivalence on values whose objects have distinct keys, as maps have.
\<close>

subsection \<open>Conversions\<close>

lemma into_const_with_closed:
  "referenced_variables v = [] \<Longrightarrow> \<exists>c. into_const_with f v = Inr c \<and> into_value c = v"
  "referenced_in_list vs = [] \<Longrightarrow> \<exists>cs. into_const_list f vs = Inr cs \<and> map into_value cs = vs"
  "referenced_in_fields m = [] \<Longrightarrow>
     \<exists>cs. into_const_fields f m = Inr cs \<and> map (\<lambda>(k, c). (k, into_value c)) cs = m"
  by (induction v and vs and m rule: referenced_variables_referenced_in_list_referenced_in_fields.induct)
    fastforce+

lemma into_const_with_variable:
  "into_const_with f v = Inr c \<Longrightarrow> (\<forall>n. isl (f n)) \<Longrightarrow> referenced_variables v = []"
  "into_const_list f vs = Inr cs \<Longrightarrow> (\<forall>n. isl (f n)) \<Longrightarrow> referenced_in_list vs = []"
  "into_const_fields f m = Inr ms \<Longrightarrow> (\<forall>n. isl (f n)) \<Longrightarrow> referenced_in_fields m = []"
proof (induction v and vs and m arbitrary: c and cs and ms
    rule: referenced_variables_referenced_in_list_referenced_in_fields.induct)
  case (1 n) then show ?case by (metis into_const_with.simps(1) isl_def sum.distinct(1))
qed (auto simp: result_bind_Inr_iff)

lemma into_value_closed:
  "referenced_variables (into_value c) = []"
proof (induction c)
  case (CList cs)
  then have "referenced_in_list (map into_value cs) = []" by (induction cs) auto
  then show ?case by simp
next
  case (CObject m)
  then have "referenced_in_fields (map (\<lambda>(k, v). (k, into_value v)) m) = []"
    by (induction m) (fastforce simp: fsts.simps snds.simps)+
  then show ?case by simp
qed simp_all

lemma into_value_inject: "into_value c = into_value d \<Longrightarrow> c = d"
proof (induction c arbitrary: d)
  case (CList cs)
  then obtain ds where ds: "d = CList ds" "map into_value cs = map into_value ds" by (cases d) auto
  then have "cs = ds"
    using CList.IH by (auto simp: list_eq_iff_nth_eq)
  then show ?case using ds by simp
next
  case (CObject m)
  then obtain m' where m': "d = CObject m'"
    "map (\<lambda>(k, v). (k, into_value v)) m = map (\<lambda>(k, v). (k, into_value v)) m'"
    by (cases d) auto
  have "x = y" if "x \<in> set m" "(\<lambda>(k, v). (k, into_value v)) x = (\<lambda>(k, v). (k, into_value v)) y" for x y
  proof -
    obtain k v l w where xy: "x = (k, v)" "y = (l, w)" by (cases x; cases y)
    then have "v = w"
      using that CObject.IH [of x v w] by simp
    then show ?thesis
      using that xy by simp
  qed
  then have "m = m'"
    using m'(2) by (auto simp: list_eq_iff_nth_eq)
  then show ?case using m' by simp
qed (case_tac d; auto)+

text \<open>\<open>into_const\<close> succeeds exactly on the values that reference no variable, and returns the
  constant whose value it is; so it inverts \<open>into_value\<close>.\<close>

theorem into_const_inverse:
  "into_const v = Some c \<longleftrightarrow> v = into_value c"
proof
  assume "into_const v = Some c"
  then have c: "into_const_with (\<lambda>_. Inl ()) v = Inr c"
    by (auto simp: into_const_def split: sum.splits)
  then have "referenced_variables v = []"
    using into_const_with_variable(1) by fastforce
  then show "v = into_value c"
    using into_const_with_closed(1) [of v "\<lambda>_. Inl ()"] c by auto
next
  assume "v = into_value c"
  then obtain d where "into_const_with (\<lambda>_. Inl ()) v = Inr d" "into_value d = v"
    using into_const_with_closed(1) [of v "\<lambda>_. Inl ()"] into_value_closed by blast
  then show "into_const v = Some c"
    using \<open>v = into_value c\<close> into_value_inject by (auto simp: into_const_def)
qed

text \<open>\<open>into_const\<close> fails exactly on the values in which \<open>referenced_variables\<close> finds a variable.\<close>

theorem into_const_none: "into_const v = None \<longleftrightarrow> referenced_variables v \<noteq> []"
proof
  assume "into_const v = None"
  then show "referenced_variables v \<noteq> []"
    using into_const_with_closed(1) [of v "\<lambda>_. Inl ()"] by (auto simp: into_const_def)
next
  assume "referenced_variables v \<noteq> []"
  then show "into_const v = None"
    using into_const_with_variable(1) [of "\<lambda>_. Inl ()" v] by (auto simp: into_const_def split: sum.splits)
qed

subsection \<open>Equality\<close>

text \<open>The keys of every object are distinct, as the keys of a map are.\<close>

fun distinct_keys :: "const_value \<Rightarrow> bool" where
  "distinct_keys (CList xs) \<longleftrightarrow> (\<forall>x\<in>set xs. distinct_keys x)"
| "distinct_keys (CObject m) \<longleftrightarrow> distinct (map fst m) \<and> (\<forall>x\<in>set m. distinct_keys (snd x))"
| "distinct_keys _ \<longleftrightarrow> True"

text \<open>A value up to the order of fields and the difference between enum values and strings.\<close>

fun canonical :: "const_value \<Rightarrow> const_value" where
  "canonical (CEnum n) = CString n"
| "canonical (CList xs) = CList (map canonical xs)"
| "canonical (CObject m) = CObject (sort_key fst (map (\<lambda>(k, v). (k, canonical v)) m))"
| "canonical v = v"

lemma const_zip_all2: "length as = length bs \<Longrightarrow> const_zip_eq as bs \<longleftrightarrow> list_all2 const_value_eq as bs"
  by (induction as bs rule: list_induct2) simp_all

lemma const_fields_all:
  "const_fields_eq as m \<longleftrightarrow> (\<forall>(k, v)\<in>set as. \<exists>w. map_of m k = Some w \<and> const_value_eq w v)"
  by (induction as) (auto split: option.splits)

lemma sort_key_eq_iff:
  assumes "distinct (map fst as)" "distinct (map fst bs)"
  shows "sort_key fst as = sort_key fst bs \<longleftrightarrow> set as = set (bs :: (name \<times> 'b) list)"
proof
  assume "sort_key fst as = sort_key fst bs"
  then have "set (sort_key fst as) = set (sort_key fst bs)" by simp
  then show "set as = set bs" by simp
next
  assume eq: "set as = set bs"
  have "inj_on fst (set as \<union> set bs)"
    using assms(1) eq by (simp add: distinct_map)
  moreover have "distinct (map fst (sort_key fst as))" "distinct (map fst (sort_key fst bs))"
    using assms by (simp_all add: distinct_map)
  ultimately show "sort_key fst as = sort_key fst bs"
    by (intro map_sorted_distinct_set_unique [of fst]) (simp_all add: eq)
qed

lemma distinct_mapI: "distinct (map f xs) \<Longrightarrow> distinct xs"
  by (simp add: distinct_map)

lemma same_fields:
  fixes as bs :: "(name \<times> 'a) list" and f :: "'a \<Rightarrow> 'b"
  assumes "distinct (map fst as)" "distinct (map fst bs)" "length as = length bs"
  shows "(\<forall>(k, v)\<in>set as. \<exists>w. map_of bs k = Some w \<and> f w = f v) \<longleftrightarrow>
    set (map (\<lambda>(k, v). (k, f v)) as) = set (map (\<lambda>(k, v). (k, f v)) bs)"
proof -
  let ?as = "map (\<lambda>(k, v). (k, f v)) as" and ?bs = "map (\<lambda>(k, v). (k, f v)) bs"
  have keys: "map fst ?as = map fst as" "map fst ?bs = map fst bs"
    by (simp_all add: case_prod_unfold comp_def)
  then have distinct: "distinct ?as" "distinct ?bs"
    using assms(1,2) by (simp_all only: distinct_mapI flip: keys)
  have "(\<exists>w. map_of bs k = Some w \<and> f w = f v) \<longleftrightarrow> (k, f v) \<in> set ?bs" for k v
    by (auto simp: map_of_eq_Some_iff [OF assms(2)] intro: rev_image_eqI)
  then have "(\<forall>(k, v)\<in>set as. \<exists>w. map_of bs k = Some w \<and> f w = f v) \<longleftrightarrow> set ?as \<subseteq> set ?bs"
    by (simp add: image_subset_iff split_beta)
  also have "\<dots> \<longleftrightarrow> set ?as = set ?bs"
    using distinct assms(3) card_subset_eq [of "set ?bs" "set ?as"]
    by (auto simp: distinct_card simp del: set_map)
  finally show ?thesis .
qed

lemma field_size:
  "(k, a) \<in> set as \<Longrightarrow> size a < size (CObject as)"
  by (induction as) auto

lemma const_value_eq_canonical':
  "distinct_keys v \<Longrightarrow> distinct_keys w \<Longrightarrow> const_value_eq v w \<longleftrightarrow> canonical v = canonical w"
proof (induction "size v + size w" arbitrary: v w rule: less_induct)
  case less
  note IH = less.hyps
  show ?case
  proof (cases v)
    case v: (CList xs)
    show ?thesis
    proof (cases w)
      case w: (CList ys)
      have "const_value_eq x y \<longleftrightarrow> canonical x = canonical y" if "x \<in> set xs" "y \<in> set ys" for x y
        using that less.prems size_list_estimation' [of x xs "size x" size]
          size_list_estimation' [of y ys "size y" size]
        by (intro IH) (auto simp: v w)
      then have "length xs = length ys \<Longrightarrow> list_all2 const_value_eq xs ys \<longleftrightarrow> map canonical xs = map canonical ys"
        by (auto simp: list_all2_conv_all_nth list_eq_iff_nth_eq)
      moreover have "map canonical xs = map canonical ys \<Longrightarrow> length xs = length ys"
        by (metis length_map)
      ultimately show ?thesis
        by (auto simp: v w const_zip_all2)
    qed (simp_all add: v)
  next
    case v: (CObject as)
    show ?thesis
    proof (cases w)
      case w: (CObject bs)
      let ?as = "map (\<lambda>(k, v). (k, canonical v)) as" and ?bs = "map (\<lambda>(k, v). (k, canonical v)) bs"
      have keys: "map fst ?as = map fst as" "map fst ?bs = map fst bs"
        by (simp_all add: case_prod_unfold comp_def)
      have dist: "distinct (map fst as)" "distinct (map fst bs)"
        using less.prems by (simp_all add: v w)
      have step: "const_value_eq b a \<longleftrightarrow> canonical b = canonical a"
        if "(k, a) \<in> set as" "map_of bs k = Some b" for k a b
      proof -
        have b: "(k, b) \<in> set bs" using that(2) by (rule map_of_SomeD)
        have "size b + size a < size v + size w"
          using field_size [OF that(1)] field_size [OF b] by (simp add: v w)
        moreover have "distinct_keys a" "distinct_keys b"
          using less.prems that(1) b by (force simp: v w)+
        ultimately show ?thesis by (intro IH)
      qed
      have 1: "const_fields_eq as bs \<longleftrightarrow> (\<forall>(k, a)\<in>set as. \<exists>b. map_of bs k = Some b \<and> canonical b = canonical a)"
        unfolding const_fields_all using step by fast
      have 2: "canonical v = canonical w \<longleftrightarrow> set ?as = set ?bs"
        using sort_key_eq_iff [of ?as ?bs, unfolded keys] dist by (simp add: v w)
      have 3: "length as = length bs" if "set ?as = set ?bs"
      proof -
        have "set (map fst as) = set (map fst bs)"
          using arg_cong [OF that, of "image fst"] by (simp only: keys flip: set_map)
        then show ?thesis
          using dist distinct_card [of "map fst as"] distinct_card [of "map fst bs"] by simp
      qed
      have "const_value_eq v w \<longleftrightarrow> length as = length bs \<and> const_fields_eq as bs"
        by (simp add: v w)
      also have "\<dots> \<longleftrightarrow> length as = length bs \<and> set ?as = set ?bs"
        using same_fields [OF dist, of canonical] by (simp only: 1 cong: conj_cong)
      also have "\<dots> \<longleftrightarrow> canonical v = canonical w"
        using 2 3 by (simp only:) blast
      finally show ?thesis .
    qed (simp_all add: v)
  qed (use less.prems in \<open>cases w; auto\<close>)+
qed

text \<open>C17: on values whose objects have distinct keys, the equality of the code is equality of canonical
  forms: it ignores the order of fields, reads an enum value as a string, and is an equivalence.\<close>

theorem const_value_eq_canonical:
  assumes "distinct_keys v" "distinct_keys w"
  shows "const_value_eq v w \<longleftrightarrow> canonical v = canonical w"
  using assms by (rule const_value_eq_canonical')

lemma const_value_eq_canonical_witness:
  "const_value_eq (CObject [(''a'', CEnum ''X''), (''b'', CNull)]) (CObject [(''b'', CNull), (''a'', CString ''X'')])"
  by (subst const_value_eq_canonical) simp_all

end
