(* ===== verification/Execution.thy ===== *)
theory Execution
  imports Schema_Prepare
begin

text \<open>
  The execution of a prepared request: query contexts (\<open>src/src/context.rs\<close>), the collection of the
  fields of a container and their results (\<open>src/src/resolver_utils\<close>), the output of options, results
  and lists (\<open>src/src/types/external\<close>, \<open>src/src/base.rs\<close>) and \<open>Schema::execute_once\<close>
  (\<open>src/src/schema.rs\<close>).

  The types and resolvers of a user are the data of the model: an \<open>out_value\<close> is a Rust value with its
  \<open>OutputType\<close>, an \<open>object\<close> a container with its type names and what each of its fields resolves to,
  in the shapes the macros generate. Futures are ready when they are first polled, so the fields of a
  container and the items of a list finish in their order, in parallel or not. No extension and no
  custom directive is registered.
\<close>

subsection \<open>Errors\<close>

record error_value =
  er_message :: string
  er_source :: "error_source option"
  er_extensions :: "(string \<times> const_value) list option"

definition into_server_error :: "error_value \<Rightarrow> src_pos \<Rightarrow> server_error" where
  "into_server_error e p =
     \<lparr>se_message = er_message e, se_source = er_source e, se_locations = [p], se_path = [],
      se_extensions = er_extensions e\<rparr>"

fun path_segment_of :: "query_path_segment \<Rightarrow> path_segment" where
  "path_segment_of (SegName n) = PathField n"
| "path_segment_of (SegIndex i) = PathIndex i"

definition set_error_path :: "query_path_node option \<Rightarrow> server_error \<Rightarrow> server_error" where
  "set_error_path path err =
     (case path of None \<Rightarrow> err | Some p \<Rightarrow> err\<lparr>se_path := map path_segment_of (path_segments p)\<rparr>)"

definition set_error_path_if_empty :: "query_path_node option \<Rightarrow> server_error \<Rightarrow> server_error" where
  "set_error_path_if_empty path err = (if se_path err = [] then set_error_path path err else err)"

definition with_field :: "query_path_node option \<Rightarrow> field \<Rightarrow> query_path_node option" where
  "with_field path fld = Some (PathNode path (SegName (node (response_key fld))))"

definition with_index :: "query_path_node option \<Rightarrow> nat \<Rightarrow> query_path_node option" where
  "with_index path i = Some (PathNode path (SegIndex i))"

subsection \<open>Input values\<close>

text \<open>The value of a variable: given, its default, or omitted.\<close>

definition var_value ::
  "variable_definition positioned list \<Rightarrow> variables \<Rightarrow> name \<Rightarrow> src_pos \<Rightarrow> server_error + const_value option"
where
  "var_value defs vars n p =
     (case List.find (\<lambda>def. node (vd_name (node def)) = n) defs of
        None \<Rightarrow> Inl (server_error_new (''Variable '' @ n @ '' is not defined.'') (Some p))
      | Some def \<Rightarrow>
          Inr (case map_of vars (node (vd_name (node def))) of
                 Some v \<Rightarrow> Some v
               | None \<Rightarrow> map_option node (vd_default_value (node def))))"

text \<open>\<open>resolve_input_value\<close>: an omitted variable is omitted, null in a list, and left out of an object.\<close>

fun resolve_input_value ::
  "variable_definition positioned list \<Rightarrow> variables \<Rightarrow> src_pos \<Rightarrow> gvalue \<Rightarrow> server_error + const_value option"
  and resolve_input_items ::
  "variable_definition positioned list \<Rightarrow> variables \<Rightarrow> src_pos \<Rightarrow> gvalue list \<Rightarrow> server_error + const_value list"
  and resolve_input_fields ::
  "variable_definition positioned list \<Rightarrow> variables \<Rightarrow> src_pos \<Rightarrow> (name \<times> gvalue) list \<Rightarrow>
   server_error + (name \<times> const_value) list"
where
  "resolve_input_value defs vars p (VVariable n) = var_value defs vars n p"
| "resolve_input_value defs vars p VNull = Inr (Some CNull)"
| "resolve_input_value defs vars p (VNumber n) = Inr (Some (CNumber n))"
| "resolve_input_value defs vars p (VString s) = Inr (Some (CString s))"
| "resolve_input_value defs vars p (VBoolean b) = Inr (Some (CBoolean b))"
| "resolve_input_value defs vars p (VBinary b) = Inr (Some (CBinary b))"
| "resolve_input_value defs vars p (VEnum n) = Inr (Some (CEnum n))"
| "resolve_input_value defs vars p (VList vs) =
     map_sum id (\<lambda>cs. Some (CList cs)) (resolve_input_items defs vars p vs)"
| "resolve_input_value defs vars p (VObject m) =
     map_sum id (\<lambda>cs. Some (CObject cs)) (resolve_input_fields defs vars p m)"
| "resolve_input_items defs vars p [] = Inr []"
| "resolve_input_items defs vars p (v # vs) =
     result_bind (resolve_input_value defs vars p v) (\<lambda>c.
     map_sum id (\<lambda>cs. (case c of Some c \<Rightarrow> c | None \<Rightarrow> CNull) # cs) (resolve_input_items defs vars p vs))"
| "resolve_input_fields defs vars p [] = Inr []"
| "resolve_input_fields defs vars p ((k, v) # m) =
     result_bind (resolve_input_value defs vars p v) (\<lambda>c.
     map_sum id (\<lambda>cs. case c of Some c \<Rightarrow> (k, c) # cs | None \<Rightarrow> cs) (resolve_input_fields defs vars p m))"

text \<open>\<open>get_param_value\<close>: an absent argument takes its default, if it has one; the parser of the
  argument's type and its error are arguments of the model.\<close>

definition get_param_value ::
  "variable_definition positioned list \<Rightarrow> variables \<Rightarrow> (const_value option \<Rightarrow> error_value + 'q) \<Rightarrow> arguments \<Rightarrow>
   name \<Rightarrow> 'q option \<Rightarrow> server_error + src_pos \<times> 'q" where
  "get_param_value defs vars parse args n dflt =
     (let arg = find_argument n args in
      case (arg, dflt) of
        (None, Some d) \<Rightarrow> Inr (default_pos, d)
      | _ \<Rightarrow>
          result_bind
            (case arg of
               Some v \<Rightarrow> map_sum id (\<lambda>c. (pos v, c)) (resolve_input_value defs vars (pos v) (node v))
             | None \<Rightarrow> Inr (default_pos, None))
            (\<lambda>(p, c). map_sum (\<lambda>e. into_server_error e p) (\<lambda>q. (p, q)) (parse c)))"

subsection \<open>Merging results\<close>

text \<open>\<open>insert_value\<close>: a value for a known name is merged into the one that is there, objects by name and
  objects in lists by position; anything else keeps the first value.\<close>

fun insert_value :: "name \<Rightarrow> const_value \<Rightarrow> (name \<times> const_value) list \<Rightarrow> (name \<times> const_value) list"
  and merge_value :: "const_value \<Rightarrow> const_value \<Rightarrow> const_value"
  and merge_items :: "const_value list \<Rightarrow> const_value list \<Rightarrow> const_value list"
  and insert_all :: "(name \<times> const_value) list \<Rightarrow> (name \<times> const_value) list \<Rightarrow> (name \<times> const_value) list"
where
  "insert_value n v [] = [(n, v)]"
| "insert_value n v ((m, w) # rest) = (if m = n then (m, merge_value w v) # rest else (m, w) # insert_value n v rest)"
| "merge_value (CObject m) (CObject fs) = CObject (insert_all fs m)"
| "merge_value (CList xs) (CList ys) = CList (merge_items xs ys)"
| "merge_value w v = w"
| "merge_items [] ys = []"
| "merge_items xs [] = xs"
| "merge_items (x # xs) (y # ys) =
     (case (x, y) of (CObject m, CObject fs) \<Rightarrow> CObject (insert_all fs m) | _ \<Rightarrow> x) # merge_items xs ys"
| "insert_all [] m = m"
| "insert_all ((n, v) # fs) m = insert_all fs (insert_value n v m)"

definition create_value_object :: "(name \<times> const_value) list \<Rightarrow> const_value" where
  "create_value_object kvs = CObject (insert_all kvs [])"

subsection \<open>Outputs\<close>

text \<open>
  The values a resolver returns, by their \<open>OutputType\<close>: scalars and enums, \<open>Option\<close>, \<open>Result\<close>, lists
  and containers. A container has the name of its Rust type, the name of its object type, the value
  inside it when it is an interface or a union, and what its resolver does with a field:
  an asynchronous method (nullable when it returns a \<open>Result\<close>), a plain value, a method returning a
  \<open>Result\<close>, the failure of an argument or a validator, the failure of a guard, or no such field.
\<close>

datatype 'o field_method =
    AsyncField bool "error_value + 'o"
  | SimpleField 'o
  | ResultField "error_value + 'o"
  | FailedField server_error
  | GuardedField bool error_value
  | NoField

datatype out_value =
    OutScalar const_value
  | OutOption "out_value option"
  | OutResult "error_value + out_value"
  | OutList "out_value list"
  | OutObject (ob_type_name: string) (ob_introspection_name: string) (ob_inner: "out_value option")
      (ob_resolve: "field positioned \<Rightarrow> out_value field_method")

record execution_env =
  ee_registry :: registry
  ee_fragments :: "(name \<times> fragment_definition positioned) list"

text \<open>An execution reports errors on the side (\<open>add_error\<close>) and fails with one.\<close>

type_synonym 'a exec = "server_error list \<Rightarrow> ((server_error + 'a) \<times> server_error list) run"

definition ex_return :: "'a \<Rightarrow> 'a exec" where
  "ex_return x = (\<lambda>errs. Done (Inr x, errs))"

definition ex_fail :: "server_error \<Rightarrow> 'a exec" where
  "ex_fail e = (\<lambda>errs. Done (Inl e, errs))"

definition ex_bind :: "'a exec \<Rightarrow> ('a \<Rightarrow> 'b exec) \<Rightarrow> 'b exec" where
  "ex_bind m k = (\<lambda>errs. run_bind (m errs) (\<lambda>(r, errs'). case r of Inl e \<Rightarrow> Done (Inl e, errs') | Inr x \<Rightarrow> k x errs'))"

definition ex_map :: "('a \<Rightarrow> 'b) \<Rightarrow> 'a exec \<Rightarrow> 'b exec" where
  "ex_map f m = (\<lambda>errs. run_map (\<lambda>(r, errs'). (map_sum id f r, errs')) (m errs))"

definition ex_map_error :: "(server_error \<Rightarrow> server_error) \<Rightarrow> 'a exec \<Rightarrow> 'a exec" where
  "ex_map_error f m = (\<lambda>errs. run_map (\<lambda>(r, errs'). (map_sum f id r, errs')) (m errs))"

text \<open>Reporting an error and answering null; doing so for the error of an execution.\<close>

definition report_null :: "server_error \<Rightarrow> const_value exec" where
  "report_null e = (\<lambda>errs. Done (Inr CNull, errs @ [e]))"

definition null_on_error :: "(server_error \<Rightarrow> server_error) \<Rightarrow> const_value exec \<Rightarrow> const_value exec" where
  "null_on_error f m = (\<lambda>errs. run_bind (m errs) (\<lambda>(r, errs').
     case r of Inl e \<Rightarrow> report_null (f e) errs' | Inr v \<Rightarrow> Done (Inr v, errs')))"

lemma ex_bind_cong [fundef_cong]:
  "m = m' \<Longrightarrow> (\<And>x. k x = k' x) \<Longrightarrow> ex_bind m k = ex_bind m' k'"
proof -
  assume "m = m'" "\<And>x. k x = k' x"
  then have "k = k'" by (intro ext) simp
  then show ?thesis using \<open>m = m'\<close> by simp
qed

subsection \<open>Collecting the fields\<close>

text \<open>The value \<open>collect_all_fields\<close> adds: an interface or a union calls it on the value inside.\<close>

fun collect_target :: "out_value \<Rightarrow> out_value" where
  "collect_target (OutObject t i (Some inner) f) = collect_target inner"
| "collect_target ob = ob"

datatype pending_field =
    PendingTypename name string
  | PendingField out_value "field positioned"

definition applies_concrete_object :: "execution_env \<Rightarrow> out_value \<Rightarrow> string \<Rightarrow> bool" where
  "applies_concrete_object env root condition \<longleftrightarrow>
     ob_introspection_name root = condition \<or>
     condition \<in> set (get_list (reg_implements (ee_registry env)) (ob_introspection_name root))"

text \<open>The container a fragment is collected with, if it applies.\<close>

definition fragment_target :: "execution_env \<Rightarrow> out_value \<Rightarrow> string option \<Rightarrow> out_value option" where
  "fragment_target env root condition =
     (case condition of
        None \<Rightarrow> Some root
      | Some c \<Rightarrow>
          if applies_concrete_object env root c then Some (collect_target root)
          else if ob_type_name root = c then Some root
          else None)"

definition unknown_fragment :: "fragment_spread positioned \<Rightarrow> server_error" where
  "unknown_fragment spread =
     server_error_new (''Unknown fragment '' @ quoted (node (fs_fragment_name (node spread))) @ ''.'') (Some (pos spread))"

text \<open>\<open>Fields::add_set\<close>: the fields of a selection set in order, those of the fragments that apply in
  their place.\<close>

function (sequential) add_set ::
  "nat \<Rightarrow> execution_env \<Rightarrow> out_value \<Rightarrow> selection_set \<Rightarrow> pending_field list try_step" where
  "add_set n env root ss =
     try_each (\<lambda>selection.
       case node selection of
         SelField fld \<Rightarrow>
           (\<lambda>fields. Done (Inr (fields @
              [if node (f_name (node fld)) = ''__typename''
               then PendingTypename (node (response_key (node fld))) (ob_introspection_name root)
               else PendingField root fld])))
       | SelSpread spread \<Rightarrow>
           (case map_of (ee_fragments env) (node (fs_fragment_name (node spread))) of
              None \<Rightarrow> (\<lambda>_. Done (Inl (unknown_fragment spread)))
            | Some fragment \<Rightarrow>
                (case fragment_target env root (Some (node (tc_on (node (fd_type_condition (node fragment)))))) of
                   None \<Rightarrow> try_ok
                 | Some target \<Rightarrow>
                     (case n of
                        0 \<Rightarrow> (\<lambda>_. OutOfFuel)
                      | Suc m \<Rightarrow> add_set m env target (node (fd_selection_set (node fragment))))))
       | SelInline inl \<Rightarrow>
           (case fragment_target env root (map_option (\<lambda>c. node (tc_on (node c))) (if_type_condition (node inl))) of
              None \<Rightarrow> try_ok
            | Some target \<Rightarrow> add_set n env target (node (if_selection_set (node inl)))))
      (items ss)"
  by pat_completeness auto
termination
proof (relation "measures [\<lambda>(n, env, root, ss). n, \<lambda>(n, env, root, ss). size ss]", goal_cases)
qed (auto dest!: size_item simp: size_selection_field size_selection_inline
    intro: order.strict_trans [OF size_inline_selection_set])

declare add_set.simps [simp del]

subsection \<open>Resolving\<close>

definition field_unknown :: "execution_env \<Rightarrow> out_value \<Rightarrow> field positioned \<Rightarrow> bool" where
  "field_unknown env root fld \<longleftrightarrow>
     (case map_of (reg_types (ee_registry env)) (ob_type_name root) of
        None \<Rightarrow> True
      | Some ty \<Rightarrow> field_by_name ty (node (f_name (node fld))) = None)"

definition cannot_query :: "out_value \<Rightarrow> field positioned \<Rightarrow> server_error" where
  "cannot_query root fld =
     server_error_new (''Cannot query field '' @ quoted (node (response_key (node fld))) @ '' on type '' @
       quoted (ob_type_name root) @ ''.'') (Some (pos fld))"

text \<open>The three ways a generated resolver finishes with the value of a field.\<close>

definition located_error :: "query_path_node option \<Rightarrow> field positioned \<Rightarrow> error_value \<Rightarrow> server_error" where
  "located_error ctx fld e = set_error_path ctx (into_server_error e (pos fld))"

definition resolve_simple_field_value ::
  "(query_path_node option \<Rightarrow> field positioned \<Rightarrow> out_value \<Rightarrow> const_value exec) \<Rightarrow>
   query_path_node option \<Rightarrow> field positioned \<Rightarrow> out_value \<Rightarrow> const_value exec" where
  "resolve_simple_field_value resolve ctx fld out = ex_map_error (set_error_path ctx) (resolve ctx fld out)"

definition resolve_nullable_field_value ::
  "(query_path_node option \<Rightarrow> field positioned \<Rightarrow> out_value \<Rightarrow> const_value exec) \<Rightarrow>
   query_path_node option \<Rightarrow> field positioned \<Rightarrow> out_value \<Rightarrow> const_value exec" where
  "resolve_nullable_field_value resolve ctx fld out =
     null_on_error (set_error_path_if_empty ctx) (resolve ctx fld out)"

definition resolve_field_async ::
  "(query_path_node option \<Rightarrow> field positioned \<Rightarrow> out_value \<Rightarrow> const_value exec) \<Rightarrow>
   query_path_node option \<Rightarrow> field positioned \<Rightarrow> error_value + out_value \<Rightarrow> bool \<Rightarrow> const_value exec" where
  "resolve_field_async resolve ctx fld result can_null =
     (case result of
        Inr out \<Rightarrow>
          if can_null then null_on_error (set_error_path_if_empty ctx) (resolve ctx fld out)
          else resolve ctx fld out
      | Inl e \<Rightarrow>
          if can_null then report_null (located_error ctx fld e) else ex_fail (located_error ctx fld e))"

lemmas field_values =
  located_error_def resolve_simple_field_value_def resolve_nullable_field_value_def resolve_field_async_def

text \<open>The fields of a container at a path, given what resolves an output for a field.\<close>

definition resolve_field ::
  "execution_env \<Rightarrow> (query_path_node option \<Rightarrow> field positioned \<Rightarrow> out_value \<Rightarrow> const_value exec) \<Rightarrow>
   query_path_node option \<Rightarrow> out_value \<Rightarrow> field positioned \<Rightarrow> const_value exec" where
  "resolve_field env resolve path root fld =
     (let ctx = with_field path (node fld)
      in if f_directives (node fld) \<noteq> [] \<and> field_unknown env root fld then ex_fail (cannot_query root fld)
         else
           case ob_resolve root fld of
             AsyncField can_null result \<Rightarrow> resolve_field_async resolve ctx fld result can_null
           | SimpleField out \<Rightarrow> resolve_simple_field_value resolve ctx fld out
           | ResultField (Inr out) \<Rightarrow> resolve_nullable_field_value resolve ctx fld out
           | ResultField (Inl e) \<Rightarrow> report_null (located_error ctx fld e)
           | FailedField err \<Rightarrow> ex_fail (set_error_path ctx err)
           | GuardedField can_null e \<Rightarrow>
               if can_null then report_null (located_error ctx fld e) else ex_fail (located_error ctx fld e)
           | NoField \<Rightarrow> ex_return CNull)"

lemma resolve_field_cong [fundef_cong]:
  "env = env' \<Longrightarrow> path = path' \<Longrightarrow> root = root' \<Longrightarrow> fld = fld' \<Longrightarrow>
   (\<And>ctx out. resolve ctx fld' out = resolve' ctx fld' out) \<Longrightarrow>
   resolve_field env resolve path root fld = resolve_field env' resolve' path' root' fld'"
  by (simp add: resolve_field_def field_values Let_def split: field_method.splits sum.splits)

fun resolve_fields ::
  "execution_env \<Rightarrow> (query_path_node option \<Rightarrow> field positioned \<Rightarrow> out_value \<Rightarrow> const_value exec) \<Rightarrow>
   query_path_node option \<Rightarrow> pending_field list \<Rightarrow> (name \<times> const_value) list exec" where
  "resolve_fields env resolve path [] = ex_return []"
| "resolve_fields env resolve path (p # ps) =
     ex_bind
       (case p of
          PendingTypename key type_name \<Rightarrow> ex_return (key, CString type_name)
        | PendingField root fld \<Rightarrow>
            ex_map (Pair (node (response_key (node fld)))) (resolve_field env resolve path root fld))
       (\<lambda>kv. ex_map (Cons kv) (resolve_fields env resolve path ps))"

lemma resolve_fields_cong [fundef_cong]:
  "env = env' \<Longrightarrow> path = path' \<Longrightarrow> ps = ps' \<Longrightarrow>
   (\<And>ctx fld out. resolve ctx fld out = resolve' ctx fld out) \<Longrightarrow>
   resolve_fields env resolve path ps = resolve_fields env' resolve' path' ps'"
proof -
  assume "env = env'" "path = path'" "ps = ps'" "\<And>ctx fld out. resolve ctx fld out = resolve' ctx fld out"
  moreover from this have "resolve = resolve'" by blast
  ultimately show ?thesis by simp
qed

definition ex_collect :: "pending_field list try_step \<Rightarrow> pending_field list exec" where
  "ex_collect f = (\<lambda>errs. run_map (\<lambda>r. (r, errs)) (f []))"

definition resolve_container ::
  "nat \<Rightarrow> execution_env \<Rightarrow> (query_path_node option \<Rightarrow> field positioned \<Rightarrow> out_value \<Rightarrow> const_value exec) \<Rightarrow>
   query_path_node option \<Rightarrow> out_value \<Rightarrow> selection_set \<Rightarrow> const_value exec" where
  "resolve_container n env resolve path root ss =
     ex_bind (ex_collect (add_set n env root ss)) (\<lambda>fields.
     ex_map create_value_object (resolve_fields env resolve path fields))"

lemma resolve_container_cong [fundef_cong]:
  "n = n' \<Longrightarrow> env = env' \<Longrightarrow> path = path' \<Longrightarrow> root = root' \<Longrightarrow> ss = ss' \<Longrightarrow>
   (\<And>ctx fld out. resolve ctx fld out = resolve' ctx fld out) \<Longrightarrow>
   resolve_container n env resolve path root ss = resolve_container n' env' resolve' path' root' ss'"
  using resolve_fields_cong [of env env' path path' _ _ resolve resolve'] by (auto simp: resolve_container_def)

text \<open>\<open>resolve_list\<close>, from index \<open>i\<close> on: the error of an item is located at the item.\<close>

fun resolve_list ::
  "(query_path_node option \<Rightarrow> out_value \<Rightarrow> const_value exec) \<Rightarrow> query_path_node option \<Rightarrow> nat \<Rightarrow> out_value list \<Rightarrow>
   const_value list exec" where
  "resolve_list resolve path i [] = ex_return []"
| "resolve_list resolve path i (out # outs) =
     ex_bind (ex_map_error (set_error_path (with_index path i)) (resolve (with_index path i) out)) (\<lambda>v.
     ex_map (Cons v) (resolve_list resolve path (i + 1) outs))"

lemma resolve_list_cong [fundef_cong]:
  "path = path' \<Longrightarrow> i = i' \<Longrightarrow> outs = outs' \<Longrightarrow>
   (\<And>ctx out. out \<in> set outs' \<Longrightarrow> resolve ctx out = resolve' ctx out) \<Longrightarrow>
   resolve_list resolve path i outs = resolve_list resolve' path' i' outs'"
  by (induction outs' arbitrary: outs i i') (auto simp: ex_bind_def)

text \<open>\<open>OutputType::resolve\<close>. A field of a container spends a unit of fuel, and so does a spread.\<close>

function resolve_output ::
  "nat \<Rightarrow> execution_env \<Rightarrow> query_path_node option \<Rightarrow> field positioned \<Rightarrow> out_value \<Rightarrow> const_value exec" where
  "resolve_output n env path fld (OutScalar v) = ex_return v"
| "resolve_output n env path fld (OutOption out) =
     (case out of None \<Rightarrow> ex_return CNull | Some o' \<Rightarrow> null_on_error id (resolve_output n env path fld o'))"
| "resolve_output n env path fld (OutResult out) =
     (case out of
        Inl e \<Rightarrow> report_null (set_error_path path (into_server_error e (pos fld)))
      | Inr o' \<Rightarrow> null_on_error (set_error_path_if_empty path) (resolve_output n env path fld o'))"
| "resolve_output n env path fld (OutList outs) =
     ex_map CList (resolve_list (\<lambda>path' out. resolve_output n env path' fld out) path 0 outs)"
| "resolve_output n env path fld (OutObject t i inner f) =
     (case n of
        0 \<Rightarrow> (\<lambda>_. OutOfFuel)
      | Suc m \<Rightarrow> resolve_container m env (resolve_output m env) path (OutObject t i inner f)
                   (node (f_selection_set (node fld))))"
  by pat_completeness auto
termination
proof (relation "measures [\<lambda>(n, env, path, fld, out). n, \<lambda>(n, env, path, fld, out). size out]", goal_cases)
qed (auto dest: size_of_list_member [where f = size])

subsection \<open>Enums\<close>

text \<open>\<open>parse_enum\<close> and \<open>enum_value\<close> over the items of the type; a value of the type that is no item
  makes \<open>enum_value\<close> panic.\<close>

definition parse_enum :: "(name \<times> 'v) list \<Rightarrow> (const_value \<Rightarrow> 'e) \<Rightarrow> (string \<Rightarrow> 'e) \<Rightarrow> const_value \<Rightarrow> 'e + 'v" where
  "parse_enum enum_items expected custom value =
     (case (case value of CEnum s \<Rightarrow> Some s | CString s \<Rightarrow> Some s | _ \<Rightarrow> None) of
        None \<Rightarrow> Inl (expected value)
      | Some s \<Rightarrow>
          (case map_option snd (List.find (\<lambda>item. fst item = s) enum_items) of
             Some v \<Rightarrow> Inr v
           | None \<Rightarrow> Inl (custom (''Enumeration type does not contain value '' @ quoted s @ ''.''))))"

definition enum_value :: "(name \<times> 'v) list \<Rightarrow> 'v \<Rightarrow> const_value run" where
  "enum_value enum_items value =
     (case List.find (\<lambda>item. snd item = value) enum_items of
        Some item \<Rightarrow> Done (CEnum (fst item))
      | None \<Rightarrow> Panicked)"

subsection \<open>Responses\<close>

record response =
  rs_errors :: "server_error list"
  rs_data :: const_value
  rs_extensions :: "(string \<times> const_value) list"
  rs_cache_control :: cache_control

definition default_response :: response where
  "default_response =
     \<lparr>rs_errors = [], rs_data = CNull, rs_extensions = [], rs_cache_control = default_cache_control\<rparr>"

definition response_new :: "const_value \<Rightarrow> response" where
  "response_new d = default_response\<lparr>rs_data := d\<rparr>"

definition response_from_errors :: "server_error list \<Rightarrow> response" where
  "response_from_errors es = default_response\<lparr>rs_errors := es\<rparr>"

definition response_extension :: "string \<Rightarrow> const_value \<Rightarrow> response \<Rightarrow> response" where
  "response_extension n v r = r\<lparr>rs_extensions := alist_insert n v (rs_extensions r)\<rparr>"

definition response_cache_control :: "cache_control \<Rightarrow> response \<Rightarrow> response" where
  "response_cache_control c r = r\<lparr>rs_cache_control := c\<rparr>"

definition response_is_ok :: "response \<Rightarrow> bool" where
  "response_is_ok r \<longleftrightarrow> rs_errors r = []"

definition into_result :: "response \<Rightarrow> server_error list + response" where
  "into_result r = (if response_is_ok r then Inr r else Inl (rs_errors r))"

datatype batch_response = SingleResponse response | BatchResponses "response list"

fun batch_cache_control :: "batch_response \<Rightarrow> cache_control" where
  "batch_cache_control (SingleResponse r) = rs_cache_control r"
| "batch_cache_control (BatchResponses rs) =
     foldl (\<lambda>acc r. cache_merge acc (rs_cache_control r)) default_cache_control rs"

fun batch_is_ok :: "batch_response \<Rightarrow> bool" where
  "batch_is_ok (SingleResponse r) \<longleftrightarrow> response_is_ok r"
| "batch_is_ok (BatchResponses rs) \<longleftrightarrow> list_all response_is_ok rs"

subsection \<open>Executing\<close>

record schema_roots =
  sc_query :: out_value
  sc_mutation :: out_value
  sc_empty_mutation :: out_value
  sc_error_formatter :: "(server_error \<Rightarrow> server_error) option"

definition format_errors :: "schema_roots \<Rightarrow> response \<Rightarrow> response" where
  "format_errors sc r =
     (case sc_error_formatter sc of None \<Rightarrow> r | Some f \<Rightarrow> r\<lparr>rs_errors := map f (rs_errors r)\<rparr>)"

definition execute_once :: "nat \<Rightarrow> registry \<Rightarrow> schema_roots \<Rightarrow> query_env \<Rightarrow> response run" where
  "execute_once n reg sc qe =
     (let env = \<lparr>ee_registry = reg, ee_fragments = qe_fragments qe\<rparr>;
          op = node (qe_operation qe);
          container = (\<lambda>root. resolve_container n env (resolve_output n env) None root (node (od_selection_set op)));
          only = (reg_introspection_mode reg = IntrospectionOnly \<or> qe_introspection_mode qe = IntrospectionOnly)
      in run_map
           (\<lambda>(res, errs).
              let resp = (case res of Inr v \<Rightarrow> response_new v | Inl e \<Rightarrow> response_from_errors [e])
              in format_errors sc (resp\<lparr>rs_errors := rs_errors resp @ errs\<rparr>))
           (case od_ty op of
              Query \<Rightarrow> container (sc_query sc) []
            | Mutation \<Rightarrow> container (if only then sc_empty_mutation sc else sc_mutation sc) []
            | Subscription \<Rightarrow>
                ex_fail (server_error_new ''Subscriptions are not supported on this transport.'' None) []))"

text \<open>\<open>Schema::execute\<close> from the parsed document on.\<close>

definition execute_request ::
  "nat \<Rightarrow> registry \<Rightarrow> complexity_call \<Rightarrow> schema_roots \<Rightarrow> validation_mode \<Rightarrow> nat \<Rightarrow> nat option \<Rightarrow> nat option \<Rightarrow>
   usize option \<Rightarrow> usize option \<Rightarrow> executable_document \<Rightarrow> variables \<Rightarrow> string option \<Rightarrow> introspection_mode \<Rightarrow>
   response run" where
  "execute_request n reg call sc mode max_depth md ma complexity depth doc vars opname intro =
     run_bind (prepare_request reg call mode max_depth md ma complexity depth doc vars opname intro)
       (\<lambda>prepared. case prepared of
          Inr (qe, cache_control) \<Rightarrow> run_map (response_cache_control cache_control) (execute_once n reg sc qe)
        | Inl errs \<Rightarrow> Done (format_errors sc (response_from_errors errs)))"

end
