(* ===== verification/Execution_Facts.thy ===== *)
theory Execution_Facts
  imports Execution
begin

text \<open>
  Facts about the execution of requests: the recursion limit bounds it, every reported error points to
  a null of the response, and what merging results does.
\<close>

subsection \<open>Errors point to nulls\<close>

fun null_at :: "const_value \<Rightarrow> path_segment list \<Rightarrow> bool" where
  "null_at CNull p \<longleftrightarrow> True"
| "null_at (CObject m) (PathField k # p) \<longleftrightarrow> (case map_of m k of Some v \<Rightarrow> null_at v p | None \<Rightarrow> False)"
| "null_at (CList vs) (PathIndex i # p) \<longleftrightarrow> i < length vs \<and> null_at (vs ! i) p"
| "null_at _ _ \<longleftrightarrow> False"

definition base_path :: "query_path_node option \<Rightarrow> path_segment list" where
  "base_path path = (case path of None \<Rightarrow> [] | Some p \<Rightarrow> map path_segment_of (path_segments p))"

lemma base_path_simps [simp]:
  "base_path None = []"
  "base_path (with_field path fld) = base_path path @ [PathField (node (response_key fld))]"
  "base_path (with_index path i) = base_path path @ [PathIndex i]"
  by (cases path; simp add: base_path_def with_field_def with_index_def)+

definition below :: "query_path_node option \<Rightarrow> server_error \<Rightarrow> bool" where
  "below path e \<longleftrightarrow> se_path e = [] \<or> (\<exists>q. se_path e = base_path path @ q)"

definition null_under :: "query_path_node option \<Rightarrow> const_value \<Rightarrow> server_error \<Rightarrow> bool" where
  "null_under path v e \<longleftrightarrow> se_path e = [] \<or> (\<exists>q. se_path e = base_path path @ q \<and> null_at v q)"

lemma below_set_error_path [simp]:
  "below path (set_error_path path e) \<longleftrightarrow> path \<noteq> None \<or> below path e"
  by (cases path) (auto simp: below_def set_error_path_def base_path_def)

lemma below_if_empty: "below path e \<Longrightarrow> below path (set_error_path_if_empty path e)"
  by (cases path) (auto simp: set_error_path_if_empty_def set_error_path_def below_def base_path_def)

lemma below_empty: "se_path e = [] \<Longrightarrow> below path e"
  by (simp add: below_def)

lemma with_not_None [simp]: "with_field path fld \<noteq> None" "with_index path i \<noteq> None"
  by (simp_all add: with_field_def with_index_def)

lemma below_None [simp]: "below None e"
  by (simp add: below_def)

lemma into_server_error_path [simp]: "se_path (into_server_error e p) = []"
  by (simp add: into_server_error_def)

lemma below_into_server_error [simp]: "below path (set_error_path path (into_server_error e p))"
  by (cases path) (simp_all add: below_def set_error_path_def base_path_def)

text \<open>An execution of a value at a path: what it reports lies under the path, and where it answers a
  value, at a null of that value.\<close>

definition answers_at :: "query_path_node option \<Rightarrow> const_value exec \<Rightarrow> bool" where
  "answers_at path m \<longleftrightarrow>
     (\<forall>errs e errs'. m errs = Done (Inl e, errs') \<longrightarrow>
        (\<exists>new. errs' = errs @ new \<and> below path e \<and> list_all (below path) new)) \<and>
     (\<forall>errs v errs'. m errs = Done (Inr v, errs') \<longrightarrow>
        (\<exists>new. errs' = errs @ new \<and> list_all (null_under path v) new))"

lemma answers_at_Inl:
  "answers_at path m \<Longrightarrow> m errs = Done (Inl e, errs') \<Longrightarrow>
     \<exists>new. errs' = errs @ new \<and> below path e \<and> list_all (below path) new"
  by (auto simp: answers_at_def)

lemma answers_at_Inr:
  "answers_at path m \<Longrightarrow> m errs = Done (Inr v, errs') \<Longrightarrow>
     \<exists>new. errs' = errs @ new \<and> list_all (null_under path v) new"
  by (auto simp: answers_at_def)

text \<open>What the combinators return.\<close>

lemma ex_bind_Done:
  "ex_bind m k errs = Done (r, errs') \<longleftrightarrow>
     (\<exists>e. m errs = Done (Inl e, errs') \<and> r = Inl e) \<or> (\<exists>x us. m errs = Done (Inr x, us) \<and> k x us = Done (r, errs'))"
  by (cases "m errs") (auto simp: ex_bind_def split: sum.splits prod.splits)

lemma ex_map_Done:
  "ex_map f m errs = Done (r, errs') \<longleftrightarrow>
     (\<exists>e. m errs = Done (Inl e, errs') \<and> r = Inl e) \<or> (\<exists>x. m errs = Done (Inr x, errs') \<and> r = Inr (f x))"
  by (cases "m errs") (auto simp: ex_map_def map_sum_def split: sum.splits prod.splits)

lemma ex_map_error_Done:
  "ex_map_error f m errs = Done (r, errs') \<longleftrightarrow>
     (\<exists>e. m errs = Done (Inl e, errs') \<and> r = Inl (f e)) \<or> (\<exists>x. m errs = Done (Inr x, errs') \<and> r = Inr x)"
  by (cases "m errs") (auto simp: ex_map_error_def map_sum_def split: sum.splits prod.splits)

lemma null_on_error_Done:
  "null_on_error f m errs = Done (r, errs') \<longleftrightarrow>
     (\<exists>e us. m errs = Done (Inl e, us) \<and> r = Inr CNull \<and> errs' = us @ [f e]) \<or>
     (\<exists>x. m errs = Done (Inr x, errs') \<and> r = Inr x)"
  by (cases "m errs") (auto simp: null_on_error_def report_null_def split: sum.splits prod.splits)

lemma answers_return [simp]: "answers_at path (ex_return v)"
  by (auto simp: answers_at_def ex_return_def)

lemma answers_fail: "below path e \<Longrightarrow> answers_at path (ex_fail e)"
  by (auto simp: answers_at_def ex_fail_def)

lemma answers_report_null: "below path e \<Longrightarrow> answers_at path (report_null e)"
  by (auto simp: answers_at_def report_null_def null_under_def below_def)

lemma null_under_Null: "below path e \<Longrightarrow> null_under path CNull e"
  by (auto simp: below_def null_under_def)

lemma answers_null_on_error:
  assumes "answers_at path m" "\<And>e. below path e \<Longrightarrow> below path (f e)"
  shows "answers_at path (null_on_error f m)"
  unfolding answers_at_def null_on_error_Done
  using answers_at_Inl [OF assms(1)] answers_at_Inr [OF assms(1)] assms(2)
  by (fastforce simp: list_all_iff null_under_Null)

lemma answers_map_error:
  assumes "answers_at path m" "\<And>e. below path e \<Longrightarrow> below path (f e)"
  shows "answers_at path (ex_map_error f m)"
  unfolding answers_at_def ex_map_error_Done
  using answers_at_Inl [OF assms(1)] answers_at_Inr [OF assms(1)] assms(2) by fastforce

lemma below_cannot_query: "below path (cannot_query root fld)"
  by (rule below_empty) (simp add: cannot_query_def server_error_new_def)

lemma answers_field:
  assumes "\<And>ctx out. ctx = with_field path (node fld) \<Longrightarrow> answers_at ctx (resolve ctx fld out)"
  shows "answers_at (with_field path (node fld)) (resolve_field env resolve path root fld)"
  unfolding resolve_field_def field_values Let_def
  using assms
  by (auto split: field_method.splits sum.splits
      intro!: answers_fail answers_report_null answers_null_on_error answers_map_error
      intro: below_if_empty below_cannot_query)

definition pending_key :: "pending_field \<Rightarrow> name" where
  "pending_key p = (case p of PendingTypename key _ \<Rightarrow> key | PendingField _ fld \<Rightarrow> node (response_key (node fld)))"

text \<open>The fields of a container: an error among them lies under the field or at a null of its value.\<close>

definition null_in :: "query_path_node option \<Rightarrow> (name \<times> const_value) list \<Rightarrow> server_error \<Rightarrow> bool" where
  "null_in path kvs e \<longleftrightarrow>
     se_path e = [] \<or> (\<exists>k v q. (k, v) \<in> set kvs \<and> se_path e = base_path path @ PathField k # q \<and> null_at v q)"

lemma below_field: "below (with_field path fld) e \<Longrightarrow> below path e"
  by (auto simp: below_def)

lemma null_in_field: "null_under (with_field path fld) v e \<Longrightarrow> null_in path [(node (response_key fld), v)] e"
  by (auto simp: null_under_def null_in_def)

lemma null_in_mono: "null_in path kvs e \<Longrightarrow> set kvs \<subseteq> set kvs' \<Longrightarrow> null_in path kvs' e"
  unfolding null_in_def by blast

lemma null_in_below: "null_in path kvs e \<Longrightarrow> below path e"
  by (auto simp: null_in_def below_def)

lemma answers_fields:
  assumes "\<And>root fld. PendingField root fld \<in> set ps \<Longrightarrow>
    answers_at (with_field path (node fld)) (resolve_field env resolve path root fld)"
  shows "resolve_fields env resolve path ps errs = Done (r, errs') \<Longrightarrow>
    \<exists>new. errs' = errs @ new \<and>
      (case r of
         Inl e \<Rightarrow> below path e \<and> list_all (below path) new
       | Inr kvs \<Rightarrow> map fst kvs = map pending_key ps \<and> list_all (null_in path kvs) new)"
  using assms
proof (induction ps arbitrary: errs r)
  case Nil
  then show ?case by (auto simp: ex_return_def)
next
  case (Cons p ps)
  let ?head = "case p of PendingTypename key type_name \<Rightarrow> ex_return (key, CString type_name)
    | PendingField root fld \<Rightarrow> ex_map (Pair (node (response_key (node fld)))) (resolve_field env resolve path root fld)"
  have head: "\<exists>new. us = errs @ new \<and>
      (case x of Inl e \<Rightarrow> below path e \<and> list_all (below path) new
       | Inr kv \<Rightarrow> fst kv = pending_key p \<and> list_all (null_in path [kv]) new)"
    if "?head errs = Done (x, us)" for x us
  proof (cases p)
    case (PendingTypename key type_name)
    then show ?thesis using that by (auto simp: ex_return_def pending_key_def)
  next
    case (PendingField root fld)
    have at: "answers_at (with_field path (node fld)) (resolve_field env resolve path root fld)"
      using Cons.prems(2) PendingField by simp
    show ?thesis
      using that answers_at_Inl [OF at] answers_at_Inr [OF at]
      by (fastforce simp: PendingField ex_map_Done pending_key_def list_all_iff
          intro: below_field null_in_field)
  qed
  from Cons.prems(1) consider
      e where "?head errs = Done (Inl e, errs')" "r = Inl e"
    | kv us e where "?head errs = Done (Inr kv, us)" "resolve_fields env resolve path ps us = Done (Inl e, errs')" "r = Inl e"
    | kv us kvs where "?head errs = Done (Inr kv, us)" "resolve_fields env resolve path ps us = Done (Inr kvs, errs')"
        "r = Inr (kv # kvs)"
    by (auto simp: ex_bind_Done ex_map_Done)
  then show ?case
  proof cases
    case 1
    then show ?thesis using head [OF 1(1)] by simp
  next
    case (2 kv us e)
    obtain n1 n2 where "us = errs @ n1" "list_all (null_in path [kv]) n1" "errs' = us @ n2" "below path e"
      "list_all (below path) n2"
      using head [OF 2(1)] Cons.IH [OF 2(2)] Cons.prems(2) by auto
    then show ?thesis
      using 2(3) by (intro exI [of _ "n1 @ n2"]) (auto simp: list_all_iff intro: null_in_below)
  next
    case (3 kv us kvs)
    obtain n1 n2 where "us = errs @ n1" "list_all (null_in path [kv]) n1" "errs' = us @ n2"
      "list_all (null_in path kvs) n2" "fst kv = pending_key p" "map fst kvs = map pending_key ps"
      using head [OF 3(1)] Cons.IH [OF 3(2)] Cons.prems(2) by auto
    then show ?thesis
      using 3(3) by (intro exI [of _ "n1 @ n2"]) (auto simp: list_all_iff intro: null_in_mono)
  qed
qed

lemma answers_list:
  assumes "\<And>ctx out. out \<in> set outs \<Longrightarrow> answers_at ctx (resolve ctx out)"
  shows "resolve_list resolve path i outs errs = Done (r, errs') \<Longrightarrow>
    \<exists>new. errs' = errs @ new \<and>
      (case r of
         Inl e \<Rightarrow> below path e \<and> list_all (below path) new
       | Inr vs \<Rightarrow> list_all (\<lambda>e. se_path e = [] \<or>
           (\<exists>j q. j < length vs \<and> se_path e = base_path path @ PathIndex (i + j) # q \<and> null_at (vs ! j) q)) new)"
  using assms
proof (induction outs arbitrary: i errs r)
  case Nil
  then show ?case by (auto simp: ex_return_def)
next
  case (Cons out outs)
  let ?head = "ex_map_error (set_error_path (with_index path i)) (resolve (with_index path i) out)"
  let ?null = "\<lambda>i vs e. se_path e = [] \<or>
    (\<exists>j q. j < length vs \<and> se_path e = base_path path @ PathIndex (i + j) # q \<and> null_at (vs ! j) q)"
  have at: "answers_at (with_index path i) ?head"
    using Cons.prems(2) by (intro answers_map_error) simp_all
  have index: "below (with_index path i) e \<Longrightarrow> below path e" for e
    by (auto simp: below_def)
  have first: "null_under (with_index path i) v e \<Longrightarrow> ?null i (v # vs) e" for v vs e
    by (auto simp: null_under_def intro!: exI [of _ 0])
  have rest: "?null (Suc i) vs e \<Longrightarrow> ?null i (v # vs) e" for v vs e
    by (metis Suc_less_eq add_Suc_shift length_Cons nth_Cons_Suc)
  have any: "?null i vs e \<Longrightarrow> below path e" for i vs e
    by (auto simp: below_def)
  from Cons.prems(1) consider
      e where "?head errs = Done (Inl e, errs')" "r = Inl e"
    | v us e where "?head errs = Done (Inr v, us)" "resolve_list resolve path (i + 1) outs us = Done (Inl e, errs')" "r = Inl e"
    | v us vs where "?head errs = Done (Inr v, us)" "resolve_list resolve path (i + 1) outs us = Done (Inr vs, errs')"
        "r = Inr (v # vs)"
    by (auto simp: ex_bind_Done ex_map_Done)
  then show ?case
  proof cases
    case 1
    then show ?thesis using answers_at_Inl [OF at 1(1)] index by (auto simp: list_all_iff)
  next
    case (2 v us e)
    obtain n1 n2 where n: "us = errs @ n1" "list_all (null_under (with_index path i) v) n1" "errs' = us @ n2"
      "below path e" "list_all (below path) n2"
      using answers_at_Inr [OF at 2(1)] Cons.IH [OF 2(2)] Cons.prems(2) by auto
    have "list_all (below path) n1"
      using n(2) by (rule list.pred_mono_strong) (auto simp: null_under_def below_def)
    then show ?thesis
      using 2(3) n by (intro exI [of _ "n1 @ n2"]) simp
  next
    case (3 v us vs)
    obtain n1 n2 where n: "us = errs @ n1" "list_all (null_under (with_index path i) v) n1" "errs' = us @ n2"
      "list_all (?null (Suc i) vs) n2"
      using answers_at_Inr [OF at 3(1)] Cons.IH [OF 3(2)] Cons.prems(2) by auto
    have "list_all (?null i (v # vs)) n1"
      using n(2) by (rule list.pred_mono_strong) (rule first)
    moreover have "list_all (?null i (v # vs)) n2"
      using n(4) by (rule list.pred_mono_strong) (rule rest)
    ultimately have "list_all (?null i (v # vs)) (n1 @ n2)"
      by simp
    then show ?thesis
      using 3(3) n(1,3) by (intro exI [of _ "n1 @ n2"]) simp
  qed
qed

subsection \<open>The selection sets of a request\<close>

function sub_sets :: "selection_set \<Rightarrow> selection_set set" where
  "sub_sets ss = insert ss (\<Union>selection\<in>set (items ss).
     case node selection of
       SelField fld \<Rightarrow> sub_sets (node (f_selection_set (node fld)))
     | SelSpread _ \<Rightarrow> {}
     | SelInline inl \<Rightarrow> sub_sets (node (if_selection_set (node inl))))"
  by pat_completeness auto
termination
  by (relation "measure size")
    (auto dest!: size_item simp: size_selection_field size_selection_inline
      intro: order.strict_trans [OF size_inline_selection_set] order.strict_trans [OF size_field_selection_set])

declare sub_sets.simps [simp del]

lemma sub_sets_self: "ss \<in> sub_sets ss"
  by (subst sub_sets.simps) simp

lemma sub_sets_field:
  "selection \<in> set (items ss) \<Longrightarrow> node selection = SelField fld \<Longrightarrow>
     sub_sets (node (f_selection_set (node fld))) \<subseteq> sub_sets ss"
  by (subst (2) sub_sets.simps) (auto intro!: UN_I [of selection])

lemma sub_sets_inline:
  "selection \<in> set (items ss) \<Longrightarrow> node selection = SelInline inl \<Longrightarrow>
     sub_sets (node (if_selection_set (node inl))) \<subseteq> sub_sets ss"
  by (subst (2) sub_sets.simps) (auto intro!: UN_I [of selection])

text \<open>The selection sets of an operation and of all fragments.\<close>

definition request_sets :: "(name \<times> fragment_definition positioned) list \<Rightarrow> selection_set \<Rightarrow> selection_set set" where
  "request_sets frags ss = sub_sets ss \<union> (\<Union>(n, fr)\<in>set frags. sub_sets (node (fd_selection_set (node fr))))"

lemma sub_sets_trans: "s \<in> sub_sets ss \<Longrightarrow> sub_sets s \<subseteq> sub_sets ss"
proof (induction ss rule: sub_sets.induct)
  case (1 ss)
  show ?case
  proof (cases "s = ss")
    case False
    then obtain selection where sel: "selection \<in> set (items ss)"
      and s: "s \<in> (case node selection of
         SelField fld \<Rightarrow> sub_sets (node (f_selection_set (node fld)))
       | SelSpread _ \<Rightarrow> {}
       | SelInline inl \<Rightarrow> sub_sets (node (if_selection_set (node inl))))"
      using "1.prems" [unfolded sub_sets.simps [of ss]] by blast
    show ?thesis
    proof (cases "node selection")
      case (SelField fld)
      then show ?thesis using "1.IH"(1) [OF sel SelField] sub_sets_field [OF sel SelField] s by auto
    next
      case (SelSpread spread)
      then show ?thesis using s by simp
    next
      case (SelInline inl)
      then show ?thesis using "1.IH"(2) [OF sel SelInline] sub_sets_inline [OF sel SelInline] s by auto
    qed
  qed simp
qed

lemma request_sets_closed: "s \<in> request_sets frags ss \<Longrightarrow> sub_sets s \<subseteq> request_sets frags ss"
  by (auto simp: request_sets_def dest: sub_sets_trans)

lemma request_sets_self: "ss \<in> request_sets frags ss"
  by (simp add: request_sets_def sub_sets_self)

lemma request_sets_fragment:
  "map_of frags n = Some fr \<Longrightarrow> sub_sets (node (fd_selection_set (node fr))) \<subseteq> request_sets frags ss"
  by (auto simp: request_sets_def dest: map_of_SomeD)

text \<open>No two of the fields collected from one selection set answer under the same name.\<close>

definition merge_free :: "execution_env \<Rightarrow> selection_set set \<Rightarrow> bool" where
  "merge_free env S \<longleftrightarrow>
     (\<forall>ss\<in>S. \<forall>n root ps. add_set n env root ss [] = Done (Inr ps) \<longrightarrow> distinct (map pending_key ps))"

lemma try_seq_Inr:
  "try_seq f g st = Done (Inr st') \<longleftrightarrow> (\<exists>us. f st = Done (Inr us) \<and> g us = Done (Inr st'))"
  by (cases "f st") (auto simp: try_seq_def split: sum.splits)

lemma try_each_Inr_induct:
  assumes "try_each f xs st = Done (Inr st')" "P st"
    and "\<And>x st st'. x \<in> set xs \<Longrightarrow> P st \<Longrightarrow> f x st = Done (Inr st') \<Longrightarrow> P st'"
  shows "P st'"
  using assms
proof (induction xs arbitrary: st)
  case (Cons x xs)
  then obtain us where "f x st = Done (Inr us)" "try_each f xs us = Done (Inr st')"
    by (auto simp: try_seq_Inr)
  then show ?case
    using Cons.IH Cons.prems(2,3) by (metis list.set_intros)
qed (simp add: try_ok_def)

lemma try_each_Inl_cases:
  assumes "try_each f xs st = Done (Inl e)"
    and "\<And>x st. x \<in> set xs \<Longrightarrow> f x st = Done (Inl e) \<Longrightarrow> P"
  shows P
  using assms
proof (induction xs arbitrary: st)
  case (Cons x xs)
  show ?case
  proof (cases "f x st")
    case (Done r)
    show ?thesis
    proof (cases r)
      case (Inl e')
      then have "f x st = Done (Inl e)"
        using Done Cons.prems(1) by (simp add: try_seq_def)
      then show ?thesis by (rule Cons.prems(2) [rotated]) simp
    next
      case (Inr us)
      then have "try_each f xs us = Done (Inl e)"
        using Done Cons.prems(1) by (simp add: try_seq_def)
      then show ?thesis
        using Cons.IH Cons.prems(2) by (metis list.set_intros(2))
    qed
  qed (use Cons.prems(1) in \<open>simp_all add: try_seq_def\<close>)
qed (simp add: try_ok_def)

text \<open>The fields that are collected come from the selection sets of the request.\<close>

definition field_in :: "selection_set set \<Rightarrow> pending_field \<Rightarrow> bool" where
  "field_in S p \<longleftrightarrow> (case p of PendingTypename _ _ \<Rightarrow> True | PendingField _ fld \<Rightarrow> sub_sets (node (f_selection_set (node fld))) \<subseteq> S)"

lemma field_in_simps [simp]:
  "field_in S (PendingTypename key t)"
  "field_in S (PendingField root fld) \<longleftrightarrow> sub_sets (node (f_selection_set (node fld))) \<subseteq> S"
  by (simp_all add: field_in_def)

lemma add_set_fields:
  assumes "\<And>n fr. map_of (ee_fragments env) n = Some fr \<Longrightarrow> sub_sets (node (fd_selection_set (node fr))) \<subseteq> S"
  shows "sub_sets ss \<subseteq> S \<Longrightarrow> list_all (field_in S) ps \<Longrightarrow> add_set n env root ss ps = Done (Inr ps') \<Longrightarrow>
    list_all (field_in S) ps'"
  using assms
proof (induction n env root ss arbitrary: ps ps' rule: add_set.induct)
  case (1 n env root ss)
  note loop = "1.prems"(3) [unfolded add_set.simps [of n env root ss]]
  show ?case
  proof (rule try_each_Inr_induct [where P = "list_all (field_in S)", OF loop "1.prems"(2)], goal_cases)
    case (1 selection ps ps')
    show ?case
    proof (cases "node selection")
      case (SelField fld)
      then show ?thesis
        using 1 order.trans [OF sub_sets_field [OF 1(1) SelField] "1.prems"(1)] by auto
    next
      case (SelSpread spread)
      then show ?thesis
        using 1 "1.IH"(1) [OF 1(1) SelSpread] "1.prems"(4)
        by (auto simp: try_ok_def split: option.splits nat.splits)
    next
      case (SelInline inl)
      then show ?thesis
        using 1 "1.IH"(2) [OF 1(1) SelInline] "1.prems"(1,4) sub_sets_inline [OF 1(1) SelInline]
        by (auto simp: try_ok_def split: option.splits)
    qed
  qed
qed

subsection \<open>Every error points to a null\<close>

lemma insert_value_new: "n \<notin> fst ` set m \<Longrightarrow> insert_value n v m = m @ [(n, v)]"
  by (induction m) auto

lemma insert_all_distinct:
  "distinct (map fst (m @ kvs)) \<Longrightarrow> insert_all kvs m = m @ kvs"
  by (induction kvs arbitrary: m) (auto simp: insert_value_new)

lemma add_set_error:
  "add_set n env root ss ps = Done (Inl e) \<Longrightarrow> se_path e = []"
proof (induction n env root ss arbitrary: ps rule: add_set.induct)
  case (1 n env root ss)
  note loop = "1.prems" [unfolded add_set.simps [of n env root ss]]
  show ?case
  proof (rule try_each_Inl_cases [OF loop], goal_cases)
    case (1 selection ps)
    then show ?case
      using "1.IH"(1) [of selection] "1.IH"(2) [of selection]
      by (auto simp: try_ok_def unknown_fragment_def server_error_new_def
          split: option.splits nat.splits selection.splits)
  qed
qed

lemma answers_container:
  assumes "merge_free env S" "ss \<in> S" "sub_sets ss \<subseteq> S"
    and "\<And>n fr. map_of (ee_fragments env) n = Some fr \<Longrightarrow> sub_sets (node (fd_selection_set (node fr))) \<subseteq> S"
    and resolve: "\<And>ctx fld out. sub_sets (node (f_selection_set (node fld))) \<subseteq> S \<Longrightarrow> answers_at ctx (resolve ctx fld out)"
  shows "answers_at path (resolve_container n env resolve path root ss)"
proof -
  have fields: "\<exists>new. errs' = errs @ new \<and>
      (case r of
         Inl e \<Rightarrow> below path e \<and> list_all (below path) new
       | Inr kvs \<Rightarrow> distinct (map fst kvs) \<and> list_all (null_in path kvs) new)"
    if "add_set n env root ss [] = Done (Inr ps)" "resolve_fields env resolve path ps errs = Done (r, errs')"
    for ps r errs errs'
  proof -
    have ps: "list_all (field_in S) ps"
      using add_set_fields [OF assms(4,3) _ that(1)] by simp
    have "answers_at (with_field path (node fld)) (resolve_field env resolve path root fld)"
      if "PendingField root fld \<in> set ps" for root fld
    proof -
      have "field_in S (PendingField root fld)"
        using ps that by (simp only: list_all_iff)
      then show ?thesis
        by (auto intro!: answers_field resolve)
    qed
    from answers_fields [OF this that(2)] obtain new where new: "errs' = errs @ new"
      "case r of
         Inl e \<Rightarrow> below path e \<and> list_all (below path) new
       | Inr kvs \<Rightarrow> map fst kvs = map pending_key ps \<and> list_all (null_in path kvs) new"
      by blast
    have "distinct (map pending_key ps)"
      using assms(1,2) that(1) by (auto simp: merge_free_def)
    then show ?thesis
      using new by (intro exI [of _ new]) (auto split: sum.splits)
  qed
  have object: "list_all (null_under path (create_value_object kvs)) new"
    if "list_all (null_in path kvs) new" "distinct (map fst kvs)" for kvs new
    using that(1)
  proof (rule list.pred_mono_strong)
    fix e assume "null_in path kvs e"
    then show "null_under path (create_value_object kvs) e"
      using that(2) insert_all_distinct [of "[]" kvs]
      by (auto simp: null_in_def null_under_def create_value_object_def)
  qed
  show ?thesis
    unfolding answers_at_def
  proof (intro conjI allI impI, goal_cases)
    case (1 errs e errs')
    then consider "add_set n env root ss [] = Done (Inl e)" "errs' = errs"
      | ps where "add_set n env root ss [] = Done (Inr ps)" "resolve_fields env resolve path ps errs = Done (Inl e, errs')"
      by (cases "add_set n env root ss []") (auto simp: resolve_container_def ex_bind_Done ex_map_Done ex_collect_def)
    then show ?case
    proof cases
      case 1
      then show ?thesis by (auto intro: below_empty dest: add_set_error)
    next
      case (2 ps)
      then show ?thesis using fields [OF 2] by simp
    qed
  next
    case (2 errs v errs')
    then obtain ps kvs where *: "add_set n env root ss [] = Done (Inr ps)"
      "resolve_fields env resolve path ps errs = Done (Inr kvs, errs')" "v = create_value_object kvs"
      by (cases "add_set n env root ss []") (auto simp: resolve_container_def ex_bind_Done ex_map_Done ex_collect_def)
    then show ?case using fields [OF *(1,2)] object by auto
  qed
qed

lemma answers_output:
  assumes "merge_free env S"
    and closed: "\<And>ss. ss \<in> S \<Longrightarrow> sub_sets ss \<subseteq> S"
    and frags: "\<And>n fr. map_of (ee_fragments env) n = Some fr \<Longrightarrow> sub_sets (node (fd_selection_set (node fr))) \<subseteq> S"
  shows "node (f_selection_set (node fld)) \<in> S \<Longrightarrow> answers_at path (resolve_output n env path fld out)"
  using assms(1) frags
proof (induction n env path fld out rule: resolve_output.induct)
  case (1 n env path fld v)
  then show ?case by simp
next
  case (2 n env path fld out)
  then show ?case by (auto split: option.splits intro!: answers_null_on_error)
next
  case (3 n env path fld out)
  then show ?case
    by (auto split: sum.splits intro!: answers_null_on_error answers_report_null below_into_server_error intro: below_if_empty
        simp del: below_set_error_path)
next
  case (4 n env path fld outs)
  have items: "answers_at ctx (resolve_output n env ctx fld out)" if "out \<in> set outs" for ctx out
    using 4 that by blast
  show ?case
    unfolding resolve_output.simps answers_at_def
  proof (intro conjI allI impI, goal_cases)
    case (1 errs e errs')
    then have "resolve_list (\<lambda>path' out. resolve_output n env path' fld out) path 0 outs errs = Done (Inl e, errs')"
      by (auto simp: ex_map_Done)
    from answers_list [OF items this] show ?case by simp
  next
    case (2 errs v errs')
    then obtain vs where vs: "v = CList vs"
      "resolve_list (\<lambda>path' out. resolve_output n env path' fld out) path 0 outs errs = Done (Inr vs, errs')"
      by (auto simp: ex_map_Done)
    from answers_list [OF items vs(2)] obtain new where "errs' = errs @ new"
      "list_all (\<lambda>e. se_path e = [] \<or>
        (\<exists>j q. j < length vs \<and> se_path e = base_path path @ PathIndex (0 + j) # q \<and> null_at (vs ! j) q)) new"
      by auto
    moreover have "list_all (null_under path v) new"
      using calculation(2)
      by (rule list.pred_mono_strong) (auto simp: null_under_def vs(1))
    ultimately show ?case by blast
  qed
next
  case (5 n env path fld t i inner f)
  show ?case
  proof (cases n)
    case 0
    then show ?thesis by (simp add: answers_at_def)
  next
    case (Suc m)
    have "answers_at ctx (resolve_output m env ctx fld' out)"
      if "sub_sets (node (f_selection_set (node fld'))) \<subseteq> S" for ctx fld' out
      using "5.IH" [OF Suc] "5.prems"(2,3) that sub_sets_self by blast
    then have "answers_at path (resolve_container m env (resolve_output m env) path (OutObject t i inner f)
        (node (f_selection_set (node fld))))"
      using "5.prems" closed [OF "5.prems"(1)] by (intro answers_container) blast+
    then show ?thesis by (simp only: Suc resolve_output.simps nat.case)
  qed
qed

lemma container_answers:
  assumes "merge_free env (request_sets (ee_fragments env) ss)"
  shows "answers_at None (resolve_container n env (resolve_output n env) None root ss)"
proof (rule answers_container [OF assms request_sets_self request_sets_closed [OF request_sets_self] request_sets_fragment])
  fix ctx out and fld :: "field positioned"
  assume "sub_sets (node (f_selection_set (node fld))) \<subseteq> request_sets (ee_fragments env) ss"
  then have "node (f_selection_set (node fld)) \<in> request_sets (ee_fragments env) ss"
    using sub_sets_self by blast
  then show "answers_at ctx (resolve_output n env ctx fld out)"
    using request_sets_closed request_sets_fragment by (intro answers_output [OF assms]) blast+
qed assumption

text \<open>The errors of the response of a container executed at the root.\<close>

definition points_to_null :: "const_value \<Rightarrow> server_error \<Rightarrow> bool" where
  "points_to_null v e \<longleftrightarrow> se_path e = [] \<or> null_at v (se_path e)"

lemma root_answers:
  assumes "answers_at None m" "m [] = Done (res, errs)"
  shows "case res of Inl e \<Rightarrow> True | Inr v \<Rightarrow> list_all (points_to_null v) errs"
proof (cases res)
  case (Inr v)
  then show ?thesis
    using answers_at_Inr [OF assms(1), of "[]" v errs] assms(2)
    by (auto simp: points_to_null_def [abs_def] null_under_def [abs_def] base_path_def)
qed simp

text \<open>C6: When no two fields of a selection set answer under the same name, every error of a response
  has no path or a path that leads, in the data of the response, to a null.\<close>

theorem error_paths_null:
  assumes "merge_free \<lparr>ee_registry = reg, ee_fragments = qe_fragments qe\<rparr>
      (request_sets (qe_fragments qe) (node (od_selection_set (node (qe_operation qe)))))"
    and "sc_error_formatter sc = None"
    and "execute_once n reg sc qe = Done resp"
  shows "list_all (points_to_null (rs_data resp)) (rs_errors resp)"
proof -
  let ?env = "\<lparr>ee_registry = reg, ee_fragments = qe_fragments qe\<rparr>"
  let ?ss = "node (od_selection_set (node (qe_operation qe)))"
  let ?container = "\<lambda>root. resolve_container n ?env (resolve_output n ?env) None root ?ss"
  have "answers_at None (?container root)" for root
    using assms(1) by (intro container_answers) simp
  moreover have "answers_at None (ex_fail (server_error_new msg p))" for msg p
    by (intro answers_fail) simp
  moreover obtain m res errs where
    "m = ex_fail (server_error_new ''Subscriptions are not supported on this transport.'' None) \<or>
      (\<exists>root. m = ?container root)"
    "m [] = Done (res, errs)"
    "resp = (case res of Inr v \<Rightarrow> response_new v | Inl e \<Rightarrow> response_from_errors [e])
       \<lparr>rs_errors := rs_errors (case res of Inr v \<Rightarrow> response_new v | Inl e \<Rightarrow> response_from_errors [e]) @ errs\<rparr>"
    using assms(3) unfolding execute_once_def Let_def run_map_Done
    by (cases "od_ty (node (qe_operation qe))") (auto simp: format_errors_def assms(2))
  ultimately show ?thesis
    using root_answers [of m res errs]
    by (cases res) (auto simp: response_new_def response_from_errors_def default_response_def
        points_to_null_def [abs_def] list_all_iff)
qed

end
