(* ===== verification/Execution_Bound.thy ===== *)
theory Execution_Bound
  imports Execution_Facts Samples
begin

text \<open>
  The recursion limit bounds the execution of a request, and requests on which the facts of
  \<open>Execution_Facts\<close> are seen at work.
\<close>

subsection \<open>A request\<close>

text \<open>\<open>{ me }\<close> on a root whose field answers with an error.\<close>

definition failing_root :: out_value where
  "failing_root = OutObject ''Query'' ''Query'' None
     (\<lambda>_. ResultField (Inl \<lparr>er_message = ''no'', er_source = None, er_extensions = None\<rparr>))"

definition me_env :: query_env where
  "me_env =
     \<lparr>qe_variables = [], qe_operation_name = None, qe_operation = sample_query [] [sample_field ''me'' [] []],
      qe_fragments = [], qe_introspection_mode = IntrospectionEnabled\<rparr>"

definition failing_roots :: schema_roots where
  "failing_roots = \<lparr>sc_query = failing_root, sc_mutation = failing_root, sc_empty_mutation = failing_root,
     sc_error_formatter = None\<rparr>"

lemma sub_sets_empty [simp]: "sub_sets (SelSet []) = {SelSet []}"
  by (subst sub_sets.simps) simp

lemma merge_free_me: "merge_free ex (request_sets [] (node (od_selection_set (node (qe_operation me_env)))))"
  by (auto simp: merge_free_def request_sets_def me_env_def sample_defs sub_sets.simps [of "SelSet (x # xs)" for x xs]
      add_set.simps try_seq_def try_ok_def split: if_splits)

lemmas exec_defs =
  ex_return_def ex_fail_def ex_bind_def ex_map_def ex_map_error_def report_null_def null_on_error_def ex_collect_def
  response_new_def response_from_errors_def default_response_def format_errors_def

theorem error_paths_null_witness:
  "\<exists>resp. execute_once 1 sample_registry failing_roots me_env = Done resp \<and> length (rs_errors resp) = 1 \<and>
     list_all (points_to_null (rs_data resp)) (rs_errors resp)"
proof -
  obtain resp where "execute_once 1 sample_registry failing_roots me_env = Done resp" "length (rs_errors resp) = 1"
    by (simp add: execute_once_def me_env_def failing_roots_def failing_root_def sample_defs exec_defs
        resolve_container_def resolve_field_def field_values add_set.simps try_seq_def try_ok_def)
  moreover have "list_all (points_to_null (rs_data resp)) (rs_errors resp)"
    by (rule error_paths_null [OF _ _ calculation(1)])
      (use merge_free_me in \<open>simp_all add: failing_roots_def, simp add: me_env_def\<close>)
  ultimately show ?thesis by blast
qed

subsection \<open>Executions that do not run out of fuel\<close>

definition returns :: "'a exec \<Rightarrow> bool" where
  "returns m \<longleftrightarrow> (\<forall>errs. m errs \<noteq> OutOfFuel)"

named_theorems returning

lemma returns_basic [returning, simp]:
  "returns (ex_return x)" "returns (ex_fail e)" "returns (report_null e)"
  by (simp_all add: returns_def ex_return_def ex_fail_def report_null_def)

lemma returns_bind [returning]: "returns m \<Longrightarrow> (\<And>x. returns (k x)) \<Longrightarrow> returns (ex_bind m k)"
  by (auto simp: returns_def ex_bind_def run_bind_OutOfFuel_iff split: prod.splits sum.splits)

lemma returns_map [returning]: "returns m \<Longrightarrow> returns (ex_map f m)" "returns m \<Longrightarrow> returns (ex_map_error g m)"
  by (simp_all add: returns_def ex_map_def ex_map_error_def)

lemma returns_null_on_error [returning]: "returns m \<Longrightarrow> returns (null_on_error f m)"
  by (auto simp: returns_def null_on_error_def report_null_def run_bind_OutOfFuel_iff split: prod.splits sum.splits)

lemma returns_field:
  "(\<And>ctx out. returns (resolve ctx fld out)) \<Longrightarrow> returns (resolve_field ev resolve path root fld)"
  by (auto simp: resolve_field_def field_values Let_def split: field_method.splits sum.splits intro!: returning)

lemma returns_fields:
  "(\<And>root fld ctx out. PendingField root fld \<in> set ps \<Longrightarrow> returns (resolve ctx fld out)) \<Longrightarrow>
   returns (resolve_fields ev resolve path ps)"
  by (induction ps) (auto split: pending_field.splits intro!: returning returns_field)

lemma returns_list:
  "(\<And>ctx out. out \<in> set outs \<Longrightarrow> returns (resolve ctx out)) \<Longrightarrow> returns (resolve_list resolve path i outs)"
  by (induction outs arbitrary: i) (auto intro!: returning)

subsection \<open>The limit on the selections that are left\<close>

definition removed_shape :: "variables \<Rightarrow> selection \<Rightarrow> selection \<Rightarrow> bool" where
  "removed_shape vars sel sel' \<longleftrightarrow>
    (case sel of
       SelField fld \<Rightarrow> \<exists>fld'. sel' = SelField fld' \<and>
         f_selection_set (node fld') = positioned_map (remove_skipped_selection vars) (f_selection_set (node fld))
     | SelSpread spread \<Rightarrow> \<exists>spread'. sel' = SelSpread spread' \<and>
         fs_fragment_name (node spread') = fs_fragment_name (node spread)
     | SelInline inl \<Rightarrow> \<exists>inl'. sel' = SelInline inl' \<and>
         if_selection_set (node inl') = positioned_map (remove_skipped_selection vars) (if_selection_set (node inl)))"

lemma removed_item:
  assumes "sel' \<in> set (items (remove_skipped_selection vars ss))"
  shows "\<exists>sel\<in>set (items ss). removed_shape vars (node sel) (node sel')"
proof -
  obtain sel where sel: "sel \<in> set (items ss)" "sel' = Positioned (pos sel)
         (case strip_skip_include (node sel) of
            SelField fld \<Rightarrow>
              SelField (positioned_map (\<lambda>f.
                Fld (f_alias f) (f_name f) (f_arguments f) (f_directives f)
                  (Positioned (pos (f_selection_set (node fld)))
                     (remove_skipped_selection vars (node (f_selection_set (node fld)))))) fld)
          | SelSpread spread \<Rightarrow> SelSpread spread
          | SelInline inl \<Rightarrow>
              SelInline (positioned_map (\<lambda>i.
                InlineFrag (if_type_condition i) (if_directives i)
                  (Positioned (pos (if_selection_set (node inl)))
                     (remove_skipped_selection vars (node (if_selection_set (node inl)))))) inl))"
    using assms by (subst (asm) remove_skipped_selection.simps) (auto simp: positioned_map_def)
  show ?thesis
    by (rule bexI [OF _ sel(1)]) (cases "node sel"; simp add: sel(2) removed_shape_def strip_skip_include_def positioned_map_def)
qed

lemma map_of_removed:
  "map_of (remove_skipped_fragments vars frags) n =
     map_option (positioned_map (\<lambda>fd.
       fd\<lparr>fd_selection_set := positioned_map (remove_skipped_selection vars) (fd_selection_set fd)\<rparr>)) (map_of frags n)"
  by (induction frags) (auto simp: remove_skipped_fragments_def)

lemma check_depth_remove_skipped:
  "check_depth_selection_set doc max_depth d ss = Inr () \<Longrightarrow>
   doc_fragments doc' = remove_skipped_fragments vars (doc_fragments doc) \<Longrightarrow>
    check_depth_selection_set doc' max_depth d (positioned_map (remove_skipped_selection vars) ss) = Inr ()"
proof (induction doc max_depth d ss rule: check_depth_selection_set.induct)
  case (1 doc max_depth d ss)
  have d: "\<not> max_depth < d" and depth: "depth_item doc max_depth d (node sel) = Inr ()" if "sel \<in> set (items (node ss))" for sel
    using "1.prems"(1) that by (auto simp: check_depth_iff)
  have "depth_item doc' max_depth d (node sel') = Inr ()"
    if removed: "sel' \<in> set (items (remove_skipped_selection vars (node ss)))" for sel'
  proof -
    obtain sel where sel: "sel \<in> set (items (node ss))" and shape: "removed_shape vars (node sel) (node sel')"
      using removed_item [OF removed] by blast
    show ?thesis
    proof (cases "node sel")
      case (SelField fld)
      then show ?thesis
        using "1.IH"(1) [OF d [OF sel] sel SelField] "1.prems"(2) depth [OF sel] shape
        by (cases "items (node (f_selection_set (node fld))) = []")
          (auto simp: removed_shape_def depth_item_def positioned_map_def remove_skipped_selection.simps)
    next
      case (SelSpread spread)
      then show ?thesis
        using "1.IH"(2) [OF d [OF sel] sel SelSpread] "1.prems"(2) depth [OF sel] shape
        by (auto simp: removed_shape_def depth_item_def map_of_removed positioned_map_def split: option.splits)
    next
      case (SelInline inl)
      then show ?thesis
        using "1.IH"(3) [OF d [OF sel] sel SelInline] "1.prems"(2) depth [OF sel] shape
        by (auto simp: removed_shape_def depth_item_def)
    qed
  qed
  moreover have "d \<le> max_depth"
    using "1.prems"(1) by (simp add: check_depth_iff)
  ultimately show ?case
    by (subst check_depth_iff) (simp add: positioned_map_def)
qed

text \<open>The selections of a field fit below the limit, or there are none.\<close>

definition fits :: "executable_document \<Rightarrow> nat \<Rightarrow> nat \<Rightarrow> selection_set positioned \<Rightarrow> bool" where
  "fits doc max_depth n ss \<longleftrightarrow>
     items (node ss) = [] \<or> (\<exists>d. check_depth_selection_set doc max_depth d ss = Inr () \<and> max_depth < n + d)"

definition field_fits :: "executable_document \<Rightarrow> nat \<Rightarrow> nat \<Rightarrow> pending_field \<Rightarrow> bool" where
  "field_fits doc max_depth n p \<longleftrightarrow>
     (case p of PendingTypename _ _ \<Rightarrow> True | PendingField _ fld \<Rightarrow> 0 < n \<and> fits doc max_depth (n - 1) (f_selection_set (node fld)))"

lemma fits_item:
  assumes "fits doc max_depth n ss" "sel \<in> set (items (node ss))"
  obtains d where "d \<le> max_depth" "depth_item doc max_depth d (node sel) = Inr ()" "max_depth < n + d"
  using assms by (auto simp: fits_def check_depth_iff)

lemma fits_depth:
  assumes "fits doc max_depth n ss" "sel \<in> set (items (node ss))" "n \<le> N"
  shows "node sel = SelField fld \<Longrightarrow> field_fits doc max_depth N (PendingField root fld)"
    and "node sel = SelInline inl \<Longrightarrow> fits doc max_depth n (if_selection_set (node inl))"
    and "node sel = SelSpread spread \<Longrightarrow> map_of (doc_fragments doc) (node (fs_fragment_name (node spread))) = Some fr \<Longrightarrow>
      \<exists>m. n = Suc m \<and> fits doc max_depth m (fd_selection_set (node fr))"
proof -
  obtain d where d: "d \<le> max_depth" "depth_item doc max_depth d (node sel) = Inr ()" "max_depth < n + d"
    using assms(1,2) by (rule fits_item)
  show "node sel = SelField fld \<Longrightarrow> field_fits doc max_depth N (PendingField root fld)"
    using d assms(3) by (auto simp: field_fits_def fits_def depth_item_def split: if_splits intro!: exI [of _ "d + 1"])
  show "node sel = SelInline inl \<Longrightarrow> fits doc max_depth n (if_selection_set (node inl))"
    using d by (auto simp: fits_def depth_item_def intro!: exI [of _ "d + 1"])
  show "\<exists>m. n = Suc m \<and> fits doc max_depth m (fd_selection_set (node fr))"
    if "node sel = SelSpread spread" "map_of (doc_fragments doc) (node (fs_fragment_name (node spread))) = Some fr"
    using d that by (intro exI [of _ "n - 1"]) (auto simp: fits_def depth_item_def intro!: exI [of _ "d + 1"])
qed

lemma add_set_returns:
  "fits doc max_depth n ss \<Longrightarrow> ee_fragments ev = doc_fragments doc \<Longrightarrow> try_fuel_free (add_set n ev root (node ss))"
proof (induction n ev root "node ss" arbitrary: ss rule: add_set.induct)
  case (1 n ev root ss)
  show ?case
  proof (subst add_set.simps, rule try_fuel_free_each)
    fix sel assume sel: "sel \<in> set (items (node ss))"
    note below = fits_depth [OF "1.prems"(1) sel order.refl]
    show "try_fuel_free (case node sel of
         SelField fld \<Rightarrow>
           (\<lambda>fields. Done (Inr (fields @
              [if node (f_name (node fld)) = ''__typename''
               then PendingTypename (node (response_key (node fld))) (ob_introspection_name root)
               else PendingField root fld])))
       | SelSpread spread \<Rightarrow>
           (case map_of (ee_fragments ev) (node (fs_fragment_name (node spread))) of
              None \<Rightarrow> (\<lambda>_. Done (Inl (unknown_fragment spread)))
            | Some fragment \<Rightarrow>
                (case fragment_target ev root (Some (node (tc_on (node (fd_type_condition (node fragment)))))) of
                   None \<Rightarrow> try_ok
                 | Some target \<Rightarrow>
                     (case n of
                        0 \<Rightarrow> (\<lambda>_. OutOfFuel)
                      | Suc m \<Rightarrow> add_set m ev target (node (fd_selection_set (node fragment))))))
       | SelInline inl \<Rightarrow>
           (case fragment_target ev root (map_option (\<lambda>c. node (tc_on (node c))) (if_type_condition (node inl))) of
              None \<Rightarrow> try_ok
            | Some target \<Rightarrow> add_set n ev target (node (if_selection_set (node inl)))))"
    proof (cases "node sel")
      case (SelSpread spread)
      then show ?thesis
        using below(3) [OF SelSpread] "1.hyps"(1) [OF sel SelSpread] "1.prems"(2)
        by (auto split: option.splits)
    next
      case (SelInline inl)
      then show ?thesis
        using below(2) [OF SelInline] "1.hyps"(2) [OF sel SelInline] "1.prems"(2)
        by (auto split: option.splits)
    qed simp
  qed
qed

lemma add_set_fits:
  "fits doc max_depth n ss \<Longrightarrow> ee_fragments ev = doc_fragments doc \<Longrightarrow> n \<le> N \<Longrightarrow>
   list_all (field_fits doc max_depth N) ps \<Longrightarrow> add_set n ev root (node ss) ps = Done (Inr ps') \<Longrightarrow>
   list_all (field_fits doc max_depth N) ps'"
proof (induction n ev root "node ss" arbitrary: ss ps ps' rule: add_set.induct)
  case (1 n ev root ss)
  note loop = "1.prems"(5) [unfolded add_set.simps [of n ev root "node ss"]]
  show ?case
  proof (rule try_each_Inr_induct [where P = "list_all (field_fits doc max_depth N)", OF loop "1.prems"(4)], goal_cases)
    case (1 sel ps ps')
    note below = fits_depth [OF "1.prems"(1) 1(1) "1.prems"(3)]
    show ?case
    proof (cases "node sel")
      case (SelField fld)
      then show ?thesis
        using 1 below(1) [OF SelField] by (auto simp: field_fits_def)
    next
      case (SelSpread spread)
      then show ?thesis
        using 1 "1.hyps"(1) [OF 1(1) SelSpread] below(3) [OF SelSpread] "1.prems"(2,3)
        by (auto simp: try_ok_def split: option.splits nat.splits)
    next
      case (SelInline inl)
      then show ?thesis
        using 1 "1.hyps"(2) [OF 1(1) SelInline] below(2) [OF SelInline] "1.prems"(2,3)
        by (auto simp: try_ok_def split: option.splits)
    qed
  qed
qed

lemma returns_container:
  assumes "fits doc max_depth n ss" "ee_fragments ev = doc_fragments doc"
    and resolve: "\<And>ctx fld out. 0 < n \<Longrightarrow> fits doc max_depth (n - 1) (f_selection_set (node fld)) \<Longrightarrow> returns (resolve ctx fld out)"
  shows "returns (resolve_container n ev resolve path root (node ss))"
proof -
  have "resolve_container n ev resolve path root (node ss) errs \<noteq> OutOfFuel" for errs
  proof (cases "add_set n ev root (node ss) []")
    case (Done r)
    have "returns (resolve_fields ev resolve path ps)" if "r = Inr ps" for ps
    proof (intro returns_fields resolve)
      fix root' fld
      assume "PendingField root' fld \<in> set ps"
      moreover have "list_all (field_fits doc max_depth n) ps"
        using add_set_fits [OF assms(1,2) order.refl, of "[]"] Done that by simp
      ultimately have "field_fits doc max_depth n (PendingField root' fld)"
        by (simp only: list_all_iff)
      then show "0 < n" "fits doc max_depth (n - 1) (f_selection_set (node fld))"
        by (simp_all add: field_fits_def)
    qed
    then show ?thesis
      using Done by (cases r) (auto simp: resolve_container_def ex_bind_def ex_collect_def returns_def ex_map_def)
  next
    case OutOfFuel
    then show ?thesis using add_set_returns [OF assms(1,2)] by (auto simp: try_fuel_free_def)
  qed (simp add: resolve_container_def ex_bind_def ex_collect_def)
  then show ?thesis by (simp add: returns_def)
qed

lemma returns_output:
  assumes "ee_fragments ev = doc_fragments doc"
  shows "0 < n \<Longrightarrow> fits doc max_depth (n - 1) (f_selection_set (node fld)) \<Longrightarrow> returns (resolve_output n ev path fld out)"
  using assms
proof (induction n ev path fld out rule: resolve_output.induct)
  case (5 n ev path fld t i inner f)
  then obtain m where m: "n = Suc m" using gr0_implies_Suc by blast
  have "returns (resolve_container m ev (resolve_output m ev) path (OutObject t i inner f) (node (f_selection_set (node fld))))"
    using "5.prems" "5.IH" [OF m] by (intro returns_container [where doc = doc and max_depth = max_depth]) (simp_all add: m)
  then show ?case by (simp add: m)
qed (auto split: option.splits sum.splits intro!: returning returns_list)

lemma select_operation_member:
  "select_operation opname ops = Inr (n, op) \<Longrightarrow> (n, op) \<in> set (operations_iter ops)"
  by (auto simp: select_operation_def split: option.splits document_operations.splits list.splits dest: map_of_SomeD)

text \<open>What preparing a request returns.\<close>

lemma prepare_request_Inr:
  assumes "prepare_request reg call mode max_depth md ma complexity depth doc vars opname intro = Done (Inr (qe, cc))"
  obtains op vars' where "check_recursive_depth doc max_depth = Inr ()"
    "(qe_operation_name qe, op) \<in> set (operations_iter (doc_operations doc))"
    "qe_operation qe = remove_skipped_operation vars' op"
    "qe_fragments qe = remove_skipped_fragments vars' (doc_fragments doc)"
proof -
  obtain r where r: "check_limits doc max_depth md ma = Done r"
    using assms by (auto simp: prepare_request_def run_bind_Done_iff)
  then have limits: "check_limits doc max_depth md ma = Done (Inr ())"
    using assms by (cases r) (simp_all add: prepare_request_def)
  then have depth: "check_recursive_depth doc max_depth = Inr ()"
    by (auto simp: check_limits_def run_bind_Done_iff try_seq_def split: sum.splits)
  have "run_bind (Done (Inr ())) f = f (Inr ())" for f :: "server_error + unit \<Rightarrow> 'x run"
    by simp
  note assms [unfolded prepare_request_def limits this sum.case run_map_Done]
  then obtain checked :: "server_error list + validation_result" where "Inr (qe, cc) = result_bind checked (\<lambda>result.
       result_bind (map_sum (\<lambda>e. [e]) id (select_operation opname (doc_operations doc)))
         (\<lambda>(operation_name, op).
           let vars' = variables_with_defaults (od_variable_definitions (node op)) vars in
           Inr (\<lparr>qe_variables = vars, qe_operation_name = operation_name,
                 qe_operation = remove_skipped_operation vars' op,
                 qe_fragments = remove_skipped_fragments vars' (doc_fragments doc),
                 qe_introspection_mode = intro\<rparr>,
                vr_cache_control result)))"
    by blast
  then show thesis
    using depth that
    by (cases checked; cases "select_operation opname (doc_operations doc)")
      (auto simp: Let_def dest!: select_operation_member)
qed

lemma execute_once_returns:
  assumes "check_recursive_depth doc max_depth = Inr ()" "(n, op) \<in> set (operations_iter (doc_operations doc))"
    and "qe_operation qe = remove_skipped_operation vars op" "qe_fragments qe = remove_skipped_fragments vars (doc_fragments doc)"
  shows "execute_once (Suc max_depth) reg sc qe \<noteq> OutOfFuel"
proof -
  let ?doc = "doc\<lparr>doc_fragments := qe_fragments qe\<rparr>"
  let ?ev = "\<lparr>ee_registry = reg, ee_fragments = qe_fragments qe\<rparr>"
  have "check_depth_selection_set doc max_depth 0 (od_selection_set (node op)) = Inr ()"
    using assms(1,2) by (auto simp: check_recursive_depth_def try_all_ok)
  then have "check_depth_selection_set ?doc max_depth 0 (od_selection_set (node (qe_operation qe))) = Inr ()"
    using assms(3,4) check_depth_remove_skipped [of doc max_depth 0 "od_selection_set (node op)" ?doc vars]
    by (simp add: remove_skipped_operation_def positioned_map_def)
  then have "fits ?doc max_depth (Suc max_depth) (od_selection_set (node (qe_operation qe)))"
    by (auto simp: fits_def)
  then have "returns (resolve_container (Suc max_depth) ?ev (resolve_output (Suc max_depth) ?ev) None root
      (node (od_selection_set (node (qe_operation qe)))))" for root
    by (rule returns_container) (simp_all add: returns_output [where doc = ?doc and max_depth = max_depth])
  then show ?thesis
    by (auto simp: execute_once_def Let_def returns_def ex_fail_def split: operation_type.splits)
qed

text \<open>C3: Executing a request with the fuel of its recursion limit never runs out of it: a query that the
  limit admits is executed, however its fragments nest and whatever its resolvers return.\<close>

theorem execute_request_bounded:
  "execute_request (Suc max_depth) reg call sc mode max_depth md ma complexity depth doc vars opname intro \<noteq> OutOfFuel"
proof -
  have "execute_once (Suc max_depth) reg sc qe \<noteq> OutOfFuel"
    if "prepare_request reg call mode max_depth md ma complexity depth doc vars opname intro = Done (Inr (qe, cc))"
    for qe cc
    using that by (rule prepare_request_Inr) (rule execute_once_returns)
  then show ?thesis
    using prepare_request_no_fuel [of reg call mode max_depth md ma complexity depth doc vars opname intro]
    by (auto simp: execute_request_def run_bind_OutOfFuel_iff split: sum.splits)
qed

subsection \<open>What merging and locating lose\<close>

text \<open>Objects in nested lists are not merged: the second selection of the same field is dropped.\<close>

lemma nested_lists_keep_first:
  "create_value_object
     [(''a'', CList [CList [CObject [(''x'', CBoolean True)]]]), (''a'', CList [CList [CObject [(''y'', CBoolean True)]]])] =
   CObject [(''a'', CList [CList [CObject [(''x'', CBoolean True)]]])]"
  by (simp add: create_value_object_def)

text \<open>\<open>{ me { g } me { f } }\<close>, where \<open>f\<close> fails and makes the second \<open>me\<close> null: the first one stays in the
  data, so the path of the error leads nowhere.\<close>

lemma merged_null_is_lost:
  "create_value_object [(''me'', CObject [(''g'', CBoolean True)]), (''me'', CNull)] =
     CObject [(''me'', CObject [(''g'', CBoolean True)])] \<and>
   \<not> null_at (CObject [(''me'', CObject [(''g'', CBoolean True)])]) [PathField ''me'', PathField ''f'']"
  by (simp add: create_value_object_def)

text \<open>The error of an item is relocated to the item, wherever below it it was located.\<close>

lemma item_error_relocated:
  assumes "\<And>ctx. resolve ctx out errs = Done (Inl e, errs')"
  shows "\<exists>e'. resolve_list resolve path i (out # outs) errs = Done (Inl e', errs') \<and>
    se_path e' = base_path path @ [PathIndex i]"
  by (cases path)
    (simp_all add: ex_bind_def ex_map_error_def assms set_error_path_def with_index_def base_path_def)

end
