(* ===== verification/Websocket.thy ===== *)
theory Websocket
  imports Prelude
begin

text \<open>
  The subscription transport (\<open>src/src/http/websocket.rs\<close>): the state of a connection, one poll of
  it, and its runs as a step relation.

  What the connection is built over is an argument of the model: the callbacks \<open>on_connection_init\<close>
  and \<open>on_ping\<close>, the executor, and how their futures and streams answer a poll (\<open>environment\<close>). An
  environment may differ from one poll to the next, so a future or a stream may become ready at any
  time. A timer is ready once its deadline has passed, time being a number the caller of a poll passes.
  The text of a message is kept as the \<open>ServerMessage\<close> that \<open>serde_json\<close> prints; the items of the
  incoming stream are client messages, or the error of a text that is none.
\<close>

subsection \<open>Messages and protocols\<close>

datatype protocols = SubscriptionsTransportWS | GraphQLWS

datatype ('json, 'req) client_message =
    ConnectionInit "'json option"
  | Start string 'req
  | Stop string
  | ConnectionTerminate
  | ClientPing "'json option"
  | ClientPong "'json option"

datatype ('json, 'resp) server_message =
    ConnectionError string
  | ConnectionAck
  | Data string 'resp
  | Next string 'resp
  | Complete string
  | Pong "'json option"
  | Ping "'json option"

datatype ('json, 'resp) ws_message =
    WsText "('json, 'resp) server_message"
  | WsClose "16 word" string

definition unwrap_text :: "('json, 'resp) ws_message \<Rightarrow> ('json, 'resp) server_message run" where
  "unwrap_text m = (case m of WsText t \<Rightarrow> Done t | WsClose _ _ \<Rightarrow> Panicked)"

definition unwrap_close :: "('json, 'resp) ws_message \<Rightarrow> (16 word \<times> string) run" where
  "unwrap_close m = (case m of WsClose c r \<Rightarrow> Done (c, r) | WsText _ \<Rightarrow> Panicked)"

fun sec_websocket_protocol :: "protocols \<Rightarrow> string" where
  "sec_websocket_protocol SubscriptionsTransportWS = ''graphql-ws''"
| "sec_websocket_protocol GraphQLWS = ''graphql-transport-ws''"

definition all_websocket_protocols :: "string list" where
  "all_websocket_protocols = [''graphql-transport-ws'', ''graphql-ws'']"

definition ascii_lower :: "char \<Rightarrow> char" where
  "ascii_lower c = (let n = (of_char c :: nat) in if 65 \<le> n \<and> n \<le> 90 then char_of (n + 32) else c)"

definition eq_ignore_ascii_case :: "string \<Rightarrow> string \<Rightarrow> bool" where
  "eq_ignore_ascii_case s t \<longleftrightarrow> map ascii_lower s = map ascii_lower t"

definition protocols_from_str :: "string \<Rightarrow> string + protocols" where
  "protocols_from_str protocol =
     (if eq_ignore_ascii_case protocol ''graphql-ws'' then Inr SubscriptionsTransportWS
      else if eq_ignore_ascii_case protocol ''graphql-transport-ws'' then Inr GraphQLWS
      else Inl (''Unsupported Sec-WebSocket-Protocol: '' @ protocol))"

fun next_message :: "protocols \<Rightarrow> string \<Rightarrow> 'resp \<Rightarrow> ('json, 'resp) server_message" where
  "next_message SubscriptionsTransportWS i payload = Data i payload"
| "next_message GraphQLWS i payload = Next i payload"

subsection \<open>The connection\<close>

datatype 'a poll = Pending | Ready 'a

record timer =
  tm_interval :: nat
  tm_deadline :: nat

definition timer_new :: "nat \<Rightarrow> nat \<Rightarrow> timer" where
  "timer_new now interval = \<lparr>tm_interval = interval, tm_deadline = now + interval\<rparr>"

definition timer_reset :: "nat \<Rightarrow> timer \<Rightarrow> timer" where
  "timer_reset now t = t\<lparr>tm_deadline := now + tm_interval t\<rparr>"

text \<open>\<open>Timer::poll_next\<close>: a timer that has fired is reset.\<close>

definition timer_poll :: "nat \<Rightarrow> timer \<Rightarrow> bool \<times> timer" where
  "timer_poll now t = (if tm_deadline t \<le> now then (True, timer_reset now t) else (False, t))"

record ('json, 'req, 'data, 'f, 's) web_socket =
  on_connection_init :: bool
  init_fut :: "'f option"
  ping_fut :: "'f option"
  connection_data :: "'data option"
  ws_data :: "'data option"
  streams :: "(string, 's) alist"
  incoming :: "(string + ('json, 'req) client_message) list"
  incoming_ended :: bool
  protocol :: protocols
  last_msg_at :: nat
  keepalive_timer :: "timer option"
  ping_interval_timer :: "timer option"
  waiting_for_pong :: bool
  ws_close :: bool

text \<open>\<open>on_connection_init\<close> says whether the callback is still there: it is called at most once.\<close>

record ('json, 'req, 'resp, 'data, 'f, 's) environment =
  env_on_init :: "'json \<Rightarrow> 'f"
  env_on_ping :: "'data option \<Rightarrow> 'json option \<Rightarrow> 'f"
  env_execute_stream :: "'req \<Rightarrow> 'data \<Rightarrow> 's"
  env_poll_init :: "'f \<Rightarrow> (string + 'data) poll \<times> 'f"
  env_poll_ping :: "'f \<Rightarrow> (string + 'json option) poll \<times> 'f"
  env_poll_stream :: "'s \<Rightarrow> 'resp option poll \<times> 's"
  env_default_json :: 'json
  env_default_data :: 'data
  env_merge :: "'data \<Rightarrow> 'data \<Rightarrow> 'data"

definition from_message_stream :: "nat \<Rightarrow> protocols \<Rightarrow> ('json, 'req, 'data, 'f, 's) web_socket" where
  "from_message_stream now p =
     \<lparr>on_connection_init = True, init_fut = None, ping_fut = None, connection_data = None,
      ws_data = None, streams = [], incoming = [], incoming_ended = False, protocol = p,
      last_msg_at = now, keepalive_timer = None, ping_interval_timer = None,
      waiting_for_pong = False, ws_close = False\<rparr>"

definition with_connection_data ::
  "'data \<Rightarrow> ('json, 'req, 'data, 'f, 's) web_socket \<Rightarrow> ('json, 'req, 'data, 'f, 's) web_socket" where
  "with_connection_data d ws = ws\<lparr>connection_data := Some d\<rparr>"

definition keepalive_timeout ::
  "nat \<Rightarrow> nat option \<Rightarrow> ('json, 'req, 'data, 'f, 's) web_socket \<Rightarrow> ('json, 'req, 'data, 'f, 's) web_socket"
where
  "keepalive_timeout now timeout ws = ws\<lparr>keepalive_timer := map_option (timer_new now) timeout\<rparr>"

definition ping_interval ::
  "nat \<Rightarrow> nat option \<Rightarrow> ('json, 'req, 'data, 'f, 's) web_socket \<Rightarrow> ('json, 'req, 'data, 'f, 's) web_socket"
where
  "ping_interval now interval ws = ws\<lparr>ping_interval_timer := map_option (timer_new now) interval\<rparr>"

definition server_pings_enabled :: "('json, 'req, 'data, 'f, 's) web_socket \<Rightarrow> bool" where
  "server_pings_enabled ws \<longleftrightarrow> protocol ws = GraphQLWS \<and> ping_interval_timer ws \<noteq> None"

abbreviation reset_keepalive ::
  "nat \<Rightarrow> ('json, 'req, 'data, 'f, 's) web_socket \<Rightarrow> ('json, 'req, 'data, 'f, 's) web_socket" where
  "reset_keepalive now \<equiv> keepalive_timer_update (map_option (timer_reset now))"

text \<open>Closing with an error: a message of the older protocol, a close frame of the newer one.\<close>

definition closing :: "protocols \<Rightarrow> 16 word \<Rightarrow> string \<Rightarrow> ('json, 'resp) ws_message" where
  "closing p code msg =
     (case p of SubscriptionsTransportWS \<Rightarrow> WsText (ConnectionError msg) | GraphQLWS \<Rightarrow> WsClose code msg)"

subsection \<open>One poll\<close>

text \<open>
  The parts of \<open>poll_next\<close> in their order. A part answers \<open>Some r\<close> when the function returns \<open>r\<close>
  there, and \<open>None\<close> when it goes on.
\<close>

type_synonym ('json, 'req, 'resp, 'data, 'f, 's) part =
  "('json, 'req, 'data, 'f, 's) web_socket \<Rightarrow>
   ('json, 'resp) ws_message option poll option \<times> ('json, 'req, 'data, 'f, 's) web_socket"

definition part_seq ::
  "('json, 'req, 'resp, 'data, 'f, 's) part \<Rightarrow> ('json, 'req, 'resp, 'data, 'f, 's) part \<Rightarrow>
   ('json, 'req, 'resp, 'data, 'f, 's) part" where
  "part_seq f g ws = (case f ws of (Some r, ws') \<Rightarrow> (Some r, ws') | (None, ws') \<Rightarrow> g ws')"

abbreviation sends :: "'m \<Rightarrow> 'm option poll option" where
  "sends m \<equiv> Some (Ready (Some m))"

definition poll_keepalive :: "nat \<Rightarrow> ('json, 'req, 'resp, 'data, 'f, 's) part" where
  "poll_keepalive now ws =
     (case keepalive_timer ws of
        None \<Rightarrow> (None, ws)
      | Some t \<Rightarrow>
          (case timer_poll now t of (fired, t') \<Rightarrow>
             let ws' = ws\<lparr>keepalive_timer := Some t'\<rparr> in
             if fired \<and> (\<not> server_pings_enabled ws \<or> waiting_for_pong ws)
             then (sends (closing (protocol ws) 3008 ''timeout''), ws'\<lparr>ws_close := True\<rparr>)
             else (None, ws')))"

definition poll_ping_interval :: "nat \<Rightarrow> ('json, 'req, 'resp, 'data, 'f, 's) part" where
  "poll_ping_interval now ws =
     (if server_pings_enabled ws \<and> \<not> waiting_for_pong ws then
        (case ping_interval_timer ws of
           None \<Rightarrow> (None, ws)
         | Some t \<Rightarrow>
             (case timer_poll now t of (fired, t') \<Rightarrow>
                let ws' = ws\<lparr>ping_interval_timer := Some t'\<rparr> in
                if fired then
                  (sends (WsText (Ping None)),
                   if keepalive_timer ws' \<noteq> None
                   then reset_keepalive now (ws'\<lparr>waiting_for_pong := True\<rparr>)
                   else ws')
                else (None, ws')))
      else (None, ws))"

text \<open>The handling of one client message: a return, the end of the loop (\<open>break\<close>), or its next round.\<close>

datatype 'r handled = Return 'r | Break | Continue

definition handle_message ::
  "('json, 'req, 'resp, 'data, 'f, 's) environment \<Rightarrow> nat \<Rightarrow> ('json, 'req) client_message \<Rightarrow>
   ('json, 'req, 'data, 'f, 's) web_socket \<Rightarrow>
   ('json, 'resp) ws_message option handled \<times> ('json, 'req, 'data, 'f, 's) web_socket" where
  "handle_message env now message ws =
     (case message of
        ConnectionInit payload \<Rightarrow>
          if on_connection_init ws then
            (Break, ws\<lparr>on_connection_init := False,
                       init_fut := Some (env_on_init env (case payload of None \<Rightarrow> env_default_json env | Some p \<Rightarrow> p))\<rparr>)
          else (Return (Some (closing (protocol ws) 4429 ''Too many initialisation requests.'')),
                ws\<lparr>ws_close := True\<rparr>)
      | Start i request \<Rightarrow>
          (case ws_data ws of
             Some d \<Rightarrow> (Continue, ws\<lparr>streams := alist_insert i (env_execute_stream env request d) (streams ws)\<rparr>)
           | None \<Rightarrow> (Return (Some (WsClose 1011 ''The handshake is not completed.'')), ws\<lparr>ws_close := True\<rparr>))
      | Stop i \<Rightarrow>
          if contains_key (streams ws) i
          then (Return (Some (WsText (Complete i))), ws\<lparr>streams := alist_remove i (streams ws)\<rparr>)
          else (Continue, ws)
      | ConnectionTerminate \<Rightarrow> (Return None, ws\<lparr>ws_close := True\<rparr>)
      | ClientPing payload \<Rightarrow> (Break, ws\<lparr>ping_fut := Some (env_on_ping env (ws_data ws) payload)\<rparr>)
      | ClientPong _ \<Rightarrow> (Continue, reset_keepalive now (ws\<lparr>waiting_for_pong := False\<rparr>)))"

text \<open>The loop over the messages that have arrived.\<close>

fun poll_messages ::
  "('json, 'req, 'resp, 'data, 'f, 's) environment \<Rightarrow> nat \<Rightarrow> (string + ('json, 'req) client_message) list \<Rightarrow>
   ('json, 'req, 'resp, 'data, 'f, 's) part" where
  "poll_messages env now [] ws =
     (if incoming_ended ws then (Some (Ready None), ws\<lparr>incoming := []\<rparr>) else (None, ws\<lparr>incoming := []\<rparr>))"
| "poll_messages env now (Inl err # rest) ws =
     (sends (WsClose 1002 err), ws\<lparr>incoming := rest, ws_close := True\<rparr>)"
| "poll_messages env now (Inr message # rest) ws =
     (let ws = ws\<lparr>incoming := rest, last_msg_at := now\<rparr>;
          ws = (if \<not> server_pings_enabled ws \<or> \<not> waiting_for_pong ws then reset_keepalive now ws else ws)
      in case handle_message env now message ws of
           (Return r, ws) \<Rightarrow> (Some (Ready r), ws)
         | (Break, ws) \<Rightarrow> (None, ws)
         | (Continue, ws) \<Rightarrow> poll_messages env now rest ws)"

definition poll_incoming ::
  "('json, 'req, 'resp, 'data, 'f, 's) environment \<Rightarrow> nat \<Rightarrow> ('json, 'req, 'resp, 'data, 'f, 's) part" where
  "poll_incoming env now ws =
     (if init_fut ws = None \<and> ping_fut ws = None then poll_messages env now (incoming ws) ws else (None, ws))"

definition poll_init_fut ::
  "('json, 'req, 'resp, 'data, 'f, 's) environment \<Rightarrow> nat \<Rightarrow> ('json, 'req, 'resp, 'data, 'f, 's) part" where
  "poll_init_fut env now ws =
     (case init_fut ws of
        None \<Rightarrow> (None, ws)
      | Some f \<Rightarrow>
          (case env_poll_init env f of
             (Pending, f') \<Rightarrow> (Some Pending, ws\<lparr>init_fut := Some f'\<rparr>)
           | (Ready (Inr d), _) \<Rightarrow>
               (sends (WsText ConnectionAck),
                ws\<lparr>init_fut := None, connection_data := None,
                   ws_data := Some (env_merge env (case connection_data ws of None \<Rightarrow> env_default_data env | Some c \<Rightarrow> c) d),
                   ping_interval_timer := map_option (timer_reset now) (ping_interval_timer ws)\<rparr>)
           | (Ready (Inl err), _) \<Rightarrow>
               (sends (closing (protocol ws) 1002 err), ws\<lparr>init_fut := None, ws_close := True\<rparr>)))"

definition poll_ping_fut ::
  "('json, 'req, 'resp, 'data, 'f, 's) environment \<Rightarrow> ('json, 'req, 'resp, 'data, 'f, 's) part" where
  "poll_ping_fut env ws =
     (case ping_fut ws of
        None \<Rightarrow> (None, ws)
      | Some f \<Rightarrow>
          (case env_poll_ping env f of
             (Pending, f') \<Rightarrow> (Some Pending, ws\<lparr>ping_fut := Some f'\<rparr>)
           | (Ready (Inr payload), _) \<Rightarrow> (sends (WsText (Pong payload)), ws\<lparr>ping_fut := None\<rparr>)
           | (Ready (Inl err), _) \<Rightarrow>
               (sends (closing (protocol ws) 1002 err), ws\<lparr>ping_fut := None, ws_close := True\<rparr>)))"

text \<open>The loop over the running subscriptions: the first that is ready answers.\<close>

fun poll_streams ::
  "('json, 'req, 'resp, 'data, 'f, 's) environment \<Rightarrow> protocols \<Rightarrow> (string, 's) alist \<Rightarrow>
   ('json, 'resp) ws_message option poll \<times> (string, 's) alist" where
  "poll_streams env p [] = (Pending, [])"
| "poll_streams env p ((i, s) # rest) =
     (case env_poll_stream env s of
        (Ready (Some payload), s') \<Rightarrow> (Ready (Some (WsText (next_message p i payload))), (i, s') # rest)
      | (Ready None, _) \<Rightarrow> (Ready (Some (WsText (Complete i))), rest)
      | (Pending, s') \<Rightarrow> (case poll_streams env p rest of (r, rest') \<Rightarrow> (r, (i, s') # rest')))"

definition poll_subscriptions ::
  "('json, 'req, 'resp, 'data, 'f, 's) environment \<Rightarrow> ('json, 'req, 'resp, 'data, 'f, 's) part" where
  "poll_subscriptions env ws =
     (case poll_streams env (protocol ws) (streams ws) of (r, ss) \<Rightarrow> (Some r, ws\<lparr>streams := ss\<rparr>))"

definition poll_next ::
  "('json, 'req, 'resp, 'data, 'f, 's) environment \<Rightarrow> nat \<Rightarrow> ('json, 'req, 'data, 'f, 's) web_socket \<Rightarrow>
   ('json, 'resp) ws_message option poll \<times> ('json, 'req, 'data, 'f, 's) web_socket" where
  "poll_next env now ws =
     (if ws_close ws then (Ready None, ws)
      else
        (case part_seq (poll_keepalive now) (part_seq (poll_ping_interval now)
           (part_seq (poll_incoming env now) (part_seq (poll_init_fut env now)
             (part_seq (poll_ping_fut env) (poll_subscriptions env))))) ws of
           (Some r, ws') \<Rightarrow> (r, ws')
         | (None, ws') \<Rightarrow> (Pending, ws')))"

end
