(* ===== verification/Websocket_Runs.thy ===== *)
theory Websocket_Runs
  imports Websocket
begin

text \<open>
  Runs of a websocket connection: the invariant of its state, what one poll may answer, and what a
  client can rely on in the messages of a run.
\<close>

subsection \<open>The invariant\<close>

text \<open>The handshake runs once and in order; subscriptions exist only after it; at most one of the
  two futures is awaited; a pong is awaited only under a deadline.\<close>

definition ws_inv :: "('json, 'req, 'data, 'f, 's) web_socket \<Rightarrow> bool" where
  "ws_inv ws \<longleftrightarrow>
     (init_fut ws \<noteq> None \<longrightarrow> \<not> on_connection_init ws \<and> ws_data ws = None \<and> ping_fut ws = None) \<and>
     (ws_data ws \<noteq> None \<longrightarrow> \<not> on_connection_init ws) \<and>
     (streams ws \<noteq> [] \<longrightarrow> ws_data ws \<noteq> None) \<and>
     (waiting_for_pong ws \<longrightarrow> server_pings_enabled ws \<and> keepalive_timer ws \<noteq> None) \<and>
     distinct (map fst (streams ws))"

fun is_result :: "('json, 'resp) ws_message \<Rightarrow> bool" where
  "is_result (WsText (Data _ _)) \<longleftrightarrow> True"
| "is_result (WsText (Next _ _)) \<longleftrightarrow> True"
| "is_result (WsText (Complete _)) \<longleftrightarrow> True"
| "is_result _ \<longleftrightarrow> False"

fun is_final :: "('json, 'resp) ws_message \<Rightarrow> bool" where
  "is_final (WsClose _ _) \<longleftrightarrow> True"
| "is_final (WsText (ConnectionError _)) \<longleftrightarrow> True"
| "is_final _ \<longleftrightarrow> False"

text \<open>What an answer says of the handshake and the closing.\<close>

fun answer_ok ::
  "('json, 'req, 'data, 'f, 's) web_socket \<Rightarrow> ('json, 'resp) ws_message option poll \<Rightarrow>
   ('json, 'req, 'data, 'f, 's) web_socket \<Rightarrow> bool" where
  "answer_ok ws (Ready (Some m)) ws' \<longleftrightarrow>
     (is_result m \<longrightarrow> ws_data ws \<noteq> None) \<and>
     (m = WsText ConnectionAck \<longleftrightarrow> ws_data ws = None \<and> ws_data ws' \<noteq> None) \<and>
     (ws_data ws \<noteq> None \<longrightarrow> ws_data ws' \<noteq> None) \<and>
     (is_final m \<longleftrightarrow> ws_close ws')"
| "answer_ok ws r ws' \<longleftrightarrow> (ws_data ws' \<noteq> None \<longleftrightarrow> ws_data ws \<noteq> None)"

lemma closing_simps [simp]:
  "is_final (closing p c m)" "\<not> is_result (closing p c m)" "closing p c m \<noteq> WsText ConnectionAck"
  by (cases p; simp add: closing_def)+

lemma next_message_simps [simp]:
  "is_result (WsText (next_message p i x))" "\<not> is_final (WsText (next_message p i x))"
  "next_message p i x \<noteq> ConnectionAck"
  by (cases p; simp)+

subsection \<open>Parts of a poll\<close>

text \<open>The contract of a part: it keeps the invariant; when it goes on it has left the handshake and the
  connection as they were, and when it answers the answer is in order.\<close>

locale ws_part =
  fixes f :: "('json, 'req, 'resp, 'data, 'f, 's) part"
  assumes keeps: "ws_inv ws \<Longrightarrow> \<not> ws_close ws \<Longrightarrow> f ws = (x, ws') \<Longrightarrow> ws_inv ws'"
    and goes_on: "ws_inv ws \<Longrightarrow> \<not> ws_close ws \<Longrightarrow> f ws = (None, ws') \<Longrightarrow> \<not> ws_close ws' \<and> (ws_data ws' \<noteq> None \<longleftrightarrow> ws_data ws \<noteq> None)"
    and answers: "ws_inv ws \<Longrightarrow> \<not> ws_close ws \<Longrightarrow> f ws = (Some r, ws') \<Longrightarrow> answer_ok ws r ws'"

lemma answer_ok_data:
  "(ws_data ws \<noteq> None \<longleftrightarrow> ws_data us \<noteq> None) \<Longrightarrow> answer_ok us r ws' \<longleftrightarrow> answer_ok ws r ws'"
  by (cases "(ws, r, ws')" rule: answer_ok.cases) auto

lemma ws_part_seq:
  assumes f: "ws_part f" and g: "ws_part g"
  shows "ws_part (part_seq f g)"
proof (unfold_locales, goal_cases)
  case (1 ws x ws')
  obtain y us where us: "f ws = (y, us)" by fastforce
  then have inv: "ws_inv us" by (rule ws_part.keeps [OF f 1(1,2)])
  show ?case
  proof (cases y)
    case None
    then have "g us = (x, ws')" using us 1(3) by (simp add: part_seq_def)
    then show ?thesis using ws_part.goes_on [OF f 1(1,2)] us None by (blast intro: ws_part.keeps [OF g inv])
  next
    case (Some r)
    then show ?thesis using us 1(3) inv by (simp add: part_seq_def)
  qed
next
  case (2 ws ws')
  then obtain us where us: "f ws = (None, us)" "g us = (None, ws')"
    by (auto simp: part_seq_def split: prod.splits option.splits)
  then show ?case
    using ws_part.keeps [OF f 2(1,2) us(1)] ws_part.goes_on [OF f 2(1,2) us(1)] ws_part.goes_on [OF g _ _ us(2)]
    by simp
next
  case (3 ws r ws')
  then consider "f ws = (Some r, ws')" | us where "f ws = (None, us)" "g us = (Some r, ws')"
    by (auto simp: part_seq_def split: prod.splits option.splits)
  then show ?case
  proof cases
    case 1
    then show ?thesis using ws_part.answers [OF f 3(1,2)] by simp
  next
    case (2 us)
    then show ?thesis
      using ws_part.keeps [OF f 3(1,2) 2(1)] ws_part.goes_on [OF f 3(1,2) 2(1)] ws_part.answers [OF g _ _ 2(2)]
        answer_ok_data [of ws us r ws'] by simp
  qed
qed

lemmas part_simps = ws_inv_def server_pings_enabled_def Let_def

interpretation keepalive: ws_part "poll_keepalive now"
  by unfold_locales
    (auto simp: poll_keepalive_def part_simps split: option.splits prod.splits if_splits)

interpretation ping_interval: ws_part "poll_ping_interval now"
  by unfold_locales
    (auto simp: poll_ping_interval_def part_simps split: option.splits prod.splits if_splits)

interpretation init_fut: ws_part "poll_init_fut env now"
  by unfold_locales
    (auto simp: poll_init_fut_def part_simps split: option.splits prod.splits poll.splits sum.splits)

interpretation ping_fut: ws_part "poll_ping_fut env"
  by unfold_locales
    (auto simp: poll_ping_fut_def part_simps split: option.splits prod.splits poll.splits sum.splits)

lemma poll_streams_keys:
  "poll_streams env p ss = (r, ss') \<Longrightarrow>
     set (map fst ss') \<subseteq> set (map fst ss) \<and> (distinct (map fst ss) \<longrightarrow> distinct (map fst ss'))"
proof (induction ss arbitrary: r ss')
  case (Cons a ss)
  obtain i s where a: "a = (i, s)" by (cases a)
  obtain x s' where x: "env_poll_stream env s = (x, s')" by fastforce
  obtain r' us where us: "poll_streams env p ss = (r', us)" by fastforce
  show ?case
    using Cons.IH [OF us] Cons.prems by (auto simp: a x us simp del: set_map split: poll.splits option.splits)
qed simp

lemma poll_streams_answer:
  "poll_streams env p ss = (r, ss') \<Longrightarrow>
     r = Pending \<or> ss \<noteq> [] \<and> (\<exists>i y. r = Ready (Some (WsText (next_message p i y))) \<or> r = Ready (Some (WsText (Complete i))))"
proof (induction ss arbitrary: r ss')
  case (Cons a ss)
  obtain i s where a: "a = (i, s)" by (cases a)
  obtain x s' where x: "env_poll_stream env s = (x, s')" by fastforce
  obtain r' us where us: "poll_streams env p ss = (r', us)" by fastforce
  show ?case
    using Cons.IH [OF us] Cons.prems by (auto simp: a x us split: poll.splits option.splits)
qed simp

interpretation subscriptions: ws_part "poll_subscriptions env"
proof (unfold_locales, goal_cases)
  case (1 ws x ws')
  then show ?case
    using poll_streams_keys [of env "protocol ws" "streams ws"]
    by (auto simp: poll_subscriptions_def part_simps split: prod.splits)
next
  case (2 ws ws')
  then show ?case by (simp add: poll_subscriptions_def split: prod.splits)
next
  case (3 ws r ws')
  then obtain ss where ss: "poll_streams env (protocol ws) (streams ws) = (r, ss)" "ws' = ws\<lparr>streams := ss\<rparr>"
    by (auto simp: poll_subscriptions_def split: prod.splits)
  then show ?case
    using poll_streams_answer [OF ss(1)] 3 by (auto simp: ws_inv_def)
qed

subsection \<open>Client messages\<close>

lemma handle_message_inv:
  assumes "ws_inv ws" "init_fut ws = None" "ping_fut ws = None" "handle_message env now m ws = (h, ws')"
  shows "ws_inv ws'" "ws_data ws' = ws_data ws" "h = Continue \<Longrightarrow> init_fut ws' = None \<and> ping_fut ws' = None"
  using assms
  by (auto simp: handle_message_def part_simps distinct_alist_insert alist_remove_def distinct_map_filter
      split: client_message.splits option.splits if_splits)

lemma handle_message_answer:
  assumes "ws_inv ws" "\<not> ws_close ws" "handle_message env now m ws = (h, ws')"
  shows "(case h of Return r \<Rightarrow> answer_ok ws (Ready r) ws' | _ \<Rightarrow> \<not> ws_close ws')"
  using assms
  by (auto simp: handle_message_def part_simps contains_key_iff
      split: client_message.splits option.splits if_splits)

abbreviation take_message ::
  "nat \<Rightarrow> (string + ('json, 'req) client_message) list \<Rightarrow> ('json, 'req, 'data, 'f, 's) web_socket \<Rightarrow>
   ('json, 'req, 'data, 'f, 's) web_socket" where
  "take_message now rest ws \<equiv>
     (let ws = ws\<lparr>incoming := rest, last_msg_at := now\<rparr>
      in if \<not> server_pings_enabled ws \<or> \<not> waiting_for_pong ws then reset_keepalive now ws else ws)"

lemma take_message_simps:
  "ws_inv (take_message now rest ws) = ws_inv ws"
  "ws_data (take_message now rest ws) = ws_data ws"
  "init_fut (take_message now rest ws) = init_fut ws"
  "ping_fut (take_message now rest ws) = ping_fut ws"
  "ws_close (take_message now rest ws) = ws_close ws"
  by (auto simp: part_simps)

lemma poll_messages_part:
  assumes "ws_inv ws" "init_fut ws = None" "ping_fut ws = None" "\<not> ws_close ws"
    "poll_messages env now ms ws = (x, ws')"
  shows "ws_inv ws' \<and> (case x of None \<Rightarrow> \<not> ws_close ws' \<and> ws_data ws' = ws_data ws | Some r \<Rightarrow> answer_ok ws r ws')"
  using assms
proof (induction ms arbitrary: ws)
  case Nil
  then show ?case by (auto simp: part_simps split: if_splits)
next
  case (Cons m rest)
  show ?case
  proof (cases m)
    case (Inl err)
    then show ?thesis using Cons.prems by (auto simp: part_simps)
  next
    case (Inr message)
    define us where "us = take_message now rest ws"
    obtain h vs where h: "handle_message env now message us = (h, vs)" by fastforce
    have us: "ws_inv us" "init_fut us = None" "ping_fut us = None" "\<not> ws_close us" "ws_data us = ws_data ws"
      using Cons.prems(1-4) unfolding us_def take_message_simps by simp_all
    note inv = handle_message_inv [OF us(1-3) h] and answer = handle_message_answer [OF us(1,4) h]
    have poll: "(case h of Return r \<Rightarrow> (Some (Ready r), vs) | Break \<Rightarrow> (None, vs)
        | Continue \<Rightarrow> poll_messages env now rest vs) = (x, ws')"
      using Cons.prems(5) h by (simp add: Inr us_def Let_def split: handled.splits)
    show ?thesis
    proof (cases h)
      case (Return r)
      then show ?thesis using poll inv answer answer_ok_data [of ws us "Ready r" ws'] us(5) by auto
    next
      case Break
      then show ?thesis using poll inv answer us(5) by auto
    next
      case Continue
      then have "ws_inv ws' \<and> (case x of None \<Rightarrow> \<not> ws_close ws' \<and> ws_data ws' = ws_data vs
          | Some r \<Rightarrow> answer_ok vs r ws')"
        using poll inv answer by (intro Cons.IH) simp_all
      then show ?thesis
        using inv(2) us(5) answer_ok_data [of ws vs _ ws'] by (auto split: option.splits)
    qed
  qed
qed

lemma poll_incoming_part:
  assumes "ws_inv ws" "\<not> ws_close ws" "poll_incoming env now ws = (x, ws')"
  shows "ws_inv ws' \<and> (case x of None \<Rightarrow> \<not> ws_close ws' \<and> ws_data ws' = ws_data ws | Some r \<Rightarrow> answer_ok ws r ws')"
proof (cases "init_fut ws = None \<and> ping_fut ws = None")
  case True
  then show ?thesis
    using assms poll_messages_part [of ws env now "incoming ws" x ws'] by (simp add: poll_incoming_def)
next
  case False
  then show ?thesis using assms by (auto simp: poll_incoming_def)
qed

interpretation incoming: ws_part "poll_incoming env now"
proof (unfold_locales, goal_cases)
  case (2 ws ws')
  then show ?case using poll_incoming_part [OF 2] by simp
qed (use poll_incoming_part in fastforce)+

text \<open>A whole poll of an open connection.\<close>

interpretation poll: ws_part
  "part_seq (poll_keepalive now) (part_seq (poll_ping_interval now) (part_seq (poll_incoming env now)
     (part_seq (poll_init_fut env now) (part_seq (poll_ping_fut env) (poll_subscriptions env)))))"
  by (intro ws_part_seq keepalive.ws_part_axioms ping_interval.ws_part_axioms incoming.ws_part_axioms
      init_fut.ws_part_axioms ping_fut.ws_part_axioms subscriptions.ws_part_axioms)

lemma poll_next_part:
  assumes "ws_inv ws" "poll_next env now ws = (r, ws')"
  shows "ws_inv ws' \<and>
    (if ws_close ws then ws' = ws \<and> r = Ready None else answer_ok ws r ws')"
proof (cases "ws_close ws")
  case False
  then show ?thesis
    using assms poll.keeps [of ws now env] poll.goes_on [of ws now env] poll.answers [of ws now env]
    by (auto simp: poll_next_def split: prod.splits option.splits)
qed (use assms in \<open>simp add: poll_next_def\<close>)

subsection \<open>Runs\<close>

text \<open>A step of a connection: a message arrives or the stream of messages ends, the hash map of the
  subscriptions is reordered, or the server polls the connection. The label is what the poll sends.\<close>

fun sent :: "'m option poll \<Rightarrow> 'm list" where
  "sent (Ready (Some m)) = [m]"
| "sent _ = []"

inductive ws_step ::
  "('json, 'req, 'data, 'f, 's) web_socket \<Rightarrow> ('json, 'resp) ws_message list \<Rightarrow>
   ('json, 'req, 'data, 'f, 's) web_socket \<Rightarrow> bool" where
  arrives: "ws_step ws [] (ws\<lparr>incoming := incoming ws @ [m]\<rparr>)"
| hangs_up: "ws_step ws [] (ws\<lparr>incoming_ended := True\<rparr>)"
| reorders: "set ss = set (streams ws) \<Longrightarrow> distinct (map fst ss) \<Longrightarrow> ws_step ws [] (ws\<lparr>streams := ss\<rparr>)"
| polls: "poll_next env now ws = (r, ws') \<Longrightarrow> ws_step ws (sent r) ws'"

inductive ws_run ::
  "('json, 'req, 'data, 'f, 's) web_socket \<Rightarrow> ('json, 'resp) ws_message list \<Rightarrow>
   ('json, 'req, 'data, 'f, 's) web_socket \<Rightarrow> bool" where
  start: "ws_run ws [] ws"
| step: "ws_run ws out us \<Longrightarrow> ws_step us ms vs \<Longrightarrow> ws_run ws (out @ ms) vs"

text \<open>What the builder functions make: a connection before its first poll.\<close>

definition fresh :: "('json, 'req, 'data, 'f, 's) web_socket \<Rightarrow> bool" where
  "fresh ws \<longleftrightarrow> on_connection_init ws \<and> init_fut ws = None \<and> ping_fut ws = None \<and> ws_data ws = None \<and>
     streams ws = [] \<and> \<not> waiting_for_pong ws \<and> \<not> ws_close ws"

lemma fresh_built:
  "fresh (from_message_stream now p)"
  "fresh ws \<Longrightarrow> fresh (with_connection_data d ws)"
  "fresh ws \<Longrightarrow> fresh (keepalive_timeout now t ws)"
  "fresh ws \<Longrightarrow> fresh (ping_interval now t ws)"
  by (simp_all add: fresh_def from_message_stream_def with_connection_data_def keepalive_timeout_def
      ping_interval_def)

lemma fresh_inv: "fresh ws \<Longrightarrow> ws_inv ws"
  by (simp add: fresh_def ws_inv_def)

lemma step_inv: "ws_step ws ms ws' \<Longrightarrow> ws_inv ws \<Longrightarrow> ws_inv ws'"
proof (induction rule: ws_step.induct)
  case (polls env now ws r ws')
  then show ?case by (blast dest: poll_next_part)
qed (auto simp: part_simps)

lemma run_inv: "ws_run ws out us \<Longrightarrow> ws_inv ws \<Longrightarrow> ws_inv us"
  by (induction rule: ws_run.induct) (auto dest: step_inv)

definition acknowledged :: "('json, 'resp) ws_message list \<Rightarrow> bool" where
  "acknowledged out \<longleftrightarrow> WsText ConnectionAck \<in> set out"

text \<open>A conversation that keeps to the protocol: at most one acknowledgement, results only after it, and
  nothing after a message that closes.\<close>

fun orderly :: "bool \<Rightarrow> ('json, 'resp) ws_message list \<Rightarrow> bool" where
  "orderly acked [] \<longleftrightarrow> True"
| "orderly acked (m # ms) \<longleftrightarrow>
     (is_result m \<longrightarrow> acked) \<and> (m = WsText ConnectionAck \<longrightarrow> \<not> acked) \<and> (is_final m \<longrightarrow> ms = []) \<and>
     orderly (acked \<or> m = WsText ConnectionAck) ms"

lemma orderly_snoc:
  "orderly acked (ms @ [m]) \<longleftrightarrow> orderly acked ms \<and> \<not> list_ex is_final ms \<and>
     (is_result m \<longrightarrow> acked \<or> acknowledged ms) \<and> (m = WsText ConnectionAck \<longrightarrow> \<not> (acked \<or> acknowledged ms))"
  by (induction ms arbitrary: acked) (auto simp: acknowledged_def)

lemma sent_cases: "answer_ok us r vs \<Longrightarrow>
    sent r = [] \<and> (ws_data vs \<noteq> None \<longleftrightarrow> ws_data us \<noteq> None) \<or> (\<exists>m. r = Ready (Some m) \<and> sent r = [m])"
  by (cases r rule: sent.cases) auto

lemma run_orderly:
  assumes "ws_run ws out us" "fresh ws"
  shows "orderly False out \<and> (acknowledged out \<longleftrightarrow> ws_data us \<noteq> None) \<and> (list_ex is_final out \<longrightarrow> ws_close us)"
  using assms
proof (induction rule: ws_run.induct)
  case (start ws)
  then show ?case by (simp add: fresh_def acknowledged_def)
next
  case (step ws out us ms vs)
  have inv: "ws_inv us"
    using run_inv [OF step.hyps(1)] fresh_inv step.prems by blast
  from step.hyps(2) show ?case
  proof cases
    case (polls env now r)
    show ?thesis
      using sent_cases [of us r vs] poll_next_part [OF inv polls(2)] step.IH [OF step.prems] polls(1)
      by (auto simp: orderly_snoc acknowledged_def split: if_splits)
  qed (use step.IH [OF step.prems] in auto)
qed

text \<open>C20: whatever a client sends and however callbacks, subscriptions and timers behave, the messages of
  a connection keep to the protocol: it is acknowledged at most once, results and completions of
  subscriptions are sent only after the acknowledgement, and nothing follows a message that closes.\<close>

theorem websocket_orderly:
  assumes "fresh ws" "ws_run ws out us"
  shows "orderly False out"
  using run_orderly [OF assms(2,1)] by simp

definition sample_environment :: "(nat, nat, nat, nat, nat, nat) environment" where
  "sample_environment =
     \<lparr>env_on_init = (\<lambda>j. j), env_on_ping = (\<lambda>_ _. 0), env_execute_stream = (\<lambda>r _. r),
      env_poll_init = (\<lambda>f. (Ready (Inr 0), f)), env_poll_ping = (\<lambda>f. (Ready (Inr None), f)),
      env_poll_stream = (\<lambda>s. (if s = 0 then Ready None else Ready (Some s), s - 1)),
      env_default_json = 0, env_default_data = 0, env_merge = (\<lambda>_ d. d)\<rparr>"

lemmas poll_simps = poll_next_def part_seq_def poll_keepalive_def poll_ping_interval_def poll_incoming_def
  poll_init_fut_def poll_ping_fut_def poll_subscriptions_def handle_message_def server_pings_enabled_def
  timer_poll_def timer_reset_def timer_new_def from_message_stream_def closing_def

abbreviation sample_socket :: "(nat, nat, nat, nat, nat) web_socket" where
  "sample_socket \<equiv> from_message_stream 0 GraphQLWS"

lemma sample_handshake:
  "\<exists>us. ws_run sample_socket [WsText ConnectionAck :: (nat, nat) ws_message] us"
proof -
  let ?ws = "sample_socket\<lparr>incoming := [Inr (ConnectionInit None)]\<rparr>"
  have "ws_run sample_socket ([] @ []) ?ws"
    using ws_run.step [OF ws_run.start [of sample_socket]
        ws_step.arrives [of sample_socket "Inr (ConnectionInit None)"]]
    by (simp add: from_message_stream_def)
  moreover have "fst (poll_next sample_environment 0 ?ws) = Ready (Some (WsText ConnectionAck))"
    by (simp add: poll_simps sample_environment_def)
  ultimately have "ws_run sample_socket (([] @ []) @ sent (fst (poll_next sample_environment 0 ?ws)))
      (snd (poll_next sample_environment 0 ?ws))"
    by (intro ws_run.step [OF _ ws_step.polls [where env = sample_environment and now = 0]])
      (simp_all add: prod_eq_iff)
  then show ?thesis
    by (auto simp: poll_simps sample_environment_def)
qed

theorem websocket_orderly_witness:
  "fresh sample_socket \<and> (\<exists>us. ws_run sample_socket [WsText ConnectionAck :: (nat, nat) ws_message] us) \<and>
   orderly False [WsText ConnectionAck :: (nat, nat) ws_message]"
  using websocket_orderly [OF fresh_built(1)] sample_handshake fresh_built(1) by blast

subsection \<open>Timeouts\<close>

abbreviation timed_out :: "nat \<Rightarrow> ('json, 'req, 'data, 'f, 's) web_socket \<Rightarrow> bool" where
  "timed_out now ws \<equiv> (\<exists>t. keepalive_timer ws = Some t \<and> tm_deadline t \<le> now) \<and>
     (\<not> server_pings_enabled ws \<or> waiting_for_pong ws)"

lemma part_seq_None: "part_seq f g ws = (if fst (f ws) = None then g (snd (f ws)) else f ws)"
  by (simp add: part_seq_def split: prod.splits option.splits)

lemma handle_message_not_3008:
  "fst (handle_message env now m ws) \<noteq> Return (Some (WsClose 3008 r))"
  by (auto simp: handle_message_def closing_def split: client_message.splits option.splits protocols.splits)

lemma poll_messages_not_3008:
  "fst (poll_messages env now ms ws) \<noteq> sends (WsClose 3008 r)"
proof (induction env now ms ws rule: poll_messages.induct)
  case (3 env now message rest ws)
  then show ?case
    using handle_message_not_3008 [of env now message "take_message now rest ws" r]
    by (auto simp: Let_def split: handled.splits prod.splits if_splits)
qed simp_all

lemma poll_streams_not_3008: "fst (poll_streams env p ss) \<noteq> Ready (Some (WsClose 3008 r))"
  using poll_streams_answer [of env p ss] by (cases "poll_streams env p ss") auto

lemma parts_not_3008:
  "fst (poll_ping_interval now ws) \<noteq> sends (WsClose 3008 r)"
  "fst (poll_incoming env now ws) \<noteq> sends (WsClose 3008 r)"
  "fst (poll_init_fut env now ws) \<noteq> sends (WsClose 3008 r)"
  "fst (poll_ping_fut env ws) \<noteq> sends (WsClose 3008 r)"
  "fst (poll_subscriptions env ws) \<noteq> sends (WsClose 3008 r)"
  by (simp_all add: poll_incoming_def poll_messages_not_3008 poll_subscriptions_def case_prod_unfold
      poll_streams_not_3008)
    (auto simp: poll_ping_interval_def poll_init_fut_def poll_ping_fut_def closing_def Let_def
      split: option.splits prod.splits poll.splits sum.splits protocols.splits)

lemma part_seq_not:
  "fst (f ws) \<noteq> x \<Longrightarrow> (\<And>us. fst (g us) \<noteq> x) \<Longrightarrow> fst (part_seq f g ws) \<noteq> x"
  by (simp add: part_seq_None)

lemma timed_out_answer:
  fixes env :: "('json, 'req, 'resp, 'data, 'f, 's) environment"
  assumes "\<not> ws_close ws" "protocol ws = GraphQLWS"
  shows "(\<exists>r. fst (poll_next env now ws) = Ready (Some (WsClose 3008 r))) \<longleftrightarrow> timed_out now ws"
proof (cases "timed_out now ws")
  case True
  then obtain t where "keepalive_timer ws = Some t" "tm_deadline t \<le> now"
    "\<not> server_pings_enabled ws \<or> waiting_for_pong ws"
    by blast
  then have "(poll_keepalive now :: ('json, 'req, 'resp, 'data, 'f, 's) part) ws = (sends (WsClose 3008 ''timeout''),
      ws\<lparr>keepalive_timer := Some (timer_reset now t), ws_close := True\<rparr>)"
    using assms by (auto simp: poll_keepalive_def timer_poll_def closing_def)
  then show ?thesis
    using True assms by (simp add: poll_next_def part_seq_def)
next
  case False
  define rest :: "('json, 'req, 'resp, 'data, 'f, 's) part"
    where "rest = part_seq (poll_ping_interval now) (part_seq (poll_incoming env now)
    (part_seq (poll_init_fut env now) (part_seq (poll_ping_fut env) (poll_subscriptions env))))"
  have not: "fst (rest us) \<noteq> sends (WsClose 3008 r)" for us r
    unfolding rest_def by (intro part_seq_not parts_not_3008)
  have "fst ((poll_keepalive now :: ('json, 'req, 'resp, 'data, 'f, 's) part) ws) = None"
    using False by (auto simp: poll_keepalive_def timer_poll_def split: option.splits)
  then have "fst (poll_next env now ws) =
      (case fst (rest (snd ((poll_keepalive now :: ('json, 'req, 'resp, 'data, 'f, 's) part) ws))) of None \<Rightarrow> Pending | Some r \<Rightarrow> r)"
    using assms by (simp add: poll_next_def part_seq_None rest_def split: prod.splits option.splits)
  then show ?thesis
    using False not by (auto split: option.splits)
qed

text \<open>Without server pings the deadline lies an interval behind the last message at least.\<close>

definition idle_inv :: "nat \<Rightarrow> ('json, 'req, 'data, 'f, 's) web_socket \<Rightarrow> bool" where
  "idle_inv k ws \<longleftrightarrow> protocol ws = GraphQLWS \<and> ping_interval_timer ws = None \<and>
     (\<exists>t. keepalive_timer ws = Some t \<and> tm_interval t = k \<and> (ws_close ws \<or> last_msg_at ws + k \<le> tm_deadline t))"

definition part_keeps ::
  "(('json, 'req, 'data, 'f, 's) web_socket \<Rightarrow> bool) \<Rightarrow> ('json, 'req, 'resp, 'data, 'f, 's) part \<Rightarrow> bool" where
  "part_keeps P f \<longleftrightarrow> (\<forall>ws. P ws \<longrightarrow> P (snd (f ws)))"

lemma part_keeps_seq: "part_keeps P f \<Longrightarrow> part_keeps P g \<Longrightarrow> part_keeps P (part_seq f g)"
  by (simp add: part_keeps_def part_seq_None)

lemma handle_message_idle: "idle_inv k ws \<Longrightarrow> last_msg_at ws \<le> now \<Longrightarrow> idle_inv k (snd (handle_message env now m ws))"
  by (auto simp: handle_message_def idle_inv_def timer_reset_def split: client_message.splits option.splits)

lemma handle_message_time: "last_msg_at (snd (handle_message env now m ws)) = last_msg_at ws"
  by (auto simp: handle_message_def split: client_message.splits option.splits)

lemma take_message_idle: "idle_inv k ws \<Longrightarrow> idle_inv k (take_message now rest ws) \<and> last_msg_at (take_message now rest ws) = now"
  by (auto simp: idle_inv_def server_pings_enabled_def timer_reset_def Let_def)

lemma poll_messages_idle: "idle_inv k ws \<Longrightarrow> idle_inv k (snd (poll_messages env now ms ws))"
proof (induction ms arbitrary: ws)
  case Nil
  then show ?case by (auto simp: idle_inv_def)
next
  case (Cons m rest)
  show ?case
  proof (cases m)
    case (Inl err)
    then show ?thesis using Cons.prems by (auto simp: idle_inv_def)
  next
    case (Inr message)
    define us where "us = take_message now rest ws"
    obtain h vs where h: "handle_message env now message us = (h, vs)" by fastforce
    have "idle_inv k us" "last_msg_at us \<le> now"
      using take_message_idle [OF Cons.prems, of now rest] unfolding us_def by simp_all
    then have "idle_inv k vs"
      using handle_message_idle [of k us now env message] h by simp
    then show ?thesis
      using Cons.IH [of vs] h by (simp add: Inr us_def Let_def split: handled.splits)
  qed
qed

lemma parts_idle:
  "part_keeps (idle_inv k) (poll_keepalive now)"
  "part_keeps (idle_inv k) (poll_ping_interval now)"
  "part_keeps (idle_inv k) (poll_incoming env now)"
  "part_keeps (idle_inv k) (poll_init_fut env now)"
  "part_keeps (idle_inv k) (poll_ping_fut env)"
  "part_keeps (idle_inv k) (poll_subscriptions env)"
proof -
  show "part_keeps (idle_inv k) (poll_incoming env now)"
    using poll_messages_idle [of k _ env now] by (simp add: part_keeps_def poll_incoming_def)
qed (auto simp: part_keeps_def poll_keepalive_def poll_ping_interval_def poll_init_fut_def poll_ping_fut_def
    poll_subscriptions_def idle_inv_def server_pings_enabled_def timer_poll_def timer_reset_def Let_def
    split: option.splits prod.splits poll.splits sum.splits)

lemma poll_next_idle:
  assumes "idle_inv k ws" "poll_next env now ws = (r, us)"
  shows "idle_inv k us"
proof (cases "ws_close ws")
  case False
  have "part_keeps (idle_inv k) (part_seq (poll_keepalive now) (part_seq (poll_ping_interval now)
      (part_seq (poll_incoming env now) (part_seq (poll_init_fut env now) (part_seq (poll_ping_fut env) (poll_subscriptions env))))))"
    by (intro part_keeps_seq parts_idle)
  then have "idle_inv k (snd (part_seq (poll_keepalive now) (part_seq (poll_ping_interval now) (part_seq (poll_incoming env now)
      (part_seq (poll_init_fut env now) (part_seq (poll_ping_fut env) (poll_subscriptions env))))) ws))"
    using assms(1) by (simp add: part_keeps_def)
  then show ?thesis
    using False assms(2) by (simp add: poll_next_def split: prod.splits option.splits)
qed (use assms in \<open>simp add: poll_next_def\<close>)

lemma run_idle: "ws_run ws out us \<Longrightarrow> idle_inv k ws \<Longrightarrow> idle_inv k us"
proof (induction rule: ws_run.induct)
  case (step ws out us ms vs)
  then have us: "idle_inv k us" by simp
  from step.hyps(2) show ?case
  proof cases
    case (polls env now r)
    show ?thesis by (rule poll_next_idle [OF us polls(2)])
  qed (use us in \<open>auto simp: idle_inv_def\<close>)
qed

text \<open>C21: without server pings, an open \<open>graphql-transport-ws\<close> connection is closed for a timeout by the
  first poll after its deadline and by no other, and the deadline lies at least the timeout after the
  last message of the client.\<close>

theorem websocket_timeout:
  assumes "created \<le> now0"
    "ws_run (keepalive_timeout now0 (Some k) (from_message_stream created GraphQLWS)) out us" "\<not> ws_close us"
  shows "\<exists>t. keepalive_timer us = Some t \<and> last_msg_at us + k \<le> tm_deadline t \<and>
    ((\<exists>r. fst (poll_next env now us) = Ready (Some (WsClose 3008 r))) \<longleftrightarrow> tm_deadline t \<le> now)"
proof -
  have "idle_inv k (keepalive_timeout now0 (Some k) (from_message_stream created GraphQLWS))"
    using assms(1) by (simp add: idle_inv_def keepalive_timeout_def from_message_stream_def timer_new_def)
  then have "idle_inv k us" by (rule run_idle [OF assms(2)])
  then show ?thesis
    using timed_out_answer [OF assms(3), of env now] assms(3) by (auto simp: idle_inv_def server_pings_enabled_def)
qed

theorem websocket_timeout_witness:
  "(\<exists>r. fst (poll_next sample_environment 30
     (keepalive_timeout 0 (Some 30) (from_message_stream 0 GraphQLWS) :: (nat, nat, nat, nat, nat) web_socket))
     = Ready (Some (WsClose 3008 r)))"
  using websocket_timeout [OF _ ws_run.start, of 0 0 30 sample_environment 30]
  by (simp add: keepalive_timeout_def from_message_stream_def timer_new_def)

text \<open>A connection with a ping interval sends its first ping although it was never acknowledged.\<close>

lemma ping_before_acknowledgement:
  "fresh (ping_interval 0 (Some 5) sample_socket)"
  "fst (poll_next sample_environment 5 (ping_interval 0 (Some 5) sample_socket)) = Ready (Some (WsText (Ping None)))"
  by (simp_all add: fresh_built) (simp add: poll_simps ping_interval_def)

end
