(* ===== verification/Data_Loader.thy ===== *)
theory Data_Loader
  imports Prelude
begin

text \<open>
  The data loader (\<open>src/src/dataloader/mod.rs\<close>, \<open>src/src/dataloader/cache.rs\<close>): the cache storages,
  the requests that wait for a batch, and the tasks a loader spawns, as functions on the state of one
  key and value type; \<open>loader_step\<close> interleaves callers and tasks.

  The loader's answer to a batch is given to the step that completes it. A request is known by a number,
  as its oneshot channel is by its address. A hash set is a set, a hash map of results a map.
\<close>

subsection \<open>Cache storages\<close>

text \<open>The trait \<open>CacheStorage\<close>: reading may reorder the storage, as the least recently used one does.\<close>

record ('k, 'v, 'c) cache_storage =
  cache_get :: "'k \<Rightarrow> 'c \<Rightarrow> 'v option \<times> 'c"
  cache_insert :: "'k \<Rightarrow> 'v \<Rightarrow> 'c \<Rightarrow> 'c"
  cache_remove :: "'k \<Rightarrow> 'c \<Rightarrow> 'c"
  cache_clear :: "'c \<Rightarrow> 'c"
  cache_iter :: "'c \<Rightarrow> ('k \<times> 'v) list"

definition no_cache :: "('k, 'v, unit) cache_storage" where
  "no_cache =
     \<lparr>cache_get = (\<lambda>k c. (None, c)), cache_insert = (\<lambda>k v c. c), cache_remove = (\<lambda>k c. c),
      cache_clear = (\<lambda>c. c), cache_iter = (\<lambda>c. [])\<rparr>"

definition hash_map_cache :: "('k, 'v, ('k, 'v) alist) cache_storage" where
  "hash_map_cache =
     \<lparr>cache_get = (\<lambda>k c. (map_of c k, c)), cache_insert = alist_insert, cache_remove = alist_remove,
      cache_clear = (\<lambda>c. []), cache_iter = (\<lambda>c. c)\<rparr>"

text \<open>\<open>LruCache::create\<close> unwraps a nonzero capacity; the storage is that of the crate \<open>lru\<close>.\<close>

definition lru_cache_create :: "(nat \<Rightarrow> 'c) \<Rightarrow> nat \<Rightarrow> 'c run" where
  "lru_cache_create lru_new cap = (if cap = 0 then Panicked else Done (lru_new cap))"

subsection \<open>Requests\<close>

record ('k, 'v) res_sender =
  use_cache_values :: "'k \<rightharpoonup> 'v"
  res_tx :: nat

type_synonym ('k, 'v) keys_and_sender = "'k set \<times> ('k set \<times> ('k, 'v) res_sender) list"
type_synonym 'k stream_keys_and_sender = "'k set \<times> ('k set \<times> nat) list"

record ('k, 'v, 'c) requests =
  rq_keys :: "'k set"
  rq_pending :: "('k set \<times> ('k, 'v) res_sender) list"
  rq_stream_keys :: "'k set"
  rq_stream_pending :: "('k set \<times> nat) list"
  rq_cache :: 'c
  rq_disable_cache :: bool

definition requests_new :: "'c \<Rightarrow> ('k, 'v, 'c) requests" where
  "requests_new c =
     \<lparr>rq_keys = {}, rq_pending = [], rq_stream_keys = {}, rq_stream_pending = [], rq_cache = c,
      rq_disable_cache = False\<rparr>"

definition requests_take :: "('k, 'v, 'c) requests \<Rightarrow> ('k, 'v) keys_and_sender \<times> ('k, 'v, 'c) requests" where
  "requests_take rq = ((rq_keys rq, rq_pending rq), rq\<lparr>rq_keys := {}, rq_pending := []\<rparr>)"

definition requests_take_stream ::
  "('k, 'v, 'c) requests \<Rightarrow> 'k stream_keys_and_sender \<times> ('k, 'v, 'c) requests" where
  "requests_take_stream rq =
     ((rq_stream_keys rq, rq_stream_pending rq), rq\<lparr>rq_stream_keys := {}, rq_stream_pending := []\<rparr>)"

subsection \<open>The loader\<close>

text \<open>A spawned task: one that waits for its delay, or one whose call of the loader is under way.\<close>

datatype ('k, 'v) task =
    FetchTask bool
  | LoadTask bool "('k, 'v) keys_and_sender"
  | FetchStreamTask bool
  | LoadStreamTask bool "'k stream_keys_and_sender"

text \<open>What a caller receives: the result of \<open>load_many\<close>, or an item of a stream.\<close>

datatype ('k, 'v, 'e) reply =
    Loaded nat "'e + ('k \<rightharpoonup> 'v)"
  | Streamed nat "'e + 'k \<times> 'v"
  | StreamDone nat

record ('k, 'v, 'c) data_loader =
  dl_requests :: "('k, 'v, 'c) requests option"
  dl_initial_cache :: 'c
  dl_max_batch_size :: nat
  dl_disable_cache :: bool
  dl_tasks :: "('k, 'v) task list"
  dl_next :: nat

definition with_cache :: "'c \<Rightarrow> ('k, 'v, 'c) data_loader" where
  "with_cache c =
     \<lparr>dl_requests = None, dl_initial_cache = c, dl_max_batch_size = 1000, dl_disable_cache = False,
      dl_tasks = [], dl_next = 0\<rparr>"

definition max_batch_size :: "nat \<Rightarrow> ('k, 'v, 'c) data_loader \<Rightarrow> ('k, 'v, 'c) data_loader" where
  "max_batch_size n dl = dl\<lparr>dl_max_batch_size := n\<rparr>"

definition enable_all_cache :: "bool \<Rightarrow> ('k, 'v, 'c) data_loader \<Rightarrow> ('k, 'v, 'c) data_loader" where
  "enable_all_cache enable dl = dl\<lparr>dl_disable_cache := \<not> enable\<rparr>"

text \<open>\<open>enable_cache\<close> unwraps the entry of its type, which the first load makes.\<close>

definition enable_cache :: "bool \<Rightarrow> ('k, 'v, 'c) data_loader \<Rightarrow> ('k, 'v, 'c) data_loader run" where
  "enable_cache enable dl =
     (case dl_requests dl of
        None \<Rightarrow> Panicked
      | Some rq \<Rightarrow> Done (dl\<lparr>dl_requests := Some (rq\<lparr>rq_disable_cache := \<not> enable\<rparr>)\<rparr>))"

definition entry_requests :: "('k, 'v, 'c) data_loader \<Rightarrow> ('k, 'v, 'c) requests" where
  "entry_requests dl =
     (case dl_requests dl of None \<Rightarrow> requests_new (dl_initial_cache dl) | Some rq \<Rightarrow> rq)"

text \<open>The split of the keys into those the cache answers and those to load.\<close>

fun split_cached ::
  "('k, 'v, 'c) cache_storage \<Rightarrow> 'k list \<Rightarrow> ('k \<rightharpoonup> 'v) \<times> 'k set \<times> 'c \<Rightarrow> ('k \<rightharpoonup> 'v) \<times> 'k set \<times> 'c" where
  "split_cached cs [] acc = acc"
| "split_cached cs (k # ks) (cached, keys, c) =
     (case cache_get cs k c of
        (Some v, c') \<Rightarrow> split_cached cs ks (cached(k \<mapsto> v), keys, c')
      | (None, c') \<Rightarrow> split_cached cs ks (cached, insert k keys, c'))"

definition lookup_keys ::
  "('k, 'v, 'c) cache_storage \<Rightarrow> bool \<Rightarrow> 'k list \<Rightarrow> 'c \<Rightarrow> ('k \<rightharpoonup> 'v) \<times> 'k set \<times> 'c" where
  "lookup_keys cs disabled ks c =
     (if disabled then (Map.empty, set ks, c) else split_cached cs ks (Map.empty, {}, c))"

text \<open>The first part of \<open>load_many\<close>, under the lock of the entry, and the tasks it spawns.\<close>

definition load_many ::
  "('k, 'v, 'c) cache_storage \<Rightarrow> 'k list \<Rightarrow> ('k, 'v, 'c) data_loader \<Rightarrow>
   ('k, 'v, 'e) reply list \<times> ('k, 'v, 'c) data_loader" where
  "load_many cs ks dl =
     (let rq = entry_requests dl;
          tx = dl_next dl;
          prev_count = card (rq_keys rq);
          (cached, keys_set, c) = lookup_keys cs (rq_disable_cache rq \<or> dl_disable_cache dl) ks (rq_cache rq);
          rq = rq\<lparr>rq_cache := c\<rparr>;
          dl = dl\<lparr>dl_next := tx + 1\<rparr>
      in if keys_set = {} then ([Loaded tx (Inr cached)], dl\<lparr>dl_requests := Some rq\<rparr>)
         else
           let rq = rq\<lparr>rq_keys := rq_keys rq \<union> keys_set,
                       rq_pending := rq_pending rq @ [(keys_set, \<lparr>use_cache_values = cached, res_tx = tx\<rparr>)]\<rparr>
           in if dl_max_batch_size dl \<le> card (rq_keys rq) then
                (case requests_take rq of (batch, rq) \<Rightarrow>
                   ([], dl\<lparr>dl_requests := Some rq, dl_tasks := dl_tasks dl @ [LoadTask (dl_disable_cache dl) batch]\<rparr>))
              else if rq_keys rq \<noteq> {} \<and> prev_count = 0 then
                ([], dl\<lparr>dl_requests := Some rq, dl_tasks := dl_tasks dl @ [FetchTask (dl_disable_cache dl)]\<rparr>)
              else ([], dl\<lparr>dl_requests := Some rq\<rparr>))"

text \<open>The values of a hash map in its iteration order, which is an argument.\<close>

definition load_many_stream ::
  "('k, 'v, 'c) cache_storage \<Rightarrow> (('k \<rightharpoonup> 'v) \<Rightarrow> ('k \<times> 'v) list) \<Rightarrow> 'k list \<Rightarrow> ('k, 'v, 'c) data_loader \<Rightarrow>
   ('k, 'v, 'e) reply list \<times> ('k, 'v, 'c) data_loader" where
  "load_many_stream cs items ks dl =
     (let rq = entry_requests dl;
          tx = dl_next dl;
          prev_count = card (rq_stream_keys rq);
          (cached, keys_set, c) = lookup_keys cs (rq_disable_cache rq \<or> dl_disable_cache dl) ks (rq_cache rq);
          rq = rq\<lparr>rq_cache := c\<rparr>;
          dl = dl\<lparr>dl_next := tx + 1\<rparr>;
          sent = map (\<lambda>kv. Streamed tx (Inr kv)) (items cached)
      in if keys_set = {} then (sent @ [StreamDone tx], dl\<lparr>dl_requests := Some rq\<rparr>)
         else
           let rq = rq\<lparr>rq_stream_keys := rq_stream_keys rq \<union> keys_set,
                       rq_stream_pending := rq_stream_pending rq @ [(keys_set, tx)]\<rparr>
           in if dl_max_batch_size dl \<le> card (rq_stream_keys rq) then
                (case requests_take_stream rq of (batch, rq) \<Rightarrow>
                   (sent, dl\<lparr>dl_requests := Some rq, dl_tasks := dl_tasks dl @ [LoadStreamTask (dl_disable_cache dl) batch]\<rparr>))
              else if rq_stream_keys rq \<noteq> {} \<and> prev_count = 0 then
                (sent, dl\<lparr>dl_requests := Some rq, dl_tasks := dl_tasks dl @ [FetchStreamTask (dl_disable_cache dl)]\<rparr>)
              else (sent, dl\<lparr>dl_requests := Some rq\<rparr>))"

text \<open>A fetch task after its delay: the batch it takes becomes a call of the loader, unless it is empty.
  The tasks are spawned after the first load, so the entry they unwrap is there.\<close>

definition fire_fetch :: "bool \<Rightarrow> ('k, 'v, 'c) data_loader \<Rightarrow> ('k, 'v, 'c) data_loader run" where
  "fire_fetch disable_cache dl =
     (case dl_requests dl of
        None \<Rightarrow> Panicked
      | Some rq \<Rightarrow>
          (case requests_take rq of (batch, rq) \<Rightarrow>
             Done (dl\<lparr>dl_requests := Some rq,
                      dl_tasks := dl_tasks dl @ (if fst batch \<noteq> {} then [LoadTask disable_cache batch] else [])\<rparr>)))"

definition fire_fetch_stream :: "bool \<Rightarrow> ('k, 'v, 'c) data_loader \<Rightarrow> ('k, 'v, 'c) data_loader run" where
  "fire_fetch_stream disable_cache dl =
     (case dl_requests dl of
        None \<Rightarrow> Panicked
      | Some rq \<Rightarrow>
          (case requests_take_stream rq of (batch, rq) \<Rightarrow>
             Done (dl\<lparr>dl_requests := Some rq,
                      dl_tasks := dl_tasks dl @ (if fst batch \<noteq> {} then [LoadStreamTask disable_cache batch] else [])\<rparr>)))"

definition cache_all :: "('k, 'v, 'c) cache_storage \<Rightarrow> ('k \<times> 'v) list \<Rightarrow> 'c \<Rightarrow> 'c" where
  "cache_all cs kvs c = fold (\<lambda>(k, v). cache_insert cs k v) kvs c"

text \<open>\<open>do_load\<close> once the loader has answered: the cache is updated, then every request of the batch
  receives the values of its keys beside those the cache had. A hash map of the loader's is a list of
  pairs with distinct keys.\<close>

definition batch_reply :: "('k, 'v) alist \<Rightarrow> 'k set \<times> ('k, 'v) res_sender \<Rightarrow> ('k, 'v, 'e) reply" where
  "batch_reply values entry =
     (case entry of (keys, sender) \<Rightarrow>
        Loaded (res_tx sender) (Inr (use_cache_values sender ++ (map_of values |` keys))))"

definition do_load ::
  "('k, 'v, 'c) cache_storage \<Rightarrow> bool \<Rightarrow> ('k, 'v) keys_and_sender \<Rightarrow> 'e + ('k, 'v) alist \<Rightarrow>
   ('k, 'v, 'c) data_loader \<Rightarrow> (('k, 'v, 'e) reply list \<times> ('k, 'v, 'c) data_loader) run" where
  "do_load cs disable_cache batch answer dl =
     (case answer of
        Inr values \<Rightarrow>
          (case dl_requests dl of
             None \<Rightarrow> Panicked
           | Some rq \<Rightarrow>
               Done (map (batch_reply values) (snd batch),
                     if rq_disable_cache rq \<or> disable_cache then dl
                     else dl\<lparr>dl_requests := Some (rq\<lparr>rq_cache := cache_all cs values (rq_cache rq)\<rparr>)\<rparr>))
      | Inl err \<Rightarrow> Done (map (\<lambda>(_, sender). Loaded (res_tx sender) (Inl err)) (snd batch), dl))"

text \<open>One item of the loader's stream in \<open>do_load_stream\<close>: a value goes into the cache and to every
  request that asked for its key; an error goes to all and ends the loop.\<close>

definition stream_cache ::
  "('k, 'v, 'c) cache_storage \<Rightarrow> bool \<Rightarrow> 'k \<Rightarrow> 'v \<Rightarrow> ('k, 'v, 'c) data_loader \<Rightarrow> ('k, 'v, 'c) data_loader run" where
  "stream_cache cs disable_cache k v dl =
     (if disable_cache then Done dl
      else
        case dl_requests dl of
          None \<Rightarrow> Panicked
        | Some rq \<Rightarrow>
            Done (if rq_disable_cache rq then dl
                  else dl\<lparr>dl_requests := Some (rq\<lparr>rq_cache := cache_insert cs k v (rq_cache rq)\<rparr>)\<rparr>))"

fun stream_item ::
  "('k, 'v, 'c) cache_storage \<Rightarrow> bool \<Rightarrow> ('k set \<times> nat) list \<Rightarrow> 'e + 'k \<times> 'v \<Rightarrow> ('k, 'v, 'c) data_loader \<Rightarrow>
   (bool \<times> ('k, 'v, 'e) reply list \<times> ('k, 'v, 'c) data_loader) run" where
  "stream_item cs disable_cache senders (Inl err) dl =
     Done (True, map (\<lambda>(_, tx). Streamed tx (Inl err)) senders, dl)"
| "stream_item cs disable_cache senders (Inr (k, v)) dl =
     run_map
       (\<lambda>dl. (False, map (\<lambda>(_, tx). Streamed tx (Inr (k, v))) (filter (\<lambda>(ks, _). k \<in> ks) senders), dl))
       (stream_cache cs disable_cache k v dl)"

text \<open>At the end of the loop the senders are dropped, which ends the streams of the callers.\<close>

definition stream_end :: "('k set \<times> nat) list \<Rightarrow> ('k, 'v, 'e) reply list" where
  "stream_end senders = map (\<lambda>(_, tx). StreamDone tx) senders"

fun do_load_stream ::
  "('k, 'v, 'c) cache_storage \<Rightarrow> bool \<Rightarrow> 'k stream_keys_and_sender \<Rightarrow> ('e + 'k \<times> 'v) list \<Rightarrow>
   ('k, 'v, 'c) data_loader \<Rightarrow> (('k, 'v, 'e) reply list \<times> ('k, 'v, 'c) data_loader) run" where
  "do_load_stream cs disable_cache batch [] dl = Done (stream_end (snd batch), dl)"
| "do_load_stream cs disable_cache batch (item # items) dl =
     run_bind (stream_item cs disable_cache (snd batch) item dl)
       (\<lambda>(finished, replies, dl).
          if finished then Done (replies @ stream_end (snd batch), dl)
          else run_map (\<lambda>(rs, dl). (replies @ rs, dl)) (do_load_stream cs disable_cache batch items dl))"

text \<open>The stream \<open>load_stream\<close> makes by default of one call of \<open>load\<close>.\<close>

definition load_stream :: "'e + ('k, 'v) alist \<Rightarrow> ('e + 'k \<times> 'v) list" where
  "load_stream answer = (case answer of Inl err \<Rightarrow> [Inl err] | Inr values \<Rightarrow> map Inr values)"

definition feed_many ::
  "('k, 'v, 'c) cache_storage \<Rightarrow> ('k \<times> 'v) list \<Rightarrow> ('k, 'v, 'c) data_loader \<Rightarrow> ('k, 'v, 'c) data_loader" where
  "feed_many cs kvs dl =
     (let rq = entry_requests dl in dl\<lparr>dl_requests := Some (rq\<lparr>rq_cache := cache_all cs kvs (rq_cache rq)\<rparr>)\<rparr>)"

definition feed_one ::
  "('k, 'v, 'c) cache_storage \<Rightarrow> 'k \<Rightarrow> 'v \<Rightarrow> ('k, 'v, 'c) data_loader \<Rightarrow> ('k, 'v, 'c) data_loader" where
  "feed_one cs k v = feed_many cs [(k, v)]"

definition clear_one ::
  "('k, 'v, 'c) cache_storage \<Rightarrow> 'k \<Rightarrow> ('k, 'v, 'c) data_loader \<Rightarrow> ('k, 'v, 'c) data_loader" where
  "clear_one cs k dl =
     (let rq = entry_requests dl in dl\<lparr>dl_requests := Some (rq\<lparr>rq_cache := cache_remove cs k (rq_cache rq)\<rparr>)\<rparr>)"

definition clear_cache ::
  "('k, 'v, 'c) cache_storage \<Rightarrow> ('k, 'v, 'c) data_loader \<Rightarrow> ('k, 'v, 'c) data_loader" where
  "clear_cache cs dl =
     (let rq = entry_requests dl in dl\<lparr>dl_requests := Some (rq\<lparr>rq_cache := cache_clear cs (rq_cache rq)\<rparr>)\<rparr>)"

definition get_cached_values :: "('k, 'v, 'c) cache_storage \<Rightarrow> ('k, 'v, 'c) data_loader \<Rightarrow> ('k, 'v) alist" where
  "get_cached_values cs dl = (case dl_requests dl of None \<Rightarrow> [] | Some rq \<Rightarrow> cache_iter cs (rq_cache rq))"

text \<open>\<open>load_one\<close> awaits \<open>load_many\<close> of its key and takes the value out of the map.\<close>

definition load_one_result :: "'k \<Rightarrow> 'e + ('k \<rightharpoonup> 'v) \<Rightarrow> 'e + 'v option" where
  "load_one_result k r = (case r of Inl err \<Rightarrow> Inl err | Inr values \<Rightarrow> Inr (values k))"

end
