(* ===== verification/Data_Loader_Runs.thy ===== *)
theory Data_Loader_Runs
  imports Data_Loader "HOL-Library.Multiset"
begin

text \<open>
  Callers and tasks of a data loader in any order: no request is lost, none is answered twice, and the
  answers agree with the data the loader loads, from the cache or not.
\<close>

subsection \<open>Laws of a cache storage\<close>

text \<open>A storage answers only what was put into it.\<close>

locale cache_laws =
  fixes cs :: "('k, 'v, 'c) cache_storage"
  assumes get_sound: "cache_get cs k c = (Some v, c') \<Longrightarrow> (k, v) \<in> set (cache_iter cs c)"
    and get_keeps: "cache_get cs k c = (x, c') \<Longrightarrow> set (cache_iter cs c') \<subseteq> set (cache_iter cs c)"
    and insert_adds: "set (cache_iter cs (cache_insert cs k v c)) \<subseteq> insert (k, v) (set (cache_iter cs c))"
    and remove_keeps: "set (cache_iter cs (cache_remove cs k c)) \<subseteq> set (cache_iter cs c)"
    and clear_empties: "cache_iter cs (cache_clear cs c) = []"
begin

definition agrees :: "('k \<rightharpoonup> 'v) \<Rightarrow> 'c \<Rightarrow> bool" where
  "agrees f c \<longleftrightarrow> (\<forall>(k, v)\<in>set (cache_iter cs c). f k = Some v)"

lemma agrees_subset: "agrees f c \<Longrightarrow> set (cache_iter cs c') \<subseteq> set (cache_iter cs c) \<Longrightarrow> agrees f c'"
  by (auto simp: agrees_def)

lemma agrees_insert: "agrees f c \<Longrightarrow> f k = Some v \<Longrightarrow> agrees f (cache_insert cs k v c)"
  using insert_adds [of k v c] by (auto simp: agrees_def)

lemma agrees_all: "agrees f c \<Longrightarrow> \<forall>(k, v)\<in>set kvs. f k = Some v \<Longrightarrow> agrees f (cache_all cs kvs c)"
  by (induction kvs arbitrary: c) (auto simp: cache_all_def agrees_insert)

lemma agrees_clear: "agrees f (cache_clear cs c)"
  by (simp add: agrees_def clear_empties)

lemma split_cached_agrees:
  assumes "split_cached cs ks (cached, keys, c) = (cached', keys', c')" "agrees f c" "cached \<subseteq>\<^sub>m f"
  shows "agrees f c' \<and> cached' \<subseteq>\<^sub>m f \<and> finite keys = finite keys' \<and> keys \<subseteq> keys' \<and> dom cached \<subseteq> dom cached' \<and>
    dom cached' \<union> keys' = dom cached \<union> keys \<union> set ks"
  using assms
proof (induction ks arbitrary: cached keys c)
  case (Cons k ks)
  obtain x d where get: "cache_get cs k c = (x, d)" by fastforce
  have d: "agrees f d"
    using Cons.prems(2) get_keeps [OF get] by (rule agrees_subset)
  show ?case
  proof (cases x)
    case None
    then show ?thesis using Cons.IH [of cached "insert k keys" d] Cons.prems d by (auto simp: get)
  next
    case (Some v)
    then have "f k = Some v"
      using Cons.prems(2) get_sound get by (fastforce simp: agrees_def)
    then have "cached(k \<mapsto> v) \<subseteq>\<^sub>m f"
      using Cons.prems(3) by (auto simp: map_le_def)
    moreover have "split_cached cs ks (cached(k \<mapsto> v), keys, d) = (cached', keys', c')"
      using Cons.prems(1) Some by (simp add: get)
    ultimately have "agrees f c' \<and> cached' \<subseteq>\<^sub>m f \<and> finite keys = finite keys' \<and> keys \<subseteq> keys' \<and>
        dom (cached(k \<mapsto> v)) \<subseteq> dom cached' \<and> dom cached' \<union> keys' = dom (cached(k \<mapsto> v)) \<union> keys \<union> set ks"
      using Cons.IH d by blast
    then show ?thesis
      by (simp only: dom_fun_upd list.set option.distinct if_False) blast
  qed
qed auto

lemma lookup_keys_agrees:
  assumes "lookup_keys cs disabled ks c = (cached, keys, c')" "agrees f c"
  shows "agrees f c'" "cached \<subseteq>\<^sub>m f" "finite keys" "dom cached \<union> keys = set ks"
  using assms split_cached_agrees [of ks Map.empty "{}" c cached keys c' f]
  by (auto simp: lookup_keys_def split: if_splits)

end

interpretation no_cache: cache_laws no_cache
  by unfold_locales (simp_all add: no_cache_def)

interpretation hash_map: cache_laws hash_map_cache
  by unfold_locales
    (auto simp: hash_map_cache_def alist_remove_def dest: map_of_SomeD set_alist_insert [THEN subsetD])

subsection \<open>Steps\<close>

text \<open>
  A step is labelled with the request it registers, if any, and the replies it sends. The first three
  arguments are the storage, the order of a map's values, and what the loader may answer to a set of
  keys; the fourth says which pairs may be fed into the cache or come out of a stream of the loader.
\<close>

inductive loader_step ::
  "('k, 'v, 'c) cache_storage \<Rightarrow> (('k \<rightharpoonup> 'v) \<Rightarrow> ('k \<times> 'v) list) \<Rightarrow> ('k set \<Rightarrow> 'e + ('k, 'v) alist \<Rightarrow> bool) \<Rightarrow>
   ('k \<Rightarrow> 'v \<Rightarrow> bool) \<Rightarrow> ('k, 'v, 'c) data_loader \<Rightarrow> (nat \<times> 'k list) list \<Rightarrow> ('k, 'v, 'e) reply list \<Rightarrow>
   ('k, 'v, 'c) data_loader \<Rightarrow> bool"
  for cs items answers known where
  many: "load_many cs ks dl = (rs, dl') \<Longrightarrow> loader_step cs items answers known dl [(dl_next dl, ks)] rs dl'"
| many_stream: "load_many_stream cs items ks dl = (rs, dl') \<Longrightarrow> loader_step cs items answers known dl [] rs dl'"
| fetch: "dl_tasks dl = ts @ FetchTask d # us \<Longrightarrow> fire_fetch d (dl\<lparr>dl_tasks := ts @ us\<rparr>) = Done dl' \<Longrightarrow>
    loader_step cs items answers known dl [] [] dl'"
| fetch_stream: "dl_tasks dl = ts @ FetchStreamTask d # us \<Longrightarrow>
    fire_fetch_stream d (dl\<lparr>dl_tasks := ts @ us\<rparr>) = Done dl' \<Longrightarrow> loader_step cs items answers known dl [] [] dl'"
| loaded: "dl_tasks dl = ts @ LoadTask d batch # us \<Longrightarrow> answers (fst batch) answer \<Longrightarrow>
    do_load cs d batch answer (dl\<lparr>dl_tasks := ts @ us\<rparr>) = Done (rs, dl') \<Longrightarrow>
    loader_step cs items answers known dl [] rs dl'"
| streamed: "LoadStreamTask d batch \<in> set (dl_tasks dl) \<Longrightarrow> known k v \<Longrightarrow>
    stream_item cs d (snd batch) (Inr (k, v)) dl = Done (False, rs, dl') \<Longrightarrow>
    loader_step cs items answers known dl [] rs dl'"
| stream_failed: "dl_tasks dl = ts @ LoadStreamTask d batch # us \<Longrightarrow>
    stream_item cs d (snd batch) (Inl err) (dl\<lparr>dl_tasks := ts @ us\<rparr>) = Done (True, rs, dl') \<Longrightarrow>
    loader_step cs items answers known dl [] (rs @ stream_end (snd batch)) dl'"
| stream_ended: "dl_tasks dl = ts @ LoadStreamTask d batch # us \<Longrightarrow>
    loader_step cs items answers known dl [] (stream_end (snd batch)) (dl\<lparr>dl_tasks := ts @ us\<rparr>)"
| feeds: "\<forall>(k, v)\<in>set kvs. known k v \<Longrightarrow> loader_step cs items answers known dl [] [] (feed_many cs kvs dl)"
| clears_one: "loader_step cs items answers known dl [] [] (clear_one cs k dl)"
| clears: "loader_step cs items answers known dl [] [] (clear_cache cs dl)"
| enables_all: "loader_step cs items answers known dl [] [] (enable_all_cache b dl)"
| enables: "enable_cache b dl = Done dl' \<Longrightarrow> loader_step cs items answers known dl [] [] dl'"

inductive loader_run ::
  "('k, 'v, 'c) cache_storage \<Rightarrow> (('k \<rightharpoonup> 'v) \<Rightarrow> ('k \<times> 'v) list) \<Rightarrow> ('k set \<Rightarrow> 'e + ('k, 'v) alist \<Rightarrow> bool) \<Rightarrow>
   ('k \<Rightarrow> 'v \<Rightarrow> bool) \<Rightarrow> ('k, 'v, 'c) data_loader \<Rightarrow> (nat \<times> 'k list) list \<Rightarrow> ('k, 'v, 'e) reply list \<Rightarrow>
   ('k, 'v, 'c) data_loader \<Rightarrow> bool"
  for cs items answers known dl where
  start: "loader_run cs items answers known dl [] [] dl"
| step: "loader_run cs items answers known dl asked rs us \<Longrightarrow> loader_step cs items answers known us a r vs \<Longrightarrow>
    loader_run cs items answers known dl (asked @ a) (rs @ r) vs"

subsection \<open>Every request is answered once\<close>

fun waiting_in :: "('k, 'v) task \<Rightarrow> nat list" where
  "waiting_in (LoadTask d batch) = map (\<lambda>(_, sender). res_tx sender) (snd batch)"
| "waiting_in _ = []"

fun answered_by :: "('k, 'v, 'e) reply \<Rightarrow> nat list" where
  "answered_by (Loaded tx r) = [tx]"
| "answered_by _ = []"

definition pending_of :: "('k, 'v, 'c) data_loader \<Rightarrow> ('k set \<times> ('k, 'v) res_sender) list" where
  "pending_of dl = (case dl_requests dl of None \<Rightarrow> [] | Some rq \<Rightarrow> rq_pending rq)"

definition waiting :: "('k, 'v, 'c) data_loader \<Rightarrow> nat list" where
  "waiting dl = map (\<lambda>(_, sender). res_tx sender) (pending_of dl) @ concat (map waiting_in (dl_tasks dl))"

definition answered :: "('k, 'v, 'e) reply list \<Rightarrow> nat list" where
  "answered rs = concat (map answered_by rs)"

lemma answered_append [simp]: "answered (rs @ rs') = answered rs @ answered rs'"
  by (simp add: answered_def)

lemma answered_replies [simp]:
  "answered [] = []"
  "answered [Loaded tx r] = [tx]"
  "answered (stream_end senders) = []"
  "answered (map (\<lambda>(x, tx). Streamed tx (y x tx)) senders) = []"
  "answered (map (\<lambda>kv. Streamed tx (z kv)) kvs) = []"
  "answered (map (batch_reply values) batch) = map (\<lambda>(_, sender). res_tx sender) batch"
  "answered (map (\<lambda>(_, sender). Loaded (res_tx sender) (Inl err)) batch) = map (\<lambda>(_, sender). res_tx sender) batch"
  by (simp_all add: answered_def stream_end_def case_prod_unfold comp_def)
    (induction batch; simp add: batch_reply_def case_prod_unfold)+

lemmas loader_simps = load_many_def load_many_stream_def fire_fetch_def fire_fetch_stream_def do_load_def
  feed_many_def clear_one_def clear_cache_def enable_all_cache_def enable_cache_def requests_take_def
  requests_take_stream_def entry_requests_def requests_new_def stream_cache_def Let_def

lemma load_many_balance:
  "load_many cs ks dl = (rs, dl') \<Longrightarrow>
     mset (answered rs) + mset (waiting dl') = add_mset (dl_next dl) (mset (waiting dl)) \<and> dl_next dl' = Suc (dl_next dl)"
  by (auto simp: loader_simps waiting_def pending_of_def split: prod.splits if_splits option.splits)

lemma load_many_stream_balance:
  "load_many_stream cs items ks dl = (rs, dl') \<Longrightarrow>
     answered rs = [] \<and> waiting dl' = waiting dl \<and> dl_next dl' = Suc (dl_next dl)"
  by (auto simp: loader_simps waiting_def pending_of_def stream_end_def answered_def
      split: prod.splits if_splits option.splits)

text \<open>A batch that waits is waited for: it has a fetch task, its keys are those of its requests, and no
  task outlives the entry it unwraps.\<close>

definition queue_ok :: "'k set \<Rightarrow> 'k set list \<Rightarrow> bool \<Rightarrow> bool" where
  "queue_ok keys entries fetching \<longleftrightarrow>
     finite keys \<and> keys = \<Union>(set entries) \<and> {} \<notin> set entries \<and> (keys \<noteq> {} \<longrightarrow> fetching)"

lemma queue_ok_simps [simp]:
  "queue_ok {} [] fetching"
  "queue_ok {} entries fetching \<longleftrightarrow> entries = []"
  by (auto simp: queue_ok_def) (metis last_in_set)

lemma queue_ok_mono: "queue_ok keys entries fetching \<Longrightarrow> (fetching \<Longrightarrow> fetching') \<Longrightarrow> queue_ok keys entries fetching'"
  by (auto simp: queue_ok_def)

lemma queue_ok_push:
  "queue_ok keys entries fetching \<Longrightarrow> finite s \<Longrightarrow> s \<noteq> {} \<Longrightarrow>
     queue_ok (keys \<union> s) (entries @ [s]) (card keys = 0 \<or> fetching)"
  by (cases "keys = {}") (auto simp: queue_ok_def)

fun is_fetch :: "('k, 'v) task \<Rightarrow> bool" where
  "is_fetch (FetchTask _) \<longleftrightarrow> True"
| "is_fetch _ \<longleftrightarrow> False"

fun is_fetch_stream :: "('k, 'v) task \<Rightarrow> bool" where
  "is_fetch_stream (FetchStreamTask _) \<longleftrightarrow> True"
| "is_fetch_stream _ \<longleftrightarrow> False"

definition requests_ok :: "('k, 'v, 'c) requests \<Rightarrow> ('k, 'v) task list \<Rightarrow> bool" where
  "requests_ok rq tasks \<longleftrightarrow>
     queue_ok (rq_keys rq) (map fst (rq_pending rq)) (list_ex is_fetch tasks) \<and>
     queue_ok (rq_stream_keys rq) (map fst (rq_stream_pending rq)) (list_ex is_fetch_stream tasks)"

definition batches_ok :: "('k, 'v, 'c) data_loader \<Rightarrow> bool" where
  "batches_ok dl \<longleftrightarrow>
     (case dl_requests dl of None \<Rightarrow> dl_tasks dl = [] | Some rq \<Rightarrow> requests_ok rq (dl_tasks dl))"

lemma entry_requests_Some [simp]: "dl_requests dl = Some rq \<Longrightarrow> entry_requests dl = rq"
  by (simp add: entry_requests_def)

lemma entry_requests_tasks [simp]: "entry_requests (dl\<lparr>dl_tasks := ts\<rparr>) = entry_requests dl"
  by (simp add: entry_requests_def split: option.splits)

lemma entry_requests_ok: "batches_ok dl \<Longrightarrow> requests_ok (entry_requests dl) (dl_tasks dl)"
  by (auto simp: batches_ok_def entry_requests_def requests_ok_def requests_new_def split: option.splits)

lemma split_cached_finite:
  "split_cached cs ks (cached, keys, c) = (cached', keys', c') \<Longrightarrow> finite keys \<Longrightarrow> finite keys'"
  by (induction ks arbitrary: cached keys c) (auto split: prod.splits option.splits)

lemma lookup_keys_finite: "lookup_keys cs disabled ks c = (cached, keys, c') \<Longrightarrow> finite keys"
  by (auto simp: lookup_keys_def dest: split_cached_finite split: if_splits)

lemma load_many_batches:
  assumes "load_many cs ks dl = (rs, dl')" "batches_ok dl"
  shows "batches_ok dl'"
proof -
  define rq where "rq = entry_requests dl"
  have rq: "queue_ok (rq_keys rq) (map fst (rq_pending rq)) (list_ex is_fetch (dl_tasks dl))"
    "queue_ok (rq_stream_keys rq) (map fst (rq_stream_pending rq)) (list_ex is_fetch_stream (dl_tasks dl))"
    using entry_requests_ok [OF assms(2)] by (simp_all add: requests_ok_def rq_def)
  obtain cached keys c where look:
    "lookup_keys cs (rq_disable_cache rq \<or> dl_disable_cache dl) ks (rq_cache rq) = (cached, keys, c)"
    using prod_cases3 by blast
  note push = queue_ok_push [OF rq(1) lookup_keys_finite [OF look]]
  show ?thesis
  proof (cases "keys = {}")
    case True
    then show ?thesis
      using assms(1) rq look
      by (auto simp: load_many_def Let_def batches_ok_def requests_ok_def simp flip: rq_def)
  next
    case False
    then show ?thesis
      using assms(1) rq(2) look push [OF False]
      by (cases "card (rq_keys rq) = 0")
        (auto simp: load_many_def Let_def batches_ok_def requests_ok_def requests_take_def simp flip: rq_def split: if_splits)
  qed
qed

lemma load_many_stream_batches:
  assumes "load_many_stream cs items ks dl = (rs, dl')" "batches_ok dl"
  shows "batches_ok dl'"
proof -
  define rq where "rq = entry_requests dl"
  have rq: "queue_ok (rq_keys rq) (map fst (rq_pending rq)) (list_ex is_fetch (dl_tasks dl))"
    "queue_ok (rq_stream_keys rq) (map fst (rq_stream_pending rq)) (list_ex is_fetch_stream (dl_tasks dl))"
    using entry_requests_ok [OF assms(2)] by (simp_all add: requests_ok_def rq_def)
  obtain cached keys c where look:
    "lookup_keys cs (rq_disable_cache rq \<or> dl_disable_cache dl) ks (rq_cache rq) = (cached, keys, c)"
    using prod_cases3 by blast
  note push = queue_ok_push [OF rq(2) lookup_keys_finite [OF look]]
  show ?thesis
  proof (cases "keys = {}")
    case True
    then show ?thesis
      using assms(1) rq look
      by (auto simp: load_many_stream_def Let_def batches_ok_def requests_ok_def simp flip: rq_def)
  next
    case False
    then show ?thesis
      using assms(1) rq(1) look push [OF False]
      by (cases "card (rq_stream_keys rq) = 0")
        (auto simp: load_many_stream_def Let_def batches_ok_def requests_ok_def requests_take_stream_def simp flip: rq_def split: if_splits)
  qed
qed

lemma step_batches:
  assumes "loader_step cs items answers known dl asked rs dl'" "batches_ok dl"
  shows "batches_ok dl'"
  using assms(1)
proof cases
  case (many ks)
  then show ?thesis using load_many_batches [OF many(2) assms(2)] by simp
next
  case (many_stream ks)
  then show ?thesis using load_many_stream_batches [OF many_stream(2) assms(2)] by simp
qed (use assms(2) in \<open>auto simp: loader_simps batches_ok_def requests_ok_def split: option.splits if_splits sum.splits elim!: queue_ok_mono\<close>)

lemma step_balance:
  assumes "loader_step cs items answers known dl asked rs dl'" "batches_ok dl"
  shows "mset (answered rs) + mset (waiting dl') = mset (map fst asked) + mset (waiting dl) \<and>
    (asked = [] \<and> dl_next dl \<le> dl_next dl' \<or> map fst asked = [dl_next dl] \<and> dl_next dl' = Suc (dl_next dl))"
  using assms(1)
proof cases
  case (many ks)
  then show ?thesis using load_many_balance [OF many(2)] by simp
next
  case (many_stream ks)
  then show ?thesis using load_many_stream_balance [OF many_stream(2)] by simp
qed (use assms(2) in \<open>auto simp: loader_simps waiting_def pending_of_def batches_ok_def requests_ok_def split: option.splits if_splits sum.splits prod.splits\<close>)

lemma run_balance:
  assumes "loader_run cs items answers known dl asked rs dl'"
  shows "waiting dl = [] \<Longrightarrow> batches_ok dl \<Longrightarrow> batches_ok dl' \<and> mset (answered rs) + mset (waiting dl') = mset (map fst asked) \<and>
    distinct (map fst asked) \<and> (\<forall>tx\<in>fst ` set asked. tx < dl_next dl')"
  using assms
proof (induction rule: loader_run.induct)
  case (step asked rs us a r vs)
  have a: "mset (answered r) + mset (waiting vs) = mset (map fst a) + mset (waiting us)"
    "a = [] \<and> dl_next us \<le> dl_next vs \<or> map fst a = [dl_next us] \<and> dl_next vs = Suc (dl_next us)"
    using step_balance [OF step.hyps(2)] step.IH [OF step.prems] by blast+
  have "mset (answered (rs @ r)) + mset (waiting vs) = mset (answered rs) + (mset (answered r) + mset (waiting vs))"
    by (simp add: ac_simps)
  also have "\<dots> = mset (map fst (asked @ a))"
    using step.IH [OF step.prems] by (simp add: a(1) ac_simps)
  finally show ?case
    using step_batches [OF step.hyps(2)] step.IH [OF step.prems] a(2) by (force simp: less_Suc_eq)
qed simp


text \<open>No request for a batch waits any longer.\<close>

definition idle :: "('k, 'v, 'c) data_loader \<Rightarrow> bool" where
  "idle dl \<longleftrightarrow> \<not> list_ex is_fetch (dl_tasks dl) \<and> concat (map waiting_in (dl_tasks dl)) = []"

lemma batches_built: "batches_ok (max_batch_size n (with_cache c))" "waiting (max_batch_size n (with_cache c)) = []"
  by (simp_all add: batches_ok_def max_batch_size_def with_cache_def waiting_def pending_of_def)

lemma queue_ok_idle: "queue_ok keys entries False \<Longrightarrow> entries = []"
  by (cases entries) (auto simp: queue_ok_def)

lemma idle_waiting: "batches_ok dl \<Longrightarrow> idle dl \<Longrightarrow> waiting dl = []"
  by (auto simp: batches_ok_def idle_def waiting_def pending_of_def requests_ok_def split: option.splits
      dest: queue_ok_idle)

text \<open>C22: however callers and tasks interleave and whatever the loader answers, the data loader answers
  no request twice, and once no fetch task and no call of the loader is left it has answered all of
  them: a batch never waits without a task that will fetch it.\<close>

theorem loader_answers_once:
  assumes "loader_run cs items answers known (max_batch_size n (with_cache c)) asked rs dl"
  shows "distinct (answered rs) \<and> set (answered rs) \<subseteq> fst ` set asked \<and>
    (idle dl \<longrightarrow> set (answered rs) = fst ` set asked)"
proof -
  have run: "batches_ok dl" "mset (answered rs) + mset (waiting dl) = mset (map fst asked)" "distinct (map fst asked)"
    using run_balance [OF assms batches_built(2,1)] by blast+
  have all: "mset (answered rs @ waiting dl) = mset (map fst asked)"
    using run(2) by simp
  have "distinct (answered rs)" "set (answered rs) \<subseteq> fst ` set asked"
    using mset_eq_imp_distinct_iff [OF all] mset_eq_setD [OF all] run(3) by auto
  moreover have "set (answered rs) = fst ` set asked" if "idle dl"
    using mset_eq_setD [OF all] idle_waiting [OF run(1) that] by simp
  ultimately show ?thesis by blast
qed

subsection \<open>The answers agree with the data\<close>

text \<open>A loader of the data \<open>f\<close>: it may fail; otherwise it returns data only, and all of it for the keys
  it was asked for.\<close>

definition loads :: "('k \<rightharpoonup> 'v) \<Rightarrow> 'k set \<Rightarrow> 'e + ('k, 'v) alist \<Rightarrow> bool" where
  "loads f keys answer \<longleftrightarrow>
     (case answer of
        Inl _ \<Rightarrow> True
      | Inr values \<Rightarrow> (\<forall>(k, v)\<in>set values. f k = Some v) \<and> (\<forall>k\<in>keys. map_of values k = f k))"

definition entry_ok :: "('k \<rightharpoonup> 'v) \<Rightarrow> (nat \<times> 'k list) list \<Rightarrow> 'k set \<Rightarrow> 'k set \<times> ('k, 'v) res_sender \<Rightarrow> bool" where
  "entry_ok f asked batch_keys entry \<longleftrightarrow>
     (case entry of (keys, sender) \<Rightarrow>
        keys \<subseteq> batch_keys \<and> use_cache_values sender \<subseteq>\<^sub>m f \<and>
        (\<exists>ks. (res_tx sender, ks) \<in> set asked \<and> dom (use_cache_values sender) \<union> keys = set ks))"

fun task_ok :: "('k \<rightharpoonup> 'v) \<Rightarrow> (nat \<times> 'k list) list \<Rightarrow> ('k, 'v) task \<Rightarrow> bool" where
  "task_ok f asked (LoadTask d batch) \<longleftrightarrow> list_all (entry_ok f asked (fst batch)) (snd batch)"
| "task_ok f asked _ \<longleftrightarrow> True"

fun reply_ok :: "('k \<rightharpoonup> 'v) \<Rightarrow> (nat \<times> 'k list) list \<Rightarrow> ('k, 'v, 'e) reply \<Rightarrow> bool" where
  "reply_ok f asked (Loaded tx (Inr m)) \<longleftrightarrow> (\<exists>ks. (tx, ks) \<in> set asked \<and> m = f |` set ks)"
| "reply_ok f asked _ \<longleftrightarrow> True"

lemma ok_mono:
  "entry_ok f asked b e \<Longrightarrow> b \<subseteq> b' \<Longrightarrow> entry_ok f (asked @ later) b' e"
  "task_ok f asked t \<Longrightarrow> task_ok f (asked @ later) t"
  "reply_ok f asked r \<Longrightarrow> reply_ok f (asked @ later) r"
  by (force simp: entry_ok_def list_all_iff elim!: task_ok.elims reply_ok.elims)+

lemma reply_ok_stream_end [simp]: "list_all (reply_ok f asked) (stream_end senders)"
  "reply \<in> set (stream_end senders) \<Longrightarrow> reply_ok f asked reply"
  by (auto simp: stream_end_def list_all_iff)

lemma restrict_answer:
  assumes "cached \<subseteq>\<^sub>m f" "dom cached \<union> keys = set ks" "\<forall>k\<in>keys. values k = f k"
  shows "cached ++ (values |` keys) = f |` set ks"
proof
  fix k
  show "(cached ++ (values |` keys)) k = (f |` set ks) k"
  proof (cases "k \<in> keys")
    case True
    then have "k \<in> set ks" "values k = f k" using assms(2,3) by blast+
    then show ?thesis
      using True assms(1) by (cases "f k") (auto simp: map_add_def restrict_map_def map_le_def dom_def split: option.splits)
  next
    case False
    show ?thesis
    proof (cases "k \<in> set ks")
      case True
      then have "k \<in> dom cached" using False assms(2) by blast
      then show ?thesis using True False assms(1) by (auto simp: map_add_def map_le_def)
    next
      case notin: False
      then have "cached k = None" using assms(2) by blast
      then show ?thesis using notin False by (simp add: map_add_def)
    qed
  qed
qed

lemma batch_reply_ok:
  assumes "entry_ok f asked batch_keys e" "\<forall>k\<in>batch_keys. map_of values k = f k"
  shows "reply_ok f asked (batch_reply values e)"
proof -
  obtain keys sender ks where e: "e = (keys, sender)" "keys \<subseteq> batch_keys" "use_cache_values sender \<subseteq>\<^sub>m f"
    "(res_tx sender, ks) \<in> set asked" "dom (use_cache_values sender) \<union> keys = set ks"
    using assms(1) by (auto simp: entry_ok_def)
  moreover have "\<forall>k\<in>keys. map_of values k = f k"
    using e(2) assms(2) by blast
  ultimately show ?thesis
    using restrict_answer [of "use_cache_values sender" f keys ks "map_of values"]
    by (auto simp: batch_reply_def)
qed

context cache_laws
begin

definition data_ok :: "('k \<rightharpoonup> 'v) \<Rightarrow> (nat \<times> 'k list) list \<Rightarrow> ('k, 'v, 'c) data_loader \<Rightarrow> bool" where
  "data_ok f asked dl \<longleftrightarrow>
     agrees f (rq_cache (entry_requests dl)) \<and>
     list_all (entry_ok f asked (rq_keys (entry_requests dl))) (rq_pending (entry_requests dl)) \<and>
     list_all (task_ok f asked) (dl_tasks dl)"

lemma load_many_data:
  assumes "load_many cs ks dl = (rs, dl')" "data_ok f asked dl"
  shows "data_ok f (asked @ [(dl_next dl, ks)]) dl' \<and> list_all (reply_ok f (asked @ [(dl_next dl, ks)])) rs"
proof -
  define rq where "rq = entry_requests dl"
  obtain cached keys c where look:
    "lookup_keys cs (rq_disable_cache rq \<or> dl_disable_cache dl) ks (rq_cache rq) = (cached, keys, c)"
    using prod_cases3 by blast
  have "agrees f (rq_cache rq)" using assms(2) by (simp add: data_ok_def rq_def)
  note cached = lookup_keys_agrees [OF look this]
  let ?asked = "asked @ [(dl_next dl, ks)]"
  have tasks: "list_all (task_ok f ?asked) (dl_tasks dl)"
    using assms(2) ok_mono(2) by (fastforce simp: data_ok_def list_all_iff)
  have old: "list_all (entry_ok f ?asked (rq_keys rq \<union> keys)) (rq_pending rq)"
    using assms(2) ok_mono(1) by (fastforce simp: data_ok_def list_all_iff rq_def)
  show ?thesis
  proof (cases "keys = {}")
    case True
    then have "cached = f |` set ks"
      using restrict_answer [of cached f "{}" ks Map.empty] cached(2,4) by simp
    then show ?thesis
      using assms(1) look cached(1) tasks old True
      by (auto simp: load_many_def Let_def data_ok_def simp flip: rq_def)
  next
    case False
    have "entry_ok f ?asked (rq_keys rq \<union> keys) (keys, \<lparr>use_cache_values = cached, res_tx = dl_next dl\<rparr>)"
      using cached(2,4) by (auto simp: entry_ok_def)
    then show ?thesis
      using assms(1) look cached(1) tasks old False
      by (auto simp: load_many_def Let_def data_ok_def requests_take_def simp flip: rq_def split: if_splits)
  qed
qed

lemma load_many_stream_data:
  assumes "load_many_stream cs items ks dl = (rs, dl')" "data_ok f asked dl"
  shows "data_ok f asked dl' \<and> list_all (reply_ok f asked) rs"
proof -
  define rq where "rq = entry_requests dl"
  obtain cached keys c where look:
    "lookup_keys cs (rq_disable_cache rq \<or> dl_disable_cache dl) ks (rq_cache rq) = (cached, keys, c)"
    using prod_cases3 by blast
  have "agrees f (rq_cache rq)" using assms(2) by (simp add: data_ok_def rq_def)
  note cached = lookup_keys_agrees [OF look this]
  show ?thesis
    using assms look cached(1)
    by (cases "keys = {}")
      (auto simp: load_many_stream_def Let_def data_ok_def requests_take_stream_def list_all_iff
        simp flip: rq_def split: if_splits)
qed

lemma data_ok_cache:
  assumes "data_ok f asked dl" "agrees f c"
  shows "data_ok f asked (dl\<lparr>dl_requests := Some ((entry_requests dl)\<lparr>rq_cache := c\<rparr>)\<rparr>)"
  using assms by (simp add: data_ok_def)

lemma step_data:
  assumes "loader_step cs items (loads f) (\<lambda>k v. f k = Some v) dl a rs dl'" "data_ok f asked dl"
  shows "data_ok f (asked @ a) dl' \<and> list_all (reply_ok f (asked @ a)) rs"
  using assms(1)
proof cases
  case (many ks)
  then show ?thesis using load_many_data [OF many(2) assms(2)] by simp
next
  case (many_stream ks)
  then show ?thesis using load_many_stream_data [OF many_stream(2) assms(2)] by simp
next
  case (loaded ts d batch us answer)
  have tasks: "list_all (task_ok f asked) (ts @ us)" "list_all (entry_ok f asked (fst batch)) (snd batch)"
    using assms(2) by (simp_all add: loaded(2) data_ok_def)
  then have ok: "data_ok f asked (dl\<lparr>dl_tasks := ts @ us\<rparr>)"
    using assms(2) by (simp add: data_ok_def)
  show ?thesis
  proof (cases answer)
    case (Inl err)
    then show ?thesis using loaded(1,4) ok by (auto simp: do_load_def list_all_iff)
  next
    case (Inr kvs)
    then have vals: "\<forall>(k, v)\<in>set kvs. f k = Some v" "\<forall>k\<in>fst batch. map_of kvs k = f k"
      using loaded(3) by (simp_all add: loads_def)
    have "list_all (reply_ok f asked) (map (batch_reply kvs) (snd batch))"
      using tasks(2) batch_reply_ok [OF _ vals(2)] by (auto simp: list_all_iff)
    moreover have "agrees f (cache_all cs kvs (rq_cache (entry_requests dl)))"
      using assms(2) agrees_all [OF _ vals(1)] by (simp add: data_ok_def)
    ultimately show ?thesis
      using loaded(1,4) ok by (auto simp: do_load_def Inr data_ok_def split: option.splits if_splits)
  qed
next
  case (streamed d batch k v)
  have "agrees f (cache_insert cs k v (rq_cache (entry_requests dl)))"
    using assms(2) agrees_insert [of f _ k v] streamed(3) by (simp add: data_ok_def)
  then show ?thesis
    using streamed(1,4) assms(2)
    by (auto simp: stream_cache_def list_all_iff data_ok_def split: option.splits if_splits)
next
  case (feeds kvs)
  then show ?thesis
    using data_ok_cache [OF assms(2) agrees_all, of _ kvs] assms(2) by (simp add: feed_many_def Let_def data_ok_def)
next
  case (clears_one k)
  then show ?thesis
    using data_ok_cache [OF assms(2) agrees_subset [OF _ remove_keeps, of f _ k]] assms(2)
    by (simp add: clear_one_def Let_def data_ok_def)
next
  case clears
  then show ?thesis
    using data_ok_cache [OF assms(2) agrees_clear] by (simp add: clear_cache_def Let_def)
qed (use assms(2) in \<open>auto simp: loader_simps list_all_iff data_ok_def split: option.splits if_splits\<close>)

lemma run_data:
  assumes "loader_run cs items (loads f) (\<lambda>k v. f k = Some v) dl asked rs dl'" "data_ok f [] dl"
  shows "data_ok f asked dl' \<and> list_all (reply_ok f asked) rs"
  using assms
proof (induction rule: loader_run.induct)
  case (step asked rs us a r vs)
  then have "list_all (reply_ok f (asked @ a)) rs"
    by (auto simp: list_all_iff intro: ok_mono(3))
  then show ?case
    using step_data [OF step.hyps(2)] step.IH step.prems by auto
qed simp

end


subsection \<open>Examples\<close>

text \<open>Two requests of overlapping keys share a batch of a loader that squares.\<close>

abbreviation squares :: "nat \<rightharpoonup> nat" where
  "squares \<equiv> \<lambda>k. Some (k * k)"

abbreviation sample_loader :: "(nat, nat, (nat, nat) alist) data_loader" where
  "sample_loader \<equiv> max_batch_size 2 (with_cache [])"

lemma sample_loader_run:
  "\<exists>dl. loader_run hash_map_cache (\<lambda>_. []) (loads squares) (\<lambda>k v. squares k = Some v) sample_loader
     [(0, [3, 4])] [Loaded 0 (Inr (squares |` {3, 4})) :: (nat, nat, unit) reply] dl \<and> idle dl"
proof -
  let ?step = "loader_step hash_map_cache (\<lambda>_. []) (loads squares) (\<lambda>k v. squares k = Some v)"
  let ?batch = "({3, 4}, [({3, 4}, \<lparr>use_cache_values = Map.empty, res_tx = 0\<rparr>)]) :: (nat, nat) keys_and_sender"
  let ?l1 = "sample_loader\<lparr>dl_requests := Some (requests_new []), dl_tasks := [LoadTask False ?batch], dl_next := 1\<rparr>"
  let ?l2 = "sample_loader\<lparr>dl_requests := Some (requests_new [(3, 9), (4, 16)]), dl_tasks := [], dl_next := 1\<rparr>"
  have answer: "use_cache_values \<lparr>use_cache_values = Map.empty, res_tx = 0\<rparr> ++ (map_of [(3, 9), (4, 16)] |` {3, 4}) =
      squares |` {3, 4}"
    by (auto simp: restrict_map_def fun_eq_iff)
  have "load_many hash_map_cache [3, 4] sample_loader = ([] :: (nat, nat, unit) reply list, ?l1)"
    by (simp add: loader_simps with_cache_def max_batch_size_def lookup_keys_def hash_map_cache_def insert_commute)
  then have l1: "?step sample_loader [(0, [3, 4])] ([] :: (nat, nat, unit) reply list) ?l1"
    using loader_step.many [of hash_map_cache "[3, 4]" sample_loader] by (fastforce simp: with_cache_def max_batch_size_def)
  have "loads squares (fst ?batch) (Inr [(3, 9), (4, 16)])"
    by (simp add: loads_def)
  moreover have "do_load hash_map_cache False ?batch (Inr [(3, 9), (4, 16)]) (?l1\<lparr>dl_tasks := [] @ []\<rparr>) =
      Done ([Loaded 0 (Inr (squares |` {3, 4})) :: (nat, nat, unit) reply], ?l2)"
    using answer by (simp add: do_load_def batch_reply_def requests_new_def cache_all_def hash_map_cache_def)
  ultimately have l2: "?step ?l1 [] [Loaded 0 (Inr (squares |` {3, 4})) :: (nat, nat, unit) reply] ?l2"
    by (intro loader_step.loaded [where ts = "[]" and us = "[]" and d = False and batch = ?batch]) simp_all
  show ?thesis
    using loader_run.step [OF loader_run.step [OF loader_run.start l1] l2]
    by (auto simp: idle_def with_cache_def max_batch_size_def)
qed

theorem loader_answers_once_witness:
  "\<exists>dl. loader_run hash_map_cache (\<lambda>_. []) (loads squares) (\<lambda>k v. squares k = Some v) sample_loader
     [(0, [3, 4])] [Loaded 0 (Inr (squares |` {3, 4})) :: (nat, nat, unit) reply] dl \<and>
     idle dl \<and> set (answered [Loaded 0 (Inr (squares |` {3, 4})) :: (nat, nat, unit) reply]) = fst ` set [(0 :: nat, [3 :: nat, 4])]"
proof -
  obtain dl where dl: "loader_run hash_map_cache (\<lambda>_. []) (loads squares) (\<lambda>k v. squares k = Some v) sample_loader
     [(0, [3, 4])] [Loaded 0 (Inr (squares |` {3, 4})) :: (nat, nat, unit) reply] dl" "idle dl"
    using sample_loader_run by blast
  show ?thesis
    using loader_answers_once [OF dl(1)] dl by blast
qed


text \<open>\<open>enable_cache\<close> before the first load panics, and a batch can be larger than its maximum.\<close>

lemma enable_cache_panics: "enable_cache True (with_cache c) = Panicked"
  by (simp add: enable_cache_def with_cache_def)

lemma batch_above_maximum:
  "dl_tasks (snd (load_many no_cache [1, 2, 3 :: nat] (max_batch_size 2 (with_cache ())) :: (nat, nat, unit) reply list \<times> _)) =
     [LoadTask False ({1, 2, 3}, [({1, 2, 3}, \<lparr>use_cache_values = Map.empty, res_tx = 0\<rparr>)])]"
  by (simp add: loader_simps lookup_keys_def no_cache_def max_batch_size_def with_cache_def insert_commute)

end
