(* ===== verification/Registry_Build.thy ===== *)
theory Registry_Build
  imports Registry
begin

text \<open>
  Building a registry (\<open>src/registry/mod.rs\<close>): registering a type under its name, renaming an input
  object whose name is taken, the entities of a federated schema, and the removal of types that
  nothing refers to. The traits of the registered types are arguments: what \<open>create_type_info\<close> of a
  type does to the registry, and its Rust name.
\<close>

subsection \<open>Names that are in use\<close>

fun create_fake_type :: "meta_type_id \<Rightarrow> string \<Rightarrow> meta_type" where
  "create_fake_type IdScalar rust_typename = MTScalar
     \<lparr>sc_name = '''', sc_description = None, sc_is_valid = None, sc_visible = None, sc_inaccessible = False,
      sc_tags = [], sc_specified_by_url = None, sc_directive_invocations = [], sc_requires_scopes = []\<rparr>"
| "create_fake_type IdObject rust_typename = MTObject
     \<lparr>ob_name = '''', ob_description = None, ob_fields = [], ob_cache_control = default_cache_control,
      ob_extends = False, ob_shareable = False, ob_resolvable = True, ob_keys = None, ob_visible = None,
      ob_inaccessible = False, ob_interface_object = False, ob_tags = [], ob_is_subscription = False,
      ob_rust_typename = Some rust_typename, ob_directive_invocations = [], ob_requires_scopes = []\<rparr>"
| "create_fake_type IdInterface rust_typename = MTInterface
     \<lparr>in_name = '''', in_description = None, in_fields = [], in_possible_types = [], in_extends = False,
      in_keys = None, in_visible = None, in_inaccessible = False, in_tags = [],
      in_rust_typename = Some rust_typename, in_directive_invocations = [], in_requires_scopes = []\<rparr>"
| "create_fake_type IdUnion rust_typename = MTUnion
     \<lparr>un_name = '''', un_description = None, un_possible_types = [], un_visible = None,
      un_inaccessible = False, un_tags = [], un_rust_typename = Some rust_typename,
      un_directive_invocations = []\<rparr>"
| "create_fake_type IdEnum rust_typename = MTEnum
     \<lparr>en_name = '''', en_description = None, en_enum_values = [], en_visible = None, en_inaccessible = False,
      en_tags = [], en_rust_typename = Some rust_typename, en_directive_invocations = [],
      en_requires_scopes = []\<rparr>"
| "create_fake_type IdInputObject rust_typename = MTInputObject
     \<lparr>io_name = '''', io_description = None, io_input_fields = [], io_visible = None,
      io_inaccessible = False, io_tags = [], io_rust_typename = Some rust_typename, io_oneof = False,
      io_directive_invocations = []\<rparr>"

fun digits_value :: "string \<Rightarrow> nat \<Rightarrow> nat" where
  "digits_value [] acc = acc"
| "digits_value (c # cs) acc = digits_value cs (10 * acc + (of_char c - 48))"

lemma digits_value_append: "digits_value (xs @ ys) acc = digits_value ys (digits_value xs acc)"
  by (induction xs arbitrary: acc) simp_all

lemma digits_value_show: "digits_value (show_nat n) 0 = n"
proof (induction n rule: show_nat.induct)
  case (1 n)
  show ?case
  proof (cases "n < 10")
    case False
    then have "n mod 10 < 10" "digits_value (show_nat (n div 10)) 0 = n div 10"
      using 1 by auto
    then show ?thesis
      using False by (subst show_nat.simps) (simp add: digits_value_append digit_char_def)
  qed (simp add: show_nat.simps [of n] digit_char_def)
qed

lemma show_nat_inject [simp]: "show_nat a = show_nat b \<longleftrightarrow> a = b"
  by (metis digits_value_show)

text \<open>The names \<open>NameInput\<close>, \<open>NameInput2\<close>, \<open>NameInput3\<close> and so on, until one is free.\<close>

function unused_candidate :: "registry \<Rightarrow> string \<Rightarrow> nat \<Rightarrow> string" where
  "unused_candidate r base_name idx =
     (let candidate = base_name @ show_nat idx in
      if \<not> contains_key (reg_types r) candidate then candidate
      else unused_candidate r base_name (idx + 1))"
  by pat_completeness auto
termination
proof (relation "measure (\<lambda>(r, base_name, idx). card {i. idx \<le> i \<and> contains_key (reg_types r) (base_name @ show_nat i)})",
    goal_cases)
  case (2 r base_name idx candidate)
  let ?taken = "\<lambda>k. {i. k \<le> i \<and> contains_key (reg_types r) (base_name @ show_nat i)}"
  have "finite ((\<lambda>i. base_name @ show_nat i) ` ?taken idx)"
    by (rule finite_subset [of _ "fst ` set (reg_types r)"]) (auto simp: contains_key_iff)
  then have "finite (?taken idx)"
    by (rule finite_imageD) (simp add: inj_on_def)
  moreover have "idx \<in> ?taken idx" "idx \<notin> ?taken (idx + 1)" "?taken (idx + 1) \<subseteq> ?taken idx"
    using 2 by auto
  then have "?taken (idx + 1) \<subset> ?taken idx" by blast
  ultimately show ?case
    by (simp add: psubset_card_mono)
qed simp

declare unused_candidate.simps [simp del]

definition unused_input_object_name :: "registry \<Rightarrow> string \<Rightarrow> string" where
  "unused_input_object_name r n =
     (let base_name = n @ ''Input'' in
      if \<not> contains_key (reg_types r) base_name then base_name else unused_candidate r base_name 2)"

lemma unused_candidate_free: "\<not> contains_key (reg_types r) (unused_candidate r base_name idx)"
  by (induction r base_name idx rule: unused_candidate.induct) (subst unused_candidate.simps, simp add: Let_def)

lemma unused_name_free: "\<not> contains_key (reg_types r) (unused_input_object_name r n)"
  by (simp add: unused_input_object_name_def Let_def unused_candidate_free)

definition registered_input_object_name :: "registry \<Rightarrow> string \<Rightarrow> string option" where
  "registered_input_object_name r rust_typename =
     map_option fst (List.find (\<lambda>(_, ty). type_id ty = IdInputObject \<and> mt_rust_typename ty = Some rust_typename)
       (reg_types r))"

subsection \<open>Renaming an input object\<close>

function renamed_type :: "string \<Rightarrow> string \<Rightarrow> string \<Rightarrow> string option run" where
  "renamed_type ty old new =
     run_bind (mtn_create ty) (\<lambda>t. case t of
         MNonNull inner \<Rightarrow> run_map (map_option (\<lambda>s. s @ ''!'')) (renamed_type inner old new)
       | MList inner \<Rightarrow> run_map (map_option (\<lambda>s. ''['' @ s @ '']'')) (renamed_type inner old new)
       | MNamed n \<Rightarrow> Done (if n = old then Some new else None))"
  by pat_completeness auto
termination
  by (relation "measure (\<lambda>(ty, _, _). length ty)") (auto dest: mtn_create_part_length)

declare renamed_type.simps [simp del]

definition rename_type_reference :: "string \<Rightarrow> string \<Rightarrow> string \<Rightarrow> string run" where
  "rename_type_reference ty old new =
     run_map (\<lambda>r. case r of Some new_ty \<Rightarrow> new_ty | None \<Rightarrow> ty) (renamed_type ty old new)"

text \<open>A loop over the values of a map that changes each in place.\<close>

fun values_mut :: "('v \<Rightarrow> 'v run) \<Rightarrow> ('k \<times> 'v) list \<Rightarrow> ('k \<times> 'v) list run" where
  "values_mut f [] = Done []"
| "values_mut f ((k, v) # m) = run_bind (f v) (\<lambda>v'. run_map (Cons (k, v')) (values_mut f m))"

definition rename_input_value :: "string \<Rightarrow> string \<Rightarrow> meta_input_value \<Rightarrow> meta_input_value run" where
  "rename_input_value old new arg = run_map (\<lambda>ty. arg\<lparr>mi_ty := ty\<rparr>) (rename_type_reference (mi_ty arg) old new)"

definition rename_field_args :: "string \<Rightarrow> string \<Rightarrow> meta_field \<Rightarrow> meta_field run" where
  "rename_field_args old new f = run_map (\<lambda>args. f\<lparr>mf_args := args\<rparr>) (values_mut (rename_input_value old new) (mf_args f))"

fun rename_input_type_references_in_type :: "string \<Rightarrow> string \<Rightarrow> meta_type \<Rightarrow> meta_type run" where
  "rename_input_type_references_in_type old new (MTObject ob) =
     run_map (\<lambda>fs. MTObject (ob\<lparr>ob_fields := fs\<rparr>)) (values_mut (rename_field_args old new) (ob_fields ob))"
| "rename_input_type_references_in_type old new (MTInterface i) =
     run_map (\<lambda>fs. MTInterface (i\<lparr>in_fields := fs\<rparr>)) (values_mut (rename_field_args old new) (in_fields i))"
| "rename_input_type_references_in_type old new (MTInputObject i) =
     run_map (\<lambda>fs. MTInputObject (i\<lparr>io_input_fields := fs\<rparr>)) (values_mut (rename_input_value old new) (io_input_fields i))"
| "rename_input_type_references_in_type old new ty = Done ty"

definition rename_input_type_references :: "string \<Rightarrow> string \<Rightarrow> registry \<Rightarrow> registry run" where
  "rename_input_type_references old new r =
     run_bind (values_mut (\<lambda>d. run_map (\<lambda>args. d\<lparr>md_args := args\<rparr>) (values_mut (rename_input_value old new) (md_args d)))
       (reg_directives r)) (\<lambda>directives.
     run_map (\<lambda>types. r\<lparr>reg_directives := directives, reg_types := types\<rparr>)
       (values_mut (rename_input_type_references_in_type old new) (reg_types r)))"

definition rename_conflicting_input_object :: "string \<Rightarrow> registry \<Rightarrow> (string \<times> registry) run" where
  "rename_conflicting_input_object n r =
     (let input_name = unused_input_object_name r n in
      case map_of (reg_types r) n of
        None \<Rightarrow> Panicked
      | Some ty \<Rightarrow>
          run_bind (rename_input_type_references_in_type n input_name (set_name input_name ty)) (\<lambda>ty'.
          run_map (\<lambda>r'. (input_name, r'\<lparr>reg_types := alist_insert input_name ty' (reg_types r')\<rparr>))
            (rename_input_type_references n input_name (r\<lparr>reg_types := alist_remove n (reg_types r)\<rparr>))))"

subsection \<open>Registering a type\<close>

definition insert_type :: "string \<Rightarrow> meta_type \<Rightarrow> registry \<Rightarrow> registry" where
  "insert_type n ty r = r\<lparr>reg_types := alist_insert n ty (reg_types r)\<rparr>"

text \<open>\<open>*self.types.get_mut(name).unwrap() = ty\<close>\<close>

definition replace_type :: "string \<Rightarrow> meta_type \<Rightarrow> registry \<Rightarrow> registry run" where
  "replace_type n ty r = (if contains_key (reg_types r) n then Done (insert_type n ty r) else Panicked)"

type_synonym type_info = "registry \<Rightarrow> (meta_type \<times> registry) run"

text \<open>A fake type stands for the one that is being described, so that it can refer to itself.\<close>

definition describe_type ::
  "type_info \<Rightarrow> (meta_type \<Rightarrow> meta_type run) \<Rightarrow> string \<Rightarrow> string \<Rightarrow> meta_type_id \<Rightarrow> registry \<Rightarrow> (string \<times> registry) run" where
  "describe_type f adjust n rust_typename tid r =
     run_bind (f (insert_type n (create_fake_type tid rust_typename) r)) (\<lambda>(ty, r').
     run_bind (adjust (set_name n ty)) (\<lambda>ty'.
     run_map (\<lambda>r''. (n, r'')) (replace_type n ty' r')))"

definition create_type ::
  "type_info \<Rightarrow> string \<Rightarrow> string \<Rightarrow> meta_type_id \<Rightarrow> registry \<Rightarrow> (string \<times> registry) run" where
  "create_type f n rust_typename tid r =
     (case map_of (reg_types r) n of
        None \<Rightarrow> describe_type f Done n rust_typename tid r
      | Some ty \<Rightarrow>
          (case mt_rust_typename ty of
             None \<Rightarrow> Done (n, r)
           | Some prev_typename \<Rightarrow>
               if prev_typename = ''__fake_type__'' then Done (n, r)
               else if rust_typename \<noteq> prev_typename \<and> n \<notin> reg_ignore_name_conflicts r then Panicked
               else if type_id ty = tid then Done (n, r)
               else
                 (case (type_id ty, tid) of
                    (IdInputObject, IdObject) \<Rightarrow>
                      run_bind (rename_conflicting_input_object n r) (\<lambda>(_, r').
                        describe_type f Done n rust_typename tid r')
                  | (IdObject, IdInputObject) \<Rightarrow>
                      (case registered_input_object_name r rust_typename of
                         Some input_name \<Rightarrow> Done (input_name, r)
                       | None \<Rightarrow>
                           let input_name = unused_input_object_name r n in
                           describe_type f (rename_input_type_references_in_type n input_name)
                             input_name rust_typename tid r)
                  | _ \<Rightarrow> Panicked)))"

text \<open>\<open>create_input_type\<close> and \<open>create_output_type\<close> answer the qualified name of the type, with its name
  replaced by the one it was registered under.\<close>

definition create_named_type ::
  "type_info \<Rightarrow> string \<Rightarrow> string \<Rightarrow> string \<Rightarrow> meta_type_id \<Rightarrow> registry \<Rightarrow> (string \<times> registry) run" where
  "create_named_type f declared_name qualified_name rust_typename tid r =
     run_bind (create_type f declared_name rust_typename tid r) (\<lambda>(n, r').
     run_map (\<lambda>ty. (ty, r')) (rename_type_reference qualified_name declared_name n))"

definition set_type_description :: "string \<Rightarrow> meta_type \<Rightarrow> meta_type" where
  "set_type_description desc ty =
     (case ty of
        MTScalar i \<Rightarrow> MTScalar (i\<lparr>sc_description := Some desc\<rparr>)
      | MTObject i \<Rightarrow> MTObject (i\<lparr>ob_description := Some desc\<rparr>)
      | MTInterface i \<Rightarrow> MTInterface (i\<lparr>in_description := Some desc\<rparr>)
      | MTUnion i \<Rightarrow> MTUnion (i\<lparr>un_description := Some desc\<rparr>)
      | MTEnum i \<Rightarrow> MTEnum (i\<lparr>en_description := Some desc\<rparr>)
      | MTInputObject i \<Rightarrow> MTInputObject (i\<lparr>io_description := Some desc\<rparr>))"

definition set_description :: "string \<Rightarrow> string \<Rightarrow> registry \<Rightarrow> registry" where
  "set_description n desc r =
     (case map_of (reg_types r) n of
        Some ty \<Rightarrow> insert_type n (set_type_description desc ty) r
      | None \<Rightarrow> r)"

end
