(* ===== verification/Registry_Usage.thy ===== *)
theory Registry_Usage
  imports Registry_Build
begin

text \<open>
  What a registry uses (\<open>src/registry/mod.rs\<close>): the entities of a federated schema and the types it
  adds, the names of a registry, the removal of unused types and the types a request may see.

  The traversals mark the types they have entered. They follow type names through the map of types, so
  one unit of fuel per type, and one more, is enough; visibility functions are an argument.
\<close>

subsection \<open>Entities\<close>

fun entity_keys :: "meta_type \<Rightarrow> string list option" where
  "entity_keys (MTObject ob) = ob_keys ob"
| "entity_keys (MTInterface i) = in_keys i"
| "entity_keys _ = None"

definition keyed :: "meta_type \<Rightarrow> bool" where
  "keyed ty \<longleftrightarrow> (case entity_keys ty of Some ks \<Rightarrow> ks \<noteq> [] | None \<Rightarrow> False)"

definition has_entities :: "registry \<Rightarrow> bool" where
  "has_entities r \<longleftrightarrow>
     list_ex (\<lambda>(_, ty). keyed ty \<and> (case ty of MTObject ob \<Rightarrow> ob_resolvable ob | _ \<Rightarrow> True)) (reg_types r)"

fun collect_entity_interface_possible_types ::
  "nat \<Rightarrow> registry \<Rightarrow> string list \<Rightarrow> (string list \<times> string set) step" where
  "collect_entity_interface_possible_types 0 r ts st = OutOfFuel"
| "collect_entity_interface_possible_types (Suc n) r ts st =
     for_each (\<lambda>type_name (acc, visited).
       case map_of (reg_types r) type_name of
         Some (MTObject ob) \<Rightarrow> Done (index_set_insert (ob_name ob) acc, visited)
       | Some (MTInterface i) \<Rightarrow>
           if in_name i \<in> visited then Done (acc, visited)
           else collect_entity_interface_possible_types n r (in_possible_types i) (acc, insert (in_name i) visited)
       | _ \<Rightarrow> Done (acc, visited)) ts st"

text \<open>\<open>Iterator::any\<close> with a body that changes a state.\<close>

fun any_step :: "('a \<Rightarrow> 'st \<Rightarrow> (bool \<times> 'st) run) \<Rightarrow> 'a list \<Rightarrow> 'st \<Rightarrow> (bool \<times> 'st) run" where
  "any_step f [] st = Done (False, st)"
| "any_step f (x # xs) st = run_bind (f x st) (\<lambda>(b, st'). if b then Done (True, st') else any_step f xs st')"

fun contains_entity_interface_possible_type ::
  "nat \<Rightarrow> registry \<Rightarrow> string \<Rightarrow> string list \<Rightarrow> string set \<Rightarrow> (bool \<times> string set) run" where
  "contains_entity_interface_possible_type 0 r type_name ts visited = OutOfFuel"
| "contains_entity_interface_possible_type (Suc n) r type_name ts visited =
     any_step (\<lambda>possible_type visited.
       case map_of (reg_types r) possible_type of
         Some (MTObject ob) \<Rightarrow> Done (ob_name ob = type_name, visited)
       | Some (MTInterface i) \<Rightarrow>
           if in_name i \<in> visited then Done (False, visited)
           else contains_entity_interface_possible_type n r type_name (in_possible_types i) (insert (in_name i) visited)
       | _ \<Rightarrow> Done (False, visited)) ts visited"

definition search_fuel :: "registry \<Rightarrow> nat" where
  "search_fuel r = Suc (length (reg_types r))"

definition is_interface_possible_type :: "registry \<Rightarrow> string \<Rightarrow> string \<Rightarrow> bool run" where
  "is_interface_possible_type r interface_name type_name =
     (case map_of (reg_types r) interface_name of
        Some (MTInterface i) \<Rightarrow>
          run_map fst (contains_entity_interface_possible_type (search_fuel r) r type_name (in_possible_types i) {})
      | _ \<Rightarrow> Done False)"

definition entity_possible_types :: "registry \<Rightarrow> string list run" where
  "entity_possible_types r =
     for_each (\<lambda>(_, ty) acc.
       if \<not> keyed ty then Done acc
       else case ty of
              MTObject ob \<Rightarrow> Done (if ob_resolvable ob then index_set_insert (ob_name ob) acc else acc)
            | MTInterface i \<Rightarrow>
                run_map fst (collect_entity_interface_possible_types (search_fuel r) r (in_possible_types i) (acc, {}))
            | _ \<Rightarrow> Done acc) (reg_types r) []"

definition insert_field :: "string \<Rightarrow> meta_field \<Rightarrow> object_info \<Rightarrow> object_info" where
  "insert_field n f ob = ob\<lparr>ob_fields := alist_insert n f (ob_fields ob)\<rparr>"

definition create_entity_type_and_root_field :: "registry \<Rightarrow> registry run" where
  "create_entity_type_and_root_field r =
     run_bind (entity_possible_types r) (\<lambda>possible.
     case map_of (reg_types r) (reg_query_type r) of
       None \<Rightarrow> Panicked
     | Some query \<Rightarrow>
         let service = (case query of
               MTObject ob \<Rightarrow> MTObject (insert_field ''_service'' (meta_field_new ''_service'' ''_Service!'') ob)
             | _ \<Rightarrow> query);
             r1 = insert_type (reg_query_type r) service r
         in if possible = [] then Done r1
            else
              let r2 = insert_type ''_Entity'' (MTUnion
                    \<lparr>un_name = ''_Entity'', un_description = None, un_possible_types = possible, un_visible = None,
                     un_inaccessible = False, un_tags = [], un_rust_typename = Some ''gqlrs::federation::Entity'',
                     un_directive_invocations = []\<rparr>) r1
              in case map_of (reg_types r2) (reg_query_type r2) of
                   None \<Rightarrow> Panicked
                 | Some (MTObject ob) \<Rightarrow>
                     Done (insert_type (reg_query_type r2) (MTObject (insert_field ''_entities''
                       ((meta_field_new ''_entities'' ''[_Entity]!'')
                          \<lparr>mf_args := [(''representations'', meta_input_value_new ''representations'' ''[_Any!]!'')]\<rparr>) ob)) r2)
                 | Some _ \<Rightarrow> Done r2)"

text \<open>The types of the introspection system and of the federation register themselves.\<close>

definition create_introspection_types :: "(registry \<Rightarrow> registry run) \<Rightarrow> registry \<Rightarrow> registry run" where
  "create_introspection_types schema_type_info r =
     run_map (\<lambda>r'.
       case map_of (reg_types r') (reg_query_type r') of
         Some (MTObject ob) \<Rightarrow>
           insert_type (reg_query_type r') (MTObject
             (insert_field ''__type''
               ((meta_field_new ''__type'' ''__Type'')
                  \<lparr>mf_description := Some ''Request the type information of a single type.'',
                   mf_args := [(''name'', meta_input_value_new ''name'' ''String!'')]\<rparr>)
               (insert_field ''__schema''
                 ((meta_field_new ''__schema'' ''__Schema'')
                    \<lparr>mf_description := Some ''Access the current type schema of this server.''\<rparr>) ob))) r'
       | _ \<Rightarrow> r') (schema_type_info r)"

definition create_federation_types :: "(registry \<Rightarrow> registry run) \<Rightarrow> registry \<Rightarrow> registry run" where
  "create_federation_types any_type_info r =
     run_bind (any_type_info r) (\<lambda>r'.
     create_entity_type_and_root_field (insert_type ''_Service'' (MTObject
       \<lparr>ob_name = ''_Service'', ob_description = None, ob_fields = [(''sdl'', meta_field_new ''sdl'' ''String'')],
        ob_cache_control = default_cache_control, ob_extends = False, ob_shareable = False, ob_resolvable = True,
        ob_keys = None, ob_visible = None, ob_inaccessible = False, ob_interface_object = False, ob_tags = [],
        ob_is_subscription = False, ob_rust_typename = Some ''gqlrs::federation::Service'',
        ob_directive_invocations = [], ob_requires_scopes = []\<rparr>) r'))"

subsection \<open>The names of a registry\<close>

fun type_names :: "meta_type \<Rightarrow> string list" where
  "type_names (MTScalar i) = [sc_name i]"
| "type_names (MTUnion i) = [un_name i]"
| "type_names (MTObject i) =
     ob_name i # concat (map (\<lambda>(_, f). mf_name f # map (\<lambda>(_, a). mi_name a) (mf_args f)) (ob_fields i))"
| "type_names (MTInterface i) =
     in_name i # concat (map (\<lambda>(_, f). mf_name f # map (\<lambda>(_, a). mi_name a) (mf_args f)) (in_fields i))"
| "type_names (MTEnum i) = en_name i # map (\<lambda>(_, v). me_name v) (en_enum_values i)"
| "type_names (MTInputObject i) = io_name i # map (\<lambda>(_, f). mi_name f) (io_input_fields i)"

definition registry_names :: "registry \<Rightarrow> string set" where
  "registry_names r =
     set (concat (map (\<lambda>(_, d). md_name d # map (\<lambda>(_, a). mi_name a) (md_args d)) (reg_directives r))) \<union>
     set (concat (map (\<lambda>(_, ty). type_names ty) (reg_types r)))"

subsection \<open>Unused types\<close>

definition is_system_type :: "string \<Rightarrow> bool" where
  "is_system_type n \<longleftrightarrow> take 2 n = ''__'' \<or> n \<in> {''Boolean'', ''Int'', ''Float'', ''String'', ''ID''}"

text \<open>\<open>traverse_input_value\<close> and \<open>traverse_field\<close>, given what traverses a type.\<close>

definition traverse_input_value :: "(string \<Rightarrow> string set step) \<Rightarrow> meta_input_value \<Rightarrow> string set step" where
  "traverse_input_value traverse input_value used =
     run_bind (concrete_typename (mi_ty input_value)) (\<lambda>n. traverse n used)"

definition traverse_field :: "(string \<Rightarrow> string set step) \<Rightarrow> meta_field \<Rightarrow> string set step" where
  "traverse_field traverse f =
     seq (\<lambda>used. run_bind (concrete_typename (mf_ty f)) (\<lambda>n. traverse n used))
         (for_each (\<lambda>(_, arg). traverse_input_value traverse arg) (mf_args f))"

fun traverse_type :: "nat \<Rightarrow> (string \<times> meta_type) list \<Rightarrow> string \<Rightarrow> string set step" where
  "traverse_type 0 types type_name used = OutOfFuel"
| "traverse_type (Suc n) types type_name used =
     (if type_name \<in> used then Done used
      else case map_of types type_name of
             None \<Rightarrow> Done used
           | Some ty \<Rightarrow>
               (case ty of
                  MTObject ob \<Rightarrow> for_each (\<lambda>(_, f). traverse_field (traverse_type n types) f) (ob_fields ob)
                | MTInterface i \<Rightarrow>
                    seq (for_each (\<lambda>(_, f). traverse_field (traverse_type n types) f) (in_fields i))
                        (for_each (traverse_type n types) (in_possible_types i))
                | MTUnion u \<Rightarrow> for_each (traverse_type n types) (un_possible_types u)
                | MTInputObject io \<Rightarrow>
                    for_each (\<lambda>(_, f). traverse_input_value (traverse_type n types) f) (io_input_fields io)
                | _ \<Rightarrow> Done) (insert type_name used))"

definition root_types :: "registry \<Rightarrow> string list" where
  "root_types r =
     reg_query_type r # (case reg_mutation_type r of Some m \<Rightarrow> [m] | None \<Rightarrow> []) @
     (case reg_subscription_type r of Some s \<Rightarrow> [s] | None \<Rightarrow> [])"

definition used_types :: "registry \<Rightarrow> string set run" where
  "used_types r =
     (let traverse = traverse_type (search_fuel r) (reg_types r) in
      seq (for_each (\<lambda>(_, d). for_each (\<lambda>(_, arg). traverse_input_value traverse arg) (md_args d)) (reg_directives r))
      (seq (for_each traverse (root_types r))
           (for_each (\<lambda>(_, ty). if keyed ty then traverse (mt_name ty) else Done) (reg_types r))) {})"

definition remove_unused_types :: "registry \<Rightarrow> registry run" where
  "remove_unused_types r =
     run_map (\<lambda>used.
       let unused = filter (\<lambda>n. \<not> is_system_type n \<and> n \<notin> used) (map (\<lambda>(_, ty). mt_name ty) (reg_types r))
       in r\<lparr>reg_types := filter (\<lambda>(n, _). n \<notin> set unused) (reg_types r)\<rparr>) (used_types r)"

subsection \<open>Visible types\<close>

definition is_visible :: "(fn_ptr \<Rightarrow> bool) \<Rightarrow> fn_ptr option \<Rightarrow> bool" where
  "is_visible call visible = (case visible of Some f \<Rightarrow> call f | None \<Rightarrow> True)"

definition visible_input_value ::
  "(fn_ptr \<Rightarrow> bool) \<Rightarrow> (string \<Rightarrow> string set step) \<Rightarrow> meta_input_value \<Rightarrow> string set step" where
  "visible_input_value call traverse input_value vis =
     (if \<not> is_visible call (mi_visible input_value) then Done vis
      else run_bind (concrete_typename (mi_ty input_value)) (\<lambda>n. traverse n vis))"

definition visible_field :: "(fn_ptr \<Rightarrow> bool) \<Rightarrow> (string \<Rightarrow> string set step) \<Rightarrow> meta_field \<Rightarrow> string set step" where
  "visible_field call traverse f vis =
     (if \<not> is_visible call (mf_visible f) then Done vis
      else seq (\<lambda>vis. run_bind (concrete_typename (mf_ty f)) (\<lambda>n. traverse n vis))
             (for_each (\<lambda>(_, arg). visible_input_value call traverse arg) (mf_args f)) vis)"

fun visible_type :: "nat \<Rightarrow> (fn_ptr \<Rightarrow> bool) \<Rightarrow> (string \<times> meta_type) list \<Rightarrow> string \<Rightarrow> string set step" where
  "visible_type 0 call types type_name vis = OutOfFuel"
| "visible_type (Suc n) call types type_name vis =
     (if type_name \<in> vis then Done vis
      else case map_of types type_name of
             None \<Rightarrow> Done vis
           | Some ty \<Rightarrow>
               if \<not> is_visible call (mt_visible ty) then Done vis
               else
                 (case ty of
                    MTObject ob \<Rightarrow> for_each (\<lambda>(_, f). visible_field call (visible_type n call types) f) (ob_fields ob)
                  | MTInterface i \<Rightarrow>
                      seq (for_each (\<lambda>(_, f). visible_field call (visible_type n call types) f) (in_fields i))
                          (for_each (visible_type n call types) (in_possible_types i))
                  | MTUnion u \<Rightarrow> for_each (visible_type n call types) (un_possible_types u)
                  | MTInputObject io \<Rightarrow>
                      for_each (\<lambda>(_, f). visible_input_value call (visible_type n call types) f) (io_input_fields io)
                  | _ \<Rightarrow> Done) (insert type_name vis))"

text \<open>An interface that is not reached is entered when a type that implements it was.\<close>

definition visible_interface ::
  "(fn_ptr \<Rightarrow> bool) \<Rightarrow> (string \<Rightarrow> string set step) \<Rightarrow> meta_type \<Rightarrow> string set step" where
  "visible_interface call traverse ty vis =
     (case ty of
        MTInterface i \<Rightarrow>
          if is_visible call (mt_visible ty) \<and> mt_name ty \<notin> vis \<and> list_ex (\<lambda>n. n \<in> vis) (in_possible_types i)
          then traverse (mt_name ty) vis else Done vis
      | _ \<Rightarrow> Done vis)"

definition find_visible_types :: "(fn_ptr \<Rightarrow> bool) \<Rightarrow> registry \<Rightarrow> string set run" where
  "find_visible_types call r =
     (let traverse = visible_type (search_fuel r) call (reg_types r) in
      run_map (\<lambda>vis. set (filter (\<lambda>n. is_system_type n \<or> n \<in> vis) (map (\<lambda>(_, ty). mt_name ty) (reg_types r))))
       (seq (for_each (\<lambda>(_, d). if is_visible call (md_visible d)
               then for_each (\<lambda>(_, arg). visible_input_value call traverse arg) (md_args d) else Done) (reg_directives r))
        (seq (for_each traverse (root_types r))
        (seq (for_each (\<lambda>(_, ty). if keyed ty then traverse (mt_name ty) else Done) (reg_types r))
             (for_each (\<lambda>(_, ty). visible_interface call traverse ty) (reg_types r)))) {}))"

end
