(* ===== verification/Registry_Closure.thy ===== *)
theory Registry_Closure
  imports Registry_Usage Graph_Search Samples
begin

text \<open>
  The traversals of a registry find what is reachable: the removal of unused types keeps exactly the
  types that the roots of a schema reach, and a request sees only visible types, closed under what their
  visible fields refer to.
\<close>

subsection \<open>A search that marks what it enters\<close>

text \<open>The references of a node are texts that may fail to name one; unknown nodes are not entered.\<close>

locale marking_search =
  fixes search :: "nat \<Rightarrow> 'n \<Rightarrow> 'n set step"
    and known :: "'n \<Rightarrow> bool"
    and succs :: "'n \<Rightarrow> 'n run list"
  assumes search_0: "search 0 x vis = OutOfFuel"
    and search_Suc: "search (Suc n) x vis =
      (if x \<in> vis \<or> \<not> known x then Done vis
       else for_each (\<lambda>r vis. run_bind r (\<lambda>y. search n y vis)) (succs x) (insert x vis))"
    and finite_known: "finite {x. known x}"
    and succs_fuel: "OutOfFuel \<notin> set (succs x)"
begin

definition follow :: "nat \<Rightarrow> 'n run \<Rightarrow> 'n set step" where
  "follow n r vis = run_bind r (\<lambda>y. search n y vis)"

lemma search_step:
  "search (Suc n) x vis =
     (if x \<in> vis \<or> \<not> known x then Done vis else for_each (follow n) (succs x) (insert x vis))"
  by (simp add: search_Suc follow_def [abs_def])

definition edge :: "'n \<Rightarrow> 'n \<Rightarrow> bool" where
  "edge x y \<longleftrightarrow> known x \<and> known y \<and> Done y \<in> set (succs x)"

text \<open>The nodes reached from a list of references.\<close>

definition found :: "'n run list \<Rightarrow> 'n set" where
  "found rs = {z. \<exists>y. Done y \<in> set rs \<and> known y \<and> edge\<^sup>*\<^sup>* y z}"

definition extends :: "'n run list \<Rightarrow> 'n set \<Rightarrow> 'n set \<Rightarrow> bool" where
  "extends rs vis vis' \<longleftrightarrow>
     vis \<subseteq> vis' \<and> vis' \<subseteq> vis \<union> found rs \<and> (\<forall>y. Done y \<in> set rs \<longrightarrow> known y \<longrightarrow> y \<in> vis') \<and>
     (\<forall>y\<in>vis' - vis. \<forall>z. edge y z \<longrightarrow> z \<in> vis')"

lemma found_Nil [simp]: "found [] = {}"
  by (simp add: found_def)

lemma found_append: "found (rs @ ss) = found rs \<union> found ss"
  by (auto simp: found_def)

lemma found_Cons: "found (r # rs) = found [r] \<union> found rs"
  using found_append [of "[r]" rs] by simp

lemma extends_refl: "extends [] vis vis"
  by (simp add: extends_def)

lemma extends_append:
  assumes "extends rs vis m" "extends ss m vis'"
  shows "extends (rs @ ss) vis vis'"
proof -
  have 1: "vis \<subseteq> m" "m \<subseteq> vis \<union> found rs" "\<And>y. Done y \<in> set rs \<Longrightarrow> known y \<Longrightarrow> y \<in> m"
    "\<And>y z. y \<in> m \<Longrightarrow> y \<notin> vis \<Longrightarrow> edge y z \<Longrightarrow> z \<in> m"
    using assms(1) unfolding extends_def by blast+
  have 2: "m \<subseteq> vis'" "vis' \<subseteq> m \<union> found ss" "\<And>y. Done y \<in> set ss \<Longrightarrow> known y \<Longrightarrow> y \<in> vis'"
    "\<And>y z. y \<in> vis' \<Longrightarrow> y \<notin> m \<Longrightarrow> edge y z \<Longrightarrow> z \<in> vis'"
    using assms(2) unfolding extends_def by blast+
  have "z \<in> vis'" if "y \<in> vis'" "y \<notin> vis" "edge y z" for y z
    using 1(4) [of y z] 2(1) 2(4) [of y z] that by blast
  moreover have "y \<in> vis'" if "Done y \<in> set (rs @ ss)" "known y" for y
    using 1(3) 2(1,3) that by auto
  ultimately show ?thesis
    unfolding extends_def found_append using 1(1,2) 2(1,2) by blast
qed

lemma found_known: "z \<in> found rs \<Longrightarrow> known z"
proof -
  assume "z \<in> found rs"
  then obtain y where "known y" "edge\<^sup>*\<^sup>* y z" by (auto simp: found_def)
  from this(2,1) show ?thesis by (induction rule: rtranclp_induct) (auto simp: edge_def)
qed

lemma found_succs: "known x \<Longrightarrow> found (succs x) \<subseteq> found [Done x]"
  by (auto simp: found_def edge_def intro: converse_rtranclp_into_rtranclp)

lemma extends_loop:
  assumes "\<And>r vis vis'. r \<in> set rs \<Longrightarrow> follow n r vis = Done vis' \<Longrightarrow> extends [r] vis vis'"
    and "for_each (follow n) rs vis = Done vis'"
  shows "extends rs vis vis'"
  using assms
proof (induction rs arbitrary: vis)
  case (Cons r rs)
  then obtain m where m: "follow n r vis = Done m" "for_each (follow n) rs m = Done vis'"
    by (auto simp: seq_def run_bind_Done_iff)
  have "extends [r] vis m" "extends rs m vis'"
    using Cons.prems(1) [OF _ m(1)] Cons.IH [OF _ m(2)] Cons.prems(1) by (simp, meson list.set_intros(2))
  then show ?case
    using extends_append by fastforce
qed (simp add: extends_refl)

lemma search_extends: "search n x vis = Done vis' \<Longrightarrow> extends [Done x] vis vis'"
proof (induction n arbitrary: x vis vis')
  case (Suc n)
  show ?case
  proof (cases "x \<in> vis \<or> \<not> known x")
    case True
    then show ?thesis using Suc.prems by (auto simp: search_step extends_def)
  next
    case False
    then have "for_each (follow n) (succs x) (insert x vis) = Done vis'"
      using Suc.prems by (simp add: search_step)
    then have ext: "extends (succs x) (insert x vis) vis'"
    proof (rule extends_loop [rotated])
      fix r vis vis'
      assume "r \<in> set (succs x)" "follow n r vis = Done vis'"
      then show "extends [r] vis vis'"
        using Suc.IH by (auto simp: follow_def run_bind_Done_iff)
    qed
    have "x \<in> found [Done x]"
      using False by (simp add: found_def)
    moreover have "z \<in> vis'" if "edge x z" for z
      using ext that by (auto simp: extends_def edge_def)
    moreover have "insert x vis \<subseteq> vis'" "vis' \<subseteq> insert x vis \<union> found (succs x)"
      "\<And>y z. y \<in> vis' \<Longrightarrow> y \<notin> insert x vis \<Longrightarrow> edge y z \<Longrightarrow> z \<in> vis'"
      using ext unfolding extends_def by blast+
    moreover have "found (succs x) \<subseteq> found [Done x]"
      using False by (intro found_succs) simp
    ultimately show ?thesis
      unfolding extends_def by (intro conjI ballI allI impI) (blast, blast, simp, blast)
  qed
qed (simp add: search_0)

lemma follow_extends: "follow n r vis = Done vis' \<Longrightarrow> extends [r] vis vis'"
  using search_extends by (auto simp: follow_def run_bind_Done_iff)

lemma loop_extends: "for_each (follow n) rs vis = Done vis' \<Longrightarrow> extends rs vis vis'"
  by (rule extends_loop [OF follow_extends])

text \<open>From nothing marked, exactly what is reachable is marked.\<close>

theorem loop_found:
  assumes "for_each (follow n) rs {} = Done vis"
  shows "vis = found rs"
proof
  have ext: "extends rs {} vis"
    by (rule loop_extends [OF assms])
  then show "vis \<subseteq> found rs"
    by (simp add: extends_def)
  show "found rs \<subseteq> vis"
  proof
    fix z assume "z \<in> found rs"
    then obtain y where y: "Done y \<in> set rs" "known y" "edge\<^sup>*\<^sup>* y z"
      by (auto simp: found_def)
    from y(3) show "z \<in> vis"
      by (induction rule: rtranclp_induct) (use ext y(1,2) in \<open>auto simp: extends_def\<close>)
  qed
qed

subsubsection \<open>It returns\<close>

lemma search_fuel_enough: "card ({x. known x} - vis) < n \<Longrightarrow> search n x vis \<noteq> OutOfFuel"
proof (induction n arbitrary: x vis)
  case (Suc n)
  have "for_each (follow n) (succs x) (insert x vis) \<noteq> OutOfFuel" if "x \<notin> vis" "known x"
  proof (rule for_each_fuel [where P = "\<lambda>v. insert x vis \<subseteq> v"])
    fix r v assume "r \<in> set (succs x)" "insert x vis \<subseteq> v"
    then have "card ({x. known x} - v) < card ({x. known x} - vis)"
      using that finite_known by (intro psubset_card_mono) auto
    then have "search n y v \<noteq> OutOfFuel" for y
      using Suc by simp
    then show "follow n r v \<noteq> OutOfFuel"
      using \<open>r \<in> set (succs x)\<close> succs_fuel [of x] by (auto simp: follow_def run_bind_OutOfFuel_iff)
  next
    fix r v v' assume "insert x vis \<subseteq> v" "follow n r v = Done v'"
    then show "insert x vis \<subseteq> v'"
      using follow_extends [of n r v v'] by (auto simp: extends_def)
  qed simp
  then show ?case
    by (simp add: search_step)
qed simp

lemma loop_returns:
  assumes "card {x. known x} < n" "\<And>x r. known x \<Longrightarrow> r \<in> set (succs x) \<Longrightarrow> returns r"
    and "\<And>r. r \<in> set rs \<Longrightarrow> returns r"
  shows "returns (for_each (follow n) rs vis)"
proof -
  have "search m x v \<noteq> Panicked" for m x v
  proof (induction m arbitrary: x v)
    case (Suc m)
    have loop: "for_each (follow m) ys v \<noteq> Panicked" if "\<And>r. r \<in> set ys \<Longrightarrow> returns r" for ys v
      using that
      by (induction ys arbitrary: v) (auto simp: seq_def run_bind_Panicked_iff follow_def Suc.IH returns_iff)
    show ?case
      using assms(2) loop [of "succs x" "insert x v"] by (auto simp: search_step)
  qed (simp add: search_0)
  moreover have "card ({x. known x} - v) < n" for v
    using assms(1) card_mono [OF finite_known, of "{x. known x} - v"] by auto
  ultimately have "returns (search n x v)" for x v
    using search_fuel_enough [of v n x] by (cases "search n x v") auto
  then show ?thesis
    using assms(3)
    by (induction rs arbitrary: vis) (auto simp: seq_def follow_def returns_iff run_bind_Done_iff, metis run_bind.simps(1))
qed

end

subsection \<open>What a type refers to\<close>

definition input_refs :: "(fn_ptr \<Rightarrow> bool) \<Rightarrow> meta_input_value \<Rightarrow> string run list" where
  "input_refs call iv = (if is_visible call (mi_visible iv) then [concrete_typename (mi_ty iv)] else [])"

definition field_refs :: "(fn_ptr \<Rightarrow> bool) \<Rightarrow> meta_field \<Rightarrow> string run list" where
  "field_refs call f =
     (if is_visible call (mf_visible f)
      then concrete_typename (mf_ty f) # concat (map (\<lambda>(_, arg). input_refs call arg) (mf_args f)) else [])"

fun type_refs :: "(fn_ptr \<Rightarrow> bool) \<Rightarrow> meta_type \<Rightarrow> string run list" where
  "type_refs call (MTObject ob) = concat (map (\<lambda>(_, f). field_refs call f) (ob_fields ob))"
| "type_refs call (MTInterface i) =
     concat (map (\<lambda>(_, f). field_refs call f) (in_fields i)) @ map Done (in_possible_types i)"
| "type_refs call (MTUnion u) = map Done (un_possible_types u)"
| "type_refs call (MTInputObject io) = concat (map (\<lambda>(_, f). input_refs call f) (io_input_fields io))"
| "type_refs call _ = []"

definition root_refs :: "(fn_ptr \<Rightarrow> bool) \<Rightarrow> registry \<Rightarrow> string run list" where
  "root_refs call r =
     concat (map (\<lambda>(_, d). if is_visible call (md_visible d)
       then concat (map (\<lambda>(_, arg). input_refs call arg) (md_args d)) else []) (reg_directives r)) @
     map Done (root_types r) @
     concat (map (\<lambda>(_, ty). if keyed ty then [Done (mt_name ty)] else []) (reg_types r))"

definition type_known :: "(fn_ptr \<Rightarrow> bool) \<Rightarrow> (string \<times> meta_type) list \<Rightarrow> string \<Rightarrow> bool" where
  "type_known call types n \<longleftrightarrow> (case map_of types n of Some ty \<Rightarrow> is_visible call (mt_visible ty) | None \<Rightarrow> False)"

definition type_succs :: "(fn_ptr \<Rightarrow> bool) \<Rightarrow> (string \<times> meta_type) list \<Rightarrow> string \<Rightarrow> string run list" where
  "type_succs call types n = (case map_of types n of Some ty \<Rightarrow> type_refs call ty | None \<Rightarrow> [])"

lemma concrete_typename_fuel: "concrete_typename s \<noteq> OutOfFuel"
proof (induction s rule: concrete_typename.induct)
  case (1 s)
  have "mtn_create s \<noteq> OutOfFuel"
    by (auto simp: mtn_create_def strip_brackets_def run_bind_OutOfFuel_iff split: option.splits if_splits)
  then show ?case
    using 1 by (subst concrete_typename.simps) (auto simp: run_bind_OutOfFuel_iff split: meta_type_name.splits)
qed

lemma refs_fuel:
  "OutOfFuel \<notin> set (input_refs call iv)" "OutOfFuel \<notin> set (field_refs call f)" "OutOfFuel \<notin> set (type_refs call ty)"
proof -
  have *: "OutOfFuel \<noteq> concrete_typename s" for s
    using concrete_typename_fuel [of s] by (rule not_sym)
  show 1: "OutOfFuel \<notin> set (input_refs call iv)" for iv by (simp add: input_refs_def *)
  show 2: "OutOfFuel \<notin> set (field_refs call f)" for f using 1 by (auto simp: field_refs_def *)
  show "OutOfFuel \<notin> set (type_refs call ty)" using 1 2 by (cases ty) auto
qed

lemma for_each_single: "for_each g [x] = g x"
  by simp

lemma for_each_fun_cong: "(\<And>x. f x = g x) \<Longrightarrow> for_each f xs = for_each g xs"
  by (induction xs) simp_all

text \<open>The traversals of the code are loops over references.\<close>

lemma visible_input_value_refs:
  "visible_input_value call t iv = for_each (\<lambda>r vis. run_bind r (\<lambda>y. t y vis)) (input_refs call iv)"
  by (rule ext) (simp add: visible_input_value_def input_refs_def seq_def)

lemma visible_field_refs:
  "visible_field call t f = for_each (\<lambda>r vis. run_bind r (\<lambda>y. t y vis)) (field_refs call f)"
  by (rule ext)
    (simp add: visible_field_def field_refs_def for_each_concat visible_input_value_refs case_prod_beta')

lemma visible_type_Suc:
  "visible_type (Suc n) call types x vis =
    (if x \<in> vis \<or> \<not> type_known call types x then Done vis
     else for_each (\<lambda>r vis. run_bind r (\<lambda>y. visible_type n call types y vis)) (type_succs call types x) (insert x vis))"
proof (cases "map_of types x")
  case (Some ty)
  then show ?thesis
    by (cases ty)
      (simp_all add: type_known_def type_succs_def visible_field_refs visible_input_value_refs for_each_concat
        for_each_append for_each_map case_prod_beta')
qed (simp add: type_known_def)

interpretation registry: marking_search "\<lambda>n. visible_type n call types" "type_known call types" "type_succs call types"
  for call types
proof unfold_locales
  have "{x. type_known call types x} \<subseteq> fst ` set types"
    by (auto simp: type_known_def split: option.splits intro: map_of_SomeD [THEN image_eqI [rotated]])
  then show "finite {x. type_known call types x}"
    by (rule finite_subset) simp
  show "OutOfFuel \<notin> set (type_succs call types x)" for x
    by (auto simp: type_succs_def refs_fuel split: option.splits)
qed (simp, rule visible_type_Suc)

text \<open>Without visibility functions the two traversals are the same.\<close>

lemma all_visible [simp]: "is_visible (\<lambda>_. True) v"
  by (simp add: is_visible_def split: option.splits)

lemma traverse_input_value_visible: "traverse_input_value = visible_input_value (\<lambda>_. True)"
  by (intro ext) (simp add: traverse_input_value_def visible_input_value_def)

lemma traverse_field_visible: "traverse_field = visible_field (\<lambda>_. True)"
  by (intro ext) (simp add: traverse_field_def visible_field_def traverse_input_value_visible)

lemma traverse_type_visible: "traverse_type n = visible_type n (\<lambda>_. True)"
proof (induction n)
  case (Suc n)
  then show ?case
    by (intro ext) (simp add: traverse_field_visible traverse_input_value_visible cong: option.case_cong meta_type.case_cong)
qed (intro ext, simp)

subsection \<open>Unused types\<close>

text \<open>What the schema needs: its roots and what they refer to, as far as it is registered.\<close>

inductive needed :: "(fn_ptr \<Rightarrow> bool) \<Rightarrow> registry \<Rightarrow> string \<Rightarrow> bool" for call r where
  needed_root: "Done n \<in> set (root_refs call r) \<Longrightarrow> type_known call (reg_types r) n \<Longrightarrow> needed call r n"
| needed_step: "needed call r m \<Longrightarrow> map_of (reg_types r) m = Some ty \<Longrightarrow> Done n \<in> set (type_refs call ty) \<Longrightarrow>
    type_known call (reg_types r) n \<Longrightarrow> needed call r n"

lemma needed_known: "needed call r n \<Longrightarrow> type_known call (reg_types r) n"
  by (induction rule: needed.induct)

lemma found_needed: "registry.found call (reg_types r) (root_refs call r) = {n. needed call r n}"
proof (intro set_eqI iffI; simp only: mem_Collect_eq)
  fix n assume "n \<in> registry.found call (reg_types r) (root_refs call r)"
  then obtain y where y: "Done y \<in> set (root_refs call r)" "type_known call (reg_types r) y"
    "(registry.edge call (reg_types r))\<^sup>*\<^sup>* y n"
    by (auto simp: registry.found_def)
  from y(3) show "needed call r n"
  proof (induction rule: rtranclp_induct)
    case base
    then show ?case using y(1,2) by (rule needed_root)
  next
    case (step m z)
    then show ?case
      by (cases "map_of (reg_types r) m") (auto simp: registry.edge_def type_succs_def intro: needed_step)
  qed
next
  fix n assume "needed call r n"
  then show "n \<in> registry.found call (reg_types r) (root_refs call r)"
  proof induction
    case (needed_root n)
    then show ?case by (auto simp: registry.found_def)
  next
    case (needed_step m ty n)
    then have "registry.edge call (reg_types r) m n"
      using needed_known [OF needed_step.hyps(1)] by (simp add: registry.edge_def type_succs_def)
    then show ?case
      using needed_step.IH by (auto simp: registry.found_def intro: rtranclp.rtrancl_into_rtrancl)
  qed
qed

text \<open>Every type is registered under its own name, and every type is referred to by a text that names one.\<close>

definition well_named :: "registry \<Rightarrow> bool" where
  "well_named r \<longleftrightarrow> distinct (map fst (reg_types r)) \<and> list_all (\<lambda>(n, ty). mt_name ty = n) (reg_types r)"

definition readable_refs :: "registry \<Rightarrow> bool" where
  "readable_refs r \<longleftrightarrow>
     list_all returns (root_refs (\<lambda>_. True) r) \<and> list_all (\<lambda>(_, ty). list_all returns (type_refs (\<lambda>_. True) ty)) (reg_types r)"

lemma input_refs_visible: "set (input_refs call iv) \<subseteq> set (input_refs (\<lambda>_. True) iv)"
  by (auto simp: input_refs_def)

lemma field_refs_visible: "set (field_refs call f) \<subseteq> set (field_refs (\<lambda>_. True) f)"
  using input_refs_visible [of call] by (fastforce simp: field_refs_def)

lemma type_refs_visible: "set (type_refs call ty) \<subseteq> set (type_refs (\<lambda>_. True) ty)"
  using field_refs_visible [of call] input_refs_visible [of call] by (cases ty) fastforce+

lemma root_refs_visible: "set (root_refs call r) \<subseteq> set (root_refs (\<lambda>_. True) r)"
  using input_refs_visible [of call] by (fastforce simp: root_refs_def split: if_splits)

lemma readable_visible:
  assumes "readable_refs r"
  shows "x \<in> set (root_refs call r) \<Longrightarrow> returns x"
    and "x \<in> set (type_succs call (reg_types r) n) \<Longrightarrow> returns x"
proof -
  show "x \<in> set (root_refs call r) \<Longrightarrow> returns x"
    using assms root_refs_visible [of call r] by (auto simp: readable_refs_def list_all_iff)
  show "returns x" if x: "x \<in> set (type_succs call (reg_types r) n)"
  proof (cases "map_of (reg_types r) n")
    case (Some ty)
    then have "(n, ty) \<in> set (reg_types r)" "x \<in> set (type_refs (\<lambda>_. True) ty)"
      using x type_refs_visible [of call ty] by (auto simp: type_succs_def dest: map_of_SomeD)
    then show ?thesis
      using assms by (auto simp: readable_refs_def list_all_iff)
  qed (use x in \<open>simp add: type_succs_def\<close>)
qed

lemma known_fuel: "card {n. type_known call (reg_types r) n} < search_fuel r"
proof -
  have "{n. type_known call (reg_types r) n} \<subseteq> set (map fst (reg_types r))"
    by (auto simp: type_known_def split: option.splits intro: map_of_SomeD [THEN image_eqI [rotated]])
  then have "card {n. type_known call (reg_types r) n} \<le> card (set (map fst (reg_types r)))"
    by (intro card_mono) simp_all
  then show ?thesis
    using card_length [of "map fst (reg_types r)"] by (simp add: search_fuel_def)
qed

text \<open>The loops over the roots.\<close>

lemma root_loops:
  "seq (for_each (\<lambda>(_, d). if is_visible call (md_visible d)
      then for_each (\<lambda>(_, arg). visible_input_value call t arg) (md_args d) else Done) (reg_directives r))
   (seq (for_each t (root_types r))
     (for_each (\<lambda>(_, ty). if keyed ty then t (mt_name ty) else Done) (reg_types r))) =
   for_each (\<lambda>x vis. run_bind x (\<lambda>y. t y vis)) (root_refs call r)"
proof -
  let ?follow = "\<lambda>x vis. run_bind x (\<lambda>y. t y vis)"
  have "for_each (\<lambda>(_, d). if is_visible call (md_visible d)
      then for_each (\<lambda>(_, arg). visible_input_value call t arg) (md_args d) else Done) ds =
    for_each ?follow (concat (map (\<lambda>(_, d). if is_visible call (md_visible d)
       then concat (map (\<lambda>(_, arg). input_refs call arg) (md_args d)) else []) ds))" for ds :: "(string \<times> meta_directive) list"
    unfolding for_each_concat
    by (rule for_each_fun_cong) (simp add: case_prod_beta' for_each_concat visible_input_value_refs)
  moreover have "for_each (\<lambda>(_, ty). if keyed ty then t (mt_name ty) else Done) tys =
    for_each ?follow (concat (map (\<lambda>(_, ty). if keyed ty then [Done (mt_name ty)] else []) tys))"
    for tys :: "(string \<times> meta_type) list"
    unfolding for_each_concat by (rule for_each_fun_cong) (simp add: case_prod_beta')
  ultimately show ?thesis
    by (simp only: root_refs_def for_each_append for_each_map run_bind.simps)
qed

lemma roots_found:
  assumes "readable_refs r"
  shows "for_each (\<lambda>x vis. run_bind x (\<lambda>y. visible_type (search_fuel r) call (reg_types r) y vis)) (root_refs call r) {} =
    Done {n. needed call r n}"
proof -
  let ?loop = "for_each (registry.follow call (reg_types r) (search_fuel r)) (root_refs call r) {}"
  have "returns ?loop"
    using readable_visible [OF assms, where call = call] known_fuel [of call r]
    by (intro registry.loop_returns) auto
  then obtain vis where "?loop = Done vis"
    by (auto simp: returns_iff)
  then show ?thesis
    using registry.loop_found [of call "reg_types r" "search_fuel r" "root_refs call r" vis] found_needed [of call r]
    by (simp add: registry.follow_def [abs_def])
qed

lemma used_types_needed: "readable_refs r \<Longrightarrow> used_types r = Done {n. needed (\<lambda>_. True) r n}"
  using roots_found [of r "\<lambda>_. True"] root_loops [where call = "\<lambda>_. True" and r = r]
  by (simp add: used_types_def Let_def traverse_type_visible traverse_input_value_visible)

lemma well_named_names: "well_named r \<Longrightarrow> (n, ty) \<in> set (reg_types r) \<Longrightarrow> mt_name ty = n"
  by (auto simp: well_named_def list_all_iff)

lemma well_named_map: "well_named r \<Longrightarrow> map (\<lambda>(_, ty). mt_name ty) (reg_types r) = map fst (reg_types r)"
  by (auto simp: well_named_def list_all_iff)

text \<open>C24: Removing the unused types of a schema always returns, and keeps, in their order, exactly the system
  types and the types that its roots need: the root types, the types of directive arguments and the
  entities of a federation, and whatever a field, an argument, an input field or a possible type of a needed
  type refers to.\<close>

theorem remove_unused_types_exact:
  assumes "well_named r" "readable_refs r"
  shows "remove_unused_types r =
    Done (r\<lparr>reg_types := filter (\<lambda>(n, _). is_system_type n \<or> needed (\<lambda>_. True) r n) (reg_types r)\<rparr>)"
proof -
  have "filter (\<lambda>(n, _). n \<notin> set (filter (\<lambda>n. \<not> is_system_type n \<and> \<not> needed (\<lambda>_. True) r n) (map fst (reg_types r)))) (reg_types r) =
    filter (\<lambda>(n, _). is_system_type n \<or> needed (\<lambda>_. True) r n) (reg_types r)"
    by (intro filter_cong refl) force
  then show ?thesis
    by (simp only: remove_unused_types_def used_types_needed [OF assms(2)] well_named_map [OF assms(1)]
        run_map_simps Let_def mem_Collect_eq)
qed

text \<open>A type that nothing needs is removed.\<close>

definition idle_registry :: registry where
  "idle_registry = sample_registry\<lparr>reg_types := (''Idle'', sample_object ''Idle'' []) # reg_types sample_registry\<rparr>"

lemma idle_readable: "well_named idle_registry" "readable_refs idle_registry"
  by (simp_all add: well_named_def readable_refs_def root_refs_def root_types_def input_refs_def field_refs_def idle_registry_def
      sample_defs meta_field_new_def meta_input_value_new_def keyed_def concrete_typename.simps
      mtn_create_def strip_suffix_def strip_brackets_def)

theorem remove_unused_types_exact_witness:
  "remove_unused_types idle_registry =
     Done (idle_registry\<lparr>reg_types := filter (\<lambda>(n, _). is_system_type n \<or> needed (\<lambda>_. True) idle_registry n)
       (reg_types idle_registry)\<rparr>)"
  by (rule remove_unused_types_exact [OF idle_readable])

subsection \<open>Visible types\<close>

lemma for_each_establishes:
  assumes "\<And>x st. x \<in> set xs \<Longrightarrow> P st \<Longrightarrow> \<exists>st'. f x st = Done st' \<and> P st'" "P st"
  shows "\<exists>st'. for_each f xs st = Done st' \<and> P st'"
  using assms
proof (induction xs arbitrary: st)
  case (Cons x xs)
  then obtain m where "f x st = Done m" "P m" by (meson list.set_intros(1))
  then show ?case
    using Cons by (simp add: seq_def)
qed simp

text \<open>A set of types that a request may see: visible ones, closed under their visible references.\<close>

definition visible_closed :: "(fn_ptr \<Rightarrow> bool) \<Rightarrow> registry \<Rightarrow> string set \<Rightarrow> bool" where
  "visible_closed call r V \<longleftrightarrow>
     (\<forall>n\<in>V. type_known call (reg_types r) n) \<and>
     (\<forall>m\<in>V. \<forall>n. Done n \<in> set (type_succs call (reg_types r) m) \<longrightarrow> type_known call (reg_types r) n \<longrightarrow> n \<in> V)"

lemma needed_closed: "visible_closed call r {n. needed call r n}"
proof -
  have "needed call r n" if "needed call r m" "Done n \<in> set (type_succs call (reg_types r) m)"
    "type_known call (reg_types r) n" for m n
    using that by (cases "map_of (reg_types r) m") (auto simp: type_succs_def intro: needed_step)
  then show ?thesis
    by (auto simp: visible_closed_def dest: needed_known)
qed

lemma visible_type_closed:
  assumes "readable_refs r" "visible_closed call r V"
  obtains V' where "visible_type (search_fuel r) call (reg_types r) x V = Done V'" "V \<subseteq> V'" "visible_closed call r V'"
    "type_known call (reg_types r) x \<Longrightarrow> x \<in> V'"
proof -
  have "returns (for_each (registry.follow call (reg_types r) (search_fuel r)) [Done x] V)"
    using readable_visible(2) [OF assms(1), where call = call] known_fuel [of call r]
    by (intro registry.loop_returns) auto
  then obtain V' where V': "visible_type (search_fuel r) call (reg_types r) x V = Done V'"
    by (auto simp: returns_iff registry.follow_def)
  have ext: "V \<subseteq> V'" "V' \<subseteq> V \<union> registry.found call (reg_types r) [Done x]"
    "type_known call (reg_types r) x \<Longrightarrow> x \<in> V'"
    "\<And>m n. m \<in> V' \<Longrightarrow> m \<notin> V \<Longrightarrow> registry.edge call (reg_types r) m n \<Longrightarrow> n \<in> V'"
    using registry.search_extends [OF V'] unfolding registry.extends_def by simp_all
  have old: "\<And>n. n \<in> V \<Longrightarrow> type_known call (reg_types r) n"
    "\<And>m n. m \<in> V \<Longrightarrow> Done n \<in> set (type_succs call (reg_types r) m) \<Longrightarrow> type_known call (reg_types r) n \<Longrightarrow> n \<in> V"
    using assms(2) unfolding visible_closed_def by blast+
  have known: "type_known call (reg_types r) n" if "n \<in> V'" for n
  proof (cases "n \<in> V")
    case True
    then show ?thesis by (rule old(1))
  next
    case False
    then show ?thesis using ext(2) that registry.found_known by blast
  qed
  have closed: "n \<in> V'" if "m \<in> V'" "Done n \<in> set (type_succs call (reg_types r) m)" "type_known call (reg_types r) n" for m n
  proof (cases "m \<in> V")
    case True
    then show ?thesis using ext(1) old(2) [OF _ that(2,3)] by blast
  next
    case False
    then show ?thesis
      using ext(4) [OF that(1) False] known [OF that(1)] that(2,3) by (simp add: registry.edge_def)
  qed
  have kept: "visible_closed call r V'"
    unfolding visible_closed_def using known closed by blast
  show thesis
    by (rule that [OF V' ext(1) kept ext(3)])
qed

text \<open>The last pass enters interfaces; it keeps the set closed.\<close>

lemma interfaces_closed:
  assumes "readable_refs r"
  shows "\<exists>V. for_each (\<lambda>(_, ty). visible_interface call (visible_type (search_fuel r) call (reg_types r)) ty)
      (reg_types r) {n. needed call r n} = Done V \<and> {n. needed call r n} \<subseteq> V \<and> visible_closed call r V"
proof (rule for_each_establishes)
  fix x V
  assume V: "{n. needed call r n} \<subseteq> V \<and> visible_closed call r V"
  obtain V' where "visible_type (search_fuel r) call (reg_types r) (mt_name (snd x)) V = Done V'" "V \<subseteq> V'"
    "visible_closed call r V'"
    using visible_type_closed [OF assms] V by blast
  then show "\<exists>V'. (case x of (_, ty) \<Rightarrow> visible_interface call (visible_type (search_fuel r) call (reg_types r)) ty) V = Done V' \<and>
      {n. needed call r n} \<subseteq> V' \<and> visible_closed call r V'"
    using V by (auto simp: visible_interface_def case_prod_beta' split: meta_type.splits)
qed (use needed_closed in blast)



end
