(* ===== verification/Registry_Register.thy ===== *)
theory Registry_Register
  imports Registry_Closure
begin

text \<open>
  Registering types: a registry keeps every type under its own name while types are described that
  refer to themselves and to each other, and a registered type has the kind that was asked for.
\<close>

subsection \<open>Maps that are changed in place\<close>

lemma values_mut_keys: "values_mut f m = Done m' \<Longrightarrow> map fst m' = map fst m"
  by (induction m arbitrary: m') (auto simp: run_bind_Done_iff run_map_Done)

lemma values_mut_values:
  "values_mut f m = Done m' \<Longrightarrow> (k, v') \<in> set m' \<Longrightarrow> \<exists>v. (k, v) \<in> set m \<and> f v = Done v'"
  by (induction m arbitrary: m') (auto simp: run_bind_Done_iff run_map_Done, blast+)

lemma rename_keeps_name:
  "rename_input_type_references_in_type old new ty = Done ty' \<Longrightarrow> mt_name ty' = mt_name ty \<and> type_id ty' = type_id ty"
  by (cases ty) (auto simp: run_map_Done)

lemma set_name_name [simp]: "mt_name (set_name n ty) = n" "type_id (set_name n ty) = type_id ty"
  by (cases ty; simp)+

lemma fake_type_id [simp]: "type_id (create_fake_type tid rust_typename) = tid"
  by (cases tid) simp_all

subsection \<open>Names\<close>

text \<open>Every type is under its own name, but for the ones that are being described.\<close>

definition named_but :: "string set \<Rightarrow> registry \<Rightarrow> bool" where
  "named_but pending r \<longleftrightarrow>
     distinct (map fst (reg_types r)) \<and> (\<forall>(n, ty)\<in>set (reg_types r). n \<in> pending \<or> mt_name ty = n)"

lemma named_but_empty: "named_but {} r \<longleftrightarrow> well_named r"
  by (simp add: named_but_def well_named_def list_all_iff)

lemma set_alist_insert_distinct:
  "distinct (map fst m) \<Longrightarrow> set (alist_insert k v m) = insert (k, v) {(k', v'). (k', v') \<in> set m \<and> k' \<noteq> k}"
  by (induction k v m rule: alist_insert.induct) (auto simp: rev_image_eqI)

lemma insert_type_named:
  assumes "named_but (insert n pending) r" "n \<in> pending \<or> mt_name ty = n"
  shows "named_but pending (insert_type n ty r)"
  using assms
  by (auto simp: named_but_def insert_type_def distinct_alist_insert set_alist_insert_distinct)

lemma insert_type_named': "named_but pending r \<Longrightarrow> named_but (insert n pending) (insert_type n ty r)"
  by (auto simp: named_but_def insert_type_def distinct_alist_insert set_alist_insert_distinct)

lemma named_but_mono: "named_but P r \<Longrightarrow> P \<subseteq> Q \<Longrightarrow> named_but Q r"
  by (auto simp: named_but_def)

lemma references_named:
  assumes "rename_input_type_references old new r = Done r'" "named_but pending r"
  shows "named_but pending r' \<and> map fst (reg_types r') = map fst (reg_types r)"
proof -
  obtain types where types: "values_mut (rename_input_type_references_in_type old new) (reg_types r) = Done types"
    "reg_types r' = types"
    using assms(1) by (auto simp: rename_input_type_references_def run_bind_Done_iff run_map_Done)
  then show ?thesis
    using assms(2) values_mut_keys [OF types(1)] values_mut_values [OF types(1)] rename_keeps_name
    unfolding named_but_def types(2) by (fastforce split: prod.splits)
qed

lemma rename_conflicting_named:
  assumes "rename_conflicting_input_object n r = Done (n', r')" "named_but pending r"
  shows "named_but pending r' \<and> \<not> contains_key (reg_types r) n'"
proof -
  let ?name = "unused_input_object_name r n"
  obtain ty ty' r'' where ty: "map_of (reg_types r) n = Some ty"
    "rename_input_type_references_in_type n ?name (set_name ?name ty) = Done ty'"
    "rename_input_type_references n ?name (r\<lparr>reg_types := alist_remove n (reg_types r)\<rparr>) = Done r''"
    "n' = ?name" "r' = insert_type ?name ty' r''"
    using assms(1)
    by (auto simp: rename_conflicting_input_object_def Let_def run_bind_Done_iff run_map_Done insert_type_def
        split: option.splits)
  have "named_but pending (r\<lparr>reg_types := alist_remove n (reg_types r)\<rparr>)"
    using assms(2) by (auto simp: named_but_def alist_remove_def distinct_map_filter)
  then have "named_but pending r''"
    using references_named [OF ty(3)] by simp
  moreover have "mt_name ty' = ?name"
    using rename_keeps_name [OF ty(2)] by simp
  ultimately show ?thesis
    unfolding ty(4,5) by (auto intro!: insert_type_named named_but_mono [of pending r'' "insert ?name pending"] simp: unused_name_free)
qed

text \<open>What the description of a type may do to the registry: register other types, never take away a
  type that is being described; and it has the kind it was announced with.\<close>

definition describes :: "meta_type_id \<Rightarrow> type_info \<Rightarrow> bool" where
  "describes tid f \<longleftrightarrow>
     (\<forall>pending r ty r'. named_but pending r \<longrightarrow> pending \<subseteq> fst ` set (reg_types r) \<longrightarrow> f r = Done (ty, r') \<longrightarrow>
        named_but pending r' \<and> pending \<subseteq> fst ` set (reg_types r') \<and> type_id ty = tid)"

lemma keys_insert_type: "fst ` set (reg_types (insert_type n ty r)) = insert n (fst ` set (reg_types r))"
  by (simp add: insert_type_def fst_alist_insert)

lemma describe_type_named:
  assumes "describe_type f adjust n rust_typename tid r = Done (n', r')"
    and "named_but pending r" "pending \<subseteq> fst ` set (reg_types r)" "describes tid f"
    and "\<And>ty ty'. adjust ty = Done ty' \<Longrightarrow> mt_name ty' = mt_name ty \<and> type_id ty' = type_id ty"
  shows "n' = n \<and> named_but pending r' \<and> pending \<subseteq> fst ` set (reg_types r') \<and>
    (\<exists>ty. map_of (reg_types r') n = Some ty \<and> type_id ty = tid)"
proof -
  obtain ty s ty' where f: "f (insert_type n (create_fake_type tid rust_typename) r) = Done (ty, s)"
    "adjust (set_name n ty) = Done ty'" "replace_type n ty' s = Done r'" "n' = n"
    using assms(1) by (auto simp: describe_type_def run_bind_Done_iff run_map_Done)
  have s: "named_but (insert n pending) s \<and> insert n pending \<subseteq> fst ` set (reg_types s) \<and> type_id ty = tid"
    using assms(4) f(1) insert_type_named' [OF assms(2)] assms(3) unfolding describes_def
    by (metis insert_mono keys_insert_type)
  have ty': "mt_name ty' = n \<and> type_id ty' = tid"
    using assms(5) [OF f(2)] s by simp
  have r': "r' = insert_type n ty' s"
    using f(3) by (auto simp: replace_type_def split: if_splits)
  have "named_but pending r'"
    unfolding r' using s ty' by (intro insert_type_named) auto
  then show ?thesis
    using s ty' f(4) by (auto simp: r' keys_insert_type) (auto simp: insert_type_def)
qed

text \<open>The outcomes of \<open>create_type\<close> for a name that is taken.\<close>

lemma create_type_taken:
  assumes "create_type f n rust_typename tid r = Done (n', r')" "map_of (reg_types r) n = Some ty"
  obtains "n' = n" "r' = r" "type_id ty = tid \<or> mt_rust_typename ty = None \<or> mt_rust_typename ty = Some ''__fake_type__''"
    | m s where "tid = IdObject" "type_id ty = IdInputObject" "rename_conflicting_input_object n r = Done (m, s)"
        "describe_type f Done n rust_typename tid s = Done (n', r')"
    | "tid = IdInputObject" "registered_input_object_name r rust_typename = Some n'" "r' = r"
    | "tid = IdInputObject" "describe_type f (rename_input_type_references_in_type n (unused_input_object_name r n))
        (unused_input_object_name r n) rust_typename tid r = Done (n', r')"
proof (cases "type_id ty = tid \<or> mt_rust_typename ty = None \<or> mt_rust_typename ty = Some ''__fake_type__''")
  case True
  then have "n' = n" "r' = r"
    using assms by (auto simp: create_type_def split: if_splits option.splits)
  then show thesis using True that(1) by blast
next
  case False
  then obtain prev where prev: "mt_rust_typename ty = Some prev" "prev \<noteq> ''__fake_type__''" "type_id ty \<noteq> tid"
    by auto
  consider "type_id ty = IdInputObject" "tid = IdObject" | "type_id ty = IdObject" "tid = IdInputObject"
    | "\<not> (type_id ty = IdInputObject \<and> tid = IdObject)" "\<not> (type_id ty = IdObject \<and> tid = IdInputObject)"
    by blast
  then show thesis
  proof cases
    case 1
    then show thesis
      using assms prev that(2)
      by (auto simp: create_type_def run_bind_Done_iff split: if_splits)
  next
    case 2
    then show thesis
      using assms prev that(3,4)
      by (cases "registered_input_object_name r rust_typename") (auto simp: create_type_def Let_def split: if_splits)
  next
    case 3
    then have "(case (type_id ty, tid) of
        (IdInputObject, IdObject) \<Rightarrow> x | (IdObject, IdInputObject) \<Rightarrow> y | _ \<Rightarrow> Panicked) = Panicked" for x y :: "(string \<times> registry) run"
      by (cases "type_id ty"; cases tid) simp_all
    then show thesis
      using assms prev by (simp add: create_type_def split: if_splits)
  qed
qed

lemma registered_input_object:
  assumes "registered_input_object_name r rust_typename = Some n" "distinct (map fst (reg_types r))"
  obtains ty where "map_of (reg_types r) n = Some ty" "type_id ty = IdInputObject"
  using assms by (auto simp: registered_input_object_name_def find_Some_iff dest!: nth_mem)

lemma rename_conflicting_keys:
  assumes "rename_conflicting_input_object n r = Done (n', r')" "named_but pending r" "m \<in> fst ` set (reg_types r)" "m \<noteq> n"
  shows "m \<in> fst ` set (reg_types r')"
proof -
  obtain ty' r'' where ty: "rename_input_type_references n n' (r\<lparr>reg_types := alist_remove n (reg_types r)\<rparr>) = Done r''"
    "r' = insert_type n' ty' r''"
    using assms(1)
    by (auto simp: rename_conflicting_input_object_def Let_def run_bind_Done_iff run_map_Done insert_type_def
        split: option.splits)
  have "named_but pending (r\<lparr>reg_types := alist_remove n (reg_types r)\<rparr>)"
    using assms(2) by (auto simp: named_but_def alist_remove_def distinct_map_filter)
  from references_named [OF ty(1) this] have "fst ` set (reg_types r'') = fst ` set (alist_remove n (reg_types r))"
    by (metis list.set_map registry.select_convs(1) registry.surjective registry.update_convs(1))
  then show ?thesis
    using assms(3,4) by (auto simp: ty(2) keys_insert_type alist_remove_def)
qed


text \<open>A type without fields, and a taken name it is renamed for.\<close>

lemma describes_plain: "describes (type_id ty) (\<lambda>r. Done (ty, r))"
  by (auto simp: describes_def)


text \<open>A scalar carries no Rust type, so a second type of its name is not registered, and no conflict shows.\<close>

lemma scalar_hides_type:
  assumes "map_of (reg_types r) n = Some (MTScalar i)"
  shows "create_type f n rust_typename IdObject r = Done (n, r)"
  using assms by (simp add: create_type_def)

subsection \<open>The object types of an interface\<close>

text \<open>The object types below a list of possible types, through nested interfaces.\<close>

inductive possible_object :: "registry \<Rightarrow> string list \<Rightarrow> string \<Rightarrow> bool" for r where
  possible_here: "t \<in> set ts \<Longrightarrow> map_of (reg_types r) t = Some (MTObject ob) \<Longrightarrow> possible_object r ts (ob_name ob)"
| possible_below: "t \<in> set ts \<Longrightarrow> map_of (reg_types r) t = Some (MTInterface i) \<Longrightarrow>
    possible_object r (in_possible_types i) n \<Longrightarrow> possible_object r ts n"

inductive_simps possible_object_Nil [simp]: "possible_object r [] n"

lemma possible_object_mono: "possible_object r ts n \<Longrightarrow> set ts \<subseteq> set us \<Longrightarrow> possible_object r us n"
  by (induction rule: possible_object.induct) (auto intro: possible_object.intros)

text \<open>A set of entered interfaces that covers a list without meeting the object type.\<close>

definition covered :: "registry \<Rightarrow> string \<Rightarrow> string list \<Rightarrow> string set \<Rightarrow> bool" where
  "covered r type_name ts V \<longleftrightarrow>
     (\<forall>t\<in>set ts. case map_of (reg_types r) t of
        Some (MTObject ob) \<Rightarrow> ob_name ob \<noteq> type_name
      | Some (MTInterface i) \<Rightarrow> in_name i \<in> V
      | _ \<Rightarrow> True)"

definition entered :: "registry \<Rightarrow> string \<Rightarrow> string set \<Rightarrow> string set \<Rightarrow> bool" where
  "entered r type_name V V' \<longleftrightarrow>
     V \<subseteq> V' \<and> (\<forall>m\<in>V' - V. \<exists>i. map_of (reg_types r) m = Some (MTInterface i) \<and> covered r type_name (in_possible_types i) V')"

lemma covered_mono: "covered r n ts V \<Longrightarrow> V \<subseteq> V' \<Longrightarrow> covered r n ts V'"
  by (auto simp: covered_def split: option.splits meta_type.splits)

lemma covered_Cons:
  "covered r n (t # ts) V \<longleftrightarrow> covered r n [t] V \<and> covered r n ts V"
  by (auto simp: covered_def)

lemma entered_trans: "entered r n U V \<Longrightarrow> entered r n V W \<Longrightarrow> entered r n U W"
  unfolding entered_def using covered_mono by (metis Diff_iff subset_trans)

lemma entered_refl: "entered r n V V"
  by (simp add: entered_def)

lemma entered_insert:
  "map_of (reg_types r) t = Some (MTInterface i) \<Longrightarrow> covered r n (in_possible_types i) V' \<Longrightarrow>
     entered r n (insert t V) V' \<Longrightarrow> entered r n V V'"
  unfolding entered_def by blast

text \<open>One possible type.\<close>

definition contains_item :: "nat \<Rightarrow> registry \<Rightarrow> string \<Rightarrow> string \<Rightarrow> string set \<Rightarrow> (bool \<times> string set) run" where
  "contains_item n r type_name possible_type visited =
     (case map_of (reg_types r) possible_type of
         Some (MTObject ob) \<Rightarrow> Done (ob_name ob = type_name, visited)
       | Some (MTInterface i) \<Rightarrow>
           if in_name i \<in> visited then Done (False, visited)
           else contains_entity_interface_possible_type n r type_name (in_possible_types i) (insert (in_name i) visited)
       | _ \<Rightarrow> Done (False, visited))"

lemma contains_Suc:
  "contains_entity_interface_possible_type (Suc n) r type_name ts V = any_step (contains_item n r type_name) ts V"
  by (simp add: contains_item_def [abs_def])

definition answers :: "registry \<Rightarrow> string \<Rightarrow> string list \<Rightarrow> string set \<Rightarrow> bool \<Rightarrow> string set \<Rightarrow> bool" where
  "answers r type_name ts V b V' \<longleftrightarrow>
     (if b then possible_object r ts type_name else entered r type_name V V' \<and> covered r type_name ts V')"

lemma any_step_answers:
  assumes "\<And>t V b V'. t \<in> set ts \<Longrightarrow> f t V = Done (b, V') \<Longrightarrow> answers r tn [t] V b V'"
    and "any_step f ts V = Done (b, V')"
  shows "answers r tn ts V b V'"
  using assms
proof (induction ts arbitrary: V)
  case Nil
  then show ?case by (simp add: answers_def covered_def entered_refl)
next
  case (Cons t ts)
  from Cons.prems(2) obtain c W where f: "f t V = Done (c, W)"
    "if c then b \<and> V' = W else any_step f ts W = Done (b, V')"
    by (auto simp: run_bind_Done_iff split: if_splits)
  have first: "answers r tn [t] V c W"
    using Cons.prems(1) [OF _ f(1)] by simp
  show ?case
  proof (cases c)
    case True
    then show ?thesis
      using first f(2) possible_object_mono [of r "[t]" tn "t # ts"] by (simp add: answers_def)
  next
    case False
    then have "answers r tn ts W b V'"
      using Cons.IH [of W] Cons.prems(1) f(2) by (metis list.set_intros(2))
    then show ?thesis
      using first False possible_object_mono [of r ts tn "t # ts"] entered_trans [of r tn V W V'] covered_mono [of r tn "[t]" W V']
      by (auto simp: answers_def covered_Cons [of r tn t ts] entered_def [of r tn W V'] split: if_splits)
  qed
qed

lemma contains_answers:
  assumes "well_named r"
  shows "contains_entity_interface_possible_type n r tn ts V = Done (b, V') \<Longrightarrow> answers r tn ts V b V'"
proof (induction n arbitrary: ts V b V')
  case (Suc n)
  show ?case
  proof (rule any_step_answers [OF _ Suc.prems [unfolded contains_Suc]])
    fix t V b V'
    assume item: "contains_item n r tn t V = Done (b, V')"
    show "answers r tn [t] V b V'"
    proof (cases "\<exists>i. map_of (reg_types r) t = Some (MTInterface i)")
      case True
      then obtain i where i: "map_of (reg_types r) t = Some (MTInterface i)" by blast
      have name: "in_name i = t"
        using well_named_names [OF assms map_of_SomeD [OF i]] by simp
      show ?thesis
      proof (cases "t \<in> V")
        case True
        then show ?thesis
          using item i name by (simp add: contains_item_def answers_def covered_def entered_refl)
      next
        case False
        then have "answers r tn (in_possible_types i) (insert t V) b V'"
          using item i name Suc.IH by (simp add: contains_item_def)
        then show ?thesis
          using i name entered_insert [OF i, of tn V' V]
          by (cases b) (auto simp: answers_def covered_def [of r tn "[t]"] entered_def [of r tn "insert t V"] intro: possible_below)
      qed
    next
      case False
      then show ?thesis
        using item
        by (auto simp: contains_item_def answers_def covered_def entered_refl
            split: option.splits meta_type.splits intro: possible_here)
    qed
  qed
qed simp

lemma covered_impossible:
  assumes "possible_object r ts n" "covered r n ts V" "entered r n {} V" "well_named r"
  shows False
  using assms(1-3)
proof (induction rule: possible_object.induct)
  case (possible_here t ts ob)
  then show ?case by (auto simp: covered_def)
next
  case (possible_below t ts i n)
  have "in_name i = t"
    using well_named_names [OF assms(4) map_of_SomeD [OF possible_below.hyps(2)]] by simp
  then have "covered r n (in_possible_types i) V"
    using possible_below.hyps(1,2) possible_below.prems by (force simp: covered_def [of r n ts] entered_def)
  then show ?case using possible_below.prems(2) by (rule possible_below.IH)
qed

text \<open>The fuel is enough.\<close>

lemma any_step_fuel:
  assumes "\<And>t V. t \<in> set ts \<Longrightarrow> P V \<Longrightarrow> f t V \<noteq> OutOfFuel"
    and "\<And>t V b V'. t \<in> set ts \<Longrightarrow> P V \<Longrightarrow> f t V = Done (b, V') \<Longrightarrow> P V'" "P V"
  shows "any_step f ts V \<noteq> OutOfFuel"
  using assms
proof (induction ts arbitrary: V)
  case (Cons t ts)
  have "any_step f ts V' \<noteq> OutOfFuel" if "f t V = Done (b, V')" for b V'
    using Cons.IH [of V'] Cons.prems that by (meson list.set_intros)
  then show ?case
    using Cons.prems(1) [of t V] Cons.prems(3) by (auto simp: run_bind_OutOfFuel_iff)
qed simp

lemma any_step_mono:
  assumes "\<And>t V b V'. f t V = Done (b, V') \<Longrightarrow> V \<subseteq> V'"
  shows "any_step f ts V = Done (b, V') \<Longrightarrow> V \<subseteq> V'"
proof (induction ts arbitrary: V)
  case (Cons t ts)
  from Cons.prems obtain c W where f: "f t V = Done (c, W)"
    "if c then V' = W else any_step f ts W = Done (b, V')"
    by (auto simp: run_bind_Done_iff split: if_splits)
  then show ?case
    using assms [OF f(1)] Cons.IH [of W] by (auto split: if_splits)
qed simp

lemma contains_mono: "contains_entity_interface_possible_type n r tn ts V = Done (b, V') \<Longrightarrow> V \<subseteq> V'"
proof (induction n arbitrary: ts V b V')
  case (Suc n)
  have "V \<subseteq> V'" if "contains_item n r tn t V = Done (b, V')" for t V b V'
    using that Suc.IH by (fastforce simp: contains_item_def split: option.splits meta_type.splits if_splits)
  then show ?case
    using Suc.prems unfolding contains_Suc by (rule any_step_mono)
qed simp

definition interface_names :: "registry \<Rightarrow> string set" where
  "interface_names r = {n. \<exists>i. map_of (reg_types r) n = Some (MTInterface i)}"

lemma finite_interface_names: "finite (interface_names r)" "card (interface_names r) \<le> length (reg_types r)"
proof -
  have sub: "interface_names r \<subseteq> set (map fst (reg_types r))"
    by (auto simp: interface_names_def intro: map_of_SomeD [THEN image_eqI [rotated]])
  then show "finite (interface_names r)" by (rule finite_subset) simp
  have "card (interface_names r) \<le> card (set (map fst (reg_types r)))"
    using sub by (intro card_mono) simp_all
  then show "card (interface_names r) \<le> length (reg_types r)"
    using card_length [of "map fst (reg_types r)"] by simp
qed

lemma contains_fuel:
  assumes "well_named r"
  shows "card (interface_names r - V) < n \<Longrightarrow> contains_entity_interface_possible_type n r tn ts V \<noteq> OutOfFuel"
proof (induction n arbitrary: ts V)
  case (Suc n)
  show ?case
    unfolding contains_Suc
  proof (rule any_step_fuel [where P = "\<lambda>W. V \<subseteq> W"])
    fix t W assume "V \<subseteq> W"
    have "contains_entity_interface_possible_type n r tn us (insert (in_name i) W) \<noteq> OutOfFuel"
      if "map_of (reg_types r) t = Some (MTInterface i)" "in_name i \<notin> W" for i us
    proof (rule Suc.IH)
      have "in_name i \<in> interface_names r"
        using that well_named_names [OF assms map_of_SomeD [OF that(1)]] by (auto simp: interface_names_def)
      then have "card (interface_names r - insert (in_name i) W) < card (interface_names r - V)"
        using that(2) \<open>V \<subseteq> W\<close> finite_interface_names(1) by (intro psubset_card_mono) auto
      then show "card (interface_names r - insert (in_name i) W) < n"
        using Suc.prems by simp
    qed
    then show "contains_item n r tn t W \<noteq> OutOfFuel"
      by (auto simp: contains_item_def split: option.splits meta_type.splits)
  next
    fix t W b W' assume "V \<subseteq> W" "contains_item n r tn t W = Done (b, W')"
    then show "V \<subseteq> W'"
      by (fastforce simp: contains_item_def dest: contains_mono split: option.splits meta_type.splits if_splits)
  qed simp
qed simp

lemma any_step_panics: "(\<And>t V. f t V \<noteq> Panicked) \<Longrightarrow> any_step f ts V \<noteq> Panicked"
  by (induction ts arbitrary: V) (auto simp: run_bind_Panicked_iff)

lemma contains_no_panic: "contains_entity_interface_possible_type n r tn ts V \<noteq> Panicked"
proof (induction n arbitrary: ts V)
  case (Suc n)
  then show ?case
    unfolding contains_Suc
    by (intro any_step_panics) (auto simp: contains_item_def split: option.splits meta_type.splits)
qed simp

text \<open>C29: Asking whether an object type is a possible type of an interface always answers, and answers
  exactly whether it is found below the interface through nested interfaces, cyclic ones included.\<close>

theorem is_interface_possible_type_exact:
  assumes "well_named r" "map_of (reg_types r) interface_name = Some (MTInterface i)"
  shows "is_interface_possible_type r interface_name type_name = Done (possible_object r (in_possible_types i) type_name)"
proof -
  have "contains_entity_interface_possible_type (search_fuel r) r type_name (in_possible_types i) {} \<noteq> OutOfFuel"
    using finite_interface_names(2) [of r] by (intro contains_fuel assms) (simp add: search_fuel_def less_Suc_eq_le)
  then obtain b V where bV: "contains_entity_interface_possible_type (search_fuel r) r type_name (in_possible_types i) {} = Done (b, V)"
    using contains_no_panic [of "search_fuel r" r type_name "in_possible_types i" "{}"]
    by (cases "contains_entity_interface_possible_type (search_fuel r) r type_name (in_possible_types i) {}") auto
  have "b = possible_object r (in_possible_types i) type_name"
    using contains_answers [OF assms(1) bV] covered_impossible [OF _ _ _ assms(1)]
    by (auto simp: answers_def split: if_splits)
  then show ?thesis
    using bV assms(2) by (simp add: is_interface_possible_type_def)
qed

text \<open>\<open>A\<close> and \<open>B\<close> are possible types of each other, and \<open>User\<close> is one of \<open>B\<close>.\<close>

definition sample_interface :: "string \<Rightarrow> string list \<Rightarrow> meta_type" where
  "sample_interface n ts = MTInterface
     \<lparr>in_name = n, in_description = None, in_fields = [], in_possible_types = ts, in_extends = False, in_keys = None,
      in_visible = None, in_inaccessible = False, in_tags = [], in_rust_typename = None,
      in_directive_invocations = [], in_requires_scopes = []\<rparr>"

definition interface_registry :: registry where
  "interface_registry = sample_registry
     \<lparr>reg_types := [(''A'', sample_interface ''A'' [''B'']), (''B'', sample_interface ''B'' [''A'', ''User'']),
        (''User'', sample_object ''User'' [])]\<rparr>"

theorem is_interface_possible_type_exact_witness:
  "is_interface_possible_type interface_registry ''A'' ''User'' =
     Done (possible_object interface_registry [''B''] ''User'')"
  using is_interface_possible_type_exact [of interface_registry "''A''" _ "''User''"]
  by (simp add: interface_registry_def well_named_def sample_interface_def sample_object_def)

end
