(* ===== verification/Parse_Text.thy ===== *)
theory Parse_Text
  imports Values
begin

text \<open>
  The text of string literals (\<open>parser/src/parse/utils.rs\<close>): escapes and block strings, on the UTF-8
  bytes of the source.
\<close>

subsection \<open>Escapes\<close>

text \<open>\<open>char::to_digit(16)\<close>, \<open>char::from_u32\<close> and the encoding of a code point.\<close>

definition hex_digit :: "char \<Rightarrow> nat option" where
  "hex_digit c =
     (let n = of_char c in
      if 48 \<le> n \<and> n \<le> 57 then Some (n - 48)
      else if 97 \<le> n \<and> n \<le> 102 then Some (n - 87)
      else if 65 \<le> n \<and> n \<le> 70 then Some (n - 55)
      else None)"

definition utf8_encode :: "nat \<Rightarrow> string" where
  "utf8_encode code =
     (if code < 128 then [char_of code]
      else if code < 2048 then [char_of (192 + code div 64), char_of (128 + code mod 64)]
      else [char_of (224 + code div 4096), char_of (128 + code div 64 mod 64), char_of (128 + code mod 64)])"

definition is_surrogate :: "nat \<Rightarrow> bool" where
  "is_surrogate code \<longleftrightarrow> 0xD800 \<le> code \<and> code \<le> 0xDFFF"

fun hex_value :: "string \<Rightarrow> nat option" where
  "hex_value [a, b, c, d] =
     (case (hex_digit a, hex_digit b, hex_digit c, hex_digit d) of
        (Some x, Some y, Some z, Some w) \<Rightarrow> Some (((x * 16 + y) * 16 + z) * 16 + w)
      | _ \<Rightarrow> None)"
| "hex_value _ = None"

definition simple_escape :: "char \<Rightarrow> char option" where
  "simple_escape c =
     (if c \<in> {CHR 0x22, CHR 0x5C, CHR ''/''} then Some c
      else if c = CHR ''b'' then Some (CHR 0x08)
      else if c = CHR ''f'' then Some (CHR 0x0C)
      else if c = CHR ''n'' then Some (CHR 0x0A)
      else if c = CHR ''r'' then Some (CHR 0x0D)
      else if c = CHR ''t'' then Some (CHR 0x09)
      else None)"

function string_value :: "string \<Rightarrow> string run" where
  "string_value s =
     (case s of
        [] \<Rightarrow> Done []
      | c # rest \<Rightarrow>
          if c \<noteq> CHR 0x5C then run_map (Cons c) (string_value rest)
          else (case rest of
                  [] \<Rightarrow> Panicked
                | e # rest' \<Rightarrow>
                    (case simple_escape e of
                       Some c' \<Rightarrow> run_map (Cons c') (string_value rest')
                     | None \<Rightarrow>
                         if e \<noteq> CHR ''u'' then Panicked
                         else (case hex_value (take 4 rest') of
                                 None \<Rightarrow> Panicked
                               | Some code \<Rightarrow>
                                   if is_surrogate code then Panicked
                                   else run_map (\<lambda>t. utf8_encode code @ t) (string_value (drop 4 rest'))))))"
  by pat_completeness auto
termination
  by (relation "measure length") auto

declare string_value.simps [simp del]

lemma string_value_plain: "c \<noteq> CHR 0x5C \<Longrightarrow> string_value (c # s) = run_map (Cons c) (string_value s)"
  by (simp add: string_value.simps [of "c # s"])

lemma string_value_simple:
  "simple_escape e = Some c \<Longrightarrow> string_value (CHR 0x5C # e # s) = run_map (Cons c) (string_value s)"
  by (simp add: string_value.simps [of "CHR 0x5C # e # s"])

lemma string_value_unicode:
  "hex_value [a, b, c, d] = Some code \<Longrightarrow> \<not> is_surrogate code \<Longrightarrow>
     string_value (CHR 0x5C # CHR ''u'' # a # b # c # d # s) = run_map (\<lambda>t. utf8_encode code @ t) (string_value s)"
  by (simp add: string_value.simps [of "CHR 0x5C # CHR ''u'' # a # b # c # d # s"] simple_escape_def)

subsection \<open>Block strings\<close>

fun split_crlf :: "string \<Rightarrow> string list" where
  "split_crlf [] = [[]]"
| "split_crlf [c] = [[c]]"
| "split_crlf (c # d # s) =
     (if c = CHR 0x0D \<and> d = CHR 0x0A then [] # split_crlf s
      else case split_crlf (d # s) of l # ls \<Rightarrow> (c # l) # ls | [] \<Rightarrow> [])"

fun split_chars :: "(char \<Rightarrow> bool) \<Rightarrow> string \<Rightarrow> string list" where
  "split_chars P [] = [[]]"
| "split_chars P (c # s) =
     (if P c then [] # split_chars P s
      else case split_chars P s of l # ls \<Rightarrow> (c # l) # ls | [] \<Rightarrow> [])"

definition source_lines :: "string \<Rightarrow> string list" where
  "source_lines raw = concat (map (split_chars (\<lambda>c. c = CHR 0x0D \<or> c = CHR 0x0A)) (split_crlf raw))"

definition is_blank :: "char \<Rightarrow> bool" where
  "is_blank c \<longleftrightarrow> c = CHR 0x09 \<or> c = CHR 0x20"

definition line_has_content :: "string \<Rightarrow> bool" where
  "line_has_content l \<longleftrightarrow> list_ex (\<lambda>c. \<not> is_blank c) l"

definition line_indent :: "string \<Rightarrow> nat" where
  "line_indent l = length (takeWhile is_blank l)"

definition common_indent :: "string list \<Rightarrow> nat" where
  "common_indent ls =
     (case map line_indent (filter line_has_content (tl ls)) of [] \<Rightarrow> 0 | i # is \<Rightarrow> fold min is i)"

text \<open>The slice of a line from a byte on panics inside a character.\<close>

definition slice_from :: "nat \<Rightarrow> string \<Rightarrow> string run" where
  "slice_from k l =
     (if length l < k \<or> (k < length l \<and> is_continuation (l ! k)) then Panicked else Done (drop k l))"

fun block_lines :: "nat \<Rightarrow> (nat \<times> string) list \<Rightarrow> string list run" where
  "block_lines indent [] = Done []"
| "block_lines indent ((i, l) # ls) =
     run_bind (if i \<noteq> 0 \<and> indent \<le> length l then slice_from indent l else Done l) (\<lambda>l'.
     run_map (Cons l') (block_lines indent ls))"

definition block_string_value :: "string \<Rightarrow> string run" where
  "block_string_value raw =
     (let ls = source_lines raw;
          first_contentful_line = length (takeWhile (\<lambda>l. \<not> line_has_content l) ls);
          ending_lines_start = length ls - length (takeWhile (\<lambda>l. \<not> line_has_content l) (rev ls))
      in run_map (join [CHR 0x0A])
           (block_lines (common_indent ls) (drop first_contentful_line (take ending_lines_start (enumerate 0 ls)))))"

end
