(* ===== verification/Parse_Tree.thy ===== *)
theory Parse_Tree
  imports Ast Parse_Text
begin

text \<open>
  From the tree of the generated parser to a document (\<open>parser/src/parse\<close>). The parser that \<open>pest\<close>
  generates from the grammar is an argument: it gives an error or pairs, a pair being the match of a
  rule with the text it matched, where it starts in the source, and the pairs inside it. So is the
  reading of a number, which is \<open>serde_json\<close>'s. The model is the one of a release build, without the
  debug assertions on the rules.
\<close>

subsection \<open>Pairs and positions\<close>

datatype rule =
    R_EOI | R_executable_document | R_executable_definition | R_operation_definition
  | R_named_operation_definition | R_variable_definitions | R_variable_definition | R_selection_set
  | R_selection | R_field | R_alias | R_fragment_spread | R_inline_fragment | R_fragment_definition
  | R_type_condition | R_operation_type | R_default_value | R_type | R_const_value | R_value
  | R_variable | R_number | R_string | R_block_string_content | R_string_content | R_boolean | R_null
  | R_enum_value | R_const_list | R_list | R_const_object | R_object | R_const_object_field
  | R_object_field | R_const_directives | R_directives | R_const_directive | R_directive
  | R_const_arguments | R_arguments | R_const_argument | R_argument | R_name
  | R_service_document | R_type_system_definition | R_schema_definition | R_operation_type_definition
  | R_type_definition | R_scalar_type | R_object_type | R_implements_interfaces | R_interface_type
  | R_fields_definition | R_field_definition | R_union_type | R_union_member_types | R_enum_type
  | R_enum_values | R_enum_value_definition | R_input_object_type | R_input_fields_definition | R_extend
  | R_directive_definition | R_repeatable | R_directive_locations | R_directive_location
  | R_arguments_definition | R_input_value_definition

datatype pair = Pair (as_rule: rule) (as_str: string) (span_start: nat) (into_inner: "pair list")

lemma size_inner: "q \<in> set (into_inner p) \<Longrightarrow> size q < size p"
  by (cases p) (auto dest: size_list_estimation' [where f = size, OF _ order_refl])

datatype parse_error =
    SyntaxError string src_pos "src_pos option"
  | MultipleRoots operation_type src_pos src_pos
  | MissingQueryRoot src_pos
  | MultipleOperations src_pos src_pos
  | OperationDuplicated name src_pos src_pos
  | FragmentDuplicated name src_pos src_pos
  | MissingOperation
  | RecursionLimitExceeded

fun error_positions :: "parse_error \<Rightarrow> src_pos list" where
  "error_positions (SyntaxError _ start end_pos) = start # (case end_pos of Some e \<Rightarrow> [e] | None \<Rightarrow> [])"
| "error_positions (MultipleRoots _ schema at) = [at, schema]"
| "error_positions (MissingQueryRoot at) = [at]"
| "error_positions (MultipleOperations anonymous operation) = [anonymous, operation]"
| "error_positions (OperationDuplicated _ first second) = [second, first]"
| "error_positions (FragmentDuplicated _ first second) = [second, first]"
| "error_positions MissingOperation = []"
| "error_positions RecursionLimitExceeded = []"

fun show_parse_error :: "parse_error \<Rightarrow> string" where
  "show_parse_error (SyntaxError message _ _) = message"
| "show_parse_error (MissingQueryRoot _) = ''schema definition is missing query root''"
| "show_parse_error (MultipleRoots root _ _) = ''multiple '' @ show_operation_type root @ '' roots in schema definition''"
| "show_parse_error (MultipleOperations _ _) = ''document contains multiple operations''"
| "show_parse_error (OperationDuplicated operation _ _) = ''operation '' @ operation @ '' is defined twice''"
| "show_parse_error (FragmentDuplicated fragment _ _) = ''fragment '' @ fragment @ '' is defined twice''"
| "show_parse_error MissingOperation = ''document does not contain an operation''"
| "show_parse_error RecursionLimitExceeded = ''recursion limit exceeded.''"

record position_calculator =
  pc_input :: string
  pc_pos :: nat
  pc_line :: nat
  pc_column :: nat

definition position_calculator_new :: "string \<Rightarrow> position_calculator" where
  "position_calculator_new input = \<lparr>pc_input = input, pc_pos = 0, pc_line = 1, pc_column = 1\<rparr>"

text \<open>The loop over the characters of a slice: a continuation byte begins none.\<close>

fun count_chars :: "string \<Rightarrow> nat \<Rightarrow> nat \<Rightarrow> nat \<times> nat" where
  "count_chars [] l c = (l, c)"
| "count_chars (ch # s) l c =
     (if ch = CHR 0x0D then count_chars s l 1
      else if ch = CHR 0x0A then count_chars s (l + 1) 1
      else if is_continuation ch then count_chars s l c
      else count_chars s l (c + 1))"

type_synonym 'a parser = "position_calculator \<Rightarrow> (parse_error + 'a \<times> position_calculator) run"

text \<open>A position before the current one, beyond the end or inside a character makes the slice panic.\<close>

definition pc_step :: "pair \<Rightarrow> src_pos parser" where
  "pc_step p = (\<lambda>pc.
     let bytes_to_read = span_start p - pc_pos pc in
     if span_start p < pc_pos pc \<or> length (pc_input pc) < bytes_to_read \<or>
        (bytes_to_read < length (pc_input pc) \<and> is_continuation (pc_input pc ! bytes_to_read)) then Panicked
     else
       let (l, c) = count_chars (take bytes_to_read (pc_input pc)) (pc_line pc) (pc_column pc) in
       Done (Inr (Pos l c,
         \<lparr>pc_input = drop bytes_to_read (pc_input pc), pc_pos = span_start p, pc_line = l, pc_column = c\<rparr>)))"

subsection \<open>Combinators\<close>

definition p_return :: "'a \<Rightarrow> 'a parser" where
  "p_return x = (\<lambda>pc. Done (Inr (x, pc)))"

definition p_fail :: "parse_error \<Rightarrow> 'a parser" where
  "p_fail e = (\<lambda>_. Done (Inl e))"

definition p_panic :: "'a parser" where
  "p_panic = (\<lambda>_. Panicked)"

definition p_bind :: "'a parser \<Rightarrow> ('a \<Rightarrow> 'b parser) \<Rightarrow> 'b parser" where
  "p_bind m k = (\<lambda>pc. run_bind (m pc) (\<lambda>r. case r of Inl e \<Rightarrow> Done (Inl e) | Inr (x, pc') \<Rightarrow> k x pc'))"

definition p_map :: "('a \<Rightarrow> 'b) \<Rightarrow> 'a parser \<Rightarrow> 'b parser" where
  "p_map f m = p_bind m (\<lambda>x. p_return (f x))"

definition p_run :: "'a run \<Rightarrow> 'a parser" where
  "p_run r = (\<lambda>pc. run_map (\<lambda>x. Inr (x, pc)) r)"

fun p_each :: "('a \<Rightarrow> 'b parser) \<Rightarrow> 'a list \<Rightarrow> 'b list parser" where
  "p_each f [] = p_return []"
| "p_each f (x # xs) = p_bind (f x) (\<lambda>y. p_map (Cons y) (p_each f xs))"

lemma p_bind_cong [fundef_cong]: "m = m' \<Longrightarrow> (\<And>x. k x = k' x) \<Longrightarrow> p_bind m k = p_bind m' k'"
proof -
  assume "m = m'" "\<And>x. k x = k' x"
  then have "k = k'" by (intro ext) simp
  then show ?thesis using \<open>m = m'\<close> by simp
qed

lemma p_each_cong [fundef_cong]:
  "xs = ys \<Longrightarrow> (\<And>x. x \<in> set ys \<Longrightarrow> f x = g x) \<Longrightarrow> p_each f xs = p_each g ys"
  by (induction ys arbitrary: xs) simp_all

text \<open>\<open>parse_if_rule\<close> on the pairs that are left, \<open>exactly_one\<close> and \<open>pairs.next().unwrap()\<close>.\<close>

definition next_if_rule :: "rule \<Rightarrow> pair list \<Rightarrow> pair option \<times> pair list" where
  "next_if_rule r pairs =
     (case pairs of
        q # qs \<Rightarrow> if as_rule q = r then (Some q, qs) else (None, pairs)
      | [] \<Rightarrow> (None, pairs))"

definition parse_if_rule :: "rule \<Rightarrow> (pair \<Rightarrow> 'a parser) \<Rightarrow> pair list \<Rightarrow> ('a option \<times> pair list) parser" where
  "parse_if_rule r f pairs =
     (case next_if_rule r pairs of
        (Some q, rest) \<Rightarrow> p_map (\<lambda>x. (Some x, rest)) (f q)
      | (None, rest) \<Rightarrow> p_return (None, rest))"

definition exactly_one :: "pair list \<Rightarrow> (pair \<Rightarrow> 'a parser) \<Rightarrow> 'a parser" where
  "exactly_one pairs f = (case pairs of q # _ \<Rightarrow> f q | [] \<Rightarrow> p_panic)"

definition next_pair :: "pair list \<Rightarrow> (pair \<Rightarrow> pair list \<Rightarrow> 'a parser) \<Rightarrow> 'a parser" where
  "next_pair pairs f = (case pairs of q # qs \<Rightarrow> f q qs | [] \<Rightarrow> p_panic)"

lemma exactly_one_cong [fundef_cong]:
  "ps = qs \<Longrightarrow> (\<And>q. q \<in> set qs \<Longrightarrow> f q = g q) \<Longrightarrow> exactly_one ps f = exactly_one qs g"
  by (auto simp: exactly_one_def split: list.splits)

lemma next_pair_cong [fundef_cong]:
  "ps = qs \<Longrightarrow> (\<And>q rest. q \<in> set qs \<Longrightarrow> set rest \<subseteq> set qs \<Longrightarrow> f q rest = g q rest) \<Longrightarrow> next_pair ps f = next_pair qs g"
  by (cases qs) (auto simp: next_pair_def)

subsection \<open>Values\<close>

definition parse_name :: "pair \<Rightarrow> name positioned parser" where
  "parse_name p = p_map (\<lambda>at. Positioned at (as_str p)) (pc_step p)"

definition parse_variable :: "pair \<Rightarrow> name positioned parser" where
  "parse_variable p = exactly_one (into_inner p) parse_name"

definition parse_enum_value :: "pair \<Rightarrow> name positioned parser" where
  "parse_enum_value p = exactly_one (into_inner p) parse_name"

definition parse_number :: "(string \<Rightarrow> string + number) \<Rightarrow> pair \<Rightarrow> number positioned parser" where
  "parse_number read p = p_bind (pc_step p) (\<lambda>at.
     case read (as_str p) of
       Inr n \<Rightarrow> p_return (Positioned at n)
     | Inl err \<Rightarrow> p_fail (SyntaxError (''invalid number: '' @ err) at None))"

definition parse_string :: "pair \<Rightarrow> string positioned parser" where
  "parse_string p = p_bind (pc_step p) (\<lambda>at.
     exactly_one (into_inner p) (\<lambda>q.
       p_map (Positioned at)
         (case as_rule q of
            R_block_string_content \<Rightarrow> p_run (block_string_value (as_str q))
          | R_string_content \<Rightarrow> p_run (string_value (as_str q))
          | _ \<Rightarrow> p_panic)))"

definition parse_boolean :: "pair \<Rightarrow> bool positioned parser" where
  "parse_boolean p = p_bind (pc_step p) (\<lambda>at.
     if as_str p = ''true'' then p_return (Positioned at True)
     else if as_str p = ''false'' then p_return (Positioned at False)
     else p_panic)"

text \<open>Collecting into an \<open>IndexMap\<close>: a later value of a name replaces an earlier one.\<close>

definition index_map :: "('k \<times> 'v) list \<Rightarrow> ('k \<times> 'v) list" where
  "index_map kvs = fold (\<lambda>(k, v). alist_insert k v) kvs []"

function parse_const_value :: "(string \<Rightarrow> string + number) \<Rightarrow> pair \<Rightarrow> const_value positioned parser" where
  "parse_const_value read p = p_bind (pc_step p) (\<lambda>at.
     exactly_one (into_inner p) (\<lambda>q.
       p_map (Positioned at)
         (case as_rule q of
            R_number \<Rightarrow> p_map (CNumber \<circ> node) (parse_number read q)
          | R_string \<Rightarrow> p_map (CString \<circ> node) (parse_string q)
          | R_boolean \<Rightarrow> p_map (CBoolean \<circ> node) (parse_boolean q)
          | R_null \<Rightarrow> p_return CNull
          | R_enum_value \<Rightarrow> p_map (CEnum \<circ> node) (parse_enum_value q)
          | R_const_list \<Rightarrow> p_map (CList \<circ> map node) (p_each (parse_const_value read) (into_inner q))
          | R_const_object \<Rightarrow> p_map (CObject \<circ> index_map)
              (p_each (\<lambda>entry. next_pair (into_inner entry) (\<lambda>n rest. p_bind (parse_name n) (\<lambda>k.
                 next_pair rest (\<lambda>v _. p_map (\<lambda>c. (node k, node c)) (parse_const_value read v))))) (into_inner q))
          | _ \<Rightarrow> p_panic)))"
  by pat_completeness auto
termination
  by (relation "measure (\<lambda>(read, p). size p)") (auto dest!: size_inner subsetD)

function parse_value :: "(string \<Rightarrow> string + number) \<Rightarrow> pair \<Rightarrow> gvalue positioned parser" where
  "parse_value read p = p_bind (pc_step p) (\<lambda>at.
     exactly_one (into_inner p) (\<lambda>q.
       p_map (Positioned at)
         (case as_rule q of
            R_variable \<Rightarrow> p_map (VVariable \<circ> node) (parse_variable q)
          | R_number \<Rightarrow> p_map (VNumber \<circ> node) (parse_number read q)
          | R_string \<Rightarrow> p_map (VString \<circ> node) (parse_string q)
          | R_boolean \<Rightarrow> p_map (VBoolean \<circ> node) (parse_boolean q)
          | R_null \<Rightarrow> p_return VNull
          | R_enum_value \<Rightarrow> p_map (VEnum \<circ> node) (parse_enum_value q)
          | R_list \<Rightarrow> p_map (VList \<circ> map node) (p_each (parse_value read) (into_inner q))
          | R_object \<Rightarrow> p_map (VObject \<circ> index_map)
              (p_each (\<lambda>entry. next_pair (into_inner entry) (\<lambda>n rest. p_bind (parse_name n) (\<lambda>k.
                 next_pair rest (\<lambda>v _. p_map (\<lambda>c. (node k, node c)) (parse_value read v))))) (into_inner q))
          | _ \<Rightarrow> p_panic)))"
  by pat_completeness auto
termination
  by (relation "measure (\<lambda>(read, p). size p)") (auto dest!: size_inner subsetD)

declare parse_const_value.simps [simp del] parse_value.simps [simp del]

definition parse_default_value :: "(string \<Rightarrow> string + number) \<Rightarrow> pair \<Rightarrow> const_value positioned parser" where
  "parse_default_value read p = exactly_one (into_inner p) (parse_const_value read)"

subsection \<open>Directives and types\<close>

definition parse_operation_type :: "pair \<Rightarrow> operation_type positioned parser" where
  "parse_operation_type p = p_bind (pc_step p) (\<lambda>at.
     if as_str p = ''query'' then p_return (Positioned at Query)
     else if as_str p = ''mutation'' then p_return (Positioned at Mutation)
     else if as_str p = ''subscription'' then p_return (Positioned at Subscription)
     else p_panic)"

definition parse_type :: "pair \<Rightarrow> gtype positioned parser" where
  "parse_type p =
     (case type_new (as_str p) of
        None \<Rightarrow> p_panic
      | Some ty \<Rightarrow> p_map (\<lambda>at. Positioned at ty) (pc_step p))"

definition parse_arguments :: "(string \<Rightarrow> string + number) \<Rightarrow> pair \<Rightarrow> arguments parser" where
  "parse_arguments read p = p_each (\<lambda>arg. next_pair (into_inner arg) (\<lambda>n rest. p_bind (parse_name n) (\<lambda>k.
     next_pair rest (\<lambda>v _. p_map (\<lambda>c. (k, c)) (parse_value read v))))) (into_inner p)"

definition parse_const_arguments :: "(string \<Rightarrow> string + number) \<Rightarrow> pair \<Rightarrow> const_arguments parser" where
  "parse_const_arguments read p = p_each (\<lambda>arg. next_pair (into_inner arg) (\<lambda>n rest. p_bind (parse_name n) (\<lambda>k.
     next_pair rest (\<lambda>v _. p_map (\<lambda>c. (k, c)) (parse_const_value read v))))) (into_inner p)"

definition or_default :: "'a list option \<Rightarrow> 'a list" where
  "or_default r = (case r of Some x \<Rightarrow> x | None \<Rightarrow> [])"

definition parse_directive :: "(string \<Rightarrow> string + number) \<Rightarrow> pair \<Rightarrow> directive positioned parser" where
  "parse_directive read p = p_bind (pc_step p) (\<lambda>at.
     next_pair (into_inner p) (\<lambda>n rest. p_bind (parse_name n) (\<lambda>nm.
       p_bind (parse_if_rule R_arguments (parse_arguments read) rest) (\<lambda>(args, _).
         p_return (Positioned at \<lparr>dir_name = nm, dir_arguments = or_default args\<rparr>)))))"

definition parse_const_directive ::
  "(string \<Rightarrow> string + number) \<Rightarrow> pair \<Rightarrow> const_directive positioned parser"
where
  "parse_const_directive read p = p_bind (pc_step p) (\<lambda>at.
     next_pair (into_inner p) (\<lambda>n rest. p_bind (parse_name n) (\<lambda>nm.
       p_bind (parse_if_rule R_const_arguments (parse_const_arguments read) rest) (\<lambda>(args, _).
         p_return (Positioned at \<lparr>cdir_name = nm, cdir_arguments = or_default args\<rparr>)))))"

definition parse_directives :: "(string \<Rightarrow> string + number) \<Rightarrow> pair \<Rightarrow> directive positioned list parser" where
  "parse_directives read p = p_each (parse_directive read) (into_inner p)"

definition parse_const_directives ::
  "(string \<Rightarrow> string + number) \<Rightarrow> pair \<Rightarrow> const_directive positioned list parser"
where
  "parse_const_directives read p = p_each (parse_const_directive read) (into_inner p)"

definition parse_opt_directives ::
  "(string \<Rightarrow> string + number) \<Rightarrow> pair list \<Rightarrow> (directive positioned list \<times> pair list) parser"
where
  "parse_opt_directives read pairs = p_map (\<lambda>(ds, rest). (or_default ds, rest))
     (parse_if_rule R_directives (parse_directives read) pairs)"

definition parse_opt_const_directives ::
  "(string \<Rightarrow> string + number) \<Rightarrow> pair list \<Rightarrow> (const_directive positioned list \<times> pair list) parser"
where
  "parse_opt_const_directives read pairs = p_map (\<lambda>(ds, rest). (or_default ds, rest))
     (parse_if_rule R_const_directives (parse_const_directives read) pairs)"

subsection \<open>Selections\<close>

definition parse_type_condition :: "pair \<Rightarrow> type_condition positioned parser" where
  "parse_type_condition p = p_bind (pc_step p) (\<lambda>at.
     exactly_one (into_inner p) (\<lambda>q.
       p_map (\<lambda>n. Positioned at \<lparr>tc_on = n\<rparr>) (parse_name q)))"

definition parse_alias :: "pair \<Rightarrow> name positioned parser" where
  "parse_alias p = exactly_one (into_inner p) parse_name"

definition parse_fragment_spread ::
  "(string \<Rightarrow> string + number) \<Rightarrow> pair \<Rightarrow> fragment_spread positioned parser"
where
  "parse_fragment_spread read p = p_bind (pc_step p) (\<lambda>at.
     next_pair (into_inner p) (\<lambda>n rest. p_bind (parse_name n) (\<lambda>nm.
       p_bind (parse_opt_directives read rest) (\<lambda>(ds, _).
         p_return (Positioned at \<lparr>fs_fragment_name = nm, fs_directives = ds\<rparr>)))))"

text \<open>
  The parsers of a selection take the parser of a nested selection set as an argument: the recursion
  limit decides which one it is, so that the recursion is on the depth that remains.
\<close>

definition parse_field ::
  "(string \<Rightarrow> string + number) \<Rightarrow> (pair \<Rightarrow> selection_set positioned parser) \<Rightarrow>
   pair \<Rightarrow> field positioned parser"
where
  "parse_field read nested p = p_bind (pc_step p) (\<lambda>at.
     p_bind (parse_if_rule R_alias parse_alias (into_inner p)) (\<lambda>(alias, pairs).
     next_pair pairs (\<lambda>n pairs. p_bind (parse_name n) (\<lambda>nm.
     p_bind (parse_if_rule R_arguments (parse_arguments read) pairs) (\<lambda>(args, pairs).
     p_bind (parse_opt_directives read pairs) (\<lambda>(ds, pairs).
     p_bind (parse_if_rule R_selection_set nested pairs) (\<lambda>(ss, _).
       p_return (Positioned at (Fld alias nm (or_default args) ds
         (case ss of Some x \<Rightarrow> x | None \<Rightarrow> Positioned default_pos (SelSet [])))))))))))"

definition parse_inline_fragment ::
  "(string \<Rightarrow> string + number) \<Rightarrow> (pair \<Rightarrow> selection_set positioned parser) \<Rightarrow>
   pair \<Rightarrow> inline_fragment positioned parser"
where
  "parse_inline_fragment read nested p = p_bind (pc_step p) (\<lambda>at.
     p_bind (parse_if_rule R_type_condition parse_type_condition (into_inner p)) (\<lambda>(tc, pairs).
     p_bind (parse_opt_directives read pairs) (\<lambda>(ds, pairs).
     next_pair pairs (\<lambda>q _. p_map (\<lambda>ss. Positioned at (InlineFrag tc ds ss)) (nested q)))))"

definition parse_selection ::
  "(string \<Rightarrow> string + number) \<Rightarrow> (pair \<Rightarrow> selection_set positioned parser) \<Rightarrow>
   pair \<Rightarrow> selection positioned parser"
where
  "parse_selection read nested p = p_bind (pc_step p) (\<lambda>at.
     exactly_one (into_inner p) (\<lambda>q.
       p_map (Positioned at)
         (case as_rule q of
            R_field \<Rightarrow> p_map SelField (parse_field read nested q)
          | R_fragment_spread \<Rightarrow> p_map SelSpread (parse_fragment_spread read q)
          | R_inline_fragment \<Rightarrow> p_map SelInline (parse_inline_fragment read nested q)
          | _ \<Rightarrow> p_panic)))"

fun recursion_depth :: "nat \<Rightarrow> (nat \<Rightarrow> pair \<Rightarrow> 'a parser) \<Rightarrow> pair \<Rightarrow> 'a parser" where
  "recursion_depth 0 _ = (\<lambda>_. p_fail RecursionLimitExceeded)"
| "recursion_depth (Suc d) f = f d"

lemma recursion_depth_cong [fundef_cong]:
  "d = d' \<Longrightarrow> (\<And>e. d' = Suc e \<Longrightarrow> f e = g e) \<Longrightarrow> recursion_depth d f = recursion_depth d' g"
  by (cases d') auto

fun parse_selection_set ::
  "(string \<Rightarrow> string + number) \<Rightarrow> nat \<Rightarrow> pair \<Rightarrow> selection_set positioned parser"
where
  "parse_selection_set read remaining p = p_bind (pc_step p) (\<lambda>at.
     p_map (\<lambda>sels. Positioned at (SelSet sels))
       (p_each (parse_selection read (recursion_depth remaining (parse_selection_set read)))
         (into_inner p)))"

declare parse_selection_set.simps [simp del]

subsection \<open>Definitions\<close>

definition MAX_RECURSION_DEPTH :: nat where
  "MAX_RECURSION_DEPTH = 64"

definition parse_variable_definition ::
  "(string \<Rightarrow> string + number) \<Rightarrow> pair \<Rightarrow> variable_definition positioned parser"
where
  "parse_variable_definition read p = p_bind (pc_step p) (\<lambda>at.
     next_pair (into_inner p) (\<lambda>n pairs. p_bind (parse_variable n) (\<lambda>nm.
     next_pair pairs (\<lambda>t pairs. p_bind (parse_type t) (\<lambda>ty.
     p_bind (parse_opt_directives read pairs) (\<lambda>(ds, pairs).
     p_bind (parse_if_rule R_default_value (parse_default_value read) pairs) (\<lambda>(dv, _).
       p_return (Positioned at
         \<lparr>vd_name = nm, vd_type = ty, vd_directives = ds, vd_default_value = dv\<rparr>))))))))"

definition parse_variable_definitions ::
  "(string \<Rightarrow> string + number) \<Rightarrow> pair \<Rightarrow> variable_definition positioned list parser"
where
  "parse_variable_definitions read p = p_each (parse_variable_definition read) (into_inner p)"

record operation_definition_item =
  odi_name :: "name positioned option"
  odi_definition :: operation_definition

record fragment_definition_item =
  fdi_name :: "name positioned"
  fdi_definition :: fragment_definition

datatype definition_item =
    ItemOperation "operation_definition_item positioned"
  | ItemFragment "fragment_definition_item positioned"

definition parse_named_operation_definition ::
  "(string \<Rightarrow> string + number) \<Rightarrow> pair \<Rightarrow> operation_definition_item parser"
where
  "parse_named_operation_definition read p =
     next_pair (into_inner p) (\<lambda>t pairs. p_bind (parse_operation_type t) (\<lambda>ty.
     p_bind (parse_if_rule R_name parse_name pairs) (\<lambda>(nm, pairs).
     p_bind (parse_if_rule R_variable_definitions (parse_variable_definitions read) pairs) (\<lambda>(vds, pairs).
     p_bind (parse_opt_directives read pairs) (\<lambda>(ds, pairs).
     next_pair pairs (\<lambda>q _. p_map (\<lambda>ss.
       \<lparr>odi_name = nm, odi_definition =
          \<lparr>od_ty = node ty, od_variable_definitions = or_default vds,
           od_directives = ds, od_selection_set = ss\<rparr>\<rparr>)
       (parse_selection_set read MAX_RECURSION_DEPTH q)))))))"

definition parse_operation_definition_item ::
  "(string \<Rightarrow> string + number) \<Rightarrow> pair \<Rightarrow> operation_definition_item positioned parser"
where
  "parse_operation_definition_item read p = p_bind (pc_step p) (\<lambda>at.
     exactly_one (into_inner p) (\<lambda>q.
       p_map (Positioned at)
         (case as_rule q of
            R_named_operation_definition \<Rightarrow> parse_named_operation_definition read q
          | R_selection_set \<Rightarrow> p_map (\<lambda>ss.
              \<lparr>odi_name = None, odi_definition =
                 \<lparr>od_ty = Query, od_variable_definitions = [], od_directives = [],
                  od_selection_set = ss\<rparr>\<rparr>) (parse_selection_set read MAX_RECURSION_DEPTH q)
          | _ \<Rightarrow> p_panic)))"

definition parse_fragment_definition_item ::
  "(string \<Rightarrow> string + number) \<Rightarrow> pair \<Rightarrow> fragment_definition_item positioned parser"
where
  "parse_fragment_definition_item read p = p_bind (pc_step p) (\<lambda>at.
     next_pair (into_inner p) (\<lambda>n pairs. p_bind (parse_name n) (\<lambda>nm.
     next_pair pairs (\<lambda>t pairs. p_bind (parse_type_condition t) (\<lambda>tc.
     p_bind (parse_opt_directives read pairs) (\<lambda>(ds, pairs).
     next_pair pairs (\<lambda>q _. p_map (\<lambda>ss.
       Positioned at \<lparr>fdi_name = nm, fdi_definition =
         \<lparr>fd_type_condition = tc, fd_directives = ds, fd_selection_set = ss\<rparr>\<rparr>)
       (parse_selection_set read MAX_RECURSION_DEPTH q))))))))"

definition parse_definition_item ::
  "(string \<Rightarrow> string + number) \<Rightarrow> pair \<Rightarrow> definition_item parser"
where
  "parse_definition_item read p = exactly_one (into_inner p) (\<lambda>q.
     case as_rule q of
       R_operation_definition \<Rightarrow> p_map ItemOperation (parse_operation_definition_item read q)
     | R_fragment_definition \<Rightarrow> p_map ItemFragment (parse_fragment_definition_item read q)
     | _ \<Rightarrow> p_panic)"

definition parse_definition_items ::
  "(string \<Rightarrow> string + number) \<Rightarrow> pair \<Rightarrow> definition_item list parser"
where
  "parse_definition_items read p =
     p_each (parse_definition_item read) (filter (\<lambda>q. as_rule q \<noteq> R_EOI) (into_inner p))"

subsection \<open>The document\<close>

text \<open>
  The two collections of \<open>parse_query\<close>. The first operation of a hash map stands for the one that
  its iterator yields first, which Rust leaves unspecified.
\<close>

fun operation_pos :: "document_operations \<Rightarrow> src_pos run" where
  "operation_pos (Single single) = Done (pos single)"
| "operation_pos (Multiple ((_, op) # _)) = Done (pos op)"
| "operation_pos (Multiple []) = Panicked"

definition add_operation ::
  "operation_definition_item positioned \<Rightarrow> document_operations option \<Rightarrow>
   (parse_error + document_operations) run"
where
  "add_operation item operations =
     (let definition_at = Positioned (pos item) (odi_definition (node item)) in
      case odi_name (node item) of
        Some nm \<Rightarrow>
          (case (case operations of Some ops \<Rightarrow> ops | None \<Rightarrow> Multiple []) of
             Single anonymous \<Rightarrow> Done (Inl (MultipleOperations (pos anonymous) (pos item)))
           | Multiple ops \<Rightarrow>
               (case map_of ops (node nm) of
                  Some first \<Rightarrow> Done (Inl (OperationDuplicated (node nm) (pos first) (pos item)))
                | None \<Rightarrow> Done (Inr (Multiple (ops @ [(node nm, definition_at)])))))
      | None \<Rightarrow>
          (case operations of
             Some ops \<Rightarrow> run_map (\<lambda>at. Inl (MultipleOperations (pos item) at)) (operation_pos ops)
           | None \<Rightarrow> Done (Inr (Single definition_at))))"

definition add_fragment ::
  "fragment_definition_item positioned \<Rightarrow> (name \<times> fragment_definition positioned) list \<Rightarrow>
   parse_error + (name \<times> fragment_definition positioned) list"
where
  "add_fragment item fragments =
     (let nm = node (fdi_name (node item)) in
      case map_of fragments nm of
        Some first \<Rightarrow> Inl (FragmentDuplicated nm (pos first) (pos item))
      | None \<Rightarrow> Inr (fragments @ [(nm, Positioned (pos item) (fdi_definition (node item)))]))"

fun assemble ::
  "definition_item list \<Rightarrow> document_operations option \<Rightarrow>
   (name \<times> fragment_definition positioned) list \<Rightarrow> (parse_error + executable_document) run"
where
  "assemble [] None _ = Done (Inl MissingOperation)"
| "assemble [] (Some ops) fragments = Done (Inr \<lparr>doc_operations = ops, doc_fragments = fragments\<rparr>)"
| "assemble (ItemOperation item # rest) operations fragments =
     run_bind (add_operation item operations) (\<lambda>r.
       case r of Inl e \<Rightarrow> Done (Inl e) | Inr ops \<Rightarrow> assemble rest (Some ops) fragments)"
| "assemble (ItemFragment item # rest) operations fragments =
     (case add_fragment item fragments of
        Inl e \<Rightarrow> Done (Inl e)
      | Inr frs \<Rightarrow> assemble rest operations frs)"

definition parse_query ::
  "(string \<Rightarrow> parse_error + pair list) \<Rightarrow> (string \<Rightarrow> string + number) \<Rightarrow> string \<Rightarrow>
   (parse_error + executable_document) run"
where
  "parse_query grammar read input =
     (case grammar input of
        Inl e \<Rightarrow> Done (Inl e)
      | Inr pairs \<Rightarrow>
          run_bind (exactly_one pairs (parse_definition_items read) (position_calculator_new input))
            (\<lambda>r. case r of Inl e \<Rightarrow> Done (Inl e) | Inr (parsed, _) \<Rightarrow> assemble parsed None []))"

end
