(* ===== verification/Parse_Schema.thy ===== *)
theory Parse_Schema
  imports Parse_Tree
begin

text \<open>
  Schema documents: their syntax tree (\<open>parser/src/types/service.rs\<close>) and the conversion of the tree of
  the generated parser to it (\<open>parser/src/parse/service.rs\<close>).
\<close>

subsection \<open>The syntax tree\<close>

record input_value_definition =
  ivd_description :: "string positioned option"
  ivd_name :: "name positioned"
  ivd_ty :: "gtype positioned"
  ivd_default_value :: "const_value positioned option"
  ivd_directives :: "const_directive positioned list"

record field_definition =
  fld_description :: "string positioned option"
  fld_name :: "name positioned"
  fld_arguments :: "input_value_definition positioned list"
  fld_ty :: "gtype positioned"
  fld_directives :: "const_directive positioned list"

record object_type_def =
  ot_implements :: "name positioned list"
  ot_fields :: "field_definition positioned list"

record interface_type =
  it_implements :: "name positioned list"
  it_fields :: "field_definition positioned list"

record union_type =
  ut_members :: "name positioned list"

record enum_value_definition =
  evd_description :: "string positioned option"
  evd_value :: "name positioned"
  evd_directives :: "const_directive positioned list"

record enum_type =
  et_values :: "enum_value_definition positioned list"

record input_object_type =
  iot_fields :: "input_value_definition positioned list"

datatype type_kind =
    KindScalar | KindObject object_type_def | KindInterface interface_type | KindUnion union_type
  | KindEnum enum_type | KindInputObject input_object_type

record type_definition =
  td_extend :: bool
  td_description :: "string positioned option"
  td_name :: "name positioned"
  td_directives :: "const_directive positioned list"
  td_kind :: type_kind

record schema_definition =
  sd_extend :: bool
  sd_directives :: "const_directive positioned list"
  sd_query :: "name positioned option"
  sd_mutation :: "name positioned option"
  sd_subscription :: "name positioned option"

datatype document_location =
    AtQuery | AtMutation | AtSubscription | AtField | AtFragmentDefinition | AtFragmentSpread
  | AtInlineFragment | AtSchema | AtScalar | AtObject | AtFieldDefinition
  | AtArgumentDefinition | AtInterface | AtUnion | AtEnum | AtEnumValue | AtInputObject
  | AtInputFieldDefinition | AtVariableDefinition

record directive_definition =
  ddf_description :: "string positioned option"
  ddf_name :: "name positioned"
  ddf_arguments :: "input_value_definition positioned list"
  ddf_is_repeatable :: bool
  ddf_locations :: "document_location positioned list"

datatype type_system_definition =
    TSSchema "schema_definition positioned"
  | TSType "type_definition positioned"
  | TSDirective "directive_definition positioned"

record service_document =
  svc_definitions :: "type_system_definition list"

subsection \<open>Input values and fields\<close>

definition parse_input_value_definition ::
  "(string \<Rightarrow> string + number) \<Rightarrow> pair \<Rightarrow> input_value_definition positioned parser"
where
  "parse_input_value_definition read p = p_bind (pc_step p) (\<lambda>at.
     p_bind (parse_if_rule R_string parse_string (into_inner p)) (\<lambda>(desc, pairs).
     next_pair pairs (\<lambda>n pairs. p_bind (parse_name n) (\<lambda>nm.
     next_pair pairs (\<lambda>t pairs. p_bind (parse_type t) (\<lambda>ty.
     p_bind (parse_if_rule R_default_value (parse_default_value read) pairs) (\<lambda>(dv, pairs).
     p_bind (parse_opt_const_directives read pairs) (\<lambda>(ds, _).
       p_return (Positioned at
         \<lparr>ivd_description = desc, ivd_name = nm, ivd_ty = ty, ivd_default_value = dv, ivd_directives = ds\<rparr>)))))))))"

definition parse_arguments_definition ::
  "(string \<Rightarrow> string + number) \<Rightarrow> pair \<Rightarrow> input_value_definition positioned list parser"
where
  "parse_arguments_definition read p = p_each (parse_input_value_definition read) (into_inner p)"

definition parse_field_definition ::
  "(string \<Rightarrow> string + number) \<Rightarrow> pair \<Rightarrow> field_definition positioned parser"
where
  "parse_field_definition read p = p_bind (pc_step p) (\<lambda>at.
     p_bind (parse_if_rule R_string parse_string (into_inner p)) (\<lambda>(desc, pairs).
     next_pair pairs (\<lambda>n pairs. p_bind (parse_name n) (\<lambda>nm.
     p_bind (parse_if_rule R_arguments_definition (parse_arguments_definition read) pairs) (\<lambda>(args, pairs).
     next_pair pairs (\<lambda>t pairs. p_bind (parse_type t) (\<lambda>ty.
     p_bind (parse_opt_const_directives read pairs) (\<lambda>(ds, _).
       p_return (Positioned at
         \<lparr>fld_description = desc, fld_name = nm, fld_arguments = or_default args, fld_ty = ty, fld_directives = ds\<rparr>)))))))))"

definition parse_fields_definition ::
  "(string \<Rightarrow> string + number) \<Rightarrow> pair \<Rightarrow> field_definition positioned list parser"
where
  "parse_fields_definition read p = p_each (parse_field_definition read) (into_inner p)"

definition parse_enum_value_definition ::
  "(string \<Rightarrow> string + number) \<Rightarrow> pair \<Rightarrow> enum_value_definition positioned parser"
where
  "parse_enum_value_definition read p = p_bind (pc_step p) (\<lambda>at.
     p_bind (parse_if_rule R_string parse_string (into_inner p)) (\<lambda>(desc, pairs).
     next_pair pairs (\<lambda>v pairs. p_bind (parse_enum_value v) (\<lambda>ev.
     p_bind (parse_opt_const_directives read pairs) (\<lambda>(ds, _).
       p_return (Positioned at \<lparr>evd_description = desc, evd_value = ev, evd_directives = ds\<rparr>))))))"

definition parse_names :: "pair \<Rightarrow> name positioned list parser" where
  "parse_names p = p_each parse_name (into_inner p)"

subsection \<open>Definitions of types\<close>

text \<open>The match on the rule, from the pairs that follow the name.\<close>

definition parse_fielded ::
  "(string \<Rightarrow> string + number) \<Rightarrow> (name positioned list \<Rightarrow> field_definition positioned list \<Rightarrow> type_kind) \<Rightarrow>
   pair list \<Rightarrow> (const_directive positioned list \<times> type_kind) parser"
where
  "parse_fielded read kind pairs =
     p_bind (parse_if_rule R_implements_interfaces parse_names pairs) (\<lambda>(impls, pairs).
     p_bind (parse_opt_const_directives read pairs) (\<lambda>(ds, pairs).
     p_bind (parse_if_rule R_fields_definition (parse_fields_definition read) pairs) (\<lambda>(fields, _).
       p_return (ds, kind (or_default impls) (or_default fields)))))"

definition parse_type_kind ::
  "(string \<Rightarrow> string + number) \<Rightarrow> rule \<Rightarrow> pair list \<Rightarrow> (const_directive positioned list \<times> type_kind) parser"
where
  "parse_type_kind read r pairs =
     (case r of
        R_scalar_type \<Rightarrow> p_map (\<lambda>(ds, _). (ds, KindScalar)) (parse_opt_const_directives read pairs)
      | R_object_type \<Rightarrow>
          parse_fielded read (\<lambda>impls fields. KindObject \<lparr>ot_implements = impls, ot_fields = fields\<rparr>) pairs
      | R_interface_type \<Rightarrow>
          parse_fielded read (\<lambda>impls fields. KindInterface \<lparr>it_implements = impls, it_fields = fields\<rparr>) pairs
      | R_union_type \<Rightarrow>
          p_bind (parse_opt_const_directives read pairs) (\<lambda>(ds, pairs).
          p_map (\<lambda>(members, _). (ds, KindUnion \<lparr>ut_members = or_default members\<rparr>))
            (parse_if_rule R_union_member_types parse_names pairs))
      | R_enum_type \<Rightarrow>
          p_bind (parse_opt_const_directives read pairs) (\<lambda>(ds, pairs).
          p_map (\<lambda>(vals, _). (ds, KindEnum \<lparr>et_values = or_default vals\<rparr>))
            (parse_if_rule R_enum_values (\<lambda>q. p_each (parse_enum_value_definition read) (into_inner q)) pairs))
      | R_input_object_type \<Rightarrow>
          p_bind (parse_opt_const_directives read pairs) (\<lambda>(ds, pairs).
          p_map (\<lambda>(fields, _). (ds, KindInputObject \<lparr>iot_fields = or_default fields\<rparr>))
            (parse_if_rule R_input_fields_definition
              (\<lambda>q. p_each (parse_input_value_definition read) (into_inner q)) pairs))
      | _ \<Rightarrow> p_panic)"

definition parse_type_definition ::
  "(string \<Rightarrow> string + number) \<Rightarrow> pair \<Rightarrow> type_definition positioned parser"
where
  "parse_type_definition read p = p_bind (pc_step p) (\<lambda>at.
     exactly_one (into_inner p) (\<lambda>q.
     p_bind (parse_if_rule R_string parse_string (into_inner q)) (\<lambda>(desc, pairs).
     let (extend, pairs) = next_if_rule R_extend pairs in
     next_pair pairs (\<lambda>n pairs. p_bind (parse_name n) (\<lambda>nm.
     p_map (\<lambda>(ds, kind). Positioned at
         \<lparr>td_extend = extend \<noteq> None, td_description = desc, td_name = nm, td_directives = ds, td_kind = kind\<rparr>)
       (parse_type_kind read (as_rule q) pairs))))))"

subsection \<open>The schema\<close>

text \<open>The body of the loop over the roots.\<close>

definition set_root ::
  "src_pos \<Rightarrow> operation_type positioned \<Rightarrow> name positioned \<Rightarrow> schema_definition \<Rightarrow> parse_error + schema_definition"
where
  "set_root at ty nm sd =
     (case node ty of
        Query \<Rightarrow> if sd_query sd = None then Inr (sd\<lparr>sd_query := Some nm\<rparr>) else Inl (MultipleRoots Query at (pos ty))
      | Mutation \<Rightarrow>
          if sd_mutation sd = None then Inr (sd\<lparr>sd_mutation := Some nm\<rparr>) else Inl (MultipleRoots Mutation at (pos ty))
      | Subscription \<Rightarrow>
          if sd_subscription sd = None then Inr (sd\<lparr>sd_subscription := Some nm\<rparr>)
          else Inl (MultipleRoots Subscription at (pos ty)))"

fun parse_roots :: "src_pos \<Rightarrow> pair list \<Rightarrow> schema_definition \<Rightarrow> schema_definition parser" where
  "parse_roots at [] sd = p_return sd"
| "parse_roots at (q # qs) sd =
     next_pair (into_inner q) (\<lambda>t pairs. p_bind (parse_operation_type t) (\<lambda>ty.
     next_pair pairs (\<lambda>n _. p_bind (parse_name n) (\<lambda>nm.
       case set_root at ty nm sd of Inl e \<Rightarrow> p_fail e | Inr sd' \<Rightarrow> parse_roots at qs sd'))))"

definition parse_schema_definition ::
  "(string \<Rightarrow> string + number) \<Rightarrow> pair \<Rightarrow> schema_definition positioned parser"
where
  "parse_schema_definition read p = p_bind (pc_step p) (\<lambda>at.
     let (extend, pairs) = next_if_rule R_extend (into_inner p) in
     p_bind (parse_opt_const_directives read pairs) (\<lambda>(ds, pairs).
     p_bind (parse_roots at pairs
       \<lparr>sd_extend = extend \<noteq> None, sd_directives = ds, sd_query = None, sd_mutation = None, sd_subscription = None\<rparr>) (\<lambda>sd.
     if \<not> sd_extend sd \<and> sd_query sd = None then p_fail (MissingQueryRoot at)
     else p_return (Positioned at sd))))"

subsection \<open>Directives\<close>

definition read_location :: "string \<Rightarrow> document_location option" where
  "read_location s =
    (if s = ''QUERY'' then Some AtQuery
     else if s = ''MUTATION'' then Some AtMutation
     else if s = ''SUBSCRIPTION'' then Some AtSubscription
     else if s = ''FIELD'' then Some AtField
     else if s = ''FRAGMENT_DEFINITION'' then Some AtFragmentDefinition
     else if s = ''FRAGMENT_SPREAD'' then Some AtFragmentSpread
     else if s = ''INLINE_FRAGMENT'' then Some AtInlineFragment
     else if s = ''VARIABLE_DEFINITION'' then Some AtVariableDefinition
     else if s = ''SCHEMA'' then Some AtSchema
     else if s = ''SCALAR'' then Some AtScalar
     else if s = ''OBJECT'' then Some AtObject
     else if s = ''FIELD_DEFINITION'' then Some AtFieldDefinition
     else if s = ''ARGUMENT_DEFINITION'' then Some AtArgumentDefinition
     else if s = ''INTERFACE'' then Some AtInterface
     else if s = ''UNION'' then Some AtUnion
     else if s = ''ENUM'' then Some AtEnum
     else if s = ''ENUM_VALUE'' then Some AtEnumValue
     else if s = ''INPUT_OBJECT'' then Some AtInputObject
     else if s = ''INPUT_FIELD_DEFINITION'' then Some AtInputFieldDefinition
     else None)"

definition parse_directive_location :: "pair \<Rightarrow> document_location positioned parser" where
  "parse_directive_location p = p_bind (pc_step p) (\<lambda>at.
     case read_location (as_str p) of Some l \<Rightarrow> p_return (Positioned at l) | None \<Rightarrow> p_panic)"

definition parse_directive_definition ::
  "(string \<Rightarrow> string + number) \<Rightarrow> pair \<Rightarrow> directive_definition positioned parser"
where
  "parse_directive_definition read p = p_bind (pc_step p) (\<lambda>at.
     p_bind (parse_if_rule R_string parse_string (into_inner p)) (\<lambda>(desc, pairs).
     next_pair pairs (\<lambda>n pairs. p_bind (parse_name n) (\<lambda>nm.
     p_bind (parse_if_rule R_arguments_definition (parse_arguments_definition read) pairs) (\<lambda>(args, pairs).
     p_bind (parse_if_rule R_repeatable (\<lambda>_. p_return ()) pairs) (\<lambda>(repeatable, pairs).
     next_pair pairs (\<lambda>q _. p_map (\<lambda>locs.
       Positioned at \<lparr>ddf_description = desc, ddf_name = nm, ddf_arguments = or_default args,
         ddf_is_repeatable = repeatable \<noteq> None, ddf_locations = locs\<rparr>)
       (p_each parse_directive_location (into_inner q)))))))))"

subsection \<open>The document\<close>

definition parse_type_system_definition ::
  "(string \<Rightarrow> string + number) \<Rightarrow> pair \<Rightarrow> type_system_definition parser"
where
  "parse_type_system_definition read p = exactly_one (into_inner p) (\<lambda>q.
     case as_rule q of
       R_schema_definition \<Rightarrow> p_map TSSchema (parse_schema_definition read q)
     | R_type_definition \<Rightarrow> p_map TSType (parse_type_definition read q)
     | R_directive_definition \<Rightarrow> p_map TSDirective (parse_directive_definition read q)
     | _ \<Rightarrow> p_panic)"

definition parse_service_document ::
  "(string \<Rightarrow> string + number) \<Rightarrow> pair \<Rightarrow> service_document parser"
where
  "parse_service_document read p = p_map (\<lambda>ds. \<lparr>svc_definitions = ds\<rparr>)
     (p_each (parse_type_system_definition read) (filter (\<lambda>q. as_rule q \<noteq> R_EOI) (into_inner p)))"

definition parse_schema ::
  "(string \<Rightarrow> parse_error + pair list) \<Rightarrow> (string \<Rightarrow> string + number) \<Rightarrow> string \<Rightarrow>
   (parse_error + service_document) run"
where
  "parse_schema grammar read input =
     (case grammar input of
        Inl e \<Rightarrow> Done (Inl e)
      | Inr pairs \<Rightarrow>
          run_map (map_sum (\<lambda>e. e) fst)
            (exactly_one pairs (parse_service_document read) (position_calculator_new input)))"

end
