(* ===== verification/Parse_Text_Facts.thy ===== *)
theory Parse_Text_Facts
  imports Parse_Text
begin

text \<open>
  What string literals mean: reading what \<open>write_quoted\<close> prints gives the string back but for most
  control characters, and block strings are what the specification says but for short blank lines.
\<close>

subsection \<open>Printing and reading a string\<close>

lemma of_char_digit [simp]: "d < 10 \<Longrightarrow> (of_char (digit_char d) :: nat) = 48 + d"
  by (simp add: digit_char_def)

lemma hex_digit_decimal [simp]: "d < 10 \<Longrightarrow> hex_digit (digit_char d) = Some d"
  by (simp add: hex_digit_def)

lemma show_nat_3:
  assumes "n < 1000"
  shows "pad4 (show_nat n) = [digit_char 0, digit_char (n div 100), digit_char (n div 10 mod 10), digit_char (n mod 10)]"
proof -
  have zero: "CHR ''0'' = digit_char 0" by code_simp
  consider "n < 10" | "10 \<le> n" "n < 100" | "100 \<le> n" by linarith
  then show ?thesis
  proof cases
    case 1
    then show ?thesis by (simp add: show_nat.simps [of n] pad4_def zero numeral_3_eq_3)
  next
    case 2
    then have "n div 10 < 10" "n div 10 mod 10 = n div 10" "n div 100 = 0" by auto
    then show ?thesis
      using 2 by (simp add: show_nat.simps [of n] show_nat.simps [of "n div 10"] pad4_def zero numeral_2_eq_2)
  next
    case 3
    then have "\<not> n div 10 < 10" "n div 10 div 10 = n div 100" "n div 100 < 10"
      using assms by (auto simp: div_mult2_eq [symmetric])
    then show ?thesis
      using 3 by (simp add: show_nat.simps [of n] show_nat.simps [of "n div 10"] show_nat.simps [of "n div 100"]
          pad4_def zero)
  qed
qed

text \<open>A decimal code point read as a hexadecimal one.\<close>

definition misread :: "nat \<Rightarrow> nat" where
  "misread n = (n div 100 * 16 + n div 10 mod 10) * 16 + n mod 10"

lemma string_value_escape:
  assumes "n < 256"
  shows "string_value (unicode_escape n @ s) = run_map (\<lambda>t. utf8_encode (misread n) @ t) (string_value s)"
proof -
  have "n div 100 < 10" "n div 10 mod 10 < 10" "n mod 10 < 10" using assms by auto
  then have "hex_value [digit_char 0, digit_char (n div 100), digit_char (n div 10 mod 10), digit_char (n mod 10)] =
      Some (misread n)"
    by (simp add: misread_def)
  moreover have "\<not> is_surrogate (misread n)"
  proof -
    have "misread n \<le> (9 * 16 + 9) * 16 + 9"
      using \<open>n div 100 < 10\<close> \<open>n div 10 mod 10 < 10\<close> \<open>n mod 10 < 10\<close> by (simp add: misread_def)
    then show ?thesis by (simp add: is_surrogate_def)
  qed
  ultimately show ?thesis
    using assms by (simp add: unicode_escape_def show_nat_3 string_value_unicode)
qed

text \<open>The bytes that survive: all but the control characters that have no escape of their own and more than
  one decimal digit.\<close>

definition printable :: "char \<Rightarrow> bool" where
  "printable c \<longleftrightarrow> \<not> is_ascii_control c \<or> c \<in> {CHR 0x09, CHR 0x0A, CHR 0x0D} \<or> (of_char c :: nat) < 10"

fun plain_string :: "string \<Rightarrow> bool" where
  "plain_string [] \<longleftrightarrow> True"
| "plain_string [c] \<longleftrightarrow> printable c"
| "plain_string (c # d # s) \<longleftrightarrow> \<not> is_c1_pair c d \<and> printable c \<and> plain_string (d # s)"

lemma misread_small: "n < 10 \<Longrightarrow> misread n = n"
  by (simp add: misread_def)

lemma misread_more:
  assumes "10 \<le> n"
  shows "n < misread n"
proof -
  have "n = n div 100 * 100 + n div 10 mod 10 * 10 + n mod 10"
  proof -
    have "n = n div 10 * 10 + n mod 10" by simp
    moreover have "n div 10 = n div 100 * 10 + n div 10 mod 10"
      using div_mult_mod_eq [of "n div 10" 10] by (simp add: div_mult2_eq [symmetric])
    ultimately show ?thesis by linarith
  qed
  moreover have "0 < n div 100 \<or> 0 < n div 10 mod 10"
  proof (rule ccontr)
    assume "\<not> ?thesis"
    then have "n = n mod 10" using calculation by simp
    then show False using assms by (metis leD mod_less_divisor zero_less_numeral)
  qed
  ultimately show ?thesis by (simp add: misread_def) linarith
qed

lemma utf8_encode_Cons: "\<exists>u us. utf8_encode n = u # us"
  by (simp add: utf8_encode_def)

text \<open>What printing and reading one character gives.\<close>

definition read_back :: "char \<Rightarrow> string" where
  "read_back c = (if is_ascii_control c \<and> c \<notin> {CHR 0x09, CHR 0x0A, CHR 0x0D} then utf8_encode (misread (of_char c)) else [c])"

lemma read_char: "string_value (write_quoted_char c @ s) = run_map (\<lambda>t. read_back c @ t) (string_value s)"
proof -
  consider "c \<in> {CHR 0x0D, CHR 0x0A, CHR 0x09, CHR 0x22, CHR 0x5C}"
    | "c \<notin> {CHR 0x0D, CHR 0x0A, CHR 0x09, CHR 0x22, CHR 0x5C}" "is_ascii_control c"
    | "c \<notin> {CHR 0x0D, CHR 0x0A, CHR 0x09, CHR 0x22, CHR 0x5C}" "\<not> is_ascii_control c"
    by blast
  then show ?thesis
  proof cases
    case 1
    have "\<not> is_ascii_control (CHR 0x22)" "\<not> is_ascii_control (CHR 0x5C)"
      by (simp_all add: is_ascii_control_def)
    then show ?thesis
      using 1 by (elim insertE emptyE)
        (simp_all add: write_quoted_char_def read_back_def string_value_simple simple_escape_def)
  next
    case 2
    have "string_value (unicode_escape (of_char c) @ s) = run_map (\<lambda>t. utf8_encode (misread (of_char c)) @ t) (string_value s)"
      by (rule string_value_escape) simp
    then show ?thesis
      using 2 by (simp add: write_quoted_char_def read_back_def)
  next
    case 3
    then show ?thesis
      by (simp add: write_quoted_char_def read_back_def string_value_plain)
  qed
qed

lemma char_of_neq: "(x :: nat) < 256 \<Longrightarrow> x \<noteq> of_char c \<Longrightarrow> char_of x \<noteq> c"
  by auto

lemma utf8_head:
  "n < 128 \<Longrightarrow> utf8_encode n = [char_of n]"
  "128 \<le> n \<Longrightarrow> n < 2048 \<Longrightarrow> utf8_encode n = [char_of (192 + n div 64), char_of (128 + n mod 64)]"
  by (simp_all add: utf8_encode_def)

lemma misread_control: "n < 32 \<Longrightarrow> misread n < 128"
proof -
  assume "n < 32"
  then have "n div 100 = 0" "n div 10 mod 10 \<le> 3" "n mod 10 \<le> 9"
    by (auto simp: less_Suc_eq_le [symmetric] intro: order.trans [OF mod_less_eq_dividend])
  then show ?thesis by (simp add: misread_def)
qed

lemma read_back_printable:
  "if printable c then read_back c = [c] else \<exists>u us. read_back c = u # us \<and> u \<noteq> c"
proof (cases "is_ascii_control c \<and> c \<notin> {CHR 0x09, CHR 0x0A, CHR 0x0D}")
  case control: True
  define n where "n = (of_char c :: nat)"
  have n: "n < 32 \<or> n = 127" and c: "c = char_of n"
    using control by (simp_all add: is_ascii_control_def n_def)
  show ?thesis
  proof (cases "n < 10")
    case True
    then show ?thesis
      using c by (simp add: printable_def read_back_def n_def [symmetric] misread_small utf8_head)
  next
    case False
    then have bad: "\<not> printable c" using control by (simp add: printable_def n_def)
    have "\<exists>u us. utf8_encode (misread n) = u # us \<and> u \<noteq> c"
    proof (cases "n = 127")
      case True
      then have "utf8_encode (misread n) = [char_of (196 :: nat), char_of (167 :: nat)]"
        by (simp add: utf8_encode_def misread_def)
      moreover have "char_of (196 :: nat) \<noteq> c"
        using True by (intro char_of_neq) (simp_all add: n_def [symmetric])
      ultimately show ?thesis by blast
    next
      case False
      then have "misread n < 128" using n misread_control by blast
      moreover have "misread n \<noteq> n" using misread_more [of n] \<open>\<not> n < 10\<close> by simp
      ultimately show ?thesis
        using char_of_neq [of "misread n" c] by (simp add: utf8_head n_def)
    qed
    then show ?thesis using bad control by (simp add: read_back_def n_def)
  qed
next
  case False
  then show ?thesis by (auto simp: printable_def read_back_def)
qed

text \<open>A C1 control is read as another character.\<close>

lemma read_c1:
  assumes "is_c1_pair c d"
  shows "\<exists>u us. u \<noteq> c \<and> (\<forall>s. string_value (unicode_escape (of_char d) @ s) = run_map (\<lambda>t. u # us @ t) (string_value s))"
proof -
  define n where "n = (of_char d :: nat)"
  have n: "128 \<le> n" "n \<le> 159" and c: "c = CHR 0xC2" using assms by (simp_all add: is_c1_pair_def n_def)
  have "n div 100 = 1" using n by (intro div_nat_eqI) simp_all
  moreover have "n div 10 mod 10 \<le> 9" "n mod 10 \<le> 9" by (simp_all add: less_Suc_eq_le [symmetric])
  ultimately have m: "256 \<le> misread n" "misread n < 512" by (simp_all add: misread_def)
  then have head: "utf8_encode (misread n) = [char_of (192 + misread n div 64), char_of (128 + misread n mod 64)]"
    by (simp add: utf8_head)
  have "4 \<le> misread n div 64" "misread n div 64 < 8"
    using m div_le_mono [of 256 "misread n" 64] by (simp_all add: less_mult_imp_div_less)
  then have "char_of (192 + misread n div 64) \<noteq> c"
    by (intro char_of_neq) (simp_all add: c)
  moreover have "n < 256" using n by simp
  moreover have "string_value (unicode_escape n @ s) = run_map (\<lambda>t. char_of (192 + misread n div 64) #
      [char_of (128 + misread n mod 64)] @ t) (string_value s)" for s
    using string_value_escape [of n s] head \<open>n < 256\<close> by simp
  ultimately show ?thesis
    unfolding n_def by blast
qed

text \<open>C33: A string literal that \<open>write_quoted\<close> prints is read by the parser without panicking, and is read as the
  string itself exactly when the string has no control character but tab, line feed, carriage return and the
  ones below ten.\<close>

theorem string_value_write_quoted:
  "\<exists>t. string_value (write_quoted_chars s) = Done t \<and> (t = s \<longleftrightarrow> plain_string s)"
proof (induction s rule: write_quoted_chars.induct)
  case 1
  then show ?case by (simp add: string_value.simps)
next
  case (2 c)
  have "string_value (write_quoted_char c) = Done (read_back c)"
    using read_char [of c "[]"] by (simp add: string_value.simps [of "[]"])
  then show ?case
    using read_back_printable [of c] by (auto split: if_splits)
next
  case (3 c d s)
  show ?case
  proof (cases "is_c1_pair c d")
    case True
    then obtain u us where "u \<noteq> c" "\<And>s. string_value (unicode_escape (of_char d) @ s) = run_map (\<lambda>t. u # us @ t) (string_value s)"
      using read_c1 by blast
    moreover obtain t where "string_value (write_quoted_chars s) = Done t"
      using 3(1) [OF True] by blast
    ultimately show ?thesis using True by simp
  next
    case False
    then obtain t where t: "string_value (write_quoted_chars (d # s)) = Done t" "t = d # s \<longleftrightarrow> plain_string (d # s)"
      using 3(2) by blast
    then have "string_value (write_quoted_chars (c # d # s)) = Done (read_back c @ t)"
      using False read_char by simp
    then show ?thesis
      using read_back_printable [of c] t(2) False by (auto split: if_splits)
  qed
qed

subsection \<open>Block strings\<close>

text \<open>\<open>BlockStringValue\<close> of the specification: the indent all lines but the first have in common is cut from
  them, blank lines at both ends are dropped, and the lines are joined.\<close>

definition cut_indent :: "nat \<Rightarrow> string list \<Rightarrow> string list" where
  "cut_indent indent ls = (case ls of [] \<Rightarrow> [] | l # ls' \<Rightarrow> l # map (drop indent) ls')"

definition trim_blank :: "string list \<Rightarrow> string list" where
  "trim_blank ls = dropWhile (\<lambda>l. \<not> line_has_content l) (rev (dropWhile (\<lambda>l. \<not> line_has_content l) (rev ls)))"

definition block_string_spec :: "string \<Rightarrow> string" where
  "block_string_spec raw =
     (let ls = source_lines raw in join [CHR 0x0A] (trim_blank (cut_indent (common_indent ls) ls)))"

lemma drop_take_trim:
  "drop (length (takeWhile P xs)) (take (length xs - length (takeWhile P (rev xs))) xs) =
     dropWhile P (rev (dropWhile P (rev xs)))"
proof -
  let ?k = "length (takeWhile P (rev xs))"
  let ?ys = "take (length xs - ?k) xs"
  have ys: "rev (dropWhile P (rev xs)) = ?ys"
    by (simp add: dropWhile_eq_drop rev_drop)
  show ?thesis
  proof (cases "\<forall>x\<in>set ?ys. P x")
    case True
    have "?ys = []"
    proof (rule ccontr)
      assume "?ys \<noteq> []"
      then have "dropWhile P (rev xs) \<noteq> []" using ys by (metis rev.simps(1))
      then have "\<not> P (hd (dropWhile P (rev xs)))" by (rule hd_dropWhile)
      moreover have "hd (dropWhile P (rev xs)) \<in> set ?ys"
        using ys \<open>dropWhile P (rev xs) \<noteq> []\<close> by (metis hd_in_set set_rev)
      ultimately show False using True by blast
    qed
    then show ?thesis unfolding ys by (simp only: dropWhile.simps drop_Nil)
  next
    case False
    then obtain x where "x \<in> set ?ys" "\<not> P x" by blast
    then have "takeWhile P (?ys @ drop (length xs - ?k) xs) = takeWhile P ?ys"
      by (rule takeWhile_append1)
    then show ?thesis
      unfolding ys by (simp add: dropWhile_eq_drop)
  qed
qed

text \<open>The bytes of a text: no continuation byte at the start or after an ASCII byte.\<close>

fun text_bytes :: "bool \<Rightarrow> string \<Rightarrow> bool" where
  "text_bytes fresh [] \<longleftrightarrow> True"
| "text_bytes fresh (c # s) \<longleftrightarrow> \<not> (fresh \<and> is_continuation c) \<and> text_bytes ((of_char c :: nat) < 128) s"

lemma text_bytes_weaken: "text_bytes True s \<Longrightarrow> text_bytes b s"
  by (cases s) auto

lemma split_chars_nonempty: "split_chars P s \<noteq> []"
  by (induction s) (auto split: list.splits)

lemma split_crlf_nonempty: "split_crlf s \<noteq> []"
  by (induction s rule: split_crlf.induct) (auto split: list.splits)

lemma split_chars_text:
  assumes "\<And>c. P c \<Longrightarrow> (of_char c :: nat) < 128"
  shows "text_bytes b s \<Longrightarrow> text_bytes b (hd (split_chars P s)) \<and> list_all (text_bytes True) (tl (split_chars P s))"
proof (induction s arbitrary: b)
  case (Cons c s)
  then have "text_bytes ((of_char c :: nat) < 128) (hd (split_chars P s)) \<and> list_all (text_bytes True) (tl (split_chars P s))"
    using Cons.IH [of "(of_char c :: nat) < 128"] by simp
  then show ?case
    using Cons.prems assms [of c] split_chars_nonempty [of P s] by (cases "split_chars P s") auto
qed simp

lemma split_crlf_text:
  "text_bytes b s \<Longrightarrow> text_bytes b (hd (split_crlf s)) \<and> list_all (text_bytes True) (tl (split_crlf s))"
proof (induction s arbitrary: b rule: split_crlf.induct)
  case (3 c d s)
  show ?case
  proof (cases "c = CHR 0x0D \<and> d = CHR 0x0A")
    case True
    then have "text_bytes True s" using 3(3) by simp
    then show ?thesis
      using 3(1) [OF True, of True] True split_crlf_nonempty [of s] by (cases "split_crlf s") auto
  next
    case False
    have "text_bytes ((of_char c :: nat) < 128) (hd (split_crlf (d # s))) \<and> list_all (text_bytes True) (tl (split_crlf (d # s)))"
      using 3(2) [OF False, of "(of_char c :: nat) < 128"] 3(3) by (simp del: split_crlf.simps)
    then show ?thesis
      using 3(3) False split_crlf_nonempty [of "d # s"] by (cases "split_crlf (d # s)") auto
  qed
qed auto

lemma all_text: "xs \<noteq> [] \<Longrightarrow> text_bytes True (hd xs) \<and> list_all (text_bytes True) (tl xs) \<Longrightarrow> list_all (text_bytes True) xs"
  by (cases xs) auto

lemma source_lines_text: "text_bytes True raw \<Longrightarrow> list_all (text_bytes True) (source_lines raw)"
proof -
  assume "text_bytes True raw"
  then have "list_all (text_bytes True) (split_crlf raw)"
    by (intro all_text split_crlf_nonempty split_crlf_text)
  moreover have "list_all (text_bytes True) (split_chars (\<lambda>c. c = CHR 0x0D \<or> c = CHR 0x0A) l)" if "text_bytes True l" for l
    using that by (intro all_text split_chars_nonempty split_chars_text) auto
  ultimately show ?thesis
    by (auto simp: source_lines_def list_all_iff)
qed

lemma text_bytes_nth: "text_bytes b s \<Longrightarrow> Suc i < length s \<Longrightarrow> (of_char (s ! i) :: nat) < 128 \<Longrightarrow> \<not> is_continuation (s ! Suc i)"
proof (induction s arbitrary: b i)
  case (Cons c s)
  then show ?case by (cases i; cases s) auto
qed simp

lemma blank_ascii: "is_blank c \<Longrightarrow> (of_char c :: nat) < 128 \<and> \<not> is_continuation c"
  by (auto simp: is_blank_def is_continuation_def)

text \<open>A cut within the blanks a line begins with is at the boundary of a character.\<close>

lemma slice_from_indent:
  assumes "text_bytes True l" "k \<le> line_indent l"
  shows "slice_from k l = Done (drop k l)"
proof -
  have len: "k \<le> length l"
    using assms(2) length_takeWhile_le [of is_blank l] unfolding line_indent_def by (rule order.trans)
  have "\<not> is_continuation (l ! k)" if "k < length l"
  proof (cases k)
    case 0
    then show ?thesis using assms(1) that by (cases l) auto
  next
    case (Suc j)
    then have "is_blank (l ! j)"
      using assms(2) by (metis line_indent_def Suc_le_lessD nth_mem set_takeWhileD takeWhile_nth)
    then show ?thesis
      using text_bytes_nth [OF assms(1)] that Suc blank_ascii by blast
  qed
  then show ?thesis using len by (auto simp: slice_from_def)
qed

lemma fold_min_le: "fold min xs (a :: nat) \<le> a" "x \<in> set xs \<Longrightarrow> fold min xs a \<le> x"
proof (induction xs arbitrary: a)
  case (Cons y xs)
  { case 1 show ?case using Cons.IH(1) [of "min y a"] by simp }
  { case 2 then show ?case using Cons.IH(1) [of "min y a"] Cons.IH(2) [of "min y a"] by auto }
qed simp_all

lemma common_indent_le:
  assumes "l \<in> set (tl ls)" "line_has_content l"
  shows "common_indent ls \<le> line_indent l"
proof -
  have mem: "line_indent l \<in> set (map line_indent (filter line_has_content (tl ls)))"
    using assms by auto
  then obtain i "is" where "map line_indent (filter line_has_content (tl ls)) = i # is"
    by (cases "map line_indent (filter line_has_content (tl ls))") auto
  then show ?thesis
    using mem fold_min_le(1) [of "is" i] fold_min_le(2) [of "line_indent l" "is" i] by (auto simp: common_indent_def)
qed

lemma indent_blank: "\<not> line_has_content l \<Longrightarrow> line_indent l = length l"
  by (auto simp: line_has_content_def line_indent_def list_ex_iff takeWhile_eq_all_conv [THEN iffD2])

lemma content_drop: "k \<le> line_indent l \<Longrightarrow> line_has_content (drop k l) = line_has_content l"
proof -
  assume k: "k \<le> line_indent l"
  have "\<forall>c\<in>set (take k l). is_blank c"
  proof
    fix c assume "c \<in> set (take k l)"
    moreover have "take k l = take k (takeWhile is_blank l)"
      using k by (metis line_indent_def min.absorb1 take_all_iff take_take takeWhile_eq_take)
    ultimately show "is_blank c"
      by (metis in_set_takeD set_takeWhileD)
  qed
  moreover have "set l = set (take k l) \<union> set (drop k l)"
    by (metis append_take_drop_id set_append)
  ultimately show ?thesis
    by (auto simp: line_has_content_def list_ex_iff)
qed

text \<open>What the code does to a line, and what the specification does.\<close>

lemma block_lines_map:
  assumes "\<And>i l. (i, l) \<in> set zs \<Longrightarrow> i \<noteq> 0 \<Longrightarrow> text_bytes True l \<and> (indent \<le> line_indent l \<or> (l = []))"
  shows "block_lines indent zs = Done (map (\<lambda>(i, l). if i = 0 then l else drop indent l) zs)"
  using assms
proof (induction zs)
  case (Cons z zs)
  obtain i l where z: "z = (i, l)" by (cases z)
  have "block_lines indent zs = Done (map (\<lambda>(i, l). if i = 0 then l else drop indent l) zs)"
    using Cons.IH Cons.prems by (meson list.set_intros(2))
  moreover have "(if i \<noteq> 0 \<and> indent \<le> length l then slice_from indent l else Done l) =
    Done (if i = 0 then l else drop indent l)"
  proof (cases "i = 0 \<or> l = []")
    case True
    then show ?thesis by (auto simp: slice_from_def)
  next
    case False
    then have "text_bytes True l" "indent \<le> line_indent l"
      using Cons.prems z by auto
    then show ?thesis
      using False slice_from_indent [of l indent] length_takeWhile_le [of is_blank l] by (simp add: line_indent_def)
  qed
  ultimately show ?case by (simp add: z)
qed simp

lemma enumerate_cut: "map (\<lambda>(i, l). if i = 0 then l else drop indent l) (enumerate 0 ls) = cut_indent indent ls"
proof (cases ls)
  case (Cons l ls')
  have "map (\<lambda>(i, l). if i = 0 then l else drop indent l) (enumerate (Suc k) xs) = map (drop indent) xs" for k xs
    by (induction xs arbitrary: k) auto
  then show ?thesis by (simp add: Cons cut_indent_def)
qed (simp add: cut_indent_def)

lemma takeWhile_length_map:
  "(\<And>x. x \<in> set xs \<Longrightarrow> P (f x) = P x) \<Longrightarrow> length (takeWhile P (map f xs)) = length (takeWhile P xs)"
  by (induction xs) auto

lemma cut_indent_blank:
  assumes "\<And>l. l \<in> set (tl ls) \<Longrightarrow> line_has_content (drop k l) = line_has_content l"
  shows "length (takeWhile (\<lambda>l. \<not> line_has_content l) (cut_indent k ls)) = length (takeWhile (\<lambda>l. \<not> line_has_content l) ls)"
    and "length (takeWhile (\<lambda>l. \<not> line_has_content l) (rev (cut_indent k ls))) =
      length (takeWhile (\<lambda>l. \<not> line_has_content l) (rev ls))"
    and "length (cut_indent k ls) = length ls"
proof -
  show "length (cut_indent k ls) = length ls"
    by (simp add: cut_indent_def split: list.splits)
  show "length (takeWhile (\<lambda>l. \<not> line_has_content l) (cut_indent k ls)) = length (takeWhile (\<lambda>l. \<not> line_has_content l) ls)"
    using assms by (cases ls) (simp_all add: cut_indent_def takeWhile_length_map)
  show "length (takeWhile (\<lambda>l. \<not> line_has_content l) (rev (cut_indent k ls))) =
      length (takeWhile (\<lambda>l. \<not> line_has_content l) (rev ls))"
  proof (cases ls)
    case (Cons l ls')
    let ?blank = "\<lambda>l. \<not> line_has_content l"
    have len: "length (takeWhile ?blank (map (drop k) (rev ls'))) = length (takeWhile ?blank (rev ls'))"
      using assms Cons by (intro takeWhile_length_map) simp
    show ?thesis
      using len assms
      by (cases "\<exists>l\<in>set ls'. line_has_content l")
        (auto simp: Cons cut_indent_def rev_map takeWhile_append takeWhile_eq_all_conv [THEN iffD2])
  qed (simp add: cut_indent_def)
qed

text \<open>No line but the first is blank, not empty and shorter than the indent.\<close>

definition indent_fits :: "string \<Rightarrow> bool" where
  "indent_fits raw \<longleftrightarrow>
     list_all (\<lambda>l. line_has_content l \<or> l = [] \<or> common_indent (source_lines raw) \<le> length l) (tl (source_lines raw))"

lemma indent_fits_line:
  "indent_fits raw \<Longrightarrow> l \<in> set (tl (source_lines raw)) \<Longrightarrow> l = [] \<or> common_indent (source_lines raw) \<le> line_indent l"
  using common_indent_le indent_blank by (fastforce simp: indent_fits_def list_all_iff)

lemma block_string_value_is_spec:
  assumes "text_bytes True raw" "indent_fits raw"
  shows "block_string_value raw = Done (block_string_spec raw)"
proof -
  let ?ls = "source_lines raw"
  let ?k = "common_indent ?ls"
  let ?blank = "\<lambda>l. \<not> line_has_content l"
  let ?first = "length (takeWhile ?blank ?ls)" and ?last = "length ?ls - length (takeWhile ?blank (rev ?ls))"
  have line: "text_bytes True l \<and> (?k \<le> line_indent l \<or> l = [])" if "(i, l) \<in> set (enumerate 0 ?ls)" "i \<noteq> 0" for i l
  proof -
    have "i < length ?ls" "l = ?ls ! i"
      using that(1) by (auto simp: in_set_enumerate_eq)
    then have "l \<in> set (tl ?ls)" "l \<in> set ?ls"
      using that(2) by (cases ?ls; auto simp: nth_Cons')+
    then show ?thesis
      using source_lines_text [OF assms(1)] indent_fits_line [OF assms(2)] by (auto simp: list_all_iff)
  qed
  have "block_lines ?k (drop ?first (take ?last (enumerate 0 ?ls))) =
      Done (map (\<lambda>(i, l). if i = 0 then l else drop ?k l) (drop ?first (take ?last (enumerate 0 ?ls))))"
    by (rule block_lines_map) (metis line in_set_dropD in_set_takeD)
  also have "map (\<lambda>(i, l). if i = 0 then l else drop ?k l) (drop ?first (take ?last (enumerate 0 ?ls))) =
      drop ?first (take ?last (cut_indent ?k ?ls))"
    by (simp only: drop_map [symmetric] take_map [symmetric] enumerate_cut)
  also have "\<dots> = trim_blank (cut_indent ?k ?ls)"
  proof -
    have same: "line_has_content (drop ?k l) = line_has_content l" if "l \<in> set (tl ?ls)" for l
      using indent_fits_line [OF assms(2) that] content_drop by auto
    have lengths: "length (takeWhile ?blank (cut_indent ?k ?ls)) = ?first"
      "length (takeWhile ?blank (rev (cut_indent ?k ?ls))) = length (takeWhile ?blank (rev ?ls))"
      "length (cut_indent ?k ?ls) = length ?ls"
      using same cut_indent_blank [of ?ls ?k] by simp_all
    then show ?thesis
      using drop_take_trim [of ?blank "cut_indent ?k ?ls"] by (simp add: trim_blank_def)
  qed
  finally show ?thesis
    by (simp add: block_string_value_def block_string_spec_def Let_def)
qed



text \<open>A short blank line keeps its blanks, where the specification cuts them.\<close>

lemma short_blank_line_kept:
  "block_string_value ([CHR 0x0A] @ ''   a'' @ [CHR 0x0A] @ '' '' @ [CHR 0x0A] @ ''   b'') \<noteq>
   Done (block_string_spec ([CHR 0x0A] @ ''   a'' @ [CHR 0x0A] @ '' '' @ [CHR 0x0A] @ ''   b''))"
  by code_simp

end
