(* ===== verification/Parse_Facts.thy ===== *)
theory Parse_Facts
  imports Parse_Tree Parse_Text_Facts Type_Names Scoped_Semantics
begin

text \<open>
  On a tree of the grammar (\<open>parser/src/graphql.pest\<close>) the conversion to a document does not panic,
  and its positions are those of the source.
\<close>

subsection \<open>Positions\<close>

text \<open>The position of a byte of a text, from its definition.\<close>

definition source_position :: "string \<Rightarrow> nat \<Rightarrow> src_pos" where
  "source_position input n =
     (let before = take n input;
          line_text = takeWhile (\<lambda>c. c \<noteq> CHR 0x0A \<and> c \<noteq> CHR 0x0D) (rev before)
      in Pos (1 + length (filter (\<lambda>c. c = CHR 0x0A) before))
             (1 + length (filter (\<lambda>c. \<not> is_continuation c) line_text)))"

definition boundary :: "string \<Rightarrow> nat \<Rightarrow> bool" where
  "boundary input n \<longleftrightarrow> n \<le> length input \<and> (n < length input \<longrightarrow> \<not> is_continuation (input ! n))"

lemma count_chars_append: "count_chars (s @ t) l c = (case count_chars s l c of (l', c') \<Rightarrow> count_chars t l' c')"
  by (induction s arbitrary: l c) auto

lemma newline_no_continuation [simp]: "\<not> is_continuation (CHR 0x0A)" "\<not> is_continuation (CHR 0x0D)"
  by (simp_all add: is_continuation_def)

lemma count_chars_position:
  "count_chars s 1 1 = (line (source_position s (length s)), column (source_position s (length s)))"
proof (induction s rule: rev_induct)
  case (snoc c s)
  then show ?case by (auto simp: count_chars_append source_position_def Let_def)
qed (simp add: source_position_def)

lemma source_position_take: "n \<le> length input \<Longrightarrow> source_position (take n input) (length (take n input)) = source_position input n"
  by (simp add: source_position_def)

definition consistent :: "string \<Rightarrow> position_calculator \<Rightarrow> bool" where
  "consistent input pc \<longleftrightarrow>
     pc_pos pc \<le> length input \<and> pc_input pc = drop (pc_pos pc) input \<and>
     source_position input (pc_pos pc) = Pos (pc_line pc) (pc_column pc)"

lemma consistent_new: "consistent input (position_calculator_new input)"
  by (simp add: consistent_def position_calculator_new_def source_position_def)

lemma pc_step_consistent:
  assumes "consistent input pc" "pc_pos pc \<le> span_start p" "boundary input (span_start p)"
  obtains pc' where "pc_step p pc = Done (Inr (source_position input (span_start p), pc'))"
    "consistent input pc'" "pc_pos pc' = span_start p"
proof -
  let ?n = "span_start p" and ?m = "pc_pos pc"
  have pc: "pc_input pc = drop ?m input" "source_position input ?m = Pos (pc_line pc) (pc_column pc)" "?m \<le> length input"
    using assms(1) by (auto simp: consistent_def)
  have n: "?n \<le> length input" and within: "?n < length input \<Longrightarrow> \<not> is_continuation (input ! ?n)"
    using assms(3) by (auto simp: boundary_def)
  have split: "take ?n input = take ?m input @ take (?n - ?m) (drop ?m input)"
    using assms(2) by (metis le_add_diff_inverse take_add)
  have start: "count_chars (take ?m input) 1 1 = (pc_line pc, pc_column pc)"
    using pc source_position_take [of ?m input] count_chars_position [of "take ?m input"] by simp
  have counts: "count_chars (take (?n - ?m) (drop ?m input)) (pc_line pc) (pc_column pc) =
      (line (source_position input ?n), column (source_position input ?n))"
    using count_chars_position [of "take ?n input"] source_position_take [OF n]
    by (simp add: split count_chars_append start [unfolded One_nat_def] del: take_append)
  define pc' where "pc' = \<lparr>pc_input = drop (?n - ?m) (drop ?m input), pc_pos = ?n,
    pc_line = line (source_position input ?n), pc_column = column (source_position input ?n)\<rparr>"
  have "pc_step p pc = Done (Inr (source_position input ?n, pc'))"
    using assms(2) n within counts pc by (auto simp: pc_step_def Let_def pc'_def)
  moreover have "consistent input pc'"
    using assms(2) n by (simp add: pc'_def consistent_def)
  ultimately show thesis
    using that [of pc'] by (simp add: pc'_def)
qed

subsection \<open>Trees of the grammar\<close>

text \<open>
  What a rule of the grammar has inside: silent rules and the literals leave no pair, and neither does
  what is inside an atomic rule.
\<close>

datatype production_item = One "rule list" | Opt rule | Many rule

fun matches :: "production_item list \<Rightarrow> rule list \<Rightarrow> bool" where
  "matches [] rs \<longleftrightarrow> rs = []"
| "matches (One alts # prs) [] \<longleftrightarrow> False"
| "matches (One alts # prs) (r # rs) \<longleftrightarrow> r \<in> set alts \<and> matches prs rs"
| "matches (Opt q # prs) [] \<longleftrightarrow> matches prs []"
| "matches (Opt q # prs) (r # rs) \<longleftrightarrow> (if r = q then matches prs rs else matches prs (r # rs))"
| "matches (Many q # prs) rs \<longleftrightarrow> matches prs (dropWhile (\<lambda>r. r = q) rs)"

definition value_rules :: "rule list" where
  "value_rules = [R_number, R_string, R_boolean, R_null, R_enum_value]"

fun production :: "rule \<Rightarrow> production_item list" where
  "production R_executable_document = [One [R_executable_definition], Many R_executable_definition, One [R_EOI]]"
| "production R_executable_definition = [One [R_operation_definition, R_fragment_definition]]"
| "production R_operation_definition = [One [R_named_operation_definition, R_selection_set]]"
| "production R_named_operation_definition =
     [One [R_operation_type], Opt R_name, Opt R_variable_definitions, Opt R_directives, One [R_selection_set]]"
| "production R_variable_definitions = [Many R_variable_definition]"
| "production R_variable_definition = [One [R_variable], One [R_type], Opt R_directives, Opt R_default_value]"
| "production R_selection_set = [One [R_selection], Many R_selection]"
| "production R_selection = [One [R_field, R_inline_fragment, R_fragment_spread]]"
| "production R_field = [Opt R_alias, One [R_name], Opt R_arguments, Opt R_directives, Opt R_selection_set]"
| "production R_alias = [One [R_name]]"
| "production R_fragment_spread = [One [R_name], Opt R_directives]"
| "production R_inline_fragment = [Opt R_type_condition, Opt R_directives, One [R_selection_set]]"
| "production R_fragment_definition =
     [One [R_name], One [R_type_condition], Opt R_directives, One [R_selection_set]]"
| "production R_type_condition = [One [R_name]]"
| "production R_default_value = [One [R_const_value]]"
| "production R_const_value = [One (value_rules @ [R_const_list, R_const_object])]"
| "production R_value = [One (R_variable # value_rules @ [R_list, R_object])]"
| "production R_variable = [One [R_name]]"
| "production R_string = [One [R_block_string_content, R_string_content]]"
| "production R_enum_value = [One [R_name]]"
| "production R_const_list = [Many R_const_value]"
| "production R_list = [Many R_value]"
| "production R_const_object = [Many R_const_object_field]"
| "production R_object = [Many R_object_field]"
| "production R_const_object_field = [One [R_name], One [R_const_value]]"
| "production R_object_field = [One [R_name], One [R_value]]"
| "production R_const_directives = [One [R_const_directive], Many R_const_directive]"
| "production R_directives = [One [R_directive], Many R_directive]"
| "production R_const_directive = [One [R_name], Opt R_const_arguments]"
| "production R_directive = [One [R_name], Opt R_arguments]"
| "production R_const_arguments = [One [R_const_argument], Many R_const_argument]"
| "production R_arguments = [One [R_argument], Many R_argument]"
| "production R_const_argument = [One [R_name], One [R_const_value]]"
| "production R_argument = [One [R_name], One [R_value]]"
| "production R_service_document = [One [R_type_system_definition], Many R_type_system_definition, One [R_EOI]]"
| "production R_type_system_definition = [One [R_schema_definition, R_type_definition, R_directive_definition]]"
| "production R_schema_definition = [Opt R_extend, Opt R_const_directives, Many R_operation_type_definition]"
| "production R_operation_type_definition = [One [R_operation_type], One [R_name]]"
| "production R_type_definition =
     [One [R_scalar_type, R_object_type, R_interface_type, R_union_type, R_enum_type, R_input_object_type]]"
| "production R_scalar_type = [Opt R_string, Opt R_extend, One [R_name], Opt R_const_directives]"
| "production R_object_type =
     [Opt R_string, Opt R_extend, One [R_name], Opt R_implements_interfaces, Opt R_const_directives, Opt R_fields_definition]"
| "production R_interface_type =
     [Opt R_string, Opt R_extend, One [R_name], Opt R_implements_interfaces, Opt R_const_directives, Opt R_fields_definition]"
| "production R_union_type =
     [Opt R_string, Opt R_extend, One [R_name], Opt R_const_directives, Opt R_union_member_types]"
| "production R_enum_type = [Opt R_string, Opt R_extend, One [R_name], Opt R_const_directives, Opt R_enum_values]"
| "production R_input_object_type =
     [Opt R_string, Opt R_extend, One [R_name], Opt R_const_directives, Opt R_input_fields_definition]"
| "production R_implements_interfaces = [One [R_name], Many R_name]"
| "production R_union_member_types = [One [R_name], Many R_name]"
| "production R_fields_definition = [One [R_field_definition], Many R_field_definition]"
| "production R_field_definition =
     [Opt R_string, One [R_name], Opt R_arguments_definition, One [R_type], Opt R_const_directives]"
| "production R_enum_values = [One [R_enum_value_definition], Many R_enum_value_definition]"
| "production R_enum_value_definition = [Opt R_string, One [R_enum_value], Opt R_const_directives]"
| "production R_input_fields_definition = [One [R_input_value_definition], Many R_input_value_definition]"
| "production R_directive_definition =
     [Opt R_string, One [R_name], Opt R_arguments_definition, One [R_repeatable], One [R_directive_locations]]"
| "production R_directive_locations = [One [R_directive_location], Many R_directive_location]"
| "production R_arguments_definition = [One [R_input_value_definition], Many R_input_value_definition]"
| "production R_input_value_definition =
     [Opt R_string, One [R_name], One [R_type], Opt R_default_value, Opt R_const_directives]"
| "production _ = []"

text \<open>\<open>string_character*\<close>: no bare quote, backslash or line end; an escape of a scalar value.\<close>

function string_characters :: "string \<Rightarrow> bool" where
  "string_characters s \<longleftrightarrow>
     (case s of
        [] \<Rightarrow> True
      | c # rest \<Rightarrow>
          if c = CHR 0x5C then
            (case rest of
               [] \<Rightarrow> False
             | e # rest' \<Rightarrow>
                 simple_escape e \<noteq> None \<and> string_characters rest' \<or>
                 e = CHR ''u'' \<and> (case hex_value (take 4 rest') of None \<Rightarrow> False | Some code \<Rightarrow> \<not> is_surrogate code) \<and>
                   string_characters (drop 4 rest'))
          else c \<notin> {CHR 0x22, CHR 0x0A, CHR 0x0D} \<and> string_characters rest)"
  by pat_completeness auto
termination
  by (relation "measure length") auto

declare string_characters.simps [simp del]

definition directive_location_texts :: "string list" where
  "directive_location_texts =
    [''QUERY'', ''MUTATION'', ''SUBSCRIPTION'', ''FIELD_DEFINITION'', ''FIELD'', ''FRAGMENT_DEFINITION'', ''FRAGMENT_SPREAD'',
     ''INLINE_FRAGMENT'', ''VARIABLE_DEFINITION'', ''SCHEMA'', ''SCALAR'', ''OBJECT'', ''ARGUMENT_DEFINITION'', ''INTERFACE'',
     ''UNION'', ''ENUM_VALUE'', ''ENUM'', ''INPUT_OBJECT'', ''INPUT_FIELD_DEFINITION'']"

definition leaf_text :: "pair \<Rightarrow> bool" where
  "leaf_text p \<longleftrightarrow>
     (case as_rule p of
        R_directive_location \<Rightarrow> as_str p \<in> set directive_location_texts
      |
        R_boolean \<Rightarrow> as_str p \<in> {''true'', ''false''}
      | R_operation_type \<Rightarrow> as_str p \<in> {''query'', ''mutation'', ''subscription''}
      | R_type \<Rightarrow> (case type_new (as_str p) of None \<Rightarrow> False | Some t \<Rightarrow> plain_name (base_name t))
      | R_string_content \<Rightarrow> string_characters (as_str p)
      | R_block_string_content \<Rightarrow> text_bytes True (as_str p)
      | _ \<Rightarrow> True)"

fun conforms :: "pair \<Rightarrow> bool" where
  "conforms (Pair r s n inner) \<longleftrightarrow>
     leaf_text (Pair r s n inner) \<and> matches (production r) (map as_rule inner) \<and> list_all conforms inner"

lemma conforms_iff:
  "conforms p \<longleftrightarrow> leaf_text p \<and> matches (production (as_rule p)) (map as_rule (into_inner p)) \<and> list_all conforms (into_inner p)"
  by (cases p) simp

text \<open>The pairs of a tree start one after the other, each at a character of the source.\<close>

fun starts :: "pair \<Rightarrow> nat list" where
  "starts (Pair r s n inner) = n # concat (map starts inner)"

lemma starts_unfold: "starts p = span_start p # concat (map starts (into_inner p))"
  by (cases p) simp

definition spans :: "string \<Rightarrow> pair \<Rightarrow> bool" where
  "spans input p \<longleftrightarrow> sorted (starts p) \<and> list_all (boundary input) (starts p)"

subsection \<open>What a parser leaves\<close>

definition ready :: "string \<Rightarrow> pair list \<Rightarrow> position_calculator \<Rightarrow> bool" where
  "ready input ps pc \<longleftrightarrow>
     consistent input pc \<and> sorted (pc_pos pc # concat (map starts ps)) \<and>
     list_all (boundary input) (concat (map starts ps))"

text \<open>
  A parser run from a state that is ready for \<open>ps\<close> fails with an error or gives a result that satisfies
  the postcondition, in a state that is ready for \<open>qs\<close>.
\<close>

definition runs :: "string \<Rightarrow> pair list \<Rightarrow> 'a parser \<Rightarrow> pair list \<Rightarrow> ('a \<Rightarrow> bool) \<Rightarrow> bool" where
  "runs input ps m qs Q \<longleftrightarrow>
     (\<forall>pc. ready input ps pc \<longrightarrow>
        (\<exists>e. m pc = Done (Inl e)) \<or> (\<exists>x pc'. m pc = Done (Inr (x, pc')) \<and> Q x \<and> ready input qs pc'))"

lemma ready_start: "spans input p \<Longrightarrow> ready input [p] (position_calculator_new input)"
  using consistent_new by (simp add: ready_def spans_def position_calculator_new_def)

lemma ready_drop: "ready input (p # ps) pc \<Longrightarrow> ready input ps pc"
  by (auto simp: ready_def sorted_append)

lemma ready_inner: "ready input (p # ps) pc \<Longrightarrow> ready input (into_inner p @ ps) pc"
  by (cases p) (auto simp: ready_def sorted_append)

lemma runs_drop: "runs input ps m qs Q \<Longrightarrow> runs input (p # ps) m qs Q"
  by (auto simp: runs_def dest: ready_drop)

lemma runs_inner: "runs input (into_inner p @ ps) m qs Q \<Longrightarrow> runs input (p # ps) m qs Q"
  by (auto simp: runs_def dest: ready_inner)

lemma runs_weaken: "runs input ps m qs Q \<Longrightarrow> (\<And>x. Q x \<Longrightarrow> R x) \<Longrightarrow> runs input ps m qs R"
  unfolding runs_def by blast

lemma runs_return: "Q x \<Longrightarrow> runs input ps (p_return x) ps Q"
  by (simp add: runs_def p_return_def)

lemma runs_return_drop: "Q x \<Longrightarrow> runs input (p # ps) (p_return x) ps Q"
  by (rule runs_drop) (rule runs_return)

lemma runs_fail: "runs input ps (p_fail e) qs Q"
  by (simp add: runs_def p_fail_def)

lemma runs_bind:
  assumes "runs input ps m qs P" "\<And>x. P x \<Longrightarrow> runs input qs (k x) rs Q"
  shows "runs input ps (p_bind m k) rs Q"
  unfolding runs_def
proof (intro allI impI)
  fix pc assume "ready input ps pc"
  then consider e where "m pc = Done (Inl e)"
    | x pc' where "m pc = Done (Inr (x, pc'))" "P x" "ready input qs pc'"
    using assms(1) unfolding runs_def by blast
  then show "(\<exists>e. p_bind m k pc = Done (Inl e)) \<or>
      (\<exists>x pc'. p_bind m k pc = Done (Inr (x, pc')) \<and> Q x \<and> ready input rs pc')"
  proof cases
    case 2
    then show ?thesis
      using assms(2) [of x, unfolded runs_def] by (auto simp: p_bind_def)
  qed (simp add: p_bind_def)
qed

lemma runs_map: "runs input ps m qs (\<lambda>x. Q (f x)) \<Longrightarrow> runs input ps (p_map f m) qs Q"
  unfolding p_map_def by (erule runs_bind) (rule runs_return)

lemma runs_run: "r = Done x \<Longrightarrow> Q x \<Longrightarrow> runs input ps (p_run r) ps Q"
  by (simp add: runs_def p_run_def)

lemma runs_step:
  "runs input (p # ps) (pc_step p) (into_inner p @ ps) (\<lambda>at. at = source_position input (span_start p))"
  unfolding runs_def
proof (intro allI impI disjI2)
  fix pc assume r: "ready input (p # ps) pc"
  then have c: "consistent input pc" "pc_pos pc \<le> span_start p" "boundary input (span_start p)"
    by (auto simp: ready_def starts_unfold [of p])
  obtain pc' where "pc_step p pc = Done (Inr (source_position input (span_start p), pc'))"
    "consistent input pc'" "pc_pos pc' = span_start p"
    using pc_step_consistent [OF c] .
  moreover from this r have "ready input (into_inner p @ ps) pc'"
    by (auto simp: ready_def starts_unfold [of p] sorted_append)
  ultimately show "\<exists>x pc'. pc_step p pc = Done (Inr (x, pc')) \<and> x = source_position input (span_start p) \<and> ready input (into_inner p @ ps) pc'"
    by blast
qed

lemma runs_each:
  assumes "\<And>p rest. p \<in> set ps \<Longrightarrow> runs input (p # rest) (f p) rest Q"
  shows "runs input (ps @ rest) (p_each f ps) rest (list_all Q)"
  using assms
proof (induction ps)
  case Nil
  then show ?case by (simp add: runs_return)
next
  case (Cons p ps)
  have first: "runs input (p # (ps @ rest)) (f p) (ps @ rest) Q" using Cons.prems by simp
  have others: "runs input (ps @ rest) (p_each f ps) rest (list_all Q)" using Cons by simp
  have "runs input (ps @ rest) (p_map (Cons y) (p_each f ps)) rest (list_all Q)" if "Q y" for y
    using that by (auto intro!: runs_map runs_weaken [OF others])
  then show ?case
    by (auto intro: runs_bind [OF first])
qed

text \<open>The pairs that are left of a tree of the grammar, and the items of its rule that are left.\<close>

definition fits :: "production_item list \<Rightarrow> pair list \<Rightarrow> bool" where
  "fits prs ps \<longleftrightarrow> matches prs (map as_rule ps) \<and> list_all conforms ps"

lemma conforms_fits: "conforms p \<Longrightarrow> as_rule p = r \<Longrightarrow> fits (production r) (into_inner p)"
  by (auto simp: conforms_iff [of p] fits_def)

lemma fits_Nil [simp]: "fits [] ps \<longleftrightarrow> ps = []"
  by (auto simp: fits_def)

lemma fits_One: "fits (One alts # prs) ps \<longleftrightarrow> (\<exists>p rest. ps = p # rest \<and> as_rule p \<in> set alts \<and> conforms p \<and> fits prs rest)"
  by (cases ps) (auto simp: fits_def)

lemma fits_Many:
  "fits [Many r] ps \<longleftrightarrow> list_all (\<lambda>p. as_rule p = r \<and> conforms p) ps"
  by (auto simp: fits_def list_all_iff dropWhile_eq_Nil_conv)

lemma runs_next:
  assumes "fits (One alts # prs) ps"
    "\<And>p rest. as_rule p \<in> set alts \<Longrightarrow> conforms p \<Longrightarrow> fits prs rest \<Longrightarrow> runs input (p # rest @ out) (f p rest) qs Q"
  shows "runs input (ps @ out) (next_pair ps f) qs Q"
  using assms by (auto simp: fits_One next_pair_def)

lemma runs_exactly_one:
  assumes "fits [One alts] ps" "\<And>p. as_rule p \<in> set alts \<Longrightarrow> conforms p \<Longrightarrow> runs input (p # out) (f p) qs Q"
  shows "runs input (ps @ out) (exactly_one ps f) qs Q"
  using assms by (auto simp: fits_One exactly_one_def)

lemma runs_if_rule:
  assumes "fits (Opt r # prs) ps"
    "\<And>p out. as_rule p = r \<Longrightarrow> conforms p \<Longrightarrow> runs input (p # out) (f p) out P"
    "\<And>x rest. (\<forall>y. x = Some y \<longrightarrow> P y) \<Longrightarrow> fits prs rest \<Longrightarrow> runs input (rest @ out) (k (x, rest)) qs Q"
  shows "runs input (ps @ out) (p_bind (parse_if_rule r f ps) k) qs Q"
proof (cases "\<exists>p rest. ps = p # rest \<and> as_rule p = r")
  case True
  then obtain p rest where ps: "ps = p # rest" "as_rule p = r" by blast
  then have fit: "conforms p" "fits prs rest" using assms(1) by (auto simp: fits_def)
  show ?thesis
    using ps assms(2) [OF ps(2) fit(1)] fit(2)
    by (auto simp: parse_if_rule_def next_if_rule_def intro!: runs_bind [where P = "\<lambda>(x, rest'). rest' = rest \<and> (\<forall>y. x = Some y \<longrightarrow> P y)"]
        runs_map assms(3) elim: runs_weaken)
next
  case False
  then have none: "parse_if_rule r f ps = p_return (None, ps)"
    by (auto simp: parse_if_rule_def next_if_rule_def split: list.splits)
  have "fits prs ps"
    using assms(1) False by (cases ps) (auto simp: fits_def)
  then show ?thesis
    unfolding none by (intro runs_bind [OF runs_return [where Q = "\<lambda>r. r = (None, ps)"]]) (auto intro: assms(3))
qed

lemma runs_bind_any: "runs input ps m qs (\<lambda>_. True) \<Longrightarrow> (\<And>x. runs input qs (k x) rs Q) \<Longrightarrow> runs input ps (p_bind m k) rs Q"
  by (erule runs_bind)

lemma runs_step_bind:
  "(\<And>at. at = source_position input (span_start p) \<Longrightarrow> runs input (into_inner p @ out) (k at) qs Q) \<Longrightarrow>
   runs input (p # out) (p_bind (pc_step p) k) qs Q"
  by (rule runs_bind [OF runs_step])

subsection \<open>Names, values and directives\<close>

lemma runs_step_leaf:
  assumes "fits [] (into_inner p)" "\<And>at. runs input out (k at) qs Q"
  shows "runs input (p # out) (p_bind (pc_step p) k) qs Q"
  using assms by (auto intro: runs_step_bind)

lemma runs_name:
  "as_rule p = R_name \<Longrightarrow> conforms p \<Longrightarrow> runs input (p # out) (parse_name p) out (\<lambda>_. True)"
  unfolding parse_name_def p_map_def
  by (rule runs_step_leaf) (auto dest: conforms_fits intro: runs_return)

lemma runs_inner_name:
  assumes "production (as_rule p) = [One [R_name]]" "conforms p"
  shows "runs input (p # out) (exactly_one (into_inner p) parse_name) out (\<lambda>_. True)"
  by (rule runs_inner, rule runs_exactly_one [where alts = "[R_name]"])
    (use assms conforms_fits [of p "as_rule p"] in \<open>auto intro: runs_name\<close>)

lemma string_characters_return: "string_characters s \<Longrightarrow> \<exists>t. string_value s = Done t"
proof (induction s rule: string_characters.induct)
  case (1 s)
  show ?case
  proof (cases s)
    case (Cons c rest)
    show ?thesis
    proof (cases "c = CHR 0x5C")
      case False
      then have "string_characters rest" using 1(4) Cons by (simp add: string_characters.simps [of "c # rest"])
      then show ?thesis using 1(3) [OF Cons] False by (auto simp: Cons string_value_plain)
    next
      case True
      then obtain e rest' where e: "rest = e # rest'"
        using 1(4) Cons True by (cases rest) (simp_all add: string_characters.simps [of "[CHR 0x5C]"])
      show ?thesis
      proof (cases "simple_escape e")
        case (Some c')
        then have "e \<noteq> CHR ''u''" by (auto simp: simple_escape_def)
        then have "string_characters rest'"
          using 1(4) Some by (simp add: string_characters.simps [of "CHR 0x5C # e # rest'"] Cons e True)
        then show ?thesis
          using 1(1) [OF Cons True e] Some by (auto simp: Cons e True string_value_simple)
      next
        case None
        then have "e = CHR ''u''" "string_characters (drop 4 rest')"
          "case hex_value (take 4 rest') of None \<Rightarrow> False | Some code \<Rightarrow> \<not> is_surrogate code"
          using 1(4) None by (simp_all add: string_characters.simps [of "CHR 0x5C # e # rest'"] Cons e True)
        then obtain code t where "hex_value (take 4 rest') = Some code" "\<not> is_surrogate code" "string_value (drop 4 rest') = Done t"
          using 1(2) [OF Cons True e] by (auto split: option.splits)
        then show ?thesis
          using None \<open>e = CHR ''u''\<close> unfolding Cons True e by (subst string_value.simps) simp
      qed
    qed
  qed (simp add: string_value.simps)
qed

lemma block_lines_return:
  assumes "\<And>i l. (i, l) \<in> set zs \<Longrightarrow> i \<noteq> 0 \<Longrightarrow> indent \<le> length l \<Longrightarrow> text_bytes True l \<and> indent \<le> line_indent l"
  shows "\<exists>ls. block_lines indent zs = Done ls"
  using assms
proof (induction zs)
  case (Cons z zs)
  obtain i l where z: "z = (i, l)" by (cases z)
  obtain ls where "block_lines indent zs = Done ls"
    using Cons.IH Cons.prems by (meson list.set_intros(2))
  then show ?case
    using Cons.prems [of i l] slice_from_indent [of l indent] by (auto simp: z)
qed simp

lemma block_string_return:
  assumes "text_bytes True raw"
  shows "\<exists>t. block_string_value raw = Done t"
proof -
  let ?ls = "source_lines raw"
  have "text_bytes True l \<and> common_indent ?ls \<le> line_indent l"
    if "(i, l) \<in> set (enumerate 0 ?ls)" "i \<noteq> 0" "common_indent ?ls \<le> length l" for i l
  proof -
    have "i < length ?ls" "l = ?ls ! i"
      using that(1) by (auto simp: in_set_enumerate_eq)
    then have "l \<in> set (tl ?ls)" "l \<in> set ?ls"
      using that(2) by (cases ?ls; auto simp: nth_Cons')+
    then show ?thesis
      using source_lines_text [OF assms] common_indent_le indent_blank that(3)
      by (cases "line_has_content l") (auto simp: list_all_iff)
  qed
  then obtain ls' where "block_lines (common_indent ?ls)
      (drop (length (takeWhile (\<lambda>l. \<not> line_has_content l) ?ls))
        (take (length ?ls - length (takeWhile (\<lambda>l. \<not> line_has_content l) (rev ?ls))) (enumerate 0 ?ls))) = Done ls'"
    using block_lines_return by (metis in_set_dropD in_set_takeD)
  then show ?thesis by (simp add: block_string_value_def Let_def)
qed

lemma runs_string:
  assumes "as_rule p = R_string" "conforms p"
  shows "runs input (p # out) (parse_string p) out (\<lambda>_. True)"
  unfolding parse_string_def
proof (rule runs_step_bind, rule runs_exactly_one)
  show "fits [One [R_block_string_content, R_string_content]] (into_inner p)"
    using conforms_fits [OF assms(2, 1)] by simp
  fix at q
  assume q: "as_rule q \<in> set [R_block_string_content, R_string_content]" "conforms q"
  then have "leaf_text q" by (simp add: conforms_iff)
  then have "runs input out (case as_rule q of R_block_string_content \<Rightarrow> p_run (block_string_value (as_str q))
        | R_string_content \<Rightarrow> p_run (string_value (as_str q)) | _ \<Rightarrow> p_panic) out (\<lambda>_. True)"
    using q(1) string_characters_return [of "as_str q"] block_string_return [of "as_str q"]
    by (auto simp: leaf_text_def intro: runs_run)
  then show "runs input (q # out) (p_map (Positioned at)
      (case as_rule q of R_block_string_content \<Rightarrow> p_run (block_string_value (as_str q))
        | R_string_content \<Rightarrow> p_run (string_value (as_str q)) | _ \<Rightarrow> p_panic)) out (\<lambda>_. True)"
    by (intro runs_drop runs_map)
qed

lemma runs_boolean:
  assumes "as_rule p = R_boolean" "conforms p"
  shows "runs input (p # out) (parse_boolean p) out (\<lambda>_. True)"
  unfolding parse_boolean_def using assms conforms_fits [OF assms(2, 1)]
  by (intro runs_step_leaf) (auto simp: conforms_iff [of p] leaf_text_def intro: runs_return)

lemma runs_operation_type:
  assumes "as_rule p = R_operation_type" "conforms p"
  shows "runs input (p # out) (parse_operation_type p) out (\<lambda>_. True)"
  unfolding parse_operation_type_def using assms conforms_fits [OF assms(2, 1)]
  by (intro runs_step_leaf) (auto simp: conforms_iff [of p] leaf_text_def intro: runs_return)

lemma runs_number:
  assumes "as_rule p = R_number" "conforms p"
  shows "runs input (p # out) (parse_number read p) out (\<lambda>_. True)"
  unfolding parse_number_def using conforms_fits [OF assms(2, 1)]
  by (intro runs_step_leaf) (auto split: sum.split intro: runs_return runs_fail)

lemma runs_type:
  assumes "as_rule p = R_type" "conforms p"
  shows "runs input (p # out) (parse_type p) out (\<lambda>_. True)"
  unfolding parse_type_def p_map_def using assms conforms_fits [OF assms(2, 1)]
  by (auto simp: conforms_iff [of p] leaf_text_def split: option.splits intro!: runs_step_leaf intro: runs_return)

lemma runs_variable:
  "as_rule p = R_variable \<Longrightarrow> conforms p \<Longrightarrow> runs input (p # out) (parse_variable p) out (\<lambda>_. True)"
  unfolding parse_variable_def by (rule runs_inner_name) simp_all

lemma runs_enum_value:
  "as_rule p = R_enum_value \<Longrightarrow> conforms p \<Longrightarrow> runs input (p # out) (parse_enum_value p) out (\<lambda>_. True)"
  unfolding parse_enum_value_def by (rule runs_inner_name) simp_all

lemma runs_alias:
  "as_rule p = R_alias \<Longrightarrow> conforms p \<Longrightarrow> runs input (p # out) (parse_alias p) out (\<lambda>_. True)"
  unfolding parse_alias_def by (rule runs_inner_name) simp_all

text \<open>A named entry: an argument or the field of an object.\<close>

lemma runs_entry:
  assumes "fits [One [R_name], One [r]] ps"
    and each: "\<And>q out. q \<in> set ps \<Longrightarrow> as_rule q = r \<Longrightarrow> conforms q \<Longrightarrow> runs input (q # out) (f q) out (\<lambda>_. True)"
  shows "runs input (ps @ out)
    (next_pair ps (\<lambda>n rest. p_bind (parse_name n) (\<lambda>k. next_pair rest (\<lambda>v _. p_map (g k) (f v))))) out (\<lambda>_. True)"
proof -
  obtain n v where ps: "ps = [n, v]" "as_rule n = R_name" "conforms n" "as_rule v = r" "conforms v"
    using assms(1) by (auto simp: fits_One)
  show ?thesis
    unfolding ps(1) append.simps next_pair_def list.case
    by (rule runs_bind_any [OF runs_name [OF ps(2, 3)]], rule runs_map, rule each) (simp_all add: ps)
qed

lemma runs_entries:
  assumes "fits [Many r] ps" "production r = [One [R_name], One [s]]"
    and each: "\<And>p q out. p \<in> set ps \<Longrightarrow> q \<in> set (into_inner p) \<Longrightarrow> as_rule q = s \<Longrightarrow> conforms q \<Longrightarrow>
      runs input (q # out) (f q) out (\<lambda>_. True)"
  shows "runs input (ps @ out)
    (p_each (\<lambda>p. next_pair (into_inner p) (\<lambda>n rest. p_bind (parse_name n) (\<lambda>k. next_pair rest (\<lambda>v _. p_map (g k) (f v))))) ps)
    out (list_all (\<lambda>_. True))"
proof (rule runs_each)
  fix p rest assume p: "p \<in> set ps"
  then have "conforms p" "as_rule p = r" using assms(1) by (auto simp: fits_Many list_all_iff)
  then have "fits [One [R_name], One [s]] (into_inner p)"
    using conforms_fits assms(2) by metis
  then show "runs input (p # rest)
      (next_pair (into_inner p) (\<lambda>n rest. p_bind (parse_name n) (\<lambda>k. next_pair rest (\<lambda>v _. p_map (g k) (f v))))) rest (\<lambda>_. True)"
    by (rule runs_inner [OF runs_entry]) (auto intro: each [OF p])
qed

lemma runs_true: "runs input ps m qs Q \<Longrightarrow> runs input ps m qs (\<lambda>_. True)"
  by (erule runs_weaken) simp

lemma runs_members:
  assumes "fits [Many r] (into_inner q)" "\<And>x out. x \<in> set (into_inner q) \<Longrightarrow> as_rule x = r \<Longrightarrow> conforms x \<Longrightarrow> runs input (x # out) (f x) out P"
  shows "runs input (q # out) (p_each f (into_inner q)) out (list_all P)"
  by (rule runs_inner, rule runs_each) (use assms in \<open>auto simp: fits_Many list_all_iff\<close>)

lemma runs_object:
  assumes "fits [Many r] (into_inner q)" "production r = [One [R_name], One [s]]"
    "\<And>x y out. x \<in> set (into_inner q) \<Longrightarrow> y \<in> set (into_inner x) \<Longrightarrow> as_rule y = s \<Longrightarrow> conforms y \<Longrightarrow>
      runs input (y # out) (f y) out (\<lambda>_. True)"
  shows "runs input (q # out)
    (p_each (\<lambda>p. next_pair (into_inner p) (\<lambda>n rest. p_bind (parse_name n) (\<lambda>k. next_pair rest (\<lambda>v _. p_map (g k) (f v)))))
      (into_inner q)) out (\<lambda>_. True)"
  by (rule runs_inner, rule runs_true, rule runs_entries [OF assms]) assumption

lemma size_two: "y \<in> set (into_inner x) \<Longrightarrow> x \<in> set (into_inner p) \<Longrightarrow> size y < size p"
  using size_inner [of y x] size_inner [of x p] by simp

lemma size_three: "z \<in> set (into_inner y) \<Longrightarrow> y \<in> set (into_inner x) \<Longrightarrow> x \<in> set (into_inner p) \<Longrightarrow> size z < size p"
  using size_inner [of z y] size_two [of y x p] by simp

lemmas runs_leaf_values = runs_number runs_string runs_boolean runs_enum_value runs_variable

lemma runs_const_value:
  "as_rule p = R_const_value \<Longrightarrow> conforms p \<Longrightarrow> runs input (p # out) (parse_const_value read p) out (\<lambda>_. True)"
proof (induction "size p" arbitrary: p out rule: less_induct)
  case less
  have body: "runs input (q # out)
      (case as_rule q of
            R_number \<Rightarrow> p_map (CNumber \<circ> node) (parse_number read q)
          | R_string \<Rightarrow> p_map (CString \<circ> node) (parse_string q)
          | R_boolean \<Rightarrow> p_map (CBoolean \<circ> node) (parse_boolean q)
          | R_null \<Rightarrow> p_return CNull
          | R_enum_value \<Rightarrow> p_map (CEnum \<circ> node) (parse_enum_value q)
          | R_const_list \<Rightarrow> p_map (CList \<circ> map node) (p_each (parse_const_value read) (into_inner q))
          | R_const_object \<Rightarrow> p_map (CObject \<circ> index_map)
              (p_each (\<lambda>entry. next_pair (into_inner entry) (\<lambda>n rest. p_bind (parse_name n) (\<lambda>k.
                 next_pair rest (\<lambda>v _. p_map (\<lambda>c. (node k, node c)) (parse_const_value read v))))) (into_inner q))
          | _ \<Rightarrow> p_panic) out (\<lambda>_. True)"
    if q: "q \<in> set (into_inner p)" "as_rule q \<in> set (value_rules @ [R_const_list, R_const_object])" "conforms q" for q out
  proof -
    consider "as_rule q \<in> set value_rules" | "as_rule q = R_const_list" | "as_rule q = R_const_object"
      using q(2) by auto
    then show ?thesis
    proof cases
      case 1
      then show ?thesis
        using q(3) by (auto simp: value_rules_def intro!: runs_map runs_leaf_values intro: runs_return_drop)
    next
      case 2
      then show ?thesis
        unfolding 2 rule.case
        by (intro runs_map runs_true [OF runs_members [where r = R_const_value and P = "\<lambda>_. True"]] less.hyps)
          (use conforms_fits [OF q(3) 2] q(1) in \<open>auto intro: size_two\<close>)
    next
      case 3
      then show ?thesis
        unfolding 3 rule.case
        by (intro runs_map runs_object [where r = R_const_object_field and s = R_const_value] less.hyps)
          (use conforms_fits [OF q(3) 3] q(1) in \<open>auto intro: size_three\<close>)
    qed
  qed
  have "fits [One (value_rules @ [R_const_list, R_const_object])] (into_inner p)"
    using conforms_fits [OF less.prems(2, 1)] by simp
  then obtain q where "into_inner p = [q]" "as_rule q \<in> set (value_rules @ [R_const_list, R_const_object])" "conforms q"
    by (auto simp: fits_One simp del: set_append)
  then show ?case
    unfolding parse_const_value.simps [of read p]
    by (intro runs_step_bind) (auto simp: exactly_one_def simp del: set_append intro!: runs_map body)
qed

lemma runs_value:
  "as_rule p = R_value \<Longrightarrow> conforms p \<Longrightarrow> runs input (p # out) (parse_value read p) out (\<lambda>_. True)"
proof (induction "size p" arbitrary: p out rule: less_induct)
  case less
  have body: "runs input (q # out)
      (case as_rule q of
            R_variable \<Rightarrow> p_map (VVariable \<circ> node) (parse_variable q)
          | R_number \<Rightarrow> p_map (VNumber \<circ> node) (parse_number read q)
          | R_string \<Rightarrow> p_map (VString \<circ> node) (parse_string q)
          | R_boolean \<Rightarrow> p_map (VBoolean \<circ> node) (parse_boolean q)
          | R_null \<Rightarrow> p_return VNull
          | R_enum_value \<Rightarrow> p_map (VEnum \<circ> node) (parse_enum_value q)
          | R_list \<Rightarrow> p_map (VList \<circ> map node) (p_each (parse_value read) (into_inner q))
          | R_object \<Rightarrow> p_map (VObject \<circ> index_map)
              (p_each (\<lambda>entry. next_pair (into_inner entry) (\<lambda>n rest. p_bind (parse_name n) (\<lambda>k.
                 next_pair rest (\<lambda>v _. p_map (\<lambda>c. (node k, node c)) (parse_value read v))))) (into_inner q))
          | _ \<Rightarrow> p_panic) out (\<lambda>_. True)"
    if q: "q \<in> set (into_inner p)" "as_rule q \<in> set (R_variable # value_rules @ [R_list, R_object])" "conforms q" for q out
  proof -
    consider "as_rule q \<in> set (R_variable # value_rules)" | "as_rule q = R_list" | "as_rule q = R_object"
      using q(2) by auto
    then show ?thesis
    proof cases
      case 1
      then show ?thesis
        using q(3) by (auto simp: value_rules_def intro!: runs_map runs_leaf_values intro: runs_return_drop)
    next
      case 2
      then show ?thesis
        unfolding 2 rule.case
        by (intro runs_map runs_true [OF runs_members [where r = R_value and P = "\<lambda>_. True"]] less.hyps)
          (use conforms_fits [OF q(3) 2] q(1) in \<open>auto intro: size_two\<close>)
    next
      case 3
      then show ?thesis
        unfolding 3 rule.case
        by (intro runs_map runs_object [where r = R_object_field and s = R_value] less.hyps)
          (use conforms_fits [OF q(3) 3] q(1) in \<open>auto intro: size_three\<close>)
    qed
  qed
  have "fits [One (R_variable # value_rules @ [R_list, R_object])] (into_inner p)"
    using conforms_fits [OF less.prems(2, 1)] by simp
  then obtain q where "into_inner p = [q]" "as_rule q \<in> set (R_variable # value_rules @ [R_list, R_object])" "conforms q"
    by (auto simp: fits_One simp del: set_append set_simps)
  then show ?case
    unfolding parse_value.simps [of read p]
    by (intro runs_step_bind) (auto simp: exactly_one_def simp del: set_append set_simps intro!: runs_map body list.set_intros(1))
qed

subsection \<open>Arguments, directives and definitions of variables\<close>

lemma conforms_many:
  "conforms p \<Longrightarrow> production (as_rule p) = [One [r], Many r] \<Longrightarrow> fits [Many r] (into_inner p)"
  using conforms_fits [of p "as_rule p"] by (auto simp: fits_One fits_Many)

lemma runs_arguments:
  assumes "as_rule p = R_arguments" "conforms p"
  shows "runs input (p # out) (parse_arguments read p) out (\<lambda>_. True)"
  unfolding parse_arguments_def
  by (rule runs_object [where r = R_argument and s = R_value])
    (use assms conforms_many [OF assms(2)] in \<open>auto intro: runs_value\<close>)

lemma runs_default_value:
  assumes "as_rule p = R_default_value" "conforms p"
  shows "runs input (p # out) (parse_default_value read p) out (\<lambda>_. True)"
  unfolding parse_default_value_def
  by (rule runs_inner, rule runs_exactly_one [where alts = "[R_const_value]"])
    (use conforms_fits [OF assms(2, 1)] in \<open>auto intro: runs_const_value\<close>)

lemma runs_directive:
  assumes "as_rule p = R_directive" "conforms p"
  shows "runs input (p # out) (parse_directive read p) out (\<lambda>_. True)"
  unfolding parse_directive_def
proof (rule runs_step_bind, rule runs_next)
  show "fits [One [R_name], Opt R_arguments] (into_inner p)"
    using conforms_fits [OF assms(2, 1)] by simp
  fix at n rest
  assume "as_rule n \<in> set [R_name]" "conforms n" and rest: "fits [Opt R_arguments] rest"
  then show "runs input (n # rest @ out) (p_bind (parse_name n) (\<lambda>nm.
       p_bind (parse_if_rule R_arguments (parse_arguments read) rest) (\<lambda>(args, _).
         p_return (Positioned at \<lparr>dir_name = nm, dir_arguments = or_default args\<rparr>)))) out (\<lambda>_. True)"
    by (intro runs_bind_any [OF runs_name] runs_if_rule [OF rest, where P = "\<lambda>_. True"])
      (auto intro: runs_arguments runs_return)
qed

lemma runs_directives:
  assumes "as_rule p = R_directives" "conforms p"
  shows "runs input (p # out) (parse_directives read p) out (\<lambda>_. True)"
  unfolding parse_directives_def
  by (rule runs_true, rule runs_members [where r = R_directive and P = "\<lambda>_. True"])
    (use assms conforms_many [OF assms(2)] in \<open>auto intro: runs_directive\<close>)

lemma runs_opt_directives:
  assumes "fits (Opt R_directives # prs) ps"
    "\<And>ds rest. fits prs rest \<Longrightarrow> runs input (rest @ out) (k (ds, rest)) qs Q"
  shows "runs input (ps @ out) (p_bind (parse_opt_directives read ps) k) qs Q"
proof -
  have "p_bind (parse_opt_directives read ps) k =
      p_bind (parse_if_rule R_directives (parse_directives read) ps) (\<lambda>(ds, rest). k (or_default ds, rest))"
    by (auto simp: parse_opt_directives_def p_map_def p_bind_def p_return_def fun_eq_iff run_bind_assoc
        intro!: arg_cong [where f = "run_bind _"] split: sum.split prod.split)
  then show ?thesis
    using assms by (auto intro!: runs_if_rule [where P = "\<lambda>_. True"] intro: runs_directives)
qed

lemma runs_variable_definition:
  assumes "as_rule p = R_variable_definition" "conforms p"
  shows "runs input (p # out) (parse_variable_definition read p) out (\<lambda>_. True)"
  unfolding parse_variable_definition_def
proof (rule runs_step_bind, rule runs_next)
  show "fits [One [R_variable], One [R_type], Opt R_directives, Opt R_default_value] (into_inner p)"
    using conforms_fits [OF assms(2, 1)] by simp
  fix at n rest
  assume n: "as_rule n \<in> set [R_variable]" "conforms n" and rest: "fits [One [R_type], Opt R_directives, Opt R_default_value] rest"
  show "runs input (n # rest @ out) (p_bind (parse_variable n) (\<lambda>nm.
     next_pair rest (\<lambda>t pairs. p_bind (parse_type t) (\<lambda>ty.
     p_bind (parse_opt_directives read pairs) (\<lambda>(ds, pairs).
     p_bind (parse_if_rule R_default_value (parse_default_value read) pairs) (\<lambda>(dv, _).
       p_return (Positioned at
         \<lparr>vd_name = nm, vd_type = ty, vd_directives = ds, vd_default_value = dv\<rparr>))))))) out (\<lambda>_. True)"
  proof (rule runs_bind_any [OF runs_variable], rule n(1) [simplified], rule n(2), rule runs_next [OF rest])
    fix nm t pairs
    assume "as_rule t \<in> set [R_type]" "conforms t" and pairs: "fits [Opt R_directives, Opt R_default_value] pairs"
    then show "runs input (t # pairs @ out) (p_bind (parse_type t) (\<lambda>ty.
     p_bind (parse_opt_directives read pairs) (\<lambda>(ds, pairs).
     p_bind (parse_if_rule R_default_value (parse_default_value read) pairs) (\<lambda>(dv, _).
       p_return (Positioned at
         \<lparr>vd_name = nm, vd_type = ty, vd_directives = ds, vd_default_value = dv\<rparr>))))) out (\<lambda>_. True)"
      by (auto intro!: runs_bind_any [OF runs_type] runs_opt_directives [OF pairs]
          runs_if_rule [where P = "\<lambda>_. True" and r = R_default_value] intro: runs_default_value runs_return)
  qed
qed

lemma runs_variable_definitions:
  assumes "as_rule p = R_variable_definitions" "conforms p"
  shows "runs input (p # out) (parse_variable_definitions read p) out (\<lambda>_. True)"
  unfolding parse_variable_definitions_def
  by (rule runs_true, rule runs_members [where r = R_variable_definition and P = "\<lambda>_. True"])
    (use conforms_fits [OF assms(2, 1)] in \<open>auto intro: runs_variable_definition\<close>)

subsection \<open>Selections\<close>

text \<open>Selection sets nested at most so deep; a leaf field has an empty one.\<close>

fun nested_within :: "nat \<Rightarrow> selection_set \<Rightarrow> bool" where
  "nested_within 0 ss \<longleftrightarrow> items ss = []"
| "nested_within (Suc d) ss \<longleftrightarrow>
     list_all (\<lambda>s. case node s of
         SelField f \<Rightarrow> nested_within d (node (f_selection_set (node f)))
       | SelSpread _ \<Rightarrow> True
       | SelInline i \<Rightarrow> nested_within d (node (if_selection_set (node i)))) (items ss)"

lemma nested_within_empty [simp]: "nested_within d (SelSet [])"
  by (cases d) simp_all

lemma runs_type_condition:
  assumes "as_rule p = R_type_condition" "conforms p"
  shows "runs input (p # out) (parse_type_condition p) out (\<lambda>_. True)"
  unfolding parse_type_condition_def
  by (rule runs_step_bind, rule runs_exactly_one [where alts = "[R_name]"])
    (use conforms_fits [OF assms(2, 1)] in \<open>auto intro: runs_map runs_name\<close>)

lemma runs_fragment_spread:
  assumes "as_rule p = R_fragment_spread" "conforms p"
  shows "runs input (p # out) (parse_fragment_spread read p) out (\<lambda>_. True)"
  unfolding parse_fragment_spread_def
proof (rule runs_step_bind, rule runs_next)
  show "fits [One [R_name], Opt R_directives] (into_inner p)"
    using conforms_fits [OF assms(2, 1)] by simp
  fix at n rest
  assume "as_rule n \<in> set [R_name]" "conforms n" and rest: "fits [Opt R_directives] rest"
  then show "runs input (n # rest @ out) (p_bind (parse_name n) (\<lambda>nm.
       p_bind (parse_opt_directives read rest) (\<lambda>(ds, _).
         p_return (Positioned at \<lparr>fs_fragment_name = nm, fs_directives = ds\<rparr>)))) out (\<lambda>_. True)"
    by (auto intro!: runs_bind_any [OF runs_name] runs_opt_directives [OF rest] intro: runs_return)
qed

lemma runs_inline_fragment:
  assumes "as_rule p = R_inline_fragment" "conforms p"
    and nested: "\<And>q out. as_rule q = R_selection_set \<Longrightarrow> conforms q \<Longrightarrow> runs input (q # out) (nested q) out (\<lambda>ss. P (node ss))"
  shows "runs input (p # out) (parse_inline_fragment read nested p) out (\<lambda>i. P (node (if_selection_set (node i))))"
  unfolding parse_inline_fragment_def
proof (rule runs_step_bind, rule runs_if_rule [where P = "\<lambda>_. True"])
  show "fits [Opt R_type_condition, Opt R_directives, One [R_selection_set]] (into_inner p)"
    using conforms_fits [OF assms(2, 1)] by simp
  fix at tc rest
  assume rest: "fits [Opt R_directives, One [R_selection_set]] rest"
  show "runs input (rest @ out) (case (tc, rest) of (tc, pairs) \<Rightarrow>
     p_bind (parse_opt_directives read pairs) (\<lambda>(ds, pairs).
     next_pair pairs (\<lambda>q _. p_map (\<lambda>ss. Positioned at (InlineFrag tc ds ss)) (nested q)))) out
     (\<lambda>i. P (node (if_selection_set (node i))))"
    by (auto intro!: runs_opt_directives [OF rest] runs_next [where alts = "[R_selection_set]" and prs = "[]"] runs_map nested)
qed (auto intro: runs_type_condition)

lemma runs_field:
  assumes "as_rule p = R_field" "conforms p" "P (SelSet [])"
    and nested: "\<And>q out. as_rule q = R_selection_set \<Longrightarrow> conforms q \<Longrightarrow> runs input (q # out) (nested q) out (\<lambda>ss. P (node ss))"
  shows "runs input (p # out) (parse_field read nested p) out (\<lambda>f. P (node (f_selection_set (node f))))"
  unfolding parse_field_def
proof (rule runs_step_bind, rule runs_if_rule [where P = "\<lambda>_. True"])
  show "fits [Opt R_alias, One [R_name], Opt R_arguments, Opt R_directives, Opt R_selection_set] (into_inner p)"
    using conforms_fits [OF assms(2, 1)] by simp
  fix at and al :: "name positioned option" and rest
  assume rest: "fits [One [R_name], Opt R_arguments, Opt R_directives, Opt R_selection_set] rest"
  have tail: "runs input (n # pairs @ out) (p_bind (parse_name n) (\<lambda>nm.
     p_bind (parse_if_rule R_arguments (parse_arguments read) pairs) (\<lambda>(args, pairs).
     p_bind (parse_opt_directives read pairs) (\<lambda>(ds, pairs).
     p_bind (parse_if_rule R_selection_set nested pairs) (\<lambda>(ss, _).
       p_return (Positioned at (Fld al nm (or_default args) ds
         (case ss of Some x \<Rightarrow> x | None \<Rightarrow> Positioned default_pos (SelSet []))))))))) out
       (\<lambda>f. P (node (f_selection_set (node f))))"
    if n: "as_rule n \<in> set [R_name]" "conforms n" and pairs: "fits [Opt R_arguments, Opt R_directives, Opt R_selection_set] pairs"
    for n pairs
    using n assms(3)
    by (auto intro!: runs_bind_any [OF runs_name] runs_if_rule [OF pairs, where P = "\<lambda>_. True"] runs_arguments
        runs_opt_directives [where prs = "[Opt R_selection_set]"] runs_if_rule [where P = "\<lambda>ss. P (node ss)" and prs = "[]" and r = R_selection_set]
        nested runs_return split: option.split)
  then show "runs input (rest @ out) (case (al, rest) of (al, pairs) \<Rightarrow>
     next_pair pairs (\<lambda>n pairs. p_bind (parse_name n) (\<lambda>nm.
     p_bind (parse_if_rule R_arguments (parse_arguments read) pairs) (\<lambda>(args, pairs).
     p_bind (parse_opt_directives read pairs) (\<lambda>(ds, pairs).
     p_bind (parse_if_rule R_selection_set nested pairs) (\<lambda>(ss, _).
       p_return (Positioned at (Fld al nm (or_default args) ds
         (case ss of Some x \<Rightarrow> x | None \<Rightarrow> Positioned default_pos (SelSet [])))))))))) out
       (\<lambda>f. P (node (f_selection_set (node f))))"
    by (auto intro!: runs_next [OF rest])
qed (auto intro: runs_alias)

lemma runs_selection:
  assumes "as_rule p = R_selection" "conforms p"
    and nested: "\<And>q out. as_rule q = R_selection_set \<Longrightarrow> conforms q \<Longrightarrow>
      runs input (q # out) (nested q) out (\<lambda>ss. nested_within d (node ss))"
  shows "runs input (p # out) (parse_selection read nested p) out (\<lambda>s. nested_within (Suc d) (SelSet [s]))"
  unfolding parse_selection_def
proof (rule runs_step_bind, rule runs_exactly_one)
  show "fits [One [R_field, R_inline_fragment, R_fragment_spread]] (into_inner p)"
    using conforms_fits [OF assms(2, 1)] by simp
  fix at q
  assume q: "as_rule q \<in> set [R_field, R_inline_fragment, R_fragment_spread]" "conforms q"
  then consider "as_rule q = R_field" | "as_rule q = R_inline_fragment" | "as_rule q = R_fragment_spread" by auto
  then show "runs input (q # out) (p_map (Positioned at)
         (case as_rule q of
            R_field \<Rightarrow> p_map SelField (parse_field read nested q)
          | R_fragment_spread \<Rightarrow> p_map SelSpread (parse_fragment_spread read q)
          | R_inline_fragment \<Rightarrow> p_map SelInline (parse_inline_fragment read nested q)
          | _ \<Rightarrow> p_panic)) out (\<lambda>s. nested_within (Suc d) (SelSet [s]))"
  proof cases
    case 1
    show ?thesis
      using runs_field [OF 1 q(2), of "nested_within d"] nested 1 by (auto intro!: runs_map)
  next
    case 2
    show ?thesis
      using runs_inline_fragment [OF 2 q(2), of input nested "nested_within d"] nested 2 by (auto intro!: runs_map)
  next
    case 3
    show ?thesis
      using runs_fragment_spread [OF 3 q(2)] 3 by (auto intro!: runs_map)
  qed
qed

lemma runs_selection_set:
  "as_rule p = R_selection_set \<Longrightarrow> conforms p \<Longrightarrow>
   runs input (p # out) (parse_selection_set read d p) out (\<lambda>ss. nested_within (Suc d) (node ss))"
proof (induction d arbitrary: p out)
  case (Suc d)
  have "runs input (q # out) (parse_selection read (parse_selection_set read d) q) out
      (\<lambda>s. nested_within (Suc (Suc d)) (SelSet [s]))" if "as_rule q = R_selection" "conforms q" for q out
    using that by (intro runs_selection Suc.IH)
  moreover have "fits [Many R_selection] (into_inner p)"
    using Suc.prems by (auto intro: conforms_many)
  ultimately have "runs input (into_inner p @ out) (p_each (parse_selection read (parse_selection_set read d)) (into_inner p)) out
      (list_all (\<lambda>s. nested_within (Suc (Suc d)) (SelSet [s])))"
    by (intro runs_each) (auto simp: fits_Many list_all_iff)
  then have "runs input (into_inner p @ out) (p_each (parse_selection read (parse_selection_set read d)) (into_inner p)) out
      (\<lambda>sels. nested_within (Suc (Suc d)) (SelSet sels))"
    by (rule runs_weaken) (simp add: list_all_iff)
  then show ?case
    by (subst parse_selection_set.simps) (auto intro!: runs_step_bind runs_map)
next
  case 0
  have "runs input (q # out) (parse_selection read (\<lambda>_. p_fail RecursionLimitExceeded) q) out
      (\<lambda>s. nested_within (Suc 0) (SelSet [s]))" if "as_rule q = R_selection" "conforms q" for q out
    using that by (intro runs_selection runs_fail)
  moreover have "fits [Many R_selection] (into_inner p)"
    using 0 by (auto intro: conforms_many)
  ultimately have "runs input (into_inner p @ out) (p_each (parse_selection read (\<lambda>_. p_fail RecursionLimitExceeded)) (into_inner p)) out
      (list_all (\<lambda>s. nested_within (Suc 0) (SelSet [s])))"
    by (intro runs_each) (auto simp: fits_Many list_all_iff)
  then have "runs input (into_inner p @ out) (p_each (parse_selection read (\<lambda>_. p_fail RecursionLimitExceeded)) (into_inner p)) out
      (\<lambda>sels. nested_within (Suc 0) (SelSet sels))"
    by (rule runs_weaken) (simp add: list_all_iff)
  then show ?case
    by (subst parse_selection_set.simps) (auto intro!: runs_step_bind runs_map)
qed

subsection \<open>Definitions\<close>

definition shallow :: "selection_set positioned \<Rightarrow> bool" where
  "shallow ss \<longleftrightarrow> nested_within 65 (node ss)"

lemma runs_top_selection_set:
  "as_rule p = R_selection_set \<Longrightarrow> conforms p \<Longrightarrow>
   runs input (p # out) (parse_selection_set read MAX_RECURSION_DEPTH p) out shallow"
  using runs_selection_set [of p input out read 64]
  by (simp add: MAX_RECURSION_DEPTH_def shallow_def [abs_def] eval_nat_numeral)

lemma runs_named_operation_definition:
  assumes "as_rule p = R_named_operation_definition" "conforms p"
  shows "runs input (p # out) (parse_named_operation_definition read p) out
    (\<lambda>i. shallow (od_selection_set (odi_definition i)))"
  unfolding parse_named_operation_definition_def
proof (rule runs_inner, rule runs_next)
  show "fits [One [R_operation_type], Opt R_name, Opt R_variable_definitions, Opt R_directives, One [R_selection_set]] (into_inner p)"
    using conforms_fits [OF assms(2, 1)] by simp
  fix t pairs
  assume t: "as_rule t \<in> set [R_operation_type]" "conforms t"
    and pairs: "fits [Opt R_name, Opt R_variable_definitions, Opt R_directives, One [R_selection_set]] pairs"
  have sel: "runs input (ps @ out) (next_pair ps (\<lambda>q _. p_map (\<lambda>ss.
       \<lparr>odi_name = nm, odi_definition =
          \<lparr>od_ty = node ty, od_variable_definitions = or_default vds,
           od_directives = ds, od_selection_set = ss\<rparr>\<rparr>)
       (parse_selection_set read MAX_RECURSION_DEPTH q))) out (\<lambda>i. shallow (od_selection_set (odi_definition i)))"
    if "fits [One [R_selection_set]] ps" for ps ty nm vds ds
    by (rule runs_next [OF that]) (auto intro!: runs_map runs_top_selection_set)
  show "runs input (t # pairs @ out) (p_bind (parse_operation_type t) (\<lambda>ty.
     p_bind (parse_if_rule R_name parse_name pairs) (\<lambda>(nm, pairs).
     p_bind (parse_if_rule R_variable_definitions (parse_variable_definitions read) pairs) (\<lambda>(vds, pairs).
     p_bind (parse_opt_directives read pairs) (\<lambda>(ds, pairs).
     next_pair pairs (\<lambda>q _. p_map (\<lambda>ss.
       \<lparr>odi_name = nm, odi_definition =
          \<lparr>od_ty = node ty, od_variable_definitions = or_default vds,
           od_directives = ds, od_selection_set = ss\<rparr>\<rparr>)
       (parse_selection_set read MAX_RECURSION_DEPTH q))))))) out (\<lambda>i. shallow (od_selection_set (odi_definition i)))"
    using t
    by (auto intro!: runs_bind_any [OF runs_operation_type] runs_if_rule [OF pairs, where P = "\<lambda>_. True"] runs_name
        runs_if_rule [where P = "\<lambda>_. True" and r = R_variable_definitions and prs = "[Opt R_directives, One [R_selection_set]]"]
        runs_variable_definitions runs_opt_directives [where prs = "[One [R_selection_set]]"] sel)
qed

lemma runs_operation_definition:
  assumes "as_rule p = R_operation_definition" "conforms p"
  shows "runs input (p # out) (parse_operation_definition_item read p) out
    (\<lambda>i. pos i = source_position input (span_start p) \<and> shallow (od_selection_set (odi_definition (node i))))"
  unfolding parse_operation_definition_item_def
proof (rule runs_step_bind, rule runs_exactly_one)
  show "fits [One [R_named_operation_definition, R_selection_set]] (into_inner p)"
    using conforms_fits [OF assms(2, 1)] by simp
  fix at q
  assume "as_rule q \<in> set [R_named_operation_definition, R_selection_set]" "conforms q" "at = source_position input (span_start p)"
  then show "runs input (q # out) (p_map (Positioned at)
         (case as_rule q of
            R_named_operation_definition \<Rightarrow> parse_named_operation_definition read q
          | R_selection_set \<Rightarrow> p_map (\<lambda>ss.
              \<lparr>odi_name = None, odi_definition =
                 \<lparr>od_ty = Query, od_variable_definitions = [], od_directives = [],
                  od_selection_set = ss\<rparr>\<rparr>) (parse_selection_set read MAX_RECURSION_DEPTH q)
          | _ \<Rightarrow> p_panic)) out
      (\<lambda>i. pos i = source_position input (span_start p) \<and> shallow (od_selection_set (odi_definition (node i))))"
    by (auto intro!: runs_map runs_top_selection_set runs_named_operation_definition)
qed

lemma runs_fragment_definition:
  assumes "as_rule p = R_fragment_definition" "conforms p"
  shows "runs input (p # out) (parse_fragment_definition_item read p) out
    (\<lambda>i. pos i = source_position input (span_start p) \<and> shallow (fd_selection_set (fdi_definition (node i))))"
  unfolding parse_fragment_definition_item_def
proof (rule runs_step_bind, rule runs_next)
  show "fits [One [R_name], One [R_type_condition], Opt R_directives, One [R_selection_set]] (into_inner p)"
    using conforms_fits [OF assms(2, 1)] by simp
  fix at n pairs
  assume at: "at = source_position input (span_start p)" and n: "as_rule n \<in> set [R_name]" "conforms n"
    and pairs: "fits [One [R_type_condition], Opt R_directives, One [R_selection_set]] pairs"
  have sel: "runs input (ps @ out) (next_pair ps (\<lambda>q _. p_map (\<lambda>ss.
       Positioned at \<lparr>fdi_name = nm, fdi_definition =
         \<lparr>fd_type_condition = tc, fd_directives = ds, fd_selection_set = ss\<rparr>\<rparr>)
       (parse_selection_set read MAX_RECURSION_DEPTH q))) out
      (\<lambda>i. pos i = source_position input (span_start p) \<and> shallow (fd_selection_set (fdi_definition (node i))))"
    if "fits [One [R_selection_set]] ps" for ps tc nm ds
    by (rule runs_next [OF that]) (auto simp: at intro!: runs_map runs_top_selection_set)
  show "runs input (n # pairs @ out) (p_bind (parse_name n) (\<lambda>nm.
     next_pair pairs (\<lambda>t pairs. p_bind (parse_type_condition t) (\<lambda>tc.
     p_bind (parse_opt_directives read pairs) (\<lambda>(ds, pairs).
     next_pair pairs (\<lambda>q _. p_map (\<lambda>ss.
       Positioned at \<lparr>fdi_name = nm, fdi_definition =
         \<lparr>fd_type_condition = tc, fd_directives = ds, fd_selection_set = ss\<rparr>\<rparr>)
       (parse_selection_set read MAX_RECURSION_DEPTH q))))))) out
      (\<lambda>i. pos i = source_position input (span_start p) \<and> shallow (fd_selection_set (fdi_definition (node i))))"
    using n
    by (auto intro!: runs_bind_any [OF runs_name] runs_next [OF pairs] runs_bind_any [OF runs_type_condition]
        runs_opt_directives [where prs = "[One [R_selection_set]]"] sel)
qed

fun item_shallow :: "definition_item \<Rightarrow> bool" where
  "item_shallow (ItemOperation item) \<longleftrightarrow> shallow (od_selection_set (odi_definition (node item)))"
| "item_shallow (ItemFragment item) \<longleftrightarrow> shallow (fd_selection_set (fdi_definition (node item)))"

lemma runs_definition_item:
  assumes "as_rule p = R_executable_definition" "conforms p"
  shows "runs input (p # out) (parse_definition_item read p) out item_shallow"
  unfolding parse_definition_item_def
proof (rule runs_inner, rule runs_exactly_one)
  show "fits [One [R_operation_definition, R_fragment_definition]] (into_inner p)"
    using conforms_fits [OF assms(2, 1)] by simp
  fix q
  assume "as_rule q \<in> set [R_operation_definition, R_fragment_definition]" "conforms q"
  then show "runs input (q # out) (case as_rule q of
       R_operation_definition \<Rightarrow> p_map ItemOperation (parse_operation_definition_item read q)
     | R_fragment_definition \<Rightarrow> p_map ItemFragment (parse_fragment_definition_item read q)
     | _ \<Rightarrow> p_panic) out item_shallow"
    by (auto intro!: runs_map runs_weaken [OF runs_operation_definition] runs_weaken [OF runs_fragment_definition])
qed

lemma fits_until_end:
  assumes "fits [One [r], Many r, One [R_EOI]] ps" "r \<noteq> R_EOI"
  obtains ds e where "ps = ds @ [e]" "as_rule e = R_EOI" "list_all (\<lambda>q. as_rule q = r \<and> conforms q) ds"
proof -
  have split: "\<exists>ds e. ps = ds @ [e] \<and> as_rule e = R_EOI \<and> list_all (\<lambda>q. as_rule q = r \<and> conforms q) ds"
    if "fits [Many r, One [R_EOI]] ps" for ps
    using that
  proof (induction ps)
    case (Cons q qs)
    show ?case
    proof (cases "as_rule q = r")
      case True
      then have "fits [Many r, One [R_EOI]] qs" "conforms q"
        using Cons.prems by (auto simp: fits_def)
      then obtain ds e where "qs = ds @ [e]" "as_rule e = R_EOI" "list_all (\<lambda>q. as_rule q = r \<and> conforms q) ds"
        using Cons.IH by blast
      then show ?thesis using True \<open>conforms q\<close> by (intro exI [of _ "q # ds"] exI [of _ e]) simp
    next
      case False
      then show ?thesis
        using Cons.prems by (intro exI [of _ "[]"] exI [of _ q]) (cases qs; auto simp: fits_def)
    qed
  qed (simp add: fits_def)
  obtain q rest where "ps = q # rest" "as_rule q = r" "conforms q" "fits [Many r, One [R_EOI]] rest"
    using assms by (auto simp: fits_One)
  moreover from this(4) obtain ds e where "rest = ds @ [e]" "as_rule e = R_EOI"
    "list_all (\<lambda>q. as_rule q = r \<and> conforms q) ds"
    using split by blast
  ultimately show thesis
    using that [of "q # ds" e] by simp
qed

lemma runs_definition_items:
  assumes "as_rule p = R_executable_document" "conforms p"
  shows "\<exists>out. runs input [p] (parse_definition_items read p) out (list_all item_shallow)"
proof -
  obtain ds e where inner: "into_inner p = ds @ [e]" "as_rule e = R_EOI"
    and ds: "list_all (\<lambda>q. as_rule q = R_executable_definition \<and> conforms q) ds"
    using fits_until_end [of R_executable_definition] conforms_fits [OF assms(2, 1)] by auto
  have "filter (\<lambda>q. as_rule q \<noteq> R_EOI) (into_inner p) = ds"
    using inner ds by (auto simp: list_all_iff)
  then have "runs input (into_inner p @ []) (parse_definition_items read p) [e] (list_all item_shallow)"
    unfolding parse_definition_items_def inner(1)
    by (auto simp: inner(2) intro!: runs_each runs_definition_item) (use ds in \<open>auto simp: list_all_iff\<close>)
  then show ?thesis by (blast intro: runs_inner)
qed

subsection \<open>The document\<close>

fun operation_items :: "definition_item list \<Rightarrow> (name option \<times> operation_definition positioned) list" where
  "operation_items [] = []"
| "operation_items (ItemOperation item # its) =
     (map_option node (odi_name (node item)), Positioned (pos item) (odi_definition (node item))) # operation_items its"
| "operation_items (ItemFragment _ # its) = operation_items its"

fun fragment_items :: "definition_item list \<Rightarrow> (name \<times> fragment_definition positioned) list" where
  "fragment_items [] = []"
| "fragment_items (ItemOperation _ # its) = fragment_items its"
| "fragment_items (ItemFragment item # its) =
     (node (fdi_name (node item)), Positioned (pos item) (fdi_definition (node item))) # fragment_items its"

text \<open>
  The specification's rules on the names of a document: operations have different names, an anonymous one
  is alone, fragments have different names; and there is an operation.
\<close>

definition well_named :: "(name option \<times> 'a) list \<Rightarrow> (name \<times> 'b) list \<Rightarrow> bool" where
  "well_named ops frs \<longleftrightarrow>
     ops \<noteq> [] \<and> distinct (map fst ops) \<and> (None \<in> set (map fst ops) \<longrightarrow> length ops = 1) \<and> distinct (map fst frs)"

definition operations_of :: "document_operations option \<Rightarrow> (name option \<times> operation_definition positioned) list" where
  "operations_of operations = (case operations of None \<Rightarrow> [] | Some ops \<Rightarrow> operations_iter ops)"

definition collected :: "document_operations option \<Rightarrow> (name \<times> fragment_definition positioned) list \<Rightarrow> bool" where
  "collected operations frs \<longleftrightarrow>
     (\<forall>ops. operations = Some ops \<longrightarrow> well_named (operations_iter ops) frs) \<and> distinct (map fst frs)"

text \<open>A step of the collection keeps what is collected well named, or reports a rule that is broken.\<close>

lemma add_operation_cases:
  fixes item :: "operation_definition_item positioned"
  defines "entry \<equiv> (map_option node (odi_name (node item)), Positioned (pos item) (odi_definition (node item)))"
  assumes "collected operations frs"
  shows "(\<exists>e. add_operation item operations = Done (Inl e)) \<and> \<not> well_named (operations_of operations @ entry # others) frs' \<or>
    (\<exists>ops. add_operation item operations = Done (Inr ops) \<and> operations_iter ops = operations_of operations @ [entry] \<and>
       collected (Some ops) frs)"
proof (cases "odi_name (node item)")
  case None
  show ?thesis
  proof (cases operations)
    case (Some ops)
    then have nonempty: "operations_iter ops \<noteq> []" using assms(2) by (simp add: collected_def well_named_def)
    then have "\<exists>at. operation_pos ops = Done at"
      by (cases ops rule: operation_pos.cases) auto
    moreover have "\<not> well_named (operations_of operations @ entry # others) frs'"
      using nonempty by (simp add: well_named_def entry_def None Some operations_of_def)
    ultimately show ?thesis
      by (intro disjI1) (auto simp: add_operation_def None Some)
  next
    case [simp]: None
    show ?thesis
      using assms(2) by (intro disjI2) (simp add: add_operation_def entry_def \<open>odi_name (node item) = None\<close>
        operations_of_def collected_def well_named_def)
  qed
next
  case name: (Some nm)
  show ?thesis
  proof (cases "case operations of Some ops \<Rightarrow> ops | None \<Rightarrow> Multiple []")
    case (Single anonymous)
    then have "operations = Some (Single anonymous)" by (cases operations) auto
    then show ?thesis
      by (intro disjI1) (simp add: add_operation_def name operations_of_def well_named_def)
  next
    case (Multiple ops)
    then have ops: "operations_of operations = map (\<lambda>(n, op). (Some n, op)) ops"
      by (cases operations) (auto simp: operations_of_def)
    have names: "map fst (operations_of operations) = map Some (map fst ops)"
      by (simp add: ops comp_def case_prod_unfold)
    have dist: "distinct (map Some (map fst ops))" "distinct (map fst frs)"
      using assms(2) names by (cases operations; simp add: collected_def well_named_def operations_of_def)+
    show ?thesis
    proof (cases "map_of ops (node nm)")
      case None
      then have fresh: "Some (node nm) \<notin> set (map Some (map fst ops))" by (auto simp: map_of_eq_None_iff image_iff)
      have added: "add_operation item operations = Done (Inr (Multiple (ops @ [(node nm, snd entry)])))"
        by (simp add: add_operation_def name Multiple None entry_def)
      have iter: "operations_iter (Multiple (ops @ [(node nm, snd entry)])) = operations_of operations @ [entry]"
        by (simp add: ops entry_def name)
      have "map fst (operations_of operations @ [entry]) = map Some (map fst ops) @ [Some (node nm)]"
        using names by (simp add: entry_def name)
      then have "well_named (operations_of operations @ [entry]) frs"
        using dist fresh by (auto simp only: well_named_def distinct_append) auto
      then show ?thesis
        using added iter dist(2) by (intro disjI2) (simp add: collected_def)
    next
      case (Some first)
      then have "node nm \<in> fst ` set ops" by (metis map_of_eq_None_iff option.distinct(1))
      then have "Some (node nm) \<in> set (map fst (operations_of operations))" unfolding names by (auto simp: image_iff)
      then have "\<not> well_named (operations_of operations @ entry # others) frs'"
        by (simp add: well_named_def entry_def name)
      then show ?thesis
        by (intro disjI1) (simp add: add_operation_def name Multiple Some)
    qed
  qed
qed

lemma assemble_collects:
  assumes "collected operations frs"
  shows "\<exists>r. assemble its operations frs = Done r \<and>
    (case r of
       Inl _ \<Rightarrow> \<not> well_named (operations_of operations @ operation_items its) (frs @ fragment_items its)
     | Inr doc \<Rightarrow> well_named (operations_of operations @ operation_items its) (frs @ fragment_items its) \<and>
         operations_iter (doc_operations doc) = operations_of operations @ operation_items its \<and>
         doc_fragments doc = frs @ fragment_items its)"
  using assms
proof (induction its arbitrary: operations frs)
  case Nil
  then show ?case
    by (cases operations) (auto simp: collected_def operations_of_def well_named_def)
next
  case (Cons it its)
  show ?case
  proof (cases it)
    case (ItemOperation item)
    note step = add_operation_cases [OF Cons.prems, of item "operation_items its" "frs @ fragment_items its"]
    then show ?thesis
    proof (elim disjE conjE exE)
      fix e
      assume "add_operation item operations = Done (Inl e)"
        and "\<not> well_named (operations_of operations @
          (map_option node (odi_name (node item)), Positioned (pos item) (odi_definition (node item))) # operation_items its)
          (frs @ fragment_items its)"
      then show ?thesis by (simp add: ItemOperation)
    next
      fix ops
      assume "add_operation item operations = Done (Inr ops)" "collected (Some ops) frs"
        "operations_iter ops = operations_of operations @
          [(map_option node (odi_name (node item)), Positioned (pos item) (odi_definition (node item)))]"
      then show ?thesis
        using Cons.IH [of "Some ops" frs] by (simp add: ItemOperation operations_of_def cong: sum.case_cong)
    qed
  next
    case (ItemFragment item)
    let ?nm = "node (fdi_name (node item))"
    let ?entry = "(?nm, Positioned (pos item) (fdi_definition (node item)))"
    show ?thesis
    proof (cases "map_of frs ?nm")
      case None
      then have "collected operations (frs @ [?entry])"
        using Cons.prems by (auto simp: collected_def well_named_def map_of_eq_None_iff)
      then show ?thesis
        using Cons.IH [of operations "frs @ [?entry]"] by (simp add: ItemFragment add_fragment_def None cong: sum.case_cong)
    next
      case (Some first)
      then have "?nm \<in> fst ` set frs" by (metis map_of_eq_None_iff option.distinct(1))
      then have "\<not> distinct (map fst (frs @ fragment_items (it # its)))"
        by (auto simp: ItemFragment)
      then show ?thesis
        by (simp add: ItemFragment add_fragment_def Some well_named_def Let_def)
    qed
  qed
qed

subsection \<open>The properties\<close>


text \<open>C32: The positions are computed step by step as they are defined: for pairs in the order of the source
  the calculator gives the line and the column of each, and it never slices outside the source.\<close>

theorem positions_exact:
  assumes "sorted (map span_start ps)" "list_all (\<lambda>p. boundary input (span_start p)) ps"
  shows "\<exists>pc. p_each pc_step ps (position_calculator_new input) =
    Done (Inr (map (\<lambda>p. source_position input (span_start p)) ps, pc))"
proof -
  have "\<exists>pc'. p_each pc_step ps pc = Done (Inr (map (\<lambda>p. source_position input (span_start p)) ps, pc'))"
    if "consistent input pc" "sorted (pc_pos pc # map span_start ps)" for pc
    using that assms(2)
  proof (induction ps arbitrary: pc)
    case Nil
    then show ?case by (simp add: p_return_def)
  next
    case (Cons p ps)
    then have "pc_pos pc \<le> span_start p" "boundary input (span_start p)" by simp_all
    from pc_step_consistent [OF Cons.prems(1) this] obtain pc1
      where pc1: "pc_step p pc = Done (Inr (source_position input (span_start p), pc1))"
        "consistent input pc1" "pc_pos pc1 = span_start p" .
    then obtain pc2 where "p_each pc_step ps pc1 = Done (Inr (map (\<lambda>p. source_position input (span_start p)) ps, pc2))"
      using Cons.IH [of pc1] Cons.prems by auto
    then show ?case using pc1(1) by (simp add: p_bind_def p_map_def p_return_def)
  qed
  from this [OF consistent_new] show ?thesis
    using assms(1) by (simp add: position_calculator_new_def)
qed

text \<open>C30: On a tree of the grammar the conversion never panics: an error or a document is returned, and the
  document's names are right and its selection sets are nested at most 65 deep.\<close>

theorem parse_query_returns:
  assumes "\<And>pairs. grammar input = Inr pairs \<Longrightarrow>
    \<exists>p rest. pairs = p # rest \<and> as_rule p = R_executable_document \<and> conforms p \<and> spans input p"
  shows "\<exists>r. parse_query grammar read input = Done r \<and>
    (\<forall>doc. r = Inr doc \<longrightarrow>
       well_named (operations_iter (doc_operations doc)) (doc_fragments doc) \<and>
       list_all (\<lambda>(_, op). shallow (od_selection_set (node op))) (operations_iter (doc_operations doc)) \<and>
       list_all (\<lambda>(_, f). shallow (fd_selection_set (node f))) (doc_fragments doc))"
proof (cases "grammar input")
  case (Inl e)
  then show ?thesis by (simp add: parse_query_def)
next
  case (Inr pairs)
  then obtain p rest where p: "pairs = p # rest" "as_rule p = R_executable_document" "conforms p" "spans input p"
    using assms by blast
  obtain out where out: "runs input [p] (parse_definition_items read p) out (list_all item_shallow)"
    using runs_definition_items [OF p(2, 3)] by blast
  have "ready input [p] (position_calculator_new input)"
    using p(4) by (rule ready_start)
  then consider e where "parse_definition_items read p (position_calculator_new input) = Done (Inl e)"
    | its pc where "parse_definition_items read p (position_calculator_new input) = Done (Inr (its, pc))" "list_all item_shallow its"
    using out unfolding runs_def by blast
  then show ?thesis
  proof cases
    case (1 e)
    then show ?thesis by (simp add: parse_query_def Inr p(1) exactly_one_def)
  next
    case (2 its pc)
    have "list_all (\<lambda>(_, op). shallow (od_selection_set (node op))) (operation_items its)"
      "list_all (\<lambda>(_, f). shallow (fd_selection_set (node f))) (fragment_items its)"
      using 2(2) by (induction its rule: operation_items.induct) auto
    moreover obtain r where "assemble its None [] = Done r"
      "case r of Inl _ \<Rightarrow> \<not> well_named (operation_items its) (fragment_items its)
       | Inr doc \<Rightarrow> well_named (operation_items its) (fragment_items its) \<and>
         operations_iter (doc_operations doc) = operation_items its \<and> doc_fragments doc = fragment_items its"
      using assemble_collects [of None "[]" its] by (simp add: collected_def operations_of_def cong: sum.case_cong) blast
    ultimately show ?thesis
      using 2(1) by (cases r) (simp_all add: parse_query_def Inr p(1) exactly_one_def)
  qed
qed

text \<open>The tree of a small query, and a run of the two.\<close>

definition small_query :: string where
  "small_query = ''query Q { a: b { c } }''"

definition small_pairs :: "pair list" where
  "small_pairs =
    [Pair R_executable_document ''query Q { a: b { c } }'' 0
      [Pair R_executable_definition ''query Q { a: b { c } }'' 0
        [Pair R_operation_definition ''query Q { a: b { c } }'' 0
          [Pair R_named_operation_definition ''query Q { a: b { c } }'' 0
            [Pair R_operation_type ''query'' 0 [], Pair R_name ''Q'' 6 [],
             Pair R_selection_set ''{ a: b { c } }'' 8
               [Pair R_selection ''a: b { c }'' 10
                 [Pair R_field ''a: b { c }'' 10
                   [Pair R_alias ''a:'' 10 [Pair R_name ''a'' 10 []], Pair R_name ''b'' 13 [],
                    Pair R_selection_set ''{ c }'' 15
                      [Pair R_selection ''c'' 17 [Pair R_field ''c'' 17 [Pair R_name ''c'' 17 []]]]]]]]]],
       Pair R_EOI [] 22 []]]"

lemma small_tree:
  "\<exists>p rest. small_pairs = p # rest \<and> as_rule p = R_executable_document \<and> conforms p \<and> spans small_query p"
proof -
  have "conforms (hd small_pairs)" "spans small_query (hd small_pairs)" "as_rule (hd small_pairs) = R_executable_document"
    "small_pairs = hd small_pairs # tl small_pairs"
    by code_simp+
  then show ?thesis by blast
qed

theorem parse_query_returns_witness:
  "\<exists>doc. parse_query (\<lambda>_. Inr small_pairs) (\<lambda>_. Inl []) small_query = Done (Inr doc) \<and>
     map fst (operations_iter (doc_operations doc)) = [Some ''Q''] \<and>
     well_named (operations_iter (doc_operations doc)) (doc_fragments doc)"
proof -
  have "\<exists>r. parse_query (\<lambda>_. Inr small_pairs) (\<lambda>_. Inl []) small_query = Done r \<and>
      (\<forall>doc. r = Inr doc \<longrightarrow> well_named (operations_iter (doc_operations doc)) (doc_fragments doc))"
    using parse_query_returns [where grammar = "\<lambda>_. Inr small_pairs" and input = small_query and read = "\<lambda>_. Inl []"]
      small_tree by fastforce
  moreover have "case parse_query (\<lambda>_. Inr small_pairs) (\<lambda>_. Inl []) small_query of
      Done (Inr doc) \<Rightarrow> map fst (operations_iter (doc_operations doc)) = [Some ''Q''] | _ \<Rightarrow> False"
    by code_simp
  ultimately obtain r where r: "parse_query (\<lambda>_. Inr small_pairs) (\<lambda>_. Inl []) small_query = Done r"
    "\<forall>doc. r = Inr doc \<longrightarrow> well_named (operations_iter (doc_operations doc)) (doc_fragments doc)"
    "case r of Inr doc \<Rightarrow> map fst (operations_iter (doc_operations doc)) = [Some ''Q''] | Inl _ \<Rightarrow> False"
    by auto
  then show ?thesis by (cases r) auto
qed

theorem positions_exact_witness:
  "\<exists>pc. p_each pc_step [Pair R_name ''a'' 1 [], Pair R_name ''b'' 4 []]
      (position_calculator_new ([CHR '' '', CHR ''a'', CHR 0x0D, CHR 0x0A, CHR ''b''])) =
    Done (Inr ([Pos 1 2, Pos 2 1], pc))"
proof -
  let ?input = "[CHR '' '', CHR ''a'', CHR 0x0D, CHR 0x0A, CHR ''b'']"
  let ?ps = "[Pair R_name ''a'' 1 [], Pair R_name ''b'' 4 []]"
  have "sorted (map span_start ?ps)" "list_all (\<lambda>p. boundary ?input (span_start p)) ?ps"
    "map (\<lambda>p. source_position ?input (span_start p)) ?ps = [Pos 1 2, Pos 2 1]"
    by code_simp+
  then show ?thesis using positions_exact [of ?ps ?input] by simp
qed

end
