(* ===== verification/Parse_Schema_Facts.thy ===== *)
theory Parse_Schema_Facts
  imports Parse_Schema Parse_Facts
begin

text \<open>
  On a tree of the grammar the conversion to a schema document does not panic; what the schema and the
  directives of the document satisfy.
\<close>

subsection \<open>Directives without variables\<close>

lemma runs_const_arguments:
  assumes "as_rule p = R_const_arguments" "conforms p"
  shows "runs input (p # out) (parse_const_arguments read p) out (\<lambda>_. True)"
  unfolding parse_const_arguments_def
  by (rule runs_object [where r = R_const_argument and s = R_const_value])
    (use assms conforms_many [OF assms(2)] in \<open>auto intro: runs_const_value\<close>)

lemma runs_const_directive:
  assumes "as_rule p = R_const_directive" "conforms p"
  shows "runs input (p # out) (parse_const_directive read p) out (\<lambda>_. True)"
  unfolding parse_const_directive_def
proof (rule runs_step_bind, rule runs_next)
  show "fits [One [R_name], Opt R_const_arguments] (into_inner p)"
    using conforms_fits [OF assms(2, 1)] by simp
  fix at n rest
  assume "as_rule n \<in> set [R_name]" "conforms n" and rest: "fits [Opt R_const_arguments] rest"
  then show "runs input (n # rest @ out) (p_bind (parse_name n) (\<lambda>nm.
       p_bind (parse_if_rule R_const_arguments (parse_const_arguments read) rest) (\<lambda>(args, _).
         p_return (Positioned at \<lparr>cdir_name = nm, cdir_arguments = or_default args\<rparr>)))) out (\<lambda>_. True)"
    by (intro runs_bind_any [OF runs_name] runs_if_rule [OF rest, where P = "\<lambda>_. True"])
      (auto intro: runs_const_arguments runs_return)
qed

lemma runs_const_directives:
  assumes "as_rule p = R_const_directives" "conforms p"
  shows "runs input (p # out) (parse_const_directives read p) out (\<lambda>_. True)"
  unfolding parse_const_directives_def
  by (rule runs_true, rule runs_members [where r = R_const_directive and P = "\<lambda>_. True"])
    (use assms conforms_many [OF assms(2)] in \<open>auto intro: runs_const_directive\<close>)

lemma runs_opt_const_directives:
  assumes "fits (Opt R_const_directives # prs) ps"
    "\<And>ds rest. fits prs rest \<Longrightarrow> runs input (rest @ out) (k (ds, rest)) qs Q"
  shows "runs input (ps @ out) (p_bind (parse_opt_const_directives read ps) k) qs Q"
proof -
  have "p_bind (parse_opt_const_directives read ps) k =
      p_bind (parse_if_rule R_const_directives (parse_const_directives read) ps) (\<lambda>(ds, rest). k (or_default ds, rest))"
    by (auto simp: parse_opt_const_directives_def p_map_def p_bind_def p_return_def fun_eq_iff run_bind_assoc
        intro!: arg_cong [where f = "run_bind _"] split: sum.split prod.split)
  then show ?thesis
    using assms by (auto intro!: runs_if_rule [where P = "\<lambda>_. True"] intro: runs_const_directives)
qed

subsection \<open>Fields and input values\<close>

text \<open>An optional description, then the rest.\<close>

lemma runs_description:
  assumes "fits (Opt R_string # prs) ps"
    "\<And>desc rest. fits prs rest \<Longrightarrow> runs input (rest @ out) (k (desc, rest)) qs Q"
  shows "runs input (ps @ out) (p_bind (parse_if_rule R_string parse_string ps) k) qs Q"
  using assms by (auto intro!: runs_if_rule [where P = "\<lambda>_. True"] intro: runs_string)

lemma runs_next_name:
  assumes "fits (One [R_name] # prs) ps" "\<And>nm rest. fits prs rest \<Longrightarrow> runs input (rest @ out) (k nm rest) qs Q"
  shows "runs input (ps @ out) (next_pair ps (\<lambda>n rest. p_bind (parse_name n) (\<lambda>nm. k nm rest))) qs Q"
  using assms by (auto intro!: runs_next [OF assms(1)] runs_bind_any [OF runs_name])

lemma runs_next_type:
  assumes "fits (One [R_type] # prs) ps" "\<And>ty rest. fits prs rest \<Longrightarrow> runs input (rest @ out) (k ty rest) qs Q"
  shows "runs input (ps @ out) (next_pair ps (\<lambda>t rest. p_bind (parse_type t) (\<lambda>ty. k ty rest))) qs Q"
  using assms by (auto intro!: runs_next [OF assms(1)] runs_bind_any [OF runs_type])

lemma runs_input_value_definition:
  assumes "as_rule p = R_input_value_definition" "conforms p"
  shows "runs input (p # out) (parse_input_value_definition read p) out (\<lambda>_. True)"
  unfolding parse_input_value_definition_def
proof (rule runs_step_bind, rule runs_description)
  show "fits [Opt R_string, One [R_name], One [R_type], Opt R_default_value, Opt R_const_directives] (into_inner p)"
    using conforms_fits [OF assms(2, 1)] by simp
  fix at desc rest
  assume rest: "fits [One [R_name], One [R_type], Opt R_default_value, Opt R_const_directives] rest"
  show "runs input (rest @ out) (case (desc, rest) of (desc, pairs) \<Rightarrow>
     next_pair pairs (\<lambda>n pairs. p_bind (parse_name n) (\<lambda>nm.
     next_pair pairs (\<lambda>t pairs. p_bind (parse_type t) (\<lambda>ty.
     p_bind (parse_if_rule R_default_value (parse_default_value read) pairs) (\<lambda>(dv, pairs).
     p_bind (parse_opt_const_directives read pairs) (\<lambda>(ds, _).
       p_return (Positioned at
         \<lparr>ivd_description = desc, ivd_name = nm, ivd_ty = ty, ivd_default_value = dv, ivd_directives = ds\<rparr>)))))))) out (\<lambda>_. True)"
    by (auto intro!: runs_next_name [OF rest] runs_next_type
        runs_if_rule [where P = "\<lambda>_. True" and r = R_default_value and prs = "[Opt R_const_directives]"] runs_default_value
        runs_opt_const_directives [where prs = "[]"] runs_return)
qed

lemma runs_arguments_definition:
  assumes "as_rule p = R_arguments_definition" "conforms p"
  shows "runs input (p # out) (parse_arguments_definition read p) out (\<lambda>_. True)"
  unfolding parse_arguments_definition_def
  by (rule runs_true, rule runs_members [where r = R_input_value_definition and P = "\<lambda>_. True"])
    (use assms conforms_many [OF assms(2)] in \<open>auto intro: runs_input_value_definition\<close>)

lemma runs_field_definition:
  assumes "as_rule p = R_field_definition" "conforms p"
  shows "runs input (p # out) (parse_field_definition read p) out (\<lambda>_. True)"
  unfolding parse_field_definition_def
proof (rule runs_step_bind, rule runs_description)
  show "fits [Opt R_string, One [R_name], Opt R_arguments_definition, One [R_type], Opt R_const_directives] (into_inner p)"
    using conforms_fits [OF assms(2, 1)] by simp
  fix at desc rest
  assume rest: "fits [One [R_name], Opt R_arguments_definition, One [R_type], Opt R_const_directives] rest"
  show "runs input (rest @ out) (case (desc, rest) of (desc, pairs) \<Rightarrow>
     next_pair pairs (\<lambda>n pairs. p_bind (parse_name n) (\<lambda>nm.
     p_bind (parse_if_rule R_arguments_definition (parse_arguments_definition read) pairs) (\<lambda>(args, pairs).
     next_pair pairs (\<lambda>t pairs. p_bind (parse_type t) (\<lambda>ty.
     p_bind (parse_opt_const_directives read pairs) (\<lambda>(ds, _).
       p_return (Positioned at
         \<lparr>fld_description = desc, fld_name = nm, fld_arguments = or_default args, fld_ty = ty, fld_directives = ds\<rparr>)))))))) out (\<lambda>_. True)"
    by (auto intro!: runs_next_name [OF rest]
        runs_if_rule [where P = "\<lambda>_. True" and r = R_arguments_definition and prs = "[One [R_type], Opt R_const_directives]"]
        runs_arguments_definition runs_next_type runs_opt_const_directives [where prs = "[]"] runs_return)
qed

lemma runs_fields_definition:
  assumes "as_rule p = R_fields_definition" "conforms p"
  shows "runs input (p # out) (parse_fields_definition read p) out (\<lambda>_. True)"
  unfolding parse_fields_definition_def
  by (rule runs_true, rule runs_members [where r = R_field_definition and P = "\<lambda>_. True"])
    (use assms conforms_many [OF assms(2)] in \<open>auto intro: runs_field_definition\<close>)

lemma runs_enum_value_definition:
  assumes "as_rule p = R_enum_value_definition" "conforms p"
  shows "runs input (p # out) (parse_enum_value_definition read p) out (\<lambda>_. True)"
  unfolding parse_enum_value_definition_def
proof (rule runs_step_bind, rule runs_description)
  show "fits [Opt R_string, One [R_enum_value], Opt R_const_directives] (into_inner p)"
    using conforms_fits [OF assms(2, 1)] by simp
  fix at desc rest
  assume rest: "fits [One [R_enum_value], Opt R_const_directives] rest"
  show "runs input (rest @ out) (case (desc, rest) of (desc, pairs) \<Rightarrow>
     next_pair pairs (\<lambda>v pairs. p_bind (parse_enum_value v) (\<lambda>ev.
     p_bind (parse_opt_const_directives read pairs) (\<lambda>(ds, _).
       p_return (Positioned at \<lparr>evd_description = desc, evd_value = ev, evd_directives = ds\<rparr>))))) out (\<lambda>_. True)"
    by (auto intro!: runs_next [OF rest] runs_bind_any [OF runs_enum_value]
        runs_opt_const_directives [where prs = "[]"] runs_return)
qed

lemma runs_names:
  assumes "as_rule p \<in> {R_implements_interfaces, R_union_member_types}" "conforms p"
  shows "runs input (p # out) (parse_names p) out (\<lambda>_. True)"
  unfolding parse_names_def
  by (rule runs_true, rule runs_members [where r = R_name and P = "\<lambda>_. True"])
    (use assms conforms_many [OF assms(2)] in \<open>auto intro: runs_name\<close>)

subsection \<open>Definitions of types\<close>

lemma runs_fielded:
  assumes "fits [Opt R_implements_interfaces, Opt R_const_directives, Opt R_fields_definition] ps"
  shows "runs input (ps @ out) (parse_fielded read kind ps) out (\<lambda>_. True)"
  unfolding parse_fielded_def using assms
  by (auto intro!: runs_if_rule [where P = "\<lambda>_. True" and r = R_implements_interfaces and prs = "[Opt R_const_directives, Opt R_fields_definition]"]
      runs_names runs_opt_const_directives [where prs = "[Opt R_fields_definition]"]
      runs_if_rule [where P = "\<lambda>_. True" and r = R_fields_definition and prs = "[]"] runs_fields_definition runs_return)

text \<open>Directives, then an optional list: unions, enums and input objects.\<close>

lemma runs_directives_then:
  assumes "fits [Opt R_const_directives, Opt r] ps"
    "\<And>q out. as_rule q = r \<Longrightarrow> conforms q \<Longrightarrow> runs input (q # out) (f q) out (\<lambda>_. True)"
  shows "runs input (ps @ out) (p_bind (parse_opt_const_directives read ps) (\<lambda>(ds, pairs).
    p_map (\<lambda>(xs, _). g ds xs) (parse_if_rule r f pairs))) out (\<lambda>_. True)"
  using assms unfolding p_map_def
  by (auto intro!: runs_opt_const_directives [where prs = "[Opt r]"] runs_if_rule [where P = "\<lambda>_. True" and r = r and prs = "[]"] runs_return)

lemma runs_members_of:
  assumes "as_rule q = r" "conforms q" "production r = [One [s], Many s]"
    "\<And>x out. as_rule x = s \<Longrightarrow> conforms x \<Longrightarrow> runs input (x # out) (f x) out (\<lambda>_. True)"
  shows "runs input (q # out) (p_each f (into_inner q)) out (\<lambda>_. True)"
  by (rule runs_true, rule runs_members [where r = s and P = "\<lambda>_. True"])
    (use assms conforms_many [of q s] in auto)

definition kind_production :: "rule \<Rightarrow> production_item list" where
  "kind_production r = drop 3 (production r)"

lemma runs_type_kind:
  assumes "r \<in> {R_scalar_type, R_object_type, R_interface_type, R_union_type, R_enum_type, R_input_object_type}"
    "fits (kind_production r) ps"
  shows "runs input (ps @ out) (parse_type_kind read r ps) out (\<lambda>_. True)"
proof -
  consider "r = R_scalar_type" | "r = R_object_type" | "r = R_interface_type" | "r = R_union_type" | "r = R_enum_type"
    | "r = R_input_object_type" using assms(1) by blast
  then show ?thesis
  proof cases
    case 1
    then show ?thesis
      using assms(2) unfolding p_map_def
      by (auto simp: parse_type_kind_def kind_production_def p_map_def intro!: runs_opt_const_directives [where prs = "[]"] runs_return)
  next
    case 2
    then show ?thesis using assms(2) by (simp add: parse_type_kind_def kind_production_def runs_fielded)
  next
    case 3
    then show ?thesis using assms(2) by (simp add: parse_type_kind_def kind_production_def runs_fielded)
  next
    case 4
    then show ?thesis
      using assms(2) by (auto simp: parse_type_kind_def kind_production_def intro!: runs_directives_then runs_names)
  next
    case 5
    then show ?thesis
      using assms(2)
      by (auto simp: parse_type_kind_def kind_production_def intro!: runs_directives_then
          runs_members_of [where s = R_enum_value_definition] runs_enum_value_definition)
  next
    case 6
    then show ?thesis
      using assms(2)
      by (auto simp: parse_type_kind_def kind_production_def intro!: runs_directives_then
          runs_members_of [where s = R_input_value_definition] runs_input_value_definition)
  qed
qed

lemma runs_optional_pair:
  assumes "fits (Opt r # prs) ps" "\<And>x rest. fits prs rest \<Longrightarrow> runs input (rest @ out) (k x rest) qs Q"
  shows "runs input (ps @ out) (let (x, rest) = next_if_rule r ps in k x rest) qs Q"
proof (cases "\<exists>p rest. ps = p # rest \<and> as_rule p = r")
  case True
  then obtain p rest where ps: "ps = p # rest" "as_rule p = r" by blast
  then have "fits prs rest" using assms(1) by (auto simp: fits_def)
  then show ?thesis using ps assms(2) by (auto simp: next_if_rule_def intro: runs_drop)
next
  case False
  then have "fits prs ps" "next_if_rule r ps = (None, ps)"
    using assms(1) by (cases ps; auto simp: fits_def next_if_rule_def)+
  then show ?thesis using assms(2) by simp
qed

lemma runs_type_definition:
  assumes "as_rule p = R_type_definition" "conforms p"
  shows "runs input (p # out) (parse_type_definition read p) out (\<lambda>_. True)"
  unfolding parse_type_definition_def
proof (rule runs_step_bind, rule runs_exactly_one)
  let ?kinds = "[R_scalar_type, R_object_type, R_interface_type, R_union_type, R_enum_type, R_input_object_type]"
  show "fits [One ?kinds] (into_inner p)"
    using conforms_fits [OF assms(2, 1)] by simp
  fix at q
  assume q: "as_rule q \<in> set ?kinds" "conforms q"
  then have "production (as_rule q) = Opt R_string # Opt R_extend # One [R_name] # kind_production (as_rule q)"
    by (auto simp: kind_production_def)
  then have inner: "fits (Opt R_string # Opt R_extend # One [R_name] # kind_production (as_rule q)) (into_inner q)"
    using conforms_fits [OF q(2) refl] by simp
  show "runs input (q # out) (p_bind (parse_if_rule R_string parse_string (into_inner q)) (\<lambda>(desc, pairs).
     let (extend, pairs) = next_if_rule R_extend pairs in
     next_pair pairs (\<lambda>n pairs. p_bind (parse_name n) (\<lambda>nm.
     p_map (\<lambda>(ds, kind). Positioned at
         \<lparr>td_extend = extend \<noteq> None, td_description = desc, td_name = nm, td_directives = ds, td_kind = kind\<rparr>)
       (parse_type_kind read (as_rule q) pairs))))) out (\<lambda>_. True)"
  proof (rule runs_inner, rule runs_description [OF inner], unfold prod.case)
    fix desc rest
    assume rest: "fits (Opt R_extend # One [R_name] # kind_production (as_rule q)) rest"
    show "runs input (rest @ out) (let (extend, pairs) = next_if_rule R_extend rest in
     next_pair pairs (\<lambda>n pairs. p_bind (parse_name n) (\<lambda>nm.
     p_map (\<lambda>(ds, kind). Positioned at
         \<lparr>td_extend = extend \<noteq> None, td_description = desc, td_name = nm, td_directives = ds, td_kind = kind\<rparr>)
       (parse_type_kind read (as_rule q) pairs)))) out (\<lambda>_. True)"
      by (rule runs_optional_pair [OF rest]) (use q(1) in \<open>auto intro!: runs_next_name runs_map runs_type_kind\<close>)
  qed
qed

subsection \<open>The schema and the directives\<close>

lemma runs_roots:
  assumes "list_all (\<lambda>q. as_rule q = R_operation_type_definition \<and> conforms q) qs"
  shows "runs input (qs @ out) (parse_roots at qs sd) out (\<lambda>_. True)"
  using assms
proof (induction qs arbitrary: sd)
  case (Cons q qs)
  then have fit: "fits [One [R_operation_type], One [R_name]] (into_inner q)"
    using conforms_fits [of q] by simp
  have rest: "runs input (qs @ out) (case set_root at ty nm sd of Inl e \<Rightarrow> p_fail e | Inr sd' \<Rightarrow> parse_roots at qs sd') out (\<lambda>_. True)" for ty nm
    using Cons by (auto split: sum.split intro: runs_fail)
  have "runs input (into_inner q @ (qs @ out))
     (next_pair (into_inner q) (\<lambda>t pairs. p_bind (parse_operation_type t) (\<lambda>ty.
     next_pair pairs (\<lambda>n _. p_bind (parse_name n) (\<lambda>nm.
       case set_root at ty nm sd of Inl e \<Rightarrow> p_fail e | Inr sd' \<Rightarrow> parse_roots at qs sd'))))) out (\<lambda>_. True)"
    using rest by (auto intro!: runs_next [OF fit] runs_bind_any [OF runs_operation_type] runs_next_name [where prs = "[]"])
  then show ?case by (simp add: runs_inner)
qed (simp add: runs_return)

definition has_query_root :: "schema_definition \<Rightarrow> bool" where
  "has_query_root sd \<longleftrightarrow> sd_extend sd \<or> sd_query sd \<noteq> None"

lemma runs_schema_definition:
  assumes "as_rule p = R_schema_definition" "conforms p"
  shows "runs input (p # out) (parse_schema_definition read p) out (\<lambda>sd. has_query_root (node sd))"
  unfolding parse_schema_definition_def
proof (rule runs_step_bind, rule runs_optional_pair)
  show "fits [Opt R_extend, Opt R_const_directives, Many R_operation_type_definition] (into_inner p)"
    using conforms_fits [OF assms(2, 1)] by simp
  fix at extend rest
  assume rest: "fits [Opt R_const_directives, Many R_operation_type_definition] rest"
  show "runs input (rest @ out) (p_bind (parse_opt_const_directives read rest) (\<lambda>(ds, pairs).
     p_bind (parse_roots at pairs
       \<lparr>sd_extend = extend \<noteq> None, sd_directives = ds, sd_query = None, sd_mutation = None, sd_subscription = None\<rparr>) (\<lambda>sd.
     if \<not> sd_extend sd \<and> sd_query sd = None then p_fail (MissingQueryRoot at)
     else p_return (Positioned at sd)))) out (\<lambda>sd. has_query_root (node sd))"
    by (auto simp: fits_Many has_query_root_def intro!: runs_opt_const_directives [OF rest] runs_bind_any [OF runs_roots] runs_fail runs_return)
qed

lemma read_location_texts: "s \<in> set directive_location_texts \<Longrightarrow> read_location s \<noteq> None"
  by (auto simp: directive_location_texts_def read_location_def)

lemma runs_directive_location:
  assumes "as_rule p = R_directive_location" "conforms p"
  shows "runs input (p # out) (parse_directive_location p) out (\<lambda>_. True)"
  unfolding parse_directive_location_def using assms conforms_fits [OF assms(2, 1)] read_location_texts [of "as_str p"]
  by (intro runs_step_leaf) (auto simp: conforms_iff [of p] leaf_text_def intro: runs_return)

lemma runs_repeatable:
  assumes "fits (One [R_repeatable] # prs) ps" "\<And>rest. fits prs rest \<Longrightarrow> runs input (rest @ out) (k (Some (), rest)) qs Q"
  shows "runs input (ps @ out) (p_bind (parse_if_rule R_repeatable (\<lambda>_. p_return ()) ps) k) qs Q"
proof -
  obtain q rest where q: "ps = q # rest" "as_rule q = R_repeatable" "fits prs rest"
    using assms(1) by (auto simp: fits_One)
  then have "p_bind (parse_if_rule R_repeatable (\<lambda>_. p_return ()) ps) k = k (Some (), rest)"
    by (simp add: parse_if_rule_def next_if_rule_def p_map_def p_bind_def p_return_def)
  then show ?thesis using q assms(2) by (simp add: runs_drop)
qed

lemma runs_directive_definition:
  assumes "as_rule p = R_directive_definition" "conforms p"
  shows "runs input (p # out) (parse_directive_definition read p) out (\<lambda>d. ddf_is_repeatable (node d))"
  unfolding parse_directive_definition_def
proof (rule runs_step_bind, rule runs_description)
  show "fits [Opt R_string, One [R_name], Opt R_arguments_definition, One [R_repeatable], One [R_directive_locations]] (into_inner p)"
    using conforms_fits [OF assms(2, 1)] by simp
  fix at desc rest
  assume rest: "fits [One [R_name], Opt R_arguments_definition, One [R_repeatable], One [R_directive_locations]] rest"
  show "runs input (rest @ out) (case (desc, rest) of (desc, pairs) \<Rightarrow>
     next_pair pairs (\<lambda>n pairs. p_bind (parse_name n) (\<lambda>nm.
     p_bind (parse_if_rule R_arguments_definition (parse_arguments_definition read) pairs) (\<lambda>(args, pairs).
     p_bind (parse_if_rule R_repeatable (\<lambda>_. p_return ()) pairs) (\<lambda>(repeatable, pairs).
     next_pair pairs (\<lambda>q _. p_map (\<lambda>locs.
       Positioned at \<lparr>ddf_description = desc, ddf_name = nm, ddf_arguments = or_default args,
         ddf_is_repeatable = repeatable \<noteq> None, ddf_locations = locs\<rparr>)
       (p_each parse_directive_location (into_inner q)))))))) out (\<lambda>d. ddf_is_repeatable (node d))"
    by (auto intro!: runs_next_name [OF rest]
        runs_if_rule [where P = "\<lambda>_. True" and r = R_arguments_definition and prs = "[One [R_repeatable], One [R_directive_locations]]"]
        runs_arguments_definition runs_repeatable [where prs = "[One [R_directive_locations]]"]
        runs_next [where alts = "[R_directive_locations]" and prs = "[]"] runs_map
        runs_members_of [where r = R_directive_locations and s = R_directive_location] runs_directive_location)
qed

subsection \<open>The document\<close>

fun definition_ok :: "type_system_definition \<Rightarrow> bool" where
  "definition_ok (TSSchema sd) \<longleftrightarrow> has_query_root (node sd)"
| "definition_ok (TSType _) \<longleftrightarrow> True"
| "definition_ok (TSDirective d) \<longleftrightarrow> ddf_is_repeatable (node d)"

lemma runs_type_system_definition:
  assumes "as_rule p = R_type_system_definition" "conforms p"
  shows "runs input (p # out) (parse_type_system_definition read p) out definition_ok"
  unfolding parse_type_system_definition_def
proof (rule runs_inner, rule runs_exactly_one)
  show "fits [One [R_schema_definition, R_type_definition, R_directive_definition]] (into_inner p)"
    using conforms_fits [OF assms(2, 1)] by simp
  fix q
  assume "as_rule q \<in> set [R_schema_definition, R_type_definition, R_directive_definition]" "conforms q"
  then show "runs input (q # out) (case as_rule q of
       R_schema_definition \<Rightarrow> p_map TSSchema (parse_schema_definition read q)
     | R_type_definition \<Rightarrow> p_map TSType (parse_type_definition read q)
     | R_directive_definition \<Rightarrow> p_map TSDirective (parse_directive_definition read q)
     | _ \<Rightarrow> p_panic) out definition_ok"
    by (auto intro!: runs_map runs_schema_definition runs_type_definition runs_directive_definition)
qed

lemma runs_service_document:
  assumes "as_rule p = R_service_document" "conforms p"
  shows "\<exists>out. runs input [p] (parse_service_document read p) out (\<lambda>doc. list_all definition_ok (svc_definitions doc))"
proof -
  obtain ds e where inner: "into_inner p = ds @ [e]" "as_rule e = R_EOI"
    and ds: "list_all (\<lambda>q. as_rule q = R_type_system_definition \<and> conforms q) ds"
    using fits_until_end [of R_type_system_definition] conforms_fits [OF assms(2, 1)] by auto
  have same: "filter (\<lambda>q. as_rule q \<noteq> R_EOI) (into_inner p) = ds"
    using inner ds by (auto simp: list_all_iff)
  have "runs input (ds @ [e]) (p_each (parse_type_system_definition read) ds) [e] (list_all definition_ok)"
    by (rule runs_each, rule runs_type_system_definition) (use ds in \<open>auto simp: list_all_iff\<close>)
  then have "runs input (into_inner p @ []) (parse_service_document read p) [e] (\<lambda>doc. list_all definition_ok (svc_definitions doc))"
    unfolding parse_service_document_def same by (simp add: inner(1) runs_map)
  then show ?thesis by (blast intro: runs_inner)
qed

text \<open>A run of a converter on a ready state.\<close>

lemma parse_schema_result:
  assumes "\<And>pairs. grammar input = Inr pairs \<Longrightarrow>
    \<exists>p rest. pairs = p # rest \<and> as_rule p = R_service_document \<and> conforms p \<and> spans input p"
  shows "\<exists>r. parse_schema grammar read input = Done r \<and>
    (\<forall>doc. r = Inr doc \<longrightarrow> list_all definition_ok (svc_definitions doc))"
proof (cases "grammar input")
  case (Inl e)
  then show ?thesis by (simp add: parse_schema_def)
next
  case (Inr pairs)
  then obtain p rest where p: "pairs = p # rest" "as_rule p = R_service_document" "conforms p" "spans input p"
    using assms by blast
  obtain out where out: "runs input [p] (parse_service_document read p) out (\<lambda>doc. list_all definition_ok (svc_definitions doc))"
    using runs_service_document [OF p(2, 3)] by blast
  have "ready input [p] (position_calculator_new input)"
    using p(4) by (rule ready_start)
  then show ?thesis
    using out unfolding runs_def by (auto simp: parse_schema_def Inr p(1) exactly_one_def)
qed

text \<open>C37: On a tree of the grammar a schema document is converted without a panic, and every schema
  definition of the result that is no extension has a query root.\<close>

theorem parse_schema_returns:
  assumes "\<And>pairs. grammar input = Inr pairs \<Longrightarrow>
    \<exists>p rest. pairs = p # rest \<and> as_rule p = R_service_document \<and> conforms p \<and> spans input p"
  shows "\<exists>r. parse_schema grammar read input = Done r \<and>
    (\<forall>doc sd. r = Inr doc \<and> TSSchema sd \<in> set (svc_definitions doc) \<longrightarrow> sd_extend (node sd) \<or> sd_query (node sd) \<noteq> None)"
proof -
  obtain r where "parse_schema grammar read input = Done r"
    "\<forall>doc. r = Inr doc \<longrightarrow> list_all definition_ok (svc_definitions doc)"
    using parse_schema_result [OF assms] by blast
  moreover have "has_query_root (node sd)" if "r = Inr doc" "TSSchema sd \<in> set (svc_definitions doc)" for doc sd
    using calculation(2) that unfolding list_all_iff by (metis definition_ok.simps(1))
  ultimately show ?thesis unfolding has_query_root_def by blast
qed

text \<open>Every directive that is defined in a schema document is read as repeatable, whatever the document
  says: the rule of the keyword matches the empty text.\<close>

theorem parsed_directives_repeatable:
  assumes "\<And>pairs. grammar input = Inr pairs \<Longrightarrow>
    \<exists>p rest. pairs = p # rest \<and> as_rule p = R_service_document \<and> conforms p \<and> spans input p"
    and "parse_schema grammar read input = Done (Inr doc)" "TSDirective d \<in> set (svc_definitions doc)"
  shows "ddf_is_repeatable (node d)"
proof -
  have "list_all definition_ok (svc_definitions doc)"
    using parse_schema_result [of grammar input read] assms(1, 2) by fastforce
  then show ?thesis
    using assms(3) unfolding list_all_iff by (metis definition_ok.simps(3))
qed

text \<open>The tree of a small schema, whose directive is not repeatable.\<close>

definition small_schema :: string where
  "small_schema = ''schema { query: Q } directive @a on FIELD''"

definition small_schema_pairs :: "pair list" where
  "small_schema_pairs =
    [Pair R_service_document ''schema { query: Q } directive @a on FIELD'' 0
      [Pair R_type_system_definition ''schema { query: Q }'' 0
        [Pair R_schema_definition ''schema { query: Q }'' 0
          [Pair R_operation_type_definition ''query: Q'' 9
            [Pair R_operation_type ''query'' 9 [], Pair R_name ''Q'' 16 []]]],
       Pair R_type_system_definition ''directive @a on FIELD'' 20
        [Pair R_directive_definition ''directive @a on FIELD'' 20
          [Pair R_name ''a'' 30 [], Pair R_repeatable [] 32 [],
           Pair R_directive_locations ''FIELD'' 35 [Pair R_directive_location ''FIELD'' 35 []]]],
       Pair R_EOI [] 40 []]]"

definition small_service :: service_document where
  "small_service = \<lparr>svc_definitions =
    [TSSchema (Positioned (Pos 1 1)
       \<lparr>sd_extend = False, sd_directives = [], sd_query = Some (Positioned (Pos 1 17) ''Q''),
        sd_mutation = None, sd_subscription = None\<rparr>),
     TSDirective (Positioned (Pos 1 21)
       \<lparr>ddf_description = None, ddf_name = Positioned (Pos 1 31) ''a'', ddf_arguments = [],
        ddf_is_repeatable = True, ddf_locations = [Positioned (Pos 1 36) AtField]\<rparr>)]\<rparr>"

lemma small_schema_tree:
  "\<exists>p rest. small_schema_pairs = p # rest \<and> as_rule p = R_service_document \<and> conforms p \<and> spans small_schema p"
proof -
  have "conforms (hd small_schema_pairs)" "spans small_schema (hd small_schema_pairs)"
    "as_rule (hd small_schema_pairs) = R_service_document" "small_schema_pairs = hd small_schema_pairs # tl small_schema_pairs"
    by code_simp+
  then show ?thesis by blast
qed

lemma small_schema_parsed: "parse_schema (\<lambda>_. Inr small_schema_pairs) (\<lambda>_. Inl []) small_schema = Done (Inr small_service)"
  by (simp add: parse_schema_def parse_service_document_def parse_type_system_definition_def parse_schema_definition_def
      parse_directive_definition_def exactly_one_def next_pair_def next_if_rule_def parse_if_rule_def
      parse_opt_const_directives_def p_return_def p_bind_def p_map_def pc_step_def Let_def parse_name_def
      parse_operation_type_def parse_directive_location_def set_root_def read_location_def or_default_def is_continuation_def
      position_calculator_new_def small_schema_def small_schema_pairs_def small_service_def)

theorem parse_schema_returns_witness:
  "parse_schema (\<lambda>_. Inr small_schema_pairs) (\<lambda>_. Inl []) small_schema = Done (Inr small_service) \<and>
   (\<exists>sd. TSSchema sd \<in> set (svc_definitions small_service) \<and> sd_query (node sd) \<noteq> None)"
proof -
  have "\<exists>r. parse_schema (\<lambda>_. Inr small_schema_pairs) (\<lambda>_. Inl []) small_schema = Done r \<and>
    (\<forall>doc sd. r = Inr doc \<and> TSSchema sd \<in> set (svc_definitions doc) \<longrightarrow> sd_extend (node sd) \<or> sd_query (node sd) \<noteq> None)"
    using parse_schema_returns [where grammar = "\<lambda>_. Inr small_schema_pairs" and input = small_schema and read = "\<lambda>_. Inl []"]
      small_schema_tree by simp
  then have "\<And>sd. TSSchema sd \<in> set (svc_definitions small_service) \<Longrightarrow> sd_extend (node sd) \<or> sd_query (node sd) \<noteq> None"
    unfolding small_schema_parsed by simp
  moreover obtain sd where "TSSchema sd \<in> set (svc_definitions small_service)" "\<not> sd_extend (node sd)"
    by (force simp: small_service_def)
  ultimately show ?thesis using small_schema_parsed by blast
qed

theorem parsed_directives_repeatable_witness:
  "\<exists>d. TSDirective d \<in> set (svc_definitions small_service) \<and> ddf_is_repeatable (node d)"
proof -
  obtain d where d: "TSDirective d \<in> set (svc_definitions small_service)"
    by (auto simp: small_service_def)
  then have "ddf_is_repeatable (node d)"
    using parsed_directives_repeatable [OF _ small_schema_parsed d] small_schema_tree by simp
  then show ?thesis using d by blast
qed

end
