(* ===== verification/Scalars.thy ===== *)
theory Scalars
  imports Execution
begin

text \<open>
  The scalars of the library (\<open>src/src/types/external\<close>, \<open>src/src/types/id.rs\<close>, \<open>src/src/types/any.rs\<close>,
  \<open>src/src/types/string_number.rs\<close>): the trait \<open>ScalarType\<close> as a record of its functions and one
  record for each type that implements it. Integers are words of their width; those of the pointer width
  are 64 bits wide.
\<close>

subsection \<open>Errors of input values\<close>

record input_value_error =
  ive_message :: string
  ive_extensions :: "(string \<times> const_value) list option"

definition ive_new :: "string \<Rightarrow> (string \<times> const_value) list option \<Rightarrow> input_value_error" where
  "ive_new message extensions = \<lparr>ive_message = message, ive_extensions = extensions\<rparr>"

definition quoted_name :: "string \<Rightarrow> string" where
  "quoted_name n = [CHR 0x22] @ n @ [CHR 0x22]"

definition ive_expected_type :: "(number \<Rightarrow> string) \<Rightarrow> string \<Rightarrow> const_value \<Rightarrow> input_value_error" where
  "ive_expected_type show_num type_name actual =
     ive_new (''Expected input type '' @ quoted_name type_name @ '', found '' @ show_const_value show_num actual @ ''.'') None"

definition ive_custom :: "string \<Rightarrow> string \<Rightarrow> input_value_error" where
  "ive_custom type_name msg = ive_new (''Failed to parse '' @ quoted_name type_name @ '': '' @ msg) None"

definition ive_propagate :: "string \<Rightarrow> string \<Rightarrow> input_value_error \<Rightarrow> input_value_error" where
  "ive_propagate t u e =
     (if t \<noteq> u then ive_new (ive_message e @ '' (occurred while parsing '' @ quoted_name u @ '')'') (ive_extensions e)
      else ive_new (ive_message e) (ive_extensions e))"

definition ive_with_extension :: "string \<Rightarrow> const_value \<Rightarrow> input_value_error \<Rightarrow> input_value_error" where
  "ive_with_extension n v e =
     e\<lparr>ive_extensions := Some (alist_insert n v (case ive_extensions e of Some m \<Rightarrow> m | None \<Rightarrow> []))\<rparr>"

definition ive_into_server_error :: "input_value_error \<Rightarrow> src_pos \<Rightarrow> server_error" where
  "ive_into_server_error e p = (server_error_new (ive_message e) (Some p))\<lparr>se_extensions := ive_extensions e\<rparr>"

subsection \<open>Numbers\<close>

text \<open>What the scalars ask of \<open>serde_json::Number\<close>.\<close>

record number_ops =
  no_as_i64 :: "number \<Rightarrow> int option"
  no_as_u64 :: "number \<Rightarrow> int option"
  no_is_i64 :: "number \<Rightarrow> bool"
  no_is_u64 :: "number \<Rightarrow> bool"
  no_from_i64 :: "int \<Rightarrow> number"
  no_from_u64 :: "int \<Rightarrow> number"
  no_show :: "number \<Rightarrow> string"

record 't scalar_type =
  sc_type_name :: string
  sc_parse :: "const_value \<Rightarrow> input_value_error + 't"
  sc_is_valid :: "const_value \<Rightarrow> bool"
  sc_to_value :: "'t \<Rightarrow> const_value"

text \<open>
  The bodies of the integer types. \<open>n as Self\<close> keeps the low bits; \<open>NonZero::new(n).unwrap()\<close> is the
  word of a number that was compared with zero before.
\<close>

definition int_min :: "'a::len itself \<Rightarrow> int" where
  "int_min _ = - (2 ^ (LENGTH('a) - 1))"

definition int_max :: "'a::len itself \<Rightarrow> int" where
  "int_max _ = 2 ^ (LENGTH('a) - 1) - 1"

definition uint_max :: "'a::len itself \<Rightarrow> int" where
  "uint_max _ = 2 ^ LENGTH('a) - 1"

definition parse_number_as ::
  "number_ops \<Rightarrow> (number \<Rightarrow> int option) \<Rightarrow> (int \<Rightarrow> input_value_error + 't) \<Rightarrow> const_value \<Rightarrow> input_value_error + 't"
where
  "parse_number_as ops get f v =
     (case v of
        CNumber n \<Rightarrow>
          (case get n of
             None \<Rightarrow> Inl (ive_custom ''Int'' ''Invalid number'')
           | Some k \<Rightarrow> f k)
      | _ \<Rightarrow> Inl (ive_expected_type (no_show ops) ''Int'' v))"

definition number_satisfies :: "(number \<Rightarrow> bool) \<Rightarrow> const_value \<Rightarrow> bool" where
  "number_satisfies P v = (case v of CNumber n \<Rightarrow> P n | _ \<Rightarrow> False)"

definition range_error :: "int \<Rightarrow> int \<Rightarrow> string \<Rightarrow> input_value_error" where
  "range_error lo hi also_not =
     ive_custom ''Int'' (''Only integers from '' @ show_int lo @ '' to '' @ show_int hi @ also_not @ '' are accepted.'')"

definition signed_scalar :: "number_ops \<Rightarrow> 'a::len word scalar_type" where
  "signed_scalar ops =
     \<lparr>sc_type_name = ''Int'',
      sc_parse = parse_number_as ops (no_as_i64 ops) (\<lambda>k.
        if k < int_min TYPE('a) \<or> int_max TYPE('a) < k then Inl (range_error (int_min TYPE('a)) (int_max TYPE('a)) [])
        else Inr (word_of_int k)),
      sc_is_valid = number_satisfies (no_is_i64 ops),
      sc_to_value = (\<lambda>w. CNumber (no_from_i64 ops (sint w)))\<rparr>"

definition unsigned_scalar :: "number_ops \<Rightarrow> 'a::len word scalar_type" where
  "unsigned_scalar ops =
     \<lparr>sc_type_name = ''Int'',
      sc_parse = parse_number_as ops (no_as_u64 ops) (\<lambda>k.
        if uint_max TYPE('a) < k then Inl (range_error 0 (uint_max TYPE('a)) [])
        else Inr (word_of_int k)),
      sc_is_valid = number_satisfies (no_is_u64 ops),
      sc_to_value = (\<lambda>w. CNumber (no_from_u64 ops (uint w)))\<rparr>"

definition wide_signed_scalar :: "number_ops \<Rightarrow> 'a::len word scalar_type" where
  "wide_signed_scalar ops =
     \<lparr>sc_type_name = ''Int'',
      sc_parse = parse_number_as ops (no_as_i64 ops) (\<lambda>k. Inr (word_of_int k)),
      sc_is_valid = number_satisfies (no_is_i64 ops),
      sc_to_value = (\<lambda>w. CNumber (no_from_i64 ops (sint w)))\<rparr>"

definition wide_unsigned_scalar :: "number_ops \<Rightarrow> 'a::len word scalar_type" where
  "wide_unsigned_scalar ops =
     \<lparr>sc_type_name = ''Int'',
      sc_parse = parse_number_as ops (no_as_u64 ops) (\<lambda>k. Inr (word_of_int k)),
      sc_is_valid = number_satisfies (no_is_u64 ops),
      sc_to_value = (\<lambda>w. CNumber (no_from_u64 ops (uint w)))\<rparr>"

definition i8_scalar :: "number_ops \<Rightarrow> 8 word scalar_type" where
  "i8_scalar = signed_scalar"

definition i16_scalar :: "number_ops \<Rightarrow> 16 word scalar_type" where
  "i16_scalar = signed_scalar"

definition i32_scalar :: "number_ops \<Rightarrow> 32 word scalar_type" where
  "i32_scalar = signed_scalar"

definition i64_scalar :: "number_ops \<Rightarrow> 64 word scalar_type" where
  "i64_scalar = wide_signed_scalar"

definition isize_scalar :: "number_ops \<Rightarrow> 64 word scalar_type" where
  "isize_scalar = signed_scalar"

definition u8_scalar :: "number_ops \<Rightarrow> 8 word scalar_type" where
  "u8_scalar = unsigned_scalar"

definition u16_scalar :: "number_ops \<Rightarrow> 16 word scalar_type" where
  "u16_scalar = unsigned_scalar"

definition u32_scalar :: "number_ops \<Rightarrow> 32 word scalar_type" where
  "u32_scalar = unsigned_scalar"

definition u64_scalar :: "number_ops \<Rightarrow> 64 word scalar_type" where
  "u64_scalar = wide_unsigned_scalar"

definition usize_scalar :: "number_ops \<Rightarrow> 64 word scalar_type" where
  "usize_scalar = unsigned_scalar"

subsection \<open>Integers that are not zero\<close>

definition nonzero_signed_scalar :: "number_ops \<Rightarrow> 'a::len word scalar_type" where
  "nonzero_signed_scalar ops =
     \<lparr>sc_type_name = ''Int'',
      sc_parse = parse_number_as ops (no_as_i64 ops) (\<lambda>k.
        if k < int_min TYPE('a) \<or> int_max TYPE('a) < k \<or> k = 0
        then Inl (range_error (int_min TYPE('a)) (int_max TYPE('a)) '' or non zero'')
        else Inr (word_of_int k)),
      sc_is_valid = number_satisfies (no_is_i64 ops),
      sc_to_value = (\<lambda>w. CNumber (no_from_i64 ops (sint w)))\<rparr>"

definition nonzero_unsigned_scalar :: "number_ops \<Rightarrow> 'a::len word scalar_type" where
  "nonzero_unsigned_scalar ops =
     \<lparr>sc_type_name = ''Int'',
      sc_parse = parse_number_as ops (no_as_u64 ops) (\<lambda>k.
        if uint_max TYPE('a) < k \<or> k = 0 then Inl (range_error 1 (uint_max TYPE('a)) '' or non zero'')
        else Inr (word_of_int k)),
      sc_is_valid = number_satisfies (no_is_i64 ops),
      sc_to_value = (\<lambda>w. CNumber (no_from_u64 ops (uint w)))\<rparr>"

definition wide_nonzero_signed_scalar :: "number_ops \<Rightarrow> 'a::len word scalar_type" where
  "wide_nonzero_signed_scalar ops =
     \<lparr>sc_type_name = ''Int'',
      sc_parse = parse_number_as ops (no_as_i64 ops) (\<lambda>k.
        if k = 0 then Inl (ive_custom ''Int'' ''Only non zero are accepted.'') else Inr (word_of_int k)),
      sc_is_valid = number_satisfies (no_is_i64 ops),
      sc_to_value = (\<lambda>w. CNumber (no_from_i64 ops (sint w)))\<rparr>"

definition wide_nonzero_unsigned_scalar :: "number_ops \<Rightarrow> 'a::len word scalar_type" where
  "wide_nonzero_unsigned_scalar ops =
     \<lparr>sc_type_name = ''Int'',
      sc_parse = parse_number_as ops (no_as_u64 ops) (\<lambda>k.
        if k = 0 then Inl (ive_custom ''Int'' ''Only non zero are accepted.'') else Inr (word_of_int k)),
      sc_is_valid = number_satisfies (no_is_i64 ops),
      sc_to_value = (\<lambda>w. CNumber (no_from_u64 ops (uint w)))\<rparr>"

definition nonzero_i8_scalar :: "number_ops \<Rightarrow> 8 word scalar_type" where
  "nonzero_i8_scalar = nonzero_signed_scalar"

definition nonzero_i16_scalar :: "number_ops \<Rightarrow> 16 word scalar_type" where
  "nonzero_i16_scalar = nonzero_signed_scalar"

definition nonzero_i32_scalar :: "number_ops \<Rightarrow> 32 word scalar_type" where
  "nonzero_i32_scalar = nonzero_signed_scalar"

definition nonzero_i64_scalar :: "number_ops \<Rightarrow> 64 word scalar_type" where
  "nonzero_i64_scalar = wide_nonzero_signed_scalar"

definition nonzero_isize_scalar :: "number_ops \<Rightarrow> 64 word scalar_type" where
  "nonzero_isize_scalar = nonzero_signed_scalar"

definition nonzero_u8_scalar :: "number_ops \<Rightarrow> 8 word scalar_type" where
  "nonzero_u8_scalar = nonzero_unsigned_scalar"

definition nonzero_u16_scalar :: "number_ops \<Rightarrow> 16 word scalar_type" where
  "nonzero_u16_scalar = nonzero_unsigned_scalar"

definition nonzero_u32_scalar :: "number_ops \<Rightarrow> 32 word scalar_type" where
  "nonzero_u32_scalar = nonzero_unsigned_scalar"

definition nonzero_u64_scalar :: "number_ops \<Rightarrow> 64 word scalar_type" where
  "nonzero_u64_scalar = wide_nonzero_unsigned_scalar"

definition nonzero_usize_scalar :: "number_ops \<Rightarrow> 64 word scalar_type" where
  "nonzero_usize_scalar = nonzero_unsigned_scalar"

subsection \<open>Other scalars\<close>

definition bool_scalar :: "number_ops \<Rightarrow> bool scalar_type" where
  "bool_scalar ops =
     \<lparr>sc_type_name = ''Boolean'',
      sc_parse = (\<lambda>v. case v of CBoolean b \<Rightarrow> Inr b | _ \<Rightarrow> Inl (ive_expected_type (no_show ops) ''Boolean'' v)),
      sc_is_valid = (\<lambda>v. case v of CBoolean _ \<Rightarrow> True | _ \<Rightarrow> False),
      sc_to_value = CBoolean\<rparr>"

definition string_scalar :: "number_ops \<Rightarrow> string scalar_type" where
  "string_scalar ops =
     \<lparr>sc_type_name = ''String'',
      sc_parse = (\<lambda>v. case v of CString s \<Rightarrow> Inr s | _ \<Rightarrow> Inl (ive_expected_type (no_show ops) ''String'' v)),
      sc_is_valid = (\<lambda>v. case v of CString _ \<Rightarrow> True | _ \<Rightarrow> False),
      sc_to_value = CString\<rparr>"

definition bytes_scalar :: "number_ops \<Rightarrow> bytes scalar_type" where
  "bytes_scalar ops =
     \<lparr>sc_type_name = ''Bytes'',
      sc_parse = (\<lambda>v. case v of CBinary bs \<Rightarrow> Inr bs | _ \<Rightarrow> Inl (ive_expected_type (no_show ops) ''Bytes'' v)),
      sc_is_valid = (\<lambda>v. case v of CBinary _ \<Rightarrow> True | _ \<Rightarrow> False),
      sc_to_value = CBinary\<rparr>"

text \<open>A character is its UTF-8 bytes; \<open>first_char\<close> is \<open>chars().next()\<close> with what is left.\<close>

fun first_char :: "string \<Rightarrow> (string \<times> string) option" where
  "first_char [] = None"
| "first_char (c # s) = Some (c # takeWhile is_continuation s, dropWhile is_continuation s)"

definition char_scalar :: "number_ops \<Rightarrow> string scalar_type" where
  "char_scalar ops =
     \<lparr>sc_type_name = ''Char'',
      sc_parse = (\<lambda>v. case v of
        CString s \<Rightarrow>
          (case first_char s of
             Some (ch, rest) \<Rightarrow>
               if first_char rest = None then Inr ch
               else Inl (ive_custom ''Char'' ''There can only be one unicode character in the string.'')
           | None \<Rightarrow> Inl (ive_custom ''Char'' ''A unicode character is required.''))
      | _ \<Rightarrow> Inl (ive_expected_type (no_show ops) ''Char'' v)),
      sc_is_valid = (\<lambda>v. case v of CString _ \<Rightarrow> True | _ \<Rightarrow> False),
      sc_to_value = CString\<rparr>"

definition id_scalar :: "number_ops \<Rightarrow> string scalar_type" where
  "id_scalar ops =
     \<lparr>sc_type_name = ''ID'',
      sc_parse = (\<lambda>v. case v of
        CNumber n \<Rightarrow> if no_is_i64 ops n then Inr (no_show ops n) else Inl (ive_expected_type (no_show ops) ''ID'' v)
      | CString s \<Rightarrow> Inr s
      | _ \<Rightarrow> Inl (ive_expected_type (no_show ops) ''ID'' v)),
      sc_is_valid = (\<lambda>v. case v of CNumber n \<Rightarrow> no_is_i64 ops n | CString _ \<Rightarrow> True | _ \<Rightarrow> False),
      sc_to_value = CString\<rparr>"

definition any_scalar :: "const_value scalar_type" where
  "any_scalar = \<lparr>sc_type_name = ''_Any'', sc_parse = Inr, sc_is_valid = (\<lambda>_. True), sc_to_value = (\<lambda>v. v)\<rparr>"

text \<open>The reading of a number in the base ten and its display are those of the type.\<close>

definition string_number_scalar ::
  "number_ops \<Rightarrow> (string \<Rightarrow> string + 't) \<Rightarrow> ('t \<Rightarrow> string) \<Rightarrow> 't scalar_type"
where
  "string_number_scalar ops from_str_radix display =
     \<lparr>sc_type_name = ''StringNumber'',
      sc_parse = (\<lambda>v. case v of
        CString s \<Rightarrow> (case from_str_radix s of Inr n \<Rightarrow> Inr n | Inl err \<Rightarrow> Inl (ive_custom ''StringNumber'' err))
      | _ \<Rightarrow> Inl (ive_expected_type (no_show ops) ''StringNumber'' v)),
      sc_is_valid = (\<lambda>v. case v of CString _ \<Rightarrow> True | _ \<Rightarrow> False),
      sc_to_value = (\<lambda>n. CString (display n))\<rparr>"

text \<open>Floating point numbers are of an arbitrary type, with the conversions from and to numbers.\<close>

definition float_scalar ::
  "number_ops \<Rightarrow> (number \<Rightarrow> 'd option) \<Rightarrow> ('d \<Rightarrow> number option) \<Rightarrow> ('d \<Rightarrow> 'f) \<Rightarrow> ('f \<Rightarrow> 'd) \<Rightarrow> 'f scalar_type"
where
  "float_scalar ops as_f64 from_f64 cast widen =
     \<lparr>sc_type_name = ''Float'',
      sc_parse = (\<lambda>v. case v of
        CNumber n \<Rightarrow> (case as_f64 n of Some x \<Rightarrow> Inr (cast x) | None \<Rightarrow> Inl (ive_custom ''Float'' ''Invalid number''))
      | _ \<Rightarrow> Inl (ive_expected_type (no_show ops) ''Float'' v)),
      sc_is_valid = number_satisfies (\<lambda>_. True),
      sc_to_value = (\<lambda>x. case from_f64 (widen x) of Some n \<Rightarrow> CNumber n | None \<Rightarrow> CNull)\<rparr>"

definition f32_scalar ::
  "number_ops \<Rightarrow> (number \<Rightarrow> 'd option) \<Rightarrow> ('d \<Rightarrow> number option) \<Rightarrow> ('d \<Rightarrow> 'f) \<Rightarrow> ('f \<Rightarrow> 'd) \<Rightarrow> 'f scalar_type"
where
  "f32_scalar = float_scalar"

definition f64_scalar ::
  "number_ops \<Rightarrow> (number \<Rightarrow> 'd option) \<Rightarrow> ('d \<Rightarrow> number option) \<Rightarrow> 'd scalar_type"
where
  "f64_scalar ops as_f64 from_f64 = float_scalar ops as_f64 from_f64 (\<lambda>x. x) (\<lambda>x. x)"

end
