(* ===== verification/Input_Types.thy ===== *)
theory Input_Types
  imports Scalars
begin

text \<open>
  The trait \<open>InputType\<close> as a record of its functions, and the types that are built from others: options
  and \<open>MaybeUndefined\<close>, lists, arrays and sets (\<open>src/src/base.rs\<close>, \<open>src/src/types/external\<close>,
  \<open>src/src/types/maybe_undefined.rs\<close>); the validators of arguments (\<open>src/src/validators\<close>). The guards
  of an input are user code, a function of the value and the input it came from. What a type registers
  (\<open>create_type_info\<close>) and the reference to its raw value are left out.
\<close>

record 't input_type =
  it_type_name :: string
  it_qualified_type_name :: string
  it_parse :: "const_value option \<Rightarrow> input_value_error + 't"
  it_to_value :: "'t \<Rightarrow> const_value"
  it_guards :: "'t \<Rightarrow> const_value option \<Rightarrow> error_value + unit"

definition value_or_default :: "const_value option \<Rightarrow> const_value" where
  "value_or_default v = (case v of Some c \<Rightarrow> c | None \<Rightarrow> CNull)"

text \<open>\<open>map_err(InputValueError::propagate)\<close>, from the type it is an error of to the one it is reported for.\<close>

fun propagated :: "string \<Rightarrow> string \<Rightarrow> input_value_error + 'a \<Rightarrow> input_value_error + 'a" where
  "propagated t u (Inl e) = Inl (ive_propagate t u e)"
| "propagated t u (Inr x) = Inr x"

text \<open>Collecting results: the first error ends it.\<close>

fun try_map :: "('a \<Rightarrow> 'e + 'b) \<Rightarrow> 'a list \<Rightarrow> 'e + 'b list" where
  "try_map f [] = Inr []"
| "try_map f (x # xs) = result_bind (f x) (\<lambda>y. result_bind (try_map f xs) (\<lambda>ys. Inr (y # ys)))"

fun try_all_of :: "('a \<Rightarrow> 'e + unit) \<Rightarrow> 'a list \<Rightarrow> 'e + unit" where
  "try_all_of f [] = Inr ()"
| "try_all_of f (x # xs) = result_bind (f x) (\<lambda>_. try_all_of f xs)"

subsection \<open>Scalars and options\<close>

definition scalar_input :: "'t scalar_type \<Rightarrow> 't input_type" where
  "scalar_input sc =
     \<lparr>it_type_name = sc_type_name sc,
      it_qualified_type_name = sc_type_name sc @ ''!'',
      it_parse = (\<lambda>v. sc_parse sc (value_or_default v)),
      it_to_value = sc_to_value sc,
      it_guards = (\<lambda>_ _. Inr ())\<rparr>"

definition option_input :: "'t input_type \<Rightarrow> 't option input_type" where
  "option_input T =
     \<lparr>it_type_name = it_type_name T,
      it_qualified_type_name = it_type_name T,
      it_parse = (\<lambda>v. case value_or_default v of
        CNull \<Rightarrow> Inr None
      | c \<Rightarrow> result_bind (propagated (it_type_name T) (it_type_name T) (it_parse T (Some c))) (\<lambda>x. Inr (Some x))),
      it_to_value = (\<lambda>x. case x of Some y \<Rightarrow> it_to_value T y | None \<Rightarrow> CNull),
      it_guards = (\<lambda>x v. case x of Some y \<Rightarrow> it_guards T y v | None \<Rightarrow> Inr ())\<rparr>"

datatype 't maybe_undefined = Undefined | Null | Value 't

fun is_undefined :: "'t maybe_undefined \<Rightarrow> bool" where
  "is_undefined Undefined = True" | "is_undefined _ = False"

fun is_null :: "'t maybe_undefined \<Rightarrow> bool" where
  "is_null Null = True" | "is_null _ = False"

fun is_value :: "'t maybe_undefined \<Rightarrow> bool" where
  "is_value (Value _) = True" | "is_value _ = False"

fun mu_take :: "'t maybe_undefined \<Rightarrow> 't option" where
  "mu_take (Value x) = Some x" | "mu_take _ = None"

fun as_opt_ref :: "'t maybe_undefined \<Rightarrow> 't option option" where
  "as_opt_ref Undefined = None"
| "as_opt_ref Null = Some None"
| "as_opt_ref (Value x) = Some (Some x)"

fun contains_value :: "'t maybe_undefined \<Rightarrow> 't \<Rightarrow> bool" where
  "contains_value (Value y) x \<longleftrightarrow> x = y" | "contains_value _ _ \<longleftrightarrow> False"

fun mu_contains :: "'t maybe_undefined \<Rightarrow> 't option \<Rightarrow> bool" where
  "mu_contains (Value y) x \<longleftrightarrow> x = Some y"
| "mu_contains Null x \<longleftrightarrow> x = None"
| "mu_contains Undefined x \<longleftrightarrow> False"

definition of_nullable :: "'t option \<Rightarrow> 't maybe_undefined" where
  "of_nullable r = (case r of Some v \<Rightarrow> Value v | None \<Rightarrow> Null)"

fun mu_map :: "('t option \<Rightarrow> 'u option) \<Rightarrow> 't maybe_undefined \<Rightarrow> 'u maybe_undefined" where
  "mu_map f (Value v) = of_nullable (f (Some v))"
| "mu_map f Null = of_nullable (f None)"
| "mu_map f Undefined = Undefined"

fun map_value :: "('t \<Rightarrow> 'u) \<Rightarrow> 't maybe_undefined \<Rightarrow> 'u maybe_undefined" where
  "map_value f (Value v) = Value (f v)"
| "map_value f Null = Null"
| "map_value f Undefined = Undefined"

fun update_to :: "'t maybe_undefined \<Rightarrow> 't option \<Rightarrow> 't option" where
  "update_to (Value new) _ = Some new"
| "update_to Null _ = None"
| "update_to Undefined old = old"

fun mu_transpose :: "('e + 't) maybe_undefined \<Rightarrow> 'e + 't maybe_undefined" where
  "mu_transpose Undefined = Inr Undefined"
| "mu_transpose Null = Inr Null"
| "mu_transpose (Value (Inr v)) = Inr (Value v)"
| "mu_transpose (Value (Inl e)) = Inl e"

fun of_nested_option :: "'t option option \<Rightarrow> 't maybe_undefined" where
  "of_nested_option (Some (Some v)) = Value v"
| "of_nested_option (Some None) = Null"
| "of_nested_option None = Undefined"

definition maybe_undefined_input :: "'t input_type \<Rightarrow> 't maybe_undefined input_type" where
  "maybe_undefined_input T =
     \<lparr>it_type_name = it_type_name T,
      it_qualified_type_name = it_type_name T,
      it_parse = (\<lambda>v. case v of
        None \<Rightarrow> Inr Undefined
      | Some CNull \<Rightarrow> Inr Null
      | Some c \<Rightarrow> result_bind (propagated (it_type_name T) (it_type_name T) (it_parse T (Some c))) (\<lambda>x. Inr (Value x))),
      it_to_value = (\<lambda>x. case x of Value y \<Rightarrow> it_to_value T y | _ \<Rightarrow> CNull),
      it_guards = (\<lambda>x v. case x of Value y \<Rightarrow> it_guards T y v | _ \<Rightarrow> Inr ())\<rparr>"

subsection \<open>Lists\<close>

definition list_name :: "'t input_type \<Rightarrow> string" where
  "list_name T = ''['' @ it_qualified_type_name T @ '']''"

text \<open>A list of items, or one item for a list.\<close>

definition parse_items :: "'t input_type \<Rightarrow> const_value option \<Rightarrow> input_value_error + 't list" where
  "parse_items T v = propagated (it_type_name T) (list_name T)
     (case value_or_default v of
        CList vs \<Rightarrow> try_map (\<lambda>c. it_parse T (Some c)) vs
      | c \<Rightarrow> result_bind (it_parse T (Some c)) (\<lambda>x. Inr [x]))"

text \<open>The guards of the items with the values they came from.\<close>

definition guard_items :: "'t input_type \<Rightarrow> 't list \<Rightarrow> const_value option \<Rightarrow> error_value + unit" where
  "guard_items T xs v =
     (case v of
        Some (CList vs) \<Rightarrow> try_all_of (\<lambda>(x, c). it_guards T x (Some c)) (zip xs vs)
      | Some c \<Rightarrow> (case xs of x # _ \<Rightarrow> it_guards T x (Some c) | [] \<Rightarrow> Inr ())
      | None \<Rightarrow> Inr ())"

definition vec_input :: "'t input_type \<Rightarrow> 't list input_type" where
  "vec_input T =
     \<lparr>it_type_name = list_name T,
      it_qualified_type_name = list_name T @ ''!'',
      it_parse = parse_items T,
      it_to_value = (\<lambda>xs. CList (map (it_to_value T) xs)),
      it_guards = guard_items T\<rparr>"

definition vec_deque_input :: "'t input_type \<Rightarrow> 't list input_type" where
  "vec_deque_input = vec_input"

definition linked_list_input :: "'t input_type \<Rightarrow> 't list input_type" where
  "linked_list_input = vec_input"

definition slice_input :: "'t input_type \<Rightarrow> 't list input_type" where
  "slice_input = vec_input"

text \<open>An array of length \<open>n\<close> takes a list only, and no other length.\<close>

definition array_input :: "(number \<Rightarrow> string) \<Rightarrow> nat \<Rightarrow> 't input_type \<Rightarrow> 't list input_type" where
  "array_input show_num n T =
     \<lparr>it_type_name = list_name T,
      it_qualified_type_name = list_name T @ ''!'',
      it_parse = (\<lambda>v. case v of
        Some (CList vs) \<Rightarrow>
          result_bind (propagated (it_type_name T) (list_name T) (try_map (\<lambda>c. it_parse T (Some c)) vs)) (\<lambda>xs.
            if length xs = n then Inr xs
            else Inl (ive_custom (list_name T)
              (''Expected input type '' @ quoted_name (''['' @ it_type_name T @ ''; '' @ show_nat n @ '']'') @
               '', found ['' @ it_type_name T @ ''; '' @ show_nat (length xs) @ ''].'')))
      | _ \<Rightarrow> Inl (ive_expected_type show_num (list_name T) (value_or_default v))),
      it_to_value = (\<lambda>xs. CList (map (it_to_value T) xs)),
      it_guards = (\<lambda>xs v. case v of
        Some (CList vs) \<Rightarrow> try_all_of (\<lambda>(x, c). it_guards T x (Some c)) (zip xs vs)
      | _ \<Rightarrow> Inr ())\<rparr>"

text \<open>The guards of a set parse the values again.\<close>

definition guard_values :: "'t input_type \<Rightarrow> const_value option \<Rightarrow> error_value + unit" where
  "guard_values T v =
     try_all_of (\<lambda>c.
       (case it_parse T (Some c) of
          Inl e \<Rightarrow> Inl \<lparr>er_message = se_message (ive_into_server_error e default_pos), er_source = None, er_extensions = None\<rparr>
        | Inr x \<Rightarrow> it_guards T x (Some c)))
       (case v of Some (CList vs) \<Rightarrow> vs | Some c \<Rightarrow> [c] | None \<Rightarrow> [])"

text \<open>A set is its items in the order of the insertion, which stands for the order of the hash set.\<close>

definition hash_set_input :: "'t input_type \<Rightarrow> 't list input_type" where
  "hash_set_input T =
     \<lparr>it_type_name = list_name T,
      it_qualified_type_name = list_name T @ ''!'',
      it_parse = (\<lambda>v. result_bind (parse_items T v) (\<lambda>xs. Inr (rev (fold List.insert xs [])))),
      it_to_value = (\<lambda>xs. CList (map (it_to_value T) xs)),
      it_guards = (\<lambda>_. guard_values T)\<rparr>"

fun btree_insert :: "'t::linorder \<Rightarrow> 't list \<Rightarrow> 't list" where
  "btree_insert x [] = [x]"
| "btree_insert x (y # ys) = (if x < y then x # y # ys else if x = y then y # ys else y # btree_insert x ys)"

definition btree_set_input :: "'t::linorder input_type \<Rightarrow> 't list input_type" where
  "btree_set_input T =
     \<lparr>it_type_name = list_name T,
      it_qualified_type_name = list_name T @ ''!'',
      it_parse = (\<lambda>v. result_bind (parse_items T v) (\<lambda>xs. Inr (fold btree_insert xs []))),
      it_to_value = (\<lambda>xs. CList (map (it_to_value T) xs)),
      it_guards = (\<lambda>_. guard_values T)\<rparr>"

subsection \<open>Validators\<close>

text \<open>
  The validators report for the type of the value; \<open>as_prim\<close> is the conversion of the value to the type of
  the bound, which the derive macro makes an \<open>i64\<close> for an integer literal.
\<close>

definition validate :: "string \<Rightarrow> bool \<Rightarrow> string \<Rightarrow> input_value_error + unit" where
  "validate type_name ok msg = (if ok then Inr () else Inl (ive_custom type_name msg))"

definition maximum :: "string \<Rightarrow> ('t \<Rightarrow> 64 word) \<Rightarrow> 't \<Rightarrow> 64 word \<Rightarrow> input_value_error + unit" where
  "maximum type_name as_prim v n = validate type_name (sint (as_prim v) \<le> sint n)
     (''the value is '' @ show_int (sint (as_prim v)) @ '', must be less than or equal to '' @ show_int (sint n))"

definition minimum :: "string \<Rightarrow> ('t \<Rightarrow> 64 word) \<Rightarrow> 't \<Rightarrow> 64 word \<Rightarrow> input_value_error + unit" where
  "minimum type_name as_prim v n = validate type_name (sint n \<le> sint (as_prim v))
     (''the value is '' @ show_int (sint (as_prim v)) @ '', must be greater than or equal to '' @ show_int (sint n))"

text \<open>The remainder of a division by zero, or of the least number by -1, panics.\<close>

definition multiple_of :: "string \<Rightarrow> ('t \<Rightarrow> 64 word) \<Rightarrow> 't \<Rightarrow> 64 word \<Rightarrow> (input_value_error + unit) run" where
  "multiple_of type_name as_prim v n =
     (let x = sint (as_prim v); m = sint n in
      if x \<noteq> 0 \<and> (m = 0 \<or> (x = int_min TYPE(64) \<and> m = -1)) then Panicked
      else Done (validate type_name (x \<noteq> 0 \<and> m dvd x) (''the value must be a multiple of '' @ show_int m @ ''.'')))"

definition max_length :: "string \<Rightarrow> string \<Rightarrow> nat \<Rightarrow> input_value_error + unit" where
  "max_length type_name s len = validate type_name (length s \<le> len)
     (''the string length is '' @ show_nat (length s) @ '', must be less than or equal to '' @ show_nat len)"

definition min_length :: "string \<Rightarrow> string \<Rightarrow> nat \<Rightarrow> input_value_error + unit" where
  "min_length type_name s len = validate type_name (len \<le> length s)
     (''the string length is '' @ show_nat (length s) @ '', must be greater than or equal to '' @ show_nat len)"

definition char_count :: "string \<Rightarrow> nat" where
  "char_count s = length (filter (\<lambda>c. \<not> is_continuation c) s)"

definition chars_max_length :: "string \<Rightarrow> string \<Rightarrow> nat \<Rightarrow> input_value_error + unit" where
  "chars_max_length type_name s len = validate type_name (char_count s \<le> len)
     (''the chars length is '' @ show_nat (char_count s) @ '', must be less than or equal to '' @ show_nat len)"

definition chars_min_length :: "string \<Rightarrow> string \<Rightarrow> nat \<Rightarrow> input_value_error + unit" where
  "chars_min_length type_name s len = validate type_name (len \<le> char_count s)
     (''the chars length is '' @ show_nat (char_count s) @ '', must be greater than or equal to '' @ show_nat len)"

definition max_items :: "string \<Rightarrow> 'e list \<Rightarrow> nat \<Rightarrow> input_value_error + unit" where
  "max_items type_name xs len = validate type_name (length xs \<le> len)
     (''the value length is '' @ show_nat (length xs) @ '', must be less than or equal to '' @ show_nat len)"

definition min_items :: "string \<Rightarrow> 'e list \<Rightarrow> nat \<Rightarrow> input_value_error + unit" where
  "min_items type_name xs len = validate type_name (len \<le> length xs)
     (''the value length is '' @ show_nat (length xs) @ '', must be greater than or equal to '' @ show_nat len)"

end
