(* ===== verification/Input_Facts.thy ===== *)
theory Input_Facts
  imports Input_Types
begin

text \<open>
  Scalars and input types: integers are read in their range and nowhere else, what is written is read
  back, validity is no stricter than reading, and the numeric validators compare numbers.
\<close>

subsection \<open>Interfaces\<close>

text \<open>What \<open>serde_json\<close> documents of its numbers.\<close>

locale numbers =
  fixes ops :: number_ops
  assumes as_from_i64: "- (2 ^ 63) \<le> k \<Longrightarrow> k < 2 ^ 63 \<Longrightarrow> no_as_i64 ops (no_from_i64 ops k) = Some k"
    and as_from_u64: "0 \<le> k \<Longrightarrow> k < 2 ^ 64 \<Longrightarrow> no_as_u64 ops (no_from_u64 ops k) = Some k"
    and is_i64: "no_is_i64 ops n \<longleftrightarrow> no_as_i64 ops n \<noteq> None"
    and is_u64: "no_is_u64 ops n \<longleftrightarrow> no_as_u64 ops n \<noteq> None"
    and range_i64: "no_as_i64 ops n = Some k \<Longrightarrow> - (2 ^ 63) \<le> k \<and> k < 2 ^ 63"
    and range_u64: "no_as_u64 ops n = Some k \<Longrightarrow> 0 \<le> k \<and> k < 2 ^ 64"

text \<open>What a scalar writes it reads back, and what it reads is valid.\<close>

locale scalar =
  fixes sc :: "'t scalar_type"
  assumes parse_to_value: "sc_parse sc (sc_to_value sc x) = Inr x"
    and parse_valid: "sc_parse sc v = Inr x \<Longrightarrow> sc_is_valid sc v"
begin

lemma to_value_valid: "sc_is_valid sc (sc_to_value sc x)"
  by (rule parse_valid [OF parse_to_value])

lemma to_value_inject: "sc_to_value sc x = sc_to_value sc y \<longleftrightarrow> x = y"
  by (metis Inr_inject parse_to_value)

end

text \<open>An input type reads back what it writes.\<close>

locale input =
  fixes T :: "'t input_type"
  assumes parse_written: "it_parse T (Some (it_to_value T x)) = Inr x"
begin

lemma try_map_written: "try_map (\<lambda>c. it_parse T (Some c)) (map (it_to_value T) xs) = Inr xs"
  by (induction xs) (simp_all add: parse_written)

lemma items_written: "parse_items T (Some (CList (map (it_to_value T) xs))) = Inr xs"
  by (simp add: parse_items_def value_or_default_def try_map_written)

lemma single_item: "it_parse T (Some c) = Inr x \<Longrightarrow> \<not> (\<exists>vs. c = CList vs) \<Longrightarrow> parse_items T (Some c) = Inr [x]"
  by (cases c) (simp_all add: parse_items_def value_or_default_def)

end

sublocale scalar \<subseteq> written: input "scalar_input sc"
  by unfold_locales (simp add: scalar_input_def value_or_default_def parse_to_value)

subsection \<open>The scalars\<close>

interpretation bool_scalar: scalar "bool_scalar ops" for ops
  by unfold_locales (auto simp: bool_scalar_def split: const_value.splits)

interpretation string_scalar: scalar "string_scalar ops" for ops
  by unfold_locales (auto simp: string_scalar_def split: const_value.splits)

interpretation bytes_scalar: scalar "bytes_scalar ops" for ops
  by unfold_locales (auto simp: bytes_scalar_def split: const_value.splits)

interpretation id_scalar: scalar "id_scalar ops" for ops
  by unfold_locales (auto simp: id_scalar_def split: const_value.splits if_splits)

interpretation any_scalar: scalar any_scalar
  by unfold_locales (simp_all add: any_scalar_def)

lemma parse_number_as_Inr:
  "parse_number_as ops get f v = Inr w \<longleftrightarrow> (\<exists>n k. v = CNumber n \<and> get n = Some k \<and> f k = Inr w)"
  by (auto simp: parse_number_as_def split: const_value.splits option.splits)

lemma signed_word_of_int:
  "int_min TYPE('a::len) \<le> k \<Longrightarrow> k \<le> int_max TYPE('a) \<Longrightarrow> sint (word_of_int k :: 'a word) = k"
  by (simp add: int_min_def int_max_def sint_sbintrunc' signed_take_bit_int_eq_self)

lemma unsigned_word_of_int: "0 \<le> k \<Longrightarrow> k \<le> uint_max TYPE('a::len) \<Longrightarrow> uint (word_of_int k :: 'a word) = k"
  by (simp add: uint_max_def unsigned_of_int take_bit_int_eq_self)

lemma signed_range: "int_min TYPE('a::len) \<le> sint (w :: 'a word)" "sint w \<le> int_max TYPE('a)"
  using sint_ge [of w] sint_lt [of w] by (simp_all add: int_min_def int_max_def)

lemma unsigned_range: "uint (w :: 'a::len word) \<le> uint_max TYPE('a)"
  using uint_bounded [of w] by (simp add: uint_max_def)

lemma signed_eq_word_of_int:
  "int_min TYPE('a::len) \<le> k \<Longrightarrow> k \<le> int_max TYPE('a) \<Longrightarrow> word_of_int k = (w :: 'a word) \<longleftrightarrow> sint w = k"
  using signed_word_of_int [where 'a = 'a] by auto

lemma unsigned_eq_word_of_int:
  "0 \<le> k \<Longrightarrow> k \<le> uint_max TYPE('a::len) \<Longrightarrow> word_of_int k = (w :: 'a word) \<longleftrightarrow> uint w = k"
  using unsigned_word_of_int [where 'a = 'a] by auto

lemma signed_parse_Inr:
  fixes w :: "'a::len word"
  shows "sc_parse (signed_scalar ops) v = Inr w \<longleftrightarrow>
    (\<exists>n. v = CNumber n \<and> no_as_i64 ops n = Some (sint w))"
proof -
  have "(if k < int_min TYPE('a) \<or> int_max TYPE('a) < k then Inl (range_error (int_min TYPE('a)) (int_max TYPE('a)) [])
        else Inr (word_of_int k)) = Inr w \<longleftrightarrow> k = sint w" for k
    using signed_range [of w] signed_eq_word_of_int [of k w] by auto
  then show ?thesis by (simp add: signed_scalar_def parse_number_as_Inr)
qed

lemma unsigned_parse_Inr:
  fixes w :: "'a::len word"
  assumes "\<And>n k. no_as_u64 ops n = Some k \<Longrightarrow> 0 \<le> k"
  shows "sc_parse (unsigned_scalar ops) v = Inr w \<longleftrightarrow>
    (\<exists>n. v = CNumber n \<and> no_as_u64 ops n = Some (uint w))"
proof -
  have "(if uint_max TYPE('a) < k then Inl (range_error 0 (uint_max TYPE('a)) []) else Inr (word_of_int k)) = Inr w \<longleftrightarrow> k = uint w"
    if "0 \<le> k" for k
    using that unsigned_range [of w] unsigned_eq_word_of_int [of k w] by auto
  then show ?thesis
    unfolding unsigned_scalar_def scalar_type.simps parse_number_as_Inr using assms uint_ge_0 [of w] by blast
qed

context numbers
begin

lemma signed_scalar: "LENGTH('a::len) \<le> 64 \<Longrightarrow> scalar (signed_scalar ops :: 'a word scalar_type)"
proof
  fix x :: "'a word"
  assume len: "LENGTH('a) \<le> 64"
  have "(2::int) ^ (LENGTH('a) - 1) \<le> 2 ^ 63"
    using len by (intro power_increasing) simp_all
  then have "- (2 ^ 63) \<le> sint x" "sint x < 2 ^ 63"
    using sint_ge [of x] sint_lt [of x] by linarith+
  then show "sc_parse (signed_scalar ops) (sc_to_value (signed_scalar ops) x) = Inr x"
    unfolding signed_parse_Inr by (simp add: signed_scalar_def as_from_i64)
next
  fix v and x :: "'a word"
  assume "sc_parse (signed_scalar ops) v = Inr x"
  then show "sc_is_valid (signed_scalar ops :: 'a word scalar_type) v"
    unfolding signed_parse_Inr by (auto simp: is_i64 signed_scalar_def number_satisfies_def)
qed

lemma unsigned_scalar: "LENGTH('a::len) \<le> 64 \<Longrightarrow> scalar (unsigned_scalar ops :: 'a word scalar_type)"
proof
  fix x :: "'a word"
  assume len: "LENGTH('a) \<le> 64"
  have "(2::int) ^ LENGTH('a) \<le> 2 ^ 64"
    using len by (intro power_increasing) simp_all
  then have "uint x < 2 ^ 64"
    using uint_bounded [of x] by linarith
  then show "sc_parse (unsigned_scalar ops) (sc_to_value (unsigned_scalar ops) x) = Inr x"
    using range_u64 by (subst unsigned_parse_Inr) (auto simp: unsigned_scalar_def as_from_u64)
next
  fix v and x :: "'a word"
  assume "sc_parse (unsigned_scalar ops) v = Inr x"
  then show "sc_is_valid (unsigned_scalar ops :: 'a word scalar_type) v"
    using range_u64 by (subst (asm) unsigned_parse_Inr) (auto simp: is_u64 unsigned_scalar_def number_satisfies_def)
qed

text \<open>The 64 bit types read as the narrower ones do, whose comparison always succeeds there.\<close>

lemma wide_signed: "(wide_signed_scalar ops :: 64 word scalar_type) = signed_scalar ops"
proof -
  have "parse_number_as ops (no_as_i64 ops) (\<lambda>k. Inr (word_of_int k)) v =
      parse_number_as ops (no_as_i64 ops) (\<lambda>k.
        if k < int_min TYPE(64) \<or> int_max TYPE(64) < k then Inl (range_error (int_min TYPE(64)) (int_max TYPE(64)) [])
        else Inr (word_of_int k :: 64 word)) v" for v
    using range_i64 by (fastforce simp: parse_number_as_def int_min_def int_max_def split: const_value.split option.split)
  then show ?thesis by (simp add: wide_signed_scalar_def signed_scalar_def fun_eq_iff)
qed

lemma wide_unsigned: "(wide_unsigned_scalar ops :: 64 word scalar_type) = unsigned_scalar ops"
proof -
  have "parse_number_as ops (no_as_u64 ops) (\<lambda>k. Inr (word_of_int k)) v =
      parse_number_as ops (no_as_u64 ops) (\<lambda>k.
        if uint_max TYPE(64) < k then Inl (range_error 0 (uint_max TYPE(64)) [])
        else Inr (word_of_int k :: 64 word)) v" for v
    using range_u64 by (fastforce simp: parse_number_as_def uint_max_def split: const_value.split option.split)
  then show ?thesis by (simp add: wide_unsigned_scalar_def unsigned_scalar_def fun_eq_iff)
qed

end

sublocale numbers \<subseteq> i8: scalar "i8_scalar ops"
  unfolding i8_scalar_def by (rule signed_scalar) simp

sublocale numbers \<subseteq> i16: scalar "i16_scalar ops"
  unfolding i16_scalar_def by (rule signed_scalar) simp

sublocale numbers \<subseteq> i32: scalar "i32_scalar ops"
  unfolding i32_scalar_def by (rule signed_scalar) simp

sublocale numbers \<subseteq> i64: scalar "i64_scalar ops"
  unfolding i64_scalar_def wide_signed by (rule signed_scalar) simp

sublocale numbers \<subseteq> isize: scalar "isize_scalar ops"
  unfolding isize_scalar_def by (rule signed_scalar) simp

sublocale numbers \<subseteq> u8: scalar "u8_scalar ops"
  unfolding u8_scalar_def by (rule unsigned_scalar) simp

sublocale numbers \<subseteq> u16: scalar "u16_scalar ops"
  unfolding u16_scalar_def by (rule unsigned_scalar) simp

sublocale numbers \<subseteq> u32: scalar "u32_scalar ops"
  unfolding u32_scalar_def by (rule unsigned_scalar) simp

sublocale numbers \<subseteq> u64: scalar "u64_scalar ops"
  unfolding u64_scalar_def wide_unsigned by (rule unsigned_scalar) simp

sublocale numbers \<subseteq> usize: scalar "usize_scalar ops"
  unfolding usize_scalar_def by (rule unsigned_scalar) simp

context numbers
begin

lemma integer_scalars:
  "scalar (i8_scalar ops) \<and> scalar (i16_scalar ops) \<and> scalar (i32_scalar ops) \<and> scalar (i64_scalar ops) \<and>
   scalar (isize_scalar ops) \<and> scalar (u8_scalar ops) \<and> scalar (u16_scalar ops) \<and> scalar (u32_scalar ops) \<and>
   scalar (u64_scalar ops) \<and> scalar (usize_scalar ops)"
  by (intro conjI) unfold_locales

end

subsection \<open>Numbers that are not zero\<close>

lemma nonzero_signed_parse_Inr:
  fixes w :: "'a::len word"
  shows "sc_parse (nonzero_signed_scalar ops) v = Inr w \<longleftrightarrow>
    w \<noteq> 0 \<and> (\<exists>n. v = CNumber n \<and> no_as_i64 ops n = Some (sint w))"
proof -
  have eq: "(if k < int_min TYPE('a) \<or> int_max TYPE('a) < k \<or> k = 0
        then Inl (range_error (int_min TYPE('a)) (int_max TYPE('a)) '' or non zero'')
        else Inr (word_of_int k)) = Inr w \<longleftrightarrow> w \<noteq> 0 \<and> k = sint w" for k
    using signed_range [of w] signed_eq_word_of_int [of k w] by auto
  show ?thesis
    unfolding nonzero_signed_scalar_def scalar_type.simps parse_number_as_Inr eq by blast
qed

lemma nonzero_unsigned_parse_Inr:
  fixes w :: "'a::len word"
  assumes "\<And>n k. no_as_u64 ops n = Some k \<Longrightarrow> 0 \<le> k"
  shows "sc_parse (nonzero_unsigned_scalar ops) v = Inr w \<longleftrightarrow>
    w \<noteq> 0 \<and> (\<exists>n. v = CNumber n \<and> no_as_u64 ops n = Some (uint w))"
proof -
  have "(if uint_max TYPE('a) < k \<or> k = 0 then Inl (range_error 1 (uint_max TYPE('a)) '' or non zero'')
        else Inr (word_of_int k)) = Inr w \<longleftrightarrow> w \<noteq> 0 \<and> k = uint w"
    if "0 \<le> k" for k
    using that unsigned_range [of w] unsigned_eq_word_of_int [of k w] by auto
  then show ?thesis
    unfolding nonzero_unsigned_scalar_def scalar_type.simps parse_number_as_Inr using assms uint_ge_0 [of w] by blast
qed

subsection \<open>An implementation of the numbers\<close>

text \<open>Integers as numbers, coded by their sign and their size.\<close>

definition encode_int :: "int \<Rightarrow> number" where
  "encode_int k = Number (if 0 \<le> k then 2 * nat k else 2 * nat (- k) - 1)"

definition decode_int :: "number \<Rightarrow> int" where
  "decode_int n = (let c = number_code n in if even c then int (c div 2) else - int ((c + 1) div 2))"

lemma decode_encode [simp]: "decode_int (encode_int k) = k"
  by (auto simp: encode_int_def decode_int_def Let_def elim!: oddE)

definition within :: "int \<Rightarrow> int \<Rightarrow> int \<Rightarrow> int option" where
  "within lo hi k = (if lo \<le> k \<and> k < hi then Some k else None)"

definition integer_numbers :: number_ops where
  "integer_numbers =
     \<lparr>no_as_i64 = (\<lambda>n. within (- (2 ^ 63)) (2 ^ 63) (decode_int n)),
      no_as_u64 = (\<lambda>n. within 0 (2 ^ 64) (decode_int n)),
      no_is_i64 = (\<lambda>n. within (- (2 ^ 63)) (2 ^ 63) (decode_int n) \<noteq> None),
      no_is_u64 = (\<lambda>n. within 0 (2 ^ 64) (decode_int n) \<noteq> None),
      no_from_i64 = encode_int, no_from_u64 = encode_int,
      no_show = (\<lambda>n. show_int (decode_int n))\<rparr>"

lemma integer_numbers_i64: "no_as_i64 integer_numbers (encode_int k) = (if - (2 ^ 63) \<le> k \<and> k < 2 ^ 63 then Some k else None)"
  by (simp add: integer_numbers_def within_def)

interpretation integer_numbers: numbers integer_numbers
  by unfold_locales (auto simp: integer_numbers_def within_def split: if_splits)

subsection \<open>Lists and sets\<close>

lemma fold_insert_distinct: "distinct (xs @ ys) \<Longrightarrow> fold List.insert ys (rev xs) = rev (xs @ ys)"
proof (induction ys arbitrary: xs)
  case (Cons y ys)
  then show ?case using Cons.IH [of "xs @ [y]"] by (auto simp: List.insert_def)
qed simp

lemma btree_insert_last: "sorted_wrt (<) (xs @ [x]) \<Longrightarrow> btree_insert x xs = xs @ [x]"
  by (induction xs) auto

lemma fold_btree_sorted: "sorted_wrt (<) (xs @ ys) \<Longrightarrow> fold btree_insert ys xs = xs @ ys"
proof (induction ys arbitrary: xs)
  case (Cons y ys)
  then have "btree_insert y xs = xs @ [y]"
    by (intro btree_insert_last) (simp add: sorted_wrt_append)
  then show ?case using Cons.IH [of "xs @ [y]"] Cons.prems by simp
qed simp

context input
begin

lemma vec: "input (vec_input T)"
  by unfold_locales (simp add: vec_input_def items_written)

lemma array: "length xs = n \<Longrightarrow> it_parse (array_input show_num n T) (Some (it_to_value (array_input show_num n T) xs)) = Inr xs"
  by (simp add: array_input_def try_map_written)

lemma hash_set: "distinct xs \<Longrightarrow> it_parse (hash_set_input T) (Some (it_to_value (hash_set_input T) xs)) = Inr xs"
  using fold_insert_distinct [of "[]" xs] by (simp add: hash_set_input_def items_written)

lemma option: "(\<And>y. it_to_value T y \<noteq> CNull) \<Longrightarrow> input (option_input T)"
proof
  fix x :: "'t option"
  assume some: "\<And>y. it_to_value T y \<noteq> CNull"
  have "(case it_to_value T y of CNull \<Rightarrow> Inr None
      | c \<Rightarrow> result_bind (propagated (it_type_name T) (it_type_name T) (it_parse T (Some c))) (\<lambda>x. Inr (Some x))) = Inr (Some y)" for y
    using some [of y] parse_written [of y] by (cases "it_to_value T y") simp_all
  then show "it_parse (option_input T) (Some (it_to_value (option_input T) x)) = Inr x"
    by (cases x) (simp_all add: option_input_def value_or_default_def)
qed

end

lemma btree_set:
  assumes "input T" "sorted_wrt (<) xs"
  shows "it_parse (btree_set_input T) (Some (it_to_value (btree_set_input T) xs)) = Inr xs"
  using fold_btree_sorted [of "[]" xs] assms(2) by (simp add: btree_set_input_def input.items_written [OF assms(1)])

lemma maybe_undefined:
  assumes "input T" "\<And>y. it_to_value T y \<noteq> CNull" "x \<noteq> Undefined"
  shows "it_parse (maybe_undefined_input T) (Some (it_to_value (maybe_undefined_input T) x)) = Inr x"
proof (cases x)
  case (Value y)
  then show ?thesis
    using assms(2) [of y] input.parse_written [OF assms(1), of y]
    by (cases "it_to_value T y") (simp_all add: maybe_undefined_input_def)
qed (use assms(3) in \<open>simp_all add: maybe_undefined_input_def\<close>)

subsection \<open>The properties\<close>

text \<open>C38: An integer of a type is read from exactly the numbers in the range of the type, as that very number,
  with the low bits of no other number; the types without zero read the same numbers but zero.\<close>

theorem int_scalars_exact:
  fixes w :: "'a::len word"
  assumes "numbers ops"
  shows "(sc_parse (signed_scalar ops) v = Inr w \<longleftrightarrow> (\<exists>n. v = CNumber n \<and> no_as_i64 ops n = Some (sint w))) \<and>
    (sc_parse (unsigned_scalar ops) v = Inr w \<longleftrightarrow> (\<exists>n. v = CNumber n \<and> no_as_u64 ops n = Some (uint w))) \<and>
    (sc_parse (nonzero_signed_scalar ops) v = Inr w \<longleftrightarrow> w \<noteq> 0 \<and> (\<exists>n. v = CNumber n \<and> no_as_i64 ops n = Some (sint w))) \<and>
    (sc_parse (nonzero_unsigned_scalar ops) v = Inr w \<longleftrightarrow> w \<noteq> 0 \<and> (\<exists>n. v = CNumber n \<and> no_as_u64 ops n = Some (uint w))) \<and>
    ((\<exists>x :: 'a word. sc_parse (signed_scalar ops) (CNumber n) = Inr x) \<longleftrightarrow>
       (\<exists>k. no_as_i64 ops n = Some k \<and> - (2 ^ (LENGTH('a) - 1)) \<le> k \<and> k < 2 ^ (LENGTH('a) - 1))) \<and>
    ((\<exists>x :: 'a word. sc_parse (unsigned_scalar ops) (CNumber n) = Inr x) \<longleftrightarrow>
       (\<exists>k. no_as_u64 ops n = Some k \<and> k < 2 ^ LENGTH('a)))"
proof -
  have pos: "0 \<le> k" if "no_as_u64 ops n = Some k" for n k
    using numbers.range_u64 [OF assms that] by simp
  have signed: "(\<exists>x :: 'a word. sint x = k) \<longleftrightarrow> - (2 ^ (LENGTH('a) - 1)) \<le> k \<and> k < 2 ^ (LENGTH('a) - 1)" for k
    using signed_range [where 'a = 'a] signed_word_of_int [where 'a = 'a and k = k]
    by (auto simp: int_min_def int_max_def)
  have unsigned: "(\<exists>x :: 'a word. uint x = k) \<longleftrightarrow> k < 2 ^ LENGTH('a)" if "0 \<le> k" for k
    using that unsigned_range [where 'a = 'a] unsigned_word_of_int [where 'a = 'a and k = k]
    by (auto simp: uint_max_def)
  have "(\<exists>x :: 'a word. no_as_i64 ops n = Some (sint x)) \<longleftrightarrow>
      (\<exists>k. no_as_i64 ops n = Some k \<and> - (2 ^ (LENGTH('a) - 1)) \<le> k \<and> k < 2 ^ (LENGTH('a) - 1))"
    using signed by metis
  moreover have "(\<exists>x :: 'a word. no_as_u64 ops n = Some (uint x)) \<longleftrightarrow> (\<exists>k. no_as_u64 ops n = Some k \<and> k < 2 ^ LENGTH('a))"
    using unsigned pos by metis
  ultimately show ?thesis
    by (simp add: signed_parse_Inr unsigned_parse_Inr [OF pos] nonzero_signed_parse_Inr nonzero_unsigned_parse_Inr [OF pos])
qed

theorem int_scalars_exact_witness:
  "sc_parse (i8_scalar integer_numbers) (CNumber (encode_int (- 128))) = Inr 128 \<and>
   (\<nexists>w. sc_parse (i8_scalar integer_numbers) (CNumber (encode_int 128)) = Inr w)"
proof
  show "sc_parse (i8_scalar integer_numbers) (CNumber (encode_int (- 128))) = Inr 128"
    using int_scalars_exact [OF integer_numbers.numbers_axioms, where w = "128 :: 8 word" and v = "CNumber (encode_int (- 128))",
        THEN conjunct1]
    unfolding i8_scalar_def by (simp add: integer_numbers_i64)
  show "\<nexists>w. sc_parse (i8_scalar integer_numbers) (CNumber (encode_int 128)) = Inr w"
    using int_scalars_exact [OF integer_numbers.numbers_axioms, where 'a = 8 and n = "encode_int 128",
        THEN conjunct2, THEN conjunct2, THEN conjunct2, THEN conjunct2, THEN conjunct1]
    unfolding i8_scalar_def by (simp add: integer_numbers_i64)
qed

text \<open>Each integer type reads back every value it writes, and takes only values that its check of
  validity accepts.\<close>

theorem int_scalars_roundtrip:
  assumes "numbers ops"
  shows "scalar (i8_scalar ops) \<and> scalar (i16_scalar ops) \<and> scalar (i32_scalar ops) \<and> scalar (i64_scalar ops) \<and>
    scalar (isize_scalar ops) \<and> scalar (u8_scalar ops) \<and> scalar (u16_scalar ops) \<and> scalar (u32_scalar ops) \<and>
    scalar (u64_scalar ops) \<and> scalar (usize_scalar ops)"
  using numbers.integer_scalars [OF assms] .

theorem int_scalars_roundtrip_witness:
  "sc_parse (u64_scalar integer_numbers) (sc_to_value (u64_scalar integer_numbers) (- 1)) = Inr (- 1)"
  using int_scalars_roundtrip [OF integer_numbers.numbers_axioms] by (simp add: scalar.parse_to_value)



lemma null_becomes_list:
  "it_parse (vec_input (option_input T)) (Some CNull) = Inr [None]" "it_parse (vec_input (option_input T)) None = Inr [None]"
  by (simp_all add: vec_input_def parse_items_def option_input_def value_or_default_def)

lemma sint_scast: "LENGTH('a::len) \<le> LENGTH('b::len) \<Longrightarrow> sint (scast (w :: 'a word) :: 'b word) = sint w"
proof -
  assume "LENGTH('a) \<le> LENGTH('b)"
  then have "(2::int) ^ (LENGTH('a) - 1) \<le> 2 ^ (LENGTH('b) - 1)"
    by (intro power_increasing) simp_all
  then have "- (2 ^ (LENGTH('b) - 1)) \<le> sint w" "sint w < 2 ^ (LENGTH('b) - 1)"
    using sint_ge [of w] sint_lt [of w] by linarith+
  then show ?thesis
    using signed_take_bit_int_eq_self [of "LENGTH('b) - 1" "sint w"] by (simp add: signed_scast_eq)
qed

text \<open>The bounds of the numeric validators hold for the numbers themselves, for signed integers of up to
  64 bits and unsigned ones of fewer: nothing wraps in the conversion to the type of the bound.\<close>

theorem numeric_validators_exact:
  fixes v :: "'a::len word"
  assumes "LENGTH('a) \<le> 64"
  shows "(maximum name scast v n = Inr () \<longleftrightarrow> sint v \<le> sint n) \<and>
    (minimum name scast v n = Inr () \<longleftrightarrow> sint n \<le> sint v) \<and>
    (LENGTH('a) < 64 \<longrightarrow> (maximum name ucast v n = Inr () \<longleftrightarrow> uint v \<le> sint n) \<and>
       (minimum name ucast v n = Inr () \<longleftrightarrow> sint n \<le> uint v))"
proof -
  have "sint (scast v :: 64 word) = sint v"
    using assms by (simp add: sint_scast)
  moreover have "sint (ucast v :: 64 word) = uint v" if "LENGTH('a) < 64"
  proof -
    have "(2::int) ^ LENGTH('a) \<le> 2 ^ 63"
      using that by (intro power_increasing) simp_all
    then have "uint v < 2 ^ 63"
      using uint_bounded [of v] by linarith
    then show ?thesis using signed_take_bit_int_eq_self [of 63 "uint v"] order.trans [OF _ uint_ge_0 [of v], of "- (2 ^ 63)"]
      by (simp add: signed_ucast_eq)
  qed
  ultimately show ?thesis by (simp add: maximum_def minimum_def validate_def)
qed

theorem numeric_validators_exact_witness:
  "maximum ''Int'' scast (- 7 :: 32 word) 100 = Inr () \<and> maximum ''Int'' scast (101 :: 32 word) 100 \<noteq> Inr () \<and>
   minimum ''Int'' ucast (200 :: 8 word) 200 = Inr ()"
  using numeric_validators_exact [where v = "- 7 :: 32 word" and name = "''Int''" and n = 100] numeric_validators_exact [where v = "101 :: 32 word" and name = "''Int''" and n = 100]
    numeric_validators_exact [where v = "200 :: 8 word" and name = "''Int''" and n = 200] by simp

text \<open>An unsigned number of 64 bits wraps: the greatest is no more than any bound that is not negative.\<close>

lemma u64_maximum_wraps: "maximum name (ucast :: 64 word \<Rightarrow> 64 word) (- 1) 10 = Inr ()" "sint (10 :: 64 word) < uint (- 1 :: 64 word)"
  by (simp_all add: maximum_def validate_def unsigned_minus_1_eq_mask mask_eq_exp_minus_1)

lemma nonzero_u64_validity:
  "sc_parse (nonzero_u64_scalar integer_numbers) (CNumber (encode_int (2 ^ 63))) = Inr (2 ^ 63)"
  "\<not> sc_is_valid (nonzero_u64_scalar integer_numbers) (CNumber (encode_int (2 ^ 63)))"
  by (simp_all add: nonzero_u64_scalar_def wide_nonzero_unsigned_scalar_def parse_number_as_def number_satisfies_def
      integer_numbers_def within_def)

end
