(* ===== verification/Stringify.thy ===== *)
theory Stringify
  imports Registry Value_Facts
begin

text \<open>
  The printing of a query document for logs and traces (\<open>src/registry/stringify_exec_doc.rs\<close>): the
  arguments are printed with their variables resolved, and a value whose argument or input field is
  marked as secret is printed as a placeholder.

  The text a function of the code appends to its output is the result of the definition. The
  \<open>concrete_typename\<close> of a type name the schema does not write can panic, so the results are runs.
\<close>

fun run_all :: "('a \<Rightarrow> 'b run) \<Rightarrow> 'a list \<Rightarrow> 'b list run" where
  "run_all f [] = Done []"
| "run_all f (x # xs) = run_bind (f x) (\<lambda>y. run_bind (run_all f xs) (\<lambda>ys. Done (y # ys)))"

lemma run_all_cong [fundef_cong]:
  "xs = ys \<Longrightarrow> (\<And>x. x \<in> set ys \<Longrightarrow> f x = g x) \<Longrightarrow> run_all f xs = run_all g ys"
  by (induction ys arbitrary: xs) simp_all

lemma run_all_Done [simp]: "run_all (\<lambda>x. Done (f x)) xs = Done (map f xs)"
  by (induction xs) simp_all

subsection \<open>Values\<close>

definition is_secret :: "meta_input_value option \<Rightarrow> bool" where
  "is_secret mi = (case mi of Some i \<Rightarrow> mi_is_secret i | None \<Rightarrow> False)"

definition secret_text :: string where
  "secret_text = ''<secret>''"

text \<open>The fields of the input object an argument or input field takes, looked up below the lists of its type.\<close>

definition input_object_fields :: "registry \<Rightarrow> meta_input_value option \<Rightarrow> (string \<times> meta_input_value) list option run" where
  "input_object_fields reg mi =
     (case mi of
        None \<Rightarrow> Done None
      | Some i \<Rightarrow>
          run_map (\<lambda>ty. case ty of Some (MTInputObject io) \<Rightarrow> Some (io_input_fields io) | _ \<Rightarrow> None)
            (concrete_type_by_name reg (mi_ty i)))"

fun stringify_input_value ::
    "registry \<Rightarrow> (number \<Rightarrow> string) \<Rightarrow> meta_input_value option \<Rightarrow> const_value \<Rightarrow> string run"
  and stringify_input_fields ::
    "registry \<Rightarrow> (number \<Rightarrow> string) \<Rightarrow> (string \<times> meta_input_value) list \<Rightarrow> (name \<times> const_value) list \<Rightarrow> (name \<times> string) list run"
where
  "stringify_input_value reg show_num mi (CObject obj) =
     (if is_secret mi then Done (quoted secret_text)
      else run_bind (input_object_fields reg mi) (\<lambda>parent_type. case parent_type of
          Some input_fields \<Rightarrow> run_map write_object (stringify_input_fields reg show_num input_fields obj)
        | None \<Rightarrow> Done (show_const_value show_num (CObject obj))))"
| "stringify_input_value reg show_num mi v =
     (if is_secret mi then Done (quoted secret_text) else Done (show_const_value show_num v))"
| "stringify_input_fields reg show_num input_fields [] = Done []"
| "stringify_input_fields reg show_num input_fields ((key, v) # obj) =
     run_bind (stringify_input_value reg show_num (map_of input_fields key) v) (\<lambda>s.
     run_bind (stringify_input_fields reg show_num input_fields obj) (\<lambda>ss. Done ((key, s) # ss)))"

subsection \<open>Selections\<close>

definition schema_field :: "meta_type option \<Rightarrow> name \<Rightarrow> meta_field option" where
  "schema_field parent_type n = Option.bind parent_type (\<lambda>ty. field_by_name ty n)"

text \<open>The metadata of an argument, and the value it has: null when a variable is missing.\<close>

definition argument_meta :: "meta_type option \<Rightarrow> name \<Rightarrow> name \<Rightarrow> meta_input_value option" where
  "argument_meta parent_type field_name n =
     Option.bind (schema_field parent_type field_name) (\<lambda>f. map_of (mf_args f) n)"

definition resolved_argument :: "variables \<Rightarrow> gvalue \<Rightarrow> const_value" where
  "resolved_argument vars v =
     (case into_const_with (\<lambda>n. case map_of vars n of Some c \<Rightarrow> Inr c | None \<Rightarrow> Inl ()) v of
        Inr c \<Rightarrow> c
      | Inl _ \<Rightarrow> CNull)"

definition stringify_arguments ::
  "registry \<Rightarrow> (number \<Rightarrow> string) \<Rightarrow> variables \<Rightarrow> meta_type option \<Rightarrow> name \<Rightarrow> arguments \<Rightarrow> string run"
where
  "stringify_arguments reg show_num vars parent_type field_name args =
     (if args = [] then Done []
      else run_map (\<lambda>ss. ''('' @ join '', '' ss @ '')'')
        (run_all (\<lambda>(n, argument).
           run_map (\<lambda>s. node n @ '': '' @ s)
             (stringify_input_value reg show_num (argument_meta parent_type field_name (node n))
               (resolved_argument vars (node argument))))
          args))"

definition type_of_field :: "registry \<Rightarrow> meta_type option \<Rightarrow> name \<Rightarrow> meta_type option run" where
  "type_of_field reg parent_type field_name =
     (case schema_field parent_type field_name of
        None \<Rightarrow> Done None
      | Some f \<Rightarrow> concrete_type_by_name reg (mf_ty f))"

definition condition_type :: "registry \<Rightarrow> type_condition positioned option \<Rightarrow> meta_type option" where
  "condition_type reg tc = Option.bind tc (\<lambda>c. map_of (reg_types reg) (node (tc_on (node c))))"

definition field_text :: "field \<Rightarrow> string \<Rightarrow> string \<Rightarrow> string" where
  "field_text f arguments subselection =
     (case f_alias f of Some a \<Rightarrow> node a @ '':'' | None \<Rightarrow> []) @ node (f_name f) @ arguments @ subselection"

definition inline_text :: "inline_fragment \<Rightarrow> string" where
  "inline_text i =
     ''... '' @ (case if_type_condition i of Some c \<Rightarrow> ''on '' @ node (tc_on (node c)) @ '' '' | None \<Rightarrow> [])"

function stringify_selection_set ::
  "registry \<Rightarrow> (number \<Rightarrow> string) \<Rightarrow> variables \<Rightarrow> meta_type option \<Rightarrow> selection_set \<Rightarrow> string run"
where
  "stringify_selection_set reg show_num vars parent_type ss =
     run_map (\<lambda>texts. ''{ '' @ join '' '' texts @ '' }'')
       (run_all (\<lambda>selection. case node selection of
            SelField fld \<Rightarrow>
              run_bind (stringify_arguments reg show_num vars parent_type (node (f_name (node fld))) (f_arguments (node fld)))
                (\<lambda>arguments.
              run_bind
                (if items (node (f_selection_set (node fld))) = [] then Done []
                 else run_bind (type_of_field reg parent_type (node (f_name (node fld)))) (\<lambda>field_type.
                   run_map (\<lambda>text. '' '' @ text)
                     (stringify_selection_set reg show_num vars field_type (node (f_selection_set (node fld))))))
                (\<lambda>subselection.
              Done (field_text (node fld) arguments subselection)))
          | SelSpread spread \<Rightarrow> Done (''... '' @ node (fs_fragment_name (node spread)))
          | SelInline inl \<Rightarrow>
              run_map (\<lambda>text. inline_text (node inl) @ text)
                (stringify_selection_set reg show_num vars (condition_type reg (if_type_condition (node inl)))
                  (node (if_selection_set (node inl)))))
         (items ss))"
  by pat_completeness auto
termination
  by (relation "measure (\<lambda>(reg, show_num, vars, parent_type, ss). size ss)")
    (auto dest!: size_item simp: size_selection_field size_selection_inline
      intro: order.strict_trans [OF size_inline_selection_set] order.strict_trans [OF size_field_selection_set])

declare stringify_selection_set.simps [simp del]

subsection \<open>Documents\<close>

text \<open>The closing brace after the selection set of a fragment is a second one.\<close>

definition stringify_fragment_definition ::
  "registry \<Rightarrow> (number \<Rightarrow> string) \<Rightarrow> variables \<Rightarrow> name \<times> fragment_definition positioned \<Rightarrow> string run"
where
  "stringify_fragment_definition reg show_num vars nf =
     (let type_name = node (tc_on (node (fd_type_condition (node (snd nf))))) in
      run_map (\<lambda>s. ''fragment '' @ fst nf @ '' on '' @ type_name @ s @ ''}'' @ [CHR 0x0A, CHR 0x0A])
        (stringify_selection_set reg show_num vars (map_of (reg_types reg) type_name) (node (fd_selection_set (node (snd nf))))))"

definition stringify_variable_definition :: "(number \<Rightarrow> string) \<Rightarrow> variable_definition \<Rightarrow> string" where
  "stringify_variable_definition show_num vd =
     ''$'' @ node (vd_name vd) @ '': '' @ show_type (node (vd_type vd)) @
     (case vd_default_value vd of Some d \<Rightarrow> '' = '' @ show_const_value show_num (node d) | None \<Rightarrow> [])"

definition root_type :: "registry \<Rightarrow> operation_type \<Rightarrow> meta_type option" where
  "root_type reg ty =
     (case ty of
        Query \<Rightarrow> map_of (reg_types reg) (reg_query_type reg)
      | Mutation \<Rightarrow> Option.bind (reg_mutation_type reg) (map_of (reg_types reg))
      | Subscription \<Rightarrow> Option.bind (reg_subscription_type reg) (map_of (reg_types reg)))"

definition stringify_operation ::
  "registry \<Rightarrow> (number \<Rightarrow> string) \<Rightarrow> variables \<Rightarrow> name option \<times> operation_definition positioned \<Rightarrow> string run"
where
  "stringify_operation reg show_num vars op =
     (let od = node (snd op); vds = od_variable_definitions od in
      run_map (\<lambda>s. show_operation_type (od_ty od) @ '' '' @
          (case fst op of
             None \<Rightarrow> []
           | Some n \<Rightarrow> n @
               (if vds = [] then []
                else ''('' @ join '', '' (map (\<lambda>vd. stringify_variable_definition show_num (node vd)) vds) @ '')'') @ '' '') @ s)
        (stringify_selection_set reg show_num vars (root_type reg (od_ty od)) (node (od_selection_set od))))"

definition stringify_exec_doc ::
  "registry \<Rightarrow> (number \<Rightarrow> string) \<Rightarrow> variables \<Rightarrow> executable_document \<Rightarrow> string run"
where
  "stringify_exec_doc reg show_num vars doc =
     run_bind (run_all (stringify_fragment_definition reg show_num vars) (doc_fragments doc)) (\<lambda>fragments.
     run_map (\<lambda>operations. concat fragments @ concat operations)
       (run_all (stringify_operation reg show_num vars) (operations_iter (doc_operations doc))))"

subsection \<open>Redaction\<close>

text \<open>
  A document in which every argument is the constant it has, with the secret parts of the constants
  replaced by the placeholder. It does not mention the variables.
\<close>

fun redact_value :: "registry \<Rightarrow> meta_input_value option \<Rightarrow> const_value \<Rightarrow> const_value run"
  and redact_fields ::
    "registry \<Rightarrow> (string \<times> meta_input_value) list \<Rightarrow> (name \<times> const_value) list \<Rightarrow> (name \<times> const_value) list run"
where
  "redact_value reg mi (CObject obj) =
     (if is_secret mi then Done (CString secret_text)
      else run_bind (input_object_fields reg mi) (\<lambda>parent_type. case parent_type of
          Some input_fields \<Rightarrow> run_map CObject (redact_fields reg input_fields obj)
        | None \<Rightarrow> Done (CObject obj)))"
| "redact_value reg mi v = Done (if is_secret mi then CString secret_text else v)"
| "redact_fields reg input_fields [] = Done []"
| "redact_fields reg input_fields ((key, v) # obj) =
     run_bind (redact_value reg (map_of input_fields key) v) (\<lambda>w.
     run_bind (redact_fields reg input_fields obj) (\<lambda>ws. Done ((key, w) # ws)))"

definition redact_arguments ::
  "registry \<Rightarrow> variables \<Rightarrow> meta_type option \<Rightarrow> name \<Rightarrow> arguments \<Rightarrow> arguments run"
where
  "redact_arguments reg vars parent_type field_name args =
     run_all (\<lambda>(n, argument).
       run_map (\<lambda>c. (n, Positioned (pos argument) (into_value c)))
         (redact_value reg (argument_meta parent_type field_name (node n)) (resolved_argument vars (node argument)))) args"

function redact_selection_set :: "registry \<Rightarrow> variables \<Rightarrow> meta_type option \<Rightarrow> selection_set \<Rightarrow> selection_set run" where
  "redact_selection_set reg vars parent_type ss =
     run_map SelSet
       (run_all (\<lambda>selection. run_map (Positioned (pos selection)) (case node selection of
            SelField fld \<Rightarrow>
              run_bind (redact_arguments reg vars parent_type (node (f_name (node fld))) (f_arguments (node fld)))
                (\<lambda>arguments.
              run_bind
                (if items (node (f_selection_set (node fld))) = [] then Done (SelSet [])
                 else run_bind (type_of_field reg parent_type (node (f_name (node fld)))) (\<lambda>field_type.
                   redact_selection_set reg vars field_type (node (f_selection_set (node fld)))))
                (\<lambda>subselection.
              Done (SelField (position_node fld
                (Fld (f_alias (node fld)) (f_name (node fld)) arguments (f_directives (node fld))
                  (position_node (f_selection_set (node fld)) subselection))))))
          | SelSpread spread \<Rightarrow> Done (SelSpread spread)
          | SelInline inl \<Rightarrow>
              run_map (\<lambda>subselection. SelInline (position_node inl
                (InlineFrag (if_type_condition (node inl)) (if_directives (node inl))
                  (position_node (if_selection_set (node inl)) subselection))))
                (redact_selection_set reg vars (condition_type reg (if_type_condition (node inl)))
                  (node (if_selection_set (node inl))))))
         (items ss))"
  by pat_completeness auto
termination
  by (relation "measure (\<lambda>(reg, vars, parent_type, ss). size ss)")
    (auto dest!: size_item simp: size_selection_field size_selection_inline
      intro: order.strict_trans [OF size_inline_selection_set] order.strict_trans [OF size_field_selection_set])

declare redact_selection_set.simps [simp del]

text \<open>The document with its fragments and operations redacted.\<close>

definition redact_fragment ::
  "registry \<Rightarrow> variables \<Rightarrow> name \<times> fragment_definition positioned \<Rightarrow> (name \<times> fragment_definition positioned) run"
where
  "redact_fragment reg vars nf =
     (let fd = node (snd nf) in
      run_map (\<lambda>ss. (fst nf, position_node (snd nf) (fd\<lparr>fd_selection_set := position_node (fd_selection_set fd) ss\<rparr>)))
        (redact_selection_set reg vars (map_of (reg_types reg) (node (tc_on (node (fd_type_condition fd)))))
          (node (fd_selection_set fd))))"

definition redact_operation ::
  "registry \<Rightarrow> variables \<Rightarrow> operation_definition positioned \<Rightarrow> operation_definition positioned run"
where
  "redact_operation reg vars op =
     (let od = node op in
      run_map (\<lambda>ss. position_node op (od\<lparr>od_selection_set := position_node (od_selection_set od) ss\<rparr>))
        (redact_selection_set reg vars (root_type reg (od_ty od)) (node (od_selection_set od))))"

definition redact_exec_doc :: "registry \<Rightarrow> variables \<Rightarrow> executable_document \<Rightarrow> executable_document run" where
  "redact_exec_doc reg vars doc =
     run_bind (run_all (redact_fragment reg vars) (doc_fragments doc)) (\<lambda>fragments.
     run_map (\<lambda>operations. \<lparr>doc_operations = operations, doc_fragments = fragments\<rparr>)
       (case doc_operations doc of
          Single op \<Rightarrow> run_map Single (redact_operation reg vars op)
        | Multiple ops \<Rightarrow>
            run_map Multiple (run_all (\<lambda>(n, op). run_map (\<lambda>op'. (n, op')) (redact_operation reg vars op)) ops)))"

subsection \<open>What is printed is the redacted document\<close>

text \<open>
  A redaction \<open>r\<close> agrees with a printed text \<open>s\<close> when printing its result by \<open>p\<close> gives that text, and
  when it fails where the printing fails.
\<close>

definition prints :: "'r run \<Rightarrow> 't run \<Rightarrow> ('r \<Rightarrow> 't run) \<Rightarrow> bool" where
  "prints r s p \<longleftrightarrow>
     (case r of Done x \<Rightarrow> returns s \<and> p x = s | Panicked \<Rightarrow> s = Panicked | OutOfFuel \<Rightarrow> s = OutOfFuel)"

lemma prints_bind: "prints r s p \<Longrightarrow> s = run_bind r p"
  by (cases r) (auto simp: prints_def)

lemma prints_Done [simp]: "prints (Done x) s p \<longleftrightarrow> returns s \<and> p x = s"
  by (simp add: prints_def)

lemma prints_map:
  assumes "prints r s p" "\<And>x. r = Done x \<Longrightarrow> q (F x) = run_map G (p x)"
  shows "prints (run_map F r) (run_map G s) q"
  using assms by (cases r; cases s) (auto simp: prints_def)

lemma prints_lookup:
  assumes "\<And>y. l = Done y \<Longrightarrow> prints (f y) (g y) p"
  shows "prints (run_bind l f) (run_bind l g) p"
  using assms by (cases l) (auto simp: prints_def)

lemma prints_bind2:
  assumes "prints r s p"
    and "\<And>x y. r = Done x \<Longrightarrow> p x = Done y \<Longrightarrow> s = Done y \<Longrightarrow> prints (f x) (g y) q"
  shows "prints (run_bind r f) (run_bind s g) q"
  using assms by (cases r; cases s) (auto simp: prints_def)

lemma prints_all:
  "(\<And>x. x \<in> set xs \<Longrightarrow> prints (f x) (g x) p) \<Longrightarrow> prints (run_all f xs) (run_all g xs) (run_all p)"
proof (induction xs)
  case (Cons x xs)
  have "prints (run_all f xs) (run_all g xs) (run_all p)" using Cons by simp
  then show ?case
    using Cons.prems [of x]
    by (cases "f x"; cases "g x"; cases "run_all f xs"; cases "run_all g xs") (auto simp: prints_def)
qed simp

lemma run_all_Nil: "run_all f xs = Done ys \<Longrightarrow> ys = [] \<longleftrightarrow> xs = []"
  by (cases xs) (auto simp: run_bind_Done_iff)

lemma prints_value:
  "prints (redact_value reg mi v) (stringify_input_value reg show_num mi v) (stringify_input_value reg show_num mi)"
  "prints (redact_fields reg fs obj) (stringify_input_fields reg show_num fs obj) (stringify_input_fields reg show_num fs)"
proof (induction reg show_num mi v and reg show_num fs obj
    rule: stringify_input_value_stringify_input_fields.induct)
  case (1 reg show_num mi obj)
  show ?case
  proof (cases "is_secret mi")
    case False
    have "prints (run_map CObject (redact_fields reg fs obj)) (run_map write_object (stringify_input_fields reg show_num fs obj))
        (stringify_input_value reg show_num mi)" if "input_object_fields reg mi = Done (Some fs)" for fs
      by (rule prints_map [OF "1.IH" [OF False that refl]]) (use False that in simp)
    then show ?thesis
      using False by (auto intro!: prints_lookup split: option.split)
  qed simp
next
  case (4 reg show_num input_fields key v obj)
  show ?case
    unfolding redact_fields.simps stringify_input_fields.simps
    by (intro prints_bind2 [OF "4.IH"(1)] prints_bind2 [OF "4.IH"(2)]) simp_all
qed simp_all

lemma resolved_argument_constant: "resolved_argument vars (into_value c) = c"
proof -
  obtain d where "into_const_with (\<lambda>n. case map_of vars n of Some c \<Rightarrow> Inr c | None \<Rightarrow> Inl ()) (into_value c) = Inr d"
    "into_value d = into_value c"
    using into_const_with_closed(1) [OF into_value_closed] by blast
  then show ?thesis
    using into_value_inject by (auto simp: resolved_argument_def)
qed

lemma prints_arguments:
  "prints (redact_arguments reg vars pt n args) (stringify_arguments reg show_num vars pt n args)
     (stringify_arguments reg show_num [] pt n)"
proof -
  let ?meta = "\<lambda>k. argument_meta pt n (node k)"
  let ?text = "\<lambda>vars (k, argument). run_map (\<lambda>s. node k @ '': '' @ s)
    (stringify_input_value reg show_num (?meta k) (resolved_argument vars (node argument)))"
  have one: "prints (run_map (\<lambda>c. (k, Positioned (pos argument) (into_value c)))
        (redact_value reg (?meta k) (resolved_argument vars (node argument))))
      (?text vars (k, argument)) (?text [])" for k argument
    unfolding split_conv by (rule prints_map [OF prints_value(1)]) (simp add: resolved_argument_constant)
  have "prints (redact_arguments reg vars pt n args) (run_all (?text vars) args) (run_all (?text []))"
    unfolding redact_arguments_def by (rule prints_all) (use one in \<open>auto split: prod.split\<close>)
  then show ?thesis
    using run_all_Nil
    by (cases "redact_arguments reg vars pt n args")
      (fastforce simp: prints_def stringify_arguments_def redact_arguments_def returns_iff)+
qed

lemma prints_selection_set:
  "prints (redact_selection_set reg vars pt ss) (stringify_selection_set reg show_num vars pt ss)
     (stringify_selection_set reg show_num [] pt)"
proof (induction reg vars pt ss rule: redact_selection_set.induct)
  case (1 reg vars pt ss)
  let ?text = "\<lambda>vars selection. case node selection of
      SelField fld \<Rightarrow>
        run_bind (stringify_arguments reg show_num vars pt (node (f_name (node fld))) (f_arguments (node fld))) (\<lambda>arguments.
        run_bind (if items (node (f_selection_set (node fld))) = [] then Done []
          else run_bind (type_of_field reg pt (node (f_name (node fld)))) (\<lambda>field_type.
            run_map (\<lambda>text. '' '' @ text)
              (stringify_selection_set reg show_num vars field_type (node (f_selection_set (node fld)))))) (\<lambda>subselection.
        Done (field_text (node fld) arguments subselection)))
    | SelSpread spread \<Rightarrow> Done (''... '' @ node (fs_fragment_name (node spread)))
    | SelInline inl \<Rightarrow> run_map (\<lambda>text. inline_text (node inl) @ text)
        (stringify_selection_set reg show_num vars (condition_type reg (if_type_condition (node inl)))
          (node (if_selection_set (node inl))))"
  have space: "(@) '' '' = (#) (CHR '' '')" by (simp add: fun_eq_iff)
  have sub: "prints (if items sub = [] then Done (SelSet [])
        else run_bind (type_of_field reg pt n) (\<lambda>t. redact_selection_set reg vars t sub))
      (if items sub = [] then Done []
        else run_bind (type_of_field reg pt n) (\<lambda>t. run_map (\<lambda>text. '' '' @ text) (stringify_selection_set reg show_num vars t sub)))
      (\<lambda>sub'. if items sub' = [] then Done []
        else run_bind (type_of_field reg pt n) (\<lambda>t. run_map (\<lambda>text. '' '' @ text) (stringify_selection_set reg show_num [] t sub')))"
    (is "prints ?r ?s ?p")
    if IH: "\<And>t. items sub \<noteq> [] \<Longrightarrow> type_of_field reg pt n = Done t \<Longrightarrow>
        prints (redact_selection_set reg vars t sub) (stringify_selection_set reg show_num vars t sub)
          (stringify_selection_set reg show_num [] t)" for sub n
  proof (cases "items sub = []")
    case False
    have kept: "items sub' \<noteq> []" if "redact_selection_set reg vars t sub = Done sub'" for t sub'
      using that False run_all_Nil
      by (subst (asm) redact_selection_set.simps) (fastforce simp: run_map_Done)
    have "prints (run_map (\<lambda>x. x) (redact_selection_set reg vars t sub))
        (run_map (\<lambda>text. '' '' @ text) (stringify_selection_set reg show_num vars t sub)) ?p"
      if t: "type_of_field reg pt n = Done t" for t
      by (rule prints_map [OF IH [OF False t]]) (simp add: kept t space)
    then show ?thesis using False by (auto simp: space intro!: prints_lookup)
  qed simp
  have "prints (run_map (Positioned (pos selection)) (case node selection of
            SelField fld \<Rightarrow>
              run_bind (redact_arguments reg vars pt (node (f_name (node fld))) (f_arguments (node fld))) (\<lambda>arguments.
              run_bind
                (if items (node (f_selection_set (node fld))) = [] then Done (SelSet [])
                 else run_bind (type_of_field reg pt (node (f_name (node fld)))) (\<lambda>field_type.
                   redact_selection_set reg vars field_type (node (f_selection_set (node fld))))) (\<lambda>subselection.
              Done (SelField (position_node fld
                (Fld (f_alias (node fld)) (f_name (node fld)) arguments (f_directives (node fld))
                  (position_node (f_selection_set (node fld)) subselection))))))
          | SelSpread spread \<Rightarrow> Done (SelSpread spread)
          | SelInline inl \<Rightarrow>
              run_map (\<lambda>subselection. SelInline (position_node inl
                (InlineFrag (if_type_condition (node inl)) (if_directives (node inl))
                  (position_node (if_selection_set (node inl)) subselection))))
                (redact_selection_set reg vars (condition_type reg (if_type_condition (node inl)))
                  (node (if_selection_set (node inl))))))
      (run_map (\<lambda>x. x) (?text vars selection)) (?text [])" if sel: "selection \<in> set (items ss)" for selection
  proof (cases "node selection")
    case (SelField fld)
    let ?n = "node (f_name (node fld))" and ?sub = "node (f_selection_set (node fld))"
    show ?thesis
      unfolding SelField selection.case
    proof (rule prints_map [where p = "\<lambda>sel'. ?text [] (Positioned p sel')" for p], rule prints_bind2 [OF prints_arguments])
      fix args arguments
      assume args: "redact_arguments reg vars pt ?n (f_arguments (node fld)) = Done args"
        "stringify_arguments reg show_num [] pt ?n args = Done arguments"
      show "prints (run_bind (if items ?sub = [] then Done (SelSet [])
            else run_bind (type_of_field reg pt ?n) (\<lambda>t. redact_selection_set reg vars t ?sub)) (\<lambda>subselection.
          Done (SelField (position_node fld (Fld (f_alias (node fld)) (f_name (node fld)) args (f_directives (node fld))
            (position_node (f_selection_set (node fld)) subselection))))))
        (run_bind (if items ?sub = [] then Done []
            else run_bind (type_of_field reg pt ?n) (\<lambda>t. run_map (\<lambda>text. '' '' @ text)
              (stringify_selection_set reg show_num vars t ?sub))) (\<lambda>subselection.
          Done (field_text (node fld) arguments subselection)))
        (\<lambda>sel'. ?text [] (Positioned (pos selection) sel'))"
        by (rule prints_bind2 [OF sub [OF "1.IH"(1) [OF sel SelField args(1)]]])
          (use args(2) in \<open>auto simp: position_node_def field_text_def\<close>)
    qed simp
  next
    case (SelSpread spread)
    then show ?thesis by simp
  next
    case (SelInline inl)
    show ?thesis
      unfolding SelInline selection.case
      by (rule prints_map [where p = "\<lambda>sel'. ?text [] (Positioned p sel')" for p],
          rule prints_map [OF "1.IH"(2) [OF sel SelInline]])
        (auto simp: position_node_def inline_text_def)
  qed
  then have "prints (redact_selection_set reg vars pt ss) (stringify_selection_set reg show_num vars pt ss)
      (\<lambda>ss'. run_map (\<lambda>texts. ''{ '' @ join '' '' texts @ '' }'') (run_all (?text []) (items ss')))"
    unfolding redact_selection_set.simps [of reg vars pt ss] stringify_selection_set.simps [of reg show_num vars pt ss]
    by (intro prints_map [OF prints_all]) simp_all
  then show ?case
    by (simp add: stringify_selection_set.simps [where vars = "[]"] fun_eq_iff)
qed

lemma prints_fragment:
  "prints (redact_fragment reg vars nf) (stringify_fragment_definition reg show_num vars nf)
     (stringify_fragment_definition reg show_num [])"
  unfolding redact_fragment_def stringify_fragment_definition_def Let_def
  by (rule prints_map [OF prints_selection_set]) (simp add: position_node_def)

lemma prints_operation:
  "prints (run_map F (redact_operation reg vars op)) (stringify_operation reg show_num vars (n, op)) p"
  if "\<And>op'. p (F op') = stringify_operation reg show_num [] (n, op')"
  unfolding redact_operation_def stringify_operation_def Let_def run_map_map fst_conv snd_conv
  by (rule prints_map [OF prints_selection_set]) (simp add: that stringify_operation_def position_node_def Let_def cong: option.case_cong)

lemma prints_exec_doc:
  "prints (redact_exec_doc reg vars doc) (stringify_exec_doc reg show_num vars doc) (stringify_exec_doc reg show_num [])"
proof -
  let ?ops = "\<lambda>vars ops. run_all (stringify_operation reg show_num vars) (operations_iter ops)"
  have ops: "prints (case doc_operations doc of
          Single op \<Rightarrow> run_map Single (redact_operation reg vars op)
        | Multiple ops \<Rightarrow>
            run_map Multiple (run_all (\<lambda>(n, op). run_map (\<lambda>op'. (n, op')) (redact_operation reg vars op)) ops))
      (?ops vars (doc_operations doc)) (?ops [])"
  proof (cases "doc_operations doc")
    case (Single op)
    have "prints (run_map Single (redact_operation reg vars op)) (run_map (\<lambda>s. [s]) (stringify_operation reg show_num vars (None, op)))
        (?ops [])"
      by (rule prints_map [where F = Single and r = "redact_operation reg vars op"
              and p = "\<lambda>op. stringify_operation reg show_num [] (None, op)"])
        (use prints_operation [where F = "\<lambda>x. x" and p = "\<lambda>op. stringify_operation reg show_num [] (None, op)"] in
          \<open>auto simp: run_map_def\<close>)
    then show ?thesis using Single by (simp add: run_map_def)
  next
    case (Multiple ops)
    have "run_all (stringify_operation reg show_num vs) (map (\<lambda>(n, op). (Some n, op)) xs) =
        run_all (\<lambda>(n, op). stringify_operation reg show_num vs (Some n, op)) xs" for vs xs
      by (induction xs) auto
    moreover have "prints (run_all (\<lambda>(n, op). run_map (\<lambda>op'. (n, op')) (redact_operation reg vars op)) ops)
        (run_all (\<lambda>(n, op). stringify_operation reg show_num vars (Some n, op)) ops)
        (run_all (\<lambda>(n, op). stringify_operation reg show_num [] (Some n, op)))"
      by (rule prints_all) (auto intro: prints_operation split: prod.split)
    ultimately have "prints (run_map Multiple (run_all (\<lambda>(n, op). run_map (\<lambda>op'. (n, op')) (redact_operation reg vars op)) ops))
        (run_map (\<lambda>x. x) (?ops vars (Multiple ops))) (?ops [])"
      by (intro prints_map [where p = "run_all (\<lambda>(n, op). stringify_operation reg show_num [] (Some n, op))"]) simp_all
    then show ?thesis using Multiple by simp
  qed
  show ?thesis
    unfolding redact_exec_doc_def stringify_exec_doc_def
    by (rule prints_bind2 [OF prints_all [OF prints_fragment]], rule prints_map [OF ops]) simp
qed


text \<open>What two documents print alike when their redactions agree.\<close>

corollary stringify_noninterference:
  "redact_exec_doc reg vars doc = redact_exec_doc reg vars' doc' \<Longrightarrow>
     stringify_exec_doc reg show_num vars doc = stringify_exec_doc reg show_num vars' doc'"
  by (simp add: prints_bind [OF prints_exec_doc])

subsection \<open>Secrets the redaction does not reach\<close>

text \<open>
  \<open>type Query { login(by: Login, all: [Login!]): Int }\<close>, \<open>input Login { pw: String }\<close> with \<open>pw\<close> secret. A
  list of input objects is printed as it is, and so is everything below an inline fragment without a
  type condition.
\<close>

definition login_registry :: registry where
  "login_registry =
     \<lparr>reg_types =
        [(''Query'', MTObject
           \<lparr>ob_name = ''Query'', ob_description = None,
            ob_fields = [(''login'', (meta_field_new ''login'' ''Int'')
              \<lparr>mf_args := [(''by'', meta_input_value_new ''by'' ''Login''),
                           (''all'', meta_input_value_new ''all'' ''[Login!]'')]\<rparr>)],
            ob_cache_control = default_cache_control, ob_extends = False, ob_shareable = False,
            ob_resolvable = True, ob_keys = None, ob_visible = None, ob_inaccessible = False,
            ob_interface_object = False, ob_tags = [], ob_is_subscription = False, ob_rust_typename = None,
            ob_directive_invocations = [], ob_requires_scopes = []\<rparr>),
         (''Login'', MTInputObject
           \<lparr>io_name = ''Login'', io_description = None,
            io_input_fields = [(''pw'', (meta_input_value_new ''pw'' ''String'')\<lparr>mi_is_secret := True\<rparr>)],
            io_visible = None, io_inaccessible = False, io_tags = [], io_rust_typename = None, io_oneof = False,
            io_directive_invocations = []\<rparr>)],
      reg_directives = [], reg_implements = [], reg_query_type = ''Query'', reg_mutation_type = None,
      reg_subscription_type = None, reg_introspection_mode = IntrospectionEnabled, reg_enable_federation = False,
      reg_federation_subscription = False, reg_ignore_name_conflicts = {}, reg_enable_suggestions = True\<rparr>"

definition login_selection :: "name \<Rightarrow> gvalue \<Rightarrow> selection positioned" where
  "login_selection n v =
     Positioned default_pos (SelField (Positioned default_pos
       (Fld None (Positioned default_pos ''login'') [(Positioned default_pos n, Positioned default_pos v)] []
         (Positioned default_pos (SelSet [])))))"

definition login_document :: "selection positioned list \<Rightarrow> executable_document" where
  "login_document sels =
     \<lparr>doc_operations = Single (Positioned default_pos
        \<lparr>od_ty = Query, od_variable_definitions = [], od_directives = [],
         od_selection_set = Positioned default_pos (SelSet sels)\<rparr>),
      doc_fragments = []\<rparr>"

definition login_with :: gvalue where
  "login_with = VObject [(''pw'', VString ''x'')]"

lemmas login_defs =
  login_registry_def login_selection_def login_document_def login_with_def stringify_exec_doc_def
  stringify_operation_def stringify_selection_set.simps stringify_arguments_def argument_meta_def
  schema_field_def field_by_name_def resolved_argument_def input_object_fields_def concrete_type_by_name_def
  concrete_typename.simps mtn_create_def strip_suffix_def strip_brackets_def is_secret_def secret_text_def
  quoted_def write_object_def write_list_def write_quoted_def write_quoted_char_def is_ascii_control_def
  is_c1_pair_def field_text_def inline_text_def condition_type_def root_type_def Let_def
  meta_field_new_def meta_input_value_new_def

lemma secret_hidden:
  "stringify_exec_doc login_registry show_num [] (login_document [login_selection ''by'' login_with]) =
     Done (''query { login(by: {pw: '' @ quoted ''<secret>'' @ ''}) }'')"
  by (simp add: login_defs)

lemma secret_in_list_shown:
  "stringify_exec_doc login_registry show_num [] (login_document [login_selection ''all'' (VList [login_with])]) =
     Done (''query { login(all: [{pw: '' @ quoted ''x'' @ ''}]) }'')"
  by (simp add: login_defs)

lemma secret_in_inline_fragment_shown:
  "stringify_exec_doc login_registry show_num []
     (login_document [Positioned default_pos (SelInline (Positioned default_pos
        (InlineFrag None [] (Positioned default_pos (SelSet [login_selection ''by'' login_with])))))]) =
     Done (''query { ... { login(by: {pw: '' @ quoted ''x'' @ ''}) } }'')"
  by (simp add: login_defs)

end
