(* ===== verification/Export_Sdl.thy ===== *)
theory Export_Sdl
  imports Registry
begin

text \<open>
  The export of a registry in the schema definition language (\<open>src/registry/export_sdl.rs\<close> and
  \<open>MetaDirective::sdl\<close> of \<open>src/registry/mod.rs\<close>). The code appends to one text; here each part returns
  what it appends.
\<close>

record sdl_options =
  so_sorted_fields :: bool
  so_sorted_arguments :: bool
  so_sorted_enum_values :: bool
  so_federation :: bool
  so_prefer_single_line :: bool
  so_include_specified_by :: bool
  so_compose_directive :: bool
  so_use_space_ident :: bool
  so_indent_width :: nat

definition sdl_options_new :: sdl_options where
  "sdl_options_new =
     \<lparr>so_sorted_fields = False, so_sorted_arguments = False, so_sorted_enum_values = False,
      so_federation = False, so_prefer_single_line = False, so_include_specified_by = False,
      so_compose_directive = False, so_use_space_ident = False, so_indent_width = 2\<rparr>"

subsection \<open>Texts\<close>

abbreviation newline :: string where
  "newline \<equiv> [CHR 0x0A]"

definition tab :: "sdl_options \<Rightarrow> string" where
  "tab opts = (if so_use_space_ident opts then replicate (so_indent_width opts) (CHR '' '') else [CHR 0x09])"

definition when_text :: "bool \<Rightarrow> string \<Rightarrow> string" where
  "when_text b s = (if b then s else [])"

definition some_text :: "'a option \<Rightarrow> ('a \<Rightarrow> string) \<Rightarrow> string" where
  "some_text x f = (case x of Some y \<Rightarrow> f y | None \<Rightarrow> [])"

definition replace_char :: "char \<Rightarrow> string \<Rightarrow> string \<Rightarrow> string" where
  "replace_char c r s = concat (map (\<lambda>x. if x = c then r else [x]) s)"

definition escape_quotes :: "string \<Rightarrow> string" where
  "escape_quotes = replace_char (CHR 0x22) [CHR 0x5C, CHR 0x22]"

definition escape_char :: "char \<Rightarrow> string" where
  "escape_char c =
     (if c = CHR 0x5C then [CHR 0x5C, CHR 0x5C]
      else if c = CHR 0x08 then [CHR 0x5C, CHR ''b'']
      else if c = CHR 0x0C then [CHR 0x5C, CHR ''f'']
      else if c = CHR 0x0A then [CHR 0x5C, CHR ''n'']
      else if c = CHR 0x0D then [CHR 0x5C, CHR ''r'']
      else if c = CHR 0x09 then [CHR 0x5C, CHR ''t'']
      else [c])"

definition escape_string :: "string \<Rightarrow> string" where
  "escape_string s = concat (map escape_char s)"

definition write_description :: "sdl_options \<Rightarrow> nat \<Rightarrow> string \<Rightarrow> string" where
  "write_description opts level description =
     (let tabs = concat (replicate level (tab opts)); quotes = replicate 3 (CHR 0x22) in
      if so_prefer_single_line opts \<and> CHR 0x0A \<notin> set description
      then tabs @ quoted (escape_quotes description) @ newline
      else tabs @ quotes @ newline @
        tabs @ replace_char (CHR 0x0A) (newline @ tabs) description @ newline @
        tabs @ quotes @ newline)"

fun write_deprecated :: "deprecation \<Rightarrow> string" where
  "write_deprecated NoDeprecated = []"
| "write_deprecated (Deprecated (Some reason)) = '' @deprecated(reason: '' @ quoted (escape_string reason) @ '')''"
| "write_deprecated (Deprecated None) = '' @deprecated''"

definition write_input_value :: "meta_input_value \<Rightarrow> string" where
  "write_input_value i =
     mi_name i @ '': '' @ mi_ty i @ some_text (mi_default_value i) (\<lambda>d. '' = '' @ d) @
     write_deprecated (mi_deprecation i)"

text \<open>\<open>split_whitespace\<close>: the code points of the Unicode property \<open>White_Space\<close> as they are encoded.\<close>

definition char_code :: "char \<Rightarrow> nat" where
  "char_code c = of_char c"

definition short_space :: "char \<Rightarrow> char \<Rightarrow> bool" where
  "short_space c d \<longleftrightarrow> char_code c = 0xC2 \<and> char_code d \<in> {0x85, 0xA0}"

definition long_space :: "char \<Rightarrow> char \<Rightarrow> char \<Rightarrow> bool" where
  "long_space c d e \<longleftrightarrow>
     (char_code c, char_code d, char_code e) \<in>
       {(0xE1, 0x9A, 0x80), (0xE2, 0x80, 0xA8), (0xE2, 0x80, 0xA9), (0xE2, 0x80, 0xAF), (0xE2, 0x81, 0x9F), (0xE3, 0x80, 0x80)} \<or>
     char_code c = 0xE2 \<and> char_code d = 0x80 \<and> 0x80 \<le> char_code e \<and> char_code e \<le> 0x8A"

fun strip_space :: "string \<Rightarrow> string option" where
  "strip_space [] = None"
| "strip_space (c # s) =
     (if 9 \<le> char_code c \<and> char_code c \<le> 13 \<or> char_code c = 32 then Some s
      else case s of
        [] \<Rightarrow> None
      | d # t \<Rightarrow>
          if short_space c d then Some t
          else case t of
            [] \<Rightarrow> None
          | e # u \<Rightarrow> if long_space c d e then Some u else None)"

lemma strip_space_length: "strip_space s = Some t \<Longrightarrow> length t < length s"
  by (cases s) (auto split: if_splits list.splits)

function split_words :: "string \<Rightarrow> string \<Rightarrow> string list" where
  "split_words word s =
     (let emit = (if word = [] then [] else [word]) in
      case s of
        [] \<Rightarrow> emit
      | c # rest \<Rightarrow>
          (case strip_space s of
             Some t \<Rightarrow> emit @ split_words [] t
           | None \<Rightarrow> split_words (word @ [c]) rest))"
  by pat_completeness auto
termination
  by (relation "measure (\<lambda>(word, s). length s)") (auto dest: strip_space_length simp del: strip_space.simps)

declare split_words.simps [simp del]

definition write_requires_scopes :: "string list \<Rightarrow> string" where
  "write_requires_scopes scopes =
     '' @requiresScopes(scopes: ['' @
     join '', '' (map (\<lambda>x. ''['' @ join '', '' (map quoted (split_words [] x)) @ '']'') scopes) @ ''])''"

definition write_tags :: "string list \<Rightarrow> string" where
  "write_tags tags = concat (map (\<lambda>t. '' @tag(name: '' @ quoted (escape_quotes t) @ '')'') tags)"

definition write_invocations :: "(number \<Rightarrow> string) \<Rightarrow> directive_invocation list \<Rightarrow> string" where
  "write_invocations show_num ds = concat (map (\<lambda>d. '' '' @ directive_invocation_sdl show_num d) ds)"

definition describe :: "sdl_options \<Rightarrow> nat \<Rightarrow> string option \<Rightarrow> string" where
  "describe opts level description = some_text description (write_description opts level)"

definition sorted_when :: "bool \<Rightarrow> ('a \<Rightarrow> string) \<Rightarrow> 'a list \<Rightarrow> 'a list" where
  "sorted_when b key xs = (if b then sort_key key xs else xs)"

subsection \<open>Fields\<close>

definition starts_internal :: "string \<Rightarrow> bool" where
  "starts_internal n \<longleftrightarrow> take 2 n = ''__''"

definition field_hidden :: "sdl_options \<Rightarrow> string \<Rightarrow> bool" where
  "field_hidden opts n \<longleftrightarrow> starts_internal n \<or> (so_federation opts \<and> n \<in> {''_service'', ''_entities''})"

definition export_argument :: "sdl_options \<Rightarrow> (number \<Rightarrow> string) \<Rightarrow> bool \<Rightarrow> nat \<times> meta_input_value \<Rightarrow> string" where
  "export_argument opts show_num need_multiline p =
     (let (i, arg) = p in
      when_text (i \<noteq> 0) '','' @
      some_text (mi_description arg) (\<lambda>d. newline @ write_description opts 2 d) @
      (if need_multiline then tab opts @ tab opts else when_text (i \<noteq> 0) '' '') @
      write_input_value arg @
      when_text (so_federation opts) (when_text (mi_inaccessible arg) '' @inaccessible'' @ write_tags (mi_tags arg)) @
      write_invocations show_num (mi_directive_invocations arg))"

definition export_arguments :: "sdl_options \<Rightarrow> (number \<Rightarrow> string) \<Rightarrow> meta_input_value list \<Rightarrow> string" where
  "export_arguments opts show_num args0 =
     (let args = sorted_when (so_sorted_arguments opts) mi_name args0;
          need_multiline = list_ex (\<lambda>a. mi_description a \<noteq> None) args in
      concat (map (export_argument opts show_num need_multiline) (enumerate 0 args)) @
      when_text need_multiline (newline @ tab opts))"

fun write_semantic_nullability :: "semantic_nullability \<Rightarrow> string" where
  "write_semantic_nullability OutNonNull = '' @semanticNonNull''"
| "write_semantic_nullability InNonNull = '' @semanticNonNull(levels: [1])''"
| "write_semantic_nullability BothNonNull = '' @semanticNonNull(levels: [0, 1])''"
| "write_semantic_nullability SNNone = []"

definition field_federation :: "meta_field \<Rightarrow> string" where
  "field_federation f =
     when_text (mf_external f) '' @external'' @
     some_text (mf_requires f) (\<lambda>r. '' @requires(fields: '' @ quoted r @ '')'') @
     some_text (mf_provides f) (\<lambda>r. '' @provides(fields: '' @ quoted r @ '')'') @
     when_text (mf_shareable f) '' @shareable'' @
     when_text (mf_inaccessible f) '' @inaccessible'' @
     write_tags (mf_tags f) @
     some_text (mf_override_from f) (\<lambda>r. '' @override(from: '' @ quoted r @ '')'') @
     when_text (mf_requires_scopes f \<noteq> []) (write_requires_scopes (mf_requires_scopes f))"

definition export_field :: "sdl_options \<Rightarrow> (number \<Rightarrow> string) \<Rightarrow> meta_field \<Rightarrow> string" where
  "export_field opts show_num f =
     (if field_hidden opts (mf_name f) then []
      else describe opts 1 (mf_description f) @ tab opts @ mf_name f @
        (if mf_args f \<noteq> [] then ''('' @ export_arguments opts show_num (map snd (mf_args f)) @ '')'' else []) @
        '': '' @ mf_ty f @
        write_deprecated (mf_deprecation f) @
        write_semantic_nullability (mf_semantic_nullability f) @
        write_invocations show_num (mf_directive_invocations f) @
        when_text (so_federation opts) (field_federation f) @ newline)"

definition export_fields :: "sdl_options \<Rightarrow> (number \<Rightarrow> string) \<Rightarrow> meta_field list \<Rightarrow> string" where
  "export_fields opts show_num fs =
     concat (map (export_field opts show_num) (sorted_when (so_sorted_fields opts) mf_name fs))"

subsection \<open>Types\<close>

definition SYSTEM_SCALARS :: "string list" where
  "SYSTEM_SCALARS = [''Int'', ''Float'', ''String'', ''Boolean'', ''ID'']"

definition FEDERATION_SCALARS :: "string list" where
  "FEDERATION_SCALARS = [''Any'']"

definition write_implements :: "registry \<Rightarrow> string \<Rightarrow> string" where
  "write_implements reg n =
     (case map_of (reg_implements reg) n of
        Some implements \<Rightarrow> when_text (implements \<noteq> []) ('' implements '' @ join '' & '' implements)
      | None \<Rightarrow> [])"

definition access_and_tags :: "bool \<Rightarrow> string list \<Rightarrow> string" where
  "access_and_tags inaccessible tags = when_text inaccessible '' @inaccessible'' @ write_tags tags"

definition scopes_text :: "string list \<Rightarrow> string" where
  "scopes_text scopes = when_text (scopes \<noteq> []) (write_requires_scopes scopes)"

definition export_scalar :: "sdl_options \<Rightarrow> (number \<Rightarrow> string) \<Rightarrow> scalar_info \<Rightarrow> string" where
  "export_scalar opts show_num s =
     when_text (sc_name s \<notin> set SYSTEM_SCALARS \<and> \<not> (so_federation opts \<and> sc_name s \<in> set FEDERATION_SCALARS))
       (describe opts 0 (sc_description s) @ ''scalar '' @ sc_name s @
        when_text (so_include_specified_by opts)
          (some_text (sc_specified_by_url s) (\<lambda>u. '' @specifiedBy(url: '' @ quoted (escape_quotes u) @ '')'')) @
        when_text (so_federation opts) (access_and_tags (sc_inaccessible s) (sc_tags s) @ scopes_text (sc_requires_scopes s)) @
        write_invocations show_num (sc_directive_invocations s) @ newline @ newline)"

definition extend_or_describe :: "sdl_options \<Rightarrow> bool \<Rightarrow> string option \<Rightarrow> string" where
  "extend_or_describe opts extends description =
     (if so_federation opts \<and> extends then ''extend '' else describe opts 0 description)"

definition keys_text :: "string \<Rightarrow> string list option \<Rightarrow> string" where
  "keys_text suffix ks =
     some_text ks (\<lambda>ks. concat (map (\<lambda>k. '' @key(fields: '' @ quoted k @ suffix @ '')'') ks))"

definition body :: "string \<Rightarrow> string" where
  "body s = '' {'' @ newline @ s @ ''}'' @ newline @ newline"

definition export_object :: "registry \<Rightarrow> sdl_options \<Rightarrow> (number \<Rightarrow> string) \<Rightarrow> object_info \<Rightarrow> string" where
  "export_object reg opts show_num ob =
     (if Some (ob_name ob) = reg_subscription_type reg \<and> so_federation opts \<and> \<not> reg_federation_subscription reg then []
      else if ob_name ob = reg_query_type reg \<and> so_federation opts \<and>
              list_all (\<lambda>(_, f). field_hidden opts (mf_name f)) (ob_fields ob) then []
      else
        extend_or_describe opts (ob_extends ob) (ob_description ob) @ ''type '' @ ob_name ob @
        write_implements reg (ob_name ob) @ write_invocations show_num (ob_directive_invocations ob) @
        when_text (so_federation opts)
          (keys_text (when_text (\<not> ob_resolvable ob) '', resolvable: false'') (ob_keys ob) @
           when_text (ob_shareable ob) '' @shareable'' @
           when_text (ob_inaccessible ob) '' @inaccessible'' @
           when_text (ob_interface_object ob) '' @interfaceObject'' @
           write_tags (ob_tags ob) @ scopes_text (ob_requires_scopes ob)) @
        body (export_fields opts show_num (map snd (ob_fields ob))))"

definition export_interface :: "registry \<Rightarrow> sdl_options \<Rightarrow> (number \<Rightarrow> string) \<Rightarrow> interface_info \<Rightarrow> string" where
  "export_interface reg opts show_num i =
     extend_or_describe opts (in_extends i) (in_description i) @ ''interface '' @ in_name i @
     write_implements reg (in_name i) @
     when_text (so_federation opts)
       (keys_text [] (in_keys i) @ access_and_tags (in_inaccessible i) (in_tags i) @ scopes_text (in_requires_scopes i)) @
     write_invocations show_num (in_directive_invocations i) @
     body (export_fields opts show_num (map snd (in_fields i)))"

definition export_enum_value :: "sdl_options \<Rightarrow> (number \<Rightarrow> string) \<Rightarrow> meta_enum_value \<Rightarrow> string" where
  "export_enum_value opts show_num v =
     describe opts 1 (me_description v) @ tab opts @ me_name v @ write_deprecated (me_deprecation v) @
     when_text (so_federation opts) (access_and_tags (me_inaccessible v) (me_tags v)) @
     write_invocations show_num (me_directive_invocations v) @ newline"

definition export_enum :: "sdl_options \<Rightarrow> (number \<Rightarrow> string) \<Rightarrow> enum_info \<Rightarrow> string" where
  "export_enum opts show_num e =
     describe opts 0 (en_description e) @ ''enum '' @ en_name e @
     when_text (so_federation opts) (access_and_tags (en_inaccessible e) (en_tags e) @ scopes_text (en_requires_scopes e)) @
     write_invocations show_num (en_directive_invocations e) @
     body (concat (map (export_enum_value opts show_num)
       (sorted_when (so_sorted_enum_values opts) me_name (map snd (en_enum_values e)))))"

definition export_input_field :: "sdl_options \<Rightarrow> (number \<Rightarrow> string) \<Rightarrow> meta_input_value \<Rightarrow> string" where
  "export_input_field opts show_num i =
     describe opts 1 (mi_description i) @ tab opts @ write_input_value i @
     when_text (so_federation opts) (access_and_tags (mi_inaccessible i) (mi_tags i)) @
     write_invocations show_num (mi_directive_invocations i) @ newline"

definition export_input_object :: "sdl_options \<Rightarrow> (number \<Rightarrow> string) \<Rightarrow> input_object_info \<Rightarrow> string" where
  "export_input_object opts show_num io =
     describe opts 0 (io_description io) @ ''input '' @ io_name io @ when_text (io_oneof io) '' @oneOf'' @
     when_text (so_federation opts) (access_and_tags (io_inaccessible io) (io_tags io)) @
     write_invocations show_num (io_directive_invocations io) @
     body (concat (map (export_input_field opts show_num)
       (sorted_when (so_sorted_fields opts) mi_name (map snd (io_input_fields io)))))"

definition export_union :: "sdl_options \<Rightarrow> (number \<Rightarrow> string) \<Rightarrow> union_info \<Rightarrow> string" where
  "export_union opts show_num u =
     describe opts 0 (un_description u) @ ''union '' @ un_name u @
     when_text (so_federation opts) (access_and_tags (un_inaccessible u) (un_tags u)) @
     write_invocations show_num (un_directive_invocations u) @ '' ='' @
     concat (map (\<lambda>(idx, ty). (if idx = 0 then '' '' else '' | '') @ ty) (enumerate 0 (un_possible_types u))) @
     newline @ newline"

fun export_type :: "registry \<Rightarrow> sdl_options \<Rightarrow> (number \<Rightarrow> string) \<Rightarrow> meta_type \<Rightarrow> string" where
  "export_type reg opts show_num (MTScalar s) = export_scalar opts show_num s"
| "export_type reg opts show_num (MTObject ob) = export_object reg opts show_num ob"
| "export_type reg opts show_num (MTInterface i) = export_interface reg opts show_num i"
| "export_type reg opts show_num (MTEnum e) = export_enum opts show_num e"
| "export_type reg opts show_num (MTInputObject io) = export_input_object opts show_num io"
| "export_type reg opts show_num (MTUnion u) = export_union opts show_num u"

subsection \<open>Directives\<close>

definition directive_sdl :: "sdl_options \<Rightarrow> meta_directive \<Rightarrow> string" where
  "directive_sdl opts d =
     describe opts 0 (md_description d) @ ''directive @'' @ md_name d @
     when_text (md_args d \<noteq> []) (''('' @ join '', '' (map (\<lambda>(_, a). argument_sdl a) (md_args d)) @ '')'') @
     when_text (md_is_repeatable d) '' repeatable'' @
     '' on '' @ join '' | '' (map show_location (md_locations d))"

fun uses_deprecated :: "meta_type \<Rightarrow> bool" where
  "uses_deprecated (MTObject ob) = list_ex (\<lambda>(_, f). is_deprecated (mf_deprecation f)) (ob_fields ob)"
| "uses_deprecated (MTEnum e) = list_ex (\<lambda>(_, v). is_deprecated (me_deprecation v)) (en_enum_values e)"
| "uses_deprecated _ = False"

fun uses_specified_by :: "meta_type \<Rightarrow> bool" where
  "uses_specified_by (MTScalar s) = (sc_specified_by_url s \<noteq> None)"
| "uses_specified_by _ = False"

fun uses_one_of :: "meta_type \<Rightarrow> bool" where
  "uses_one_of (MTInputObject io) = io_oneof io"
| "uses_one_of _ = False"

definition semantic_fields :: "(string \<times> meta_field) list \<Rightarrow> bool" where
  "semantic_fields fs = list_ex (\<lambda>(_, f). mf_semantic_nullability f \<noteq> SNNone) fs"

fun uses_semantic_non_null :: "meta_type \<Rightarrow> bool" where
  "uses_semantic_non_null (MTObject ob) = semantic_fields (ob_fields ob)"
| "uses_semantic_non_null (MTInterface i) = semantic_fields (in_fields i)"
| "uses_semantic_non_null _ = False"

text \<open>Some directives are only exported when a type uses them.\<close>

definition directive_unused :: "registry \<Rightarrow> meta_directive \<Rightarrow> bool" where
  "directive_unused reg d \<longleftrightarrow>
     (let used = (\<lambda>P. list_ex (\<lambda>(_, ty). P ty) (reg_types reg)); n = md_name d in
      n = ''deprecated'' \<and> \<not> used uses_deprecated \<or>
      n = ''specifiedBy'' \<and> \<not> used uses_specified_by \<or>
      n = ''oneOf'' \<and> \<not> used uses_one_of \<or>
      n = ''semanticNonNull'' \<and> \<not> used uses_semantic_non_null)"

definition export_directive :: "registry \<Rightarrow> sdl_options \<Rightarrow> meta_directive \<Rightarrow> string" where
  "export_directive reg opts d = when_text (\<not> directive_unused reg d) (directive_sdl opts d @ newline)"

subsection \<open>The schema\<close>

definition schema_definition_text :: "registry \<Rightarrow> sdl_options \<Rightarrow> string" where
  "schema_definition_text reg opts =
     ''schema {'' @ newline @
     tab opts @ ''query: '' @ reg_query_type reg @ newline @
     some_text (reg_mutation_type reg) (\<lambda>m. tab opts @ ''mutation: '' @ m @ newline) @
     some_text (reg_subscription_type reg) (\<lambda>s. tab opts @ ''subscription: '' @ s @ newline) @
     ''}'' @ newline"

definition federation_imports :: "string list" where
  "federation_imports =
     [''@key'', ''@tag'', ''@shareable'', ''@inaccessible'', ''@override'', ''@external'', ''@provides'',
      ''@requires'', ''@composeDirective'', ''@interfaceObject'', ''@requiresScopes'']"

definition federation_link :: "sdl_options \<Rightarrow> string" where
  "federation_link opts =
     ''extend schema @link('' @ newline @
     tab opts @ ''url: '' @ quoted ''https://specs.apollo.dev/federation/v2.5'' @ '','' @ newline @
     tab opts @ ''import: ['' @ join '', '' (map quoted federation_imports) @ '']'' @ newline @ '')'' @ newline"

text \<open>The directives to compose by the address they come from; the order stands for that of a hash map.\<close>

definition compose_directives :: "(string \<times> meta_directive) list \<Rightarrow> (string \<times> string list) list" where
  "compose_directives ds =
     fold (\<lambda>(_, d) m. case md_composable d of
         Some url \<Rightarrow> alist_update_with [] (\<lambda>names. names @ [quoted (CHR ''@'' # md_name d)]) url m
       | None \<Rightarrow> m) ds []"

definition compose_link :: "sdl_options \<Rightarrow> string \<times> string list \<Rightarrow> string" where
  "compose_link opts p =
     (let (url, names) = p in
      ''extend schema @link('' @ newline @
      tab opts @ ''url: '' @ quoted url @ newline @
      tab opts @ ''import: ['' @ join '','' names @ '']'' @ newline @ '')'' @ newline @
      concat (map (\<lambda>n. tab opts @ ''@composeDirective(name: '' @ n @ '')'' @ newline) names) @ newline)"

definition export_sdl :: "registry \<Rightarrow> sdl_options \<Rightarrow> (number \<Rightarrow> string) \<Rightarrow> string" where
  "export_sdl reg opts show_num =
     concat (map (\<lambda>(_, ty).
       when_text (\<not> (starts_internal (mt_name ty) \<or>
           so_federation opts \<and> mt_name ty \<in> {''_Any'', ''_Entity'', ''_Service''}))
         (export_type reg opts show_num ty)) (reg_types reg)) @
     concat (map (\<lambda>(_, d). export_directive reg opts d) (reg_directives reg)) @
     (if so_federation opts then
        federation_link opts @
        when_text (so_compose_directive opts)
          (newline @ concat (map (compose_link opts) (compose_directives (reg_directives reg))))
      else schema_definition_text reg opts)"

end
