(* ===== verification/Sdl_Facts.thy ===== *)
theory Sdl_Facts
  imports Export_Sdl Parse_Facts "HOL-Library.Multiset"
begin

text \<open>
  What the export writes, the parser reads back: the reasons of deprecations and the descriptions. With the
  sorting options the text does not depend on the order in which a schema was built.
\<close>

subsection \<open>Reasons\<close>

lemma string_value_escape_char: "string_value (escape_char c @ s) = run_map (Cons c) (string_value s)"
  by (subst string_value.simps) (auto simp: escape_char_def simple_escape_def)

lemma string_characters_escape_char:
  "string_characters (escape_char c @ s) \<longleftrightarrow> c \<noteq> CHR 0x22 \<and> string_characters s"
  by (subst string_characters.simps) (auto simp: escape_char_def simple_escape_def)

text \<open>C34: the reason of a deprecation is written so that the parser reads it back, whatever it is; but the text
  between the quotes is a string literal of the grammar exactly when the reason has no quote itself.\<close>

theorem deprecation_reason_read_back:
  "string_value (escape_string reason) = Done reason \<and>
   (string_characters (escape_string reason) \<longleftrightarrow> CHR 0x22 \<notin> set reason)"
proof (induction reason)
  case Nil
  show ?case by (simp add: escape_string_def string_value.simps [of "[]"] string_characters.simps [of "[]"])
next
  case (Cons c reason)
  then show ?case
    by (auto simp: escape_string_def string_value_escape_char string_characters_escape_char)
qed

subsection \<open>Descriptions\<close>

lemma split_crlf_no_return: "CHR 0x0D \<notin> set s \<Longrightarrow> split_crlf s = [s]"
  by (induction s rule: split_crlf.induct) auto

lemma source_lines_no_return:
  "CHR 0x0D \<notin> set s \<Longrightarrow> source_lines s = split_chars (\<lambda>c. c = CHR 0x0D \<or> c = CHR 0x0A) s"
  by (simp add: source_lines_def split_crlf_no_return)

abbreviation is_break :: "char \<Rightarrow> bool" where
  "is_break c \<equiv> c = CHR 0x0D \<or> c = CHR 0x0A"

lemma split_chars_append:
  "\<forall>c\<in>set t. \<not> is_break c \<Longrightarrow> split_chars is_break (t @ s) = (case split_chars is_break s of l # ls \<Rightarrow> (t @ l) # ls | [] \<Rightarrow> [])"
  by (induction t) (auto split: list.split simp: split_chars_nonempty)

lemma split_chars_indented:
  assumes "\<forall>c\<in>set t. \<not> is_break c" "CHR 0x0D \<notin> set s"
  shows "split_chars is_break (t @ replace_char (CHR 0x0A) (newline @ t) s) = map ((@) t) (split_chars is_break s)"
  using assms(2)
proof (induction s)
  case Nil
  show ?case using split_chars_append [OF assms(1), of "[]"] by (simp add: replace_char_def)
next
  case (Cons c s)
  let ?s = "replace_char (CHR 0x0A) (newline @ t) s"
  have IH: "split_chars is_break (t @ ?s) = map ((@) t) (split_chars is_break s)" using Cons by simp
  show ?case
  proof (cases "c = CHR 0x0A")
    case True
    then show ?thesis
      using IH split_chars_append [OF assms(1), of "CHR 0x0A # t @ ?s"] by (simp add: replace_char_def)
  next
    case False
    then have "split_chars is_break (t @ c # ?s) = (case split_chars is_break ?s of l # ls \<Rightarrow> (t @ c # l) # ls | [] \<Rightarrow> [])"
      using split_chars_append [OF assms(1), of "c # ?s"] Cons.prems split_chars_nonempty [of is_break ?s]
      by (auto split: list.splits)
    moreover have "(case split_chars is_break ?s of l # ls \<Rightarrow> (t @ l) # ls | [] \<Rightarrow> []) = map ((@) t) (split_chars is_break s)"
      using IH split_chars_append [OF assms(1), of ?s] by simp
    ultimately show ?thesis
      using False Cons.prems split_chars_nonempty [of is_break s] split_chars_nonempty [of is_break ?s]
      by (auto simp: replace_char_def split: list.splits)
  qed
qed

lemma split_chars_snoc_break:
  "split_chars is_break (s @ CHR 0x0A # t) = split_chars is_break s @ split_chars is_break t"
  by (induction s) (auto split: list.splits simp: split_chars_nonempty)

lemma join_split_chars: "CHR 0x0D \<notin> set s \<Longrightarrow> join newline (split_chars is_break s) = s"
proof (induction s)
  case (Cons c s)
  then show ?case
    using split_chars_nonempty [of is_break s]
    by (cases "split_chars is_break s"; cases "tl (split_chars is_break s)") auto
qed simp

lemma tab_blank: "\<forall>c\<in>set (concat (replicate n (tab opts))). is_blank c"
  by (auto simp: tab_def is_blank_def)

lemma blank_no_break: "is_blank c \<Longrightarrow> \<not> is_break c"
  by (auto simp: is_blank_def)

lemma indented_line:
  assumes "\<forall>c\<in>set t. is_blank c"
  shows "line_has_content (t @ l) = line_has_content l" "line_indent (t @ l) = length t + line_indent l"
  using assms by (auto simp: line_has_content_def line_indent_def list_ex_iff takeWhile_append2)

lemma fold_min_least:
  assumes "\<And>x. x \<in> set (i # is) \<Longrightarrow> (m :: nat) \<le> x" "m \<in> set (i # is)"
  shows "fold min is i = m"
proof -
  have "fold min is i \<le> m" using assms(2) fold_min_le by (metis set_ConsD)
  moreover have "m \<le> fold min xs j" if "\<And>x. x \<in> set xs \<Longrightarrow> m \<le> x" "m \<le> j" for xs j
    using that by (induction xs arbitrary: j) auto
  then have "m \<le> fold min is i" using assms(1) by simp
  ultimately show ?thesis by simp
qed

lemma common_indent_eq:
  assumes "\<And>l. l \<in> set (tl ls) \<Longrightarrow> line_has_content l \<Longrightarrow> m \<le> line_indent l"
    and "l \<in> set (tl ls)" "line_has_content l" "line_indent l = m"
  shows "common_indent ls = m"
proof -
  have mem: "m \<in> set (map line_indent (filter line_has_content (tl ls)))" using assms(2-4) by force
  then obtain i "is" where eq: "map line_indent (filter line_has_content (tl ls)) = i # is"
    by (cases "map line_indent (filter line_has_content (tl ls))") auto
  have "m \<le> x" if "x \<in> set (i # is)" for x
    using that assms(1) unfolding eq [symmetric] by auto
  then show ?thesis
    using mem fold_min_least [of i "is" m] by (simp add: common_indent_def eq del: filter.simps)
qed

lemma trim_blank_bordered:
  assumes "line_has_content (hd ls)" "line_has_content (last ls)" "ls \<noteq> []"
  shows "trim_blank ([] # ls @ [[]]) = ls"
proof -
  have "dropWhile (\<lambda>l. \<not> line_has_content l) (rev ls) = rev ls"
    using assms(2,3) by (cases ls rule: rev_cases) auto
  moreover have "dropWhile (\<lambda>l. \<not> line_has_content l) ls = ls"
    using assms(1,3) by (cases ls) auto
  moreover have "\<not> line_has_content []" by (simp add: line_has_content_def)
  moreover have "dropWhile (\<lambda>l. \<not> line_has_content l) (rev ls @ [[]]) = rev ls @ [[]]"
    using assms(2,3) by (cases ls rule: rev_cases) auto
  ultimately show ?thesis by (simp add: trim_blank_def)
qed

text \<open>A description that starts and ends with content, without returns, and with a line that is not indented.\<close>

definition plain_description :: "string \<Rightarrow> bool" where
  "plain_description d \<longleftrightarrow>
     (let ls = split_chars is_break d in
      CHR 0x0D \<notin> set d \<and> line_has_content (hd ls) \<and> line_has_content (last ls) \<and>
      list_ex (\<lambda>l. line_has_content l \<and> line_indent l = 0) ls)"

lemma text_bytes_newline: "text_bytes b (CHR 0x0A # s) = text_bytes True s"
  by (simp add: is_continuation_def)

lemma text_bytes_blank: "\<forall>c\<in>set t. is_blank c \<Longrightarrow> text_bytes True s \<Longrightarrow> text_bytes True (t @ s)"
  by (induction t) (auto dest: blank_ascii)

lemma text_bytes_replace:
  "\<forall>c\<in>set t. is_blank c \<Longrightarrow> text_bytes b s \<Longrightarrow>
     text_bytes b (replace_char (CHR 0x0A) (newline @ t) s @ CHR 0x0A # t)"
proof (induction s arbitrary: b)
  case Nil
  then show ?case using text_bytes_blank [of t "[]"] by (simp add: replace_char_def is_continuation_def)
next
  case (Cons c s)
  then show ?case
    using text_bytes_blank [of t "replace_char (CHR 0x0A) (newline @ t) s @ CHR 0x0A # t"]
    by (auto simp: replace_char_def is_continuation_def)
qed

lemma description_block:
  assumes blank: "\<forall>c\<in>set t. is_blank c" and d: "plain_description d" "text_bytes True d"
  defines "raw \<equiv> newline @ t @ replace_char (CHR 0x0A) (newline @ t) d @ newline @ t"
  shows "block_string_value raw = Done d"
proof -
  let ?ls = "split_chars is_break d"
  note plain = d(1) [unfolded plain_description_def Let_def]
  have t: "\<forall>c\<in>set t. \<not> is_break c" using blank blank_no_break by blast
  have "CHR 0x0D \<notin> set raw"
    using plain t by (auto simp: raw_def replace_char_def)
  then have lines: "source_lines raw = [] # map ((@) t) ?ls @ [t]"
    using split_chars_append [OF t, of "[]"] split_chars_indented [OF t, of d] plain
    by (simp add: raw_def source_lines_no_return split_chars_snoc_break flip: append_assoc)
  obtain l where l: "l \<in> set ?ls" "line_has_content l" "line_indent l = 0"
    using plain by (auto simp: list_ex_iff)
  have no: "\<not> line_has_content t" using blank by (auto simp: line_has_content_def list_ex_iff)
  have common: "common_indent (source_lines raw) = length t"
    unfolding lines
    by (rule common_indent_eq [where l = "t @ l"]) (use l no blank in \<open>auto simp: indented_line\<close>)
  have "cut_indent (length t) (source_lines raw) = [] # ?ls @ [[]]"
    by (simp add: lines cut_indent_def comp_def)
  then have spec: "block_string_spec raw = d"
    using plain split_chars_nonempty [of is_break d]
    by (simp add: block_string_spec_def common trim_blank_bordered join_split_chars)
  have "text_bytes True raw"
    using text_bytes_blank [OF blank, of "replace_char (CHR 0x0A) (newline @ t) d @ CHR 0x0A # t"]
      text_bytes_replace [OF blank d(2)] by (simp add: raw_def is_continuation_def)
  moreover have "indent_fits raw"
    unfolding indent_fits_def common by (simp add: lines list_all_iff)
  ultimately show ?thesis
    using block_string_value_is_spec spec by simp
qed



text \<open>An indent that all lines of a description have is lost.\<close>

lemma indented_description_changed:
  "block_string_value ([CHR 0x0A] @ ''  one'' @ [CHR 0x0A]) = Done ''one''"
  by code_simp

text \<open>With single-line descriptions a backslash is not escaped: \<open>a\n\<close> is read as an \<open>a\<close> and a line break.\<close>

lemma single_line_backslash:
  "write_description (sdl_options_new\<lparr>so_prefer_single_line := True\<rparr>) 0 [CHR ''a'', CHR 0x5C, CHR ''n''] =
     quoted [CHR ''a'', CHR 0x5C, CHR ''n''] @ newline \<and>
   string_value [CHR ''a'', CHR 0x5C, CHR ''n''] = Done [CHR ''a'', CHR 0x0A]"
  by code_simp

subsection \<open>Sorted exports\<close>

lemma sorted_when_mset:
  assumes "mset xs = mset ys" "distinct (map key ys)"
  shows "sorted_when True key xs = sorted_when True key ys"
proof -
  have "inj_on key (set ys)" using assms(2) by (simp add: distinct_map)
  moreover have "set xs = set ys" using assms(1) by (metis set_mset_mset)
  ultimately show ?thesis
    using assms by (simp add: sorted_when_def sort_key_inj_key_eq)
qed

lemma mset_map_snd: "mset xs = mset ys \<Longrightarrow> mset (map snd xs) = mset (map snd ys)"
  by (metis mset_map)

text \<open>Types that differ at most in the order of their fields or values.\<close>

definition reordered :: "('a \<times> 'b) list \<Rightarrow> ('a \<times> 'b) list \<Rightarrow> ('b \<Rightarrow> string) \<Rightarrow> bool" where
  "reordered xs ys key \<longleftrightarrow> mset xs = mset ys \<and> distinct (map (key \<circ> snd) ys)"

fun same_up_to_order :: "meta_type \<Rightarrow> meta_type \<Rightarrow> bool" where
  "same_up_to_order (MTObject a) (MTObject b) \<longleftrightarrow>
     reordered (ob_fields a) (ob_fields b) mf_name \<and> a\<lparr>ob_fields := []\<rparr> = b\<lparr>ob_fields := []\<rparr>"
| "same_up_to_order (MTInterface a) (MTInterface b) \<longleftrightarrow>
     reordered (in_fields a) (in_fields b) mf_name \<and> a\<lparr>in_fields := []\<rparr> = b\<lparr>in_fields := []\<rparr>"
| "same_up_to_order (MTEnum a) (MTEnum b) \<longleftrightarrow>
     reordered (en_enum_values a) (en_enum_values b) me_name \<and> a\<lparr>en_enum_values := []\<rparr> = b\<lparr>en_enum_values := []\<rparr>"
| "same_up_to_order (MTInputObject a) (MTInputObject b) \<longleftrightarrow>
     reordered (io_input_fields a) (io_input_fields b) mi_name \<and>
     a\<lparr>io_input_fields := []\<rparr> = b\<lparr>io_input_fields := []\<rparr>"
| "same_up_to_order a b \<longleftrightarrow> a = b"

definition sorts_everything :: "sdl_options \<Rightarrow> bool" where
  "sorts_everything opts \<longleftrightarrow> so_sorted_fields opts \<and> so_sorted_enum_values opts"

lemma reordered_sorted:
  "reordered xs ys key \<Longrightarrow> sorted_when True key (map snd xs) = sorted_when True key (map snd ys)"
  by (auto simp: reordered_def intro!: sorted_when_mset mset_map_snd)

lemma reordered_set: "reordered xs ys key \<Longrightarrow> set xs = set ys"
  by (metis reordered_def set_mset_mset)

lemma object_info_eq:
  "a\<lparr>ob_fields := []\<rparr> = b\<lparr>ob_fields := []\<rparr> \<Longrightarrow> a = b\<lparr>ob_fields := ob_fields a\<rparr>"
  "i\<lparr>in_fields := []\<rparr> = j\<lparr>in_fields := []\<rparr> \<Longrightarrow> i = j\<lparr>in_fields := in_fields i\<rparr>"
  "e\<lparr>en_enum_values := []\<rparr> = f\<lparr>en_enum_values := []\<rparr> \<Longrightarrow> e = f\<lparr>en_enum_values := en_enum_values e\<rparr>"
  "u\<lparr>io_input_fields := []\<rparr> = v\<lparr>io_input_fields := []\<rparr> \<Longrightarrow> u = v\<lparr>io_input_fields := io_input_fields u\<rparr>"
  by ((cases a; cases b; simp), (cases i; cases j; simp), (cases e; cases f; simp), (cases u; cases v; simp))

lemma export_fields_reordered:
  "so_sorted_fields opts \<Longrightarrow> reordered xs ys mf_name \<Longrightarrow>
     export_fields opts show_num (map snd xs) = export_fields opts show_num (map snd ys)"
  by (simp add: export_fields_def reordered_sorted)

lemma export_type_reordered:
  assumes "sorts_everything opts" "same_up_to_order a b"
  shows "export_type reg opts show_num a = export_type reg opts show_num b"
proof -
  note on = assms(1) [unfolded sorts_everything_def]
  show ?thesis
  proof (cases "(a, b)" rule: same_up_to_order.cases)
    case (1 x y)
    then have ab: "a = MTObject x" "b = MTObject y" by simp_all
    have r: "reordered (ob_fields x) (ob_fields y) mf_name" and x: "x = y\<lparr>ob_fields := ob_fields x\<rparr>"
      using assms(2) ab object_info_eq(1) by auto
    have all: "list_all P (ob_fields x) = list_all P (ob_fields y)" for P
      using reordered_set [OF r] by (simp add: list_all_iff)
    show ?thesis
      using export_fields_reordered [OF _ r] on unfolding ab by (subst x) (simp add: export_object_def all)
  next
    case (2 x y)
    then have ab: "a = MTInterface x" "b = MTInterface y" by simp_all
    have r: "reordered (in_fields x) (in_fields y) mf_name" and x: "x = y\<lparr>in_fields := in_fields x\<rparr>"
      using assms(2) ab object_info_eq(2) by auto
    show ?thesis
      using export_fields_reordered [OF _ r] on unfolding ab by (subst x) (simp add: export_interface_def)
  next
    case (3 x y)
    then have ab: "a = MTEnum x" "b = MTEnum y" by simp_all
    have r: "reordered (en_enum_values x) (en_enum_values y) me_name" and x: "x = y\<lparr>en_enum_values := en_enum_values x\<rparr>"
      using assms(2) ab object_info_eq(3) by auto
    show ?thesis
      using reordered_sorted [OF r] on unfolding ab by (subst x) (simp add: export_enum_def)
  next
    case (4 x y)
    then have ab: "a = MTInputObject x" "b = MTInputObject y" by simp_all
    have r: "reordered (io_input_fields x) (io_input_fields y) mi_name"
      and x: "x = y\<lparr>io_input_fields := io_input_fields x\<rparr>"
      using assms(2) ab object_info_eq(4) by auto
    show ?thesis
      using reordered_sorted [OF r] on unfolding ab by (subst x) (simp add: export_input_object_def)
  qed (use assms(2) in auto)
qed

lemma same_uses:
  assumes "same_up_to_order a b"
  shows "uses_deprecated a = uses_deprecated b" "uses_specified_by a = uses_specified_by b"
    "uses_one_of a = uses_one_of b" "uses_semantic_non_null a = uses_semantic_non_null b" "mt_name a = mt_name b"
proof -
  have names: "x\<lparr>ob_fields := []\<rparr> = y\<lparr>ob_fields := []\<rparr> \<Longrightarrow> ob_name x = ob_name y"
    "i\<lparr>in_fields := []\<rparr> = j\<lparr>in_fields := []\<rparr> \<Longrightarrow> in_name i = in_name j"
    "e\<lparr>en_enum_values := []\<rparr> = f\<lparr>en_enum_values := []\<rparr> \<Longrightarrow> en_name e = en_name f"
    "u\<lparr>io_input_fields := []\<rparr> = v\<lparr>io_input_fields := []\<rparr> \<Longrightarrow> io_name u = io_name v"
    "u\<lparr>io_input_fields := []\<rparr> = v\<lparr>io_input_fields := []\<rparr> \<Longrightarrow> io_oneof u = io_oneof v" for x y i j e f u v
    by ((cases x; cases y; simp), (cases i; cases j; simp), (cases e; cases f; simp), (cases u; cases v; simp),
        (cases u; cases v; simp))
  show "mt_name a = mt_name b"
    using assms by (cases "(a, b)" rule: same_up_to_order.cases) (auto dest: names)
  show "uses_one_of a = uses_one_of b"
    using assms by (cases "(a, b)" rule: same_up_to_order.cases) (auto dest: names)
  show "uses_specified_by a = uses_specified_by b"
    using assms by (cases "(a, b)" rule: same_up_to_order.cases) auto
  show "uses_deprecated a = uses_deprecated b" "uses_semantic_non_null a = uses_semantic_non_null b"
    using assms by (cases "(a, b)" rule: same_up_to_order.cases; auto simp: list_ex_iff semantic_fields_def dest!: reordered_set)+
qed

lemma list_all2_map: "list_all2 R xs ys \<Longrightarrow> (\<And>x y. R x y \<Longrightarrow> f x = g y) \<Longrightarrow> map f xs = map g ys"
  by (induction rule: list_all2_induct) auto


definition sample_enum :: "meta_enum_value list \<Rightarrow> meta_type" where
  "sample_enum vs = MTEnum
     \<lparr>en_name = ''E'', en_description = None, en_enum_values = map (\<lambda>v. (me_name v, v)) vs, en_visible = None,
      en_inaccessible = False, en_tags = [], en_rust_typename = None, en_directive_invocations = [],
      en_requires_scopes = []\<rparr>"


end
