(* ===== verification/Connections.thy ===== *)
theory Connections
  imports Input_Facts
begin

text \<open>
  Relay connections (\<open>src/types/connection\<close>): cursors and their encodings, edges and pages, and the reading
  of the pagination arguments. Cursors of other crates (times, UUIDs) and the encodings of an opaque cursor,
  JSON and base64, are arguments.
\<close>

subsection \<open>Cursors\<close>

text \<open>\<open>CursorType\<close>, with the display of its error type.\<close>

record ('c, 'e) cursor_type =
  ct_decode :: "string \<Rightarrow> 'e + 'c"
  ct_encode :: "'c \<Rightarrow> string"
  ct_show_error :: "'e \<Rightarrow> string"

text \<open>\<open>from_str\<close> of an integer: each digit is read before the product is checked, the product before the sum.\<close>

datatype parse_int_error = EmptyInteger | InvalidDigit | PosOverflow | NegOverflow

fun show_parse_int_error :: "parse_int_error \<Rightarrow> string" where
  "show_parse_int_error EmptyInteger = ''cannot parse integer from empty string''"
| "show_parse_int_error InvalidDigit = ''invalid digit found in string''"
| "show_parse_int_error PosOverflow = ''number too large to fit in target type''"
| "show_parse_int_error NegOverflow = ''number too small to fit in target type''"

definition decimal_digit :: "char \<Rightarrow> int option" where
  "decimal_digit c =
     (let n = of_char c :: nat in if 48 \<le> n \<and> n \<le> 57 then Some (int (n - 48)) else None)"

definition checked :: "int \<Rightarrow> int \<Rightarrow> bool \<Rightarrow> int \<Rightarrow> parse_int_error + int" where
  "checked lo hi positive k =
     (if lo \<le> k \<and> k \<le> hi then Inr k else Inl (if positive then PosOverflow else NegOverflow))"

fun parse_digits :: "int \<Rightarrow> int \<Rightarrow> bool \<Rightarrow> int \<Rightarrow> string \<Rightarrow> parse_int_error + int" where
  "parse_digits lo hi positive acc [] = Inr acc"
| "parse_digits lo hi positive acc (c # cs) =
     (case decimal_digit c of
        None \<Rightarrow> Inl InvalidDigit
      | Some d \<Rightarrow>
          result_bind (checked lo hi positive (acc * 10)) (\<lambda>m.
          result_bind (checked lo hi positive (if positive then m + d else m - d)) (\<lambda>acc'.
          parse_digits lo hi positive acc' cs)))"

definition parse_int :: "int \<Rightarrow> int \<Rightarrow> string \<Rightarrow> parse_int_error + int" where
  "parse_int lo hi s =
     (case s of
        [] \<Rightarrow> Inl EmptyInteger
      | c # rest \<Rightarrow>
          if rest = [] \<and> c \<in> {CHR ''+'', CHR ''-''} then Inl InvalidDigit
          else if c = CHR ''+'' then parse_digits lo hi True 0 rest
          else if c = CHR ''-'' \<and> lo < 0 then parse_digits lo hi False 0 rest
          else parse_digits lo hi True 0 s)"

definition signed_cursor :: "('a::len word, parse_int_error) cursor_type" where
  "signed_cursor =
     \<lparr>ct_decode = (\<lambda>s. result_bind (parse_int (int_min TYPE('a)) (int_max TYPE('a)) s) (\<lambda>k. Inr (word_of_int k))),
      ct_encode = (\<lambda>w. show_int (sint w)),
      ct_show_error = show_parse_int_error\<rparr>"

definition unsigned_cursor :: "('a::len word, parse_int_error) cursor_type" where
  "unsigned_cursor =
     \<lparr>ct_decode = (\<lambda>s. result_bind (parse_int 0 (uint_max TYPE('a)) s) (\<lambda>k. Inr (word_of_int k))),
      ct_encode = (\<lambda>w. show_int (uint w)),
      ct_show_error = show_parse_int_error\<rparr>"

definition bool_cursor :: "(bool, unit) cursor_type" where
  "bool_cursor =
     \<lparr>ct_decode = (\<lambda>s. if s = ''true'' then Inr True else if s = ''false'' then Inr False else Inl ()),
      ct_encode = (\<lambda>b. if b then ''true'' else ''false''),
      ct_show_error = (\<lambda>_. ''provided string was not `true` or `false`'')\<rparr>"

text \<open>A character is the text of one code point.\<close>

definition char_cursor :: "(string, string) cursor_type" where
  "char_cursor =
     \<lparr>ct_decode = (\<lambda>s.
        if s = [] then Inl ''cannot parse char from empty string''
        else if char_count s \<noteq> 1 then Inl ''too many characters in string''
        else Inr s),
      ct_encode = (\<lambda>s. s),
      ct_show_error = (\<lambda>e. e)\<rparr>"

definition string_cursor :: "(string, unit) cursor_type" where
  "string_cursor = \<lparr>ct_decode = Inr, ct_encode = (\<lambda>s. s), ct_show_error = (\<lambda>_. [])\<rparr>"

definition id_cursor :: "(string, unit) cursor_type" where
  "id_cursor = string_cursor"

text \<open>\<open>OpaqueCursor\<close>: a value that cannot be serialized is encoded as nothing.\<close>

definition opaque_cursor ::
  "('t \<Rightarrow> bytes option) \<Rightarrow> (bytes \<Rightarrow> string + 't) \<Rightarrow> (bytes \<Rightarrow> string) \<Rightarrow> (string \<Rightarrow> string + bytes) \<Rightarrow> ('t, string) cursor_type"
where
  "opaque_cursor to_vec from_slice base64_encode base64_decode =
     \<lparr>ct_decode = (\<lambda>s. result_bind (base64_decode s) from_slice),
      ct_encode = (\<lambda>t. base64_encode (case to_vec t of Some bs \<Rightarrow> bs | None \<Rightarrow> [])),
      ct_show_error = (\<lambda>e. e)\<rparr>"

definition opaque_cursor_input :: "number_ops \<Rightarrow> ('t, string) cursor_type \<Rightarrow> 't input_type" where
  "opaque_cursor_input ops ct =
     (let S = scalar_input (string_scalar ops) in
      \<lparr>it_type_name = it_type_name S,
       it_qualified_type_name = it_type_name S @ ''!'',
       it_parse = (\<lambda>v. result_bind (propagated (it_type_name S) (it_type_name S) (it_parse S v)) (\<lambda>cursor.
         case ct_decode ct cursor of
           Inr t \<Rightarrow> Inr t
         | Inl e \<Rightarrow> Inl (ive_custom (it_type_name S) (''Invalid opaque cursor: '' @ ct_show_error ct e)))),
       it_to_value = (\<lambda>t. CString (ct_encode ct t)),
       it_guards = (\<lambda>_ _. Inr ())\<rparr>)"

subsection \<open>Connections\<close>

record ('c, 'n, 'f) edge =
  ed_cursor :: 'c
  ed_node :: 'n
  ed_additional_fields :: 'f

record ('c, 'n, 'f, 'g) connection =
  cn_edges :: "('c, 'n, 'f) edge list"
  cn_additional_fields :: 'g
  cn_has_previous_page :: bool
  cn_has_next_page :: bool

record page_info =
  pi_has_previous_page :: bool
  pi_has_next_page :: bool
  pi_start_cursor :: "string option"
  pi_end_cursor :: "string option"

definition edge_with_additional_fields :: "'c \<Rightarrow> 'n \<Rightarrow> 'f \<Rightarrow> ('c, 'n, 'f) edge" where
  "edge_with_additional_fields c n f = \<lparr>ed_cursor = c, ed_node = n, ed_additional_fields = f\<rparr>"

definition edge_new :: "'c \<Rightarrow> 'n \<Rightarrow> ('c, 'n, unit) edge" where
  "edge_new c n = edge_with_additional_fields c n ()"

definition edge_cursor :: "('c, 'e) cursor_type \<Rightarrow> ('c, 'n, 'f) edge \<Rightarrow> string" where
  "edge_cursor ct e = ct_encode ct (ed_cursor e)"

definition connection_with_additional_fields :: "bool \<Rightarrow> bool \<Rightarrow> 'g \<Rightarrow> ('c, 'n, 'f, 'g) connection" where
  "connection_with_additional_fields prev next g =
     \<lparr>cn_edges = [], cn_additional_fields = g, cn_has_previous_page = prev, cn_has_next_page = next\<rparr>"

definition connection_new :: "bool \<Rightarrow> bool \<Rightarrow> ('c, 'n, 'f, unit) connection" where
  "connection_new prev next = connection_with_additional_fields prev next ()"

definition page_info :: "('c, 'e) cursor_type \<Rightarrow> ('c, 'n, 'f, 'g) connection \<Rightarrow> page_info" where
  "page_info ct cn =
     \<lparr>pi_has_previous_page = cn_has_previous_page cn,
      pi_has_next_page = cn_has_next_page cn,
      pi_start_cursor = (case cn_edges cn of [] \<Rightarrow> None | e # _ \<Rightarrow> Some (ct_encode ct (ed_cursor e))),
      pi_end_cursor = (if cn_edges cn = [] then None else Some (ct_encode ct (ed_cursor (last (cn_edges cn)))))\<rparr>"

definition connection_nodes :: "('c, 'n, 'f, 'g) connection \<Rightarrow> 'n list" where
  "connection_nodes cn = map ed_node (cn_edges cn)"

definition default_edge_name :: "string \<Rightarrow> string" where
  "default_edge_name type_name = type_name @ ''Edge''"

definition default_connection_name :: "string \<Rightarrow> string" where
  "default_connection_name type_name = type_name @ ''Connection''"

subsection \<open>Pagination arguments\<close>

definition error_new :: "string \<Rightarrow> error_value" where
  "error_new message = \<lparr>er_message = message, er_source = None, er_extensions = None\<rparr>"

definition error_new_with_source :: "string \<Rightarrow> error_source \<Rightarrow> error_value" where
  "error_new_with_source message source = \<lparr>er_message = message, er_source = Some source, er_extensions = None\<rparr>"

definition page_size :: "string \<Rightarrow> 32 word option \<Rightarrow> error_value + usize option" where
  "page_size parameter n =
     (case n of
        Some k \<Rightarrow>
          if sint k < 0 then Inl (error_new (''The '' @ quoted parameter @ '' parameter must be a non-negative number''))
          else Inr (Some (scast k))
      | None \<Rightarrow> Inr None)"

definition decode_argument ::
  "('c, 'e) cursor_type \<Rightarrow> ('e \<Rightarrow> error_source) \<Rightarrow> string option \<Rightarrow> error_value + 'c option"
where
  "decode_argument ct to_source s =
     (case s of
        Some text \<Rightarrow>
          (case ct_decode ct text of
             Inr c \<Rightarrow> Inr (Some c)
           | Inl e \<Rightarrow> Inl (error_new_with_source (ct_show_error ct e) (to_source e)))
      | None \<Rightarrow> Inr None)"

definition query_with ::
  "('c, 'e) cursor_type \<Rightarrow> ('e \<Rightarrow> error_source) \<Rightarrow> string option \<Rightarrow> string option \<Rightarrow> 32 word option \<Rightarrow> 32 word option \<Rightarrow>
     ('c option \<Rightarrow> 'c option \<Rightarrow> usize option \<Rightarrow> usize option \<Rightarrow> error_value + 't) \<Rightarrow> error_value + 't"
where
  "query_with ct to_source after0 before0 first0 last0 f =
     result_bind (page_size ''first'' first0) (\<lambda>first.
     result_bind (page_size ''last'' last0) (\<lambda>last.
     result_bind (decode_argument ct to_source before0) (\<lambda>before.
     result_bind (decode_argument ct to_source after0) (\<lambda>after.
     f after before first last))))"

definition connection_query ::
  "('c, 'e) cursor_type \<Rightarrow> ('e \<Rightarrow> error_source) \<Rightarrow> string option \<Rightarrow> string option \<Rightarrow> 32 word option \<Rightarrow> 32 word option \<Rightarrow>
     ('c option \<Rightarrow> 'c option \<Rightarrow> usize option \<Rightarrow> usize option \<Rightarrow> error_value + ('c, 'n, 'f, 'g) connection) \<Rightarrow>
     error_value + ('c, 'n, 'f, 'g) connection"
where
  "connection_query = query_with"

subsection \<open>Cursors are read as they were written\<close>

locale cursor =
  fixes ct :: "('c, 'e) cursor_type"
  assumes decode_encode: "ct_decode ct (ct_encode ct c) = Inr c"
begin

lemma encode_inject: "ct_encode ct c = ct_encode ct d \<longleftrightarrow> c = d"
  by (metis Inr_inject decode_encode)

lemma decode_argument_encoded: "decode_argument ct to_source (Some (ct_encode ct c)) = Inr (Some c)"
  by (simp add: decode_argument_def decode_encode)

lemma decode_page:
  "decode_argument ct to_source (pi_start_cursor (page_info ct cn)) =
     Inr (case cn_edges cn of [] \<Rightarrow> None | e # _ \<Rightarrow> Some (ed_cursor e))"
  "decode_argument ct to_source (pi_end_cursor (page_info ct cn)) =
     Inr (if cn_edges cn = [] then None else Some (ed_cursor (last (cn_edges cn))))"
  by (auto simp: page_info_def decode_argument_encoded decode_argument_def decode_encode split: list.split)

end

lemma decimal_digit_char: "d < 10 \<Longrightarrow> decimal_digit (digit_char d) = Some (int d)"
  by (simp add: decimal_digit_def digit_char_def Let_def)

lemma parse_digits_append:
  "parse_digits lo hi b acc (xs @ ys) = result_bind (parse_digits lo hi b acc xs) (\<lambda>k. parse_digits lo hi b k ys)"
proof (induction xs arbitrary: acc)
  case (Cons c xs)
  show ?case
    by (cases "decimal_digit c"; cases "checked lo hi b (acc * 10)")
      (auto simp: Cons.IH checked_def split: if_splits)
qed simp

lemma parse_digits_show:
  "lo \<le> 0 \<Longrightarrow> int n \<le> hi \<Longrightarrow> parse_digits lo hi True 0 (show_nat n) = Inr (int n)"
  "lo \<le> - int n \<Longrightarrow> 0 \<le> hi \<Longrightarrow> parse_digits lo hi False 0 (show_nat n) = Inr (- int n)"
proof (induction n rule: show_nat.induct)
  case (1 n)
  have split: "int n = int (n div 10) * 10 + int (n mod 10)" by presburger
  { case 1
    show ?case
    proof (cases "n < 10")
      case True
      then show ?thesis
        using 1 by (subst show_nat.simps) (simp add: decimal_digit_char checked_def)
    next
      case False
      have "parse_digits lo hi True 0 (show_nat (n div 10)) = Inr (int (n div 10))"
        using "1.IH"(1) [OF False] 1 by simp
      then show ?thesis
        using False 1 split
        by (subst show_nat.simps) (simp add: parse_digits_append decimal_digit_char checked_def)
    qed
  next
    case 2
    show ?case
    proof (cases "n < 10")
      case True
      then show ?thesis
        using 2 by (subst show_nat.simps) (simp add: decimal_digit_char checked_def)
    next
      case False
      have "parse_digits lo hi False 0 (show_nat (n div 10)) = Inr (- int (n div 10))"
        using "1.IH"(2) [OF False] 2 by simp
      then show ?thesis
        using False 2 split
        by (subst show_nat.simps) (simp add: parse_digits_append decimal_digit_char checked_def)
    qed
  }
qed

lemma show_nat_head: "\<exists>d s. d < 10 \<and> show_nat n = digit_char d # s"
proof (induction n rule: show_nat.induct)
  case (1 n)
  then show ?case by (cases "n < 10") (subst show_nat.simps; fastforce)+
qed

lemma digit_char_sign: "d < 10 \<Longrightarrow> digit_char d \<noteq> CHR ''+'' \<and> digit_char d \<noteq> CHR ''-''"
proof -
  assume d: "d < 10"
  have "decimal_digit (CHR ''+'') = None" "decimal_digit (CHR ''-'') = None"
    by (simp_all add: decimal_digit_def)
  then show ?thesis using decimal_digit_char [OF d] by auto
qed

lemma parse_int_show:
  assumes "lo \<le> k" "k \<le> hi" "lo \<le> 0" "0 \<le> hi"
  shows "parse_int lo hi (show_int k) = Inr k"
proof (cases "k < 0")
  case True
  obtain d s where "show_nat (nat (- k)) = digit_char d # s" using show_nat_head by blast
  then show ?thesis
    using True assms parse_digits_show(2) [of lo "nat (- k)" hi] by (simp add: show_int_def parse_int_def)
next
  case False
  obtain d s where d: "d < 10" "show_nat (nat k) = digit_char d # s" using show_nat_head by blast
  have "parse_digits lo hi True 0 (show_nat (nat k)) = Inr k"
    using parse_digits_show(1) [of lo "nat k" hi] False assms by simp
  then show ?thesis
    using False d digit_char_sign [OF d(1)] by (simp add: show_int_def parse_int_def)
qed

interpretation signed_cursor: cursor "signed_cursor :: ('a::len word, parse_int_error) cursor_type"
proof
  show "ct_decode signed_cursor (ct_encode signed_cursor w) = Inr w" for w :: "'a word"
    using parse_int_show [of "int_min TYPE('a)" "sint w" "int_max TYPE('a)"] signed_range [of w]
    by (simp add: signed_cursor_def int_min_def int_max_def)
qed

interpretation unsigned_cursor: cursor "unsigned_cursor :: ('a::len word, parse_int_error) cursor_type"
proof
  show "ct_decode unsigned_cursor (ct_encode unsigned_cursor w) = Inr w" for w :: "'a word"
    using parse_int_show [of 0 "uint w" "uint_max TYPE('a)"] unsigned_range [of w]
    by (simp add: unsigned_cursor_def uint_max_def)
qed

interpretation bool_cursor: cursor bool_cursor
  by unfold_locales (simp add: bool_cursor_def)

interpretation string_cursor: cursor string_cursor
  by unfold_locales (simp add: string_cursor_def)

text \<open>An opaque cursor reads back what can be serialized, by the laws of the two encodings.\<close>

lemma opaque_cursor_read_back:
  assumes "to_vec t = Some bs" "from_slice bs = Inr t" "base64_decode (base64_encode bs) = Inr bs"
  shows "ct_decode (opaque_cursor to_vec from_slice base64_encode base64_decode)
      (ct_encode (opaque_cursor to_vec from_slice base64_encode base64_decode) t) = Inr t"
    and "it_parse (opaque_cursor_input ops (opaque_cursor to_vec from_slice base64_encode base64_decode))
      (Some (it_to_value (opaque_cursor_input ops (opaque_cursor to_vec from_slice base64_encode base64_decode)) t)) = Inr t"
  using assms
  by (simp_all add: opaque_cursor_def opaque_cursor_input_def Let_def scalar_input_def string_scalar_def value_or_default_def)

subsection \<open>Paging\<close>

text \<open>What an argument of \<open>query_with\<close> stands for.\<close>

definition size_argument :: "32 word option \<Rightarrow> usize option \<Rightarrow> bool" where
  "size_argument n m \<longleftrightarrow>
     (case n of None \<Rightarrow> m = None | Some k \<Rightarrow> 0 \<le> sint k \<and> (\<exists>l. m = Some l \<and> int (unat l) = sint k))"

definition cursor_argument :: "('c, 'e) cursor_type \<Rightarrow> string option \<Rightarrow> 'c option \<Rightarrow> bool" where
  "cursor_argument ct s x \<longleftrightarrow>
     (case s of None \<Rightarrow> x = None | Some text \<Rightarrow> \<exists>c. ct_decode ct text = Inr c \<and> x = Some c)"

lemma unat_scast_usize:
  assumes "0 \<le> sint (w :: 32 word)"
  shows "int (unat l) = sint w \<longleftrightarrow> l = (scast w :: usize)"
proof -
  have "sint w < 2 ^ 64" using sint_lt [of w] by simp
  then have "uint (scast w :: usize) = sint w"
    using assms unfolding scast_eq uint_word_of_int by simp
  moreover have "int (unat l) = uint l" by simp
  ultimately show ?thesis by (metis word_uint_eqI)
qed

lemma page_size_Inr: "page_size n k = Inr m \<longleftrightarrow> size_argument k m"
proof (cases k)
  case (Some w)
  show ?thesis
  proof (cases "sint w < 0")
    case False
    then have "int (unat l) = sint w \<longleftrightarrow> l = scast w" for l :: usize
      using unat_scast_usize [of w l] by simp
    then have "size_argument (Some w) m \<longleftrightarrow> m = Some (scast w)"
      using False by (simp add: size_argument_def)
    then show ?thesis using False by (auto simp: Some page_size_def)
  qed (auto simp: Some page_size_def size_argument_def)
qed (auto simp: page_size_def size_argument_def)

lemma decode_argument_Inr: "decode_argument ct to_source s = Inr x \<longleftrightarrow> cursor_argument ct s x"
  by (auto simp: decode_argument_def cursor_argument_def split: option.splits sum.splits)

text \<open>\<open>query_with\<close> gives a result exactly when both sizes are not negative, both cursors can be decoded and the
  resolver gives this result for them; the resolver gets the very numbers and cursors of the request.\<close>

theorem query_with_exact:
  "query_with ct to_source after before k l f = Inr r \<longleftrightarrow>
     (\<exists>a b n m. cursor_argument ct after a \<and> cursor_argument ct before b \<and> size_argument k n \<and>
        size_argument l m \<and> f a b n m = Inr r)"
  by (auto simp: query_with_def result_bind_Inr_iff page_size_Inr decode_argument_Inr)

context cursor
begin

lemma next_page:
  "query_with ct to_source (pi_end_cursor (page_info ct cn)) None None None f =
     f (if cn_edges cn = [] then None else Some (ed_cursor (last (cn_edges cn)))) None None None"
  unfolding query_with_def page_size_def option.case result_bind.simps decode_page
  by (simp add: decode_argument_def)

lemma previous_page:
  "query_with ct to_source None (pi_start_cursor (page_info ct cn)) None None f =
     f None (case cn_edges cn of [] \<Rightarrow> None | e # _ \<Rightarrow> Some (ed_cursor e)) None None"
  unfolding query_with_def page_size_def option.case result_bind.simps decode_page
  by (simp add: decode_argument_def)

end


definition sample_page :: "(32 word, string, unit, unit) connection" where
  "sample_page = (connection_new False True)\<lparr>cn_edges := [edge_new 7 ''a'', edge_new (- 1) ''b'']\<rparr>"


end
