(* ===== verification/Serialization.thy ===== *)
theory Serialization
  imports Values
begin

text \<open>
  Serialization of values (\<open>value/src/serializer.rs\<close>, \<open>value/src/deserializer.rs\<close>,
  \<open>value/src/value_serde.rs\<close>): the serializer that turns any serializable Rust value into a
  constant, the deserializer that hands a constant to a visitor, and the \<open>Serialize\<close> and
  \<open>Deserialize\<close> implementations of constants and of values with variables.

  A \<open>Serialize\<close> implementation is known to the serializer by the methods it calls: \<open>sdata\<close> has one
  constructor per method of \<open>serde::Serializer\<close>, with its arguments; a map is the list of calls of
  \<open>serialize_key\<close> and \<open>serialize_value\<close>. \<open>SFail\<close> is an implementation that returns an error of its
  own. A \<open>Visitor\<close> is a record of its methods. Floating point numbers are type parameters, and what
  \<open>serde_json\<close> does with a number is the parameter \<open>json_numbers\<close>. The feature \<open>raw_value\<close>, which
  is off by default, is not modelled.
\<close>

section \<open>Numbers\<close>

text \<open>
  \<open>serde_json::Number\<close> is one of a \<open>u64\<close>, a negative \<open>i64\<close> and a finite \<open>f64\<close>, and its \<open>Serialize\<close>
  and \<open>Deserializer\<close> call the method of that type. \<open>Number::from\<close> an integer and
  \<open>Number::from_f64\<close> build one; \<open>jn_widen\<close> is \<open>v as f64\<close> on a \<open>f32\<close>.
\<close>

datatype 'f number_view = ViewU64 "64 word" | ViewI64 "64 word" | ViewF64 'f

record ('f, 'g) json_numbers =
  jn_view :: "number \<Rightarrow> 'f number_view"
  jn_from_i64 :: "64 word \<Rightarrow> number"
  jn_from_u64 :: "64 word \<Rightarrow> number"
  jn_from_f64 :: "'f \<Rightarrow> number option"
  jn_widen :: "'g \<Rightarrow> 'f"

section \<open>Serializer\<close>

datatype ('f, 'g) sdata =
    SFail string
  | SBool bool
  | SI8 "8 word" | SI16 "16 word" | SI32 "32 word" | SI64 "64 word"
  | SU8 "8 word" | SU16 "16 word" | SU32 "32 word" | SU64 "64 word"
  | SF32 'g | SF64 'f
  | SChar nat
  | SStr string
  | SBytes bytes
  | SNone
  | SSome "('f, 'g) sdata"
  | SUnit
  | SUnitStruct string
  | SUnitVariant string nat string
  | SNewtypeStruct string "('f, 'g) sdata"
  | SNewtypeVariant string nat string "('f, 'g) sdata"
  | SSeq "('f, 'g) sdata list"
  | STuple "('f, 'g) sdata list"
  | STupleStruct string "('f, 'g) sdata list"
  | STupleVariant string nat string "('f, 'g) sdata list"
  | SMap "('f, 'g) map_call list"
  | SStruct string "(string \<times> ('f, 'g) sdata) list"
  | SStructVariant string nat string "(string \<times> ('f, 'g) sdata) list"
and ('f, 'g) map_call = MapKey "('f, 'g) sdata" | MapValue "('f, 'g) sdata"

datatype serializer_error = SerializerError string

type_synonym 'a ser_result = "(serializer_error + 'a) run"

text \<open>The \<open>?\<close> operator where the code may also panic.\<close>

fun try_run :: "('e + 'a) run \<Rightarrow> ('a \<Rightarrow> ('e + 'b) run) \<Rightarrow> ('e + 'b) run" where
  "try_run (Done (Inr x)) f = f x"
| "try_run (Done (Inl e)) f = Done (Inl e)"
| "try_run Panicked f = Panicked"
| "try_run OutOfFuel f = OutOfFuel"

definition key_must_be_a_string :: serializer_error where
  "key_must_be_a_string = SerializerError ''Key must be a string''"

text \<open>\<open>MapKeySerializer\<close>: strings and unit variants are keys.\<close>

fun serialize_key_name :: "('f, 'g) sdata \<Rightarrow> serializer_error + name" where
  "serialize_key_name (SFail msg) = Inl (SerializerError msg)"
| "serialize_key_name (SStr v) = Inr v"
| "serialize_key_name (SUnitVariant _ _ variant) = Inr variant"
| "serialize_key_name _ = Inl key_must_be_a_string"

text \<open>\<open>SerializeMap\<close>: \<open>serialize_value\<close> unwraps the key that \<open>serialize_key\<close> has left.\<close>

record ser_map =
  sm_map :: "(name \<times> const_value) list"
  sm_key :: "name option"

definition serialize_map_key :: "('f, 'g) sdata \<Rightarrow> ser_map \<Rightarrow> serializer_error + ser_map" where
  "serialize_map_key key sm =
     result_bind (serialize_key_name key) (\<lambda>k. Inr (sm\<lparr>sm_key := Some k\<rparr>))"

definition serialize_map_value :: "const_value \<Rightarrow> ser_map \<Rightarrow> ser_map run" where
  "serialize_map_value v sm =
     (case sm_key sm of
        None \<Rightarrow> Panicked
      | Some k \<Rightarrow> Done (sm\<lparr>sm_key := None, sm_map := alist_insert k v (sm_map sm)\<rparr>))"

definition single_entry :: "name \<Rightarrow> const_value \<Rightarrow> const_value" where
  "single_entry variant v = CObject (alist_insert variant v [])"

definition serialize_f64 :: "('f, 'g) json_numbers \<Rightarrow> 'f \<Rightarrow> const_value" where
  "serialize_f64 nums v =
     (case jn_from_f64 nums v of Some n \<Rightarrow> CNumber n | None \<Rightarrow> CNull)"

fun to_value :: "('f, 'g) json_numbers \<Rightarrow> ('f, 'g) sdata \<Rightarrow> const_value ser_result"
  and serialize_elements ::
    "('f, 'g) json_numbers \<Rightarrow> ('f, 'g) sdata list \<Rightarrow> const_value list \<Rightarrow> const_value list ser_result"
  and serialize_fields ::
    "('f, 'g) json_numbers \<Rightarrow> (string \<times> ('f, 'g) sdata) list \<Rightarrow> (name \<times> const_value) list
       \<Rightarrow> (name \<times> const_value) list ser_result"
  and serialize_entries ::
    "('f, 'g) json_numbers \<Rightarrow> ('f, 'g) map_call list \<Rightarrow> ser_map \<Rightarrow> ser_map ser_result"
where
  "to_value nums (SFail msg) = Done (Inl (SerializerError msg))"
| "to_value nums (SBool v) = Done (Inr (CBoolean v))"
| "to_value nums (SI8 v) = Done (Inr (CNumber (jn_from_i64 nums (scast v))))"
| "to_value nums (SI16 v) = Done (Inr (CNumber (jn_from_i64 nums (scast v))))"
| "to_value nums (SI32 v) = Done (Inr (CNumber (jn_from_i64 nums (scast v))))"
| "to_value nums (SI64 v) = Done (Inr (CNumber (jn_from_i64 nums v)))"
| "to_value nums (SU8 v) = Done (Inr (CNumber (jn_from_u64 nums (ucast v))))"
| "to_value nums (SU16 v) = Done (Inr (CNumber (jn_from_u64 nums (ucast v))))"
| "to_value nums (SU32 v) = Done (Inr (CNumber (jn_from_u64 nums (ucast v))))"
| "to_value nums (SU64 v) = Done (Inr (CNumber (jn_from_u64 nums v)))"
| "to_value nums (SF32 v) = Done (Inr (serialize_f64 nums (jn_widen nums v)))"
| "to_value nums (SF64 v) = Done (Inr (serialize_f64 nums v))"
| "to_value nums (SChar _) = Done (Inl (SerializerError ''char is not supported.''))"
| "to_value nums (SStr v) = Done (Inr (CString v))"
| "to_value nums (SBytes v) = Done (Inr (CBinary v))"
| "to_value nums SNone = Done (Inr CNull)"
| "to_value nums (SSome v) = to_value nums v"
| "to_value nums SUnit = Done (Inr CNull)"
| "to_value nums (SUnitStruct _) = Done (Inr CNull)"
| "to_value nums (SUnitVariant _ _ variant) = Done (Inr (CString variant))"
| "to_value nums (SNewtypeStruct _ v) = to_value nums v"
| "to_value nums (SNewtypeVariant _ _ variant v) =
     try_run (to_value nums v) (\<lambda>v. Done (Inr (single_entry variant v)))"
| "to_value nums (SSeq vs) =
     try_run (serialize_elements nums vs []) (\<lambda>xs. Done (Inr (CList xs)))"
| "to_value nums (STuple vs) =
     try_run (serialize_elements nums vs []) (\<lambda>xs. Done (Inr (CList xs)))"
| "to_value nums (STupleStruct _ vs) =
     try_run (serialize_elements nums vs []) (\<lambda>xs. Done (Inr (CList xs)))"
| "to_value nums (STupleVariant _ _ variant vs) =
     try_run (serialize_elements nums vs []) (\<lambda>xs. Done (Inr (single_entry variant (CList xs))))"
| "to_value nums (SMap calls) =
     try_run (serialize_entries nums calls \<lparr>sm_map = [], sm_key = None\<rparr>)
       (\<lambda>sm. Done (Inr (CObject (sm_map sm))))"
| "to_value nums (SStruct _ m) =
     try_run (serialize_fields nums m []) (\<lambda>m. Done (Inr (CObject m)))"
| "to_value nums (SStructVariant _ _ variant m) =
     try_run (serialize_fields nums m []) (\<lambda>m. Done (Inr (single_entry variant (CObject m))))"
| "serialize_elements nums [] xs = Done (Inr xs)"
| "serialize_elements nums (v # vs) xs =
     try_run (to_value nums v) (\<lambda>x. serialize_elements nums vs (xs @ [x]))"
| "serialize_fields nums [] m = Done (Inr m)"
| "serialize_fields nums ((key, v) # vs) m =
     try_run (to_value nums v) (\<lambda>x. serialize_fields nums vs (alist_insert key x m))"
| "serialize_entries nums [] sm = Done (Inr sm)"
| "serialize_entries nums (MapKey key # calls) sm =
     try_run (Done (serialize_map_key key sm)) (\<lambda>sm. serialize_entries nums calls sm)"
| "serialize_entries nums (MapValue v # calls) sm =
     try_run (to_value nums v) (\<lambda>x.
     run_bind (serialize_map_value x sm) (\<lambda>sm. serialize_entries nums calls sm))"

section \<open>Serializing values\<close>

definition serialize_number :: "('f, 'g) json_numbers \<Rightarrow> number \<Rightarrow> ('f, 'g) sdata" where
  "serialize_number nums n =
     (case jn_view nums n of
        ViewU64 v \<Rightarrow> SU64 v
      | ViewI64 v \<Rightarrow> SI64 v
      | ViewF64 v \<Rightarrow> SF64 v)"

text \<open>\<open>impl Serialize for Name\<close>.\<close>

definition serialize_name :: "name \<Rightarrow> ('f, 'g) sdata" where
  "serialize_name n = SStr n"

definition serialize_entry :: "('f, 'g) sdata \<Rightarrow> ('f, 'g) sdata \<Rightarrow> ('f, 'g) map_call list" where
  "serialize_entry key v = [MapKey key, MapValue v]"

fun serialize_const :: "('f, 'g) json_numbers \<Rightarrow> const_value \<Rightarrow> ('f, 'g) sdata" where
  "serialize_const nums CNull = SNone"
| "serialize_const nums (CNumber v) = serialize_number nums v"
| "serialize_const nums (CString v) = SStr v"
| "serialize_const nums (CBoolean v) = SBool v"
| "serialize_const nums (CBinary v) = SBytes v"
| "serialize_const nums (CEnum v) = SStr v"
| "serialize_const nums (CList v) = SSeq (map (serialize_const nums) v)"
| "serialize_const nums (CObject v) =
     SMap (concat (map (\<lambda>(k, x). serialize_entry (serialize_name k) (serialize_const nums x)) v))"

definition serde_variable :: "name \<Rightarrow> ('f, 'g) sdata" where
  "serde_variable n = SMap (serialize_entry (SStr ''$var'') (serialize_name n))"

fun serialize_gvalue :: "('f, 'g) json_numbers \<Rightarrow> gvalue \<Rightarrow> ('f, 'g) sdata" where
  "serialize_gvalue nums (VVariable n) = serde_variable n"
| "serialize_gvalue nums VNull = SNone"
| "serialize_gvalue nums (VNumber v) = serialize_number nums v"
| "serialize_gvalue nums (VString v) = SStr v"
| "serialize_gvalue nums (VBoolean v) = SBool v"
| "serialize_gvalue nums (VBinary v) = SBytes v"
| "serialize_gvalue nums (VEnum v) = SStr v"
| "serialize_gvalue nums (VList v) = SSeq (map (serialize_gvalue nums) v)"
| "serialize_gvalue nums (VObject v) =
     SMap (concat (map (\<lambda>(k, x). serialize_entry (serialize_name k) (serialize_gvalue nums x)) v))"

section \<open>Deserializer\<close>

text \<open>
  The errors are those the code builds; their text is written by serde. \<open>DCustom\<close> stands for the
  error of a visitor and for \<open>value is missing\<close>.
\<close>

datatype unexpected =
    UnexpectedUnit
  | UnexpectedOther string
  | UnexpectedStr string
  | UnexpectedBool bool
  | UnexpectedBytes bytes
  | UnexpectedSeq
  | UnexpectedMap
  | UnexpectedUnitVariant
  | UnexpectedNewtypeStruct
  | UnexpectedEnum

datatype deserializer_error =
    DCustom string
  | DInvalidLength nat string
  | DInvalidType unexpected string
  | DInvalidValue unexpected string

type_synonym 'a de_result = "deserializer_error + 'a"

fun unexpected_of :: "const_value \<Rightarrow> unexpected" where
  "unexpected_of CNull = UnexpectedUnit"
| "unexpected_of (CNumber _) = UnexpectedOther ''number''"
| "unexpected_of (CString v) = UnexpectedStr v"
| "unexpected_of (CBoolean v) = UnexpectedBool v"
| "unexpected_of (CBinary v) = UnexpectedBytes v"
| "unexpected_of (CEnum v) = UnexpectedStr v"
| "unexpected_of (CList _) = UnexpectedSeq"
| "unexpected_of (CObject _) = UnexpectedMap"

text \<open>\<open>SeqDeserializer\<close> is the list of the elements left; \<open>MapDeserializer\<close> the entries left and the
  value of the key that was read last.\<close>

type_synonym seq_deserializer = "const_value list"

record map_deserializer =
  md_iter :: "(name \<times> const_value) list"
  md_value :: "const_value option"

definition seq_deserializer_new :: "const_value list \<Rightarrow> seq_deserializer" where
  "seq_deserializer_new vec = vec"

definition map_deserializer_new :: "(name \<times> const_value) list \<Rightarrow> map_deserializer" where
  "map_deserializer_new m = \<lparr>md_iter = m, md_value = None\<rparr>"

text \<open>\<open>SeqAccess\<close> and \<open>MapAccess\<close>: the seed reads one value; a visitor keeps the access as its state.
  Keys are read as strings (\<open>MapKeyDeserializer\<close>, \<open>NameDeserializer\<close>).\<close>

definition next_element_seed ::
  "(const_value \<Rightarrow> 't de_result) \<Rightarrow> seq_deserializer \<Rightarrow> ('t option de_result) \<times> seq_deserializer"
where
  "next_element_seed seed sd =
     (case sd of
        [] \<Rightarrow> (Inr None, [])
      | v # rest \<Rightarrow> (result_bind (seed v) (\<lambda>x. Inr (Some x)), rest))"

definition next_key_seed ::
  "(string \<Rightarrow> 't de_result) \<Rightarrow> map_deserializer \<Rightarrow> ('t option de_result) \<times> map_deserializer"
where
  "next_key_seed seed md =
     (case md_iter md of
        [] \<Rightarrow> (Inr None, md)
      | (key, v) # rest \<Rightarrow>
          (result_bind (seed key) (\<lambda>k. Inr (Some k)), md\<lparr>md_iter := rest, md_value := Some v\<rparr>))"

definition next_value_seed ::
  "(const_value \<Rightarrow> 't de_result) \<Rightarrow> map_deserializer \<Rightarrow> 't de_result \<times> map_deserializer"
where
  "next_value_seed seed md =
     (case md_value md of
        Some v \<Rightarrow> (seed v, md\<lparr>md_value := None\<rparr>)
      | None \<Rightarrow> (Inl (DCustom ''value is missing''), md))"

text \<open>\<open>EnumAccess\<close> and \<open>VariantAccess\<close>: the name of a variant and what was found beside it.\<close>

record enum_deserializer =
  ed_variant :: name
  ed_value :: "const_value option"

record ('f, 'a) visitor =
  visit_bool :: "bool \<Rightarrow> 'a de_result"
  visit_i64 :: "64 word \<Rightarrow> 'a de_result"
  visit_u64 :: "64 word \<Rightarrow> 'a de_result"
  visit_f64 :: "'f \<Rightarrow> 'a de_result"
  visit_str :: "string \<Rightarrow> 'a de_result"
  visit_string :: "string \<Rightarrow> 'a de_result"
  visit_bytes :: "bytes \<Rightarrow> 'a de_result"
  visit_byte_buf :: "bytes \<Rightarrow> 'a de_result"
  visit_none :: "'a de_result"
  visit_some :: "const_value \<Rightarrow> 'a de_result"
  visit_unit :: "'a de_result"
  visit_newtype_struct :: "const_value \<Rightarrow> 'a de_result"
  visit_seq :: "seq_deserializer \<Rightarrow> 'a de_result \<times> seq_deserializer"
  visit_map :: "map_deserializer \<Rightarrow> 'a de_result \<times> map_deserializer"
  visit_enum :: "enum_deserializer \<Rightarrow> 'a de_result"

definition visit_array :: "const_value list \<Rightarrow> ('f, 'a) visitor \<Rightarrow> 'a de_result" where
  "visit_array array visitor =
     (case visit_seq visitor (seq_deserializer_new array) of
        (Inl e, _) \<Rightarrow> Inl e
      | (Inr x, rest) \<Rightarrow>
          if length rest = 0 then Inr x
          else Inl (DInvalidLength (length array) ''fewer elements in array''))"

definition visit_object :: "(name \<times> const_value) list \<Rightarrow> ('f, 'a) visitor \<Rightarrow> 'a de_result" where
  "visit_object obj visitor =
     (case visit_map visitor (map_deserializer_new obj) of
        (Inl e, _) \<Rightarrow> Inl e
      | (Inr x, md) \<Rightarrow>
          if length (md_iter md) = 0 then Inr x
          else Inl (DInvalidLength (length obj) ''fewer elements in map''))"

definition deserialize_number ::
  "('f, 'g) json_numbers \<Rightarrow> number \<Rightarrow> ('f, 'a) visitor \<Rightarrow> 'a de_result"
where
  "deserialize_number nums n visitor =
     (case jn_view nums n of
        ViewU64 v \<Rightarrow> visit_u64 visitor v
      | ViewI64 v \<Rightarrow> visit_i64 visitor v
      | ViewF64 v \<Rightarrow> visit_f64 visitor v)"

fun deserialize_any ::
  "('f, 'g) json_numbers \<Rightarrow> const_value \<Rightarrow> ('f, 'a) visitor \<Rightarrow> 'a de_result"
where
  "deserialize_any nums CNull visitor = visit_unit visitor"
| "deserialize_any nums (CNumber v) visitor = deserialize_number nums v visitor"
| "deserialize_any nums (CString v) visitor = visit_str visitor v"
| "deserialize_any nums (CBoolean v) visitor = visit_bool visitor v"
| "deserialize_any nums (CBinary v) visitor = visit_bytes visitor v"
| "deserialize_any nums (CEnum v) visitor = visit_str visitor v"
| "deserialize_any nums (CList v) visitor = visit_array v visitor"
| "deserialize_any nums (CObject v) visitor = visit_object v visitor"

definition deserialize_option :: "const_value \<Rightarrow> ('f, 'a) visitor \<Rightarrow> 'a de_result" where
  "deserialize_option v visitor =
     (case v of CNull \<Rightarrow> visit_none visitor | _ \<Rightarrow> visit_some visitor v)"

definition deserialize_newtype_struct :: "const_value \<Rightarrow> ('f, 'a) visitor \<Rightarrow> 'a de_result" where
  "deserialize_newtype_struct v visitor = visit_newtype_struct visitor v"

definition deserialize_enum :: "const_value \<Rightarrow> ('f, 'a) visitor \<Rightarrow> 'a de_result" where
  "deserialize_enum v visitor =
     (case v of
        CObject obj \<Rightarrow>
          (case obj of
             [] \<Rightarrow> Inl (DInvalidValue UnexpectedMap ''map with a single key'')
           | [(variant, x)] \<Rightarrow> visit_enum visitor \<lparr>ed_variant = variant, ed_value = Some x\<rparr>
           | _ \<Rightarrow> Inl (DInvalidValue UnexpectedMap ''map with a single key''))
      | CString variant \<Rightarrow> visit_enum visitor \<lparr>ed_variant = variant, ed_value = None\<rparr>
      | CEnum variant \<Rightarrow> visit_enum visitor \<lparr>ed_variant = variant, ed_value = None\<rparr>
      | other \<Rightarrow> Inl (DInvalidType (unexpected_of other) ''string or map''))"

text \<open>\<open>deserialize_any\<close> of \<open>SeqDeserializer\<close> and of \<open>MapDeserializer\<close>, which variants use.\<close>

definition deserialize_seq :: "seq_deserializer \<Rightarrow> ('f, 'a) visitor \<Rightarrow> 'a de_result" where
  "deserialize_seq sd visitor =
     (let len = length sd in
      if len = 0 then visit_unit visitor
      else
        (case visit_seq visitor sd of
           (Inl e, _) \<Rightarrow> Inl e
         | (Inr ret, rest) \<Rightarrow>
             if length rest = 0 then Inr ret
             else Inl (DInvalidLength len ''fewer elements in array'')))"

definition deserialize_map :: "map_deserializer \<Rightarrow> ('f, 'a) visitor \<Rightarrow> 'a de_result" where
  "deserialize_map md visitor = fst (visit_map visitor md)"

definition variant_seed :: "(string \<Rightarrow> 't de_result) \<Rightarrow> enum_deserializer \<Rightarrow> ('t \<times> const_value option) de_result" where
  "variant_seed seed ed = result_bind (seed (ed_variant ed)) (\<lambda>v. Inr (v, ed_value ed))"

text \<open>\<open>unit_seed\<close> is \<open>Deserialize\<close> for the unit type.\<close>

definition unit_variant :: "(const_value \<Rightarrow> unit de_result) \<Rightarrow> const_value option \<Rightarrow> unit de_result" where
  "unit_variant unit_seed v = (case v of Some x \<Rightarrow> unit_seed x | None \<Rightarrow> Inr ())"

definition newtype_variant_seed ::
  "(const_value \<Rightarrow> 't de_result) \<Rightarrow> const_value option \<Rightarrow> 't de_result"
where
  "newtype_variant_seed seed v =
     (case v of
        Some x \<Rightarrow> seed x
      | None \<Rightarrow> Inl (DInvalidType UnexpectedUnitVariant ''newtype variant''))"

definition tuple_variant :: "const_value option \<Rightarrow> ('f, 'a) visitor \<Rightarrow> 'a de_result" where
  "tuple_variant v visitor =
     (case v of
        Some (CList xs) \<Rightarrow> deserialize_seq (seq_deserializer_new xs) visitor
      | Some other \<Rightarrow> Inl (DInvalidType (unexpected_of other) ''tuple variant'')
      | None \<Rightarrow> Inl (DInvalidType UnexpectedUnitVariant ''tuple variant''))"

definition struct_variant :: "const_value option \<Rightarrow> ('f, 'a) visitor \<Rightarrow> 'a de_result" where
  "struct_variant v visitor =
     (case v of
        Some (CObject m) \<Rightarrow> deserialize_map (map_deserializer_new m) visitor
      | Some other \<Rightarrow> Inl (DInvalidType (unexpected_of other) ''struct variant'')
      | None \<Rightarrow> Inl (DInvalidType UnexpectedUnitVariant ''struct variant''))"

section \<open>Deserializing values\<close>

text \<open>\<open>impl Deserialize for Name\<close> reads a string, which is what every key is.\<close>

definition deserialize_name :: "string \<Rightarrow> name de_result" where
  "deserialize_name s = Inr s"

text \<open>\<open>next_entry\<close> is the next key and then its value.\<close>

definition next_entry ::
  "(const_value \<Rightarrow> 't de_result) \<Rightarrow> map_deserializer
     \<Rightarrow> ((name \<times> 't) option de_result) \<times> map_deserializer"
where
  "next_entry seed md =
     (case next_key_seed deserialize_name md of
        (Inl e, md) \<Rightarrow> (Inl e, md)
      | (Inr None, md) \<Rightarrow> (Inr None, md)
      | (Inr (Some key), md) \<Rightarrow>
          (case next_value_seed seed md of
             (Inl e, md) \<Rightarrow> (Inl e, md)
           | (Inr v, md) \<Rightarrow> (Inr (Some (key, v)), md)))"

lemma next_element_seed_shorter:
  "next_element_seed seed sd = (Inr (Some x), rest) \<Longrightarrow> length rest < length sd"
  by (auto simp: next_element_seed_def result_bind_Inr_iff split: list.splits)

lemma next_entry_shorter:
  "next_entry seed md = (Inr (Some x), md') \<Longrightarrow> length (md_iter md') < length (md_iter md)"
  by (auto simp: next_entry_def next_key_seed_def next_value_seed_def deserialize_name_def
      split: list.splits sum.splits option.splits)

text \<open>The loops of \<open>visit_seq\<close> and \<open>visit_map\<close>; \<open>seed\<close> is the \<open>Deserialize\<close> of the elements.\<close>

function visit_elements ::
  "(const_value \<Rightarrow> 't de_result) \<Rightarrow> seq_deserializer \<Rightarrow> 't list \<Rightarrow> 't list de_result \<times> seq_deserializer"
where
  "visit_elements seed sd vec =
     (case next_element_seed seed sd of
        (Inl e, sd) \<Rightarrow> (Inl e, sd)
      | (Inr None, sd) \<Rightarrow> (Inr vec, sd)
      | (Inr (Some elem), sd) \<Rightarrow> visit_elements seed sd (vec @ [elem]))"
  by pat_completeness auto
termination
  by (relation "measure (\<lambda>(_, sd, _). length sd)")
    (auto dest: next_element_seed_shorter [OF sym])

function visit_entries ::
  "(const_value \<Rightarrow> const_value de_result) \<Rightarrow> map_deserializer \<Rightarrow> (name \<times> const_value) list
     \<Rightarrow> const_value de_result \<times> map_deserializer"
where
  "visit_entries seed md m =
     (case next_entry seed md of
        (Inl e, md) \<Rightarrow> (Inl e, md)
      | (Inr None, md) \<Rightarrow> (Inr (CObject m), md)
      | (Inr (Some (key, v)), md) \<Rightarrow> visit_entries seed md (alist_insert key v m))"
  by pat_completeness auto
termination
  by (relation "measure (\<lambda>(_, md, _). length (md_iter md))")
    (auto dest: next_entry_shorter [OF sym])

function visit_value_entries ::
  "(const_value \<Rightarrow> gvalue de_result) \<Rightarrow> map_deserializer \<Rightarrow> (name \<times> gvalue) list
     \<Rightarrow> gvalue de_result \<times> map_deserializer"
where
  "visit_value_entries seed md m =
     (case next_entry seed md of
        (Inl e, md) \<Rightarrow> (Inl e, md)
      | (Inr None, md) \<Rightarrow> (Inr (VObject m), md)
      | (Inr (Some (key, v)), md) \<Rightarrow>
          (case v of
             VString n \<Rightarrow>
               if key = ''$var'' then (Inr (VVariable n), md)
               else visit_value_entries seed md (alist_insert key v m)
           | _ \<Rightarrow> visit_value_entries seed md (alist_insert key v m)))"
  by pat_completeness auto
termination
  by (relation "measure (\<lambda>(_, md, _). length (md_iter md))")
    (auto dest: next_entry_shorter [OF sym])

declare visit_elements.simps [simp del] visit_entries.simps [simp del]
  visit_value_entries.simps [simp del]

text \<open>
  The two visitors. What \<open>ValueVisitor\<close> does not define, \<open>visit_newtype_struct\<close> and \<open>visit_enum\<close>, is
  refused with the text of \<open>expecting\<close>.
\<close>

definition const_visitor ::
  "('f, 'g) json_numbers \<Rightarrow> (const_value \<Rightarrow> const_value de_result) \<Rightarrow> ('f, const_value) visitor"
where
  "const_visitor nums seed =
     \<lparr>visit_bool = (\<lambda>v. Inr (CBoolean v)),
      visit_i64 = (\<lambda>v. Inr (CNumber (jn_from_i64 nums v))),
      visit_u64 = (\<lambda>v. Inr (CNumber (jn_from_u64 nums v))),
      visit_f64 = (\<lambda>v. Inr (case jn_from_f64 nums v of None \<Rightarrow> CNull | Some n \<Rightarrow> CNumber n)),
      visit_str = (\<lambda>v. Inr (CString v)),
      visit_string = (\<lambda>v. Inr (CString v)),
      visit_bytes = (\<lambda>v. Inr (CBinary v)),
      visit_byte_buf = (\<lambda>v. Inr (CBinary v)),
      visit_none = Inr CNull,
      visit_some = seed,
      visit_unit = Inr CNull,
      visit_newtype_struct = (\<lambda>_. Inl (DInvalidType UnexpectedNewtypeStruct ''any valid value'')),
      visit_seq = (\<lambda>sd.
        case visit_elements seed sd [] of
          (Inl e, sd) \<Rightarrow> (Inl e, sd)
        | (Inr vec, sd) \<Rightarrow> (Inr (CList vec), sd)),
      visit_map = (\<lambda>md. visit_entries seed md []),
      visit_enum = (\<lambda>_. Inl (DInvalidType UnexpectedEnum ''any valid value''))\<rparr>"

definition value_visitor ::
  "('f, 'g) json_numbers \<Rightarrow> (const_value \<Rightarrow> gvalue de_result) \<Rightarrow> ('f, gvalue) visitor"
where
  "value_visitor nums seed =
     \<lparr>visit_bool = (\<lambda>v. Inr (VBoolean v)),
      visit_i64 = (\<lambda>v. Inr (VNumber (jn_from_i64 nums v))),
      visit_u64 = (\<lambda>v. Inr (VNumber (jn_from_u64 nums v))),
      visit_f64 = (\<lambda>v. Inr (case jn_from_f64 nums v of None \<Rightarrow> VNull | Some n \<Rightarrow> VNumber n)),
      visit_str = (\<lambda>v. Inr (VString v)),
      visit_string = (\<lambda>v. Inr (VString v)),
      visit_bytes = (\<lambda>v. Inr (VBinary v)),
      visit_byte_buf = (\<lambda>v. Inr (VBinary v)),
      visit_none = Inr VNull,
      visit_some = seed,
      visit_unit = Inr VNull,
      visit_newtype_struct = (\<lambda>_. Inl (DInvalidType UnexpectedNewtypeStruct ''any valid value'')),
      visit_seq = (\<lambda>sd.
        case visit_elements seed sd [] of
          (Inl e, sd) \<Rightarrow> (Inl e, sd)
        | (Inr vec, sd) \<Rightarrow> (Inr (VList vec), sd)),
      visit_map = (\<lambda>md. visit_value_entries seed md []),
      visit_enum = (\<lambda>_. Inl (DInvalidType UnexpectedEnum ''any valid value''))\<rparr>"

text \<open>What the loops do on the states a visitor starts from.\<close>

lemma visit_elements_simps:
  "visit_elements seed [] vec = (Inr vec, [])"
  "visit_elements seed (v # sd) vec =
     (case seed v of
        Inl e \<Rightarrow> (Inl e, sd)
      | Inr x \<Rightarrow> visit_elements seed sd (vec @ [x]))"
  by (subst visit_elements.simps, simp add: next_element_seed_def split: sum.split)+

lemma next_entry_simps:
  "next_entry seed \<lparr>md_iter = [], md_value = w\<rparr> = (Inr None, \<lparr>md_iter = [], md_value = w\<rparr>)"
  "next_entry seed \<lparr>md_iter = (k, v) # m, md_value = w\<rparr> =
     (case seed v of
        Inl e \<Rightarrow> (Inl e, \<lparr>md_iter = m, md_value = None\<rparr>)
      | Inr x \<Rightarrow> (Inr (Some (k, x)), \<lparr>md_iter = m, md_value = None\<rparr>))"
  by (simp_all add: next_entry_def next_key_seed_def next_value_seed_def deserialize_name_def
      split: sum.split)

lemma visit_entries_simps:
  "visit_entries seed \<lparr>md_iter = [], md_value = w\<rparr> m =
     (Inr (CObject m), \<lparr>md_iter = [], md_value = w\<rparr>)"
  "visit_entries seed \<lparr>md_iter = (k, v) # es, md_value = w\<rparr> m =
     (case seed v of
        Inl e \<Rightarrow> (Inl e, \<lparr>md_iter = es, md_value = None\<rparr>)
      | Inr x \<Rightarrow> visit_entries seed \<lparr>md_iter = es, md_value = None\<rparr> (alist_insert k x m))"
  by (subst visit_entries.simps, simp add: next_entry_simps split: sum.split)+

lemma visit_value_entries_simps:
  "visit_value_entries seed \<lparr>md_iter = [], md_value = w\<rparr> m =
     (Inr (VObject m), \<lparr>md_iter = [], md_value = w\<rparr>)"
  "visit_value_entries seed \<lparr>md_iter = (k, v) # es, md_value = w\<rparr> m =
     (case seed v of
        Inl e \<Rightarrow> (Inl e, \<lparr>md_iter = es, md_value = None\<rparr>)
      | Inr x \<Rightarrow>
          (case x of
             VString n \<Rightarrow>
               if k = ''$var'' then (Inr (VVariable n), \<lparr>md_iter = es, md_value = None\<rparr>)
               else visit_value_entries seed \<lparr>md_iter = es, md_value = None\<rparr> (alist_insert k x m)
           | _ \<Rightarrow> visit_value_entries seed \<lparr>md_iter = es, md_value = None\<rparr> (alist_insert k x m)))"
  by (subst visit_value_entries.simps, simp add: next_entry_simps split: sum.split gvalue.split)+

lemma visit_elements_cong:
  "(\<And>v. v \<in> set sd \<Longrightarrow> f v = g v) \<Longrightarrow> visit_elements f sd vec = visit_elements g sd vec"
  by (induction sd arbitrary: vec) (auto simp: visit_elements_simps split: sum.split)

lemma visit_entries_cong:
  "(\<And>x. x \<in> set es \<Longrightarrow> f (snd x) = g (snd x)) \<Longrightarrow>
     visit_entries f \<lparr>md_iter = es, md_value = w\<rparr> m = visit_entries g \<lparr>md_iter = es, md_value = w\<rparr> m"
proof (induction es arbitrary: m w)
  case (Cons e es)
  obtain k v where e: "e = (k, v)" by (cases e)
  have "f v = g v" using Cons.prems [of e] e by simp
  moreover have "visit_entries f \<lparr>md_iter = es, md_value = None\<rparr> m' = visit_entries g \<lparr>md_iter = es, md_value = None\<rparr> m'" for m'
    using Cons.prems by (intro Cons.IH) simp
  ultimately show ?case
    by (simp add: e visit_entries_simps split: sum.split)
qed (simp add: visit_entries_simps)

lemma visit_value_entries_cong:
  "(\<And>x. x \<in> set es \<Longrightarrow> f (snd x) = g (snd x)) \<Longrightarrow>
     visit_value_entries f \<lparr>md_iter = es, md_value = w\<rparr> m =
     visit_value_entries g \<lparr>md_iter = es, md_value = w\<rparr> m"
proof (induction es arbitrary: m w)
  case (Cons e es)
  obtain k v where e: "e = (k, v)" by (cases e)
  have "f v = g v" using Cons.prems [of e] e by simp
  moreover have "visit_value_entries f \<lparr>md_iter = es, md_value = None\<rparr> m' = visit_value_entries g \<lparr>md_iter = es, md_value = None\<rparr> m'" for m'
    using Cons.prems by (intro Cons.IH) simp
  ultimately show ?case
    by (simp add: e visit_value_entries_simps split: sum.split gvalue.split)
qed (simp add: visit_value_entries_simps)

text \<open>
  \<open>Deserialize::deserialize\<close> runs \<open>deserialize_any\<close> with the visitor, which deserializes what lies
  directly inside the value.
\<close>

definition const_any ::
  "('f, 'g) json_numbers \<Rightarrow> (const_value \<Rightarrow> const_value de_result) \<Rightarrow> const_value \<Rightarrow> const_value de_result"
where
  "const_any nums seed v = deserialize_any nums v (const_visitor nums seed)"

definition value_any ::
  "('f, 'g) json_numbers \<Rightarrow> (const_value \<Rightarrow> gvalue de_result) \<Rightarrow> const_value \<Rightarrow> gvalue de_result"
where
  "value_any nums seed v = deserialize_any nums v (value_visitor nums seed)"

fun parts :: "const_value \<Rightarrow> const_value list" where
  "parts (CList xs) = xs"
| "parts (CObject m) = map snd m"
| "parts _ = []"

lemma parts_size: "v \<in> set (parts w) \<Longrightarrow> size v < size w"
proof (induction w)
  case (CList xs)
  then show ?case using size_list_estimation' [of v xs "size v" size] by simp
next
  case (CObject m)
  then obtain k where "(k, v) \<in> set m" by auto
  then show ?case using size_list_estimation' [of "(k, v)" m "size v" "size_prod (\<lambda>_. 0) size"] by simp
qed simp_all

lemma const_any_cong [fundef_cong]:
  assumes "v = w" "nums = nums'" "\<And>x. x \<in> set (parts w) \<Longrightarrow> f x = g x"
  shows "const_any nums f v = const_any nums' g w"
proof (cases w)
  case (CList xs)
  then have "visit_elements f xs [] = visit_elements g xs []"
    using assms(3) by (intro visit_elements_cong) simp
  then show ?thesis
    using CList assms(1,2)
    by (simp add: const_any_def visit_array_def const_visitor_def seq_deserializer_new_def)
next
  case (CObject m)
  then have "visit_entries f (map_deserializer_new m) [] = visit_entries g (map_deserializer_new m) []"
    using assms(3) by (force simp: map_deserializer_new_def intro!: visit_entries_cong)
  then show ?thesis
    using CObject assms(1,2) by (simp add: const_any_def visit_object_def const_visitor_def)
qed (use assms(1,2) in \<open>simp_all add: const_any_def const_visitor_def deserialize_number_def split: number_view.split\<close>)

lemma value_any_cong [fundef_cong]:
  assumes "v = w" "nums = nums'" "\<And>x. x \<in> set (parts w) \<Longrightarrow> f x = g x"
  shows "value_any nums f v = value_any nums' g w"
proof (cases w)
  case (CList xs)
  then have "visit_elements f xs [] = visit_elements g xs []"
    using assms(3) by (intro visit_elements_cong) simp
  then show ?thesis
    using CList assms(1,2)
    by (simp add: value_any_def visit_array_def value_visitor_def seq_deserializer_new_def)
next
  case (CObject m)
  then have "visit_value_entries f (map_deserializer_new m) [] = visit_value_entries g (map_deserializer_new m) []"
    using assms(3) by (force simp: map_deserializer_new_def intro!: visit_value_entries_cong)
  then show ?thesis
    using CObject assms(1,2) by (simp add: value_any_def visit_object_def value_visitor_def)
qed (use assms(1,2) in \<open>simp_all add: value_any_def value_visitor_def deserialize_number_def split: number_view.split\<close>)

function const_from_value :: "('f, 'g) json_numbers \<Rightarrow> const_value \<Rightarrow> const_value de_result" where
  "const_from_value nums v = const_any nums (\<lambda>x. const_from_value nums x) v"
  by pat_completeness auto
termination by (relation "measure (\<lambda>(_, v). size v)") (simp_all add: parts_size)

function value_from_value :: "('f, 'g) json_numbers \<Rightarrow> const_value \<Rightarrow> gvalue de_result" where
  "value_from_value nums v = value_any nums (\<lambda>x. value_from_value nums x) v"
  by pat_completeness auto
termination by (relation "measure (\<lambda>(_, v). size v)") (simp_all add: parts_size)

declare const_from_value.simps [simp del] value_from_value.simps [simp del]

end
