(* ===== verification/Serialization_Facts.thy ===== *)
theory Serialization_Facts
  imports Serialization Value_Facts
begin

text \<open>
  Facts about serialization: what the serializer writes, that it panics only on maps whose calls are
  out of order, what values read back as, and how the variants of an enum travel.
\<close>

section \<open>The serializer\<close>

lemma try_run_cases:
  "try_run r f = (case r of
     Done (Inr x) \<Rightarrow> f x | Done (Inl e) \<Rightarrow> Done (Inl e) | Panicked \<Rightarrow> Panicked | OutOfFuel \<Rightarrow> OutOfFuel)"
  by (cases "(r, f)" rule: try_run.cases) simp_all

lemma try_run_Inr_iff: "try_run r f = Done (Inr y) \<longleftrightarrow> (\<exists>x. r = Done (Inr x) \<and> f x = Done (Inr y))"
  by (simp add: try_run_cases split: run.split sum.split)

lemma returns_try_run:
  "returns (try_run r f) \<longleftrightarrow> returns r \<and> (\<forall>x. r = Done (Inr x) \<longrightarrow> returns (f x))"
  by (cases r) (auto simp: try_run_cases split: sum.split)

text \<open>Constants as the serializer writes them: enum values are strings, keys are distinct.\<close>

fun enums_as_strings :: "const_value \<Rightarrow> const_value" where
  "enums_as_strings (CEnum v) = CString v"
| "enums_as_strings (CList v) = CList (map enums_as_strings v)"
| "enums_as_strings (CObject v) = CObject (map (\<lambda>(k, x). (k, enums_as_strings x)) v)"
| "enums_as_strings v = v"

definition plain_const :: "const_value \<Rightarrow> bool" where
  "plain_const v \<longleftrightarrow> distinct_keys v \<and> enums_as_strings v = v"

lemma plain_const_simps [simp]:
  "plain_const CNull" "plain_const (CNumber n)" "plain_const (CString s)" "plain_const (CBoolean b)"
  "plain_const (CBinary bs)" "\<not> plain_const (CEnum e)"
  "plain_const (CList xs) \<longleftrightarrow> (\<forall>x\<in>set xs. plain_const x)"
  "plain_const (CObject m) \<longleftrightarrow> distinct (map fst m) \<and> (\<forall>x\<in>set m. plain_const (snd x))"
  by (auto simp: plain_const_def list_eq_iff_nth_eq all_set_conv_all_nth split_beta prod_eq_iff)

lemma set_alist_insert_all:
  "\<forall>x\<in>set m. P (snd x) \<Longrightarrow> P v \<Longrightarrow> \<forall>x\<in>set (alist_insert k v m). P (snd x)"
  using set_alist_insert [of k v m] by fastforce

lemma plain_insert:
  "plain_const (CObject m) \<Longrightarrow> plain_const v \<Longrightarrow> plain_const (CObject (alist_insert k v m))"
  using set_alist_insert_all [of m plain_const v k] by (simp add: distinct_alist_insert)

lemma plain_single_entry: "plain_const v \<Longrightarrow> plain_const (single_entry k v)"
  by (simp add: single_entry_def)

lemma plain_empty: "plain_const (CObject [])"
  by simp

lemma serialize_map_key_map: "serialize_map_key key sm = Inr sm' \<Longrightarrow> sm_map sm' = sm_map sm"
  by (auto simp: serialize_map_key_def result_bind_Inr_iff)

lemma serialize_map_value_map:
  "serialize_map_value v sm = Done sm' \<Longrightarrow> \<exists>k. sm_map sm' = alist_insert k v (sm_map sm)"
  by (auto simp: serialize_map_value_def split: option.splits)

lemma to_value_plain:
  "to_value nums d = Done (Inr v) \<Longrightarrow> plain_const v"
  "serialize_elements nums ds xs = Done (Inr ys) \<Longrightarrow> \<forall>x\<in>set xs. plain_const x \<Longrightarrow>
     \<forall>y\<in>set ys. plain_const y"
  "serialize_fields nums fs m = Done (Inr m') \<Longrightarrow> plain_const (CObject m) \<Longrightarrow> plain_const (CObject m')"
  "serialize_entries nums calls sm = Done (Inr sm') \<Longrightarrow> plain_const (CObject (sm_map sm)) \<Longrightarrow>
     plain_const (CObject (sm_map sm'))"
proof (induction nums d and nums ds xs and nums fs m and nums calls sm
    arbitrary: v and ys and m' and sm'
    rule: to_value_serialize_elements_serialize_fields_serialize_entries.induct)
  case (23 nums vs) then show ?case by (auto simp: try_run_Inr_iff)
next
  case (24 nums vs) then show ?case by (auto simp: try_run_Inr_iff)
next
  case (25 nums uu vs) then show ?case by (auto simp: try_run_Inr_iff)
next
  case (26 nums uu uv variant vs) then show ?case by (auto simp: try_run_Inr_iff intro!: plain_single_entry)
next
  case (36 nums v calls sm)
  from "36.prems"(1) obtain x sm2 where x: "to_value nums v = Done (Inr x)"
    "serialize_map_value x sm = Done sm2" "serialize_entries nums calls sm2 = Done (Inr sm')"
    by (auto simp: try_run_Inr_iff run_bind_Done_iff)
  obtain k where "sm_map sm2 = alist_insert k x (sm_map sm)"
    using serialize_map_value_map [OF x(2)] by blast
  then have "plain_const (CObject (sm_map sm2))"
    using plain_insert [OF "36.prems"(2) "36.IH"(1) [OF x(1)]] by simp
  then show ?case using "36.IH"(2) [OF x(2,3)] by simp
qed (auto simp: try_run_Inr_iff serialize_f64_def plain_empty plain_single_entry plain_insert
    simp del: plain_const_simps(8) dest: serialize_map_key_map
    split: option.splits)

text \<open>
  Calls of a map are in order when every value has a key before it that no other value has taken. Then
  the serializer returns.
\<close>

fun calls_in_order :: "bool \<Rightarrow> ('f, 'g) map_call list \<Rightarrow> bool" where
  "calls_in_order key [] \<longleftrightarrow> True"
| "calls_in_order key (MapKey _ # calls) \<longleftrightarrow> calls_in_order True calls"
| "calls_in_order key (MapValue _ # calls) \<longleftrightarrow> key \<and> calls_in_order False calls"

fun well_ordered :: "('f, 'g) sdata \<Rightarrow> bool"
  and well_ordered_call :: "('f, 'g) map_call \<Rightarrow> bool"
where
  "well_ordered (SSome d) \<longleftrightarrow> well_ordered d"
| "well_ordered (SNewtypeStruct _ d) \<longleftrightarrow> well_ordered d"
| "well_ordered (SNewtypeVariant _ _ _ d) \<longleftrightarrow> well_ordered d"
| "well_ordered (SSeq ds) \<longleftrightarrow> (\<forall>d\<in>set ds. well_ordered d)"
| "well_ordered (STuple ds) \<longleftrightarrow> (\<forall>d\<in>set ds. well_ordered d)"
| "well_ordered (STupleStruct _ ds) \<longleftrightarrow> (\<forall>d\<in>set ds. well_ordered d)"
| "well_ordered (STupleVariant _ _ _ ds) \<longleftrightarrow> (\<forall>d\<in>set ds. well_ordered d)"
| "well_ordered (SMap calls) \<longleftrightarrow> calls_in_order False calls \<and> (\<forall>c\<in>set calls. well_ordered_call c)"
| "well_ordered (SStruct _ m) \<longleftrightarrow> (\<forall>x\<in>set m. well_ordered (snd x))"
| "well_ordered (SStructVariant _ _ _ m) \<longleftrightarrow> (\<forall>x\<in>set m. well_ordered (snd x))"
| "well_ordered _ \<longleftrightarrow> True"
| "well_ordered_call (MapKey d) \<longleftrightarrow> True"
| "well_ordered_call (MapValue d) \<longleftrightarrow> well_ordered d"

lemma serialize_map_key_sm_key: "serialize_map_key d sm = Inr sm' \<Longrightarrow> sm_key sm' \<noteq> None"
  by (auto simp: serialize_map_key_def result_bind_Inr_iff)

lemma serialize_map_value_Done:
  "sm_key sm \<noteq> None \<Longrightarrow> \<exists>sm'. serialize_map_value v sm = Done sm' \<and> sm_key sm' = None"
  by (auto simp: serialize_map_value_def)

lemma to_value_returns_all:
  "well_ordered d \<Longrightarrow> returns (to_value nums d)"
  "(\<forall>d\<in>set ds. well_ordered d) \<Longrightarrow> returns (serialize_elements nums ds xs)"
  "(\<forall>x\<in>set fs. well_ordered (snd x)) \<Longrightarrow> returns (serialize_fields nums fs m)"
  "calls_in_order (sm_key sm \<noteq> None) calls \<Longrightarrow> (\<forall>c\<in>set calls. well_ordered_call c) \<Longrightarrow>
     returns (serialize_entries nums calls sm)"
proof (induction nums d and nums ds xs and nums fs m and nums calls sm
    rule: to_value_serialize_elements_serialize_fields_serialize_entries.induct)
  case (35 nums key calls sm)
  show ?case
  proof (cases "serialize_map_key key sm")
    case (Inr sm')
    then have "returns (serialize_entries nums calls sm')"
      using serialize_map_key_sm_key [OF Inr] "35.IH" "35.prems" by simp
    then show ?thesis using Inr by simp
  qed simp
next
  case (36 nums v calls sm)
  have v: "returns (to_value nums v)" and order: "calls_in_order False calls" "\<forall>c\<in>set calls. well_ordered_call c"
    using "36.IH"(1) "36.prems" by simp_all
  have "returns (run_bind (serialize_map_value x sm) (serialize_entries nums calls))" for x
  proof -
    obtain sm' where sm': "serialize_map_value x sm = Done sm'" "sm_key sm' = None"
      using serialize_map_value_Done [of sm x] "36.prems" by auto
    then have "returns (serialize_entries nums calls sm')"
      using "36.IH"(2) [OF sm'(1)] order by simp
    then show ?thesis using sm' by simp
  qed
  then show ?case
    using v by (simp add: returns_try_run)
qed (simp_all add: returns_try_run)

theorem to_value_returns: "well_ordered d \<Longrightarrow> returns (to_value nums d)"
  by (rule to_value_returns_all(1))

section \<open>What values are written as\<close>

text \<open>A number is the one its parts build.\<close>

definition numbers_rebuild :: "('f, 'g) json_numbers \<Rightarrow> bool" where
  "numbers_rebuild nums \<longleftrightarrow>
     (\<forall>n. case jn_view nums n of
        ViewU64 v \<Rightarrow> jn_from_u64 nums v = n
      | ViewI64 v \<Rightarrow> jn_from_i64 nums v = n
      | ViewF64 v \<Rightarrow> jn_from_f64 nums v = Some n)"

lemma number_written:
  assumes "numbers_rebuild nums"
  shows "to_value nums (serialize_number nums n) = Done (Inr (CNumber n))"
  using assms [unfolded numbers_rebuild_def, rule_format, of n]
  by (auto simp: serialize_number_def serialize_f64_def split: number_view.splits)

lemma elements_written:
  "\<forall>x\<in>set xs. to_value nums (ser x) = Done (Inr (f x)) \<Longrightarrow>
     serialize_elements nums (map ser xs) ys = Done (Inr (ys @ map f xs))"
  by (induction xs arbitrary: ys) simp_all

lemma alist_insert_fresh: "k \<notin> fst ` set m \<Longrightarrow> alist_insert k v m = m @ [(k, v)]"
  by (induction k v m rule: alist_insert.induct) auto

lemma entries_written:
  assumes "\<forall>x\<in>set m. to_value nums (ser (snd x)) = Done (Inr (f (snd x)))"
    and "distinct (map fst m)" "fst ` set m \<inter> fst ` set m' = {}"
  shows "serialize_entries nums (concat (map (\<lambda>(k, x). serialize_entry (serialize_name k) (ser x)) m))
      \<lparr>sm_map = m', sm_key = None\<rparr> =
    Done (Inr \<lparr>sm_map = m' @ map (\<lambda>(k, x). (k, f x)) m, sm_key = None\<rparr>)"
  using assms
proof (induction m arbitrary: m')
  case (Cons e m)
  obtain k x where e: "e = (k, x)" by (cases e)
  have "alist_insert k (f x) m' = m' @ [(k, f x)]"
    using Cons.prems(3) e by (intro alist_insert_fresh) auto
  then show ?case
    using Cons.prems Cons.IH [of "m' @ [(k, f x)]"]
    by (auto simp: e serialize_entry_def serialize_name_def serialize_map_key_def
        serialize_map_value_def)
qed (simp add: serialize_entry_def)

lemma const_written:
  assumes "numbers_rebuild nums" "distinct_keys c"
  shows "to_value nums (serialize_const nums c) = Done (Inr (enums_as_strings c))"
  using assms(2)
proof (induction c)
  case (CNumber n) then show ?case by (simp add: number_written [OF assms(1)])
next
  case (CList xs)
  then have "\<forall>x\<in>set xs. to_value nums (serialize_const nums x) = Done (Inr (enums_as_strings x))"
    by simp
  from elements_written [OF this, of "[]"] show ?case by simp
next
  case (CObject m)
  then have "\<forall>x\<in>set m. to_value nums (serialize_const nums (snd x)) = Done (Inr (enums_as_strings (snd x)))"
    by (metis distinct_keys.simps(2) snds.intros prod.collapse)
  from entries_written [OF this, of "[]"] show ?case
    using CObject.prems by simp
qed simp_all

section \<open>Reading values back\<close>

lemma elements_read:
  "\<forall>x\<in>set xs. f x = Inr (g x) \<Longrightarrow> visit_elements f xs ys = (Inr (ys @ map g xs), [])"
  by (induction xs arbitrary: ys) (simp_all add: visit_elements_simps)

lemma elements_read_iff:
  "fst (visit_elements f xs ys) = Inr zs \<longleftrightarrow> (\<exists>us. zs = ys @ us \<and> map f xs = map Inr us)"
proof (induction xs arbitrary: ys)
  case (Cons x xs)
  show ?case
    by (cases "f x") (auto simp: visit_elements_simps Cons.IH Cons_eq_map_conv)
qed (auto simp: visit_elements_simps)

lemma visit_elements_rest: "visit_elements f xs ys = (Inr zs, rest) \<Longrightarrow> rest = []"
  by (induction xs arbitrary: ys) (auto simp: visit_elements_simps split: sum.splits)

lemma entries_read:
  assumes "\<forall>x\<in>set es. f (snd x) = Inr (g (snd x))"
    and "distinct (map fst es)" "fst ` set es \<inter> fst ` set m = {}"
  shows "\<exists>md. visit_entries f \<lparr>md_iter = es, md_value = w\<rparr> m =
    (Inr (CObject (m @ map (\<lambda>(k, x). (k, g x)) es)), md) \<and> md_iter md = []"
  using assms
proof (induction es arbitrary: m w)
  case (Cons e es)
  obtain k v where e: "e = (k, v)" by (cases e)
  have "alist_insert k (g v) m = m @ [(k, g v)]"
    using Cons.prems(3) e by (intro alist_insert_fresh) auto
  then show ?case
    using Cons.prems Cons.IH [of "m @ [(k, g v)]" None] by (auto simp: e visit_entries_simps)
qed (simp add: visit_entries_simps)

lemma const_from_value_unfold:
  "const_from_value nums v = const_any nums (const_from_value nums) v"
  by (subst const_from_value.simps) simp

lemma value_from_value_unfold:
  "value_from_value nums v = value_any nums (value_from_value nums) v"
  by (subst value_from_value.simps) simp

lemma const_read_back:
  assumes "numbers_rebuild nums" "distinct_keys c"
  shows "const_from_value nums c = Inr (enums_as_strings c)"
  using assms(2)
proof (induction c)
  case (CNumber n)
  show ?case
    using assms(1) [unfolded numbers_rebuild_def, rule_format, of n]
    by (auto simp: const_from_value_unfold [of nums "CNumber n"] const_any_def const_visitor_def
        deserialize_number_def split: number_view.splits)
next
  case (CList xs)
  then have "\<forall>x\<in>set xs. const_from_value nums x = Inr (enums_as_strings x)" by simp
  from elements_read [OF this, of "[]"] show ?case
    by (simp add: const_from_value_unfold [of nums "CList xs"] const_any_def const_visitor_def
        visit_array_def seq_deserializer_new_def)
next
  case (CObject m)
  then have "\<forall>x\<in>set m. const_from_value nums (snd x) = Inr (enums_as_strings (snd x))"
    by (metis distinct_keys.simps(2) snds.intros prod.collapse)
  from entries_read [OF this, of "[]" None] show ?case
    using CObject.prems
    by (auto simp: const_from_value_unfold [of nums "CObject m"] const_any_def const_visitor_def
        visit_object_def map_deserializer_new_def)
qed (simp_all add: const_from_value_unfold [of nums CNull] const_from_value_unfold [of nums "CString s" for s]
    const_from_value_unfold [of nums "CBoolean b" for b] const_from_value_unfold [of nums "CBinary b" for b]
    const_from_value_unfold [of nums "CEnum e" for e] const_any_def const_visitor_def)

lemma enums_as_strings_idem [simp]: "enums_as_strings (enums_as_strings c) = enums_as_strings c"
  by (induction c) auto

lemma distinct_enums_as_strings [simp]: "distinct_keys (enums_as_strings c) \<longleftrightarrow> distinct_keys c"
proof (induction c)
  case (CObject m)
  have IH: "distinct_keys (enums_as_strings (snd x)) \<longleftrightarrow> distinct_keys (snd x)" if "x \<in> set m" for x
    using CObject.IH [OF that] by (simp add: snds.simps)
  have "map fst (map (\<lambda>(k, x). (k, enums_as_strings x)) m) = map fst m" by (induction m) auto
  moreover have "(\<forall>x\<in>set (map (\<lambda>(k, x). (k, enums_as_strings x)) m). distinct_keys (snd x)) \<longleftrightarrow>
      (\<forall>x\<in>set m. distinct_keys (snd x))"
    using IH by (simp add: split_beta)
  ultimately show ?case
    by (simp only: enums_as_strings.simps distinct_keys.simps)
qed auto

lemma canonical_enums_as_strings: "canonical (enums_as_strings c) = canonical c"
proof (induction c)
  case (CObject m)
  have "canonical (enums_as_strings (snd x)) = canonical (snd x)" if "x \<in> set m" for x
    using CObject.IH [OF that] by (simp add: snds.simps)
  then have "map (\<lambda>(k, v). (k, canonical v)) (map (\<lambda>(k, x). (k, enums_as_strings x)) m) =
      map (\<lambda>(k, v). (k, canonical v)) m"
    by (simp add: split_beta)
  then show ?case by (simp only: enums_as_strings.simps canonical.simps)
qed simp_all

section \<open>Values with variables\<close>

text \<open>
  A value as the serializer writes it (a variable is an object with the single entry \<open>$var\<close>), and
  with its enum values as strings. A value mimics a variable when one of its objects has an entry
  \<open>$var\<close> that is a string or an enum value.
\<close>

fun value_written :: "gvalue \<Rightarrow> const_value" where
  "value_written (VVariable n) = CObject [(''$var'', CString n)]"
| "value_written VNull = CNull"
| "value_written (VNumber v) = CNumber v"
| "value_written (VString v) = CString v"
| "value_written (VBoolean v) = CBoolean v"
| "value_written (VBinary v) = CBinary v"
| "value_written (VEnum v) = CString v"
| "value_written (VList v) = CList (map value_written v)"
| "value_written (VObject v) = CObject (map (\<lambda>(k, x). (k, value_written x)) v)"

fun value_strings :: "gvalue \<Rightarrow> gvalue" where
  "value_strings (VEnum v) = VString v"
| "value_strings (VList v) = VList (map value_strings v)"
| "value_strings (VObject v) = VObject (map (\<lambda>(k, x). (k, value_strings x)) v)"
| "value_strings v = v"

fun is_text :: "gvalue \<Rightarrow> bool" where
  "is_text (VString _) \<longleftrightarrow> True"
| "is_text (VEnum _) \<longleftrightarrow> True"
| "is_text _ \<longleftrightarrow> False"

fun mimics_variable :: "gvalue \<Rightarrow> bool" where
  "mimics_variable (VList v) \<longleftrightarrow> (\<exists>x\<in>set v. mimics_variable x)"
| "mimics_variable (VObject v) \<longleftrightarrow>
     (\<exists>x\<in>set v. fst x = ''$var'' \<and> is_text (snd x) \<or> mimics_variable (snd x))"
| "mimics_variable _ \<longleftrightarrow> False"

fun distinct_value_keys :: "gvalue \<Rightarrow> bool" where
  "distinct_value_keys (VList v) \<longleftrightarrow> (\<forall>x\<in>set v. distinct_value_keys x)"
| "distinct_value_keys (VObject v) \<longleftrightarrow> distinct (map fst v) \<and> (\<forall>x\<in>set v. distinct_value_keys (snd x))"
| "distinct_value_keys _ \<longleftrightarrow> True"

lemma is_text_strings: "is_text (value_strings v) \<longleftrightarrow> is_text v"
  by (cases v) simp_all

lemma gvalue_written:
  assumes "numbers_rebuild nums" "distinct_value_keys v"
  shows "to_value nums (serialize_gvalue nums v) = Done (Inr (value_written v))"
  using assms(2)
proof (induction v)
  case (VVariable n)
  then show ?case
    by (simp add: serde_variable_def serialize_entry_def serialize_name_def serialize_map_key_def
        serialize_map_value_def)
next
  case (VNumber n) then show ?case by (simp add: number_written [OF assms(1)])
next
  case (VList xs)
  then have "\<forall>x\<in>set xs. to_value nums (serialize_gvalue nums x) = Done (Inr (value_written x))"
    by simp
  from elements_written [OF this, of "[]"] show ?case by simp
next
  case (VObject m)
  then have "\<forall>x\<in>set m. to_value nums (serialize_gvalue nums (snd x)) = Done (Inr (value_written (snd x)))"
    by (metis distinct_value_keys.simps(2) snds.intros prod.collapse)
  from entries_written [OF this, of "[]"] show ?case
    using VObject.prems by simp
qed simp_all

text \<open>The loop over the entries answers an object exactly when no entry stops it.\<close>

lemma value_entries_step:
  "visit_value_entries seed \<lparr>md_iter = (k, v) # es, md_value = w\<rparr> m =
     (case seed v of
        Inl e \<Rightarrow> (Inl e, \<lparr>md_iter = es, md_value = None\<rparr>)
      | Inr x \<Rightarrow>
          if k = ''$var'' \<and> (\<exists>n. x = VString n)
          then (Inr (VVariable (case x of VString n \<Rightarrow> n)), \<lparr>md_iter = es, md_value = None\<rparr>)
          else visit_value_entries seed \<lparr>md_iter = es, md_value = None\<rparr> (alist_insert k x m))"
  by (simp add: visit_value_entries_simps split: sum.split gvalue.split)

lemma value_entries_object:
  assumes "distinct (map fst es)" "fst ` set es \<inter> fst ` set m = {}"
  shows "fst (visit_value_entries f \<lparr>md_iter = es, md_value = w\<rparr> m) = Inr (VObject m') \<longleftrightarrow>
    (\<exists>ys. m' = m @ ys \<and>
       map (\<lambda>(k, x). (k, f x)) es = map (\<lambda>(k, y). (k, Inr y)) ys \<and>
       \<not> (\<exists>y\<in>set ys. fst y = ''$var'' \<and> (\<exists>n. snd y = VString n)))"
  using assms
proof (induction es arbitrary: m w)
  case (Cons e es)
  obtain k v where e: "e = (k, v)" by (cases e)
  show ?case
  proof (cases "f v")
    case (Inr x)
    have "alist_insert k x m = m @ [(k, x)]"
      using Cons.prems(2) e by (intro alist_insert_fresh) auto
    moreover have "distinct (map fst es)" "fst ` set es \<inter> fst ` set (m @ [(k, x)]) = {}"
      using Cons.prems e by auto
    ultimately show ?thesis
      using Cons.IH [of "m @ [(k, x)]" None] Inr
      by (auto simp: e value_entries_step Cons_eq_map_conv)
  qed (auto simp: e value_entries_step Cons_eq_map_conv)
qed (auto simp: visit_value_entries_simps)

lemma value_entries_rest:
  "visit_value_entries f \<lparr>md_iter = es, md_value = w\<rparr> m = (Inr (VObject m'), md) \<Longrightarrow> md_iter md = []"
  by (induction es arbitrary: m w) (auto simp: visit_value_entries_simps(1) value_entries_step
      split: sum.splits if_splits)

lemma value_list_read:
  "value_from_value nums (CList xs) = Inr (VList ys) \<longleftrightarrow> map (value_from_value nums) xs = map Inr ys"
proof -
  have "value_from_value nums (CList xs) = Inr (VList ys) \<longleftrightarrow>
      fst (visit_elements (value_from_value nums) xs []) = Inr ys"
    by (auto simp: value_from_value_unfold [of nums "CList xs"] value_any_def value_visitor_def
        visit_array_def seq_deserializer_new_def dest: visit_elements_rest split: prod.split sum.split)
  then show ?thesis by (simp add: elements_read_iff)
qed

lemma value_object_read:
  assumes "distinct (map fst es)"
  shows "value_from_value nums (CObject es) = Inr (VObject ys) \<longleftrightarrow>
    map (\<lambda>(k, x). (k, value_from_value nums x)) es = map (\<lambda>(k, y). (k, Inr y)) ys \<and>
    \<not> (\<exists>y\<in>set ys. fst y = ''$var'' \<and> (\<exists>n. snd y = VString n))"
proof -
  have "value_from_value nums (CObject es) = Inr (VObject ys) \<longleftrightarrow>
      fst (visit_value_entries (value_from_value nums) \<lparr>md_iter = es, md_value = None\<rparr> []) = Inr (VObject ys)"
    by (auto simp: value_from_value_unfold [of nums "CObject es"] value_any_def value_visitor_def
        visit_object_def map_deserializer_new_def dest: value_entries_rest split: prod.split sum.split)
  then show ?thesis
    using value_entries_object [OF assms, of "[]"] by simp
qed

lemma value_strings_text: "(\<exists>n. value_strings v = VString n) \<longleftrightarrow> is_text v"
  by (cases v) simp_all

lemma value_read_back:
  assumes "numbers_rebuild nums" "distinct_value_keys v"
  shows "value_from_value nums (value_written v) = Inr (value_strings v) \<longleftrightarrow> \<not> mimics_variable v"
  using assms(2)
proof (induction v)
  case (VVariable n)
  have "value_from_value nums (CString n) = Inr (VString n)"
    by (simp add: value_from_value_unfold [of nums "CString n"] value_any_def value_visitor_def)
  then show ?case
    by (simp add: value_from_value_unfold [of nums "CObject m" for m] value_any_def value_visitor_def
        visit_object_def map_deserializer_new_def visit_value_entries_simps)
next
  case (VNumber n)
  show ?case
    using assms(1) [unfolded numbers_rebuild_def, rule_format, of n]
    by (auto simp: value_from_value_unfold [of nums "CNumber n"] value_any_def value_visitor_def
        deserialize_number_def split: number_view.splits)
next
  case (VList xs)
  have IH: "value_from_value nums (value_written x) = Inr (value_strings x) \<longleftrightarrow> \<not> mimics_variable x"
    if "x \<in> set xs" for x
    using VList that by simp
  show ?case
    by (simp add: value_list_read list_eq_iff_nth_eq) (metis IH in_set_conv_nth)
next
  case (VObject m)
  have IH: "value_from_value nums (value_written (snd x)) = Inr (value_strings (snd x)) \<longleftrightarrow>
      \<not> mimics_variable (snd x)" if "x \<in> set m" for x
    using VObject.IH [OF that] VObject.prems that by (simp add: snds.simps)
  let ?w = "map (\<lambda>(k, x). (k, value_written x)) m"
  have "map fst ?w = map fst m" by (induction m) auto
  then have dist: "distinct (map fst ?w)"
    using VObject.prems by (simp only: distinct_value_keys.simps)
  have "map (\<lambda>(k, x). (k, value_from_value nums x)) ?w =
      map (\<lambda>(k, y). (k, Inr y)) (map (\<lambda>(k, x). (k, value_strings x)) m) \<longleftrightarrow>
      (\<forall>x\<in>set m. \<not> mimics_variable (snd x))"
    using IH by (simp add: split_beta)
  moreover have "(\<exists>y\<in>set (map (\<lambda>(k, x). (k, value_strings x)) m). fst y = ''$var'' \<and> (\<exists>n. snd y = VString n)) \<longleftrightarrow>
      (\<exists>x\<in>set m. fst x = ''$var'' \<and> is_text (snd x))"
    by (simp add: split_beta value_strings_text)
  ultimately show ?case
    unfolding value_written.simps value_strings.simps mimics_variable.simps value_object_read [OF dist]
    by blast
qed (simp_all add: value_from_value_unfold [of nums CNull] value_from_value_unfold [of nums "CString s" for s]
    value_from_value_unfold [of nums "CBoolean b" for b] value_from_value_unfold [of nums "CBinary b" for b]
    value_any_def value_visitor_def)

section \<open>Variants of an enum\<close>

text \<open>
  What the serializer writes for a variant is what \<open>deserialize_enum\<close> hands to the visitor of the
  enum, with the contents of the variant.
\<close>

theorem variant_read_back:
  "to_value nums (SUnitVariant en i variant) = Done (Inr v) \<Longrightarrow>
     deserialize_enum v visitor = visit_enum visitor \<lparr>ed_variant = variant, ed_value = None\<rparr>"
  "to_value nums (SNewtypeVariant en i variant d) = Done (Inr v) \<Longrightarrow>
     \<exists>x. to_value nums d = Done (Inr x) \<and>
       deserialize_enum v visitor = visit_enum visitor \<lparr>ed_variant = variant, ed_value = Some x\<rparr>"
  "to_value nums (STupleVariant en i variant ds) = Done (Inr v) \<Longrightarrow>
     \<exists>x. to_value nums (STuple ds) = Done (Inr x) \<and>
       deserialize_enum v visitor = visit_enum visitor \<lparr>ed_variant = variant, ed_value = Some x\<rparr>"
  "to_value nums (SStructVariant en i variant fs) = Done (Inr v) \<Longrightarrow>
     \<exists>x. to_value nums (SStruct en fs) = Done (Inr x) \<and>
       deserialize_enum v visitor = visit_enum visitor \<lparr>ed_variant = variant, ed_value = Some x\<rparr>"
  by (auto simp: deserialize_enum_def single_entry_def try_run_Inr_iff)

text \<open>
  The contents of a tuple variant reach the visitor as a sequence, but for a variant without fields:
  its visitor is told of a unit.
\<close>

theorem tuple_variant_contents:
  "tuple_variant (Some (CList xs)) visitor =
     (if xs = [] then visit_unit visitor else visit_array xs visitor)"
  by (simp add: tuple_variant_def deserialize_seq_def visit_array_def seq_deserializer_new_def Let_def)

text \<open>A text entry \<open>$var\<close> that stands last makes the whole object a variable.\<close>

lemma visit_value_entries_prefix:
  assumes "\<forall>x\<in>set es. \<exists>y. f (snd x) = Inr y" "''$var'' \<notin> fst ` set es"
  shows "\<exists>m'. visit_value_entries f \<lparr>md_iter = es @ rest, md_value = w\<rparr> m =
    visit_value_entries f \<lparr>md_iter = rest, md_value = (if es = [] then w else None)\<rparr> m'"
  using assms
proof (induction es arbitrary: m w)
  case (Cons e es)
  obtain k v where e: "e = (k, v)" by (cases e)
  obtain x where x: "f v = Inr x" using Cons.prems(1) e by auto
  have "k \<noteq> ''$var''" using Cons.prems(2) e by auto
  then show ?case
    using Cons.IH [of None "alist_insert k x m"] Cons.prems x by (auto simp: e value_entries_step)
qed auto

theorem variable_entry_last:
  assumes "\<forall>x\<in>set es. \<exists>y. value_from_value nums (snd x) = Inr y" "''$var'' \<notin> fst ` set es"
  shows "value_from_value nums (CObject (es @ [(''$var'', CString n)])) = Inr (VVariable n)"
proof -
  have "value_from_value nums (CString n) = Inr (VString n)"
    by (simp add: value_from_value_unfold [of nums "CString n"] value_any_def value_visitor_def)
  then have "visit_value_entries (value_from_value nums) \<lparr>md_iter = [(''$var'', CString n)], md_value = w\<rparr> m =
      (Inr (VVariable n), \<lparr>md_iter = [], md_value = None\<rparr>)" for w m
    by (simp add: value_entries_step)
  then show ?thesis
    using visit_value_entries_prefix [of es "value_from_value nums" "[(''$var'', CString n)]" None "[]"] assms
    by (auto simp: value_from_value_unfold [of nums "CObject m" for m] value_any_def value_visitor_def
        visit_object_def map_deserializer_new_def)
qed

section \<open>Serialization as a whole\<close>

text \<open>
  A number as one of three ranges of codes: the unsigned integers, the negative integers, and the
  floating point numbers, here natural numbers and one that is not finite.
\<close>

definition sample_json_numbers :: "(nat option, nat option) json_numbers" where
  "sample_json_numbers =
     \<lparr>jn_view = (\<lambda>n. let c = number_code n in
        if c < 2 ^ 64 then ViewU64 (word_of_nat c)
        else if c < 2 ^ 64 + 2 ^ 63 then ViewI64 (word_of_nat (c - 2 ^ 63))
        else ViewF64 (Some (c - (2 ^ 64 + 2 ^ 63)))),
      jn_from_i64 = (\<lambda>v. if unat v < 2 ^ 63 then Number (unat v) else Number (2 ^ 63 + unat v)),
      jn_from_u64 = (\<lambda>v. Number (unat v)),
      jn_from_f64 = map_option (\<lambda>k. Number (2 ^ 64 + 2 ^ 63 + k)),
      jn_widen = (\<lambda>v. v)\<rparr>"

lemma sample_numbers_rebuild: "numbers_rebuild sample_json_numbers"
proof -
  have word: "unat (word_of_nat k :: 64 word) = k" if "k < 2 ^ 64" for k
    using that by (simp add: unat_of_nat take_bit_nat_eq_self)
  have "case jn_view sample_json_numbers (Number c) of
        ViewU64 v \<Rightarrow> jn_from_u64 sample_json_numbers v = Number c
      | ViewI64 v \<Rightarrow> jn_from_i64 sample_json_numbers v = Number c
      | ViewF64 v \<Rightarrow> jn_from_f64 sample_json_numbers v = Some (Number c)" for c
    using word [of c] word [of "c - 2 ^ 63"]
    by (auto simp: sample_json_numbers_def Let_def simp del: of_nat_diff of_nat_diff_if)
  then show ?thesis
    unfolding numbers_rebuild_def by (metis number.exhaust)
qed

text \<open>C19: whatever a serializable value calls, in maps with a key before each value, \<open>to_value\<close>
  returns; and the constant it returns has distinct keys and no enum value, and is deserialized as a
  constant to itself.\<close>

theorem serialized_constants_stable:
  assumes "numbers_rebuild nums" "well_ordered d"
  shows "\<exists>r. to_value nums d = Done r \<and>
    (\<forall>v. r = Inr v \<longrightarrow> distinct_keys v \<and> enums_as_strings v = v \<and> const_from_value nums v = Inr v)"
proof -
  obtain r where r: "to_value nums d = Done r"
    using to_value_returns [OF assms(2), of nums] by (auto simp: returns_iff)
  have "distinct_keys v \<and> enums_as_strings v = v \<and> const_from_value nums v = Inr v" if "r = Inr v" for v
    using to_value_plain(1) [of nums d v] const_read_back [OF assms(1), of v] r that
    by (simp add: plain_const_def)
  then show ?thesis using r by blast
qed

lemma serialized_constants_stable_witness:
  "const_from_value sample_json_numbers (CObject [(''a'', CList [CNull, CString ''V''])]) =
     Inr (CObject [(''a'', CList [CNull, CString ''V''])])"
proof -
  let ?d = "SMap [MapKey (SStr ''a''), MapValue (STuple [SUnit, SUnitVariant ''E'' 0 ''V''])]"
  have "well_ordered ?d" by simp
  from serialized_constants_stable [OF sample_numbers_rebuild this] show ?thesis
    by (simp add: serialize_map_key_def serialize_map_value_def)
qed

text \<open>A constant is serialized to a constant that the code takes for equal, with its enum values as
  strings, and that is what it is deserialized to.\<close>

theorem constants_serialized_back:
  assumes "numbers_rebuild nums" "distinct_keys c"
  shows "\<exists>w. to_value nums (serialize_const nums c) = Done (Inr w) \<and> const_value_eq w c \<and>
    const_from_value nums w = Inr w \<and> const_from_value nums c = Inr w"
  using const_written [OF assms] const_read_back [OF assms]
    const_read_back [OF assms(1), of "enums_as_strings c"] assms(2)
  by (auto simp: const_value_eq_canonical' canonical_enums_as_strings)

lemma constants_serialized_back_witness:
  "const_from_value sample_json_numbers (CList [CEnum ''A'', CNumber (Number 7)]) =
     Inr (CList [CString ''A'', CNumber (Number 7)])"
proof -
  have "distinct_keys (CList [CEnum ''A'', CNumber (Number 7)])" by simp
  from constants_serialized_back [OF sample_numbers_rebuild this] show ?thesis
    by (auto simp: serialize_number_def sample_json_numbers_def)
qed

text \<open>C18: a value with variables is serialized, and deserialized to the same value, with its enum values
  as strings, exactly when none of its objects has a text entry \<open>$var\<close>.\<close>

theorem values_serialized_back:
  assumes "numbers_rebuild nums" "distinct_value_keys v"
  shows "\<exists>w. to_value nums (serialize_gvalue nums v) = Done (Inr w) \<and>
    (value_from_value nums w = Inr (value_strings v) \<longleftrightarrow> \<not> mimics_variable v)"
  using gvalue_written [OF assms] value_read_back [OF assms] by blast

lemma values_serialized_back_witness:
  "value_from_value sample_json_numbers (CList [CObject [(''$var'', CString ''x'')], CNumber (Number 7)]) =
     Inr (VList [VVariable ''x'', VNumber (Number 7)])"
proof -
  have "distinct_value_keys (VList [VVariable ''x'', VNumber (Number 7)])" by simp
  from values_serialized_back [OF sample_numbers_rebuild this] show ?thesis
    by (simp add: serialize_number_def sample_json_numbers_def serde_variable_def serialize_entry_def
        serialize_name_def serialize_map_key_def serialize_map_value_def)
qed

end
