(* ===== verification/Dynamic_Types.thy ===== *)
theory Dynamic_Types
  imports Registry_Usage
begin

text \<open>
  The types of a dynamic schema (\<open>src/dynamic\<close>): references to types, the types a user builds at run time
  and what each registers in the registry. The resolver of a field is a value of a type of its own, \<open>'r\<close> for
  fields and \<open>'s\<close> for the fields of subscriptions. A builder that asserts panics.
\<close>

subsection \<open>Type references\<close>

datatype type_ref = TRNamed string | TRNonNull type_ref | TRList type_ref

fun show_type_ref :: "type_ref \<Rightarrow> string" where
  "show_type_ref (TRNamed n) = n"
| "show_type_ref (TRNonNull t) = show_type_ref t @ ''!''"
| "show_type_ref (TRList t) = ''['' @ show_type_ref t @ '']''"

definition named_nn :: "string \<Rightarrow> type_ref" where
  "named_nn n = TRNonNull (TRNamed n)"

definition named_list :: "string \<Rightarrow> type_ref" where
  "named_list n = TRList (TRNamed n)"

definition named_nn_list :: "string \<Rightarrow> type_ref" where
  "named_nn_list n = TRList (TRNonNull (TRNamed n))"

definition named_list_nn :: "string \<Rightarrow> type_ref" where
  "named_list_nn n = TRNonNull (TRList (TRNamed n))"

definition named_nn_list_nn :: "string \<Rightarrow> type_ref" where
  "named_nn_list_nn n = TRNonNull (TRList (TRNonNull (TRNamed n)))"

fun tr_type_name :: "type_ref \<Rightarrow> string" where
  "tr_type_name (TRNamed n) = n"
| "tr_type_name (TRNonNull t) = tr_type_name t"
| "tr_type_name (TRList t) = tr_type_name t"

fun tr_is_nullable :: "type_ref \<Rightarrow> bool" where
  "tr_is_nullable (TRNamed _) = True"
| "tr_is_nullable (TRNonNull _) = False"
| "tr_is_nullable (TRList _) = True"

text \<open>The first argument is the type that \<open>sub\<close> is to be a subtype of.\<close>

fun tr_is_subtype :: "type_ref \<Rightarrow> type_ref \<Rightarrow> bool" where
  "tr_is_subtype (TRNonNull super_type) (TRNonNull sub_type) = tr_is_subtype super_type sub_type"
| "tr_is_subtype cur (TRNonNull sub_type) = tr_is_subtype cur sub_type"
| "tr_is_subtype (TRNamed super_type) (TRNamed sub_type) = (super_type = sub_type)"
| "tr_is_subtype (TRList super_type) (TRList sub_type) = tr_is_subtype super_type sub_type"
| "tr_is_subtype _ _ = False"

subsection \<open>Directives and input values\<close>

record dyn_directive =
  dd_name :: string
  dd_args :: "(string \<times> const_value) list"

definition dyn_directive_new :: "string \<Rightarrow> dyn_directive" where
  "dyn_directive_new n = \<lparr>dd_name = n, dd_args = []\<rparr>"

definition dyn_directive_argument :: "string \<Rightarrow> const_value \<Rightarrow> dyn_directive \<Rightarrow> dyn_directive" where
  "dyn_directive_argument n v d = d\<lparr>dd_args := alist_insert n v (dd_args d)\<rparr>"

definition to_meta_directive_invocation :: "dyn_directive list \<Rightarrow> directive_invocation list" where
  "to_meta_directive_invocation = map (\<lambda>d. \<lparr>di_name = dd_name d, di_args = dd_args d\<rparr>)"

record dyn_input_value =
  dv_name :: string
  dv_description :: "string option"
  dv_ty :: type_ref
  dv_default_value :: "const_value option"
  dv_inaccessible :: bool
  dv_tags :: "string list"
  dv_directives :: "dyn_directive list"
  dv_deprecation :: deprecation

definition dyn_input_value_new :: "string \<Rightarrow> type_ref \<Rightarrow> dyn_input_value" where
  "dyn_input_value_new n ty =
     \<lparr>dv_name = n, dv_description = None, dv_ty = ty, dv_default_value = None, dv_inaccessible = False,
      dv_tags = [], dv_directives = [], dv_deprecation = NoDeprecated\<rparr>"

definition to_meta_input_value :: "(number \<Rightarrow> string) \<Rightarrow> dyn_input_value \<Rightarrow> meta_input_value" where
  "to_meta_input_value show_num v =
     \<lparr>mi_name = dv_name v, mi_description = dv_description v, mi_ty = show_type_ref (dv_ty v),
      mi_deprecation = dv_deprecation v,
      mi_default_value = map_option (show_const_value show_num) (dv_default_value v),
      mi_visible = None, mi_inaccessible = dv_inaccessible v, mi_tags = dv_tags v, mi_is_secret = False,
      mi_directive_invocations = to_meta_directive_invocation (dv_directives v)\<rparr>"

text \<open>The loop over the values of a map that builds a map again, keyed by the names.\<close>

definition keyed_by :: "('a \<Rightarrow> string) \<Rightarrow> ('a \<Rightarrow> 'b) \<Rightarrow> (string \<times> 'a) list \<Rightarrow> (string \<times> 'b) list" where
  "keyed_by key f m = fold (\<lambda>(_, x). alist_insert (key x) (f x)) m []"

subsection \<open>Fields\<close>

record 'r dyn_field =
  df_name :: string
  df_description :: "string option"
  df_arguments :: "(string \<times> dyn_input_value) list"
  df_ty :: type_ref
  df_ty_str :: string
  df_resolver_fn :: 'r
  df_deprecation :: deprecation
  df_external :: bool
  df_requires :: "string option"
  df_provides :: "string option"
  df_shareable :: bool
  df_inaccessible :: bool
  df_tags :: "string list"
  df_override_from :: "string option"
  df_directives :: "dyn_directive list"
  df_requires_scopes :: "string list"
  df_semantic_nullability :: semantic_nullability
  df_depth_cost :: usize

definition dyn_field_new :: "string \<Rightarrow> type_ref \<Rightarrow> 'r \<Rightarrow> 'r dyn_field" where
  "dyn_field_new n ty resolver =
     \<lparr>df_name = n, df_description = None, df_arguments = [], df_ty = ty, df_ty_str = show_type_ref ty,
      df_resolver_fn = resolver, df_deprecation = NoDeprecated, df_external = False, df_requires = None,
      df_provides = None, df_shareable = False, df_inaccessible = False, df_tags = [], df_override_from = None,
      df_directives = [], df_requires_scopes = [], df_semantic_nullability = SNNone, df_depth_cost = 1\<rparr>"

definition dyn_field_argument :: "dyn_input_value \<Rightarrow> 'r dyn_field \<Rightarrow> 'r dyn_field" where
  "dyn_field_argument v f = f\<lparr>df_arguments := alist_insert (dv_name v) v (df_arguments f)\<rparr>"

text \<open>An \<open>InterfaceField\<close> is a field without a resolver.\<close>

type_synonym dyn_interface_field = "unit dyn_field"

definition dyn_interface_field_new :: "string \<Rightarrow> type_ref \<Rightarrow> dyn_interface_field" where
  "dyn_interface_field_new n ty = dyn_field_new n ty ()"

definition dyn_meta_field :: "(number \<Rightarrow> string) \<Rightarrow> 'r dyn_field \<Rightarrow> meta_field" where
  "dyn_meta_field show_num f =
     \<lparr>mf_name = df_name f, mf_description = df_description f,
      mf_args = keyed_by dv_name (to_meta_input_value show_num) (df_arguments f),
      mf_ty = show_type_ref (df_ty f), mf_deprecation = df_deprecation f,
      mf_cache_control = default_cache_control, mf_external = df_external f, mf_requires = df_requires f,
      mf_provides = df_provides f, mf_visible = None, mf_shareable = df_shareable f,
      mf_inaccessible = df_inaccessible f, mf_tags = df_tags f, mf_override_from = df_override_from f,
      mf_compute_complexity = None, mf_directive_invocations = to_meta_directive_invocation (df_directives f),
      mf_requires_scopes = df_requires_scopes f, mf_semantic_nullability = df_semantic_nullability f,
      mf_depth_cost = df_depth_cost f\<rparr>"

record 's dyn_subscription_field =
  ds_name :: string
  ds_description :: "string option"
  ds_arguments :: "(string \<times> dyn_input_value) list"
  ds_ty :: type_ref
  ds_resolver_fn :: 's
  ds_deprecation :: deprecation
  ds_semantic_nullability :: semantic_nullability
  ds_depth_cost :: usize

definition dyn_subscription_field_new :: "string \<Rightarrow> type_ref \<Rightarrow> 's \<Rightarrow> 's dyn_subscription_field" where
  "dyn_subscription_field_new n ty resolver =
     \<lparr>ds_name = n, ds_description = None, ds_arguments = [], ds_ty = ty, ds_resolver_fn = resolver,
      ds_deprecation = NoDeprecated, ds_semantic_nullability = SNNone, ds_depth_cost = 1\<rparr>"

definition dyn_subscription_field_argument ::
  "dyn_input_value \<Rightarrow> 's dyn_subscription_field \<Rightarrow> 's dyn_subscription_field"
where
  "dyn_subscription_field_argument v f = f\<lparr>ds_arguments := alist_insert (dv_name v) v (ds_arguments f)\<rparr>"

definition dyn_subscription_meta_field :: "(number \<Rightarrow> string) \<Rightarrow> 's dyn_subscription_field \<Rightarrow> meta_field" where
  "dyn_subscription_meta_field show_num f =
     (meta_field_new (ds_name f) (show_type_ref (ds_ty f)))
       \<lparr>mf_description := ds_description f,
        mf_args := keyed_by dv_name (to_meta_input_value show_num) (ds_arguments f),
        mf_deprecation := ds_deprecation f, mf_semantic_nullability := ds_semantic_nullability f,
        mf_depth_cost := ds_depth_cost f\<rparr>"

subsection \<open>Types\<close>

record dyn_scalar =
  dsc_name :: string
  dsc_description :: "string option"
  dsc_specified_by_url :: "string option"
  dsc_validator :: "(const_value \<Rightarrow> bool) option"
  dsc_inaccessible :: bool
  dsc_tags :: "string list"
  dsc_directives :: "dyn_directive list"
  dsc_requires_scopes :: "string list"

record 'r dyn_object =
  do_name :: string
  do_description :: "string option"
  do_fields :: "(string \<times> 'r dyn_field) list"
  do_implements :: "string list"
  do_keys :: "string list"
  do_extends :: bool
  do_shareable :: bool
  do_resolvable :: bool
  do_inaccessible :: bool
  do_interface_object :: bool
  do_tags :: "string list"
  do_directives :: "dyn_directive list"
  do_requires_scopes :: "string list"

record dyn_input_object =
  dio_name :: string
  dio_description :: "string option"
  dio_fields :: "(string \<times> dyn_input_value) list"
  dio_oneof :: bool
  dio_inaccessible :: bool
  dio_tags :: "string list"
  dio_directives :: "dyn_directive list"

record dyn_enum_item =
  dei_name :: string
  dei_description :: "string option"
  dei_deprecation :: deprecation
  dei_inaccessible :: bool
  dei_tags :: "string list"
  dei_directives :: "dyn_directive list"

record dyn_enum =
  den_name :: string
  den_description :: "string option"
  den_enum_values :: "(string \<times> dyn_enum_item) list"
  den_inaccessible :: bool
  den_tags :: "string list"
  den_directives :: "dyn_directive list"
  den_requires_scopes :: "string list"

record dyn_interface =
  din_name :: string
  din_description :: "string option"
  din_fields :: "(string \<times> dyn_interface_field) list"
  din_implements :: "string list"
  din_keys :: "string list"
  din_extends :: bool
  din_inaccessible :: bool
  din_tags :: "string list"
  din_directives :: "dyn_directive list"
  din_requires_scopes :: "string list"

record dyn_union =
  dun_name :: string
  dun_description :: "string option"
  dun_possible_types :: "string list"
  dun_inaccessible :: bool
  dun_tags :: "string list"
  dun_directives :: "dyn_directive list"

record 's dyn_subscription =
  dsu_name :: string
  dsu_description :: "string option"
  dsu_fields :: "(string \<times> 's dyn_subscription_field) list"

datatype ('r, 's) dyn_type =
    DScalar dyn_scalar
  | DObject "'r dyn_object"
  | DInputObject dyn_input_object
  | DEnum dyn_enum
  | DInterface dyn_interface
  | DUnion dyn_union
  | DSubscription "'s dyn_subscription"
  | DUpload

fun dt_name :: "('r, 's) dyn_type \<Rightarrow> string" where
  "dt_name (DScalar t) = dsc_name t"
| "dt_name (DObject t) = do_name t"
| "dt_name (DInputObject t) = dio_name t"
| "dt_name (DEnum t) = den_name t"
| "dt_name (DInterface t) = din_name t"
| "dt_name (DUnion t) = dun_name t"
| "dt_name (DSubscription t) = dsu_name t"
| "dt_name DUpload = ''Upload''"

fun as_object :: "('r, 's) dyn_type \<Rightarrow> 'r dyn_object option" where
  "as_object (DObject t) = Some t"
| "as_object _ = None"

fun as_interface :: "('r, 's) dyn_type \<Rightarrow> dyn_interface option" where
  "as_interface (DInterface t) = Some t"
| "as_interface _ = None"

fun as_input_object :: "('r, 's) dyn_type \<Rightarrow> dyn_input_object option" where
  "as_input_object (DInputObject t) = Some t"
| "as_input_object _ = None"

fun as_subscription :: "('r, 's) dyn_type \<Rightarrow> 's dyn_subscription option" where
  "as_subscription (DSubscription t) = Some t"
| "as_subscription _ = None"

fun dt_is_output_type :: "('r, 's) dyn_type \<Rightarrow> bool" where
  "dt_is_output_type (DInputObject _) = False"
| "dt_is_output_type (DSubscription _) = False"
| "dt_is_output_type DUpload = False"
| "dt_is_output_type _ = True"

fun dt_is_input_type :: "('r, 's) dyn_type \<Rightarrow> bool" where
  "dt_is_input_type (DScalar _) = True"
| "dt_is_input_type (DInputObject _) = True"
| "dt_is_input_type (DEnum _) = True"
| "dt_is_input_type DUpload = True"
| "dt_is_input_type _ = False"

subsection \<open>Builders\<close>

definition dyn_scalar_new :: "string \<Rightarrow> dyn_scalar" where
  "dyn_scalar_new n =
     \<lparr>dsc_name = n, dsc_description = None, dsc_specified_by_url = None, dsc_validator = None,
      dsc_inaccessible = False, dsc_tags = [], dsc_directives = [], dsc_requires_scopes = []\<rparr>"

definition dyn_scalar_validator :: "(const_value \<Rightarrow> bool) \<Rightarrow> dyn_scalar \<Rightarrow> dyn_scalar" where
  "dyn_scalar_validator validator t = t\<lparr>dsc_validator := Some validator\<rparr>"

definition dyn_scalar_validate :: "dyn_scalar \<Rightarrow> const_value \<Rightarrow> bool" where
  "dyn_scalar_validate t v = (case dsc_validator t of Some validator \<Rightarrow> validator v | None \<Rightarrow> True)"

definition dyn_object_new :: "string \<Rightarrow> 'r dyn_object" where
  "dyn_object_new n =
     \<lparr>do_name = n, do_description = None, do_fields = [], do_implements = [], do_keys = [], do_extends = False,
      do_shareable = False, do_resolvable = True, do_inaccessible = False, do_interface_object = False,
      do_tags = [], do_directives = [], do_requires_scopes = []\<rparr>"

definition dyn_object_field :: "'r dyn_field \<Rightarrow> 'r dyn_object \<Rightarrow> 'r dyn_object run" where
  "dyn_object_field f t =
     (if contains_key (do_fields t) (df_name f) then Panicked
      else Done (t\<lparr>do_fields := alist_insert (df_name f) f (do_fields t)\<rparr>))"

definition dyn_object_implement :: "string \<Rightarrow> 'r dyn_object \<Rightarrow> 'r dyn_object run" where
  "dyn_object_implement interface t =
     (if interface \<in> set (do_implements t) then Panicked
      else Done (t\<lparr>do_implements := index_set_insert interface (do_implements t)\<rparr>))"

definition dyn_object_key :: "string \<Rightarrow> 'r dyn_object \<Rightarrow> 'r dyn_object" where
  "dyn_object_key ks t = t\<lparr>do_keys := do_keys t @ [ks]\<rparr>"

definition dyn_object_unresolvable :: "string \<Rightarrow> 'r dyn_object \<Rightarrow> 'r dyn_object" where
  "dyn_object_unresolvable ks t = t\<lparr>do_resolvable := False, do_keys := do_keys t @ [ks]\<rparr>"

definition dyn_input_object_new :: "string \<Rightarrow> dyn_input_object" where
  "dyn_input_object_new n =
     \<lparr>dio_name = n, dio_description = None, dio_fields = [], dio_oneof = False, dio_inaccessible = False,
      dio_tags = [], dio_directives = []\<rparr>"

definition dyn_input_object_field :: "dyn_input_value \<Rightarrow> dyn_input_object \<Rightarrow> dyn_input_object run" where
  "dyn_input_object_field f t =
     (if contains_key (dio_fields t) (dv_name f) then Panicked
      else Done (t\<lparr>dio_fields := alist_insert (dv_name f) f (dio_fields t)\<rparr>))"

definition dyn_enum_item_new :: "string \<Rightarrow> dyn_enum_item" where
  "dyn_enum_item_new n =
     \<lparr>dei_name = n, dei_description = None, dei_deprecation = NoDeprecated, dei_inaccessible = False,
      dei_tags = [], dei_directives = []\<rparr>"

definition dyn_enum_new :: "string \<Rightarrow> dyn_enum" where
  "dyn_enum_new n =
     \<lparr>den_name = n, den_description = None, den_enum_values = [], den_inaccessible = False, den_tags = [],
      den_directives = [], den_requires_scopes = []\<rparr>"

definition dyn_enum_add_item :: "dyn_enum_item \<Rightarrow> dyn_enum \<Rightarrow> dyn_enum" where
  "dyn_enum_add_item i t = t\<lparr>den_enum_values := alist_insert (dei_name i) i (den_enum_values t)\<rparr>"

definition dyn_enum_add_items :: "dyn_enum_item list \<Rightarrow> dyn_enum \<Rightarrow> dyn_enum" where
  "dyn_enum_add_items ms t = fold dyn_enum_add_item ms t"

definition dyn_interface_new :: "string \<Rightarrow> dyn_interface" where
  "dyn_interface_new n =
     \<lparr>din_name = n, din_description = None, din_fields = [], din_implements = [], din_keys = [],
      din_extends = False, din_inaccessible = False, din_tags = [], din_directives = [], din_requires_scopes = []\<rparr>"

definition dyn_interface_add_field :: "dyn_interface_field \<Rightarrow> dyn_interface \<Rightarrow> dyn_interface run" where
  "dyn_interface_add_field f t =
     (if contains_key (din_fields t) (df_name f) then Panicked
      else Done (t\<lparr>din_fields := alist_insert (df_name f) f (din_fields t)\<rparr>))"

definition dyn_interface_implement :: "string \<Rightarrow> dyn_interface \<Rightarrow> dyn_interface run" where
  "dyn_interface_implement interface t =
     (if interface \<in> set (din_implements t) then Panicked
      else Done (t\<lparr>din_implements := index_set_insert interface (din_implements t)\<rparr>))"

definition dyn_union_new :: "string \<Rightarrow> dyn_union" where
  "dyn_union_new n =
     \<lparr>dun_name = n, dun_description = None, dun_possible_types = [], dun_inaccessible = False, dun_tags = [],
      dun_directives = []\<rparr>"

definition dyn_union_possible_type :: "string \<Rightarrow> dyn_union \<Rightarrow> dyn_union" where
  "dyn_union_possible_type ty t = t\<lparr>dun_possible_types := index_set_insert ty (dun_possible_types t)\<rparr>"

definition dyn_subscription_new :: "string \<Rightarrow> 's dyn_subscription" where
  "dyn_subscription_new n = \<lparr>dsu_name = n, dsu_description = None, dsu_fields = []\<rparr>"

definition dyn_subscription_add_field ::
  "'s dyn_subscription_field \<Rightarrow> 's dyn_subscription \<Rightarrow> 's dyn_subscription run"
where
  "dyn_subscription_add_field f t =
     (if contains_key (dsu_fields t) (ds_name f) then Panicked
      else Done (t\<lparr>dsu_fields := alist_insert (ds_name f) f (dsu_fields t)\<rparr>))"

subsection \<open>Registration\<close>

definition keys_option :: "string list \<Rightarrow> string list option" where
  "keys_option ks = (if ks \<noteq> [] then Some ks else None)"

definition register_scalar :: "dyn_scalar \<Rightarrow> registry \<Rightarrow> registry" where
  "register_scalar t =
     insert_type (dsc_name t) (MTScalar
       \<lparr>sc_name = dsc_name t, sc_description = dsc_description t, sc_is_valid = dsc_validator t, sc_visible = None,
        sc_inaccessible = dsc_inaccessible t, sc_tags = dsc_tags t, sc_specified_by_url = dsc_specified_by_url t,
        sc_directive_invocations = to_meta_directive_invocation (dsc_directives t),
        sc_requires_scopes = dsc_requires_scopes t\<rparr>)"

definition register_object :: "(number \<Rightarrow> string) \<Rightarrow> 'r dyn_object \<Rightarrow> registry \<Rightarrow> registry" where
  "register_object show_num t r =
     fold (add_implements (do_name t)) (do_implements t)
       (insert_type (do_name t) (MTObject
         \<lparr>ob_name = do_name t, ob_description = do_description t,
          ob_fields = keyed_by df_name (dyn_meta_field show_num) (do_fields t),
          ob_cache_control = default_cache_control, ob_extends = do_extends t, ob_shareable = do_shareable t,
          ob_resolvable = do_resolvable t, ob_keys = keys_option (do_keys t), ob_visible = None,
          ob_inaccessible = do_inaccessible t, ob_interface_object = do_interface_object t, ob_tags = do_tags t,
          ob_is_subscription = False, ob_rust_typename = None,
          ob_directive_invocations = to_meta_directive_invocation (do_directives t),
          ob_requires_scopes = do_requires_scopes t\<rparr>) r)"

text \<open>The input fields are registered with the accessibility and the tags of their object, not their own.\<close>

definition register_input_object :: "(number \<Rightarrow> string) \<Rightarrow> dyn_input_object \<Rightarrow> registry \<Rightarrow> registry" where
  "register_input_object show_num t =
     insert_type (dio_name t) (MTInputObject
       \<lparr>io_name = dio_name t, io_description = dio_description t,
        io_input_fields = keyed_by dv_name (\<lambda>f.
          \<lparr>mi_name = dv_name f, mi_description = dv_description f, mi_ty = show_type_ref (dv_ty f),
           mi_deprecation = dv_deprecation f,
           mi_default_value = map_option (show_const_value show_num) (dv_default_value f), mi_visible = None,
           mi_inaccessible = dio_inaccessible t, mi_tags = dio_tags t, mi_is_secret = False,
           mi_directive_invocations = to_meta_directive_invocation (dv_directives f)\<rparr>) (dio_fields t),
        io_visible = None, io_inaccessible = dio_inaccessible t, io_tags = dio_tags t, io_rust_typename = None,
        io_oneof = dio_oneof t, io_directive_invocations = to_meta_directive_invocation (dio_directives t)\<rparr>)"

definition register_enum :: "dyn_enum \<Rightarrow> registry \<Rightarrow> registry" where
  "register_enum t =
     insert_type (den_name t) (MTEnum
       \<lparr>en_name = den_name t, en_description = den_description t,
        en_enum_values = keyed_by dei_name (\<lambda>i.
          \<lparr>me_name = dei_name i, me_description = dei_description i, me_deprecation = dei_deprecation i,
           me_visible = None, me_inaccessible = dei_inaccessible i, me_tags = dei_tags i,
           me_directive_invocations = to_meta_directive_invocation (dei_directives i)\<rparr>) (den_enum_values t),
        en_visible = None, en_inaccessible = den_inaccessible t, en_tags = den_tags t, en_rust_typename = None,
        en_directive_invocations = to_meta_directive_invocation (den_directives t),
        en_requires_scopes = den_requires_scopes t\<rparr>)"

definition register_interface :: "(number \<Rightarrow> string) \<Rightarrow> dyn_interface \<Rightarrow> registry \<Rightarrow> registry" where
  "register_interface show_num t r =
     fold (add_implements (din_name t)) (din_implements t)
       (insert_type (din_name t) (MTInterface
         \<lparr>in_name = din_name t, in_description = din_description t,
          in_fields = keyed_by df_name (dyn_meta_field show_num) (din_fields t), in_possible_types = [],
          in_extends = din_extends t, in_keys = keys_option (din_keys t), in_visible = None,
          in_inaccessible = din_inaccessible t, in_tags = din_tags t, in_rust_typename = None,
          in_directive_invocations = to_meta_directive_invocation (din_directives t),
          in_requires_scopes = din_requires_scopes t\<rparr>) r)"

definition register_union :: "dyn_union \<Rightarrow> registry \<Rightarrow> registry" where
  "register_union t =
     insert_type (dun_name t) (MTUnion
       \<lparr>un_name = dun_name t, un_description = dun_description t, un_possible_types = dun_possible_types t,
        un_visible = None, un_inaccessible = dun_inaccessible t, un_tags = dun_tags t, un_rust_typename = None,
        un_directive_invocations = to_meta_directive_invocation (dun_directives t)\<rparr>)"

definition register_subscription :: "(number \<Rightarrow> string) \<Rightarrow> 's dyn_subscription \<Rightarrow> registry \<Rightarrow> registry" where
  "register_subscription show_num t =
     insert_type (dsu_name t) (MTObject
       \<lparr>ob_name = dsu_name t, ob_description = dsu_description t,
        ob_fields = keyed_by ds_name (dyn_subscription_meta_field show_num) (dsu_fields t),
        ob_cache_control = default_cache_control, ob_extends = False, ob_shareable = False, ob_resolvable = True,
        ob_keys = None, ob_visible = None, ob_inaccessible = False, ob_interface_object = False, ob_tags = [],
        ob_is_subscription = True, ob_rust_typename = None, ob_directive_invocations = [], ob_requires_scopes = []\<rparr>)"

text \<open>The scalar \<open>Upload\<close> is a type of its own, with its registration as an argument.\<close>

definition dyn_register ::
  "(registry \<Rightarrow> registry run) \<Rightarrow> (number \<Rightarrow> string) \<Rightarrow> ('r, 's) dyn_type \<Rightarrow> registry \<Rightarrow> (string + registry) run"
where
  "dyn_register upload_type_info show_num ty r =
     (if contains_key (reg_types r) (dt_name ty)
      then Done (Inl (''Type '' @ quoted (dt_name ty) @ '' already exists''))
      else case ty of
        DScalar t \<Rightarrow> Done (Inr (register_scalar t r))
      | DObject t \<Rightarrow> Done (Inr (register_object show_num t r))
      | DInputObject t \<Rightarrow> Done (Inr (register_input_object show_num t r))
      | DEnum t \<Rightarrow> Done (Inr (register_enum t r))
      | DInterface t \<Rightarrow> Done (Inr (register_interface show_num t r))
      | DUnion t \<Rightarrow> Done (Inr (register_union t r))
      | DSubscription t \<Rightarrow> Done (Inr (register_subscription show_num t r))
      | DUpload \<Rightarrow> run_map Inr (upload_type_info r))"

end
