(* ===== verification/Dynamic_Check.thy ===== *)
theory Dynamic_Check
  imports Dynamic_Types Schema_Prepare
begin

text \<open>
  The check of a dynamic schema (\<open>src/dynamic/check.rs\<close>, \<open>src/dynamic/base.rs\<close>): every named type exists, the
  roots, objects, input objects, interfaces and unions are what the specification of GraphQL asks for. The
  first violation is the error. The search through input objects keeps the names on its path, so one unit
  of fuel per type, and one more, is enough.
\<close>

type_synonym ('r, 's) dyn_types = "(string \<times> ('r, 's) dyn_type) list"

text \<open>A condition of a check and the error when it does not hold.\<close>

definition ensure :: "bool \<Rightarrow> string \<Rightarrow> string + unit" where
  "ensure b e = (if b then Inr () else Inl e)"

lemma ensure_ok [simp]: "ensure b e = Inr () \<longleftrightarrow> b"
  by (simp add: ensure_def)

definition check_then :: "'e + unit \<Rightarrow> 'e + unit \<Rightarrow> 'e + unit" where
  "check_then r s = result_bind r (\<lambda>_. s)"

lemma check_then_ok [simp]: "check_then r s = Inr () \<longleftrightarrow> r = Inr () \<and> s = Inr ()"
  by (cases r) (simp_all add: check_then_def)

lemma check_then_unit [simp]: "check_then (Inr ()) s = s"
  by (simp add: check_then_def)

subsection \<open>Names and roots\<close>

definition check_names :: "('r, 's) dyn_types \<Rightarrow> string list \<Rightarrow> string + unit" where
  "check_names types = try_all (\<lambda>n. ensure (contains_key types n) (''Type '' @ quoted n @ '' not found''))"

definition field_names :: "(string \<times> 'r dyn_field) list \<Rightarrow> string list" where
  "field_names m =
     concat (map (\<lambda>(_, f). tr_type_name (df_ty f) # map (\<lambda>(_, a). tr_type_name (dv_ty a)) (df_arguments f)) m)"

definition subscription_field_names :: "(string \<times> 's dyn_subscription_field) list \<Rightarrow> string list" where
  "subscription_field_names m =
     concat (map (\<lambda>(_, f). tr_type_name (ds_ty f) # map (\<lambda>(_, a). tr_type_name (dv_ty a)) (ds_arguments f)) m)"

fun names_of :: "('r, 's) dyn_type \<Rightarrow> string list" where
  "names_of (DObject t) = field_names (do_fields t) @ do_implements t"
| "names_of (DInputObject t) = map (\<lambda>(_, f). tr_type_name (dv_ty f)) (dio_fields t)"
| "names_of (DInterface t) = field_names (din_fields t) @ din_implements t"
| "names_of (DUnion t) = dun_possible_types t"
| "names_of (DSubscription t) = subscription_field_names (dsu_fields t)"
| "names_of _ = []"

definition check_types_exists :: "registry \<Rightarrow> ('r, 's) dyn_types \<Rightarrow> string + unit" where
  "check_types_exists reg types =
     check_then (check_names types (reg_query_type reg # (case reg_mutation_type reg of Some m \<Rightarrow> [m] | None \<Rightarrow> [])))
       (try_all (\<lambda>(_, ty). check_names types (names_of ty)) types)"

fun is_object :: "('r, 's) dyn_type \<Rightarrow> bool" where
  "is_object (DObject _) = True"
| "is_object _ = False"

fun is_subscription :: "('r, 's) dyn_type \<Rightarrow> bool" where
  "is_subscription (DSubscription _) = True"
| "is_subscription _ = False"

text \<open>A type that is there and is not as wanted.\<close>

definition unless_wrong :: "('r, 's) dyn_types \<Rightarrow> string \<Rightarrow> (('r, 's) dyn_type \<Rightarrow> bool) \<Rightarrow> string \<Rightarrow> string + unit" where
  "unless_wrong types n P e = (case map_of types n of Some ty \<Rightarrow> ensure (P ty) e | None \<Rightarrow> Inr ())"

lemma unless_wrong_ok [simp]:
  "unless_wrong types n P e = Inr () \<longleftrightarrow> (\<forall>ty. map_of types n = Some ty \<longrightarrow> P ty)"
  by (simp add: unless_wrong_def split: option.splits)

definition check_root_types :: "registry \<Rightarrow> ('r, 's) dyn_types \<Rightarrow> string + unit" where
  "check_root_types reg types =
     check_then (unless_wrong types (reg_query_type reg) is_object ''The query root must be an object'')
    (check_then (case reg_mutation_type reg of
             Some m \<Rightarrow> unless_wrong types m is_object ''The mutation root must be an object''
           | None \<Rightarrow> Inr ())
          (case reg_subscription_type reg of
             Some s \<Rightarrow> unless_wrong types s is_subscription ''The subscription root must be a subscription object''
           | None \<Rightarrow> Inr ()))"

subsection \<open>Fields\<close>

definition reserved :: "string \<Rightarrow> bool" where
  "reserved n \<longleftrightarrow> take 2 n = ''__''"

definition underscores_text :: string where
  "underscores_text =
     '' must not have a name which begins with the characters '' @ quoted ''__'' @ '' (two underscores)''"

definition check_argument ::
  "('r, 's) dyn_types \<Rightarrow> string \<Rightarrow> string \<Rightarrow> dyn_input_value \<Rightarrow> string + unit"
where
  "check_argument types owner fname arg =
     (let path = quoted (owner @ ''.'' @ fname @ ''.'' @ dv_name arg)
      in check_then (ensure (\<not> reserved (dv_name arg)) (''Argument '' @ path @ underscores_text))
              (unless_wrong types (tr_type_name (dv_ty arg)) dt_is_input_type
                 (''Argument '' @ path @ '' must accept a input type'')))"

definition check_field :: "('r, 's) dyn_types \<Rightarrow> string \<Rightarrow> 'f dyn_field \<Rightarrow> string + unit" where
  "check_field types owner f =
     (let path = quoted (owner @ ''.'' @ df_name f)
      in check_then (ensure (\<not> reserved (df_name f)) (''Field '' @ path @ underscores_text))
        (check_then (unless_wrong types (tr_type_name (df_ty f)) dt_is_output_type
                 (''Field '' @ path @ '' must return a output type''))
              (try_all (\<lambda>(_, arg). check_argument types owner (df_name f) arg) (df_arguments f))))"

subsection \<open>Implementations\<close>

text \<open>What the check reads of an implementing type: its kind, its name and its fields.\<close>

definition check_implementing_argument ::
  "string \<Rightarrow> dyn_interface \<Rightarrow> 'f dyn_field \<Rightarrow> dyn_interface_field \<Rightarrow> dyn_input_value \<Rightarrow> string + unit"
where
  "check_implementing_argument owner interface impl_field f arg =
     (case map_of (df_arguments impl_field) (dv_name arg) of
        Some impl_arg \<Rightarrow>
          ensure (tr_is_subtype (dv_ty arg) (dv_ty impl_arg))
            (''Argument '' @ quoted (din_name interface @ ''.'' @ df_name f @ ''.'' @ dv_name arg) @ '' is not sub-type of '' @
             quoted (owner @ ''.'' @ df_name f @ ''.'' @ dv_name arg))
      | None \<Rightarrow>
          ensure (tr_is_nullable (dv_ty arg))
            (''Field '' @ quoted (owner @ ''.'' @ df_name f) @ '' requires argument '' @ quoted (dv_name arg) @
             '' defined by interface '' @ quoted (din_name interface @ ''.'' @ df_name f)))"

definition check_implementing_field ::
  "string \<Rightarrow> string \<Rightarrow> (string \<times> 'f dyn_field) list \<Rightarrow> dyn_interface \<Rightarrow> dyn_interface_field \<Rightarrow> string + unit"
where
  "check_implementing_field graphql_type owner impl_fields interface f =
     (case map_of impl_fields (df_name f) of
        None \<Rightarrow>
          Inl (graphql_type @ '' '' @ quoted owner @ '' requires field '' @ quoted (df_name f) @
               '' defined by interface '' @ quoted (din_name interface))
      | Some impl_field \<Rightarrow>
          check_then (try_all (\<lambda>(_, arg). check_implementing_argument owner interface impl_field f arg) (df_arguments f))
            (ensure (tr_is_subtype (df_ty impl_field) (df_ty f))
               (''Field '' @ quoted (owner @ ''.'' @ df_name f) @ '' is not sub-type of '' @
                quoted (din_name interface @ ''.'' @ df_name f))))"

definition check_is_valid_implementation ::
  "string \<Rightarrow> string \<Rightarrow> (string \<times> 'f dyn_field) list \<Rightarrow> dyn_interface \<Rightarrow> string + unit"
where
  "check_is_valid_implementation graphql_type owner impl_fields interface =
     try_all (\<lambda>(_, f). check_implementing_field graphql_type owner impl_fields interface f) (din_fields interface)"

definition check_implements ::
  "('r, 's) dyn_types \<Rightarrow> string \<Rightarrow> string \<Rightarrow> (string \<times> 'f dyn_field) list \<Rightarrow> string list \<Rightarrow> string + unit"
where
  "check_implements types graphql_type owner impl_fields =
     try_all (\<lambda>n.
       case map_of types n of
         None \<Rightarrow> Inr ()
       | Some ty \<Rightarrow>
           (case as_interface ty of
              None \<Rightarrow> Inl (''Type '' @ quoted n @ '' is not interface'')
            | Some interface \<Rightarrow> check_is_valid_implementation graphql_type owner impl_fields interface))"

definition check_object :: "registry \<Rightarrow> ('r, 's) dyn_types \<Rightarrow> 'r dyn_object \<Rightarrow> string + unit" where
  "check_object reg types t =
     check_then (ensure (do_fields t \<noteq> [] \<or> do_name t = reg_query_type reg \<and> has_entities reg)
             (''Object '' @ quoted (do_name t) @ '' must define one or more fields''))
    (check_then (try_all (\<lambda>(_, f). check_field types (do_name t) f) (do_fields t))
          (check_implements types ''Object'' (do_name t) (do_fields t) (do_implements t)))"

definition check_objects :: "registry \<Rightarrow> ('r, 's) dyn_types \<Rightarrow> string + unit" where
  "check_objects reg types =
     try_all (\<lambda>(_, ty). case ty of DObject t \<Rightarrow> check_object reg types t | _ \<Rightarrow> Inr ()) types"

definition check_interface :: "('r, 's) dyn_types \<Rightarrow> dyn_interface \<Rightarrow> string + unit" where
  "check_interface types t =
     check_then (try_all (\<lambda>(_, f). check_field types (din_name t) f) (din_fields t))
    (check_then (ensure (din_name t \<notin> set (din_implements t))
             (''Interface '' @ quoted (din_name t) @ '' may not implement itself''))
          (check_implements types ''Interface'' (din_name t) (din_fields t) (din_implements t)))"

definition check_interfaces :: "('r, 's) dyn_types \<Rightarrow> string + unit" where
  "check_interfaces types =
     try_all (\<lambda>(_, ty). case ty of DInterface t \<Rightarrow> check_interface types t | _ \<Rightarrow> Inr ()) types"

definition check_union :: "('r, 's) dyn_types \<Rightarrow> dyn_union \<Rightarrow> string + unit" where
  "check_union types t =
     try_all (\<lambda>n. unless_wrong types n is_object
       (''Member '' @ quoted n @ '' of union '' @ quoted (dun_name t) @ '' is not an object'')) (dun_possible_types t)"

definition check_unions :: "('r, 's) dyn_types \<Rightarrow> string + unit" where
  "check_unions types = try_all (\<lambda>(_, ty). case ty of DUnion t \<Rightarrow> check_union types t | _ \<Rightarrow> Inr ()) types"

subsection \<open>Input objects\<close>

fun typeref_nonnullable_name :: "type_ref \<Rightarrow> string option" where
  "typeref_nonnullable_name (TRNonNull (TRNamed n)) = Some n"
| "typeref_nonnullable_name _ = None"

lemma typeref_nonnullable_name_iff: "typeref_nonnullable_name ty = Some n \<longleftrightarrow> ty = TRNonNull (TRNamed n)"
  by (cases ty rule: typeref_nonnullable_name.cases) auto

definition self_reference :: "string \<Rightarrow> string" where
  "self_reference current =
     quoted current @ '' references itself either directly or through referenced Input Objects, at least one of '' @
     ''the fields in the chain of references must be either a nullable or a List type.''"

text \<open>A loop whose body may return an error and changes a state.\<close>

fun try_loop :: "('a \<Rightarrow> 'c \<Rightarrow> (string + 'c) run) \<Rightarrow> 'a list \<Rightarrow> 'c \<Rightarrow> (string + 'c) run" where
  "try_loop f [] c = Done (Inr c)"
| "try_loop f (x # xs) c = run_bind (f x c) (\<lambda>r. case r of Inl e \<Rightarrow> Done (Inl e) | Inr c' \<Rightarrow> try_loop f xs c')"

fun check_input_object_reference ::
  "nat \<Rightarrow> ('r, 's) dyn_types \<Rightarrow> string \<Rightarrow> dyn_input_object \<Rightarrow> string set \<Rightarrow> (string + string set) run"
where
  "check_input_object_reference 0 types current obj ref_chain = OutOfFuel"
| "check_input_object_reference (Suc n) types current obj ref_chain =
     try_loop (\<lambda>(_, f) chain.
       case typeref_nonnullable_name (dv_ty f) of
         None \<Rightarrow> Done (Inr chain)
       | Some this_name \<Rightarrow>
           if this_name = current then Done (Inl (self_reference current))
           else case Option.bind (map_of types (tr_type_name (dv_ty f))) as_input_object of
                  None \<Rightarrow> Done (Inr chain)
                | Some obj' \<Rightarrow>
                    if this_name \<in> chain then Done (Inr chain)
                    else run_map (map_sum id (\<lambda>c. c - {this_name}))
                           (check_input_object_reference n types current obj' (insert this_name chain)))
       (dio_fields obj) ref_chain"

definition reference_fuel :: "('r, 's) dyn_types \<Rightarrow> nat" where
  "reference_fuel types = Suc (length types)"

definition check_input_field :: "('r, 's) dyn_types \<Rightarrow> dyn_input_object \<Rightarrow> dyn_input_value \<Rightarrow> string + unit" where
  "check_input_field types t f =
     (let path = quoted (dio_name t @ ''.'' @ dv_name f)
      in check_then (ensure (\<not> reserved (dv_name f)) (''Field '' @ path @ underscores_text))
        (check_then (unless_wrong types (tr_type_name (dv_ty f)) dt_is_input_type
                 (''Field '' @ path @ '' must accept a input type''))
              (if dio_oneof t then
                 check_then (ensure (tr_is_nullable (dv_ty f)) (''Field '' @ path @ '' must be nullable''))
                      (ensure (dv_default_value f = None) (''Field '' @ path @ '' must not have a default value''))
               else Inr ())))"

definition check_input_object :: "('r, 's) dyn_types \<Rightarrow> dyn_input_object \<Rightarrow> (string + unit) run" where
  "check_input_object types t =
     (case try_all (\<lambda>(_, f). check_input_field types t f) (dio_fields t) of
        Inl e \<Rightarrow> Done (Inl e)
      | Inr _ \<Rightarrow>
          run_map (map_sum id (\<lambda>_. ()))
            (check_input_object_reference (reference_fuel types) types (dio_name t) t {}))"

definition check_input_objects :: "('r, 's) dyn_types \<Rightarrow> (string + unit) run" where
  "check_input_objects types =
     try_loop (\<lambda>(_, ty) _. case ty of DInputObject t \<Rightarrow> check_input_object types t | _ \<Rightarrow> Done (Inr ())) types ()"

subsection \<open>The check\<close>

definition check_schema :: "registry \<Rightarrow> ('r, 's) dyn_types \<Rightarrow> (string + unit) run" where
  "check_schema reg types =
     (case check_then (check_types_exists reg types) (check_then (check_root_types reg types) (check_objects reg types)) of
        Inl e \<Rightarrow> Done (Inl e)
      | Inr _ \<Rightarrow>
          run_map (\<lambda>r. check_then r (check_then (check_interfaces types) (check_unions types))) (check_input_objects types))"

end
