(* ===== verification/Dynamic_Schema.thy ===== *)
theory Dynamic_Schema
  imports Dynamic_Check Scalars
begin

text \<open>
  The builder of a dynamic schema and what it finishes with (\<open>src/dynamic/schema.rs\<close>), and the types every
  registry starts with (\<open>Registry::add_system_types\<close> of \<open>src/registry/mod.rs\<close>). Data and extensions are not
  modelled. How the Rust types of the system register themselves is an argument, as elsewhere.
\<close>

subsection \<open>System types\<close>

record type_infos =
  ti_show_number :: "number \<Rightarrow> string"
  ti_system_scalars :: "registry \<Rightarrow> registry run"
  ti_upload :: "registry \<Rightarrow> registry run"
  ti_introspection :: "registry \<Rightarrow> registry run"
  ti_any :: "registry \<Rightarrow> registry run"

definition system_argument :: "string \<Rightarrow> string \<Rightarrow> string option \<Rightarrow> string option \<Rightarrow> meta_input_value" where
  "system_argument n ty description dflt =
     (meta_input_value_new n ty)\<lparr>mi_description := description, mi_default_value := dflt\<rparr>"

definition system_directive ::
  "string \<Rightarrow> string \<Rightarrow> directive_location list \<Rightarrow> meta_input_value list \<Rightarrow> meta_directive"
where
  "system_directive n description locations args =
     \<lparr>md_name = n, md_description = Some description, md_locations = locations,
      md_args = map (\<lambda>a. (mi_name a, a)) args, md_is_repeatable = False, md_visible = None, md_composable = None\<rparr>"

definition newline :: string where
  "newline = [CHR 0x0A]"

definition system_directives :: "meta_directive list" where
  "system_directives =
    [system_directive ''skip''
       ''Directs the executor to skip this field or fragment when the `if` argument is true.''
       [LOC_FIELD, LOC_FRAGMENT_SPREAD, LOC_INLINE_FRAGMENT]
       [system_argument ''if'' ''Boolean!'' (Some ''Skipped when true.'') None],
     system_directive ''include''
       ''Directs the executor to include this field or fragment only when the `if` argument is true.''
       [LOC_FIELD, LOC_FRAGMENT_SPREAD, LOC_INLINE_FRAGMENT]
       [system_argument ''if'' ''Boolean!'' (Some ''Included when true.'') None],
     system_directive ''deprecated''
       ''Marks an element of a GraphQL schema as no longer supported.''
       [LOC_FIELD_DEFINITION, LOC_ARGUMENT_DEFINITION, LOC_INPUT_FIELD_DEFINITION, LOC_ENUM_VALUE]
       [system_argument ''reason'' ''String''
          (Some ''A reason for why it is deprecated, formatted using Markdown syntax'')
          (Some (quoted ''No longer supported''))],
     system_directive ''specifiedBy''
       ''Provides a scalar specification URL for specifying the behavior of custom scalar types.''
       [LOC_SCALAR]
       [system_argument ''url'' ''String!'' (Some ''URL that specifies the behavior of this scalar.'') None],
     system_directive ''oneOf''
       (''Indicates that an Input Object is a OneOf Input Object (and thus requires '' @
        ''exactly one of its field be provided)'')
       [LOC_INPUT_OBJECT] [],
     system_directive ''semanticNonNull''
       (''Indicates that a position is semantically non null: it is only null if there is a matching error in the `errors` array.'' @ newline @
        ''In all other cases, the position is non-null.'' @ newline @ newline @
        ''Tools doing code generation may use this information to generate the position as non-null if field errors are handled out of band:'' @ newline @ newline @
        ''`levels` are zero indexed.'' @ newline @
        ''Passing a negative level or a level greater than the list dimension is an error.'')
       [LOC_FIELD_DEFINITION]
       [system_argument ''levels'' ''[Int!]!'' None (Some ''[0]'')]]"

definition add_system_types :: "type_infos \<Rightarrow> registry \<Rightarrow> registry run" where
  "add_system_types ti r = ti_system_scalars ti (fold add_directive system_directives r)"

definition registry_new :: "string \<Rightarrow> string option \<Rightarrow> string option \<Rightarrow> introspection_mode \<Rightarrow> bool \<Rightarrow> registry" where
  "registry_new query mutation subscription mode suggestions =
     \<lparr>reg_types = [], reg_directives = [], reg_implements = [], reg_query_type = query,
      reg_mutation_type = mutation, reg_subscription_type = subscription, reg_introspection_mode = mode,
      reg_enable_federation = False, reg_federation_subscription = False, reg_ignore_name_conflicts = {},
      reg_enable_suggestions = suggestions\<rparr>"

subsection \<open>The builder\<close>

record ('r, 's) dyn_builder =
  sb_query_type :: string
  sb_mutation_type :: "string option"
  sb_subscription_type :: "string option"
  sb_types :: "('r, 's) dyn_types"
  sb_validation_mode :: validation_mode
  sb_recursive_depth :: nat
  sb_max_directives :: "nat option"
  sb_max_aliases :: "nat option"
  sb_complexity :: "usize option"
  sb_depth :: "usize option"
  sb_enable_suggestions :: bool
  sb_introspection_mode :: introspection_mode
  sb_enable_federation :: bool
  sb_entity_resolver :: "'r option"
  sb_custom_directives :: "meta_directive list"
  sb_error_formatter :: "(server_error \<Rightarrow> server_error) option"

definition dyn_build :: "string \<Rightarrow> string option \<Rightarrow> string option \<Rightarrow> ('r, 's) dyn_builder" where
  "dyn_build query mutation subscription =
     \<lparr>sb_query_type = query, sb_mutation_type = mutation, sb_subscription_type = subscription, sb_types = [],
      sb_validation_mode = Strict, sb_recursive_depth = 32, sb_max_directives = None, sb_max_aliases = None,
      sb_complexity = None, sb_depth = None, sb_enable_suggestions = True,
      sb_introspection_mode = IntrospectionEnabled, sb_enable_federation = False, sb_entity_resolver = None,
      sb_custom_directives = [], sb_error_formatter = None\<rparr>"

definition builder_register :: "('r, 's) dyn_type \<Rightarrow> ('r, 's) dyn_builder \<Rightarrow> ('r, 's) dyn_builder" where
  "builder_register ty b = b\<lparr>sb_types := alist_insert (dt_name ty) ty (sb_types b)\<rparr>"

definition enable_uploading :: "('r, 's) dyn_builder \<Rightarrow> ('r, 's) dyn_builder" where
  "enable_uploading b = b\<lparr>sb_types := alist_insert ''Upload'' DUpload (sb_types b)\<rparr>"

definition builder_error_formatter :: "(server_error \<Rightarrow> server_error) \<Rightarrow> ('r, 's) dyn_builder \<Rightarrow> ('r, 's) dyn_builder" where
  "builder_error_formatter f b = b\<lparr>sb_error_formatter := Some f\<rparr>"

definition limit_complexity :: "usize \<Rightarrow> ('r, 's) dyn_builder \<Rightarrow> ('r, 's) dyn_builder" where
  "limit_complexity n b = b\<lparr>sb_complexity := Some n\<rparr>"

definition limit_depth :: "usize \<Rightarrow> ('r, 's) dyn_builder \<Rightarrow> ('r, 's) dyn_builder" where
  "limit_depth n b = b\<lparr>sb_depth := Some n\<rparr>"

definition limit_recursive_depth :: "nat \<Rightarrow> ('r, 's) dyn_builder \<Rightarrow> ('r, 's) dyn_builder" where
  "limit_recursive_depth n b = b\<lparr>sb_recursive_depth := n\<rparr>"

definition limit_directives :: "nat \<Rightarrow> ('r, 's) dyn_builder \<Rightarrow> ('r, 's) dyn_builder" where
  "limit_directives n b = b\<lparr>sb_max_directives := Some n\<rparr>"

definition limit_aliases :: "nat \<Rightarrow> ('r, 's) dyn_builder \<Rightarrow> ('r, 's) dyn_builder" where
  "limit_aliases n b = b\<lparr>sb_max_aliases := Some n\<rparr>"

definition builder_validation_mode :: "validation_mode \<Rightarrow> ('r, 's) dyn_builder \<Rightarrow> ('r, 's) dyn_builder" where
  "builder_validation_mode m b = b\<lparr>sb_validation_mode := m\<rparr>"

definition disable_suggestions :: "('r, 's) dyn_builder \<Rightarrow> ('r, 's) dyn_builder" where
  "disable_suggestions b = b\<lparr>sb_enable_suggestions := False\<rparr>"

definition disable_introspection :: "('r, 's) dyn_builder \<Rightarrow> ('r, 's) dyn_builder" where
  "disable_introspection b = b\<lparr>sb_introspection_mode := IntrospectionDisabled\<rparr>"

definition introspection_only :: "('r, 's) dyn_builder \<Rightarrow> ('r, 's) dyn_builder" where
  "introspection_only b = b\<lparr>sb_introspection_mode := IntrospectionOnly\<rparr>"

definition enable_federation :: "('r, 's) dyn_builder \<Rightarrow> ('r, 's) dyn_builder" where
  "enable_federation b = b\<lparr>sb_enable_federation := True\<rparr>"

definition builder_entity_resolver :: "'r \<Rightarrow> ('r, 's) dyn_builder \<Rightarrow> ('r, 's) dyn_builder" where
  "builder_entity_resolver f b = b\<lparr>sb_entity_resolver := Some f\<rparr>"

definition builder_directive :: "meta_directive \<Rightarrow> ('r, 's) dyn_builder \<Rightarrow> ('r, 's) dyn_builder" where
  "builder_directive d b = b\<lparr>sb_custom_directives := sb_custom_directives b @ [d]\<rparr>"

subsection \<open>Finishing\<close>

text \<open>The objects join the interfaces they implement; a name stands for one interface of the registry.\<close>

definition add_possible_type :: "string \<Rightarrow> string \<Rightarrow> (string \<times> meta_type) list \<Rightarrow> (string \<times> meta_type) list" where
  "add_possible_type interface obj_name =
     map (\<lambda>(k, ty). (k, case ty of
         MTInterface i \<Rightarrow>
           if in_name i = interface then MTInterface (i\<lparr>in_possible_types := index_set_insert obj_name (in_possible_types i)\<rparr>)
           else ty
       | _ \<Rightarrow> ty))"

definition update_interface_possible_types :: "('r, 's) dyn_types \<Rightarrow> registry \<Rightarrow> registry" where
  "update_interface_possible_types types r =
     r\<lparr>reg_types :=
        fold (\<lambda>(_, ty).
          case ty of
            DObject t \<Rightarrow> fold (\<lambda>interface. add_possible_type interface (do_name t)) (do_implements t)
          | _ \<Rightarrow> id) types (reg_types r)\<rparr>"

definition system_scalar :: "string \<Rightarrow> (const_value \<Rightarrow> bool) \<Rightarrow> string \<times> ('r, 's) dyn_type" where
  "system_scalar n valid = (n, DScalar (dyn_scalar_validator valid (dyn_scalar_new n)))"

text \<open>The validators: whether a number is an \<open>i64\<close> is an operation of the number.\<close>

definition is_number :: "const_value \<Rightarrow> bool" where
  "is_number v \<longleftrightarrow> (case v of CNumber _ \<Rightarrow> True | _ \<Rightarrow> False)"

definition is_string :: "const_value \<Rightarrow> bool" where
  "is_string v \<longleftrightarrow> (case v of CString _ \<Rightarrow> True | _ \<Rightarrow> False)"

definition is_boolean :: "const_value \<Rightarrow> bool" where
  "is_boolean v \<longleftrightarrow> (case v of CBoolean _ \<Rightarrow> True | _ \<Rightarrow> False)"

definition is_i64 :: "number_ops \<Rightarrow> const_value \<Rightarrow> bool" where
  "is_i64 ops v \<longleftrightarrow> (case v of CNumber n \<Rightarrow> no_is_i64 ops n | _ \<Rightarrow> False)"

definition system_scalar_types :: "number_ops \<Rightarrow> ('r, 's) dyn_types" where
  "system_scalar_types ops =
     [system_scalar ''Int'' (is_i64 ops), system_scalar ''Float'' is_number, system_scalar ''Boolean'' is_boolean,
      system_scalar ''String'' is_string, system_scalar ''ID'' (\<lambda>v. is_string v \<or> is_i64 ops v)]"

record ('r, 's) dyn_schema =
  ys_registry :: registry
  ys_types :: "('r, 's) dyn_types"
  ys_recursive_depth :: nat
  ys_max_directives :: "nat option"
  ys_max_aliases :: "nat option"
  ys_complexity :: "usize option"
  ys_depth :: "usize option"
  ys_validation_mode :: validation_mode
  ys_entity_resolver :: "'r option"
  ys_error_formatter :: "(server_error \<Rightarrow> server_error) option"

text \<open>The registration of the types one after the other, and the federation of a schema that asks for it or
  has entities.\<close>

definition register_all :: "type_infos \<Rightarrow> ('r, 's) dyn_types \<Rightarrow> registry \<Rightarrow> (string + registry) run" where
  "register_all ti types = try_loop (\<lambda>(_, ty). dyn_register (ti_upload ti) (ti_show_number ti) ty) types"

definition federate ::
  "type_infos \<Rightarrow> bool \<Rightarrow> ('r, 's) dyn_types \<Rightarrow> registry \<Rightarrow> (('r, 's) dyn_types \<times> registry) run"
where
  "federate ti enabled types r =
     (if enabled \<or> has_entities r then
        run_bind (create_federation_types (ti_any ti) (r\<lparr>reg_enable_federation := True\<rparr>)) (\<lambda>r'.
        run_map (\<lambda>possible.
          (if possible = [] then types
           else alist_insert ''_Entity'' (DUnion (fold dyn_union_possible_type possible (dyn_union_new ''_Entity''))) types,
           r')) (entity_possible_types r'))
      else Done (types, r))"

definition schema_of :: "('r, 's) dyn_builder \<Rightarrow> ('r, 's) dyn_types \<Rightarrow> registry \<Rightarrow> ('r, 's) dyn_schema" where
  "schema_of b types r =
     \<lparr>ys_registry = r, ys_types = types, ys_recursive_depth = sb_recursive_depth b,
      ys_max_directives = sb_max_directives b, ys_max_aliases = sb_max_aliases b, ys_complexity = sb_complexity b,
      ys_depth = sb_depth b, ys_validation_mode = sb_validation_mode b, ys_entity_resolver = sb_entity_resolver b,
      ys_error_formatter = sb_error_formatter b\<rparr>"

definition finish :: "number_ops \<Rightarrow> type_infos \<Rightarrow> ('r, 's) dyn_builder \<Rightarrow> (string + ('r, 's) dyn_schema) run" where
  "finish ops ti b =
     run_bind (add_system_types ti (registry_new (sb_query_type b) (sb_mutation_type b) (sb_subscription_type b)
                 (sb_introspection_mode b) (sb_enable_suggestions b))) (\<lambda>r0.
     run_bind (register_all ti (sb_types b) (fold add_directive (sb_custom_directives b) r0)) (\<lambda>registered.
     case registered of
       Inl e \<Rightarrow> Done (Inl e)
     | Inr r1 \<Rightarrow>
         let r2 = update_interface_possible_types (sb_types b) r1;
             types = fold (\<lambda>(n, ty). alist_insert n ty) (system_scalar_types ops) (sb_types b)
         in run_bind (if sb_introspection_mode b \<in> {IntrospectionEnabled, IntrospectionOnly}
                      then create_introspection_types (ti_introspection ti) r2 else Done r2) (\<lambda>r3.
            run_bind (federate ti (sb_enable_federation b) types r3) (\<lambda>(types', r4).
            run_map (map_sum id (\<lambda>_. schema_of b types' r4)) (check_schema r4 types')))))"

subsection \<open>Roots\<close>

definition dyn_query_root :: "('r, 's) dyn_schema \<Rightarrow> server_error + 'r dyn_object" where
  "dyn_query_root sc =
     (case Option.bind (map_of (ys_types sc) (reg_query_type (ys_registry sc))) as_object of
        Some t \<Rightarrow> Inr t | None \<Rightarrow> Inl (server_error_new ''Query root not found'' None))"

definition dyn_mutation_root :: "('r, 's) dyn_schema \<Rightarrow> server_error + 'r dyn_object" where
  "dyn_mutation_root sc =
     (case Option.bind (Option.bind (reg_mutation_type (ys_registry sc)) (map_of (ys_types sc))) as_object of
        Some t \<Rightarrow> Inr t | None \<Rightarrow> Inl (server_error_new ''Mutation root not found'' None))"

definition dyn_subscription_root :: "('r, 's) dyn_schema \<Rightarrow> server_error + 's dyn_subscription" where
  "dyn_subscription_root sc =
     (case Option.bind (Option.bind (reg_subscription_type (ys_registry sc)) (map_of (ys_types sc))) as_subscription of
        Some t \<Rightarrow> Inr t | None \<Rightarrow> Inl (server_error_new ''Subscription root not found'' None))"

definition dyn_format_errors :: "('r, 's) dyn_schema \<Rightarrow> server_error list \<Rightarrow> server_error list" where
  "dyn_format_errors sc errs = (case ys_error_formatter sc of Some f \<Rightarrow> map f errs | None \<Rightarrow> errs)"

end
