(* ===== verification/Dynamic_Resolve.thy ===== *)
theory Dynamic_Resolve
  imports Dynamic_Schema Execution
begin

text \<open>
  The execution of a dynamic schema (\<open>src/dynamic/resolve.rs\<close>, and \<open>execute_once\<close> and the streams of
  \<open>src/dynamic/schema.rs\<close> and \<open>src/dynamic/subscription.rs\<close>).

  A resolver is a function of the arguments and the parent value; whatever else it reads of its context is
  part of the function. What it passes on is a \<open>field_value\<close> (\<open>src/dynamic/field.rs\<close>), where \<open>'any\<close> are the
  values of the user. As in the execution of a static schema, futures are ready when they are first polled
  and no extension is registered. The introspection fields are resolved as static types are, by an
  argument of the model. A container spends a unit of fuel, and so does a spread.
\<close>

subsection \<open>Field values and accessors\<close>

datatype 'any field_value =
    FVValue const_value
  | FVAny 'any
  | FVList "'any field_value list"
  | FVWithType "'any field_value" string

fun fv_as_value :: "'any field_value \<Rightarrow> const_value option" where
  "fv_as_value (FVValue v) = Some v"
| "fv_as_value (FVWithType fv _) = fv_as_value fv"
| "fv_as_value _ = None"

fun fv_as_list :: "'any field_value \<Rightarrow> 'any field_value list option" where
  "fv_as_list (FVList fvs) = Some fvs"
| "fv_as_list (FVWithType fv _) = fv_as_list fv"
| "fv_as_list _ = None"

text \<open>The accessors of an argument return an error with a message of their own.\<close>

fun accessor_boolean :: "const_value \<Rightarrow> string + bool" where
  "accessor_boolean (CBoolean b) = Inr b"
| "accessor_boolean _ = Inl ''internal: not a boolean''"

fun accessor_enum_name :: "const_value \<Rightarrow> string + string" where
  "accessor_enum_name (CEnum n) = Inr n"
| "accessor_enum_name (CString s) = Inr s"
| "accessor_enum_name _ = Inl ''internal: not an enum name''"

fun accessor_string :: "const_value \<Rightarrow> string + string" where
  "accessor_string (CString s) = Inr s"
| "accessor_string _ = Inl ''internal: not a string''"

fun accessor_object :: "const_value \<Rightarrow> string + (name \<times> const_value) list" where
  "accessor_object (CObject m) = Inr m"
| "accessor_object _ = Inl ''internal: not an object''"

fun accessor_list :: "const_value \<Rightarrow> string + const_value list" where
  "accessor_list (CList vs) = Inr vs"
| "accessor_list _ = Inl ''internal: not a list''"

definition object_try_get :: "(name \<times> const_value) list \<Rightarrow> name \<Rightarrow> string + const_value" where
  "object_try_get m n =
     (case map_of m n of Some v \<Rightarrow> Inr v | None \<Rightarrow> Inl (''internal: key '' @ quoted n @ '' not found''))"

definition list_try_get :: "const_value list \<Rightarrow> nat \<Rightarrow> string + const_value" where
  "list_try_get vs i =
     (if i < length vs then Inr (vs ! i) else Inl (''internal: index '' @ quoted (show_nat i) @ '' not found''))"

definition list_as_slice :: "const_value list \<Rightarrow> nat \<Rightarrow> nat \<Rightarrow> string + const_value list" where
  "list_as_slice vs first end =
     (if first \<le> end \<and> end \<le> length vs then Inr (take (end - first) (drop first vs))
      else Inl ''internal: invalid slice indices'')"

subsection \<open>Environments\<close>

type_synonym 'any dyn_resolver =
  "(name \<times> const_value) list \<Rightarrow> 'any field_value \<Rightarrow> error_value + 'any field_value option"

type_synonym 'any dyn_stream =
  "(name \<times> const_value) list \<Rightarrow> 'any field_value \<Rightarrow> error_value + (error_value + 'any field_value) list"

datatype system_field = SchemaField | TypeField | ServiceField

record 'any dyn_env =
  de_schema :: "('any dyn_resolver, 'any dyn_stream) dyn_schema"
  de_fragments :: "(name \<times> fragment_definition positioned) list"
  de_definitions :: "variable_definition positioned list"
  de_variables :: variables
  de_introspection_mode :: introspection_mode
  de_system :: "system_field \<Rightarrow> query_path_node option \<Rightarrow> field positioned \<Rightarrow> const_value exec"

definition de_registry :: "'any dyn_env \<Rightarrow> registry" where
  "de_registry env = ys_registry (de_schema env)"

text \<open>The arguments of a field; an omitted variable is dropped, a later argument of a name replaces.\<close>

definition argument_values ::
  "'any dyn_env \<Rightarrow> arguments \<Rightarrow> server_error + (name \<times> const_value) list"
where
  "argument_values env args =
     fold (\<lambda>(n, v) acc.
       result_bind acc (\<lambda>m.
       result_bind (resolve_input_value (de_definitions env) (de_variables env) (pos v) (node v)) (\<lambda>c.
       Inr (case c of Some c \<Rightarrow> alist_insert (node n) c m | None \<Rightarrow> m)))) args (Inr [])"

definition default_arguments ::
  "(string \<times> dyn_input_value) list \<Rightarrow> (name \<times> const_value) list \<Rightarrow> (name \<times> const_value) list"
where
  "default_arguments defs args =
     fold (\<lambda>(n, arg) m.
       case dv_default_value arg of
         Some d \<Rightarrow> if contains_key m n then m else alist_insert n d m
       | None \<Rightarrow> m) defs args"

subsection \<open>Collecting the fields\<close>

datatype 'any dyn_pending =
    DynTypename "field positioned"
  | DynSystem system_field "field positioned"
  | DynEntities "field positioned"
  | DynNull "field positioned"
  | DynField "'any dyn_resolver dyn_field" "field positioned"

fun pending_position :: "'any dyn_pending \<Rightarrow> field positioned" where
  "pending_position (DynTypename fld) = fld"
| "pending_position (DynSystem _ fld) = fld"
| "pending_position (DynEntities fld) = fld"
| "pending_position (DynNull fld) = fld"
| "pending_position (DynField _ fld) = fld"

definition does_fragment_type_apply :: "(string \<times> meta_type) list \<Rightarrow> string \<Rightarrow> string \<Rightarrow> bool" where
  "does_fragment_type_apply types condition object_name =
     (case map_of types condition of Some ty \<Rightarrow> is_possible_type ty object_name | None \<Rightarrow> False)"

definition answers_introspection :: "introspection_mode \<Rightarrow> bool" where
  "answers_introspection m \<longleftrightarrow> m \<in> {IntrospectionEnabled, IntrospectionOnly}"

definition pending_of :: "'any dyn_env \<Rightarrow> 'any dyn_resolver dyn_object \<Rightarrow> field positioned \<Rightarrow> 'any dyn_pending option" where
  "pending_of env t fld =
     (let n = node (f_name (node fld)); reg = de_registry env;
          system =
            (if do_name t = reg_query_type reg \<and> answers_introspection (reg_introspection_mode reg) \<and>
                answers_introspection (de_introspection_mode env)
             then if n = ''__schema'' then Some (DynSystem SchemaField fld)
                  else if n = ''__type'' then Some (DynSystem TypeField fld)
                  else if reg_enable_federation reg \<and> n = ''_service'' then Some (DynSystem ServiceField fld)
                  else if reg_enable_federation reg \<and> n = ''_entities'' then Some (DynEntities fld)
                  else None
             else None)
      in if n = ''__typename'' then Some (DynTypename fld)
         else if system \<noteq> None then system
         else if reg_introspection_mode reg = IntrospectionOnly \<or> de_introspection_mode env = IntrospectionOnly
              then Some (DynNull fld)
              else map_option (\<lambda>f. DynField f fld) (map_of (do_fields t) n))"

definition fragment_applies :: "'any dyn_env \<Rightarrow> 'any dyn_resolver dyn_object \<Rightarrow> string option \<Rightarrow> bool" where
  "fragment_applies env t condition =
     (case condition of
        None \<Rightarrow> True
      | Some c \<Rightarrow> does_fragment_type_apply (reg_types (de_registry env)) c (do_name t))"

function (sequential) dyn_collect ::
  "nat \<Rightarrow> 'any dyn_env \<Rightarrow> 'any dyn_resolver dyn_object \<Rightarrow> selection_set \<Rightarrow> 'any dyn_pending list try_step" where
  "dyn_collect n env t ss =
     try_each (\<lambda>selection.
       case node selection of
         SelField fld \<Rightarrow>
           (\<lambda>fields. Done (Inr (fields @ (case pending_of env t fld of Some p \<Rightarrow> [p] | None \<Rightarrow> []))))
       | SelSpread spread \<Rightarrow>
           (case map_of (de_fragments env) (node (fs_fragment_name (node spread))) of
              None \<Rightarrow> (\<lambda>_. Done (Inl (unknown_fragment spread)))
            | Some fragment \<Rightarrow>
                if fragment_applies env t (Some (node (tc_on (node (fd_type_condition (node fragment))))))
                then (case n of
                        0 \<Rightarrow> (\<lambda>_. OutOfFuel)
                      | Suc m \<Rightarrow> dyn_collect m env t (node (fd_selection_set (node fragment))))
                else try_ok)
       | SelInline inl \<Rightarrow>
           if fragment_applies env t (map_option (\<lambda>c. node (tc_on (node c))) (if_type_condition (node inl)))
           then dyn_collect n env t (node (if_selection_set (node inl)))
           else try_ok)
      (items ss)"
  by pat_completeness auto
termination
proof (relation "measures [\<lambda>(n, env, t, ss). n, \<lambda>(n, env, t, ss). size ss]", goal_cases)
qed (auto dest!: size_item simp: size_selection_field size_selection_inline
    intro: order.strict_trans [OF size_inline_selection_set])

declare dyn_collect.simps [simp del]

subsection \<open>Values of a type reference\<close>

definition null_or :: "const_value option \<Rightarrow> const_value" where
  "null_or v = (case v of Some c \<Rightarrow> c | None \<Rightarrow> CNull)"

definition internal_error :: "query_path_node option \<Rightarrow> field positioned \<Rightarrow> string \<Rightarrow> 'a exec" where
  "internal_error path fld msg =
     ex_fail (set_error_path path
       (into_server_error \<lparr>er_message = ''internal: '' @ msg, er_source = None, er_extensions = None\<rparr> (pos fld)))"

fun dyn_items ::
  "(query_path_node option \<Rightarrow> 'any field_value \<Rightarrow> const_value option exec) \<Rightarrow> query_path_node option \<Rightarrow> nat \<Rightarrow>
   'any field_value list \<Rightarrow> const_value list exec" where
  "dyn_items resolve path i [] = ex_return []"
| "dyn_items resolve path i (fv # fvs) =
     ex_bind (resolve (with_index path i) fv) (\<lambda>v.
     ex_map (Cons (null_or v)) (dyn_items resolve path (i + 1) fvs))"

text \<open>\<open>resolve\<close>, given what resolves a value of a named type.\<close>

fun dyn_resolve ::
  "(string \<Rightarrow> query_path_node option \<Rightarrow> 'any field_value \<Rightarrow> const_value option exec) \<Rightarrow> field positioned \<Rightarrow>
   type_ref \<Rightarrow> query_path_node option \<Rightarrow> 'any field_value option \<Rightarrow> const_value option exec" where
  "dyn_resolve named fld (TRNamed n) path None = ex_return None"
| "dyn_resolve named fld (TRNamed n) path (Some fv) = named n path fv"
| "dyn_resolve named fld (TRNonNull t) path None =
     internal_error path fld ''non-null types require a return value''"
| "dyn_resolve named fld (TRNonNull t) path (Some fv) =
     ex_bind (dyn_resolve named fld t path (Some fv)) (\<lambda>r.
       case r of
         Some v \<Rightarrow> ex_return (Some v)
       | None \<Rightarrow> internal_error path fld ''non-null types require a return value'')"
| "dyn_resolve named fld (TRList t) path None = ex_return None"
| "dyn_resolve named fld (TRList t) path (Some fv) =
     (case fv of
        FVValue CNull \<Rightarrow> ex_return None
      | FVList fvs \<Rightarrow>
          ex_map (Some \<circ> CList) (dyn_items (\<lambda>path' fv'. dyn_resolve named fld t path' (Some fv')) path 0 fvs)
      | FVValue (CList vs) \<Rightarrow>
          ex_map (Some \<circ> CList)
            (dyn_items (\<lambda>path' fv'. dyn_resolve named fld t path' (Some fv')) path 0 (map FVValue vs))
      | _ \<Rightarrow> internal_error path fld ''expects an array'')"

text \<open>The object of a value that says its type, in an interface or a union.\<close>

definition typed_object ::
  "'any dyn_env \<Rightarrow> query_path_node option \<Rightarrow> field positioned \<Rightarrow> string \<Rightarrow> 'any dyn_resolver dyn_object exec" where
  "typed_object env path fld n =
     (case map_of (ys_types (de_schema env)) n of
        None \<Rightarrow> internal_error path fld (''object '' @ quoted n @ '' does not registered'')
      | Some ty \<Rightarrow>
          (case as_object ty of
             None \<Rightarrow> internal_error path fld (''type '' @ quoted n @ '' is not object'')
           | Some t \<Rightarrow> ex_return t))"

definition implements_interface :: "registry \<Rightarrow> string \<Rightarrow> string \<Rightarrow> bool" where
  "implements_interface reg interface n =
     (case Option.bind (map_of (reg_types reg) interface) possible_types of Some ts \<Rightarrow> n \<in> set ts | None \<Rightarrow> False)"

definition enum_item_value ::
  "dyn_enum \<Rightarrow> query_path_node option \<Rightarrow> field positioned \<Rightarrow> string \<Rightarrow> const_value option exec" where
  "enum_item_value e path fld n =
     (if contains_key (den_enum_values e) n then ex_return (Some (CEnum n))
      else internal_error path fld (''invalid item for enum '' @ quoted (den_name e)))"

text \<open>\<open>resolve_value\<close>, given what resolves a container at a path.\<close>

definition dyn_resolve_value ::
  "'any dyn_env \<Rightarrow>
   (query_path_node option \<Rightarrow> 'any dyn_resolver dyn_object \<Rightarrow> 'any field_value \<Rightarrow> const_value option exec) \<Rightarrow>
   field positioned \<Rightarrow> query_path_node option \<Rightarrow> ('any dyn_resolver, 'any dyn_stream) dyn_type \<Rightarrow> 'any field_value \<Rightarrow>
   const_value option exec" where
  "dyn_resolve_value env container fld path ty fv =
     (case ty of
        DScalar t \<Rightarrow>
          (case fv of
             FVValue v \<Rightarrow>
               if v = CNull then ex_return None
               else if dyn_scalar_validate t v then ex_return (Some v)
               else internal_error path fld (''invalid value for scalar '' @ quoted (dsc_name t) @ '', expected '' @ quoted ''FieldValue::Value'')
           | _ \<Rightarrow> internal_error path fld (''invalid value for scalar '' @ quoted (dsc_name t) @ '', expected '' @ quoted ''FieldValue::Value''))
      | DObject t \<Rightarrow> container path t fv
      | DInputObject t \<Rightarrow> internal_error path fld (''cannot use input object '' @ quoted (dio_name t) @ '' as output value'')
      | DEnum e \<Rightarrow>
          (case fv of
             FVValue CNull \<Rightarrow> ex_return None
           | FVValue (CEnum n) \<Rightarrow> enum_item_value e path fld n
           | FVValue (CString n) \<Rightarrow> enum_item_value e path fld n
           | _ \<Rightarrow> internal_error path fld (''invalid item for enum '' @ quoted (den_name e)))
      | DInterface i \<Rightarrow>
          (case fv of
             FVWithType v n \<Rightarrow>
               if implements_interface (de_registry env) (din_name i) n
               then ex_bind (typed_object env path fld n) (\<lambda>t. container path t v)
               else internal_error path fld (''object '' @ quoted n @ '' does not implement interface '' @ quoted (din_name i))
           | _ \<Rightarrow> internal_error path fld (''invalid value for interface '' @ quoted (din_name i) @ '', expected '' @ quoted ''FieldValue::WithType''))
      | DUnion u \<Rightarrow>
          (case fv of
             FVWithType v n \<Rightarrow>
               if n \<in> set (dun_possible_types u)
               then ex_bind (typed_object env path fld n) (\<lambda>t. container path t v)
               else internal_error path fld (''union '' @ quoted (dun_name u) @ '' does not contain object '' @ quoted n)
           | _ \<Rightarrow> internal_error path fld (''invalid value for union '' @ quoted (dun_name u) @ '', expected '' @ quoted ''FieldValue::WithType''))
      | DSubscription t \<Rightarrow> internal_error path fld (''cannot use subscription '' @ quoted (dsu_name t) @ '' as output value'')
      | DUpload \<Rightarrow> internal_error path fld ''cannot use upload as output value'')"

text \<open>The type is looked up by an index that panics when it is not there.\<close>

definition dyn_named ::
  "'any dyn_env \<Rightarrow>
   (query_path_node option \<Rightarrow> 'any dyn_resolver dyn_object \<Rightarrow> 'any field_value \<Rightarrow> const_value option exec) \<Rightarrow>
   field positioned \<Rightarrow> string \<Rightarrow> query_path_node option \<Rightarrow> 'any field_value \<Rightarrow> const_value option exec" where
  "dyn_named env container fld n path fv =
     (case map_of (ys_types (de_schema env)) n of
        None \<Rightarrow> (\<lambda>_. Panicked)
      | Some ty \<Rightarrow> dyn_resolve_value env container fld path ty fv)"

subsection \<open>Containers\<close>

definition ex_lift :: "server_error + 'a \<Rightarrow> 'a exec" where
  "ex_lift r = (case r of Inl e \<Rightarrow> ex_fail e | Inr x \<Rightarrow> ex_return x)"

text \<open>The error of a resolver is located at the field, and has no path.\<close>

definition resolver_result :: "field positioned \<Rightarrow> error_value + 'a \<Rightarrow> 'a exec" where
  "resolver_result fld r = (case r of Inl e \<Rightarrow> ex_fail (into_server_error e (pos fld)) | Inr x \<Rightarrow> ex_return x)"

definition dyn_pending_value ::
  "'any dyn_env \<Rightarrow>
   (selection_set \<Rightarrow> query_path_node option \<Rightarrow> 'any dyn_resolver dyn_object \<Rightarrow> 'any field_value \<Rightarrow> const_value option exec) \<Rightarrow>
   query_path_node option \<Rightarrow> 'any dyn_resolver dyn_object \<Rightarrow> 'any field_value \<Rightarrow> 'any dyn_pending \<Rightarrow> const_value exec" where
  "dyn_pending_value env container path t parent p =
     (let fld = pending_position p; ctx = with_field path (node fld);
          named = dyn_named env (container (node (f_selection_set (node fld)))) fld
      in case p of
           DynTypename _ \<Rightarrow> ex_return (CString (do_name t))
         | DynSystem s _ \<Rightarrow> de_system env s path fld
         | DynNull _ \<Rightarrow> ex_return CNull
         | DynEntities _ \<Rightarrow>
             (case ys_entity_resolver (de_schema env) of
                None \<Rightarrow> internal_error ctx fld ''missing entity resolver''
              | Some resolver \<Rightarrow>
                  ex_bind (ex_lift (argument_values env (f_arguments (node fld)))) (\<lambda>args.
                  ex_bind (resolver_result fld (resolver args parent)) (\<lambda>fv.
                  ex_map null_or (dyn_resolve named fld (named_list_nn ''_Entity'') ctx fv))))
         | DynField f _ \<Rightarrow>
             ex_bind (ex_lift (argument_values env (f_arguments (node fld)))) (\<lambda>args.
             ex_bind (resolver_result fld (df_resolver_fn f (default_arguments (df_arguments f) args) parent)) (\<lambda>fv.
             ex_map null_or (dyn_resolve named fld (df_ty f) ctx fv))))"

fun dyn_pending_values ::
  "('any dyn_pending \<Rightarrow> const_value exec) \<Rightarrow> 'any dyn_pending list \<Rightarrow> (name \<times> const_value) list exec" where
  "dyn_pending_values value_of [] = ex_return []"
| "dyn_pending_values value_of (p # ps) =
     ex_bind (value_of p) (\<lambda>v.
     ex_map (Cons (node (response_key (node (pending_position p))), v)) (dyn_pending_values value_of ps))"

definition dyn_collect_all ::
  "nat \<Rightarrow> 'any dyn_env \<Rightarrow> 'any dyn_resolver dyn_object \<Rightarrow> selection_set \<Rightarrow> 'any dyn_pending list exec" where
  "dyn_collect_all n env t ss = (\<lambda>errs. run_map (\<lambda>r. (r, errs)) (dyn_collect n env t ss []))"

fun dyn_container ::
  "nat \<Rightarrow> 'any dyn_env \<Rightarrow> selection_set \<Rightarrow> query_path_node option \<Rightarrow> 'any dyn_resolver dyn_object \<Rightarrow> 'any field_value \<Rightarrow>
   const_value option exec" where
  "dyn_container 0 env ss path t parent = (\<lambda>_. OutOfFuel)"
| "dyn_container (Suc n) env ss path t parent =
     ex_bind (dyn_collect_all n env t ss) (\<lambda>fields.
     ex_map (Some \<circ> create_value_object)
       (dyn_pending_values (dyn_pending_value env (dyn_container n env) path t parent) fields))"

subsection \<open>Executing\<close>

definition dyn_execute_once ::
  "nat \<Rightarrow> 'any dyn_env \<Rightarrow> operation_definition \<Rightarrow> 'any field_value \<Rightarrow> response run" where
  "dyn_execute_once n env op root_value =
     (let sc = de_schema env;
          container = (\<lambda>root. ex_bind (ex_lift root) (\<lambda>t.
            dyn_container n env (node (od_selection_set op)) None t root_value))
      in run_map
           (\<lambda>(res, errs).
              let resp = (case res of Inr v \<Rightarrow> response_new (null_or v) | Inl e \<Rightarrow> response_from_errors [e])
              in resp\<lparr>rs_errors := dyn_format_errors sc (rs_errors resp @ errs)\<rparr>)
           (case od_ty op of
              Query \<Rightarrow> container (dyn_query_root sc) []
            | Mutation \<Rightarrow> container (dyn_mutation_root sc) []
            | Subscription \<Rightarrow>
                ex_fail (server_error_new ''Subscriptions are not supported on this transport.'' None) []))"

subsection \<open>Subscriptions\<close>

text \<open>The responses of one field: an event that fails is the last one, and so is an error of the stream,
  which has the path of the field.\<close>

fun dyn_event_responses ::
  "(error_value \<Rightarrow> server_error) \<Rightarrow> ('any field_value \<Rightarrow> response run) \<Rightarrow> (error_value + 'any field_value) list \<Rightarrow>
   response list run" where
  "dyn_event_responses locate event [] = Done []"
| "dyn_event_responses locate event (Inl e # evs) = Done [response_from_errors [locate e]]"
| "dyn_event_responses locate event (Inr fv # evs) =
     run_bind (event fv) (\<lambda>resp.
     if rs_errors resp \<noteq> [] then Done [resp]
     else run_map (Cons resp) (dyn_event_responses locate event evs))"

definition dyn_event ::
  "nat \<Rightarrow> 'any dyn_env \<Rightarrow> field positioned \<Rightarrow> type_ref \<Rightarrow> 'any field_value \<Rightarrow> response run" where
  "dyn_event n env fld ty fv =
     run_map (\<lambda>(r, _).
       case r of
         Inr v \<Rightarrow> response_new (CObject [(node (response_key (node fld)), null_or v)])
       | Inl e \<Rightarrow> response_from_errors [e])
     (dyn_resolve (dyn_named env (dyn_container n env (node (f_selection_set (node fld)))) fld) fld ty
        (with_field None (node fld)) (Some fv) [])"

definition dyn_field_stream ::
  "nat \<Rightarrow> 'any dyn_env \<Rightarrow> 'any dyn_stream dyn_subscription_field \<Rightarrow> field positioned \<Rightarrow> 'any field_value \<Rightarrow> response list run" where
  "dyn_field_stream n env f fld root_value =
     (let locate = (\<lambda>e. set_error_path (with_field None (node fld)) (into_server_error e (pos fld)))
      in case argument_values env (f_arguments (node fld)) of
           Inl e \<Rightarrow> Done [response_from_errors [e]]
         | Inr args \<Rightarrow>
             (case ds_resolver_fn f args root_value of
                Inl e \<Rightarrow> Done [response_from_errors [locate e]]
              | Inr events \<Rightarrow> dyn_event_responses locate (dyn_event n env fld (ds_ty f)) events))"

text \<open>\<open>collect_streams\<close>: one stream for each field of the selection set itself; their responses interleave.\<close>

definition collect_streams ::
  "nat \<Rightarrow> 'any dyn_env \<Rightarrow> 'any dyn_stream dyn_subscription \<Rightarrow> selection_set \<Rightarrow> 'any field_value \<Rightarrow> response list run list" where
  "collect_streams n env sub ss root_value =
     concat (map (\<lambda>selection.
       case node selection of
         SelField fld \<Rightarrow>
           (case map_of (dsu_fields sub) (node (f_name (node fld))) of
              Some f \<Rightarrow> [dyn_field_stream n env f fld root_value]
            | None \<Rightarrow> [])
       | _ \<Rightarrow> []) (items ss))"

end
