(* ===== verification/Dynamic_Check_Facts.thy ===== *)
theory Dynamic_Check_Facts
  imports Dynamic_Schema
begin

text \<open>
  What the check of a dynamic schema accepts: input objects without a cycle of required references, and
  schemas that are well formed, stated without the order in which the check looks. The subtypes of a
  reference are those with fewer nulls; the check asks for them in the wrong direction.
\<close>

subsection \<open>Loops\<close>

text \<open>A loop whose body leaves the state as it is or ends with the one error; a loop without a state.\<close>

lemma try_loop_const:
  assumes "\<And>x. x \<in> set xs \<Longrightarrow> f x c = (if P x then Done (Inl e) else Done (Inr c))"
  shows "try_loop f xs c = (if \<exists>x\<in>set xs. P x then Done (Inl e) else Done (Inr c))"
  using assms by (induction xs) auto

lemma try_loop_unit:
  "try_loop f (x # xs) () =
     (case f x () of Done (Inl e) \<Rightarrow> Done (Inl e) | Done (Inr _) \<Rightarrow> try_loop f xs () | Panicked \<Rightarrow> Panicked | OutOfFuel \<Rightarrow> OutOfFuel)"
  by (simp split: run.splits sum.splits unit.splits)

lemma try_loop_ok:
  "try_loop f xs () = Done (Inr ()) \<longleftrightarrow> (\<forall>x\<in>set xs. f x () = Done (Inr ()))"
  by (induction xs) (simp_all only: try_loop_unit, auto split: run.splits sum.splits)

lemma try_loop_returns:
  "(\<And>x. x \<in> set xs \<Longrightarrow> returns (f x ())) \<Longrightarrow> returns (try_loop f xs ())"
proof (induction xs)
  case (Cons x xs)
  from Cons.prems [of x] obtain r where "f x () = Done r" by (auto simp: returns_iff)
  with Cons show ?case by (simp only: try_loop_unit) (simp split: sum.splits)
qed simp

lemma as_input_object_iff: "as_input_object ty = Some t \<longleftrightarrow> ty = DInputObject t"
  by (cases ty) auto

lemma as_input_object_None: "as_input_object ty = None \<longleftrightarrow> (\<forall>t. ty \<noteq> DInputObject t)"
  by (cases ty) auto

lemma as_interface_iff: "as_interface ty = Some t \<longleftrightarrow> ty = DInterface t"
  by (cases ty) auto

lemma is_object_iff: "is_object ty \<longleftrightarrow> (\<exists>t. ty = DObject t)"
  by (cases ty) auto

subsection \<open>Input objects that require each other\<close>

text \<open>An input object requires the types of its fields that are neither nullable nor lists.\<close>

definition requires :: "('r, 's) dyn_types \<Rightarrow> (string \<times> string) set" where
  "requires types =
     {(a, b). \<exists>t f. map_of types a = Some (DInputObject t) \<and> f \<in> snd ` set (dio_fields t) \<and>
                    dv_ty f = TRNonNull (TRNamed b)}"

text \<open>The paths the search walks: from an input object to the current name, no name twice.\<close>

inductive finds :: "('r, 's) dyn_types \<Rightarrow> string \<Rightarrow> string set \<Rightarrow> string \<Rightarrow> bool" for types current where
  finds_here: "(a, current) \<in> requires types \<Longrightarrow> finds types current chain a"
| finds_there: "(a, x) \<in> requires types \<Longrightarrow> x \<noteq> current \<Longrightarrow> x \<notin> chain \<Longrightarrow> finds types current (insert x chain) x \<Longrightarrow>
    finds types current chain a"

lemma finds_trancl: "finds types current chain a \<Longrightarrow> (a, current) \<in> (requires types)\<^sup>+"
  by (induction rule: finds.induct) (auto intro: trancl_into_trancl2)

text \<open>A path as the list of the names between its ends.\<close>

fun path_via :: "(string \<times> string) set \<Rightarrow> string \<Rightarrow> string list \<Rightarrow> string \<Rightarrow> bool" where
  "path_via E a [] b \<longleftrightarrow> (a, b) \<in> E"
| "path_via E a (x # xs) b \<longleftrightarrow> (a, x) \<in> E \<and> path_via E x xs b"

lemma path_via_append: "path_via E a (us @ x # vs) b \<longleftrightarrow> path_via E a us x \<and> path_via E x vs b"
  by (induction us arbitrary: a) auto

lemma trancl_path: "(a, b) \<in> E\<^sup>+ \<Longrightarrow> \<exists>xs. path_via E a xs b"
proof (induction rule: trancl_induct)
  case (base y)
  then show ?case by (intro exI [of _ "[]"]) simp
next
  case (step y z)
  then obtain xs where "path_via E a xs y" by blast
  with step.hyps(2) have "path_via E a (xs @ y # []) z" by (simp only: path_via_append path_via.simps simp_thms)
  then show ?case by blast
qed

lemma path_finds:
  "path_via (requires types) a xs current \<Longrightarrow> set xs \<inter> chain = {} \<Longrightarrow> finds types current chain a"
proof (induction "length xs" arbitrary: a xs chain rule: less_induct)
  case less
  show ?case
  proof (cases xs)
    case Nil
    with less.prems show ?thesis by (auto intro: finds_here)
  next
    case (Cons x zs)
    note prems = less.prems [unfolded Cons]
    show ?thesis
    proof (cases "x = current")
      case True
      with prems show ?thesis by (auto intro: finds_here)
    next
      case False
      have "\<exists>vs. path_via (requires types) x vs current \<and> x \<notin> set vs \<and> set vs \<subseteq> set zs \<and> length vs \<le> length zs"
      proof (cases "x \<in> set zs")
        case True
        then obtain us vs where "zs = us @ x # vs" "x \<notin> set vs" by (meson split_list_last)
        with prems(1) show ?thesis by (intro exI [of _ vs]) (auto simp: path_via_append)
      next
        case False
        with prems(1) show ?thesis by (intro exI [of _ zs]) auto
      qed
      then obtain vs where vs: "path_via (requires types) x vs current" "x \<notin> set vs" "set vs \<subseteq> set zs" "length vs \<le> length zs"
        by blast
      then have "finds types current (insert x chain) x"
        using prems(2) by (intro less.hyps [of vs]) (auto simp: Cons)
      then show ?thesis
        using prems False by (auto intro: finds_there)
    qed
  qed
qed

lemma finds_iff: "finds types current {} a \<longleftrightarrow> (a, current) \<in> (requires types)\<^sup>+"
  using finds_trancl [of types current "{}" a] trancl_path [of a current "requires types"] path_finds [of types a _ current "{}"]
  by blast

subsection \<open>The search is exact\<close>

lemma keys_finite: "finite (dom (map_of types))"
  by (rule finite_dom_map_of)

text \<open>The outcome of a search with enough fuel for the names that are not on the path.\<close>

lemma reference_search:
  assumes "map_of types a = Some (DInputObject obj)" "card (dom (map_of types) - chain) < n"
  shows "check_input_object_reference n types current obj chain =
    (if finds types current chain a then Done (Inl (self_reference current)) else Done (Inr chain))"
  using assms
proof (induction n arbitrary: a obj chain)
  case (Suc n)
  let ?body = "\<lambda>(_, f) chain.
       case typeref_nonnullable_name (dv_ty f) of
         None \<Rightarrow> Done (Inr chain)
       | Some this_name \<Rightarrow>
           if this_name = current then Done (Inl (self_reference current))
           else case Option.bind (map_of types (tr_type_name (dv_ty f))) as_input_object of
                  None \<Rightarrow> Done (Inr chain)
                | Some obj' \<Rightarrow>
                    if this_name \<in> chain then Done (Inr chain)
                    else run_map (map_sum id (\<lambda>c. c - {this_name}))
                           (check_input_object_reference n types current obj' (insert this_name chain))"
  let ?found = "\<lambda>f. \<exists>x. dv_ty f = TRNonNull (TRNamed x) \<and>
      (x = current \<or> x \<notin> chain \<and> x \<noteq> current \<and> finds types current (insert x chain) x)"
  have body: "?body kf chain = (if ?found (snd kf) then Done (Inl (self_reference current)) else Done (Inr chain))"
    if kf: "kf \<in> set (dio_fields obj)" for kf
  proof (cases "typeref_nonnullable_name (dv_ty (snd kf))")
    case None
    then show ?thesis by (cases kf) (auto split: option.splits)
  next
    case (Some x)
    then have ty: "dv_ty (snd kf) = TRNonNull (TRNamed x)" by (simp add: typeref_nonnullable_name_iff)
    show ?thesis
    proof (cases "\<exists>obj'. x \<noteq> current \<and> x \<notin> chain \<and> map_of types x = Some (DInputObject obj')")
      case True
      then obtain obj' where x: "x \<noteq> current" "x \<notin> chain" "map_of types x = Some (DInputObject obj')" by blast
      from x have "x \<in> dom (map_of types) - chain" by auto
      then have "card (dom (map_of types) - insert x chain) < card (dom (map_of types) - chain)"
        by (intro psubset_card_mono) (auto simp: keys_finite)
      then have "card (dom (map_of types) - insert x chain) < n" using Suc.prems(2) by simp
      from Suc.IH [OF x(3) this] x ty show ?thesis
        by (cases kf) auto
    next
      case False
      then have "\<not> finds types current (insert x chain) x" if "x \<noteq> current" "x \<notin> chain"
        using that by (auto simp: requires_def elim: finds.cases)
      moreover have "Option.bind (map_of types x) as_input_object = None" if "x \<noteq> current" "x \<notin> chain"
        using False that by (cases "map_of types x") (simp_all add: as_input_object_None)
      ultimately show ?thesis
        using ty by (cases kf) (auto split: option.splits)
    qed
  qed
  have edge: "(a, x) \<in> requires types \<longleftrightarrow> (\<exists>f\<in>snd ` set (dio_fields obj). dv_ty f = TRNonNull (TRNamed x))" for x
    using Suc.prems(1) by (auto simp: requires_def)
  have found: "finds types current chain a \<longleftrightarrow> (\<exists>f\<in>snd ` set (dio_fields obj). ?found f)"
    by (subst finds.simps) (auto simp: edge)
  have "try_loop ?body (dio_fields obj) chain =
    (if \<exists>kf\<in>set (dio_fields obj). ?found (snd kf) then Done (Inl (self_reference current)) else Done (Inr chain))"
    by (rule try_loop_const) (rule body)
  then show ?case by (simp only: check_input_object_reference.simps found bex_simps)
qed simp

lemma card_keys: "card (dom (map_of types)) \<le> length types"
  by (metis dom_map_of_conv_image_fst card_length length_map list.set_map)

lemma reference_search_cycle:
  assumes "map_of types n = Some (DInputObject t)"
  shows "check_input_object_reference (reference_fuel types) types n t {} =
    (if (n, n) \<in> (requires types)\<^sup>+ then Done (Inl (self_reference n)) else Done (Inr {}))"
proof -
  have "card (dom (map_of types) - {}) < reference_fuel types"
    using card_keys [of types] by (simp add: reference_fuel_def)
  from reference_search [OF assms this] show ?thesis
    by (simp add: finds_iff)
qed

text \<open>C8: The search for a chain of required references through an input object ends, and it is an error
  exactly when the input object requires itself, directly or through others, whatever other cycles there
  are; when there is none it leaves the set of names on its path empty again.\<close>

theorem required_cycle_found:
  assumes "map_of types n = Some (DInputObject t)"
  shows "check_input_object_reference (reference_fuel types) types n t {} =
    (if (n, n) \<in> (requires types)\<^sup>+ then Done (Inl (self_reference n)) else Done (Inr {}))"
  by (rule reference_search_cycle [OF assms])

text \<open>Three input objects, two of which require each other, and a third that requires one of them.\<close>

definition sample_input :: "string \<Rightarrow> type_ref \<Rightarrow> dyn_input_object" where
  "sample_input n ty = (dyn_input_object_new n)\<lparr>dio_fields := [(''f'', dyn_input_value_new ''f'' ty)]\<rparr>"

definition sample_inputs :: "(unit, unit) dyn_types" where
  "sample_inputs =
     [(''Top'', DInputObject (sample_input ''Top'' (named_nn ''Mid''))),
      (''Mid'', DInputObject (sample_input ''Mid'' (named_nn ''Bot''))),
      (''Bot'', DInputObject (sample_input ''Bot'' (named_nn ''Mid'')))]"

theorem required_cycle_found_witness:
  "(''Mid'', ''Mid'') \<in> (requires sample_inputs)\<^sup>+ \<and> (''Top'', ''Top'') \<notin> (requires sample_inputs)\<^sup>+"
proof -
  have found: "check_input_object_reference (reference_fuel sample_inputs) sample_inputs n (sample_input n ty) {} =
      (if (n, n) \<in> (requires sample_inputs)\<^sup>+ then Done (Inl (self_reference n)) else Done (Inr {}))"
    if "map_of sample_inputs n = Some (DInputObject (sample_input n ty))" for n ty
    using that by (rule required_cycle_found)
  note defs = sample_inputs_def sample_input_def dyn_input_object_new_def dyn_input_value_new_def named_nn_def
    reference_fuel_def
  have "check_input_object_reference (reference_fuel sample_inputs) sample_inputs ''Mid''
      (sample_input ''Mid'' (named_nn ''Bot'')) {} = Done (Inl (self_reference ''Mid''))"
    and "check_input_object_reference (reference_fuel sample_inputs) sample_inputs ''Top''
      (sample_input ''Top'' (named_nn ''Mid'')) {} = Done (Inr {})"
    by (simp_all add: defs eval_nat_numeral)
  then show ?thesis
    using found [of "''Mid''" "named_nn ''Bot''"] found [of "''Top''" "named_nn ''Mid''"]
    by (simp add: sample_inputs_def self_reference_def split: if_splits)
qed

subsection \<open>Well-formed schemas\<close>

text \<open>The types of a builder are under their own names.\<close>

definition keyed_by_name :: "('r, 's) dyn_types \<Rightarrow> bool" where
  "keyed_by_name types \<longleftrightarrow> distinct (map fst types) \<and> (\<forall>(k, ty)\<in>set types. dt_name ty = k)"

definition gives_output :: "('r, 's) dyn_types \<Rightarrow> string \<Rightarrow> bool" where
  "gives_output types n \<longleftrightarrow> (\<exists>ty. map_of types n = Some ty \<and> dt_is_output_type ty)"

definition takes_input :: "('r, 's) dyn_types \<Rightarrow> string \<Rightarrow> bool" where
  "takes_input types n \<longleftrightarrow> (\<exists>ty. map_of types n = Some ty \<and> dt_is_input_type ty)"

definition good_field :: "('r, 's) dyn_types \<Rightarrow> 'f dyn_field \<Rightarrow> bool" where
  "good_field types f \<longleftrightarrow>
     \<not> reserved (df_name f) \<and> gives_output types (tr_type_name (df_ty f)) \<and>
     (\<forall>a\<in>snd ` set (df_arguments f). \<not> reserved (dv_name a) \<and> takes_input types (tr_type_name (dv_ty a)))"

definition good_implementation :: "('r, 's) dyn_types \<Rightarrow> (string \<times> 'f dyn_field) list \<Rightarrow> string \<Rightarrow> bool" where
  "good_implementation types impl_fields n \<longleftrightarrow>
     (\<exists>i. map_of types n = Some (DInterface i) \<and>
       (\<forall>f\<in>snd ` set (din_fields i).
          \<exists>g. map_of impl_fields (df_name f) = Some g \<and> tr_is_subtype (df_ty g) (df_ty f) \<and>
            (\<forall>a\<in>snd ` set (df_arguments f).
               case map_of (df_arguments g) (dv_name a) of
                 Some b \<Rightarrow> tr_is_subtype (dv_ty a) (dv_ty b)
               | None \<Rightarrow> tr_is_nullable (dv_ty a))))"

text \<open>The fields of a subscription only have to name types.\<close>

fun good_type :: "registry \<Rightarrow> ('r, 's) dyn_types \<Rightarrow> ('r, 's) dyn_type \<Rightarrow> bool" where
  "good_type reg types (DObject t) \<longleftrightarrow>
     (do_fields t \<noteq> [] \<or> do_name t = reg_query_type reg \<and> has_entities reg) \<and>
     (\<forall>f\<in>snd ` set (do_fields t). good_field types f) \<and>
     (\<forall>n\<in>set (do_implements t). good_implementation types (do_fields t) n)"
| "good_type reg types (DInterface t) \<longleftrightarrow>
     (\<forall>f\<in>snd ` set (din_fields t). good_field types f) \<and>
     din_name t \<notin> set (din_implements t) \<and>
     (\<forall>n\<in>set (din_implements t). good_implementation types (din_fields t) n)"
| "good_type reg types (DInputObject t) \<longleftrightarrow>
     (\<forall>f\<in>snd ` set (dio_fields t).
        \<not> reserved (dv_name f) \<and> takes_input types (tr_type_name (dv_ty f)) \<and>
        (dio_oneof t \<longrightarrow> tr_is_nullable (dv_ty f) \<and> dv_default_value f = None)) \<and>
     (dio_name t, dio_name t) \<notin> (requires types)\<^sup>+"
| "good_type reg types (DUnion t) \<longleftrightarrow> (\<forall>n\<in>set (dun_possible_types t). \<exists>ob. map_of types n = Some (DObject ob))"
| "good_type reg types (DSubscription t) \<longleftrightarrow>
     (\<forall>f\<in>snd ` set (dsu_fields t). contains_key types (tr_type_name (ds_ty f)) \<and>
        (\<forall>a\<in>snd ` set (ds_arguments f). contains_key types (tr_type_name (dv_ty a))))"
| "good_type reg types _ \<longleftrightarrow> True"

definition good_schema :: "registry \<Rightarrow> ('r, 's) dyn_types \<Rightarrow> bool" where
  "good_schema reg types \<longleftrightarrow>
     (\<exists>q. map_of types (reg_query_type reg) = Some (DObject q)) \<and>
     (\<forall>m. reg_mutation_type reg = Some m \<longrightarrow> (\<exists>t. map_of types m = Some (DObject t))) \<and>
     (\<forall>s ty. reg_subscription_type reg = Some s \<longrightarrow> map_of types s = Some ty \<longrightarrow> is_subscription ty) \<and>
     (\<forall>ty\<in>snd ` set types. good_type reg types ty)"

lemmas check_ok_simps =
  try_all_ok contains_key_def case_prod_beta as_interface_iff gives_output_def takes_input_def

lemma check_names_ok [simp]: "check_names types ns = Inr () \<longleftrightarrow> (\<forall>n\<in>set ns. contains_key types n)"
  by (simp add: check_names_def try_all_ok)

lemma check_field_ok:
  "contains_key types (tr_type_name (df_ty f)) \<and>
   (\<forall>a\<in>snd ` set (df_arguments f). contains_key types (tr_type_name (dv_ty a))) \<and>
   check_field types owner f = Inr () \<longleftrightarrow> good_field types f"
  by (auto simp: check_field_def check_argument_def good_field_def Let_def check_ok_simps)

lemma field_names_known:
  "(\<forall>n\<in>set (field_names m). contains_key types n) \<longleftrightarrow>
   (\<forall>f\<in>snd ` set m. contains_key types (tr_type_name (df_ty f)) \<and>
      (\<forall>a\<in>snd ` set (df_arguments f). contains_key types (tr_type_name (dv_ty a))))"
  by (auto simp: field_names_def case_prod_beta)

lemma check_fields_ok:
  "(\<forall>n\<in>set (field_names m). contains_key types n) \<and> try_all (\<lambda>(_, f). check_field types owner f) m = Inr () \<longleftrightarrow>
   (\<forall>f\<in>snd ` set m. good_field types f)"
  unfolding field_names_known by (auto simp: try_all_ok case_prod_beta simp flip: check_field_ok [of types _ owner])

lemma check_implements_ok:
  "(\<forall>n\<in>set ns. contains_key types n) \<and> check_implements types kind owner impl_fields ns = Inr () \<longleftrightarrow>
   (\<forall>n\<in>set ns. good_implementation types impl_fields n)"
proof -
  have field_ok: "check_implementing_field kind owner impl_fields i f = Inr () \<longleftrightarrow>
     (\<exists>g. map_of impl_fields (df_name f) = Some g \<and> tr_is_subtype (df_ty g) (df_ty f) \<and>
            (\<forall>a\<in>snd ` set (df_arguments f).
               case map_of (df_arguments g) (dv_name a) of
                 Some b \<Rightarrow> tr_is_subtype (dv_ty a) (dv_ty b)
               | None \<Rightarrow> tr_is_nullable (dv_ty a)))" for i f
    by (auto simp: check_implementing_field_def check_implementing_argument_def try_all_ok case_prod_beta
        split: option.splits)
  have "contains_key types n \<and>
      (case map_of types n of None \<Rightarrow> Inr () | Some ty \<Rightarrow>
         (case as_interface ty of None \<Rightarrow> Inl (''Type '' @ quoted n @ '' is not interface'')
          | Some interface \<Rightarrow> check_is_valid_implementation kind owner impl_fields interface)) = Inr () \<longleftrightarrow>
      good_implementation types impl_fields n" for n
    by (auto simp: contains_key_def good_implementation_def check_is_valid_implementation_def as_interface_iff field_ok
        try_all_ok case_prod_beta split: option.splits)
  then show ?thesis
    by (auto simp: check_implements_def try_all_ok)
qed

text \<open>What the loops of the check ask of one type.\<close>

fun type_accepted :: "registry \<Rightarrow> ('r, 's) dyn_types \<Rightarrow> ('r, 's) dyn_type \<Rightarrow> bool" where
  "type_accepted reg types (DObject t) \<longleftrightarrow> check_object reg types t = Inr ()"
| "type_accepted reg types (DInputObject t) \<longleftrightarrow> check_input_object types t = Done (Inr ())"
| "type_accepted reg types (DInterface t) \<longleftrightarrow> check_interface types t = Inr ()"
| "type_accepted reg types (DUnion t) \<longleftrightarrow> check_union types t = Inr ()"
| "type_accepted reg types _ \<longleftrightarrow> True"

lemma check_input_object_returns:
  assumes "map_of types (dio_name t) = Some (DInputObject t)"
  shows "returns (check_input_object types t)"
    "check_input_object types t = Done (Inr ()) \<longleftrightarrow>
       (\<forall>f\<in>snd ` set (dio_fields t). check_input_field types t f = Inr ()) \<and> (dio_name t, dio_name t) \<notin> (requires types)\<^sup>+"
  using try_all_ok [of "\<lambda>(_, f). check_input_field types t f" "dio_fields t"]
  unfolding check_input_object_def reference_search_cycle [OF assms]
  by (auto simp: case_prod_beta split: sum.splits)

lemma keyed_lookup: "keyed_by_name types \<Longrightarrow> (k, ty) \<in> set types \<Longrightarrow> map_of types (dt_name ty) = Some ty"
  by (auto simp: keyed_by_name_def)

lemma check_schema_loops:
  assumes "keyed_by_name types"
  shows "returns (check_schema reg types)"
    and "check_schema reg types = Done (Inr ()) \<longleftrightarrow>
      check_types_exists reg types = Inr () \<and> check_root_types reg types = Inr () \<and>
      (\<forall>ty\<in>snd ` set types. type_accepted reg types ty)"
proof -
  have input: "(case ty of DInputObject t \<Rightarrow> check_input_object types t | _ \<Rightarrow> Done (Inr ())) = Done (Inr ()) \<longleftrightarrow>
      (\<forall>t. ty = DInputObject t \<longrightarrow> check_input_object types t = Done (Inr ()))"
    and returned: "(k, ty) \<in> set types \<Longrightarrow>
      returns (case ty of DInputObject t \<Rightarrow> check_input_object types t | _ \<Rightarrow> Done (Inr ()))" for k ty
    using check_input_object_returns(1) keyed_lookup [OF assms, of k ty] by (cases ty; fastforce)+
  have "returns (check_input_objects types)"
    unfolding check_input_objects_def by (rule try_loop_returns) (auto intro: returned)
  then show "returns (check_schema reg types)"
    by (auto simp: check_schema_def returns_iff run_map_Done split: sum.splits)
  have inputs: "check_input_objects types = Done (Inr ()) \<longleftrightarrow>
      (\<forall>ty\<in>snd ` set types. \<forall>t. ty = DInputObject t \<longrightarrow> check_input_object types t = Done (Inr ()))"
    by (simp add: check_input_objects_def try_loop_ok case_prod_beta input)
  have accepted: "type_accepted reg types ty \<longleftrightarrow>
      (\<forall>t. ty = DInputObject t \<longrightarrow> check_input_object types t = Done (Inr ())) \<and>
      (case ty of DObject t \<Rightarrow> check_object reg types t | _ \<Rightarrow> Inr ()) = Inr () \<and>
      (case ty of DInterface t \<Rightarrow> check_interface types t | _ \<Rightarrow> Inr ()) = Inr () \<and>
      (case ty of DUnion t \<Rightarrow> check_union types t | _ \<Rightarrow> Inr ()) = Inr ()" for ty
    by (cases ty) simp_all
  have "check_schema reg types = Done (Inr ()) \<longleftrightarrow>
      check_types_exists reg types = Inr () \<and> check_root_types reg types = Inr () \<and> check_objects reg types = Inr () \<and>
      check_input_objects types = Done (Inr ()) \<and> check_interfaces types = Inr () \<and> check_unions types = Inr ()"
    using check_then_ok [of "check_types_exists reg types" "check_then (check_root_types reg types) (check_objects reg types)"]
    by (cases "check_then (check_types_exists reg types) (check_then (check_root_types reg types) (check_objects reg types))")
      (auto simp: check_schema_def run_map_Done eq_commute [of "Inr ()"])
  then show "check_schema reg types = Done (Inr ()) \<longleftrightarrow>
      check_types_exists reg types = Inr () \<and> check_root_types reg types = Inr () \<and>
      (\<forall>ty\<in>snd ` set types. type_accepted reg types ty)"
    unfolding accepted inputs check_objects_def check_interfaces_def check_unions_def
    by (simp add: try_all_ok case_prod_beta ball_conj_distrib conj_ac)
qed

lemma check_input_fields_ok:
  "(\<forall>f\<in>snd ` set m. contains_key types (tr_type_name (dv_ty f))) \<and>
   (\<forall>f\<in>snd ` set m. check_input_field types t f = Inr ()) \<longleftrightarrow>
   (\<forall>f\<in>snd ` set m. \<not> reserved (dv_name f) \<and> takes_input types (tr_type_name (dv_ty f)) \<and>
        (dio_oneof t \<longrightarrow> tr_is_nullable (dv_ty f) \<and> dv_default_value f = None))"
  by (fastforce simp: check_input_field_def Let_def takes_input_def contains_key_def)

lemma type_accepted_iff:
  assumes "map_of types (dt_name ty) = Some ty"
  shows "(\<forall>n\<in>set (names_of ty). contains_key types n) \<and> type_accepted reg types ty \<longleftrightarrow> good_type reg types ty"
proof (cases ty)
  case (DObject t)
  then show ?thesis
    using check_fields_ok [of "do_fields t" types "do_name t"]
      check_implements_ok [of "do_implements t" types "''Object''" "do_name t" "do_fields t"]
    by (auto simp: check_object_def ball_Un)
next
  case (DInterface t)
  then show ?thesis
    using check_fields_ok [of "din_fields t" types "din_name t"]
      check_implements_ok [of "din_implements t" types "''Interface''" "din_name t" "din_fields t"]
    by (auto simp: check_interface_def ball_Un)
next
  case (DInputObject t)
  with assms have "map_of types (dio_name t) = Some (DInputObject t)" by simp
  with DInputObject show ?thesis
    using check_input_fields_ok [of "dio_fields t" types t]
    by (auto simp: check_input_object_returns(2) case_prod_beta)
next
  case (DUnion t)
  then show ?thesis by (fastforce simp: contains_key_def is_object_iff check_union_def try_all_ok)
next
  case (DSubscription t)
  then show ?thesis
    by (auto simp: subscription_field_names_def case_prod_beta)
qed simp_all

lemma check_schema_exact:
  assumes "keyed_by_name types"
  shows "check_schema reg types = Done (Inr ()) \<longleftrightarrow> good_schema reg types"
proof -
  have good: "(\<forall>ty\<in>snd ` set types. good_type reg types ty) \<longleftrightarrow>
      (\<forall>ty\<in>snd ` set types. (\<forall>n\<in>set (names_of ty). contains_key types n) \<and> type_accepted reg types ty)"
  proof (intro ball_cong refl)
    fix ty assume "ty \<in> snd ` set types"
    then have "map_of types (dt_name ty) = Some ty" using keyed_lookup [OF assms] by auto
    from type_accepted_iff [OF this, of reg]
    show "good_type reg types ty \<longleftrightarrow> (\<forall>n\<in>set (names_of ty). contains_key types n) \<and> type_accepted reg types ty" by blast
  qed
  have object: "contains_key types n \<and> (\<forall>ty. map_of types n = Some ty \<longrightarrow> is_object ty) \<longleftrightarrow>
      (\<exists>t. map_of types n = Some (DObject t))" for n
    by (auto simp: contains_key_def is_object_iff)
  have "check_types_exists reg types = Inr () \<and> check_root_types reg types = Inr () \<longleftrightarrow>
      (\<exists>q. map_of types (reg_query_type reg) = Some (DObject q)) \<and>
      (\<forall>m. reg_mutation_type reg = Some m \<longrightarrow> (\<exists>t. map_of types m = Some (DObject t))) \<and>
      (\<forall>s ty. reg_subscription_type reg = Some s \<longrightarrow> map_of types s = Some ty \<longrightarrow> is_subscription ty) \<and>
      (\<forall>ty\<in>snd ` set types. \<forall>n\<in>set (names_of ty). contains_key types n)"
    unfolding check_types_exists_def check_root_types_def object [symmetric]
    by (cases "reg_mutation_type reg"; cases "reg_subscription_type reg") (auto simp: try_all_ok case_prod_beta)
  then show ?thesis
    unfolding check_schema_loops(2) [OF assms] good_schema_def good by blast
qed

lemma check_accepted_good: "keyed_by_name types \<Longrightarrow> check_schema reg types = Done (Inr ()) \<Longrightarrow> good_schema reg types"
  by (simp add: check_schema_exact)


subsection \<open>A schema and its check\<close>

definition sample_object_type :: "string \<Rightarrow> string list \<Rightarrow> type_ref \<Rightarrow> (unit, unit) dyn_type" where
  "sample_object_type n interfaces ty =
     DObject ((dyn_object_new n)\<lparr>do_fields := [(''f'', dyn_field_new ''f'' ty ())], do_implements := interfaces\<rparr>)"

definition sample_interface_type :: "string \<Rightarrow> type_ref \<Rightarrow> (unit, unit) dyn_type" where
  "sample_interface_type n ty = DInterface ((dyn_interface_new n)\<lparr>din_fields := [(''f'', dyn_interface_field_new ''f'' ty)]\<rparr>)"

definition sample_types :: "type_ref \<Rightarrow> type_ref \<Rightarrow> (unit, unit) dyn_types" where
  "sample_types ty interface_ty =
     [(''Query'', sample_object_type ''Query'' [''Node''] ty), (''Node'', sample_interface_type ''Node'' interface_ty),
      (''String'', DScalar (dyn_scalar_new ''String''))]"

definition sample_dyn_registry :: "string option \<Rightarrow> registry" where
  "sample_dyn_registry subscription = registry_new ''Query'' None subscription IntrospectionEnabled True"

lemmas sample_type_defs =
  sample_types_def sample_object_type_def sample_interface_type_def sample_dyn_registry_def registry_new_def
  dyn_object_new_def dyn_field_new_def dyn_interface_new_def dyn_interface_field_new_def dyn_scalar_new_def named_nn_def

lemma sample_types_keyed: "keyed_by_name (sample_types ty ty')"
  by (simp add: keyed_by_name_def sample_type_defs)

lemmas good_schema_simps =
  good_schema_def good_field_def gives_output_def good_implementation_def reserved_def sample_type_defs

lemma sample_types_good:
  "good_schema (sample_dyn_registry None) (sample_types (TRNamed ''String'') (TRNamed ''String''))"
  by (simp add: good_schema_simps)


text \<open>The check does not ask for the type of the subscription, and it has the subtypes of an implementation
  the wrong way round: an object whose field may be null implements an interface whose field may not, and
  one whose field may not be null does not implement an interface whose field may.\<close>

lemma missing_subscription_accepted:
  "check_schema (sample_dyn_registry (Some ''Gone'')) (sample_types (TRNamed ''String'') (TRNamed ''String'')) = Done (Inr ())"
  unfolding check_schema_exact [OF sample_types_keyed] by (simp add: good_schema_simps)

lemma weaker_implementation_accepted:
  "check_schema (sample_dyn_registry None) (sample_types (TRNamed ''String'') (named_nn ''String'')) = Done (Inr ())"
  "check_schema (sample_dyn_registry None) (sample_types (named_nn ''String'') (TRNamed ''String'')) \<noteq> Done (Inr ())"
  unfolding check_schema_exact [OF sample_types_keyed] by (simp_all add: good_schema_simps)

subsection \<open>Subtypes\<close>

text \<open>The values of a type reference, given the values of the names. A reference is proper when it does not
  exclude null twice.\<close>

fun value_of_ref :: "(string \<Rightarrow> const_value \<Rightarrow> bool) \<Rightarrow> type_ref \<Rightarrow> const_value \<Rightarrow> bool" where
  "value_of_ref B (TRNamed n) v \<longleftrightarrow> v = CNull \<or> B n v"
| "value_of_ref B (TRNonNull t) v \<longleftrightarrow> v \<noteq> CNull \<and> value_of_ref B t v"
| "value_of_ref B (TRList t) v \<longleftrightarrow> v = CNull \<or> (\<exists>vs. v = CList vs \<and> (\<forall>x\<in>set vs. value_of_ref B t x))"

fun proper_ref :: "type_ref \<Rightarrow> bool" where
  "proper_ref (TRNamed n) \<longleftrightarrow> True"
| "proper_ref (TRNonNull t) \<longleftrightarrow> tr_is_nullable t \<and> proper_ref t"
| "proper_ref (TRList t) \<longleftrightarrow> proper_ref t"

definition ref_includes :: "type_ref \<Rightarrow> type_ref \<Rightarrow> bool" where
  "ref_includes super sub \<longleftrightarrow> (\<forall>B v. value_of_ref B sub v \<longrightarrow> value_of_ref B super v)"

lemma nullable_null: "tr_is_nullable t \<Longrightarrow> value_of_ref B t CNull"
  by (cases t) simp_all

lemma not_includesI: "value_of_ref B sub v \<Longrightarrow> \<not> value_of_ref B super v \<Longrightarrow> \<not> ref_includes super sub"
  by (auto simp: ref_includes_def)

lemma includes_list: "ref_includes (TRList t) (TRList u) \<longleftrightarrow> ref_includes t u"
proof
  assume lists: "ref_includes (TRList t) (TRList u)"
  have "value_of_ref B t v" if "value_of_ref B u v" for B v
    using lists [unfolded ref_includes_def, rule_format, of B "CList [v]"] that by simp
  then show "ref_includes t u" by (simp add: ref_includes_def)
qed (fastforce simp: ref_includes_def)

lemma includes_nonnull:
  assumes "tr_is_nullable t"
  shows "ref_includes (TRNonNull t) (TRNonNull u) \<longleftrightarrow> ref_includes t u" "ref_includes t (TRNonNull u) \<longleftrightarrow> ref_includes t u"
  using nullable_null [OF assms] unfolding ref_includes_def by (metis value_of_ref.simps(2))+

lemma includes_apart:
  "\<not> ref_includes (TRNonNull t) (TRNamed n)" "\<not> ref_includes (TRNonNull t) (TRList u)"
  "\<not> ref_includes (TRList t) (TRNamed n)" "\<not> ref_includes (TRNamed n) (TRList t)"
  using not_includesI [of "\<lambda>_ _. True" "TRNamed n" CNull "TRNonNull t"]
    not_includesI [of "\<lambda>_ _. True" "TRList u" CNull "TRNonNull t"]
    not_includesI [of "\<lambda>_ _. True" "TRNamed n" "CBoolean True" "TRList t"]
    not_includesI [of "\<lambda>_ _. False" "TRList t" "CList []" "TRNamed n"]
  by simp_all

lemma includes_named: "ref_includes (TRNamed n) (TRNamed m) \<longleftrightarrow> n = m"
  using not_includesI [of "\<lambda>k _. k = m" "TRNamed m" "CBoolean True" "TRNamed n"] by (auto simp: ref_includes_def)

lemma subtype_includes: "proper_ref super \<Longrightarrow> proper_ref sub \<Longrightarrow> tr_is_subtype super sub \<longleftrightarrow> ref_includes super sub"
  by (induction super sub rule: tr_is_subtype.induct)
    (simp_all add: includes_apart includes_named includes_list includes_nonnull)

text \<open>C15: One type reference is a subtype of another exactly when all its values are values of the other,
  whatever the named types are: the test of the code is inclusion.\<close>

theorem subtype_is_inclusion:
  assumes "proper_ref super" "proper_ref sub"
  shows "tr_is_subtype super sub \<longleftrightarrow> (\<forall>B v. value_of_ref B sub v \<longrightarrow> value_of_ref B super v)"
  using subtype_includes [OF assms] by (simp add: ref_includes_def)

theorem subtype_is_inclusion_witness:
  "\<forall>B. Collect (value_of_ref B (named_nn_list_nn ''Int'')) \<subseteq> Collect (value_of_ref B (named_list ''Int''))"
proof -
  have "\<forall>B v. value_of_ref B (named_nn_list_nn ''Int'') v \<longrightarrow> value_of_ref B (named_list ''Int'') v"
    using subtype_is_inclusion [of "named_list ''Int''" "named_nn_list_nn ''Int''"]
    by (simp add: named_list_def named_nn_list_nn_def del: value_of_ref.simps)
  then show ?thesis by blast
qed

end
