(* ===== verification/Dynamic_Resolve_Facts.thy ===== *)
theory Dynamic_Resolve_Facts
  imports Dynamic_Resolve Dynamic_Check_Facts Execution_Bound
begin

text \<open>
  The soundness of dynamic schemas: the values an execution returns are values of the types of their fields,
  and on a schema that has passed its check an execution within the limit on the depth of a query neither
  panics nor recurses without bound, whatever the resolvers return.
\<close>

subsection \<open>What an execution delivers\<close>

definition delivers :: "('a \<Rightarrow> bool) \<Rightarrow> 'a exec \<Rightarrow> bool" where
  "delivers Q m \<longleftrightarrow> (\<forall>errs r errs'. m errs = Done (Inr r, errs') \<longrightarrow> Q r)"

lemma deliversD: "delivers Q m \<Longrightarrow> m errs = Done (Inr r, errs') \<Longrightarrow> Q r"
  unfolding delivers_def by blast

lemma delivers_basic [simp]:
  "delivers Q (ex_return x) \<longleftrightarrow> Q x" "delivers Q (ex_fail e)" "delivers Q (\<lambda>_. OutOfFuel)" "delivers Q (\<lambda>_. Panicked)"
  "delivers Q (internal_error path fld msg)"
  by (auto simp: delivers_def ex_return_def ex_fail_def internal_error_def)

lemma ex_bind_Inr:
  "ex_bind m k errs = Done (Inr r, errs') \<longleftrightarrow> (\<exists>x errs1. m errs = Done (Inr x, errs1) \<and> k x errs1 = Done (Inr r, errs'))"
  by (cases "m errs") (auto simp: ex_bind_def split: sum.splits)

lemma map_sum_eq_Inr: "map_sum f g x = Inr y \<longleftrightarrow> (\<exists>z. x = Inr z \<and> y = g z)" "Inr y = map_sum f g x \<longleftrightarrow> (\<exists>z. x = Inr z \<and> y = g z)"
  by (cases x; auto)+

lemma ex_map_Inr: "ex_map f m errs = Done (Inr r, errs') \<longleftrightarrow> (\<exists>x. m errs = Done (Inr x, errs') \<and> r = f x)"
  by (cases "m errs") (auto simp: ex_map_def map_sum_def split: sum.splits)

lemma delivers_bind:
  "delivers P m \<Longrightarrow> (\<And>x. P x \<Longrightarrow> delivers Q (k x)) \<Longrightarrow> delivers Q (ex_bind m k)"
  unfolding delivers_def ex_bind_Inr by blast

lemma delivers_map: "delivers (\<lambda>x. Q (f x)) m \<Longrightarrow> delivers Q (ex_map f m)"
  unfolding delivers_def ex_map_Inr by blast

lemma delivers_True: "delivers (\<lambda>_. True) m"
  by (simp add: delivers_def)

lemma delivers_mono: "delivers P m \<Longrightarrow> (\<And>x. P x \<Longrightarrow> Q x) \<Longrightarrow> delivers Q m"
  by (auto simp: delivers_def)

subsection \<open>The values of a type\<close>

text \<open>Null or what the named type allows; the members of a list; and never null where that is excluded.\<close>

definition named_value :: "('r, 's) dyn_types \<Rightarrow> string \<Rightarrow> const_value \<Rightarrow> bool" where
  "named_value types n v \<longleftrightarrow>
     (case map_of types n of
        Some (DScalar t) \<Rightarrow> dyn_scalar_validate t v
      | Some (DEnum e) \<Rightarrow> (\<exists>k. v = CEnum k \<and> contains_key (den_enum_values e) k)
      | Some (DObject _) \<Rightarrow> (\<exists>m. v = CObject m)
      | Some (DInterface _) \<Rightarrow> (\<exists>m. v = CObject m)
      | Some (DUnion _) \<Rightarrow> (\<exists>m. v = CObject m)
      | _ \<Rightarrow> False)"

fun conforms :: "('r, 's) dyn_types \<Rightarrow> type_ref \<Rightarrow> const_value \<Rightarrow> bool" where
  "conforms types (TRNamed n) v \<longleftrightarrow> v = CNull \<or> named_value types n v"
| "conforms types (TRNonNull t) v \<longleftrightarrow> v \<noteq> CNull \<and> conforms types t v"
| "conforms types (TRList t) v \<longleftrightarrow> v = CNull \<or> (\<exists>vs. v = CList vs \<and> (\<forall>x\<in>set vs. conforms types t x))"

text \<open>The result of \<open>resolve\<close>: none stands for null, and null itself is never given.\<close>

definition sound :: "('r, 's) dyn_types \<Rightarrow> type_ref \<Rightarrow> const_value option \<Rightarrow> bool" where
  "sound types ty r \<longleftrightarrow> r \<noteq> Some CNull \<and> conforms types ty (null_or r)"

lemma null_or_simps [simp]: "null_or (Some v) = v" "null_or None = CNull"
  by (simp_all add: null_or_def)

lemma items_sound:
  "(\<And>path fv. delivers (\<lambda>r. Q (null_or r)) (resolve path fv)) \<Longrightarrow>
   delivers (\<lambda>vs. \<forall>v\<in>set vs. Q v) (dyn_items resolve path i fvs)"
  by (induction fvs arbitrary: i) (auto intro!: delivers_bind delivers_map elim!: delivers_mono)

lemma resolve_sound:
  assumes "\<And>n path fv. delivers (sound types (TRNamed n)) (named n path fv)"
  shows "delivers (sound types ty) (dyn_resolve named fld ty path fv)"
proof (induction ty arbitrary: path fv)
  case (TRNamed n)
  have none: "sound types (TRNamed n) None" by (simp add: sound_def)
  show ?case using assms none by (cases fv) (simp_all del: conforms.simps)
next
  case (TRNonNull t)
  then show ?case
    by (cases fv) (auto simp: sound_def split: option.splits intro!: delivers_bind)
next
  case (TRList t)
  have "delivers (\<lambda>vs. \<forall>v\<in>set vs. conforms types t v)
      (dyn_items (\<lambda>path' fv'. dyn_resolve named fld t path' (Some fv')) path 0 fvs)" for fvs
    by (intro items_sound delivers_mono [OF TRList.IH]) (simp add: sound_def)
  then show ?case
    by (cases fv) (auto simp: sound_def split: field_value.splits const_value.splits intro!: delivers_map elim!: delivers_mono)
qed

lemma container_object: "delivers (\<lambda>r. \<exists>m. r = Some (CObject m)) (dyn_container n ev ss path t parent)"
  by (cases n) (auto simp: create_value_object_def delivers_True intro!: delivers_bind [OF delivers_True] delivers_map)

lemma value_sound:
  assumes "map_of (ys_types (de_schema ev)) n = Some ty"
    and "\<And>path t v. delivers (\<lambda>r. \<exists>m. r = Some (CObject m)) (container path t v)"
  shows "delivers (sound (ys_types (de_schema ev)) (TRNamed n)) (dyn_resolve_value ev container fld path ty fv)"
proof -
  have object: "delivers (sound (ys_types (de_schema ev)) (TRNamed n)) (container path t v)"
    if "\<And>m. named_value (ys_types (de_schema ev)) n (CObject m)" for t v
    using assms(2) by (rule delivers_mono) (auto simp: sound_def that)
  have "delivers (sound (ys_types (de_schema ev)) (TRNamed n)) (ex_bind (typed_object ev path fld k) (\<lambda>t. container path t v))"
    if "\<And>m. named_value (ys_types (de_schema ev)) n (CObject m)" for k v
    using that by (intro delivers_bind [OF delivers_True] object)
  with object assms(1) show ?thesis
    by (cases ty) (auto simp: dyn_resolve_value_def sound_def named_value_def enum_item_value_def
        split: field_value.splits const_value.splits)
qed

lemma named_sound:
  "delivers (sound (ys_types (de_schema ev)) (TRNamed n)) (dyn_named ev (dyn_container k ev ss) fld n path fv)"
  by (simp add: dyn_named_def split: option.splits) (blast intro: value_sound container_object)

definition pending_conforms :: "'any dyn_env \<Rightarrow> 'any dyn_resolver dyn_object \<Rightarrow> 'any dyn_pending \<Rightarrow> const_value \<Rightarrow> bool" where
  "pending_conforms ev t p v \<longleftrightarrow>
     (case p of
        DynTypename _ \<Rightarrow> v = CString (do_name t)
      | DynNull _ \<Rightarrow> v = CNull
      | DynSystem _ _ \<Rightarrow> True
      | DynEntities _ \<Rightarrow> conforms (ys_types (de_schema ev)) (named_list_nn ''_Entity'') v
      | DynField f _ \<Rightarrow> conforms (ys_types (de_schema ev)) (df_ty f) v)"

lemma pending_conforms_eqs:
  "pending_conforms ev t (DynTypename fld) = (\<lambda>v. v = CString (do_name t))"
  "pending_conforms ev t (DynNull fld) = (\<lambda>v. v = CNull)"
  "pending_conforms ev t (DynSystem s fld) = (\<lambda>_. True)"
  "pending_conforms ev t (DynEntities fld) = conforms (ys_types (de_schema ev)) (named_list_nn ''_Entity'')"
  "pending_conforms ev t (DynField f fld) = conforms (ys_types (de_schema ev)) (df_ty f)"
  by (rule ext, simp add: pending_conforms_def)+

lemma pending_value_sound:
  "delivers (pending_conforms ev t p) (dyn_pending_value ev (dyn_container n ev) path t parent p)"
proof -
  have "delivers (conforms (ys_types (de_schema ev)) ty) (ex_map null_or
      (dyn_resolve (dyn_named ev (dyn_container n ev ss) fld) fld ty ctx fv))" for ss fld ty ctx fv
    by (intro delivers_map delivers_mono [OF resolve_sound [where types = "ys_types (de_schema ev)"]] named_sound)
      (auto simp: sound_def)
  then show ?thesis
    by (cases p) (auto simp: dyn_pending_value_def Let_def pending_conforms_eqs split: option.splits
        intro!: delivers_bind [OF delivers_True] delivers_True)
qed

text \<open>The list of the results of pending fields, each under its response key.\<close>

definition results_of :: "('any dyn_pending \<Rightarrow> const_value \<Rightarrow> bool) \<Rightarrow> 'any dyn_pending list \<Rightarrow> (name \<times> const_value) list \<Rightarrow> bool" where
  "results_of Q = list_all2 (\<lambda>p (k, v). k = node (response_key (node (pending_position p))) \<and> Q p v)"

lemma pending_values_sound:
  "(\<And>p. delivers (Q p) (value_of p)) \<Longrightarrow> delivers (results_of Q ps) (dyn_pending_values value_of ps)"
  by (induction ps) (auto simp: results_of_def intro!: delivers_bind delivers_map elim!: delivers_mono)

text \<open>C5: A dynamic field resolves to a value of its type: not null where the type excludes it, a list of
  values of the element type for a list, a value the scalar accepts, an item of the enum, an object for
  an object, an interface or a union. And a container is the object of the results of the fields
  it collects, each a value of the type of its field under its response key.\<close>

theorem resolved_values_conform:
  "dyn_container (Suc n) ev ss path t parent errs = Done (Inr r, errs') \<Longrightarrow>
   \<exists>ps kvs. dyn_collect n ev t ss [] = Done (Inr ps) \<and> r = Some (create_value_object kvs) \<and>
     results_of (pending_conforms ev t) ps kvs"
  using deliversD [OF pending_values_sound [OF pending_value_sound]]
  by (fastforce simp: ex_bind_Inr ex_map_Inr dyn_collect_all_def run_map_Done)

subsection \<open>Executions that answer\<close>

definition answers :: "'a exec \<Rightarrow> bool" where
  "answers m \<longleftrightarrow> (\<forall>errs. \<exists>r errs'. m errs = Done (r, errs'))"

lemma answers_basic [simp]:
  "answers (ex_return x)" "answers (ex_fail e)" "answers (internal_error path fld msg)"
  "answers (ex_lift r)" "answers (resolver_result fld s)"
  by (auto simp: answers_def ex_return_def ex_fail_def internal_error_def ex_lift_def resolver_result_def split: sum.splits)

lemma answers_bind:
  assumes "answers m" "delivers P m" "\<And>x. P x \<Longrightarrow> answers (k x)"
  shows "answers (ex_bind m k)"
  unfolding answers_def
proof
  fix errs
  from assms(1) obtain r errs' where m: "m errs = Done (r, errs')" unfolding answers_def by blast
  show "\<exists>r errs'. ex_bind m k errs = Done (r, errs')"
  proof (cases r)
    case (Inr x)
    with deliversD [OF assms(2)] m have "answers (k x)" by (intro assms(3)) blast
    then show ?thesis using m Inr by (simp add: ex_bind_def answers_def)
  qed (use m in \<open>simp add: ex_bind_def\<close>)
qed

lemma answers_bind_all: "answers m \<Longrightarrow> (\<And>x. answers (k x)) \<Longrightarrow> answers (ex_bind m k)"
  by (rule answers_bind [OF _ delivers_True]) simp_all

lemma answers_map: "answers m \<Longrightarrow> answers (ex_map f m)"
  unfolding answers_def ex_map_def by (metis run_map_simps(1) case_prod_conv)

lemma items_answer: "(\<And>path fv. answers (resolve path fv)) \<Longrightarrow> answers (dyn_items resolve path i fvs)"
  by (induction fvs arbitrary: i) (simp_all add: answers_bind_all answers_map)

lemma resolve_answers:
  "(\<And>path fv. answers (named (tr_type_name ty) path fv)) \<Longrightarrow> answers (dyn_resolve named fld ty path fv)"
proof (induction ty arbitrary: path fv)
  case (TRNamed n)
  then show ?case by (cases fv) simp_all
next
  case (TRNonNull t)
  then show ?case by (cases fv) (auto split: option.splits intro!: answers_bind_all)
next
  case (TRList t)
  then show ?case
    by (cases fv) (auto split: field_value.splits const_value.splits intro!: answers_map items_answer)
qed

text \<open>The objects of a schema, and the environments an execution is safe in.\<close>

definition schema_object :: "'any dyn_env \<Rightarrow> 'any dyn_resolver dyn_object \<Rightarrow> bool" where
  "schema_object ev t \<longleftrightarrow> DObject t \<in> snd ` set (ys_types (de_schema ev))"

definition ready :: "'any dyn_env \<Rightarrow> bool" where
  "ready ev \<longleftrightarrow>
     (\<forall>t. schema_object ev t \<longrightarrow>
        (\<forall>f\<in>snd ` set (do_fields t). contains_key (ys_types (de_schema ev)) (tr_type_name (df_ty f)))) \<and>
     (ys_entity_resolver (de_schema ev) = None \<or> contains_key (ys_types (de_schema ev)) ''_Entity'') \<and>
     (\<forall>s path fld. answers (de_system ev s path fld))"

lemma map_of_value: "map_of m k = Some x \<Longrightarrow> x \<in> snd ` set m"
  by (auto dest!: map_of_SomeD simp: image_iff intro: bexI [rotated])

lemma as_object_iff: "as_object ty = Some t \<longleftrightarrow> ty = DObject t"
  by (cases ty) auto

lemma typed_object_schema: "delivers (schema_object ev) (typed_object ev path fld n)"
  unfolding typed_object_def schema_object_def
  by (auto simp: as_object_iff split: option.splits dest!: map_of_value simp del: image_iff)

lemma typed_object_answers: "answers (typed_object ev path fld n)"
  by (simp add: typed_object_def split: option.splits)

lemma value_answers:
  assumes "ty \<in> snd ` set (ys_types (de_schema ev))"
    and "\<And>path t v. schema_object ev t \<Longrightarrow> answers (container path t v)"
  shows "answers (dyn_resolve_value ev container fld path ty fv)"
proof -
  have "answers (ex_bind (typed_object ev path fld n) (\<lambda>t. container path t v))" for n v
    using typed_object_answers typed_object_schema assms(2) by (rule answers_bind)
  then show ?thesis
    using assms by (cases ty) (auto simp: dyn_resolve_value_def enum_item_value_def schema_object_def
        split: field_value.splits const_value.splits)
qed

lemma named_answers:
  assumes "contains_key (ys_types (de_schema ev)) n"
    and "\<And>path t v. schema_object ev t \<Longrightarrow> answers (container path t v)"
  shows "answers (dyn_named ev container fld n path fv)"
proof -
  obtain ty where ty: "map_of (ys_types (de_schema ev)) n = Some ty"
    using assms(1) by (auto simp: contains_key_def)
  from map_of_value [OF ty] assms(2) have "answers (dyn_resolve_value ev container fld path ty fv)"
    by (rule value_answers)
  then show ?thesis by (simp add: dyn_named_def ty)
qed

definition pending_from :: "'any dyn_resolver dyn_object \<Rightarrow> 'any dyn_pending \<Rightarrow> bool" where
  "pending_from t p \<longleftrightarrow> (\<forall>f fld. p = DynField f fld \<longrightarrow> f \<in> snd ` set (do_fields t))"

lemma pending_of_from: "pending_of ev t fld = Some p \<Longrightarrow> pending_position p = fld \<and> pending_from t p"
  by (auto simp: pending_of_def Let_def pending_from_def image_iff split: if_splits dest!: map_of_SomeD intro: bexI [rotated])

lemma pending_value_answers:
  assumes "ready ev" "schema_object ev t" "pending_from t p"
    and "\<And>path t v. schema_object ev t \<Longrightarrow>
      answers (container (node (f_selection_set (node (pending_position p)))) path t v)"
  shows "answers (dyn_pending_value ev container path t parent p)"
proof -
  have "answers (ex_map null_or (dyn_resolve
      (dyn_named ev (container (node (f_selection_set (node (pending_position p))))) (pending_position p))
      (pending_position p) ty ctx fv))"
    if "contains_key (ys_types (de_schema ev)) (tr_type_name ty)" for ty ctx fv
    using that assms(4) by (intro answers_map resolve_answers named_answers)
  moreover have "contains_key (ys_types (de_schema ev)) (tr_type_name (df_ty f))" if "p = DynField f fld" for f fld
    using assms(1-3) that by (auto simp: ready_def pending_from_def)
  ultimately show ?thesis
    using assms(1-3) by (cases p) (auto simp: dyn_pending_value_def Let_def ready_def pending_from_def named_list_nn_def
        split: option.splits intro!: answers_bind_all)
qed

lemma pending_values_answer:
  "(\<And>p. p \<in> set ps \<Longrightarrow> answers (value_of p)) \<Longrightarrow> answers (dyn_pending_values value_of ps)"
  by (induction ps) (auto intro!: answers_bind_all answers_map)

subsection \<open>Collecting within the limit\<close>

definition settles :: "'st try_step \<Rightarrow> bool" where
  "settles f \<longleftrightarrow> (\<forall>st. \<exists>r. f st = Done r)"

lemma settles_basic [simp]: "settles try_ok" "settles (\<lambda>st. Done (g st))"
  by (simp_all add: settles_def try_ok_def)

lemma settles_each: "(\<And>x. x \<in> set xs \<Longrightarrow> settles (f x)) \<Longrightarrow> settles (try_each f xs)"
proof (induction xs)
  case (Cons x xs)
  have "\<exists>r. try_each f (x # xs) st = Done r" for st
  proof -
    from Cons.prems [of x] obtain r where "f x st = Done r" unfolding settles_def by auto
    moreover have "settles (try_each f xs)" using Cons by simp
    ultimately show ?thesis by (cases r) (simp_all add: try_seq_def settles_def)
  qed
  then show ?case by (simp add: settles_def)
qed simp

lemma collect_settles:
  "fits doc max_depth n ss \<Longrightarrow> de_fragments ev = doc_fragments doc \<Longrightarrow> settles (dyn_collect n ev t (node ss))"
proof (induction n ev t "node ss" arbitrary: ss rule: dyn_collect.induct)
  case (1 n ev t ss)
  show ?case
  proof (subst dyn_collect.simps, rule settles_each, goal_cases)
    case (1 sel)
    note below = fits_depth [OF "1.prems"(1) 1 order.refl]
    show ?case
    proof (cases "node sel")
      case (SelSpread spread)
      then show ?thesis
        using below(3) [OF SelSpread] "1.hyps"(1) [OF 1 SelSpread] "1.prems"(2) by (auto split: option.splits)
    next
      case (SelInline inl)
      then show ?thesis
        using below(2) [OF SelInline] "1.hyps"(2) [OF 1 SelInline] "1.prems"(2) by (auto split: option.splits)
    qed simp
  qed
qed

definition pending_ok :: "executable_document \<Rightarrow> nat \<Rightarrow> nat \<Rightarrow> 'any dyn_resolver dyn_object \<Rightarrow> 'any dyn_pending \<Rightarrow> bool" where
  "pending_ok doc max_depth n t p \<longleftrightarrow>
     pending_from t p \<and> 0 < n \<and> fits doc max_depth (n - 1) (f_selection_set (node (pending_position p)))"

lemma collect_pending:
  "fits doc max_depth n ss \<Longrightarrow> de_fragments ev = doc_fragments doc \<Longrightarrow> n \<le> N \<Longrightarrow>
   list_all (pending_ok doc max_depth N t) ps \<Longrightarrow> dyn_collect n ev t (node ss) ps = Done (Inr ps') \<Longrightarrow>
   list_all (pending_ok doc max_depth N t) ps'"
proof (induction n ev t "node ss" arbitrary: ss ps ps' rule: dyn_collect.induct)
  case (1 n ev t ss)
  note loop = "1.prems"(5) [unfolded dyn_collect.simps [of n ev t "node ss"]]
  show ?case
  proof (rule try_each_Inr_induct [where P = "list_all (pending_ok doc max_depth N t)", OF loop "1.prems"(4)], goal_cases)
    case (1 sel ps ps')
    note below = fits_depth [OF "1.prems"(1) 1(1) "1.prems"(3)]
    show ?case
    proof (cases "node sel")
      case (SelField fld)
      have "pending_ok doc max_depth N t p" if "pending_of ev t fld = Some p" for p
        using pending_of_from [OF that] below(1) [OF SelField] by (simp add: pending_ok_def field_fits_def)
      then show ?thesis
        using 1 SelField by (auto split: option.splits)
    next
      case (SelSpread spread)
      then show ?thesis
        using 1 "1.hyps"(1) [OF 1(1) SelSpread] below(3) [OF SelSpread] "1.prems"(2,3)
        by (auto simp: try_ok_def split: option.splits nat.splits if_splits)
    next
      case (SelInline inl)
      then show ?thesis
        using 1 "1.hyps"(2) [OF 1(1) SelInline] below(2) [OF SelInline] "1.prems"(2,3)
        by (auto simp: try_ok_def split: if_splits)
    qed
  qed
qed

lemma dynamic_container_answers:
  assumes "ready ev" "de_fragments ev = doc_fragments doc"
  shows "schema_object ev t \<Longrightarrow> fits doc max_depth n ss \<Longrightarrow> answers (dyn_container (Suc n) ev (node ss) path t parent)"
proof (induction n arbitrary: ss path t parent rule: less_induct)
  case (less n)
  have collected: "answers (dyn_collect_all n ev t (node ss))"
    using collect_settles [OF less.prems(2) assms(2), of t] by (auto simp: answers_def dyn_collect_all_def settles_def)
      (metis run_map_simps(1))
  have pending: "delivers (list_all (pending_ok doc max_depth n t)) (dyn_collect_all n ev t (node ss))"
    using collect_pending [OF less.prems(2) assms(2) order.refl, of t "[]"]
    by (auto simp: delivers_def dyn_collect_all_def run_map_Done)
  have "answers (dyn_pending_value ev (dyn_container n ev) path t parent p)" if p: "pending_ok doc max_depth n t p" for p
  proof (rule pending_value_answers [OF assms(1) less.prems(1)])
    from p obtain m where m: "n = Suc m" by (auto simp: pending_ok_def gr0_conv_Suc)
    show "answers (dyn_container n ev (node (f_selection_set (node (pending_position p)))) path' t' v)"
      if "schema_object ev t'" for path' t' v
      using less.IH [of m t' "f_selection_set (node (pending_position p))"] that p by (simp add: m pending_ok_def)
  qed (use p in \<open>simp add: pending_ok_def\<close>)
  then show ?case
    unfolding dyn_container.simps
    by (intro answers_bind [OF collected pending] answers_map pending_values_answer) (simp add: list_all_iff)
qed

text \<open>A schema that has passed its check is ready for execution, given its entities and introspection.\<close>

lemma checked_ready:
  assumes "keyed_by_name (ys_types (de_schema ev))"
    and "check_schema (de_registry ev) (ys_types (de_schema ev)) = Done (Inr ())"
    and "ys_entity_resolver (de_schema ev) = None \<or> contains_key (ys_types (de_schema ev)) ''_Entity''"
    and "\<And>s path fld. answers (de_system ev s path fld)"
  shows "ready ev"
proof -
  have "good_field (ys_types (de_schema ev)) f" if "schema_object ev t" "f \<in> snd ` set (do_fields t)" for t f
  proof -
    have "good_type (de_registry ev) (ys_types (de_schema ev)) (DObject t)"
      using check_accepted_good [OF assms(1,2)] that(1) unfolding good_schema_def schema_object_def by blast
    with that(2) show ?thesis unfolding good_type.simps by blast
  qed
  then have "contains_key (ys_types (de_schema ev)) (tr_type_name (df_ty f))"
    if "schema_object ev t" "f \<in> snd ` set (do_fields t)" for t f
    using that unfolding good_field_def gives_output_def contains_key_def by blast
  then show ?thesis
    using assms(3,4) unfolding ready_def by blast
qed

text \<open>An operation within the limit on a schema that has passed its check.\<close>

lemma checked_schema_answers:
  assumes "keyed_by_name (ys_types (de_schema ev))"
    and "check_schema (de_registry ev) (ys_types (de_schema ev)) = Done (Inr ())"
    and "ys_entity_resolver (de_schema ev) = None \<or> contains_key (ys_types (de_schema ev)) ''_Entity''"
    and "\<And>s path fld. answers (de_system ev s path fld)"
    and "check_depth_selection_set doc max_depth 0 (od_selection_set op) = Inr ()" "de_fragments ev = doc_fragments doc"
  shows "\<exists>resp. dyn_execute_once (Suc (Suc max_depth)) ev op root_value = Done resp"
proof -
  have "ready ev" using assms(1-4) by (rule checked_ready)
  moreover have "fits doc max_depth (Suc max_depth) (od_selection_set op)"
    using assms(5) by (auto simp: fits_def)
  ultimately have container: "answers (dyn_container (Suc (Suc max_depth)) ev (node (od_selection_set op)) None t root_value)"
    if "schema_object ev t" for t
    using that assms(6) by (intro dynamic_container_answers)
  have "answers (ex_bind (ex_lift root) (\<lambda>t. dyn_container (Suc (Suc max_depth)) ev (node (od_selection_set op)) None t root_value))"
    if "\<And>t. root = Inr t \<Longrightarrow> schema_object ev t" for root
    using that container by (cases root) (simp_all add: answers_def ex_lift_def ex_bind_def ex_return_def ex_fail_def del: dyn_container.simps)
  moreover have "schema_object ev t" if "dyn_query_root (de_schema ev) = Inr t \<or> dyn_mutation_root (de_schema ev) = Inr t" for t
    using that by (auto simp: dyn_query_root_def dyn_mutation_root_def schema_object_def bind_eq_Some_conv as_object_iff
        split: option.splits dest!: map_of_value simp del: image_iff)
  ultimately have "\<exists>r errs. ex_bind (ex_lift root)
      (\<lambda>t. dyn_container (Suc (Suc max_depth)) ev (node (od_selection_set op)) None t root_value) [] = Done (r, errs)"
    if "root = dyn_query_root (de_schema ev) \<or> root = dyn_mutation_root (de_schema ev)" for root
    using that unfolding answers_def by blast
  then show ?thesis
    by (cases "od_ty op") (fastforce simp: dyn_execute_once_def Let_def ex_fail_def simp del: dyn_container.simps)+
qed

subsection \<open>A schema with one field\<close>

definition sample_dyn_object :: "error_value + unit field_value option \<Rightarrow> unit dyn_resolver dyn_object" where
  "sample_dyn_object out =
     (dyn_object_new ''Query'')\<lparr>do_fields := [(''ok'', dyn_field_new ''ok'' (named_nn ''Boolean'') (\<lambda>_ _. out))]\<rparr>"

definition sample_dyn_schema :: "error_value + unit field_value option \<Rightarrow> (unit dyn_resolver, unit dyn_stream) dyn_schema" where
  "sample_dyn_schema out =
     schema_of (dyn_build ''Query'' None None)
       [(''Query'', DObject (sample_dyn_object out)), (''Boolean'', DScalar (dyn_scalar_new ''Boolean''))]
       (registry_new ''Query'' None None IntrospectionEnabled True)"

definition sample_dyn_env :: "error_value + unit field_value option \<Rightarrow> unit dyn_env" where
  "sample_dyn_env out =
     \<lparr>de_schema = sample_dyn_schema out, de_fragments = [], de_definitions = [], de_variables = [],
      de_introspection_mode = IntrospectionEnabled, de_system = (\<lambda>_ _ _. ex_return CNull)\<rparr>"

lemmas sample_dyn_defs =
  sample_dyn_env_def sample_dyn_schema_def sample_dyn_object_def schema_of_def dyn_build_def registry_new_def
  dyn_object_new_def dyn_field_new_def dyn_scalar_new_def named_nn_def de_registry_def

definition ok_operation :: operation_definition where
  "ok_operation = node (sample_query [] [sample_field ''ok'' [] []])"

lemmas ok_operation_defs = ok_operation_def sample_query_def sample_field_def at_def

subsection \<open>Schemas that finish\<close>

text \<open>The builder keeps the types under their own names, and \<open>finish\<close> does.\<close>

lemma keyed_insert: "keyed_by_name types \<Longrightarrow> keyed_by_name (alist_insert (dt_name ty) ty types)"
  using set_alist_insert [of "dt_name ty" ty types] by (auto simp: keyed_by_name_def distinct_alist_insert)

lemma builder_keyed:
  "keyed_by_name (sb_types (dyn_build query mutation subscription))"
  "keyed_by_name (sb_types b) \<Longrightarrow> keyed_by_name (sb_types (builder_register ty b))"
  "keyed_by_name (sb_types b) \<Longrightarrow> keyed_by_name (sb_types (enable_uploading b))"
  using keyed_insert [of "sb_types b" DUpload]
  by (simp_all add: builder_register_def enable_uploading_def dyn_build_def keyed_insert) (simp add: keyed_by_name_def)

lemma union_name: "dun_name (fold dyn_union_possible_type ns u) = dun_name u"
  by (induction ns arbitrary: u) (simp_all add: dyn_union_possible_type_def)

lemma system_scalars_keyed:
  "keyed_by_name types \<Longrightarrow> keyed_by_name (fold (\<lambda>(n, ty). alist_insert n ty) (system_scalar_types ops) types)"
proof -
  have "keyed_by_name types \<Longrightarrow> keyed_by_name (alist_insert n (snd (system_scalar n P)) types)" for n P and types :: "('a, 'b) dyn_types"
    using keyed_insert [of types "snd (system_scalar n P)"]
    by (simp add: system_scalar_def dyn_scalar_validator_def dyn_scalar_new_def)
  then show "keyed_by_name types \<Longrightarrow> ?thesis"
    by (simp add: system_scalar_types_def case_prod_beta) (simp add: system_scalar_def)
qed

lemma federate_keyed:
  assumes "federate ti enabled types r = Done (types', r')" "keyed_by_name types"
  shows "keyed_by_name types'"
  using assms keyed_insert [OF assms(2), of "DUnion (fold dyn_union_possible_type ps (dyn_union_new ''_Entity''))" for ps]
  by (auto simp: federate_def run_bind_Done_iff run_map_Done union_name dyn_union_new_def split: if_splits)

lemma finish_checked:
  assumes "finish ops ti b = Done (Inr sc)" "keyed_by_name (sb_types b)"
  shows "keyed_by_name (ys_types sc) \<and> check_schema (ys_registry sc) (ys_types sc) = Done (Inr ())"
proof -
  obtain r0 registered where "add_system_types ti (registry_new (sb_query_type b) (sb_mutation_type b) (sb_subscription_type b)
      (sb_introspection_mode b) (sb_enable_suggestions b)) = Done r0"
    "register_all ti (sb_types b) (fold add_directive (sb_custom_directives b) r0) = Done registered"
    using assms(1) by (auto simp: finish_def run_bind_Done_iff)
  with assms(1) obtain r1 where "registered = Inr r1"
    by (cases registered) (auto simp: finish_def)
  with \<open>add_system_types _ _ = _\<close> \<open>register_all _ _ _ = _\<close> assms(1) obtain r3 types r4 where
    fed: "federate ti (sb_enable_federation b) (fold (\<lambda>(n, ty). alist_insert n ty) (system_scalar_types ops) (sb_types b)) r3 = Done (types, r4)"
    and check: "run_map (map_sum id (\<lambda>_. schema_of b types r4)) (check_schema r4 types) = Done (Inr sc)"
    by (auto simp: finish_def Let_def run_bind_Done_iff split: if_splits)
  from check have "sc = schema_of b types r4" "check_schema r4 types = Done (Inr ())"
    by (auto simp: run_map_Done map_sum_eq_Inr)
  then show ?thesis
    using federate_keyed [OF fed system_scalars_keyed [OF assms(2)]] by (simp add: schema_of_def)
qed


text \<open>A builder with one object and no introspection.\<close>

definition sample_infos :: type_infos where
  "sample_infos =
     \<lparr>ti_show_number = (\<lambda>_. ''0''), ti_system_scalars = Done, ti_upload = Done, ti_introspection = Done, ti_any = Done\<rparr>"

definition sample_builder :: "error_value + unit field_value option \<Rightarrow> (unit dyn_resolver, unit dyn_stream) dyn_builder" where
  "sample_builder out = disable_introspection (builder_register (DObject (sample_dyn_object out)) (dyn_build ''Query'' None None))"

lemma directives_only: "reg_types (fold add_directive ds r) = reg_types r" "reg_query_type (fold add_directive ds r) = reg_query_type r"
  "reg_mutation_type (fold add_directive ds r) = reg_mutation_type r" "reg_subscription_type (fold add_directive ds r) = reg_subscription_type r"
  by (induction ds arbitrary: r) (simp_all add: add_directive_def)

lemma sample_finishes: "\<exists>sc. finish ops sample_infos (sample_builder out) = Done (Inr sc) \<and> ys_entity_resolver sc = None"
proof -
  let ?r0 = "fold add_directive system_directives (registry_new ''Query'' None None IntrospectionDisabled True)"
  let ?r1 = "register_object (\<lambda>_. ''0'') (sample_dyn_object out) ?r0"
  let ?types = "fold (\<lambda>(n, ty). alist_insert n ty) (system_scalar_types ops) (sb_types (sample_builder out))"
  have types: "?types = [(''Query'', DObject (sample_dyn_object out)), system_scalar ''Int'' (is_i64 ops),
      system_scalar ''Float'' is_number, system_scalar ''Boolean'' is_boolean, system_scalar ''String'' is_string,
      system_scalar ''ID'' (\<lambda>v. is_string v \<or> is_i64 ops v)]"
    by (simp add: sample_builder_def disable_introspection_def builder_register_def sample_dyn_defs system_scalar_types_def
        system_scalar_def)
  have only: "sb_types (sample_builder out) = [(''Query'', DObject (sample_dyn_object out))]"
    by (simp add: sample_builder_def disable_introspection_def builder_register_def sample_dyn_defs)
  have empty: "reg_types ?r0 = []" by (simp add: directives_only registry_new_def)
  have registered: "register_all sample_infos (sb_types (sample_builder out)) (fold add_directive [] ?r0) = Done (Inr ?r1)"
    by (simp add: register_all_def only sample_infos_def dyn_register_def contains_key_def empty)
  have entities: "\<not> has_entities (update_interface_possible_types (sb_types (sample_builder out)) ?r1)"
    by (simp add: has_entities_def update_interface_possible_types_def sample_builder_def disable_introspection_def
        builder_register_def sample_dyn_defs register_object_def insert_type_def keyed_def keys_option_def directives_only)
  have "check_schema (update_interface_possible_types (sb_types (sample_builder out)) ?r1) ?types = Done (Inr ())"
  proof -
    have "keyed_by_name ?types"
      by (rule system_scalars_keyed) (simp add: sample_builder_def disable_introspection_def builder_keyed)
    then show ?thesis
      unfolding check_schema_exact [OF \<open>keyed_by_name ?types\<close>]
      by (simp only: types) (simp add: good_schema_def good_field_def gives_output_def reserved_def system_scalar_def
          update_interface_possible_types_def register_object_def insert_type_def directives_only sample_dyn_defs
          sample_builder_def disable_introspection_def builder_register_def)
  qed
  moreover have "sb_query_type (sample_builder out) = ''Query''" "sb_mutation_type (sample_builder out) = None"
    "sb_subscription_type (sample_builder out) = None" "sb_introspection_mode (sample_builder out) = IntrospectionDisabled"
    "sb_enable_suggestions (sample_builder out)" "\<not> sb_enable_federation (sample_builder out)"
    "sb_custom_directives (sample_builder out) = []" "sb_entity_resolver (sample_builder out) = None"
    by (simp_all add: sample_builder_def disable_introspection_def builder_register_def dyn_build_def)
  moreover have "ti_system_scalars sample_infos = Done" by (simp add: sample_infos_def)
  ultimately show ?thesis
    using registered entities
    by (simp add: finish_def add_system_types_def federate_def Let_def schema_of_def)
qed


lemmas exec_steps =
  ex_bind_def ex_map_def ex_return_def ex_fail_def ex_lift_def resolver_result_def internal_error_def dyn_collect_all_def

lemma sample_container:
  "\<exists>v. dyn_container (Suc 1) (sample_dyn_env (Inr (Some (FVValue (CBoolean True))))) (node (od_selection_set ok_operation))
     None (sample_dyn_object (Inr (Some (FVValue (CBoolean True))))) (FVAny ()) [] = Done (Inr (Some v), [])"
  by (simp add: exec_steps dyn_collect.simps try_seq_def try_ok_def pending_of_def answers_introspection_def Let_def
      sample_dyn_defs ok_operation_defs dyn_pending_value_def dyn_named_def dyn_resolve_value_def argument_values_def
      dyn_scalar_validate_def create_value_object_def)

theorem resolved_values_conform_witness:
  "\<exists>ps kvs v. dyn_container (Suc 1) (sample_dyn_env (Inr (Some (FVValue (CBoolean True))))) (node (od_selection_set ok_operation))
     None (sample_dyn_object (Inr (Some (FVValue (CBoolean True))))) (FVAny ()) [] = Done (Inr (Some (create_value_object kvs)), []) \<and>
     results_of (pending_conforms (sample_dyn_env (Inr (Some (FVValue (CBoolean True)))))
       (sample_dyn_object (Inr (Some (FVValue (CBoolean True)))))) ps kvs"
proof -
  from sample_container obtain v where
    v: "dyn_container (Suc 1) (sample_dyn_env (Inr (Some (FVValue (CBoolean True))))) (node (od_selection_set ok_operation))
      None (sample_dyn_object (Inr (Some (FVValue (CBoolean True))))) (FVAny ()) [] = Done (Inr (Some v), [])" by blast
  from resolved_values_conform [OF v] show ?thesis using v by (auto simp del: dyn_container.simps)
qed

subsection \<open>What dynamic schemas do not do\<close>

text \<open>The error of a resolver has no path, and it fails the container even when the field may be null.\<close>

lemma resolver_error_without_path:
  assumes "argument_values ev (f_arguments (node fld)) = Inr args"
    and "df_resolver_fn f (default_arguments (df_arguments f) args) parent = Inl e"
  shows "dyn_pending_value ev container path t parent (DynField f fld) errs = Done (Inl (into_server_error e (pos fld)), errs) \<and>
    se_path (into_server_error e (pos fld)) = []"
  using assms by (simp add: dyn_pending_value_def Let_def exec_steps into_server_error_def)

text \<open>With an entity resolver and no entities the type \<open>_Entity\<close> is not there, and the execution panics.\<close>

lemma entities_panic:
  assumes "ys_entity_resolver (de_schema ev) = Some resolver" "map_of (ys_types (de_schema ev)) ''_Entity'' = None"
    and "argument_values ev (f_arguments (node fld)) = Inr args" "resolver args parent = Inr (Some (FVList [fv]))"
  shows "dyn_pending_value ev container path t parent (DynEntities fld) errs = Panicked"
  using assms
  by (simp add: dyn_pending_value_def Let_def exec_steps named_list_nn_def dyn_named_def)

text \<open>The fields that a subscription selects in a fragment have no stream.\<close>

lemma fragment_not_subscribed:
  assumes "node selection = SelInline inl \<or> node selection = SelSpread spread"
  shows "collect_streams n ev sub (SelSet [selection]) root_value = []"
  using assms by (auto simp: collect_streams_def)

end
