(* ===== verification/Spec2Isabelle.thy ===== *)
theory Spec2Isabelle
  imports Samples Edit_Distance Type_Names Registry_Facts Value_Facts Execution_Bound
    Websocket_Runs Data_Loader_Runs Registry_Register Parse_Schema_Facts Input_Facts
    Stringify Sdl_Facts Connections Serialization_Facts Dynamic_Resolve_Facts
begin

text \<open>
  A verification development for gqlrs, a GraphQL server library in Rust. It models the library as
  it is written, component by component, and proves what makes the components correct.

  \<^bold>\<open>The program.\<close> A request is a document with variables. The parser (\<open>src/parser\<close>) turns its text into an
  executable document; \<open>prepare_request\<close> (\<open>src/src/schema.rs\<close>) checks the limits on recursion, directives and
  aliases, validates the document against the registry of types (\<open>src/src/validation\<close>, \<open>src/src/registry\<close>),
  chooses the operation and removes what \<open>@skip\<close> and \<open>@include\<close> exclude; \<open>execute_once\<close> then collects the
  fields of the selection set and resolves them (\<open>src/src/resolver_utils\<close>, \<open>src/src/context.rs\<close>). Resolvers
  batch their loads with a data loader (\<open>src/src/dataloader\<close>), and subscriptions run over a websocket
  (\<open>src/src/http/websocket.rs\<close>). A dynamic schema (\<open>src/src/dynamic\<close>) is built and checked at run time, and its
  requests go through the same preparation to an execution of its own.

  \<^bold>\<open>Theories that model.\<close>
  \<^item> \<open>Prelude\<close>: runs that may panic or run out of fuel, association lists for the hash maps, text.
  \<^item> \<open>Values\<close> (\<open>src/value/src\<close>): constants and values, their equality, conversions and printing.
  \<^item> \<open>Serialization\<close> (\<open>src/value/src\<close>): the serializer into constants and the deserializer from them, with the
    data model of serde as a datatype of calls and a record of visitor methods.
  \<^item> \<open>Ast\<close> (\<open>src/parser/src/types\<close>): positions, types, selections, documents.
  \<^item> \<open>Parse_Text\<close>, \<open>Parse_Tree\<close>, \<open>Parse_Schema\<close> (\<open>src/parser/src/parse\<close>): string literals, and query and schema
    documents from the tree of the generated parser, with the positions of the source.
  \<^item> \<open>Registry\<close> (\<open>src/src/registry\<close>): type names, metadata, cache control; \<open>Registry_Build\<close> registers types under
    their names, \<open>Registry_Usage\<close> finds the entities, the unused and the visible types of a registry.
  \<^item> \<open>Scalars\<close>, \<open>Input_Types\<close> (\<open>src/src/types\<close>, \<open>src/src/validators\<close>): the scalars, the input types built from
    others, and the validators of inputs.
  \<^item> \<open>Visitor\<close>, \<open>Traversal\<close> (\<open>src/src/validation/visitor.rs\<close>): the context, the hooks of a visitor as a record
    of functions, their composition and the traversal of a document.
  \<^item> \<open>Input_Check\<close>, \<open>Suggestion\<close>: input values against their types, suggestions for misspelt names.
  \<^item> \<open>Rules_Stateless\<close>, \<open>Rules_Stateful\<close>, \<open>Rules_Scoped\<close> (\<open>src/src/validation/rules\<close>): the rules that look at one
    node, those that keep some state, and those that collect facts per scope and search the fragments.
  \<^item> \<open>Calculators\<close>, \<open>Validation\<close>: depth, complexity and cache control; \<open>check_rules\<close> in both modes.
  \<^item> \<open>Schema_Prepare\<close>, \<open>Execution\<close>: \<open>prepare_request\<close>, \<open>execute_once\<close> and \<open>execute\<close>, with the resolution of
    containers, lists, options and results.
  \<^item> \<open>Stringify\<close>, \<open>Export_Sdl\<close> (\<open>src/src/registry\<close>): a document as text with its secrets redacted, a registry as
    text in the schema definition language; \<open>Connections\<close> (\<open>src/src/types/connection\<close>): cursors and pages.
  \<^item> \<open>Dynamic_Types\<close>, \<open>Dynamic_Check\<close>, \<open>Dynamic_Schema\<close>, \<open>Dynamic_Resolve\<close> (\<open>src/src/dynamic\<close>): the types of a dynamic
    schema and their registration, the check, the builder with \<open>finish\<close>, the execution and the streams.
  \<^item> \<open>Websocket\<close>, \<open>Data_Loader\<close>: the two protocols, as state with one definition per operation.

  \<^bold>\<open>Theories that prove.\<close>
  \<^item> \<open>Trace\<close>, \<open>Reporting\<close>, \<open>Composition\<close>, \<open>Rule_Frames\<close>: the traversal as a fold over a trace, visitors that
    only report, and the composition of visitors as the visitors side by side.
  \<^item> \<open>Graph_Search\<close>, \<open>Cycle_Search\<close>: the searches of the rules, reachability and cycles in a graph.
  \<^item> \<open>Scope_Events\<close>, \<open>Scope_Collect\<close>, \<open>Scoped_Semantics\<close>, \<open>Strict_Semantics\<close>: what the rules over scopes
    record, what they accept in terms of the document alone, and the strict mode as a whole.
  \<^item> \<open>Depth_Bound\<close>, \<open>Execution_Bound\<close>: the recursion limit bounds validation and execution.
  \<^item> \<open>Execution_Facts\<close>: errors of an execution point to nulls of its data.
  \<^item> \<open>Websocket_Runs\<close>, \<open>Data_Loader_Runs\<close>: step relations over the two protocols and their invariants.
  \<^item> \<open>Edit_Distance\<close>, \<open>Type_Names\<close>, \<open>Registry_Facts\<close>, \<open>Value_Facts\<close>: functional facts of single components.
  \<^item> \<open>Serialization_Facts\<close>: the serializer returns and writes plain constants; what values are read back as.
  \<^item> \<open>Registry_Closure\<close>, \<open>Registry_Register\<close>: what is kept and shown of a registry, and what registering keeps.
  \<^item> \<open>Parse_Text_Facts\<close>, \<open>Parse_Facts\<close>, \<open>Parse_Schema_Facts\<close>: what is written is read back, and the conversion
    of a tree of the grammar never panics; positions are those of the source, documents are well named.
  \<^item> \<open>Input_Facts\<close>: the scalars and input types read back what they write, and nothing wraps on the way.
  \<^item> \<open>Sdl_Facts\<close>: what is exported is read back, and where the order of a registry does not show. \<open>Stringify\<close> and
    \<open>Connections\<close> hold their own facts: the redaction hides secrets, the cursors of a page lead on from it.
  \<^item> \<open>Dynamic_Check_Facts\<close>: the check accepts the well-formed schemas, its search finds the cycles of required
    inputs, its subtypes are inclusions. \<open>Dynamic_Resolve_Facts\<close>: the values an execution returns are of their
    types, and on a schema that has been finished the execution answers.
  \<^item> \<open>Samples\<close>: small schemas and documents on which the witnesses evaluate the model.

  \<^bold>\<open>Interfaces.\<close> The contracts between components are locales: \<open>rule\<close> and \<open>hooks_keep\<close> (what the traversal
  asks of a visitor and what it keeps), interpreted for every rule and for the calculators; \<open>graph_search\<close> and
  \<open>marking_search\<close> (searches that mark what they enter), interpreted for the rules and for the registry; \<open>ws_part\<close>
  (what every part of \<open>poll_next\<close> keeps of the protocol); \<open>cache_laws\<close> (what the data loader asks of a cache);
  \<open>numbers\<close> (what the scalars ask of the numbers of JSON), \<open>scalar\<close> and \<open>input\<close> (types that read what they write);
  \<open>cursor\<close> (what connections ask of a cursor type).

  \<^bold>\<open>Fuel.\<close> Code that follows fragment spreads, and the resolution of an object below a field, takes a unit of
  fuel for each. The fuel is one more than the recursion limit; \<open>prepare_request_bounded\<close> and
  \<open>execute_request_bounded\<close> show that it never runs out, because the limit is checked first. The containers of a dynamic schema take a unit each, and two more than
  the limit are enough (\<open>finished_schema_answers\<close>). The search of the check through input objects takes one for
  each type (\<open>required_cycle_found\<close>).

  \<^bold>\<open>Conventions.\<close> Hash maps and sets are association lists and lists where their order can show, else maps
  and sets. Panics are a value of \<open>run\<close>. Numbers of JSON, floating point numbers and binary data are opaque.
  Futures are ready when they are first polled; the tasks of a data loader and the events of a websocket
  interleave freely.

  \<^bold>\<open>Not modelled.\<close> The parser that an external crate generates from the grammar is a parameter: its trees follow the
  productions of \<open>graphql.pest\<close> (\<open>production\<close> and \<open>leaf_text\<close> of \<open>Parse_Facts\<close>). The macros of the derive crate generate code at compile time; only the shapes of the field
  resolvers they generate are modelled. The integrations are glue to web frameworks; extensions and
  custom directives are user code around the phases, and none is registered in the model. The macro \<open>value!\<close> and the
  feature \<open>raw_value\<close> of the value crate, the resolvers of the introspection schema and
  the least-recently-used cache of the data loader (a crate of its own) are left out; where a dynamic schema
  answers introspection, how it does is an argument. Look-ahead, HTTP transports with their multipart bodies, and
  the setters that macros generate for the optional attributes of dynamic types are left out too.
\<close>

section \<open>Validation\<close>

text \<open>C1: the strict mode of \<open>check_rules\<close> is exact. On a document whose operation names are distinct
  (they are the keys of a hash map) it returns a result exactly when every schema rule accepts the
  document, the fragment spreads have no cycle, every fragment is reachable from an operation, every
  variable used in a scope reachable from an operation is defined by it and every variable an
  operation defines is used in such a scope, and the calculated complexity and depth are within the
  limits.\<close>

theorem strict_mode_exact:
  assumes "distinct_operations doc"
  shows "check_rules n call reg doc vars opname Strict lc ld = Done (Inr r) \<longleftrightarrow>
    schema_rules_accept n doc (start_context reg doc vars opname lc ld) \<and>
    fragments_acyclic doc \<and> no_fragment_unused doc \<and> variables_defined doc \<and> variables_used doc \<and>
    calculated n call doc (start_context reg doc vars opname lc ld) r \<and>
    \<not> above_limit (vr_complexity r) lc \<and> \<not> above_limit (vr_depth r) ld"
  using check_rules_strict [OF assms] .

theorem strict_mode_exact_witness:
  "distinct_operations cyclic_document \<and>
   (\<forall>n r. check_rules n sample_call sample_registry cyclic_document None None Strict None None \<noteq> Done (Inr r))"
  using strict_mode_exact [of cyclic_document] cyclic_document_cyclic by simp

text \<open>C2: preparing a request always returns or panics; it never recurses without bound, whatever
  the document, the limits and the schema, because the recursion limit is checked before anything
  enters a fragment from its spread.\<close>

theorem prepare_request_bounded:
  "prepare_request reg call mode max_depth md ma lc ld doc vars opname intro \<noteq> OutOfFuel"
  by (rule prepare_request_no_fuel)

text \<open>C9: the composition of the strict rules is the rules side by side, but for the variable
  positions: \<open>VisitorCons\<close> does not pass on the input values \<open>VariableInAllowedPosition\<close> listens to,
  so that rule has no effect on what the composition accepts.\<close>

theorem strict_rules_compose:
  assumes "clean ctx"
  shows "accepts n strict_rules strict_init doc ctx \<longleftrightarrow>
    schema_rules_accept n doc ctx \<and>
    accepts n no_fragment_cycles nfc_init doc ctx \<and>
    accepts n no_unused_fragments nuf_init doc ctx \<and>
    accepts n no_undefined_variables nud_init doc ctx \<and>
    accepts n no_unused_variables nuv_init doc ctx"
  using accepts_strict_rules [OF assms] .

theorem strict_rules_compose_witness:
  "clean (sample_context misplaced_document) \<and>
   accepts 1 strict_rules strict_init misplaced_document (sample_context misplaced_document)"
  using misplaced_schema misplaced_document_traversable
  by (simp add: strict_rules_compose misplaced_document_facts accepts_no_fragment_cycles
      accepts_no_unused_fragments accepts_no_undefined_variables accepts_no_unused_variables)

text \<open>A document with an \<open>Int\<close> variable in the position of a \<open>String!\<close> argument passes the strict
  mode, although \<open>VariableInAllowedPosition\<close>, run alone as its unit tests do, rejects it.\<close>

theorem misplaced_variable_passes:
  "(\<exists>r. check_rules 1 sample_call sample_registry misplaced_document None None Strict None None = Done (Inr r)) \<and>
   \<not> accepts 1 variable_in_allowed_position vap_init misplaced_document (sample_context misplaced_document)"
proof -
  have "start_context sample_registry misplaced_document None None None None = sample_context misplaced_document"
    by (simp add: start_context_def sample_context_def set_limits_def visitor_context_new_def)
  then show ?thesis
    using misplaced_calculated misplaced_schema misplaced_document_facts misplaced_document_rejected
    by (auto simp: check_rules_strict above_limit_def)
qed

text \<open>C10: \<open>NoFragmentCycles\<close> accepts exactly the documents whose graph of fragment spreads is acyclic.\<close>

theorem fragment_cycles_exact:
  assumes "clean ctx"
  shows "accepts n no_fragment_cycles nfc_init doc ctx \<longleftrightarrow>
    traversable n doc ctx \<and> acyclic {(f, g). g \<in> scope_spreads_of doc (ScopeFragment f)}"
  using accepts_no_fragment_cycles [OF assms] by (simp add: fragments_acyclic_def)

theorem fragment_cycles_exact_witness:
  "clean (sample_context cyclic_document) \<and>
   \<not> accepts 1 no_fragment_cycles nfc_init cyclic_document (sample_context cyclic_document)"
  using fragment_cycles_exact [of "sample_context cyclic_document" 1 cyclic_document]
    cyclic_document_cyclic by (simp add: fragments_acyclic_def)

text \<open>\<open>NoUnusedFragments\<close> accepts exactly the documents each fragment of which is reachable from
  an operation along the spreads.\<close>

theorem unused_fragments_exact:
  assumes "clean ctx"
  shows "accepts n no_unused_fragments nuf_init doc ctx \<longleftrightarrow>
    traversable n doc ctx \<and>
    (\<forall>(f, _)\<in>set (doc_fragments doc). \<exists>(opname, _)\<in>set (operations_iter (doc_operations doc)).
       scope_reaches doc (ScopeOperation opname) (ScopeFragment f))"
  using accepts_no_unused_fragments [OF assms] by (simp add: no_fragment_unused_def)

theorem unused_fragments_exact_witness:
  "clean (sample_context misplaced_document) \<and>
   accepts 1 no_unused_fragments nuf_init misplaced_document (sample_context misplaced_document)"
  using unused_fragments_exact [of "sample_context misplaced_document" 1 misplaced_document]
    misplaced_document_traversable by (simp add: misplaced_document_def)

text \<open>C11: \<open>NoUndefinedVariables\<close> accepts exactly the documents in which an operation defines every
  variable used in it or in a fragment it reaches.\<close>

theorem undefined_variables_exact:
  assumes "clean ctx" "distinct_operations doc"
  shows "accepts n no_undefined_variables nud_init doc ctx \<longleftrightarrow>
    traversable n doc ctx \<and>
    (\<forall>(opname, od)\<in>set (operations_iter (doc_operations doc)). \<forall>sc.
       scope_reaches doc (ScopeOperation opname) sc \<longrightarrow>
       scope_variables_of doc sc \<subseteq> operation_variables (node od))"
  using accepts_no_undefined_variables [OF assms] by (simp add: variables_defined_def)

theorem undefined_variables_exact_witness:
  "clean (sample_context misplaced_document) \<and> distinct_operations misplaced_document \<and>
   accepts 1 no_undefined_variables nud_init misplaced_document (sample_context misplaced_document)"
  using undefined_variables_exact [of "sample_context misplaced_document" misplaced_document 1]
    misplaced_document_traversable misplaced_document_facts(3) by (simp add: variables_defined_def)

text \<open>C12: \<open>NoUnusedVariables\<close> accepts exactly the documents in which every variable an operation
  defines is used in it or in a fragment it reaches.\<close>

theorem unused_variables_exact:
  assumes "clean ctx" "distinct_operations doc"
  shows "accepts n no_unused_variables nuv_init doc ctx \<longleftrightarrow>
    traversable n doc ctx \<and>
    (\<forall>(opname, od)\<in>set (operations_iter (doc_operations doc)). \<forall>x\<in>operation_variables (node od). \<exists>sc.
       scope_reaches doc (ScopeOperation opname) sc \<and> x \<in> scope_variables_of doc sc)"
  using accepts_no_unused_variables [OF assms] by (simp add: variables_used_def)

theorem unused_variables_exact_witness:
  "clean (sample_context misplaced_document) \<and> distinct_operations misplaced_document \<and>
   accepts 1 no_unused_variables nuv_init misplaced_document (sample_context misplaced_document)"
  using unused_variables_exact [of "sample_context misplaced_document" misplaced_document 1]
    misplaced_document_traversable misplaced_document_facts(4) by (simp add: variables_used_def)

text \<open>The traversal with the strict rules changes nothing of the context (the registry, the
  fragments, the two type stacks, the limit flag) but appends to the errors.\<close>

theorem strict_rules_only_report:
  assumes "visit n strict_rules doc (ctx, s) = Done (ctx', s')"
  shows "\<exists>es. ctx' = ctx\<lparr>vc_errors := vc_errors ctx @ es\<rparr>"
  using strict.visit_reports [OF assms] by (simp add: reports_def append_errors_def)

theorem strict_rules_only_report_witness:
  "\<exists>s. visit 1 strict_rules misplaced_document (sample_context misplaced_document, strict_init) =
         Done (sample_context misplaced_document, s) \<and>
       (\<exists>es. sample_context misplaced_document = (sample_context misplaced_document)
          \<lparr>vc_errors := vc_errors (sample_context misplaced_document) @ es\<rparr>)"
  using misplaced_accepted strict_rules_only_report unfolding accepts_def by blast



end
